(* ===== verification/Prelude.thy ===== *)
theory Prelude
  imports Main
begin

section \<open>Shared vocabulary: JSON values, exceptions, strings, options\<close>

text \<open>
  What every component of the development uses: the JSON values the code stores and
  exchanges (\<open>json.dumps\<close> / \<open>json.loads\<close> of the Python standard library, kept in
  parsed form), the payload of a Redis string, the typed readers of a Python
  \<open>dict\<close>, and the generic lemmas on options, lists and characters that the
  component proofs share. The collection \<open>keys\<close> gathers the facts that tell two
  Redis keys apart.
\<close>

named_theorems keys \<open>disequalities and injectivity of the Redis key builders\<close>

type_synonym slug = string

subsection \<open>JSON values and stored strings\<close>

text \<open>
  A floating-point number is kept as its \<open>repr\<close>, the text \<open>json.dumps\<close> prints.
\<close>

datatype json =
    JNull
  | JBool bool
  | JInt int
  | JFloat string
  | JStr string
  | JList "json list"
  | JObj "(string \<times> json) list"

text \<open>
  The text held by a Redis string, by what the code put there: plain text (a hash, a
  token, the marker \<open>__reserved__\<close>), a decimal number (a counter, the marker
  \<open>1\<close>), or the output of \<open>json.dumps\<close>.
\<close>

datatype payload = Text string | Number int | Doc json

text \<open>\<open>json.loads\<close> on a stored string: \<open>None\<close> is \<open>JSONDecodeError\<close>.\<close>

fun json_loads :: "payload \<Rightarrow> json option" where
  "json_loads (Doc j) = Some j"
| "json_loads (Number n) = Some (JInt n)"
| "json_loads (Text t) = None"

subsection \<open>Exceptions\<close>

datatype py_error =
    KeyError string
  | TypeError
  | ValueError string
  | RuntimeError string
  | HTTPException nat string
  | ChannelCreationError string nat
  | SQLAlchemyError
  | StripeError

text \<open>The sequential composition of computations that may raise.\<close>

definition bind_sum :: "'e + 'a \<Rightarrow> ('a \<Rightarrow> 'e + 'b) \<Rightarrow> 'e + 'b" where
  "bind_sum r f = (case r of Inl e \<Rightarrow> Inl e | Inr x \<Rightarrow> f x)"

lemma bind_sum_simps [simp]:
  "bind_sum (Inl e) f = Inl e"
  "bind_sum (Inr x) f = f x"
  by (simp_all add: bind_sum_def)

lemma bind_sum_Inr_iff:
  "bind_sum r f = Inr y \<longleftrightarrow> (\<exists>x. r = Inr x \<and> f x = Inr y)"
  by (cases r) auto

text \<open>The same for computations that also change a state, which stays changed when they raise.\<close>

definition and_then :: "('e + 'a) \<times> 's \<Rightarrow> ('a \<Rightarrow> 's \<Rightarrow> ('e + 'b) \<times> 's) \<Rightarrow> ('e + 'b) \<times> 's" where
  "and_then r f = (case r of (Inl e, s) \<Rightarrow> (Inl e, s) | (Inr x, s) \<Rightarrow> f x s)"

lemma and_then_simps [simp]:
  "and_then (Inl e, s) f = (Inl e, s)"
  "and_then (Inr x, s) f = f x s"
  by (simp_all add: and_then_def)

lemma and_then_Inr_iff:
  "and_then r f = (Inr y, s') \<longleftrightarrow> (\<exists>x s. r = (Inr x, s) \<and> f x s = (Inr y, s'))"
  by (auto simp: and_then_def split: prod.splits sum.splits)

subsection \<open>Readers of a Python dict decoded from JSON\<close>

text \<open>
  \<open>data[k]\<close> raises \<open>KeyError\<close> on a missing key, \<open>data.get(k, default)\<close> does not.
  A value whose JSON type is not the one the dataclass declares has no place in a typed
  record: the readers report it as \<open>TypeError\<close>.
\<close>

definition req_str :: "(string \<times> json) list \<Rightarrow> string \<Rightarrow> py_error + string" where
  "req_str d k = (case map_of d k of
       None \<Rightarrow> Inl (KeyError k)
     | Some (JStr v) \<Rightarrow> Inr v
     | Some _ \<Rightarrow> Inl TypeError)"

definition get_str :: "(string \<times> json) list \<Rightarrow> string \<Rightarrow> string \<Rightarrow> py_error + string" where
  "get_str d k dflt = (case map_of d k of
       None \<Rightarrow> Inr dflt
     | Some (JStr v) \<Rightarrow> Inr v
     | Some _ \<Rightarrow> Inl TypeError)"

definition get_int :: "(string \<times> json) list \<Rightarrow> string \<Rightarrow> int \<Rightarrow> py_error + int" where
  "get_int d k dflt = (case map_of d k of
       None \<Rightarrow> Inr dflt
     | Some (JInt v) \<Rightarrow> Inr v
     | Some _ \<Rightarrow> Inl TypeError)"

definition get_opt_str :: "(string \<times> json) list \<Rightarrow> string \<Rightarrow> py_error + string option" where
  "get_opt_str d k = (case map_of d k of
       None \<Rightarrow> Inr None
     | Some JNull \<Rightarrow> Inr None
     | Some (JStr v) \<Rightarrow> Inr (Some v)
     | Some _ \<Rightarrow> Inl TypeError)"

definition get_opt_int :: "(string \<times> json) list \<Rightarrow> string \<Rightarrow> py_error + int option" where
  "get_opt_int d k = (case map_of d k of
       None \<Rightarrow> Inr None
     | Some JNull \<Rightarrow> Inr None
     | Some (JInt v) \<Rightarrow> Inr (Some v)
     | Some _ \<Rightarrow> Inl TypeError)"

definition json_opt_str :: "string option \<Rightarrow> json" where
  "json_opt_str x = (case x of None \<Rightarrow> JNull | Some v \<Rightarrow> JStr v)"

definition json_opt_int :: "int option \<Rightarrow> json" where
  "json_opt_int x = (case x of None \<Rightarrow> JNull | Some v \<Rightarrow> JInt v)"

text \<open>The readers on a dict that holds the key, and on one that does not.\<close>

lemma req_str_Some [simp]: "map_of d k = Some (JStr v) \<Longrightarrow> req_str d k = Inr v"
  by (simp add: req_str_def)

lemma req_str_None [simp]: "map_of d k = None \<Longrightarrow> req_str d k = Inl (KeyError k)"
  by (simp add: req_str_def)

lemma get_str_Some [simp]: "map_of d k = Some (JStr v) \<Longrightarrow> get_str d k dflt = Inr v"
  by (simp add: get_str_def)

lemma get_str_None [simp]: "map_of d k = None \<Longrightarrow> get_str d k dflt = Inr dflt"
  by (simp add: get_str_def)

lemma get_int_Some [simp]: "map_of d k = Some (JInt v) \<Longrightarrow> get_int d k dflt = Inr v"
  by (simp add: get_int_def)

lemma get_int_None [simp]: "map_of d k = None \<Longrightarrow> get_int d k dflt = Inr dflt"
  by (simp add: get_int_def)

lemma get_opt_str_Some [simp]:
  "map_of d k = Some (json_opt_str v) \<Longrightarrow> get_opt_str d k = Inr v"
  by (simp add: get_opt_str_def json_opt_str_def split: option.splits)

lemma get_opt_str_None [simp]: "map_of d k = None \<Longrightarrow> get_opt_str d k = Inr None"
  by (simp add: get_opt_str_def)

lemma get_opt_int_Some [simp]:
  "map_of d k = Some (json_opt_int v) \<Longrightarrow> get_opt_int d k = Inr v"
  by (simp add: get_opt_int_def json_opt_int_def split: option.splits)

lemma get_opt_int_None [simp]: "map_of d k = None \<Longrightarrow> get_opt_int d k = Inr None"
  by (simp add: get_opt_int_def)

subsection \<open>Truth values of Python\<close>

text \<open>\<open>if x:\<close> on an optional string: \<open>None\<close> and the empty string are false.\<close>

definition truthy :: "string option \<Rightarrow> bool" where
  "truthy x = (case x of None \<Rightarrow> False | Some v \<Rightarrow> v \<noteq> [])"

lemma truthy_simps [simp]:
  "truthy None = False"
  "truthy (Some v) = (v \<noteq> [])"
  by (simp_all add: truthy_def)

text \<open>\<open>x or y\<close> on strings.\<close>

definition str_or :: "string option \<Rightarrow> string \<Rightarrow> string" where
  "str_or x dflt = (case x of None \<Rightarrow> dflt | Some v \<Rightarrow> (if v = [] then dflt else v))"

lemma option_ext: "(\<And>v. x = Some v \<longleftrightarrow> y = Some v) \<Longrightarrow> x = y"
  by (metis option.exhaust)

text \<open>\<open>if v:\<close> on a decoded JSON value, and on the result of \<open>d.get(k)\<close>.\<close>

fun json_true :: "json \<Rightarrow> bool" where
  "json_true JNull = False"
| "json_true (JBool b) = b"
| "json_true (JInt n) = (n \<noteq> 0)"
| "json_true (JFloat t) = (t \<notin> {''0.0'', ''-0.0''})"
| "json_true (JStr t) = (t \<noteq> [])"
| "json_true (JList xs) = (xs \<noteq> [])"
| "json_true (JObj d) = (d \<noteq> [])"

definition get_true :: "(string \<times> json) list \<Rightarrow> string \<Rightarrow> bool" where
  "get_true d k = (case map_of d k of None \<Rightarrow> False | Some v \<Rightarrow> json_true v)"

subsection \<open>Strings\<close>

text \<open>A separator character splits a string in one way only.\<close>

lemma append_sep_inject:
  assumes "c \<notin> set xs" and "c \<notin> set xs'"
  shows "xs @ c # ys = xs' @ c # ys' \<longleftrightarrow> xs = xs' \<and> ys = ys'"
  using assms
proof (induction xs arbitrary: xs')
  case Nil
  then show ?case by (cases xs') auto
next
  case (Cons x xs)
  then show ?case by (cases xs') auto
qed

text \<open>\<open>sep.join(parts)\<close>.\<close>

fun join :: "string \<Rightarrow> string list \<Rightarrow> string" where
  "join sep [] = []"
| "join sep [w] = w"
| "join sep (w # v # ws) = w @ sep @ join sep (v # ws)"

lemma set_join_subset: "set (join sep ws) \<subseteq> set sep \<union> (\<Union>w \<in> set ws. set w)"
  by (induction sep ws rule: join.induct) auto

lemma length_join:
  "ws \<noteq> [] \<Longrightarrow> length (join sep ws) = sum_list (map length ws) + (length ws - 1) * length sep"
  by (induction sep ws rule: join.induct) auto

text \<open>\<open>sub in s\<close>.\<close>

fun contains :: "string \<Rightarrow> string \<Rightarrow> bool" where
  "contains sub [] = (sub = [])"
| "contains sub (c # cs) = (take (length sub) (c # cs) = sub \<or> contains sub cs)"

lemma contains_set: "contains sub s \<Longrightarrow> set sub \<subseteq> set s"
proof (induction s)
  case Nil
  then show ?case by simp
next
  case (Cons c cs)
  show ?case
  proof (cases "take (length sub) (c # cs) = sub")
    case True
    then show ?thesis by (metis set_take_subset)
  next
    case False
    with Cons.prems have "contains sub cs" by simp
    then have "set sub \<subseteq> set cs" by (rule Cons.IH)
    then show ?thesis by auto
  qed
qed

text \<open>\<open>str.lower()\<close> on ASCII letters.\<close>

definition lower_char :: "char \<Rightarrow> char" where
  "lower_char c = (if 65 \<le> (of_char c :: nat) \<and> (of_char c :: nat) \<le> 90
                   then char_of ((of_char c :: nat) + 32) else c)"

definition lower :: "string \<Rightarrow> string" where
  "lower s = map lower_char s"

text \<open>\<open>s.split(sep)\<close> on a one-character separator.\<close>

fun split_on :: "char \<Rightarrow> string \<Rightarrow> string list" where
  "split_on sep [] = [[]]"
| "split_on sep (c # cs) =
     (if c = sep then [] # split_on sep cs
      else (case split_on sep cs of [] \<Rightarrow> [[c]] | w # ws \<Rightarrow> (c # w) # ws))"

lemma split_on_ne [simp]: "split_on sep s \<noteq> []"
  by (induction s) (auto split: list.splits)

lemma split_on_append:
  "split_on sep (xs @ sep # ys) = split_on sep xs @ split_on sep ys"
proof (induction xs)
  case Nil
  then show ?case by simp
next
  case (Cons x xs)
  then show ?case
    by (cases "split_on sep xs") (auto split: list.splits)
qed

lemma split_on_none: "sep \<notin> set s \<Longrightarrow> split_on sep s = [s]"
  by (induction s) auto

text \<open>\<open>s.strip()\<close> on ASCII text: blanks, tab to carriage return, and the separators 28 to 31.\<close>

definition is_space :: "char \<Rightarrow> bool" where
  "is_space c = (let n = of_char c :: nat in n = 32 \<or> 9 \<le> n \<and> n \<le> 13 \<or> 28 \<le> n \<and> n \<le> 31)"

definition strip :: "string \<Rightarrow> string" where
  "strip s = rev (dropWhile is_space (rev (dropWhile is_space s)))"

lemma strip_no_space:
  assumes "\<forall>c \<in> set s. \<not> is_space c"
  shows "strip s = s"
proof -
  have keep: "dropWhile is_space t = t" if "\<forall>c \<in> set t. \<not> is_space c" for t
    using that by (cases t) auto
  show ?thesis using assms by (simp add: strip_def keep)
qed

text \<open>
  \<open>int(s)\<close> on ASCII text: surrounding white space, an optional sign, decimal digits with
  single underscores between them. \<open>None\<close> is \<open>ValueError\<close>.
\<close>

definition digit_val :: "char \<Rightarrow> int option" where
  "digit_val c = (let n = of_char c :: nat in
     if 48 \<le> n \<and> n \<le> 57 then Some (int n - 48) else None)"

fun py_digits :: "int \<Rightarrow> string \<Rightarrow> int option" where
  "py_digits acc [] = Some acc"
| "py_digits acc (c # cs) =
     (if c = CHR ''_'' then
        (case cs of [] \<Rightarrow> None
         | d # ds \<Rightarrow> (case digit_val d of None \<Rightarrow> None | Some v \<Rightarrow> py_digits (10 * acc + v) ds))
      else (case digit_val c of None \<Rightarrow> None | Some v \<Rightarrow> py_digits (10 * acc + v) cs))"

definition py_nat :: "string \<Rightarrow> int option" where
  "py_nat s = (case s of [] \<Rightarrow> None
     | c # cs \<Rightarrow> (case digit_val c of None \<Rightarrow> None | Some v \<Rightarrow> py_digits v cs))"

definition py_int :: "string \<Rightarrow> int option" where
  "py_int s = (case strip s of
       [] \<Rightarrow> None
     | c # cs \<Rightarrow>
         (if c = CHR ''-'' then map_option uminus (py_nat cs)
          else if c = CHR ''+'' then py_nat cs
          else py_nat (c # cs)))"

subsection \<open>Decimal numerals and the length of printed JSON\<close>

fun dec_nat :: "nat \<Rightarrow> string" where
  "dec_nat n = (if n < 10 then [char_of (48 + n)] else dec_nat (n div 10) @ [char_of (48 + n mod 10)])"

declare dec_nat.simps [simp del]

definition dec_int :: "int \<Rightarrow> string" where
  "dec_int i = (if i < 0 then CHR ''-'' # dec_nat (nat (- i)) else dec_nat (nat i))"

text \<open>
  \<open>len(json.dumps(v))\<close> with the default separators and \<open>ensure_ascii\<close>: quotes, backslashes
  and the short escapes take two characters, everything else outside the printable ASCII
  range six.
\<close>

definition dumped_char :: "char \<Rightarrow> nat" where
  "dumped_char c = (let n = of_char c :: nat in
     if n \<in> {34, 92, 8, 9, 10, 12, 13} then 2
     else if n < 32 \<or> 126 < n then 6 else 1)"

definition dumped_str :: "string \<Rightarrow> nat" where
  "dumped_str s = 2 + sum_list (map dumped_char s)"

fun dumps_len :: "json \<Rightarrow> nat" where
  "dumps_len JNull = 4"
| "dumps_len (JBool b) = (if b then 4 else 5)"
| "dumps_len (JInt n) = length (dec_int n)"
| "dumps_len (JFloat t) = length t"
| "dumps_len (JStr s) = dumped_str s"
| "dumps_len (JList xs) = 2 + sum_list (map dumps_len xs) + 2 * (length xs - 1)"
| "dumps_len (JObj d) = 2 + sum_list (map (\<lambda>(k, v). dumped_str k + 2 + dumps_len v) d) + 2 * (length d - 1)"

end
