(* ===== verification/Redis_Server.thy ===== *)
theory Redis_Server
  imports Prelude
begin

section \<open>The Redis server the code talks to\<close>

text \<open>
  Redis is a service outside the repository. It is a parameter of every definition that
  uses it: a record of the commands the code issues, over an arbitrary server state.
  What the code relies on is the locale \<open>redis_server\<close>: the documented effect of each
  command on what a client can observe of the key space, which is \<open>look\<close>: the value
  under a key and its remaining time to live in seconds (\<open>None\<close> for a key without
  expiry). An expired key is not observable. Commands on a key of another type are
  errors in Redis, so their laws speak of keys of the right type only.

  The reference server at the end of the theory satisfies every law: it shows that they
  can hold together, and the concrete instances of the development run on it.
\<close>

subsection \<open>Values and commands\<close>

datatype rval =
    RStr payload
  | RSet "payload set"
  | RHash "string \<Rightarrow> payload option"

type_synonym cell = "(rval \<times> nat option) option"

text \<open>
  One field per command the code issues. \<open>elapse\<close> is not a command: it is the passing
  of time on the server.
\<close>

record 's redis =
  look :: "'s \<Rightarrow> string \<Rightarrow> cell"
  elapse :: "nat \<Rightarrow> 's \<Rightarrow> 's"
  SETEX :: "string \<Rightarrow> int \<Rightarrow> payload \<Rightarrow> 's \<Rightarrow> 's"
  SET_NX_EX :: "string \<Rightarrow> payload \<Rightarrow> int \<Rightarrow> 's \<Rightarrow> bool \<times> 's"
  SET_NX :: "string \<Rightarrow> payload \<Rightarrow> 's \<Rightarrow> bool \<times> 's"
  DEL :: "string \<Rightarrow> 's \<Rightarrow> 's"
  EXPIRE :: "string \<Rightarrow> int \<Rightarrow> 's \<Rightarrow> 's"
  INCRBY :: "string \<Rightarrow> int \<Rightarrow> 's \<Rightarrow> int \<times> 's"
  GETDEL :: "string \<Rightarrow> 's \<Rightarrow> payload option \<times> 's"
  SADD :: "string \<Rightarrow> payload \<Rightarrow> 's \<Rightarrow> 's"
  HSET :: "string \<Rightarrow> string \<Rightarrow> payload \<Rightarrow> 's \<Rightarrow> 's"
  HDEL :: "string \<Rightarrow> string \<Rightarrow> 's \<Rightarrow> 's"
  HKEYS :: "string \<Rightarrow> 's \<Rightarrow> string list"

subsection \<open>What a client reads of a cell\<close>

text \<open>The value part and the expiry of a cell, and its passing of time.\<close>

fun age :: "nat \<Rightarrow> cell \<Rightarrow> cell" where
  "age d None = None"
| "age d (Some (v, None)) = Some (v, None)"
| "age d (Some (v, Some t)) = (if t \<le> d then None else Some (v, Some (t - d)))"

fun cell_str :: "cell \<Rightarrow> payload option" where
  "cell_str (Some (RStr p, _)) = Some p"
| "cell_str _ = None"

fun cell_count :: "cell \<Rightarrow> int" where
  "cell_count (Some (RStr (Number n), _)) = n"
| "cell_count _ = 0"

fun cell_members :: "cell \<Rightarrow> payload set" where
  "cell_members (Some (RSet m, _)) = m"
| "cell_members _ = {}"

fun cell_hash :: "cell \<Rightarrow> string \<Rightarrow> payload option" where
  "cell_hash (Some (RHash m, _)) = m"
| "cell_hash _ = (\<lambda>_. None)"

fun cell_ttl :: "cell \<Rightarrow> nat option" where
  "cell_ttl None = None"
| "cell_ttl (Some (_, t)) = t"

text \<open>The time to live of a cell covers another expiry.\<close>

fun outlives :: "nat option \<Rightarrow> nat \<Rightarrow> bool" where
  "outlives None t = True"
| "outlives (Some e) t = (t \<le> e)"

fun is_counter :: "cell \<Rightarrow> bool" where
  "is_counter None = True"
| "is_counter (Some (RStr (Number n), _)) = True"
| "is_counter _ = False"

fun is_set :: "cell \<Rightarrow> bool" where
  "is_set None = True"
| "is_set (Some (RSet m, _)) = True"
| "is_set _ = False"

fun is_hash :: "cell \<Rightarrow> bool" where
  "is_hash None = True"
| "is_hash (Some (RHash m, _)) = True"
| "is_hash _ = False"

text \<open>
  The read commands. \<open>TTL\<close> answers -2 for a missing key and -1 for a key without expiry.
\<close>

definition GET :: "'s redis \<Rightarrow> string \<Rightarrow> 's \<Rightarrow> payload option" where
  "GET R k s = cell_str (look R s k)"

definition EXISTS :: "'s redis \<Rightarrow> string \<Rightarrow> 's \<Rightarrow> bool" where
  "EXISTS R k s = (look R s k \<noteq> None)"

definition TTL :: "'s redis \<Rightarrow> string \<Rightarrow> 's \<Rightarrow> int" where
  "TTL R k s = (case look R s k of
       None \<Rightarrow> -2
     | Some (_, None) \<Rightarrow> -1
     | Some (_, Some t) \<Rightarrow> int t)"

definition SISMEMBER :: "'s redis \<Rightarrow> string \<Rightarrow> payload \<Rightarrow> 's \<Rightarrow> bool" where
  "SISMEMBER R k v s = (v \<in> cell_members (look R s k))"

definition HGET :: "'s redis \<Rightarrow> string \<Rightarrow> string \<Rightarrow> 's \<Rightarrow> payload option" where
  "HGET R k f s = cell_hash (look R s k) f"

definition HEXISTS :: "'s redis \<Rightarrow> string \<Rightarrow> string \<Rightarrow> 's \<Rightarrow> bool" where
  "HEXISTS R k f s = (HGET R k f s \<noteq> None)"

definition HLEN :: "'s redis \<Rightarrow> string \<Rightarrow> 's \<Rightarrow> int" where
  "HLEN R k s = int (length (HKEYS R k s))"

text \<open>\<open>HGETALL\<close>: the fields with their values.\<close>

definition HGETALL :: "'s redis \<Rightarrow> string \<Rightarrow> 's \<Rightarrow> (string \<times> payload) list" where
  "HGETALL R k s = List.map_filter
     (\<lambda>f. map_option (Pair f) (HGET R k f s)) (HKEYS R k s)"

definition INCR :: "'s redis \<Rightarrow> string \<Rightarrow> 's \<Rightarrow> int \<times> 's" where
  "INCR R k s = INCRBY R k 1 s"

text \<open>\<open>DEL\<close> and \<open>HDEL\<close> of several names.\<close>

definition DELS :: "'s redis \<Rightarrow> string list \<Rightarrow> 's \<Rightarrow> 's" where
  "DELS R ks s = fold (DEL R) ks s"

definition HDELS :: "'s redis \<Rightarrow> string \<Rightarrow> string list \<Rightarrow> 's \<Rightarrow> 's" where
  "HDELS R k fs s = fold (HDEL R k) fs s"

subsection \<open>The documented behaviour\<close>

locale redis_server =
  fixes R :: "'s redis"
  assumes look_elapse: "look R (elapse R d s) k = age d (look R s k)"
    and look_SETEX: "0 < t \<Longrightarrow>
      look R (SETEX R k t v s) k' =
        (if k' = k then Some (RStr v, Some (nat t)) else look R s k')"
    and won_SET_NX_EX: "0 < t \<Longrightarrow> fst (SET_NX_EX R k v t s) = (look R s k = None)"
    and look_SET_NX_EX: "0 < t \<Longrightarrow>
      look R (snd (SET_NX_EX R k v t s)) k' =
        (if k' = k \<and> look R s k = None then Some (RStr v, Some (nat t)) else look R s k')"
    and won_SET_NX: "fst (SET_NX R k v s) = (look R s k = None)"
    and look_SET_NX: "look R (snd (SET_NX R k v s)) k' =
        (if k' = k \<and> look R s k = None then Some (RStr v, None) else look R s k')"
    and look_DEL: "look R (DEL R k s) k' = (if k' = k then None else look R s k')"
    and look_EXPIRE: "0 < t \<Longrightarrow>
      look R (EXPIRE R k t s) k' =
        (if k' = k then map_option (\<lambda>(v, _). (v, Some (nat t))) (look R s k)
         else look R s k')"
    and look_EXPIRE_past: "t \<le> 0 \<Longrightarrow>
      look R (EXPIRE R k t s) k' = (if k' = k then None else look R s k')"
    and count_INCRBY: "is_counter (look R s k) \<Longrightarrow>
      fst (INCRBY R k n s) = cell_count (look R s k) + n"
    and look_INCRBY: "is_counter (look R s k) \<Longrightarrow>
      look R (snd (INCRBY R k n s)) k' =
        (if k' = k then
           Some (RStr (Number (cell_count (look R s k) + n)), cell_ttl (look R s k))
         else look R s k')"
    and value_GETDEL: "fst (GETDEL R k s) = cell_str (look R s k)"
    and look_GETDEL: "look R (snd (GETDEL R k s)) k' =
        (if k' = k then None else look R s k')"
    and look_SADD: "is_set (look R s k) \<Longrightarrow>
      look R (SADD R k v s) k' =
        (if k' = k then
           Some (RSet (insert v (cell_members (look R s k))), cell_ttl (look R s k))
         else look R s k')"
    and look_HSET: "is_hash (look R s k) \<Longrightarrow>
      look R (HSET R k f v s) k' =
        (if k' = k then
           Some (RHash ((cell_hash (look R s k))(f \<mapsto> v)), cell_ttl (look R s k))
         else look R s k')"
    and look_HDEL: "is_hash (look R s k) \<Longrightarrow>
      look R (HDEL R k f s) k' =
        (if k' = k then
           (if (cell_hash (look R s k))(f := None) = Map.empty then None
            else Some (RHash ((cell_hash (look R s k))(f := None)), cell_ttl (look R s k)))
         else look R s k')"
    and HKEYS_fields: "set (HKEYS R k s) = dom (cell_hash (look R s k))"
    and HKEYS_distinct: "distinct (HKEYS R k s)"
begin

lemmas look_simps =
  look_elapse look_SETEX won_SET_NX_EX look_SET_NX_EX won_SET_NX look_SET_NX look_DEL
  look_EXPIRE look_EXPIRE_past count_INCRBY look_INCRBY value_GETDEL look_GETDEL look_SADD
  look_HSET

declare look_simps [simp]

lemma count_INCR [simp]:
  "is_counter (look R s k) \<Longrightarrow> fst (INCR R k s) = cell_count (look R s k) + 1"
  by (simp add: INCR_def)

lemma look_INCR [simp]:
  "is_counter (look R s k) \<Longrightarrow>
    look R (snd (INCR R k s)) k' =
      (if k' = k then
         Some (RStr (Number (cell_count (look R s k) + 1)), cell_ttl (look R s k))
       else look R s k')"
  by (simp add: INCR_def)

lemma look_DELS [simp]:
  "look R (DELS R ks s) k = (if k \<in> set ks then None else look R s k)"
proof (induction ks arbitrary: s)
  case Nil
  then show ?case by (simp add: DELS_def)
next
  case (Cons x xs)
  then show ?case by (simp add: DELS_def)
qed

lemma look_EXPIRE_other [simp]: "k' \<noteq> k \<Longrightarrow> look R (EXPIRE R k t s) k' = look R s k'"
  by (cases "0 < t") simp_all

lemma HLEN_card: "HLEN R k s = int (card (dom (cell_hash (look R s k))))"
  by (metis HLEN_def HKEYS_distinct HKEYS_fields distinct_card)

lemma finite_fields: "finite (dom (cell_hash (look R s k)))"
  by (metis HKEYS_fields List.finite_set)

end

text \<open>Reading commands depend on the observation only.\<close>

lemma GET_cong: "look R s k = look R s' k \<Longrightarrow> GET R k s = GET R k s'"
  by (simp add: GET_def)

lemma age_cases:
  obtains "age d c = None" | v t t' where "c = Some (v, t)" and "age d c = Some (v, t')"
proof (cases c)
  case (Some vt)
  then show ?thesis using that by (cases vt; cases "snd vt"; cases "the (snd vt) \<le> d") auto
qed (use that in simp)

lemma cell_str_Some [simp]: "cell_str (Some (v, t)) = (case v of RStr p \<Rightarrow> Some p | _ \<Rightarrow> None)"
  by (cases v) auto

lemma cell_count_Some [simp]:
  "cell_count (Some (v, t)) = (case v of RStr (Number n) \<Rightarrow> n | _ \<Rightarrow> 0)"
  by (auto split: rval.splits payload.splits)

lemma is_counter_Some [simp]:
  "is_counter (Some (v, t)) = (case v of RStr (Number n) \<Rightarrow> True | _ \<Rightarrow> False)"
  by (auto split: rval.splits payload.splits)

lemma age_age: "age d (age e c) = age (e + d) c"
  by (cases "(e, c)" rule: age.cases) auto

lemma cell_str_age: "cell_str (age d c) = Some p \<Longrightarrow> cell_str c = Some p"
  by (cases rule: age_cases [of d c]) auto

lemma is_counter_age [simp]: "is_counter c \<Longrightarrow> is_counter (age d c)"
  by (cases rule: age_cases [of d c]) auto

lemma cell_str_map_option [simp]:
  "cell_str (map_option (\<lambda>(v, _). (v, t)) c) = cell_str c"
  by (cases c) auto

lemma is_counter_map_option [simp]:
  "is_counter (map_option (\<lambda>(v, _). (v, t)) c) = is_counter c"
  by (cases c) auto

lemma cell_count_map_option [simp]:
  "cell_count (map_option (\<lambda>(v, _). (v, t)) c) = cell_count c"
  by (cases c) auto

subsection \<open>A reference server\<close>

text \<open>
  A clock and a table of cells with absolute deadlines. A hash is an association list,
  so that its fields can be listed.
\<close>

datatype sval = SStr payload | SSet "payload set" | SHash "(string \<times> payload) list"

record store =
  clock :: nat
  cells :: "string \<Rightarrow> (sval \<times> nat option) option"

fun sval_abs :: "sval \<Rightarrow> rval" where
  "sval_abs (SStr p) = RStr p"
| "sval_abs (SSet m) = RSet m"
| "sval_abs (SHash h) = RHash (map_of h)"

definition empty_store :: store where
  "empty_store = \<lparr>clock = 0, cells = (\<lambda>_. None)\<rparr>"

text \<open>The live cell under a key, with its remaining time.\<close>

definition live :: "store \<Rightarrow> string \<Rightarrow> (sval \<times> nat option) option" where
  "live st k = (case cells st k of
       None \<Rightarrow> None
     | Some (v, None) \<Rightarrow> Some (v, None)
     | Some (v, Some d) \<Rightarrow>
         (if clock st < d then Some (v, Some (d - clock st)) else None))"

definition put :: "string \<Rightarrow> (sval \<times> nat option) option \<Rightarrow> store \<Rightarrow> store" where
  "put k c st = st\<lparr>cells := (cells st)(k :=
     map_option (\<lambda>(v, t). (v, map_option (\<lambda>n. clock st + n) t)) c)\<rparr>"

definition ref_look :: "store \<Rightarrow> string \<Rightarrow> cell" where
  "ref_look st k = map_option (\<lambda>(v, t). (sval_abs v, t)) (live st k)"

definition live_ttl :: "store \<Rightarrow> string \<Rightarrow> nat option" where
  "live_ttl st k = (case live st k of None \<Rightarrow> None | Some (_, t) \<Rightarrow> t)"

definition live_hash :: "store \<Rightarrow> string \<Rightarrow> (string \<times> payload) list" where
  "live_hash st k = (case live st k of Some (SHash h, _) \<Rightarrow> h | _ \<Rightarrow> [])"

definition hash_fields :: "(string \<times> payload) list \<Rightarrow> string list" where
  "hash_fields h = remdups (map fst h)"

definition ref_redis :: "store redis" where
  "ref_redis = \<lparr>
     look = ref_look,
     elapse = (\<lambda>d st. st\<lparr>clock := clock st + d\<rparr>),
     SETEX = (\<lambda>k t v st. put k (Some (SStr v, Some (nat t))) st),
     SET_NX_EX = (\<lambda>k v t st.
       if live st k = None then (True, put k (Some (SStr v, Some (nat t))) st) else (False, st)),
     SET_NX = (\<lambda>k v st.
       if live st k = None then (True, put k (Some (SStr v, None)) st) else (False, st)),
     DEL = (\<lambda>k st. put k None st),
     EXPIRE = (\<lambda>k t st.
       if 0 < t then put k (map_option (\<lambda>(v, _). (v, Some (nat t))) (live st k)) st
       else put k None st),
     INCRBY = (\<lambda>k n st.
       (let m = cell_count (ref_look st k) + n
        in (m, put k (Some (SStr (Number m), live_ttl st k)) st))),
     GETDEL = (\<lambda>k st. (cell_str (ref_look st k), put k None st)),
     SADD = (\<lambda>k v st.
       put k (Some (SSet (insert v (cell_members (ref_look st k))), live_ttl st k)) st),
     HSET = (\<lambda>k f v st.
       put k (Some (SHash ((f, v) # live_hash st k), live_ttl st k)) st),
     HDEL = (\<lambda>k f st.
       (let h = filter (\<lambda>(g, _). g \<noteq> f) (live_hash st k)
        in put k (if h = [] then None else Some (SHash h, live_ttl st k)) st)),
     HKEYS = (\<lambda>k st. hash_fields (live_hash st k))\<rparr>"

lemma live_put [simp]:
  "live (put k c st) k' =
     (if k' = k then (case c of Some (v, Some 0) \<Rightarrow> None | _ \<Rightarrow> c) else live st k')"
  by (auto simp: live_def put_def split: option.splits nat.splits)

lemma live_pos: "live st k = Some (v, Some t) \<Longrightarrow> 0 < t"
  by (auto simp: live_def split: option.splits if_splits)

lemma live_elapse:
  "map_option (\<lambda>(v, t). (sval_abs v, t)) (live (st\<lparr>clock := clock st + d\<rparr>) k) =
     age d (map_option (\<lambda>(v, t). (sval_abs v, t)) (live st k))"
  by (auto simp: live_def split: option.splits)

text \<open>A cell to be written never has an expiry of zero seconds.\<close>

fun pos_ttl :: "nat option \<Rightarrow> bool" where
  "pos_ttl None = True"
| "pos_ttl (Some t) = (0 < t)"

lemma live_ttl_pos [simp]: "pos_ttl (live_ttl st k)"
  by (cases "live_ttl st k") (auto simp: live_ttl_def split: option.splits dest: live_pos)

lemma ref_look_put [simp]:
  "pos_ttl t \<Longrightarrow> ref_look (put k (Some (v, t)) st) k' =
     (if k' = k then Some (sval_abs v, t) else ref_look st k')"
  by (cases t) (auto simp: ref_look_def split: nat.splits)

lemma ref_look_put_None [simp]:
  "ref_look (put k None st) k' = (if k' = k then None else ref_look st k')"
  by (simp add: ref_look_def)

lemma cell_ttl_ref_look [simp]: "cell_ttl (ref_look st k) = live_ttl st k"
  by (auto simp: ref_look_def live_ttl_def split: option.splits)

lemma cell_hash_ref_look: "cell_hash (ref_look st k) = map_of (live_hash st k)"
  by (auto simp: ref_look_def live_hash_def split: option.splits sval.splits)

lemma live_None_iff [simp]: "ref_look st k = None \<longleftrightarrow> live st k = None"
  by (simp add: ref_look_def)

lemma map_of_filter_ne: "map_of (filter (\<lambda>(g, _). g \<noteq> f) h) = (map_of h)(f := None)"
  by (induction h) auto

lemma filter_Nil_map_of: "(filter (\<lambda>(g, _). g \<noteq> f) h = []) = ((map_of h)(f := None) = Map.empty)"
  by (metis map_of_filter_ne map_of_eq_empty_iff)

interpretation reference: redis_server ref_redis
proof unfold_locales
  fix d k and s :: store
  show "look ref_redis (elapse ref_redis d s) k = age d (look ref_redis s k)"
    by (simp add: ref_redis_def ref_look_def live_elapse)
next
  fix t :: int and k k' and s :: store
  show "0 < t \<Longrightarrow> look ref_redis (EXPIRE ref_redis k t s) k' =
      (if k' = k then map_option (\<lambda>(v, _). (v, Some (nat t))) (look ref_redis s k)
       else look ref_redis s k')"
    by (cases "live s k") (auto simp: ref_redis_def ref_look_def split: nat.split)
next
  fix k k' f and s :: store
  show "look ref_redis (HDEL ref_redis k f s) k' =
        (if k' = k then
           (if (cell_hash (look ref_redis s k))(f := None) = Map.empty then None
            else Some (RHash ((cell_hash (look ref_redis s k))(f := None)), cell_ttl (look ref_redis s k)))
         else look ref_redis s k')"
    by (cases "filter (\<lambda>(g, _). g \<noteq> f) (live_hash s k) = []")
       (auto simp: ref_redis_def Let_def cell_hash_ref_look
          map_of_filter_ne simp flip: filter_Nil_map_of)
qed (auto simp: ref_redis_def Let_def cell_hash_ref_look
       hash_fields_def dom_map_of_conv_image_fst)

lemma reference_server: "redis_server ref_redis"
  by (rule reference.redis_server_axioms)

lemma look_empty_store [simp]: "look ref_redis empty_store k = None"
  by (simp add: ref_redis_def empty_store_def live_def)

end
