(* ===== verification/Lua_Scripts.thy ===== *)
theory Lua_Scripts
  imports Redis_Server
begin

section \<open>The Lua scripts of \<open>redis_scripts.py\<close>\<close>

text \<open>
  Each script runs atomically on the server: it is one function of the server state,
  composed of the commands it calls. The keys and arguments are those of \<open>KEYS\<close> and
  \<open>ARGV\<close>.
\<close>

text \<open>\<open>tonumber(...) or 0\<close> of a \<open>GET\<close> reply.\<close>

definition tonumber_or_0 :: "payload option \<Rightarrow> int" where
  "tonumber_or_0 p = (case p of Some (Number n) \<Rightarrow> n | _ \<Rightarrow> 0)"

definition atomic_download_incr ::
  "'s redis \<Rightarrow> string \<Rightarrow> int \<Rightarrow> int \<Rightarrow> 's \<Rightarrow> int \<times> 's" where
  "atomic_download_incr R key max_dl ttl s =
     (let current = tonumber_or_0 (GET R key s) in
      if max_dl \<le> current then (-1, s)
      else (case INCR R key s of (new_count, s1) \<Rightarrow>
        (new_count, if new_count = 1 then EXPIRE R key ttl s1 else s1)))"

definition atomic_incr_expire :: "'s redis \<Rightarrow> string \<Rightarrow> int \<Rightarrow> 's \<Rightarrow> int \<times> 's" where
  "atomic_incr_expire R key window s =
     (case INCR R key s of (current, s1) \<Rightarrow>
        (current, if current = 1 then EXPIRE R key window s1 else s1))"

definition atomic_destroy_channel ::
  "'s redis \<Rightarrow> string \<Rightarrow> string \<Rightarrow> string list \<Rightarrow> 's \<Rightarrow> int \<times> 's" where
  "atomic_destroy_channel R channel_k pending_k ancillary s =
     (if GET R channel_k s = None then (0, s)
      else if GET R pending_k s = None then (-2, s)
      else (1, DELS R (channel_k # pending_k # ancillary) s))"

definition atomic_pending_destruction ::
  "'s redis \<Rightarrow> string \<Rightarrow> string \<Rightarrow> int \<Rightarrow> payload \<Rightarrow> 's \<Rightarrow> int \<times> 's" where
  "atomic_pending_destruction R channel_k pending_k delay info s =
     (if GET R channel_k s = None then (0, s)
      else if GET R pending_k s \<noteq> None then (2, s)
      else (1, SETEX R pending_k delay info s))"

definition atomic_register_peer ::
  "'s redis \<Rightarrow> string \<Rightarrow> string \<Rightarrow> string \<Rightarrow> string \<Rightarrow> payload \<Rightarrow> int \<Rightarrow> int \<Rightarrow> 's \<Rightarrow> string \<times> 's" where
  "atomic_register_peer R peers_k host_k peer_id role meta max_peers ttl s =
     (if role = ''host'' \<and> GET R host_k s \<notin> {None, Some (Text '''')} then (''HOST_TAKEN'', s)
      else if max_peers \<le> HLEN R peers_k s then (''ROOM_FULL'', s)
      else
        (let s1 = HSET R peers_k peer_id meta s;
             s2 = EXPIRE R peers_k ttl s1;
             s3 = (if role = ''host'' then SETEX R host_k ttl (Text peer_id) s2 else s2)
         in (''OK'', s3)))"

context redis_server
begin

lemma tonumber_cell_count: "is_counter (look R s k) \<Longrightarrow> tonumber_or_0 (GET R k s) = cell_count (look R s k)"
  by (cases "look R s k" rule: is_counter.cases) (auto simp: tonumber_or_0_def GET_def)

text \<open>The rate-limit script: the count, and what it leaves under its key.\<close>

lemma incr_expire_count:
  "is_counter (look R s k) \<Longrightarrow>
    fst (atomic_incr_expire R k w s) = cell_count (look R s k) + 1"
  by (simp add: atomic_incr_expire_def case_prod_unfold)

lemma incr_expire_look:
  assumes "is_counter (look R s k)" and "0 < w"
  shows "look R (snd (atomic_incr_expire R k w s)) k' =
    (if k' = k then
       Some (RStr (Number (cell_count (look R s k) + 1)),
             if cell_count (look R s k) = 0 then Some (nat w) else cell_ttl (look R s k))
     else look R s k')"
  using assms by (simp add: atomic_incr_expire_def case_prod_unfold)

text \<open>The download script never increments past the limit.\<close>

lemma download_incr_refused:
  "is_counter (look R s k) \<Longrightarrow> m \<le> cell_count (look R s k) \<Longrightarrow>
    atomic_download_incr R k m t s = (-1, s)"
  by (simp add: atomic_download_incr_def tonumber_cell_count)

lemma download_incr_granted:
  assumes "is_counter (look R s k)" and "cell_count (look R s k) < m"
  shows "fst (atomic_download_incr R k m t s) = cell_count (look R s k) + 1"
  using assms by (simp add: atomic_download_incr_def tonumber_cell_count case_prod_unfold)

lemma download_incr_look:
  assumes "is_counter (look R s k)" and "cell_count (look R s k) < m" and "0 < t"
  shows "look R (snd (atomic_download_incr R k m t s)) k' =
    (if k' = k then
       Some (RStr (Number (cell_count (look R s k) + 1)),
             if cell_count (look R s k) = 0 then Some (nat t) else cell_ttl (look R s k))
     else look R s k')"
  using assms by (simp add: atomic_download_incr_def tonumber_cell_count case_prod_unfold)

lemma pending_destruction_look:
  "0 < d \<Longrightarrow> look R (snd (atomic_pending_destruction R ck pk d info s)) k =
    (if k = pk \<and> GET R ck s \<noteq> None \<and> GET R pk s = None then Some (RStr info, Some (nat d))
     else look R s k)"
  by (auto simp: atomic_pending_destruction_def)

lemma destroy_channel_look:
  "look R (snd (atomic_destroy_channel R ck pk ks s)) k =
    (if GET R ck s \<noteq> None \<and> GET R pk s \<noteq> None \<and> k \<in> set (ck # pk # ks) then None
     else look R s k)"
  by (simp add: atomic_destroy_channel_def)

end

end
