(* ===== verification/Settings.thy ===== *)
theory Settings
  imports Prelude
begin

section \<open>Settings and cryptographic primitives\<close>

text \<open>
  The file-sharing settings of \<open>config.py\<close> with their defaults and their start-up
  validator, the schema validators of \<open>file_sharing/types.py\<close> that use them, and the
  primitives of \<open>hashlib\<close> and \<open>cryptography\<close>, which are parameters: two hash
  functions, the keyed IP hash, and Fernet with its documented law (locale
  \<open>fernet\<close>).
\<close>

record settings =
  CHANNEL_TTL :: int
  STUN_SERVER :: string
  COTURN_ENABLED :: bool
  TURN_HOST :: string
  TURN_PORT :: string
  TURN_TLS_PORT :: string
  TURN_TLS_ENABLED :: bool
  TURN_SECRET :: string
  TURN_CREDENTIAL_TTL :: int
  PLATFORM_FEE_PERCENT :: int
  MIN_PRICE_CENTS :: int
  MAX_PRICE_CENTS :: int
  PAID_CHANNEL_TTL :: int

text \<open>Ports are kept as the text that the f-strings print.\<close>

definition default_settings :: settings where
  "default_settings = \<lparr>
     CHANNEL_TTL = 3600,
     STUN_SERVER = ''stun.l.google.com:19302'',
     COTURN_ENABLED = False,
     TURN_HOST = ''127.0.0.1'',
     TURN_PORT = ''3478'',
     TURN_TLS_PORT = ''5349'',
     TURN_TLS_ENABLED = False,
     TURN_SECRET = '''',
     TURN_CREDENTIAL_TTL = 86400,
     PLATFORM_FEE_PERCENT = 200,
     MIN_PRICE_CENTS = 2000,
     MAX_PRICE_CENTS = 100000000,
     PAID_CHANNEL_TTL = 86400\<rparr>"

definition enforce_file_sharing_invariants :: "settings \<Rightarrow> py_error + settings" where
  "enforce_file_sharing_invariants cfg =
     (if COTURN_ENABLED cfg \<and> TURN_SECRET cfg = '''' then
        Inl (ValueError ''FILE_SHARING_TURN_SECRET must be set when FILE_SHARING_COTURN_ENABLED is True'')
      else if MAX_PRICE_CENTS cfg \<le> MIN_PRICE_CENTS cfg then
        Inl (ValueError ''FILE_SHARING_MIN_PRICE_CENTS must be less than FILE_SHARING_MAX_PRICE_CENTS'')
      else Inr cfg)"

lemma default_settings_valid:
  "enforce_file_sharing_invariants default_settings = Inr default_settings"
  by (simp add: enforce_file_sharing_invariants_def default_settings_def)

lemma default_settings_ttls [simp]:
  "CHANNEL_TTL default_settings = 3600"
  "PAID_CHANNEL_TTL default_settings = 86400"
  "PLATFORM_FEE_PERCENT default_settings = 200"
  by (simp_all add: default_settings_def)

subsection \<open>Schema validators\<close>

text \<open>The error messages with numbers in them are kept without the number.\<close>

definition validate_price_cents :: "settings \<Rightarrow> int option \<Rightarrow> py_error + int option" where
  "validate_price_cents cfg v = (case v of
       None \<Rightarrow> Inr v
     | Some p \<Rightarrow>
         (if 0 < p then
            (if p < MIN_PRICE_CENTS cfg then Inl (ValueError ''Minimum price'')
             else if MAX_PRICE_CENTS cfg < p then Inl (ValueError ''Maximum price'')
             else Inr v)
          else Inr v))"

definition is_hex_digit :: "char \<Rightarrow> bool" where
  "is_hex_digit c = (c \<in> set ''0123456789abcdef'')"

definition checksum_entry_error :: "string \<times> string \<Rightarrow> py_error option" where
  "checksum_entry_error e = (case e of (filename, digest) \<Rightarrow>
     (if 255 < length filename then Some (ValueError ''Filename too long'')
      else if length digest \<noteq> 64 \<or> \<not> list_all is_hex_digit digest then
        Some (ValueError (''Invalid SHA-256 digest for '' @ filename))
      else None))"

fun first_checksum_error :: "(string \<times> string) list \<Rightarrow> py_error option" where
  "first_checksum_error [] = None"
| "first_checksum_error (e # es) =
     (case checksum_entry_error e of Some x \<Rightarrow> Some x | None \<Rightarrow> first_checksum_error es)"

definition validate_checksums ::
  "(string \<times> string) list \<Rightarrow> py_error + (string \<times> string) list" where
  "validate_checksums v =
     (if 1000 < length v then Inl (ValueError ''Too many checksum entries (max 1000)'')
      else (case first_checksum_error v of Some e \<Rightarrow> Inl e | None \<Rightarrow> Inr v))"

lemma first_checksum_error_None:
  "first_checksum_error es = None \<longleftrightarrow> (\<forall>e \<in> set es. checksum_entry_error e = None)"
  by (induction es) (auto split: option.splits)

lemma validate_checksums_Inr:
  "validate_checksums v = Inr w \<longleftrightarrow>
     w = v \<and> length v \<le> 1000 \<and>
     (\<forall>(f, d) \<in> set v. length f \<le> 255 \<and> length d = 64 \<and> list_all is_hex_digit d)"
proof -
  have entry: "checksum_entry_error e = None \<longleftrightarrow>
      (case e of (f, d) \<Rightarrow> length f \<le> 255 \<and> length d = 64 \<and> list_all is_hex_digit d)" for e
    by (auto simp: checksum_entry_error_def split: prod.splits)
  have "validate_checksums v = Inr w \<longleftrightarrow> w = v \<and> length v \<le> 1000 \<and> first_checksum_error v = None"
    by (auto simp: validate_checksums_def split: option.splits)
  then show ?thesis by (simp add: first_checksum_error_None entry)
qed

subsection \<open>Cryptographic primitives\<close>

record crypto =
  token_hash :: "string \<Rightarrow> string"
  sha256_hex :: "string \<Rightarrow> string"
  ip_hmac :: "string \<Rightarrow> string"
  fernet_encrypt :: "string \<Rightarrow> string"
  fernet_decrypt :: "string \<Rightarrow> string option"

text \<open>
  \<open>token_hash\<close> is the keyed BLAKE2b of \<open>core/crypto.py\<close> under the application secret,
  \<open>ip_hmac\<close> the hex HMAC-SHA256 under the same secret; \<open>fernet_decrypt\<close> is \<open>None\<close>
  where the library raises \<open>InvalidToken\<close>.
\<close>

definition hash_secret :: "crypto \<Rightarrow> string \<Rightarrow> string" where
  "hash_secret C raw_secret = token_hash C raw_secret"

definition hash_ip :: "crypto \<Rightarrow> string \<Rightarrow> string" where
  "hash_ip C ip = take 16 (ip_hmac C ip)"

definition encrypt_token :: "crypto \<Rightarrow> string \<Rightarrow> string" where
  "encrypt_token C token = fernet_encrypt C token"

definition decrypt_token :: "crypto \<Rightarrow> string \<Rightarrow> string option" where
  "decrypt_token C encrypted = fernet_decrypt C encrypted"

locale fernet =
  fixes C :: crypto
  assumes decrypt_encrypt: "fernet_decrypt C (fernet_encrypt C token) = Some token"
begin

lemma decrypt_encrypt_token [simp]: "decrypt_token C (encrypt_token C token) = Some token"
  by (simp add: decrypt_token_def encrypt_token_def decrypt_encrypt)

end

text \<open>
  A concrete instance for the examples: injective stand-ins for the hashes, and a cipher
  that prefixes the token.
\<close>

definition ref_crypto :: crypto where
  "ref_crypto = \<lparr>
     token_hash = (\<lambda>t. ''b2:'' @ t),
     sha256_hex = (\<lambda>t. ''sha:'' @ t),
     ip_hmac = (\<lambda>t. t),
     fernet_encrypt = (\<lambda>t. CHR ''*'' # t),
     fernet_decrypt = (\<lambda>t. case t of [] \<Rightarrow> None | c # cs \<Rightarrow> if c = CHR ''*'' then Some cs else None)\<rparr>"

interpretation reference_fernet: fernet ref_crypto
  by unfold_locales (simp add: ref_crypto_def)

lemma ref_crypto_simps [simp]:
  "hash_secret ref_crypto t = ''b2:'' @ t"
  "sha256_hex ref_crypto t = ''sha:'' @ t"
  "hash_ip ref_crypto t = take 16 t"
  by (simp_all add: ref_crypto_def hash_secret_def hash_ip_def)

end
