(* ===== verification/Rate_Limit.thy ===== *)
theory Rate_Limit
  imports Lua_Scripts Settings "HOL-Library.AList"
begin

section \<open>Client address and rate limits\<close>

text \<open>
  The client address of \<open>core/rate_limit.py\<close>, the fixed-window limiter on Redis that
  \<open>file_sharing/guards.py\<close> and \<open>signaling.py\<close> build on \<open>ATOMIC_INCR_EXPIRE_LUA\<close>, the
  OTP limiter, and the in-memory fallback. \<open>ipaddress\<close> is the parameter \<open>trusted\<close>.
\<close>

subsection \<open>\<open>resolve_client_ip\<close>\<close>

fun first_untrusted :: "(string \<Rightarrow> bool) \<Rightarrow> string list \<Rightarrow> string option" where
  "first_untrusted trusted [] = None"
| "first_untrusted trusted (raw # rest) =
     (if \<not> trusted raw then Some raw else first_untrusted trusted rest)"

definition xff_chain :: "string \<Rightarrow> string list" where
  "xff_chain xff = map strip (filter (\<lambda>p. strip p \<noteq> []) (split_on CHR '','' xff))"

text \<open>\<open>xff\<close>: the header; \<open>peer\<close>: the socket-level address.\<close>

definition resolve_client_ip ::
  "(string \<Rightarrow> bool) \<Rightarrow> string option \<Rightarrow> string option \<Rightarrow> string" where
  "resolve_client_ip trusted xff peer =
     (let fallback = (case peer of Some host \<Rightarrow> host | None \<Rightarrow> ''unknown'') in
      if truthy xff then
        (case first_untrusted trusted (rev (xff_chain (the xff))) of
           Some raw \<Rightarrow> raw
         | None \<Rightarrow> fallback)
      else fallback)"

text \<open>
  The ASGI version reads the first \<open>x-forwarded-for\<close> header of the scope; a header that
  is not ASCII counts as empty.
\<close>

fun scope_xff :: "(string \<times> string) list \<Rightarrow> string option" where
  "scope_xff [] = None"
| "scope_xff ((name, val) # hs) = (if name = ''x-forwarded-for'' then Some val else scope_xff hs)"

definition is_ascii :: "string \<Rightarrow> bool" where
  "is_ascii s = list_all (\<lambda>c. (of_char c :: nat) < 128) s"

definition resolve_client_ip_from_scope ::
  "(string \<Rightarrow> bool) \<Rightarrow> (string \<times> string) list \<Rightarrow> string option \<Rightarrow> string" where
  "resolve_client_ip_from_scope trusted headers client =
     (let fallback = (case client of Some host \<Rightarrow> host | None \<Rightarrow> ''unknown'') in
      (case scope_xff headers of
         None \<Rightarrow> fallback
       | Some xff_bytes \<Rightarrow>
           (let xff = (if is_ascii xff_bytes then xff_bytes else '''') in
            if xff = '''' then fallback
            else (case first_untrusted trusted (rev (xff_chain xff)) of
                Some raw \<Rightarrow> raw
              | None \<Rightarrow> fallback))))"

lemma first_untrusted_append:
  "\<forall>p \<in> set ps. trusted p \<Longrightarrow>
    first_untrusted trusted (ps @ raw # qs) = (if trusted raw then first_untrusted trusted qs else Some raw)"
  by (induction ps) auto

lemma first_untrusted_None: "first_untrusted trusted ps = None \<longleftrightarrow> (\<forall>p \<in> set ps. trusted p)"
  by (induction ps) auto

lemma xff_chain_append:
  "xff_chain (xs @ CHR '','' # ys) = xff_chain xs @ xff_chain ys"
  by (simp add: xff_chain_def split_on_append)

text \<open>The address a trusted proxy recorded wins over everything the client wrote before it.\<close>

lemma resolve_ignores_prefix:
  assumes "xff_chain suffix = raw # proxies" and "\<not> trusted raw" and "\<forall>p \<in> set proxies. trusted p"
  shows "resolve_client_ip trusted (Some (forged @ CHR '','' # suffix)) peer = raw"
proof -
  have "rev (xff_chain (forged @ CHR '','' # suffix)) = rev proxies @ raw # rev (xff_chain forged)"
    using assms(1) by (simp add: xff_chain_append)
  then show ?thesis
    using assms(2,3) by (simp add: resolve_client_ip_def first_untrusted_append)
qed

subsection \<open>The fixed-window limiter\<close>

text \<open>\<open>up\<close> is whether Redis answers: the limiter fails closed on a \<open>RedisError\<close>.\<close>

definition rate_key :: "crypto \<Rightarrow> string \<Rightarrow> string \<Rightarrow> string" where
  "rate_key C action client_ip =
     ''file-sharing:rate:'' @ action @ '':'' @ hash_ip C client_ip"

definition check_rate_limit ::
  "'s redis \<Rightarrow> crypto \<Rightarrow> bool \<Rightarrow> string \<Rightarrow> string \<Rightarrow> int \<Rightarrow> int \<Rightarrow> string \<Rightarrow> 's \<Rightarrow>
     (py_error + unit) \<times> 's" where
  "check_rate_limit R C up client_ip action limit window detail s =
     (if \<not> up then
        (Inl (HTTPException 503 ''Rate limit service unavailable. Please try again shortly.''), s)
      else (case atomic_incr_expire R (rate_key C action client_ip) window s of (current, s1) \<Rightarrow>
        (if limit < current then Inl (HTTPException 429 detail) else Inr (), s1)))"

definition ws_conn_key :: "crypto \<Rightarrow> string \<Rightarrow> string" where
  "ws_conn_key C client_ip = ''file-sharing:ws-rate:conn:'' @ hash_ip C client_ip"

definition WS_CONN_RATE_LIMIT :: int where "WS_CONN_RATE_LIMIT = 20"

definition WS_CONN_RATE_WINDOW :: int where "WS_CONN_RATE_WINDOW = 60"

definition check_ws_connection_rate ::
  "'s redis \<Rightarrow> crypto \<Rightarrow> bool \<Rightarrow> string \<Rightarrow> 's \<Rightarrow> bool \<times> 's" where
  "check_ws_connection_rate R C up client_ip s =
     (if \<not> up then (False, s)
      else (case atomic_incr_expire R (ws_conn_key C client_ip) WS_CONN_RATE_WINDOW s of
        (current, s1) \<Rightarrow> (current \<le> WS_CONN_RATE_LIMIT, s1)))"

text \<open>
  The OTP limiter runs \<open>INCR\<close> and \<open>EXPIRE\<close> in one transaction: every attempt restarts
  the window.
\<close>

definition OTP_VERIFY_LIMIT :: int where "OTP_VERIFY_LIMIT = 10"

definition OTP_VERIFY_WINDOW :: int where "OTP_VERIFY_WINDOW = 900"

definition otp_key :: "crypto \<Rightarrow> string \<Rightarrow> string \<Rightarrow> string" where
  "otp_key C key_prefix client_ip = ''otp-rate:'' @ key_prefix @ '':'' @ hash_ip C client_ip"

definition check_otp_rate_limit ::
  "'s redis \<Rightarrow> crypto \<Rightarrow> bool \<Rightarrow> string \<Rightarrow> string \<Rightarrow> 's \<Rightarrow> (py_error + unit) \<times> 's" where
  "check_otp_rate_limit R C up client_ip key_prefix s =
     (if \<not> up then
        (Inl (HTTPException 503 ''Rate limit service unavailable. Please try again shortly.''), s)
      else
        (let key = otp_key C key_prefix client_ip in
         (case INCR R key s of (current, s1) \<Rightarrow>
            (let s2 = EXPIRE R key OTP_VERIFY_WINDOW s1 in
             (if OTP_VERIFY_LIMIT < current
              then Inl (HTTPException 429 ''Too many verification attempts. Try again later.'')
              else Inr (), s2)))))"

subsection \<open>Runs of the fixed-window limiter\<close>

text \<open>
  One client against one limit: requests of the limited kind and the passing of time. The
  run returns how many requests were let through.
\<close>

datatype rate_event = Request | Wait nat

fun rate_run ::
  "'s redis \<Rightarrow> crypto \<Rightarrow> string \<Rightarrow> string \<Rightarrow> int \<Rightarrow> int \<Rightarrow> rate_event list \<Rightarrow> 's \<Rightarrow> nat" where
  "rate_run R C ip action limit window [] s = 0"
| "rate_run R C ip action limit window (Wait d # es) s =
     rate_run R C ip action limit window es (elapse R d s)"
| "rate_run R C ip action limit window (Request # es) s =
     (case check_rate_limit R C True ip action limit window ''Too many requests. Try again later.'' s of
        (r, s1) \<Rightarrow> (if r = Inr () then 1 else 0) + rate_run R C ip action limit window es s1)"

fun waited :: "rate_event list \<Rightarrow> nat" where
  "waited [] = 0"
| "waited (Wait d # es) = d + waited es"
| "waited (Request # es) = waited es"

text \<open>
  What the limiter keeps under its key: nothing, or a positive count with an expiry within
  the window.
\<close>

fun window_cell :: "int \<Rightarrow> cell \<Rightarrow> bool" where
  "window_cell w None = True"
| "window_cell w (Some (RStr (Number n), Some t)) = (0 < n \<and> 0 < t \<and> int t \<le> w)"
| "window_cell w _ = False"

lemma window_cell_cases:
  assumes "window_cell w c"
  obtains "c = None"
  | n t where "c = Some (RStr (Number n), Some t)" and "0 < n" and "0 < t" and "int t \<le> w"
  using assms by (cases "(w, c)" rule: window_cell.cases) auto

lemma window_cell_counter: "window_cell w c \<Longrightarrow> is_counter c"
  by (erule window_cell_cases) auto

lemma window_cell_age: "window_cell w c \<Longrightarrow> window_cell w (age d c)"
  by (erule window_cell_cases) auto

context redis_server
begin

lemma check_rate_limit_result:
  assumes "is_counter (look R s (rate_key C a ip))"
  shows "fst (check_rate_limit R C True ip a l w d s) =
    (if l < cell_count (look R s (rate_key C a ip)) + 1 then Inl (HTTPException 429 d) else Inr ())"
  using assms by (simp add: check_rate_limit_def case_prod_unfold incr_expire_count)

lemma check_rate_limit_look:
  assumes "is_counter (look R s (rate_key C a ip))" and "0 < w"
  shows "look R (snd (check_rate_limit R C True ip a l w d s)) k =
    (if k = rate_key C a ip then
       Some (RStr (Number (cell_count (look R s (rate_key C a ip)) + 1)),
         if cell_count (look R s (rate_key C a ip)) = 0 then Some (nat w)
         else cell_ttl (look R s (rate_key C a ip)))
     else look R s k)"
  using assms by (simp add: check_rate_limit_def case_prod_unfold incr_expire_look)

lemma window_cell_check:
  assumes "window_cell w (look R s (rate_key C a ip))" and "0 < w"
  shows "window_cell w (look R (snd (check_rate_limit R C True ip a l w d s)) (rate_key C a ip))"
  using assms(1)
  by (rule window_cell_cases) (use assms(2) in \<open>simp_all add: check_rate_limit_look\<close>)

text \<open>
  While the window of a live counter lasts, at most the remaining allowance gets through.
\<close>

lemma rate_run_live:
  assumes "look R s (rate_key C a ip) = Some (RStr (Number n), Some t)"
    and "0 < n" and "waited es < t" and "0 < w"
  shows "int (rate_run R C ip a l w es s) \<le> max 0 (l - n)"
  using assms
proof (induction es arbitrary: s n t)
  case Nil
  then show ?case by simp
next
  case (Cons e es)
  show ?case
  proof (cases e)
    case (Wait d)
    have "look R (elapse R d s) (rate_key C a ip) = Some (RStr (Number n), Some (t - d))"
      using Cons.prems Wait by simp
    then have "int (rate_run R C ip a l w es (elapse R d s)) \<le> max 0 (l - n)"
      using Cons.prems Wait by (intro Cons.IH) auto
    with Wait show ?thesis by simp
  next
    case Request
    let ?s = "snd (check_rate_limit R C True ip a l w ''Too many requests. Try again later.'' s)"
    have "look R ?s (rate_key C a ip) = Some (RStr (Number (n + 1)), Some t)"
      using Cons.prems by (simp add: check_rate_limit_look)
    then have "int (rate_run R C ip a l w es ?s) \<le> max 0 (l - (n + 1))"
      using Cons.prems Request by (intro Cons.IH) auto
    moreover have "fst (check_rate_limit R C True ip a l w ''Too many requests. Try again later.'' s) = Inr ()
        \<longleftrightarrow> n + 1 \<le> l"
      using Cons.prems by (simp add: check_rate_limit_result)
    ultimately show ?thesis
      using Request by (auto simp: case_prod_unfold max_def split: if_splits)
  qed
qed

text \<open>From a state with no counter, a run shorter than the window lets \<open>limit\<close> requests through.\<close>

lemma rate_run_fresh:
  assumes "look R s (rate_key C a ip) = None"
    and "int (waited es) < w" and "0 \<le> l"
  shows "int (rate_run R C ip a l w es s) \<le> l"
  using assms
proof (induction es arbitrary: s)
  case Nil
  then show ?case by simp
next
  case (Cons e es)
  show ?case
  proof (cases e)
    case (Wait d)
    with Cons show ?thesis by simp
  next
    case Request
    let ?s = "snd (check_rate_limit R C True ip a l w ''Too many requests. Try again later.'' s)"
    have w: "0 < w" using Cons.prems by linarith
    then have "look R ?s (rate_key C a ip) = Some (RStr (Number 1), Some (nat w))"
      using Cons.prems by (simp add: check_rate_limit_look)
    then have "int (rate_run R C ip a l w es ?s) \<le> max 0 (l - 1)"
      using Cons.prems Request w by (intro rate_run_live) auto
    moreover have "fst (check_rate_limit R C True ip a l w ''Too many requests. Try again later.'' s) = Inr ()
        \<longleftrightarrow> 1 \<le> l"
      using Cons.prems by (simp add: check_rate_limit_result)
    ultimately show ?thesis
      using Request Cons.prems by (auto simp: case_prod_unfold max_def split: if_splits)
  qed
qed

text \<open>
  From any state the limiter can leave, a run shorter than the window crosses at most one
  window boundary: at most twice the limit gets through.
\<close>

lemma rate_run_any:
  assumes "window_cell w (look R s (rate_key C a ip))"
    and "int (waited es) < w" and "0 \<le> l"
  shows "int (rate_run R C ip a l w es s) \<le>
    l + (case look R s (rate_key C a ip) of None \<Rightarrow> 0 | Some c \<Rightarrow> max 0 (l - cell_count (Some c)))"
  using assms
proof (induction es arbitrary: s)
  case Nil
  then show ?case by (simp split: option.splits)
next
  case (Cons e es)
  have w: "0 < w" using Cons.prems by linarith
  show ?case
  proof (cases "look R s (rate_key C a ip)")
    case None
    then show ?thesis using Cons.prems rate_run_fresh [of s C a ip "e # es" w l] by simp
  next
    case (Some c)
    with Cons.prems(1) obtain n t where c: "c = (RStr (Number n), Some t)" and n: "0 < n"
      by (auto elim: window_cell_cases)
    show ?thesis
    proof (cases e)
      case (Wait d)
      have "window_cell w (look R (elapse R d s) (rate_key C a ip))"
        using Cons.prems(1) by (simp add: window_cell_age)
      then have "int (rate_run R C ip a l w es (elapse R d s)) \<le>
        l + (case look R (elapse R d s) (rate_key C a ip) of None \<Rightarrow> 0 | Some c \<Rightarrow> max 0 (l - cell_count (Some c)))"
        using Cons.prems Wait by (intro Cons.IH) auto
      with Some c Wait show ?thesis by (auto simp: max_def split: if_splits)
    next
      case Request
      let ?s = "snd (check_rate_limit R C True ip a l w ''Too many requests. Try again later.'' s)"
      have eq: "look R ?s (rate_key C a ip) = Some (RStr (Number (n + 1)), Some t)"
        using Some c n w by (simp add: check_rate_limit_look)
      have "int (rate_run R C ip a l w es ?s) \<le> l + max 0 (l - (n + 1))"
        using Cons.IH [OF window_cell_check [OF Cons.prems(1) w,
          of l "''Too many requests. Try again later.''"]] Cons.prems Request eq by simp
      moreover have "fst (check_rate_limit R C True ip a l w ''Too many requests. Try again later.'' s) = Inr ()
          \<longleftrightarrow> n + 1 \<le> l"
        using Some c by (simp add: check_rate_limit_result)
      ultimately show ?thesis
        using Request Some c by (auto simp: case_prod_unfold max_def split: if_splits)
    qed
  qed
qed

end

subsection \<open>The in-memory fallback\<close>

text \<open>
  Times are in milliseconds of the monotonic clock; \<open>window\<close> is in seconds as in the code.
\<close>

record inmemory =
  rate_limits :: "(string \<times> (int \<times> int)) list"
  last_cleanup :: int

definition INMEMORY_CLEANUP_INTERVAL :: int where "INMEMORY_CLEANUP_INTERVAL = 60000"

definition inmemory_sweep :: "int \<Rightarrow> int \<Rightarrow> inmemory \<Rightarrow> inmemory" where
  "inmemory_sweep now window m =
     (if INMEMORY_CLEANUP_INTERVAL < now - last_cleanup m then
        m\<lparr>rate_limits := filter (\<lambda>(_, (_, start)). \<not> 1000 * max window 600 < now - start) (rate_limits m),
          last_cleanup := now\<rparr>
      else m)"

definition inmemory_rate_check ::
  "int \<Rightarrow> string \<Rightarrow> int \<Rightarrow> int \<Rightarrow> inmemory \<Rightarrow> bool \<times> inmemory" where
  "inmemory_rate_check now key limit window m0 =
     (let m = inmemory_sweep now window m0 in
      (case map_of (rate_limits m) key of
         None \<Rightarrow> (True, m\<lparr>rate_limits := AList.update key (1, now) (rate_limits m)\<rparr>)
       | Some (count, window_start) \<Rightarrow>
           (if 1000 * window \<le> now - window_start then
              (True, m\<lparr>rate_limits := AList.update key (1, now) (rate_limits m)\<rparr>)
            else
              (count + 1 \<le> limit,
               m\<lparr>rate_limits := AList.update key (count + 1, window_start) (rate_limits m)\<rparr>))))"

subsection \<open>Runs of the OTP limiter\<close>

text \<open>
  Attempts of one client, each after a pause of so many seconds; the run returns how many
  were let through.
\<close>

fun otp_run :: "'s redis \<Rightarrow> crypto \<Rightarrow> string \<Rightarrow> string \<Rightarrow> nat list \<Rightarrow> 's \<Rightarrow> nat" where
  "otp_run R C ip key_prefix [] s = 0"
| "otp_run R C ip key_prefix (d # ds) s =
     (case check_otp_rate_limit R C True ip key_prefix (elapse R d s) of (r, s1) \<Rightarrow>
        (if r = Inr () then 1 else 0) + otp_run R C ip key_prefix ds s1)"

context redis_server
begin

lemma otp_check_result:
  assumes "is_counter (look R s (otp_key C p ip))"
  shows "fst (check_otp_rate_limit R C True ip p s) = Inr () \<longleftrightarrow>
      cell_count (look R s (otp_key C p ip)) + 1 \<le> OTP_VERIFY_LIMIT"
    and "look R (snd (check_otp_rate_limit R C True ip p s)) (otp_key C p ip) =
      Some (RStr (Number (cell_count (look R s (otp_key C p ip)) + 1)), Some 900)"
  using assms by (simp_all add: check_otp_rate_limit_def Let_def case_prod_unfold OTP_VERIFY_WINDOW_def)

lemma otp_run_live:
  assumes "look R s (otp_key C p ip) = Some (RStr (Number n), Some 900)"
    and "\<forall>d \<in> set ds. d < 900"
  shows "int (otp_run R C ip p ds s) \<le> max 0 (OTP_VERIFY_LIMIT - n)"
  using assms
proof (induction ds arbitrary: s n)
  case Nil
  then show ?case by simp
next
  case (Cons d ds)
  have c: "look R (elapse R d s) (otp_key C p ip) = Some (RStr (Number n), Some (900 - d))"
    using Cons.prems by simp
  let ?r = "check_otp_rate_limit R C True ip p (elapse R d s)"
  have cnt: "is_counter (look R (elapse R d s) (otp_key C p ip))" unfolding c by simp
  have res: "fst ?r = Inr () \<longleftrightarrow> n + 1 \<le> OTP_VERIFY_LIMIT"
    using otp_check_result(1) [OF cnt] unfolding c by simp
  have "look R (snd ?r) (otp_key C p ip) = Some (RStr (Number (n + 1)), Some 900)"
    using otp_check_result(2) [OF cnt] unfolding c by simp
  from Cons.IH [OF this] Cons.prems(2)
  have "int (otp_run R C ip p ds (snd ?r)) \<le> max 0 (OTP_VERIFY_LIMIT - (n + 1))" by simp
  then show ?case using res by (auto simp: case_prod_unfold)
qed

lemma otp_run_fresh:
  assumes "look R s (otp_key C p ip) = None" and "\<forall>d \<in> set ds. d < 900"
  shows "int (otp_run R C ip p ds s) \<le> OTP_VERIFY_LIMIT"
proof (cases ds)
  case Nil
  then show ?thesis by (simp add: OTP_VERIFY_LIMIT_def)
next
  case (Cons d es)
  let ?r = "check_otp_rate_limit R C True ip p (elapse R d s)"
  have cnt: "is_counter (look R (elapse R d s) (otp_key C p ip))" using assms(1) by simp
  have "look R (snd ?r) (otp_key C p ip) = Some (RStr (Number 1), Some 900)"
    using otp_check_result(2) [OF cnt] assms(1) by simp
  from otp_run_live [OF this, of es] assms(2) Cons
  have "int (otp_run R C ip p es (snd ?r)) \<le> OTP_VERIFY_LIMIT - 1"
    by (simp add: OTP_VERIFY_LIMIT_def)
  then show ?thesis using Cons by (auto simp: case_prod_unfold)
qed

lemma rate_run_bound:
  assumes "window_cell w (look R s (rate_key C a ip))" and "int (waited es) < w" and "0 \<le> l"
  shows "int (rate_run R C ip a l w es s) \<le> 2 * l"
    and "look R s (rate_key C a ip) = None \<Longrightarrow> int (rate_run R C ip a l w es s) \<le> l"
proof -
  show "look R s (rate_key C a ip) = None \<Longrightarrow> int (rate_run R C ip a l w es s) \<le> l"
    using rate_run_fresh assms(2,3) by blast
  show "int (rate_run R C ip a l w es s) \<le> 2 * l"
    using assms(1)
  proof (rule window_cell_cases)
    assume "look R s (rate_key C a ip) = None"
    from rate_run_fresh [OF this assms(2,3)] assms(3) show ?thesis by linarith
  next
    fix n t assume "look R s (rate_key C a ip) = Some (RStr (Number n), Some t)" "0 < n"
    then show ?thesis using rate_run_any [OF assms] assms(3) by auto
  qed
qed

lemma window_cell_run:
  "window_cell w (look R s (rate_key C a ip)) \<Longrightarrow> 0 < w \<Longrightarrow>
    window_cell w (look R (snd (check_rate_limit R C up ip a l w d (elapse R e s))) (rate_key C a ip))"
proof (cases up)
  case True
  assume "window_cell w (look R s (rate_key C a ip))" and "0 < w"
  then show ?thesis
    using window_cell_check [of w "elapse R e s"] True by (simp add: window_cell_age)
qed (simp add: check_rate_limit_def window_cell_age)

end

subsection \<open>Properties\<close>

text \<open>
  Property C7: the request limiter admits at most \<open>limit\<close> requests of a client in a period
  shorter than the window that starts without a counter, and at most twice as many in any
  period shorter than the window; without Redis it admits none.
\<close>

theorem rate_limit_bounds_requests:
  assumes "redis_server R" and "window_cell w (look R s (rate_key C a ip))"
    and "int (waited es) < w" and "0 \<le> l"
  shows "int (rate_run R C ip a l w es s) \<le> 2 * l \<and>
    (look R s (rate_key C a ip) = None \<longrightarrow> int (rate_run R C ip a l w es s) \<le> l) \<and>
    fst (check_rate_limit R C False ip a l w d s) \<noteq> Inr ()"
  using redis_server.rate_run_bound [OF assms] by (simp add: check_rate_limit_def)

theorem rate_limit_bounds_requests_witness:
  "int (rate_run ref_redis ref_crypto ''198.51.100.7'' ''channel_create'' 20 600
     [Request, Wait 30, Request] empty_store) \<le> 20"
  using rate_limit_bounds_requests [OF reference_server, of 600 empty_store ref_crypto "''channel_create''"
      "''198.51.100.7''" "[Request, Wait 30, Request]" 20]
  by simp

text \<open>
  Property C8: a client cannot choose the address it is counted under. Whatever it writes
  into \<open>X-Forwarded-For\<close>, the address that the last trusted proxy chain recorded for it is
  the one resolved.
\<close>

theorem client_ip_not_forgeable:
  assumes "xff_chain suffix = raw # proxies" and "\<not> trusted raw" and "\<forall>p \<in> set proxies. trusted p"
  shows "resolve_client_ip trusted (Some (forged @ CHR '','' # suffix)) peer = raw"
  by (rule resolve_ignores_prefix [OF assms])

theorem client_ip_not_forgeable_witness:
  "resolve_client_ip (\<lambda>a. a = ''10.0.0.2'') (Some ''127.0.0.1, 203.0.113.9, 10.0.0.2'') (Some ''10.0.0.2'')
   = ''203.0.113.9''"
  using client_ip_not_forgeable [of "'' 203.0.113.9, 10.0.0.2''" "''203.0.113.9''" "[''10.0.0.2'']"
      "\<lambda>a. a = ''10.0.0.2''" "''127.0.0.1''" "Some ''10.0.0.2''"]
  by (simp add: xff_chain_def strip_def is_space_def)

text \<open>
  One-time-password verification. As long as a client never pauses for the whole
  window, at most ten of its attempts are ever let through, however many it makes: every
  attempt, refused ones included, restarts the window.
\<close>

theorem otp_attempts_bounded:
  assumes "redis_server R" and "look R s (otp_key C p ip) = None" and "\<forall>d \<in> set ds. d < 900"
  shows "int (otp_run R C ip p ds s) \<le> OTP_VERIFY_LIMIT"
  by (rule redis_server.otp_run_fresh [OF assms])

theorem otp_attempts_bounded_witness:
  "int (otp_run ref_redis ref_crypto ''198.51.100.7'' ''login'' [0, 1, 899, 5] empty_store) \<le> OTP_VERIFY_LIMIT"
  using otp_attempts_bounded [OF reference_server, of empty_store ref_crypto "''login''" "''198.51.100.7''"
      "[0, 1, 899, 5]"]
  by simp

end
