(* ===== verification/Slugs.thy ===== *)
theory Slugs
  imports Rate_Limit
begin

section \<open>Slugs, slug validation and the Redis keys built from them\<close>

text \<open>
  The slug and secret generators of \<open>slugs.py\<close>, the word list, the guards of
  \<open>guards.py\<close> on request bodies, bearer tokens and slugs, and the key builders of
  \<open>ChannelRepository\<close>. The lemmas show that generated slugs pass the guard and that the
  guard keeps the key families apart: no accepted slug makes two different keys collide.
\<close>

subsection \<open>Generators\<close>

text \<open>
  \<open>uuid.uuid4()\<close>, \<open>secrets.choice\<close> and \<open>secrets.token_hex\<close> are sources of
  randomness: their outcomes are parameters. A choice is the index it picks.
\<close>

definition TOPPINGS :: "string list" where
  "TOPPINGS = [
     ''alfalfa'', ''almonds'', ''anchovies'', ''artichoke'', ''avocado'', ''bacon'',
     ''basil'', ''bayleaves'', ''bbqchicken'', ''beans'', ''beef'', ''beetroot'',
     ''bluecheese'', ''brie'', ''broccoli'', ''cajunchicken'', ''camembert'', ''capers'',
     ''capicolla'', ''cardamon'', ''carrot'', ''cauliflower'', ''cheddar'', ''chickenmasala'',
     ''chickentikka'', ''chili'', ''chives'', ''chorizo'', ''cilantro'', ''colby'',
     ''coriander'', ''crayfish'', ''cumin'', ''dill'', ''duck'', ''eggplant'',
     ''fenugreek'', ''feta'', ''fungi'', ''garlic'', ''goatcheese'', ''gorgonzola'',
     ''gouda'', ''ham'', ''jalapeno'', ''laurel'', ''leeks'', ''lettuce'',
     ''limburger'', ''lobster'', ''manchego'', ''marjoram'', ''meatballs'', ''melon'',
     ''montereyjack'', ''mozzarella'', ''muenster'', ''mushrooms'', ''olives'', ''onion'',
     ''oregano'', ''oysters'', ''parsley'', ''parmesan'', ''peanuts'', ''peas'',
     ''pecans'', ''pepperoni'', ''peppers'', ''pineapple'', ''pinenuts'', ''pistachios'',
     ''prawn'', ''prosciutto'', ''provolone'', ''ricotta'', ''romano'', ''roquefort'',
     ''rosemary'', ''salami'', ''salmon'', ''sausage'', ''scallions'', ''shallots'',
     ''shrimp'', ''snowpeas'', ''spinach'', ''squash'', ''squid'', ''sweetcorn'',
     ''tomatoes'', ''tuna'', ''turkey'', ''venison'', ''walnuts'', ''watercress'',
     ''whitebait'', ''zucchini'', ''arugula'', ''asparagus'', ''bamboo'', ''cabbage'',
     ''cashews'', ''celery'', ''chestnut'', ''coconut'', ''cranberry'', ''edamame'',
     ''fennel'', ''ginger'', ''hazelnut'', ''horseradish'', ''kale'', ''lemongrass'',
     ''lentils'', ''mango'', ''nutmeg'', ''okra'', ''papaya'', ''paprika'',
     ''radish'', ''saffron'', ''tarragon'', ''thyme'', ''truffle'', ''turmeric'',
     ''turnip'', ''wasabi'']"

definition LONG_SLUG_NUM_WORDS :: nat where "LONG_SLUG_NUM_WORDS = 7"

definition SLUG_MAX_ATTEMPTS :: nat where "SLUG_MAX_ATTEMPTS = 8"

definition generate_short_slug :: "string \<Rightarrow> slug" where
  "generate_short_slug uuid4 = uuid4"

definition generate_long_slug :: "(nat \<Rightarrow> nat) \<Rightarrow> slug" where
  "generate_long_slug choice =
     join ''/'' (map (\<lambda>i. TOPPINGS ! choice i) [0..<LONG_SLUG_NUM_WORDS])"

definition generate_secret :: "string \<Rightarrow> string" where
  "generate_secret token_hex_32 = token_hex_32"

subsection \<open>Guards on requests\<close>

definition MAX_SECRET_BODY_SIZE :: int where "MAX_SECRET_BODY_SIZE = 2 * 1024 * 1024"

definition check_body_size :: "string option \<Rightarrow> string \<Rightarrow> int \<Rightarrow> py_error + unit" where
  "check_body_size content_length body max_size =
     (if truthy content_length then
        (case py_int (the content_length) of
           None \<Rightarrow> Inl (HTTPException 400 ''Invalid Content-Length header'')
         | Some n \<Rightarrow>
             (if max_size < n then Inl (HTTPException 413 ''Request body too large'') else Inr ()))
      else
        (if max_size < int (length body) then Inl (HTTPException 413 ''Request body too large'')
         else Inr ()))"

definition extract_bearer_token :: "string option \<Rightarrow> string option" where
  "extract_bearer_token authorization =
     (case authorization of
        None \<Rightarrow> None
      | Some h \<Rightarrow> (if h \<noteq> '''' \<and> take 7 h = ''Bearer '' then Some (drop 7 h) else None))"

text \<open>
  The pattern \<open>^[a-z0-9][a-z0-9/\-]{1,255}$\<close> under \<open>re.match\<close>: \<open>$\<close> also matches
  before a final newline.
\<close>

definition is_lower_alnum :: "char \<Rightarrow> bool" where
  "is_lower_alnum c = (let n = of_char c :: nat in 97 \<le> n \<and> n \<le> 122 \<or> 48 \<le> n \<and> n \<le> 57)"

definition is_slug_char :: "char \<Rightarrow> bool" where
  "is_slug_char c = (is_lower_alnum c \<or> c = CHR ''/'' \<or> c = CHR ''-'')"

fun slug_body :: "string \<Rightarrow> bool" where
  "slug_body [] = False"
| "slug_body (c # cs) =
     (is_lower_alnum c \<and> list_all is_slug_char cs \<and> 1 \<le> length cs \<and> length cs \<le> 255)"

definition slug_pattern :: "string \<Rightarrow> bool" where
  "slug_pattern s = (slug_body s \<or> (s \<noteq> [] \<and> last s = CHR 0x0A \<and> slug_body (butlast s)))"

definition validate_slug :: "string \<Rightarrow> py_error + slug" where
  "validate_slug slug =
     (if \<not> slug_pattern slug then Inl (HTTPException 400 ''Invalid slug format'')
      else if contains ''..'' slug then Inl (HTTPException 400 ''Invalid slug format'')
      else Inr slug)"

text \<open>What an accepted slug is made of.\<close>

definition slug_ok :: "slug \<Rightarrow> bool" where
  "slug_ok s = (\<forall>c \<in> set s. is_slug_char c \<or> c = CHR 0x0A)"

lemma slug_body_ok: "slug_body s \<Longrightarrow> slug_ok s"
  by (cases s) (auto simp: slug_ok_def is_slug_char_def list_all_iff)

lemma validate_slug_ok:
  assumes "validate_slug s = Inr t"
  shows "slug_ok s"
proof -
  have "slug_pattern s" using assms by (auto simp: validate_slug_def split: if_splits)
  then consider "slug_body s" | "s \<noteq> []" "last s = CHR 0x0A" "slug_body (butlast s)"
    by (auto simp: slug_pattern_def)
  then show ?thesis
  proof cases
    case 1
    then show ?thesis by (rule slug_body_ok)
  next
    case 2
    then have "s = butlast s @ [CHR 0x0A]" by (metis append_butlast_last_id)
    then have "set s = set (butlast s) \<union> {CHR 0x0A}"
      by (metis list.set(1) list.set(2) set_append)
    with slug_body_ok [OF 2(3)] show ?thesis by (auto simp: slug_ok_def)
  qed
qed

lemma validate_slug_id: "validate_slug s = Inr t \<Longrightarrow> t = s"
  by (auto simp: validate_slug_def split: if_splits)

text \<open>Generated long slugs: seven lower-case words.\<close>

lemma length_TOPPINGS: "length TOPPINGS = 128"
  by (simp add: TOPPINGS_def)

lemma TOPPINGS_words:
  "list_all (\<lambda>w. list_all is_lower_alnum w \<and> 1 \<le> length w \<and> length w \<le> 13) TOPPINGS"
  by code_simp

lemma TOPPINGS_nth:
  assumes "i < 128"
  shows "list_all is_lower_alnum (TOPPINGS ! i)" and "1 \<le> length (TOPPINGS ! i)"
    and "length (TOPPINGS ! i) \<le> 13"
  using TOPPINGS_words assms by (auto simp: list_all_length length_TOPPINGS)

lemma join_head:
  "ws \<noteq> [] \<Longrightarrow> hd ws \<noteq> [] \<Longrightarrow> join sep ws \<noteq> [] \<and> hd (join sep ws) = hd (hd ws)"
  by (cases "(sep, ws)" rule: join.cases) auto

subsection \<open>Keys of a channel\<close>

definition channel_key :: "slug \<Rightarrow> string" where
  "channel_key slug = ''file-sharing:channel:'' @ slug"

definition reader_token_key :: "slug \<Rightarrow> string" where
  "reader_token_key slug = ''file-sharing:channel:reader_token:'' @ slug"

definition pending_token_key :: "slug \<Rightarrow> string" where
  "pending_token_key slug = ''file-sharing:channel:pending_token:'' @ slug"

definition pending_destruction_key :: "slug \<Rightarrow> string" where
  "pending_destruction_key slug = ''file-sharing:channel:pending_destruction:'' @ slug"

definition payment_token_key :: "slug \<Rightarrow> string" where
  "payment_token_key slug = ''file-sharing:channel:payment_tokens:'' @ slug"

definition pw_attempts_key :: "slug \<Rightarrow> string" where
  "pw_attempts_key slug = ''file-sharing:channel:pw_attempts:'' @ slug"

definition download_count_key :: "slug \<Rightarrow> string" where
  "download_count_key slug = ''file-sharing:channel:download_count:'' @ slug"

definition checksums_key :: "slug \<Rightarrow> string" where
  "checksums_key slug = ''file-sharing:channel:'' @ slug @ '':checksums''"

definition checkout_token_key :: "slug \<Rightarrow> string \<Rightarrow> string" where
  "checkout_token_key slug checkout_session_id =
     ''file-sharing:checkout-token:'' @ slug @ '':'' @ checkout_session_id"

lemmas channel_key_defs =
  channel_key_def reader_token_key_def pending_token_key_def pending_destruction_key_def payment_token_key_def pw_attempts_key_def download_count_key_def
  checksums_key_def checkout_token_key_def

text \<open>Within a family a key determines its slug.\<close>

lemma key_inject [simp, keys]:
  "(channel_key a = channel_key b) = (a = b)"
  "(checksums_key a = checksums_key b) = (a = b)"
  "(reader_token_key a = reader_token_key b) = (a = b)"
  "(pending_token_key a = pending_token_key b) = (a = b)"
  "(pending_destruction_key a = pending_destruction_key b) = (a = b)"
  "(payment_token_key a = payment_token_key b) = (a = b)"
  "(pw_attempts_key a = pw_attempts_key b) = (a = b)"
  "(download_count_key a = download_count_key b) = (a = b)"
  by (simp_all add: channel_key_defs)

text \<open>Families with a marker of their own never meet.\<close>

lemma key_families [simp, keys]:
  "reader_token_key a \<noteq> pending_token_key b"
  "reader_token_key a \<noteq> pending_destruction_key b"
  "reader_token_key a \<noteq> payment_token_key b"
  "reader_token_key a \<noteq> pw_attempts_key b"
  "reader_token_key a \<noteq> download_count_key b"
  "reader_token_key a \<noteq> checkout_token_key b x"
  "pending_token_key a \<noteq> reader_token_key b"
  "pending_token_key a \<noteq> pending_destruction_key b"
  "pending_token_key a \<noteq> payment_token_key b"
  "pending_token_key a \<noteq> pw_attempts_key b"
  "pending_token_key a \<noteq> download_count_key b"
  "pending_token_key a \<noteq> checkout_token_key b x"
  "pending_destruction_key a \<noteq> reader_token_key b"
  "pending_destruction_key a \<noteq> pending_token_key b"
  "pending_destruction_key a \<noteq> payment_token_key b"
  "pending_destruction_key a \<noteq> pw_attempts_key b"
  "pending_destruction_key a \<noteq> download_count_key b"
  "pending_destruction_key a \<noteq> checkout_token_key b x"
  "payment_token_key a \<noteq> reader_token_key b"
  "payment_token_key a \<noteq> pending_token_key b"
  "payment_token_key a \<noteq> pending_destruction_key b"
  "payment_token_key a \<noteq> pw_attempts_key b"
  "payment_token_key a \<noteq> download_count_key b"
  "payment_token_key a \<noteq> checkout_token_key b x"
  "pw_attempts_key a \<noteq> reader_token_key b"
  "pw_attempts_key a \<noteq> pending_token_key b"
  "pw_attempts_key a \<noteq> pending_destruction_key b"
  "pw_attempts_key a \<noteq> payment_token_key b"
  "pw_attempts_key a \<noteq> download_count_key b"
  "pw_attempts_key a \<noteq> checkout_token_key b x"
  "download_count_key a \<noteq> reader_token_key b"
  "download_count_key a \<noteq> pending_token_key b"
  "download_count_key a \<noteq> pending_destruction_key b"
  "download_count_key a \<noteq> payment_token_key b"
  "download_count_key a \<noteq> pw_attempts_key b"
  "download_count_key a \<noteq> checkout_token_key b x"
  "checkout_token_key a x \<noteq> reader_token_key b"
  "checkout_token_key a x \<noteq> pending_token_key b"
  "checkout_token_key a x \<noteq> pending_destruction_key b"
  "checkout_token_key a x \<noteq> payment_token_key b"
  "checkout_token_key a x \<noteq> pw_attempts_key b"
  "checkout_token_key a x \<noteq> download_count_key b"
  by (simp_all add: channel_key_defs)

text \<open>
  The channel key carries the slug right after the common prefix: it stays apart from the
  marked families because an accepted slug has neither a colon nor an underscore.
\<close>

lemma slug_ok_Nil [simp]: "slug_ok []"
  by (simp add: slug_ok_def)

lemma slug_ok_append [simp]: "slug_ok (xs @ ys) = (slug_ok xs \<and> slug_ok ys)"
  by (auto simp: slug_ok_def)

lemma slug_ok_Cons [simp]:
  "slug_ok (c # cs) = ((is_slug_char c \<or> c = CHR 0x0A) \<and> slug_ok cs)"
  by (auto simp: slug_ok_def)

lemma no_slug_char [simp]: "\<not> is_slug_char (CHR '':'')" "\<not> is_slug_char (CHR ''_'')"
  by (simp_all add: is_slug_char_def is_lower_alnum_def)

lemma channel_key_apart [simp, keys]:
  assumes "slug_ok a"
  shows
  "channel_key a \<noteq> reader_token_key b"
  "reader_token_key b \<noteq> channel_key a"
  "channel_key a \<noteq> pending_token_key b"
  "pending_token_key b \<noteq> channel_key a"
  "channel_key a \<noteq> pending_destruction_key b"
  "pending_destruction_key b \<noteq> channel_key a"
  "channel_key a \<noteq> payment_token_key b"
  "payment_token_key b \<noteq> channel_key a"
  "channel_key a \<noteq> pw_attempts_key b"
  "pw_attempts_key b \<noteq> channel_key a"
  "channel_key a \<noteq> download_count_key b"
  "download_count_key b \<noteq> channel_key a"
  "channel_key a \<noteq> checkout_token_key b x"
  "checkout_token_key b x \<noteq> channel_key a"
  "channel_key a \<noteq> checksums_key b"
  "checksums_key b \<noteq> channel_key a"
  using assms by (auto simp: channel_key_defs)

lemma checksums_key_apart [simp, keys]:
  assumes "slug_ok a"
  shows
  "checksums_key a \<noteq> reader_token_key b"
  "reader_token_key b \<noteq> checksums_key a"
  "checksums_key a \<noteq> pending_token_key b"
  "pending_token_key b \<noteq> checksums_key a"
  "checksums_key a \<noteq> pending_destruction_key b"
  "pending_destruction_key b \<noteq> checksums_key a"
  "checksums_key a \<noteq> payment_token_key b"
  "payment_token_key b \<noteq> checksums_key a"
  "checksums_key a \<noteq> pw_attempts_key b"
  "pw_attempts_key b \<noteq> checksums_key a"
  "checksums_key a \<noteq> download_count_key b"
  "download_count_key b \<noteq> checksums_key a"
  "checksums_key a \<noteq> checkout_token_key b x"
  "checkout_token_key b x \<noteq> checksums_key a"
  using assms by (auto simp: channel_key_defs Cons_eq_append_conv append_eq_Cons_conv)

end
