(* ===== verification/Channel_Data.thy ===== *)
theory Channel_Data
  imports Prelude
begin

section \<open>Stored records: channels and secrets\<close>

text \<open>
  The dataclasses \<open>ChannelData\<close> and \<open>SecretData\<close> of \<open>queries.py\<close>, their dict forms
  and the registry of session kinds. \<open>from_dict\<close> fills the fields that an entry written
  by an older version lacks, so that such an entry still loads.
\<close>

subsection \<open>Session kinds\<close>

definition SESSION_KINDS :: "string list" where "SESSION_KINDS = [''file'']"

definition validate_session_kind :: "string \<Rightarrow> py_error + unit" where
  "validate_session_kind kind =
     (if kind \<notin> set SESSION_KINDS then Inl (ValueError ''Unknown session_kind'') else Inr ())"

subsection \<open>\<open>SecretData\<close>\<close>

record secret_data =
  s_message :: string
  s_price_cents :: "int option"
  s_currency :: string
  s_title :: "string option"
  s_workspace_id :: "string option"
  s_seller_stripe_id :: "string option"

definition secret_is_paid :: "secret_data \<Rightarrow> bool" where
  "secret_is_paid d = (case s_price_cents d of None \<Rightarrow> False | Some p \<Rightarrow> 0 < p)"

definition secret_to_dict :: "secret_data \<Rightarrow> (string \<times> json) list" where
  "secret_to_dict d = [
     (''message'', JStr (s_message d)),
     (''price_cents'', json_opt_int (s_price_cents d)),
     (''currency'', JStr (s_currency d)),
     (''title'', json_opt_str (s_title d)),
     (''workspace_id'', json_opt_str (s_workspace_id d)),
     (''seller_stripe_id'', json_opt_str (s_seller_stripe_id d))]"

definition secret_from_dict :: "(string \<times> json) list \<Rightarrow> py_error + secret_data" where
  "secret_from_dict data =
     bind_sum (req_str data ''message'') (\<lambda>message.
     bind_sum (get_opt_int data ''price_cents'') (\<lambda>price_cents.
     bind_sum (get_str data ''currency'' ''usd'') (\<lambda>currency.
     bind_sum (get_opt_str data ''title'') (\<lambda>title.
     bind_sum (get_opt_str data ''workspace_id'') (\<lambda>workspace_id.
     bind_sum (get_opt_str data ''seller_stripe_id'') (\<lambda>seller_stripe_id.
     Inr \<lparr>s_message = message, s_price_cents = price_cents, s_currency = currency,
          s_title = title, s_workspace_id = workspace_id,
          s_seller_stripe_id = seller_stripe_id\<rparr>))))))"

lemma secret_roundtrip: "secret_from_dict (secret_to_dict d) = Inr d"
  by (simp add: secret_from_dict_def secret_to_dict_def)

subsection \<open>\<open>ChannelData\<close>\<close>

record channel_data =
  secret :: string
  long_slug :: slug
  short_slug :: slug
  max_downloads :: int
  price_cents :: "int option"
  currency :: string
  seller_stripe_id :: "string option"
  seller_account_id :: "string option"
  user_id :: "string option"
  title :: "string option"
  file_name :: "string option"
  file_size_bytes :: "int option"
  share_id :: "string option"
  creator_country :: string
  creator_continent :: string
  session_kind :: string
  max_viewers :: int
  screen_started_at :: "string option"
  watch_source_url :: "string option"
  watch_source_kind :: string
  watch_started_at :: "string option"
  call_mode :: string
  max_participants :: int
  call_started_at :: "string option"
  collab_kind :: string
  collab_started_at :: "string option"

text \<open>The constructor with its default arguments: a free, unlimited file channel.\<close>

definition default_channel :: "string \<Rightarrow> slug \<Rightarrow> slug \<Rightarrow> channel_data" where
  "default_channel sec long short = \<lparr>
     secret = sec, long_slug = long, short_slug = short,
     max_downloads = 0, price_cents = None, currency = ''usd'',
     seller_stripe_id = None, seller_account_id = None, user_id = None, title = None,
     file_name = None, file_size_bytes = None, share_id = None,
     creator_country = '''', creator_continent = '''', session_kind = ''file'',
     max_viewers = 0, screen_started_at = None,
     watch_source_url = None, watch_source_kind = ''url'', watch_started_at = None,
     call_mode = ''audio_video'', max_participants = 0, call_started_at = None,
     collab_kind = ''text'', collab_started_at = None\<rparr>"

definition is_paid :: "channel_data \<Rightarrow> bool" where
  "is_paid c = (case price_cents c of None \<Rightarrow> False | Some p \<Rightarrow> 0 < p)"

definition channel_to_dict :: "channel_data \<Rightarrow> (string \<times> json) list" where
  "channel_to_dict c = [
     (''secret'', JStr (secret c)),
     (''long_slug'', JStr (long_slug c)),
     (''short_slug'', JStr (short_slug c)),
     (''max_downloads'', JInt (max_downloads c)),
     (''price_cents'', json_opt_int (price_cents c)),
     (''currency'', JStr (currency c)),
     (''seller_stripe_id'', json_opt_str (seller_stripe_id c)),
     (''seller_account_id'', json_opt_str (seller_account_id c)),
     (''user_id'', json_opt_str (user_id c)),
     (''title'', json_opt_str (title c)),
     (''file_name'', json_opt_str (file_name c)),
     (''file_size_bytes'', json_opt_int (file_size_bytes c)),
     (''share_id'', json_opt_str (share_id c)),
     (''creator_country'', JStr (creator_country c)),
     (''creator_continent'', JStr (creator_continent c)),
     (''session_kind'', JStr (session_kind c)),
     (''max_viewers'', JInt (max_viewers c)),
     (''screen_started_at'', json_opt_str (screen_started_at c)),
     (''watch_source_url'', json_opt_str (watch_source_url c)),
     (''watch_source_kind'', JStr (watch_source_kind c)),
     (''watch_started_at'', json_opt_str (watch_started_at c)),
     (''call_mode'', JStr (call_mode c)),
     (''max_participants'', JInt (max_participants c)),
     (''call_started_at'', json_opt_str (call_started_at c)),
     (''collab_kind'', JStr (collab_kind c)),
     (''collab_started_at'', json_opt_str (collab_started_at c))]"

definition channel_from_dict :: "(string \<times> json) list \<Rightarrow> py_error + channel_data" where
  "channel_from_dict data =
     bind_sum (req_str data ''secret'') (\<lambda>sec.
     bind_sum (req_str data ''long_slug'') (\<lambda>long.
     bind_sum (req_str data ''short_slug'') (\<lambda>short.
     bind_sum (get_int data ''max_downloads'' 0) (\<lambda>maxdl.
     bind_sum (get_opt_int data ''price_cents'') (\<lambda>price.
     bind_sum (get_str data ''currency'' ''usd'') (\<lambda>cur.
     bind_sum (get_opt_str data ''seller_stripe_id'') (\<lambda>stripe.
     bind_sum (get_opt_str data ''seller_account_id'') (\<lambda>account.
     bind_sum (get_opt_str data ''user_id'') (\<lambda>user.
     bind_sum (get_opt_str data ''title'') (\<lambda>ttl.
     bind_sum (get_opt_str data ''file_name'') (\<lambda>fname.
     bind_sum (get_opt_int data ''file_size_bytes'') (\<lambda>fsize.
     bind_sum (get_opt_str data ''share_id'') (\<lambda>share.
     bind_sum (get_str data ''creator_country'' '''') (\<lambda>country.
     bind_sum (get_str data ''creator_continent'' '''') (\<lambda>continent.
     bind_sum (get_str data ''session_kind'' ''file'') (\<lambda>kind.
     bind_sum (get_int data ''max_viewers'' 0) (\<lambda>viewers.
     bind_sum (get_opt_str data ''screen_started_at'') (\<lambda>screen.
     bind_sum (get_opt_str data ''watch_source_url'') (\<lambda>wurl.
     bind_sum (get_str data ''watch_source_kind'' ''url'') (\<lambda>wkind.
     bind_sum (get_opt_str data ''watch_started_at'') (\<lambda>wstart.
     bind_sum (get_str data ''call_mode'' ''audio_video'') (\<lambda>cmode.
     bind_sum (get_int data ''max_participants'' 0) (\<lambda>parts.
     bind_sum (get_opt_str data ''call_started_at'') (\<lambda>cstart.
     bind_sum (get_str data ''collab_kind'' ''text'') (\<lambda>ckind.
     bind_sum (get_opt_str data ''collab_started_at'') (\<lambda>costart.
     Inr \<lparr>secret = sec, long_slug = long, short_slug = short, max_downloads = maxdl,
          price_cents = price, currency = cur, seller_stripe_id = stripe,
          seller_account_id = account, user_id = user, title = ttl, file_name = fname,
          file_size_bytes = fsize, share_id = share, creator_country = country,
          creator_continent = continent, session_kind = kind, max_viewers = viewers,
          screen_started_at = screen, watch_source_url = wurl, watch_source_kind = wkind,
          watch_started_at = wstart, call_mode = cmode, max_participants = parts,
          call_started_at = cstart, collab_kind = ckind,
          collab_started_at = costart\<rparr>))))))))))))))))))))))))))"

lemma channel_roundtrip: "channel_from_dict (channel_to_dict c) = Inr c"
  by (simp add: channel_from_dict_def channel_to_dict_def)

text \<open>An entry that holds the three required fields only loads with every default.\<close>

lemma channel_from_minimal:
  "channel_from_dict [(''secret'', JStr a), (''long_slug'', JStr l), (''short_slug'', JStr b)] =
     Inr (default_channel a l b)"
  by (simp add: channel_from_dict_def default_channel_def)

text \<open>Removing an optional field never makes an entry unreadable.\<close>

lemma channel_from_dict_required:
  assumes "channel_from_dict d = Inl (KeyError k)"
  shows "k \<in> {''secret'', ''long_slug'', ''short_slug''} \<and> map_of d k = None"
proof -
  have req: "req_str d x = Inl (KeyError k) \<Longrightarrow> k = x \<and> map_of d x = None" for x
    by (auto simp: req_str_def split: option.splits json.splits)
  have opt: "get_str d x y \<noteq> Inl (KeyError k)" "get_int d x n \<noteq> Inl (KeyError k)"
    "get_opt_str d x \<noteq> Inl (KeyError k)" "get_opt_int d x \<noteq> Inl (KeyError k)" for x y n
    by (auto simp: get_str_def get_int_def get_opt_str_def get_opt_int_def
        split: option.splits json.splits)
  have step: "bind_sum r f = Inl (KeyError k) \<longleftrightarrow>
      r = Inl (KeyError k) \<or> (\<exists>x. r = Inr x \<and> f x = Inl (KeyError k))"
    for r :: "py_error + 'x" and f :: "'x \<Rightarrow> py_error + 'y"
    by (cases r) auto
  show ?thesis
    using assms by (auto simp: channel_from_dict_def step opt dest: req)
qed

end
