(* ===== verification/Channel_Repository.thy ===== *)
theory Channel_Repository
  imports Slugs Channel_Data
begin

section \<open>\<open>ChannelRepository\<close>\<close>

text \<open>
  The Redis-backed channel store of \<open>queries.py\<close>: one definition per method, over a
  server \<open>R\<close>, primitives \<open>C\<close>, settings \<open>cfg\<close> and the server state \<open>s\<close>. A method that
  only reads returns its answer; a method that writes returns its answer and the new
  state. Logging has no effect on the state and is left out.
\<close>

subsection \<open>Creation\<close>

text \<open>
  \<open>_generate_unique_slugs\<close>: at most \<open>SLUG_MAX_ATTEMPTS\<close> candidates for each slug, each
  reserved by an atomic \<open>SET NX\<close> with a short expiry. \<open>gen i\<close> is the i-th candidate.
\<close>

fun reserve_slug :: "'s redis \<Rightarrow> (nat \<Rightarrow> slug) \<Rightarrow> nat \<Rightarrow> nat \<Rightarrow> 's \<Rightarrow> slug option \<times> 's" where
  "reserve_slug R gen 0 i s = (None, s)"
| "reserve_slug R gen (Suc attempts) i s =
     (case SET_NX_EX R (channel_key (gen i)) (Text ''__reserved__'') 30 s of (reserved, s1) \<Rightarrow>
        (if reserved then (Some (gen i), s1) else reserve_slug R gen attempts (Suc i) s1))"

definition generate_unique_slugs ::
  "'s redis \<Rightarrow> (nat \<Rightarrow> slug) \<Rightarrow> (nat \<Rightarrow> slug) \<Rightarrow> 's \<Rightarrow> (py_error + slug \<times> slug) \<times> 's" where
  "generate_unique_slugs R shorts longs s =
     (case reserve_slug R shorts SLUG_MAX_ATTEMPTS 0 s of
        (None, s1) \<Rightarrow>
          (Inl (RuntimeError ''Failed to generate unique short slug after max attempts''), s1)
      | (Some short, s1) \<Rightarrow>
          (case reserve_slug R longs SLUG_MAX_ATTEMPTS 0 s1 of
             (None, s2) \<Rightarrow>
               (Inl (RuntimeError ''Failed to generate unique long slug after max attempts''),
                DEL R (channel_key short) s2)
           | (Some long, s2) \<Rightarrow> (Inr (short, long), s2)))"

text \<open>The keyword arguments of \<open>create_channel\<close>.\<close>

record channel_args =
  a_price_cents :: "int option"
  a_currency :: string
  a_seller_stripe_id :: "string option"
  a_seller_account_id :: "string option"
  a_user_id :: "string option"
  a_title :: "string option"
  a_file_name :: "string option"
  a_file_size_bytes :: "int option"
  a_share_id :: "string option"
  a_creator_country :: string
  a_creator_continent :: string

definition default_args :: channel_args where
  "default_args = \<lparr>a_price_cents = None, a_currency = ''usd'', a_seller_stripe_id = None,
     a_seller_account_id = None, a_user_id = None, a_title = None, a_file_name = None,
     a_file_size_bytes = None, a_share_id = None, a_creator_country = '''',
     a_creator_continent = ''''\<rparr>"

text \<open>\<open>price_cents is not None and price_cents > 0\<close>.\<close>

definition price_positive :: "int option \<Rightarrow> bool" where
  "price_positive p = (case p of None \<Rightarrow> False | Some n \<Rightarrow> 0 < n)"

definition resolve_ttl :: "settings \<Rightarrow> int option \<Rightarrow> int option \<Rightarrow> int" where
  "resolve_ttl cfg price ttl = (case ttl of
       Some t \<Rightarrow> t
     | None \<Rightarrow> (if price_positive price then PAID_CHANNEL_TTL cfg else CHANNEL_TTL cfg))"

definition new_channel :: "crypto \<Rightarrow> int \<Rightarrow> channel_args \<Rightarrow> slug \<Rightarrow> slug \<Rightarrow> string \<Rightarrow> channel_data" where
  "new_channel C maxdl a short long raw_secret =
     (default_channel (hash_secret C raw_secret) long short)\<lparr>
        max_downloads := maxdl,
        price_cents := a_price_cents a,
        currency := a_currency a,
        seller_stripe_id := a_seller_stripe_id a,
        seller_account_id := a_seller_account_id a,
        user_id := a_user_id a,
        title := a_title a,
        file_name := a_file_name a,
        file_size_bytes := a_file_size_bytes a,
        share_id := a_share_id a,
        creator_country := a_creator_country a,
        creator_continent := a_creator_continent a\<rparr>"

definition store_channel :: "'s redis \<Rightarrow> channel_data \<Rightarrow> int \<Rightarrow> 's \<Rightarrow> 's" where
  "store_channel R c ttl s =
     (let channel_json = Doc (JObj (channel_to_dict c));
          pending_ttl = 120;
          s1 = SETEX R (channel_key (short_slug c)) ttl channel_json s;
          s2 = SETEX R (channel_key (long_slug c)) ttl channel_json s1;
          s3 = SETEX R (pending_token_key (short_slug c)) pending_ttl (Number 1) s2
      in SETEX R (pending_token_key (long_slug c)) pending_ttl (Number 1) s3)"

definition create_channel ::
  "'s redis \<Rightarrow> crypto \<Rightarrow> settings \<Rightarrow> (nat \<Rightarrow> slug) \<Rightarrow> (nat \<Rightarrow> slug) \<Rightarrow> string \<Rightarrow>
     int \<Rightarrow> int option \<Rightarrow> channel_args \<Rightarrow> 's \<Rightarrow> (py_error + channel_data \<times> string) \<times> 's" where
  "create_channel R C cfg shorts longs token_hex maxdl ttl a s =
     (let t = resolve_ttl cfg (a_price_cents a) ttl in
      (case generate_unique_slugs R shorts longs s of
         (Inl e, s1) \<Rightarrow> (Inl e, s1)
       | (Inr (short, long), s1) \<Rightarrow>
           (let raw_secret = generate_secret token_hex;
                c = new_channel C maxdl a short long raw_secret
            in (Inr (c, raw_secret), store_channel R c t s1))))"

subsection \<open>Lookup, renewal, destruction\<close>

text \<open>
  \<open>JSONDecodeError\<close> (the marker of a reserved slug) and \<open>KeyError\<close> read as no channel.
  A document that is no object, or has an ill-typed field, is not written by any method.
\<close>

definition parse_channel :: "payload \<Rightarrow> channel_data option" where
  "parse_channel p = (case json_loads p of
       Some (JObj d) \<Rightarrow> (case channel_from_dict d of Inr c \<Rightarrow> Some c | Inl _ \<Rightarrow> None)
     | _ \<Rightarrow> None)"

definition fetch_channel :: "'s redis \<Rightarrow> slug \<Rightarrow> 's \<Rightarrow> channel_data option" where
  "fetch_channel R slug s = (case GET R (channel_key slug) s of
       None \<Rightarrow> None
     | Some p \<Rightarrow> parse_channel p)"

text \<open>\<open>channel is None or not hmac.compare_digest(channel.secret, _hash_secret(secret))\<close>.\<close>

definition owned_channel :: "'s redis \<Rightarrow> crypto \<Rightarrow> slug \<Rightarrow> string \<Rightarrow> 's \<Rightarrow> channel_data option" where
  "owned_channel R C slug sec s = (case fetch_channel R slug s of
       None \<Rightarrow> None
     | Some c \<Rightarrow> (if secret c = hash_secret C sec then Some c else None))"

definition renew_channel ::
  "'s redis \<Rightarrow> crypto \<Rightarrow> settings \<Rightarrow> slug \<Rightarrow> string \<Rightarrow> int option \<Rightarrow> 's \<Rightarrow> bool \<times> 's" where
  "renew_channel R C cfg slug sec ttl s = (case owned_channel R C slug sec s of
       None \<Rightarrow> (False, s)
     | Some c \<Rightarrow>
         (let t = (case ttl of None \<Rightarrow> CHANNEL_TTL cfg | Some n \<Rightarrow> if n = 0 then CHANNEL_TTL cfg else n);
              rk = reader_token_key (short_slug c);
              reader_token_exists = EXISTS R rk s;
              s1 = EXPIRE R (channel_key (short_slug c)) t s;
              s2 = EXPIRE R (channel_key (long_slug c)) t s1;
              s3 = (if reader_token_exists then EXPIRE R rk t s2 else s2);
              s4 = EXPIRE R (download_count_key (short_slug c)) t s3;
              s5 = DEL R (pending_destruction_key (short_slug c)) s4
          in (True, s5)))"

definition CHANNEL_DESTRUCTION_DELAY :: int where "CHANNEL_DESTRUCTION_DELAY = 30"

definition destruction_info :: "string \<Rightarrow> channel_data \<Rightarrow> payload" where
  "destruction_info now c = Doc (JObj [
     (''requested_at'', JStr now),
     (''short_slug'', JStr (short_slug c)),
     (''long_slug'', JStr (long_slug c))])"

definition destruction_keys :: "channel_data \<Rightarrow> string list" where
  "destruction_keys c = [
     channel_key (long_slug c),
     reader_token_key (short_slug c),
     reader_token_key (long_slug c),
     pending_token_key (short_slug c),
     pending_token_key (long_slug c),
     pw_attempts_key (short_slug c),
     download_count_key (short_slug c)]"

definition request_channel_destruction ::
  "'s redis \<Rightarrow> crypto \<Rightarrow> string \<Rightarrow> slug \<Rightarrow> string \<Rightarrow> 's \<Rightarrow> (bool \<times> bool \<times> string) \<times> 's" where
  "request_channel_destruction R C now slug sec s =
     (case fetch_channel R slug s of
        None \<Rightarrow> ((False, False, ''Channel not found''), s)
      | Some c \<Rightarrow>
          (if secret c \<noteq> hash_secret C sec then ((False, False, ''Invalid secret''), s)
           else
             (let pending_k = pending_destruction_key (short_slug c);
                  channel_k = channel_key (short_slug c)
              in case atomic_pending_destruction R channel_k pending_k
                        CHANNEL_DESTRUCTION_DELAY (destruction_info now c) s of (result, s1) \<Rightarrow>
                (if result = 0 then ((False, False, ''Channel not found''), s1)
                 else if result = 1 then
                   ((True, False, ''Destruction pending. Channel will be destroyed in 30 seconds unless cancelled by the owner. Request again to confirm immediately.''), s1)
                 else
                   (case atomic_destroy_channel R channel_k pending_k (destruction_keys c) s1 of
                      (destroyed, s2) \<Rightarrow>
                        (if destroyed = 1 then ((True, True, ''Channel destroyed''), s2)
                         else if destroyed = 0 then ((False, False, ''Channel not found''), s2)
                         else if destroyed = -1 then ((False, False, ''Invalid secret''), s2)
                         else ((False, False, ''Destruction confirmation expired. Please try again.''), s2)))))))"

subsection \<open>Reader tokens\<close>

text \<open>
  The methods take an optional pre-fetched channel; without one they fetch it by slug.
\<close>

definition given_or_fetched :: "'s redis \<Rightarrow> slug \<Rightarrow> channel_data option \<Rightarrow> 's \<Rightarrow> channel_data option" where
  "given_or_fetched R slug given s = (case given of None \<Rightarrow> fetch_channel R slug s | Some c \<Rightarrow> Some c)"

definition is_pending_token :: "'s redis \<Rightarrow> slug \<Rightarrow> channel_data option \<Rightarrow> 's \<Rightarrow> bool" where
  "is_pending_token R slug given s = (case given_or_fetched R slug given s of
       None \<Rightarrow> False
     | Some c \<Rightarrow> GET R (pending_token_key (short_slug c)) s \<noteq> None)"

definition has_reader_token :: "'s redis \<Rightarrow> slug \<Rightarrow> channel_data option \<Rightarrow> 's \<Rightarrow> bool" where
  "has_reader_token R slug given s = (case given_or_fetched R slug given s of
       None \<Rightarrow> False
     | Some c \<Rightarrow> GET R (reader_token_key (short_slug c)) s \<noteq> None)"

definition set_reader_token ::
  "'s redis \<Rightarrow> crypto \<Rightarrow> slug \<Rightarrow> string \<Rightarrow> string \<Rightarrow> 's \<Rightarrow> bool \<times> 's" where
  "set_reader_token R C slug sec token_h s = (case owned_channel R C slug sec s of
       None \<Rightarrow> (False, s)
     | Some c \<Rightarrow>
         (let ttl = TTL R (channel_key (short_slug c)) s in
          if ttl \<le> 0 then (False, s)
          else
            (let s1 = SETEX R (reader_token_key (short_slug c)) ttl (Text (lower token_h)) s;
                 s2 = DEL R (pending_token_key (short_slug c)) s1
             in (True, DEL R (pending_token_key (long_slug c)) s2))))"

definition validate_reader_token ::
  "'s redis \<Rightarrow> crypto \<Rightarrow> slug \<Rightarrow> string \<Rightarrow> channel_data option \<Rightarrow> 's \<Rightarrow> bool" where
  "validate_reader_token R C slug token given s = (case given_or_fetched R slug given s of
       None \<Rightarrow> False
     | Some c \<Rightarrow>
         (case GET R (reader_token_key (short_slug c)) s of
            None \<Rightarrow> False
          | Some stored_hash \<Rightarrow> Text (sha256_hex C token) = stored_hash))"

subsection \<open>Password attempts and downloads\<close>

definition MAX_PASSWORD_ATTEMPTS :: int where "MAX_PASSWORD_ATTEMPTS = 10"

definition PASSWORD_ATTEMPT_TTL :: int where "PASSWORD_ATTEMPT_TTL = 900"

definition record_password_attempt ::
  "'s redis \<Rightarrow> crypto \<Rightarrow> slug \<Rightarrow> string \<Rightarrow> 's \<Rightarrow> bool \<times> 's" where
  "record_password_attempt R C slug sec s = (case owned_channel R C slug sec s of
       None \<Rightarrow> (False, s)
     | Some c \<Rightarrow>
         (case atomic_incr_expire R (pw_attempts_key (short_slug c)) PASSWORD_ATTEMPT_TTL s of
            (current, s1) \<Rightarrow> (current \<le> MAX_PASSWORD_ATTEMPTS, s1)))"

text \<open>\<open>int(count_str) if count_str else 0\<close> on a counter key.\<close>

definition stored_count :: "payload option \<Rightarrow> int" where
  "stored_count p = (case p of Some (Number n) \<Rightarrow> n | _ \<Rightarrow> 0)"

definition check_download_available :: "'s redis \<Rightarrow> slug \<Rightarrow> channel_data option \<Rightarrow> 's \<Rightarrow> bool" where
  "check_download_available R slug given s = (case given_or_fetched R slug given s of
       None \<Rightarrow> False
     | Some c \<Rightarrow>
         (if max_downloads c = 0 then True
          else
            (let current = stored_count (GET R (download_count_key (short_slug c)) s)
             in if max_downloads c \<le> current then False else True)))"

definition record_download_complete ::
  "'s redis \<Rightarrow> crypto \<Rightarrow> slug \<Rightarrow> string \<Rightarrow> 's \<Rightarrow> (bool \<times> int \<times> int) \<times> 's" where
  "record_download_complete R C slug reader_token s =
     (case fetch_channel R slug s of
        None \<Rightarrow> ((False, 0, 0), s)
      | Some c \<Rightarrow>
          (if is_pending_token R slug (Some c) s then ((False, 0, 0), s)
           else if \<not> validate_reader_token R C slug reader_token (Some c) s then ((False, 0, 0), s)
           else
             (let key = download_count_key (short_slug c);
                  ttl = TTL R (channel_key (short_slug c)) s;
                  counter_ttl = max ttl 3600
              in if max_downloads c = 0 then
                   (case INCR R key s of (download_count, s1) \<Rightarrow>
                      ((True, -1, download_count),
                       if download_count = 1 then EXPIRE R key counter_ttl s1 else s1))
                 else
                   (case atomic_download_incr R key (max_downloads c) counter_ttl s of
                      (result, s1) \<Rightarrow>
                        (if result = -1 then ((False, 0, 0), s1)
                         else ((True, max 0 (max_downloads c - result), result), s1))))))"

definition delete_channel_keys :: "channel_data \<Rightarrow> string list" where
  "delete_channel_keys c = [
     channel_key (short_slug c),
     channel_key (long_slug c),
     reader_token_key (short_slug c),
     reader_token_key (long_slug c),
     pending_token_key (short_slug c),
     pending_token_key (long_slug c),
     pw_attempts_key (short_slug c),
     download_count_key (short_slug c),
     pending_destruction_key (short_slug c),
     payment_token_key (short_slug c)]"

definition delete_channel :: "'s redis \<Rightarrow> channel_data \<Rightarrow> 's \<Rightarrow> 's" where
  "delete_channel R c s = DELS R (delete_channel_keys c) s"

subsection \<open>Checksums\<close>

definition checksums_doc :: "(string \<times> string) list \<Rightarrow> payload" where
  "checksums_doc sums = Doc (JObj (map (\<lambda>(f, d). (f, JStr d)) sums))"

definition store_checksums ::
  "'s redis \<Rightarrow> crypto \<Rightarrow> slug \<Rightarrow> string \<Rightarrow> (string \<times> string) list \<Rightarrow> 's \<Rightarrow> bool \<times> 's" where
  "store_checksums R C slug sec sums s = (case owned_channel R C slug sec s of
       None \<Rightarrow> (False, s)
     | Some c \<Rightarrow>
         (let ttl = TTL R (channel_key (short_slug c)) s in
          if ttl \<le> 0 then (False, s)
          else (True, SETEX R (checksums_key (short_slug c)) ttl (checksums_doc sums) s)))"

definition fetch_checksums :: "'s redis \<Rightarrow> crypto \<Rightarrow> slug \<Rightarrow> string \<Rightarrow> 's \<Rightarrow> json option" where
  "fetch_checksums R C slug reader_token s = (case fetch_channel R slug s of
       None \<Rightarrow> None
     | Some c \<Rightarrow>
         (if \<not> validate_reader_token R C slug reader_token (Some c) s then None
          else (case GET R (checksums_key (short_slug c)) s of
                  None \<Rightarrow> None
                | Some data \<Rightarrow> json_loads data)))"

subsection \<open>Payment tokens\<close>

text \<open>The stored value binds the token hash to the buyer fingerprint.\<close>

definition bound_value :: "string \<Rightarrow> string \<Rightarrow> payload" where
  "bound_value token_h fingerprint = Text (token_h @ '':'' @ fingerprint)"

definition store_payment_token ::
  "'s redis \<Rightarrow> slug \<Rightarrow> string \<Rightarrow> int \<Rightarrow> string \<Rightarrow> 's \<Rightarrow> 's" where
  "store_payment_token R slug token_h ttl fingerprint s =
     (let key = payment_token_key slug
      in EXPIRE R key ttl (SADD R key (bound_value token_h fingerprint) s))"

definition validate_payment_token ::
  "'s redis \<Rightarrow> crypto \<Rightarrow> slug \<Rightarrow> string \<Rightarrow> channel_data option \<Rightarrow> string \<Rightarrow> 's \<Rightarrow> bool" where
  "validate_payment_token R C slug token given fingerprint s =
     (case given_or_fetched R slug given s of
        None \<Rightarrow> False
      | Some c \<Rightarrow> SISMEMBER R (payment_token_key (short_slug c))
                    (bound_value (sha256_hex C token) fingerprint) s)"

definition CHECKOUT_TOKEN_TTL :: int where "CHECKOUT_TOKEN_TTL = 900"

definition store_checkout_payment_token ::
  "'s redis \<Rightarrow> crypto \<Rightarrow> slug \<Rightarrow> string \<Rightarrow> string \<Rightarrow> 's \<Rightarrow> 's" where
  "store_checkout_payment_token R C slug checkout_session_id payment_token s =
     SETEX R (checkout_token_key slug checkout_session_id) CHECKOUT_TOKEN_TTL
       (Text (encrypt_token C payment_token)) s"

text \<open>The text of a stored string (the client decodes replies to text).\<close>

definition payload_text :: "payload \<Rightarrow> string" where
  "payload_text p = (case p of Text t \<Rightarrow> t | _ \<Rightarrow> '''')"

definition claim_checkout_payment_token ::
  "'s redis \<Rightarrow> crypto \<Rightarrow> slug \<Rightarrow> string \<Rightarrow> 's \<Rightarrow> (py_error + string option) \<times> 's" where
  "claim_checkout_payment_token R C slug checkout_session_id s =
     (case GETDEL R (checkout_token_key slug checkout_session_id) s of
        (None, s1) \<Rightarrow> (Inr None, s1)
      | (Some encrypted, s1) \<Rightarrow>
          (case decrypt_token C (payload_text encrypted) of
             None \<Rightarrow> (Inl (RuntimeError ''InvalidToken''), s1)
           | Some token \<Rightarrow> (Inr (Some token), s1)))"

end
