(* ===== verification/Channel_Lifecycle.thy ===== *)
theory Channel_Lifecycle
  imports Channel_Repository
begin

section \<open>What the channel methods do to the key space\<close>

text \<open>
  The effect of each writing method of \<open>ChannelRepository\<close> on every key, and from it the
  lifecycle of a channel: creation on free slugs, lookup under both slugs, ownership,
  the two-phase destruction, reader tokens.
\<close>

text \<open>The cell a channel leaves under its keys, and a cell given a new expiry.\<close>

definition channel_cell :: "channel_data \<Rightarrow> nat \<Rightarrow> cell" where
  "channel_cell c t = Some (RStr (Doc (JObj (channel_to_dict c))), Some t)"

definition reexpire :: "int \<Rightarrow> cell \<Rightarrow> cell" where
  "reexpire t c = (if 0 < t then map_option (\<lambda>(v, _). (v, Some (nat t))) c else None)"

lemma reexpire_idem [simp]: "reexpire t (reexpire t c) = reexpire t c"
  by (cases c) (auto simp: reexpire_def)

lemma reexpire_None [simp]: "reexpire t None = None"
  by (simp add: reexpire_def)

lemma cell_str_reexpire: "cell_str (reexpire t c) = Some p \<Longrightarrow> cell_str c = Some p"
  by (auto simp: reexpire_def split: if_splits)

lemma is_counter_reexpire [simp]: "is_counter c \<Longrightarrow> is_counter (reexpire t c)"
  by (auto simp: reexpire_def)

lemma parse_channel_doc [simp]: "parse_channel (Doc (JObj (channel_to_dict c))) = Some c"
  by (simp add: parse_channel_def channel_roundtrip)

lemma parse_channel_other [simp]:
  "parse_channel (Text t) = None"
  "parse_channel (Number n) = None"
  by (simp_all add: parse_channel_def)

lemma channel_cell_simps [simp]:
  "cell_str (channel_cell c t) = Some (Doc (JObj (channel_to_dict c)))"
  "channel_cell c t \<noteq> None"
  by (simp_all add: channel_cell_def)

lemma owned_channel_Some:
  "owned_channel R C slug sec s = Some c \<longleftrightarrow>
     fetch_channel R slug s = Some c \<and> secret c = hash_secret C sec"
  by (auto simp: owned_channel_def split: option.splits)

lemma fetch_channel_look:
  "fetch_channel R slug s = (case cell_str (look R s (channel_key slug)) of
      None \<Rightarrow> None | Some p \<Rightarrow> parse_channel p)"
  by (simp add: fetch_channel_def GET_def)

lemma new_channel_slugs [simp]:
  "short_slug (new_channel C m a x y h) = x"
  "long_slug (new_channel C m a x y h) = y"
  "max_downloads (new_channel C m a x y h) = m"
  "secret (new_channel C m a x y h) = hash_secret C h"
  "session_kind (new_channel C m a x y h) = ''file''"
  "price_cents (new_channel C m a x y h) = a_price_cents a"
  by (simp_all add: new_channel_def default_channel_def)

definition renew_ttl :: "settings \<Rightarrow> int option \<Rightarrow> int" where
  "renew_ttl cfg ttl = (case ttl of None \<Rightarrow> CHANNEL_TTL cfg | Some n \<Rightarrow> if n = 0 then CHANNEL_TTL cfg else n)"

text \<open>
  When a download is granted: the checks of \<open>record_download_complete\<close> before it claims a
  slot, and the claim itself.
\<close>

definition download_granted ::
  "'s redis \<Rightarrow> crypto \<Rightarrow> slug \<Rightarrow> string \<Rightarrow> 's \<Rightarrow> channel_data \<Rightarrow> bool" where
  "download_granted R C slug token s c =
     (fetch_channel R slug s = Some c \<and>
      \<not> is_pending_token R slug (Some c) s \<and>
      validate_reader_token R C slug token (Some c) s \<and>
      (max_downloads c = 0 \<or> cell_count (look R s (download_count_key (short_slug c))) < max_downloads c))"

definition counter_ttl :: "'s redis \<Rightarrow> 's \<Rightarrow> channel_data \<Rightarrow> int" where
  "counter_ttl R s c = max (TTL R (channel_key (short_slug c)) s) 3600"

context redis_server
begin

lemma look_EXPIRE_reexpire:
  "look R (EXPIRE R k t s) k' = (if k' = k then reexpire t (look R s k) else look R s k')"
  by (cases "0 < t") (simp_all add: reexpire_def)

subsection \<open>Creation\<close>

lemma reserve_slug_spec:
  assumes "reserve_slug R gen n i s = (r, s')"
  shows "(case r of
      None \<Rightarrow> (\<forall>k. look R s' k = look R s k)
    | Some x \<Rightarrow> (\<exists>j. x = gen j) \<and> look R s (channel_key x) = None \<and>
        (\<forall>k. look R s' k =
          (if k = channel_key x then Some (RStr (Text ''__reserved__''), Some 30) else look R s k)))"
  using assms
proof (induction n arbitrary: i s)
  case 0
  then show ?case by auto
next
  case (Suc n)
  let ?w = "SET_NX_EX R (channel_key (gen i)) (Text ''__reserved__'') 30 s"
  show ?case
  proof (cases "look R s (channel_key (gen i)) = None")
    case True
    then have "fst ?w" by simp
    with Suc.prems have "r = Some (gen i)" and "s' = snd ?w"
      by (auto simp: case_prod_unfold)
    with True show ?thesis by (auto simp: look_SET_NX_EX)
  next
    case False
    then obtain v where v: "look R s (channel_key (gen i)) = Some v" by blast
    then have "\<not> fst ?w" by simp
    with Suc.prems have "reserve_slug R gen n (Suc i) (snd ?w) = (r, s')"
      by (simp add: case_prod_unfold)
    moreover have "look R (snd ?w) = look R s" using v by (intro ext) simp
    ultimately show ?thesis using Suc.IH [of "Suc i" "snd ?w"] by (simp only:)
  qed
qed

text \<open>
  The two reserved slugs are free, distinct candidates; when one of the two cannot be
  drawn, nothing is left behind.
\<close>

lemma generate_unique_slugs_ok:
  assumes "generate_unique_slugs R shorts longs s = (Inr (short, long), s')"
  shows "\<exists>i. short = shorts i" and "\<exists>j. long = longs j" and "short \<noteq> long"
    and "look R s (channel_key short) = None" and "look R s (channel_key long) = None"
    and "k \<noteq> channel_key short \<Longrightarrow> k \<noteq> channel_key long \<Longrightarrow> look R s' k = look R s k"
proof -
  from assms obtain s1 where
    1: "reserve_slug R shorts SLUG_MAX_ATTEMPTS 0 s = (Some short, s1)" and
    2: "reserve_slug R longs SLUG_MAX_ATTEMPTS 0 s1 = (Some long, s')"
    by (auto simp: generate_unique_slugs_def split: prod.splits option.splits)
  note r1 = reserve_slug_spec [OF 1, simplified] and r2 = reserve_slug_spec [OF 2, simplified]
  from r1 show "\<exists>i. short = shorts i" and "look R s (channel_key short) = None" by auto
  from r2 show "\<exists>j. long = longs j" by auto
  from r1 r2 show ne: "short \<noteq> long" by auto
  with r1 r2 show "look R s (channel_key long) = None" by (auto split: if_splits)
  from r1 r2 show "k \<noteq> channel_key short \<Longrightarrow> k \<noteq> channel_key long \<Longrightarrow> look R s' k = look R s k"
    by auto
qed

lemma generate_unique_slugs_error:
  assumes "generate_unique_slugs R shorts longs s = (Inl e, s')"
  shows "look R s' k = look R s k"
  using assms
  by (auto simp: generate_unique_slugs_def split: prod.splits option.splits
      dest!: reserve_slug_spec)

lemma store_channel_look:
  assumes "slug_ok (short_slug c)" and "slug_ok (long_slug c)" and "0 < t"
  shows "look R (store_channel R c t s) k =
    (if k \<in> {channel_key (short_slug c), channel_key (long_slug c)} then channel_cell c (nat t)
     else if k \<in> {pending_token_key (short_slug c), pending_token_key (long_slug c)}
       then Some (RStr (Number 1), Some 120)
     else look R s k)"
  using assms by (auto simp: store_channel_def Let_def channel_cell_def)

text \<open>What \<open>create_channel\<close> leaves behind, key by key.\<close>

lemma create_channel_look:
  assumes "create_channel R C cfg shorts longs hex m ttl a s = (Inr (c, raw), s')"
    and "\<And>i. slug_ok (shorts i)" and "\<And>i. slug_ok (longs i)"
    and "0 < resolve_ttl cfg (a_price_cents a) ttl"
  shows "look R s' k =
    (if k \<in> {channel_key (short_slug c), channel_key (long_slug c)}
       then channel_cell c (nat (resolve_ttl cfg (a_price_cents a) ttl))
     else if k \<in> {pending_token_key (short_slug c), pending_token_key (long_slug c)}
       then Some (RStr (Number 1), Some 120)
     else look R s k)"
    and "\<exists>i j. short_slug c = shorts i \<and> long_slug c = longs j"
    and "short_slug c \<noteq> long_slug c"
    and "look R s (channel_key (short_slug c)) = None"
    and "look R s (channel_key (long_slug c)) = None"
    and "secret c = hash_secret C raw" and "raw = hex" and "max_downloads c = m"
    and "session_kind c = ''file''" and "price_cents c = a_price_cents a"
proof -
  obtain r s1 where r: "generate_unique_slugs R shorts longs s = (r, s1)" by fastforce
  with assms(1) obtain p where p: "r = Inr p"
    by (cases r) (simp_all add: create_channel_def Let_def)
  obtain short long where sl: "p = (short, long)" by fastforce
  have g: "generate_unique_slugs R shorts longs s = (Inr (short, long), s1)"
    using r p sl by simp
  have c: "c = new_channel C m a short long raw" and raw: "raw = hex" and
    s': "s' = store_channel R c (resolve_ttl cfg (a_price_cents a) ttl) s1"
    using assms(1) by (auto simp: create_channel_def Let_def generate_secret_def g)
  note g' = generate_unique_slugs_ok [OF g]
  have slugs: "short_slug c = short" "long_slug c = long" using c by simp_all
  have ok: "slug_ok (short_slug c)" "slug_ok (long_slug c)"
    using g'(1,2) assms(2,3) slugs by auto
  show "look R s' k =
    (if k \<in> {channel_key (short_slug c), channel_key (long_slug c)}
       then channel_cell c (nat (resolve_ttl cfg (a_price_cents a) ttl))
     else if k \<in> {pending_token_key (short_slug c), pending_token_key (long_slug c)}
       then Some (RStr (Number 1), Some 120)
     else look R s k)"
    using g'(6) [of k] unfolding s' store_channel_look [OF ok assms(4)] slugs by auto
  show "\<exists>i j. short_slug c = shorts i \<and> long_slug c = longs j"
    using g'(1,2) c by auto
  show "short_slug c \<noteq> long_slug c" "look R s (channel_key (short_slug c)) = None"
    "look R s (channel_key (long_slug c)) = None"
    using g'(3-5) c by simp_all
  show "secret c = hash_secret C raw" "raw = hex" "max_downloads c = m"
    "session_kind c = ''file''" "price_cents c = a_price_cents a"
    using c raw by simp_all
qed

lemma create_channel_error:
  assumes "create_channel R C cfg shorts longs hex m ttl a s = (Inl e, s')"
  shows "look R s' k = look R s k"
  using assms generate_unique_slugs_error [of shorts longs s]
  by (auto simp: create_channel_def Let_def split: prod.splits sum.splits)

subsection \<open>Renewal and destruction\<close>

lemma renew_channel_refused:
  "owned_channel R C slug sec s = None \<Longrightarrow> renew_channel R C cfg slug sec ttl s = (False, s)"
  by (simp add: renew_channel_def)

lemma renew_channel_look:
  assumes "owned_channel R C slug sec s = Some c"
    and "slug_ok (short_slug c)" and "slug_ok (long_slug c)"
  shows "fst (renew_channel R C cfg slug sec ttl s)"
    and "look R (snd (renew_channel R C cfg slug sec ttl s)) k =
    (if k = pending_destruction_key (short_slug c) then None
     else if k \<in> {channel_key (short_slug c), channel_key (long_slug c),
                  reader_token_key (short_slug c), download_count_key (short_slug c)}
       then reexpire (renew_ttl cfg ttl) (look R s k)
     else look R s k)"
  using assms
  by (cases "look R s (reader_token_key (short_slug c))";
      auto simp: renew_channel_def Let_def renew_ttl_def look_EXPIRE_reexpire EXISTS_def)+

lemma destroy_refused:
  "owned_channel R C slug sec s = None \<Longrightarrow>
    \<exists>msg. request_channel_destruction R C now slug sec s = ((False, False, msg), s)"
  by (auto simp: request_channel_destruction_def owned_channel_def split: option.splits if_splits)

lemma destroy_look:
  assumes "owned_channel R C slug sec s = Some c"
  shows "look R (snd (request_channel_destruction R C now slug sec s)) k =
    (if GET R (channel_key (short_slug c)) s = None then look R s k
     else if GET R (pending_destruction_key (short_slug c)) s = None then
       (if k = pending_destruction_key (short_slug c)
        then Some (RStr (destruction_info now c), Some 30) else look R s k)
     else if k \<in> set (channel_key (short_slug c) # pending_destruction_key (short_slug c) # destruction_keys c)
       then None else look R s k)"
  using assms
  by (auto simp: request_channel_destruction_def owned_channel_Some Let_def
      atomic_pending_destruction_def atomic_destroy_channel_def CHANNEL_DESTRUCTION_DELAY_def
      case_prod_unfold)

lemma delete_channel_look:
  "look R (delete_channel R c s) k = (if k \<in> set (delete_channel_keys c) then None else look R s k)"
  by (simp add: delete_channel_def)

subsection \<open>Tokens, attempts, downloads, checksums, payments\<close>

lemma set_reader_token_refused:
  "owned_channel R C slug sec s = None \<Longrightarrow> set_reader_token R C slug sec h s = (False, s)"
  by (simp add: set_reader_token_def)

lemma set_reader_token_look:
  assumes "owned_channel R C slug sec s = Some c"
  shows "look R (snd (set_reader_token R C slug sec h s)) k =
    (if TTL R (channel_key (short_slug c)) s \<le> 0 then look R s k
     else if k \<in> {pending_token_key (short_slug c), pending_token_key (long_slug c)} then None
     else if k = reader_token_key (short_slug c)
       then Some (RStr (Text (lower h)), Some (nat (TTL R (channel_key (short_slug c)) s)))
     else look R s k)"
  using assms by (auto simp: set_reader_token_def Let_def)

lemma password_attempt_refused:
  "owned_channel R C slug sec s = None \<Longrightarrow> record_password_attempt R C slug sec s = (False, s)"
  by (simp add: record_password_attempt_def)

lemma password_attempt_look:
  assumes "owned_channel R C slug sec s = Some c"
    and "is_counter (look R s (pw_attempts_key (short_slug c)))"
  shows "look R (snd (record_password_attempt R C slug sec s)) k =
    (if k = pw_attempts_key (short_slug c) then
       Some (RStr (Number (cell_count (look R s k) + 1)),
             if cell_count (look R s k) = 0 then Some 900 else cell_ttl (look R s k))
     else look R s k)"
  using assms
  by (simp add: record_password_attempt_def case_prod_unfold incr_expire_look
      PASSWORD_ATTEMPT_TTL_def)

text \<open>
  A granted download: the count goes up by one, and a count that starts at one gets an
  expiry no shorter than the channel's.
\<close>

lemma download_granted_effect:
  assumes "download_granted R C slug token s c"
    and "is_counter (look R s (download_count_key (short_slug c)))"
    and "0 \<le> cell_count (look R s (download_count_key (short_slug c)))"
  shows "fst (fst (record_download_complete R C slug token s))"
    and "snd (snd (fst (record_download_complete R C slug token s))) =
      cell_count (look R s (download_count_key (short_slug c))) + 1"
    and "look R (snd (record_download_complete R C slug token s)) k =
    (if k = download_count_key (short_slug c) then
       Some (RStr (Number (cell_count (look R s k) + 1)),
             if cell_count (look R s k) = 0 then Some (nat (counter_ttl R s c))
             else cell_ttl (look R s k))
     else look R s k)"
proof -
  let ?K = "download_count_key (short_slug c)"
  have pos: "0 < counter_ttl R s c" by (simp add: counter_ttl_def)
  have incr: "max_downloads c \<noteq> 0 \<Longrightarrow> cell_count (look R s ?K) < max_downloads c"
    using assms(1) by (auto simp: download_granted_def)
  have ne: "max_downloads c \<noteq> 0 \<Longrightarrow>
      fst (atomic_download_incr R ?K (max_downloads c) (counter_ttl R s c) s) \<noteq> -1"
    using download_incr_granted [OF assms(2) incr] assms(3) by simp
  have eq: "record_download_complete R C slug token s =
      (if max_downloads c = 0 then
         (case INCR R ?K s of (n, s1) \<Rightarrow>
            ((True, -1, n), if n = 1 then EXPIRE R ?K (counter_ttl R s c) s1 else s1))
       else (case atomic_download_incr R ?K (max_downloads c) (counter_ttl R s c) s of (r, s1) \<Rightarrow>
            (if r = -1 then ((False, 0, 0), s1) else ((True, max 0 (max_downloads c - r), r), s1))))"
    using assms(1)
    by (simp add: record_download_complete_def download_granted_def counter_ttl_def Let_def
        case_prod_unfold)
  show "fst (fst (record_download_complete R C slug token s))"
    and "snd (snd (fst (record_download_complete R C slug token s))) = cell_count (look R s ?K) + 1"
    using ne assms(2) incr by (auto simp: eq case_prod_unfold download_incr_granted)
  show "look R (snd (record_download_complete R C slug token s)) k =
    (if k = ?K then
       Some (RStr (Number (cell_count (look R s k) + 1)),
             if cell_count (look R s k) = 0 then Some (nat (counter_ttl R s c))
             else cell_ttl (look R s k))
     else look R s k)"
    using ne assms(2) incr pos by (auto simp: eq case_prod_unfold download_incr_look)
qed

lemma download_refused:
  assumes "\<And>c. \<not> download_granted R C slug token s c"
    and "\<And>y. is_counter (look R s (download_count_key y))"
  shows "record_download_complete R C slug token s = ((False, 0, 0), s)"
proof (cases "fetch_channel R slug s")
  case None
  then show ?thesis by (simp add: record_download_complete_def)
next
  case (Some c)
  with assms(1) [of c] have
    "is_pending_token R slug (Some c) s \<or> \<not> validate_reader_token R C slug token (Some c) s \<or>
     (max_downloads c \<noteq> 0 \<and> max_downloads c \<le> cell_count (look R s (download_count_key (short_slug c))))"
    by (auto simp: download_granted_def)
  then show ?thesis
    using Some assms(2) download_incr_refused
    by (auto simp: record_download_complete_def Let_def)
qed

lemma store_checksums_refused:
  "owned_channel R C slug sec s = None \<Longrightarrow> store_checksums R C slug sec sums s = (False, s)"
  by (simp add: store_checksums_def)

lemma store_checksums_look:
  assumes "owned_channel R C slug sec s = Some c"
  shows "look R (snd (store_checksums R C slug sec sums s)) k =
    (if 0 < TTL R (channel_key (short_slug c)) s \<and> k = checksums_key (short_slug c)
     then Some (RStr (checksums_doc sums), Some (nat (TTL R (channel_key (short_slug c)) s)))
     else look R s k)"
  using assms by (auto simp: store_checksums_def Let_def)

lemma store_payment_token_look:
  assumes "is_set (look R s (payment_token_key y))"
  shows "look R (store_payment_token R y h ttl fp s) k =
    (if k = payment_token_key y then
       reexpire ttl (Some (RSet (insert (bound_value h fp) (cell_members (look R s k))), cell_ttl (look R s k)))
     else look R s k)"
  using assms by (simp add: store_payment_token_def Let_def look_EXPIRE_reexpire)

lemma claim_checkout_look:
  "look R (snd (claim_checkout_payment_token R C slug cs s)) k =
    (if k = checkout_token_key slug cs then None else look R s k)"
  using value_GETDEL look_GETDEL
  by (auto simp: claim_checkout_payment_token_def case_prod_unfold split: option.splits)

end

end
