(* ===== verification/Channel_Runs.thy ===== *)
theory Channel_Runs
  imports Channel_Lifecycle
begin

section \<open>Runs of the channel store\<close>

text \<open>
  The channel store under any sequence of requests and any passing of time. Each request
  is one step (\<open>chan_step\<close>); the slugs that reach it have passed \<open>validate_slug\<close>. The
  invariants: keys keep their type (\<open>typed_store\<close>), a channel stored under an accepted
  slug is stored alike under both of its slugs (\<open>channels_ok\<close>), and a limited channel's
  counter outlives it (\<open>quota\<close>), from which the download limit follows for every run.
\<close>

datatype chan_op =
    Wait_Op nat
  | Create_Op "nat \<Rightarrow> slug" "nat \<Rightarrow> slug" string int "int option" channel_args
  | Renew_Op slug string "int option"
  | Destroy_Op string slug string
  | Reader_Op slug string string
  | Password_Op slug string
  | Download_Op slug string
  | Report_Op slug
  | Checksums_Op slug string "(string \<times> string) list"
  | Pay_Op slug string int string
  | Checkout_Op slug string string
  | Claim_Op slug string

text \<open>
  \<open>Report_Op\<close>, \<open>Pay_Op\<close> and \<open>Checkout_Op\<close> are the parts of the actions that write to
  the channel's keys: they act on the channel found under the slug.
\<close>

fun chan_step :: "'s redis \<Rightarrow> crypto \<Rightarrow> settings \<Rightarrow> chan_op \<Rightarrow> 's \<Rightarrow> 's" where
  "chan_step R C cfg (Wait_Op d) s = elapse R d s"
| "chan_step R C cfg (Create_Op shorts longs hex m ttl a) s =
     snd (create_channel R C cfg shorts longs hex m ttl a s)"
| "chan_step R C cfg (Renew_Op slug sec ttl) s = snd (renew_channel R C cfg slug sec ttl s)"
| "chan_step R C cfg (Destroy_Op now slug sec) s =
     snd (request_channel_destruction R C now slug sec s)"
| "chan_step R C cfg (Reader_Op slug sec h) s = snd (set_reader_token R C slug sec h s)"
| "chan_step R C cfg (Password_Op slug sec) s = snd (record_password_attempt R C slug sec s)"
| "chan_step R C cfg (Download_Op slug tok) s = snd (record_download_complete R C slug tok s)"
| "chan_step R C cfg (Report_Op slug) s = (case fetch_channel R slug s of
      None \<Rightarrow> s | Some c \<Rightarrow> delete_channel R c s)"
| "chan_step R C cfg (Checksums_Op slug sec sums) s = snd (store_checksums R C slug sec sums s)"
| "chan_step R C cfg (Pay_Op slug h ttl fp) s = (case fetch_channel R slug s of
      None \<Rightarrow> s | Some c \<Rightarrow> store_payment_token R (short_slug c) h ttl fp s)"
| "chan_step R C cfg (Checkout_Op slug cs tok) s = (case fetch_channel R slug s of
      None \<Rightarrow> s | Some c \<Rightarrow> store_checkout_payment_token R C (short_slug c) cs tok s)"
| "chan_step R C cfg (Claim_Op slug cs) s = snd (claim_checkout_payment_token R C slug cs s)"

fun chan_run :: "'s redis \<Rightarrow> crypto \<Rightarrow> settings \<Rightarrow> chan_op list \<Rightarrow> 's \<Rightarrow> 's" where
  "chan_run R C cfg [] s = s"
| "chan_run R C cfg (x # xs) s = chan_run R C cfg xs (chan_step R C cfg x s)"

text \<open>
  What a request carries: accepted slugs, and for a creation accepted candidates and a
  positive time to live.
\<close>

fun op_ok :: "settings \<Rightarrow> chan_op \<Rightarrow> bool" where
  "op_ok cfg (Create_Op shorts longs hex m ttl a) =
     ((\<forall>i. slug_ok (shorts i)) \<and> (\<forall>i. slug_ok (longs i)) \<and> 0 \<le> m \<and>
      0 < resolve_ttl cfg (a_price_cents a) ttl)"
| "op_ok cfg (Renew_Op slug sec ttl) = slug_ok slug"
| "op_ok cfg (Destroy_Op now slug sec) = slug_ok slug"
| "op_ok cfg (Reader_Op slug sec h) = slug_ok slug"
| "op_ok cfg (Password_Op slug sec) = slug_ok slug"
| "op_ok cfg (Download_Op slug tok) = slug_ok slug"
| "op_ok cfg (Report_Op slug) = slug_ok slug"
| "op_ok cfg (Checksums_Op slug sec sums) = slug_ok slug"
| "op_ok cfg (Pay_Op slug h ttl fp) = slug_ok slug"
| "op_ok cfg (Checkout_Op slug cs tok) = slug_ok slug"
| "op_ok cfg (Claim_Op slug cs) = slug_ok slug"
| "op_ok cfg (Wait_Op d) = True"

subsection \<open>Invariants of the store\<close>

definition nat_counter :: "cell \<Rightarrow> bool" where
  "nat_counter c = (is_counter c \<and> 0 \<le> cell_count c)"

definition typed_store :: "'s redis \<Rightarrow> 's \<Rightarrow> bool" where
  "typed_store R s = (\<forall>y.
     is_counter (look R s (pw_attempts_key y)) \<and>
     nat_counter (look R s (download_count_key y)) \<and>
     is_set (look R s (payment_token_key y)))"

definition channels_ok :: "'s redis \<Rightarrow> 's \<Rightarrow> bool" where
  "channels_ok R s = (\<forall>x c. slug_ok x \<longrightarrow> fetch_channel R x s = Some c \<longrightarrow>
     slug_ok (short_slug c) \<and> slug_ok (long_slug c) \<and> x \<in> {short_slug c, long_slug c} \<and>
     (\<exists>t. look R s (channel_key (short_slug c)) = channel_cell c t \<and>
          look R s (channel_key (long_slug c)) = channel_cell c t))"

text \<open>
  \<open>n\<close> downloads of channel \<open>c\<close> have been counted: as long as the channel lives, the
  counter holds at least \<open>n\<close> and lives at least as long.
\<close>

definition quota :: "'s redis \<Rightarrow> channel_data \<Rightarrow> int \<Rightarrow> 's \<Rightarrow> bool" where
  "quota R c n s =
     (n \<le> max_downloads c \<and>
      (\<forall>t. look R s (channel_key (short_slug c)) = channel_cell c t \<longrightarrow>
         n \<le> cell_count (look R s (download_count_key (short_slug c))) \<and>
         (cell_count (look R s (download_count_key (short_slug c))) \<noteq> 0 \<longrightarrow>
          outlives (cell_ttl (look R s (download_count_key (short_slug c)))) t)))"

text \<open>
  The downloads of channel \<open>c\<close> that a run records as complete. \<open>chan_other\<close>: no creation of
  the run draws a slug of \<open>c\<close>.
\<close>

definition completes :: "'s redis \<Rightarrow> crypto \<Rightarrow> channel_data \<Rightarrow> chan_op \<Rightarrow> 's \<Rightarrow> bool" where
  "completes R C c x s = (case x of
       Download_Op slug tok \<Rightarrow>
         fetch_channel R slug s = Some c \<and> fst (fst (record_download_complete R C slug tok s))
     | _ \<Rightarrow> False)"

fun completed :: "'s redis \<Rightarrow> crypto \<Rightarrow> settings \<Rightarrow> channel_data \<Rightarrow> chan_op list \<Rightarrow> 's \<Rightarrow> int" where
  "completed R C cfg c [] s = 0"
| "completed R C cfg c (x # xs) s =
     (if completes R C c x s then 1 else 0) + completed R C cfg c xs (chan_step R C cfg x s)"

definition chan_other :: "channel_data \<Rightarrow> chan_op \<Rightarrow> bool" where
  "chan_other c x = (case x of
       Create_Op shorts longs hex m ttl a \<Rightarrow>
         (\<forall>i. shorts i \<notin> {short_slug c, long_slug c} \<and> longs i \<notin> {short_slug c, long_slug c})
     | _ \<Rightarrow> True)"

lemma nat_counter_simps [simp]:
  "nat_counter None"
  "nat_counter (Some (RStr (Number n), t)) = (0 \<le> n)"
  by (auto simp: nat_counter_def)

lemma nat_counter_age [simp]: "nat_counter c \<Longrightarrow> nat_counter (age d c)"
  by (cases rule: age_cases [of d c]) (auto simp: nat_counter_def split: rval.splits payload.splits)

lemma nat_counter_reexpire [simp]: "nat_counter c \<Longrightarrow> nat_counter (reexpire t c)"
  by (auto simp: nat_counter_def reexpire_def)

lemma is_set_age [simp]: "is_set c \<Longrightarrow> is_set (age d c)"
  by (cases c rule: is_set.cases; cases "cell_ttl c") auto

lemma is_set_reexpire [simp]: "is_set c \<Longrightarrow> is_set (reexpire t c)"
  by (cases c rule: is_set.cases) (auto simp: reexpire_def)

lemma cell_count_age: "cell_count (age d c) \<noteq> 0 \<Longrightarrow> cell_count (age d c) = cell_count c"
  by (cases rule: age_cases [of d c]) auto

lemma channel_cell_inject [simp]:
  "channel_cell c t = channel_cell c' t' \<longleftrightarrow> c = c' \<and> t = t'"
proof
  assume "channel_cell c t = channel_cell c' t'"
  then have "channel_to_dict c = channel_to_dict c'" and "t = t'"
    by (auto simp: channel_cell_def)
  then show "c = c' \<and> t = t'" by (metis channel_roundtrip sum.inject(2))
qed simp

lemma channel_cell_not_None [simp]: "None \<noteq> channel_cell c t"
  using channel_cell_simps(2) by metis

lemma typed_storeD:
  assumes "typed_store R s"
  shows "is_counter (look R s (pw_attempts_key y))"
    and "nat_counter (look R s (download_count_key y))"
    and "is_counter (look R s (download_count_key y))"
    and "0 \<le> cell_count (look R s (download_count_key y))"
    and "is_set (look R s (payment_token_key y))"
  using assms by (auto simp: typed_store_def nat_counter_def)

lemma channels_okD:
  assumes "channels_ok R s" and "slug_ok x" and "fetch_channel R x s = Some c"
  shows "slug_ok (short_slug c)" and "slug_ok (long_slug c)" and "x \<in> {short_slug c, long_slug c}"
    and "\<exists>t. look R s (channel_key (short_slug c)) = channel_cell c t \<and>
             look R s (channel_key (long_slug c)) = channel_cell c t"
  using assms unfolding channels_ok_def by blast+

text \<open>Two stored channels that share a slug are the same channel.\<close>

lemma channels_ok_unique:
  assumes "channels_ok R s" and "slug_ok x" and "fetch_channel R x s = Some c"
    and "slug_ok y" and "fetch_channel R y s = Some c'"
    and "{short_slug c, long_slug c} \<inter> {short_slug c', long_slug c'} \<noteq> {}"
  shows "c = c'"
  using channels_okD(4) [OF assms(1-3)] channels_okD(4) [OF assms(1,4,5)] assms(6)
  by (auto simp del: channel_cell_simps)

subsection \<open>The abstract effect of a step\<close>

text \<open>
  What a step does to the channel keys and the download counters, forgetting which request
  it was. Every request has one of these effects (\<open>step_effect\<close>), and the invariants are
  proved of the effects.
\<close>

datatype effect =
    Frame
  | Age nat
  | Create channel_data nat
  | Touch channel_data int
  | Kill channel_data
  | Count channel_data

definition stored :: "'s redis \<Rightarrow> channel_data \<Rightarrow> 's \<Rightarrow> bool" where
  "stored R c s = (\<exists>x. slug_ok x \<and> fetch_channel R x s = Some c)"

fun has_effect :: "'s redis \<Rightarrow> effect \<Rightarrow> 's \<Rightarrow> 's \<Rightarrow> bool" where
  "has_effect R Frame s s' =
     ((\<forall>y. slug_ok y \<longrightarrow> look R s' (channel_key y) = look R s (channel_key y)) \<and>
      (\<forall>y. look R s' (download_count_key y) = look R s (download_count_key y)))"
| "has_effect R (Age d) s s' = (\<forall>k. look R s' k = age d (look R s k))"
| "has_effect R (Create c t) s s' =
     (slug_ok (short_slug c) \<and> slug_ok (long_slug c) \<and> short_slug c \<noteq> long_slug c \<and>
      look R s (channel_key (short_slug c)) = None \<and> look R s (channel_key (long_slug c)) = None \<and>
      (\<forall>y. slug_ok y \<longrightarrow> look R s' (channel_key y) =
         (if y \<in> {short_slug c, long_slug c} then channel_cell c t else look R s (channel_key y))) \<and>
      (\<forall>y. look R s' (download_count_key y) = look R s (download_count_key y)))"
| "has_effect R (Touch c t) s s' =
     (stored R c s \<and>
      (\<forall>y. slug_ok y \<longrightarrow> look R s' (channel_key y) =
         (if y \<in> {short_slug c, long_slug c} then reexpire t (look R s (channel_key y))
          else look R s (channel_key y))) \<and>
      (\<forall>y. look R s' (download_count_key y) =
         (if y = short_slug c then reexpire t (look R s (download_count_key y))
          else look R s (download_count_key y))))"
| "has_effect R (Kill c) s s' =
     (stored R c s \<and>
      (\<forall>y. slug_ok y \<longrightarrow> look R s' (channel_key y) =
         (if y \<in> {short_slug c, long_slug c} then None else look R s (channel_key y))) \<and>
      (\<forall>y. look R s' (download_count_key y) =
         (if y = short_slug c then None else look R s (download_count_key y))))"
| "has_effect R (Count c) s s' =
     (stored R c s \<and>
      (max_downloads c = 0 \<or> cell_count (look R s (download_count_key (short_slug c))) < max_downloads c) \<and>
      (\<forall>y. slug_ok y \<longrightarrow> look R s' (channel_key y) = look R s (channel_key y)) \<and>
      (\<forall>y. look R s' (download_count_key y) =
         (if y = short_slug c then
            Some (RStr (Number (cell_count (look R s (download_count_key y)) + 1)),
              if cell_count (look R s (download_count_key y)) = 0 then Some (nat (counter_ttl R s c))
              else cell_ttl (look R s (download_count_key y)))
          else look R s (download_count_key y))))"

lemma storedI: "slug_ok x \<Longrightarrow> fetch_channel R x s = Some c \<Longrightarrow> stored R c s"
  by (auto simp: stored_def)

lemma storedD:
  assumes "channels_ok R s" and "stored R c s"
  shows "slug_ok (short_slug c)" and "slug_ok (long_slug c)"
    and "\<exists>t. look R s (channel_key (short_slug c)) = channel_cell c t \<and>
             look R s (channel_key (long_slug c)) = channel_cell c t"
  using assms channels_okD [OF assms(1)] unfolding stored_def by blast+

lemma fetch_channel_cell [simp]:
  "look R s (channel_key x) = channel_cell c t \<Longrightarrow> fetch_channel R x s = Some c"
  by (simp add: fetch_channel_look)

context redis_server
begin

text \<open>Every request has an effect; a creation's is on slugs it draws.\<close>

lemma create_effect:
  assumes "op_ok cfg (Create_Op shorts longs hex m ttl a)"
  shows "\<exists>e. has_effect R e s (chan_step R C cfg (Create_Op shorts longs hex m ttl a) s) \<and>
    (e = Frame \<or> (\<exists>c t. e = Create c t \<and> short_slug c \<in> range shorts \<and> long_slug c \<in> range longs))"
proof -
  obtain r s' where cr: "create_channel R C cfg shorts longs hex m ttl a s = (r, s')" by fastforce
  show ?thesis
  proof (cases r)
    case (Inl e)
    then show ?thesis using create_channel_error cr by (auto intro!: exI [of _ Frame])
  next
    case (Inr p)
    obtain c raw where p: "p = (c, raw)" by fastforce
    have ok: "slug_ok (shorts i)" "slug_ok (longs i)" for i using assms by auto
    note cl = create_channel_look [OF cr [unfolded Inr p] ok]
    let ?t = "nat (resolve_ttl cfg (a_price_cents a) ttl)"
    have pos: "0 < resolve_ttl cfg (a_price_cents a) ttl" using assms by simp
    have sl: "slug_ok (short_slug c)" "slug_ok (long_slug c)"
      using cl(2) [OF pos] ok by auto
    have "has_effect R (Create c ?t) s s'"
      using sl cl(3-5) [OF pos] by (auto simp: cl(1) [OF pos])
    moreover have "short_slug c \<in> range shorts" "long_slug c \<in> range longs"
      using cl(2) [OF pos] by auto
    moreover have "chan_step R C cfg (Create_Op shorts longs hex m ttl a) s = s'"
      using cr by simp
    ultimately show ?thesis by metis
  qed
qed

lemma renew_effect:
  assumes "channels_ok R s" and "slug_ok slug"
  shows "\<exists>e. has_effect R e s (snd (renew_channel R C cfg slug sec ttl s)) \<and> (\<forall>c t. e \<noteq> Create c t)"
proof (cases "owned_channel R C slug sec s")
  case None
  then show ?thesis by (intro exI [of _ Frame]) (simp add: renew_channel_refused)
next
  case (Some c)
  then have f: "fetch_channel R slug s = Some c" by (simp add: owned_channel_Some)
  note ok = channels_okD(1,2) [OF assms f]
  show ?thesis
    by (intro exI [of _ "Touch c (renew_ttl cfg ttl)"])
       (use ok storedI [OF assms(2) f] in \<open>auto simp: renew_channel_look [OF Some ok]\<close>)
qed

lemma destroy_effect:
  assumes "channels_ok R s" and "slug_ok slug"
  shows "\<exists>e. has_effect R e s (snd (request_channel_destruction R C now slug sec s)) \<and>
    (\<forall>c t. e \<noteq> Create c t)"
proof (cases "owned_channel R C slug sec s")
  case None
  then obtain msg where "request_channel_destruction R C now slug sec s = ((False, False, msg), s)"
    using destroy_refused by blast
  then show ?thesis by (intro exI [of _ Frame]) simp
next
  case (Some c)
  then have f: "fetch_channel R slug s = Some c" by (simp add: owned_channel_Some)
  note ok = channels_okD(1,2) [OF assms f] and st = storedI [OF assms(2) f]
  show ?thesis
  proof (cases "GET R (channel_key (short_slug c)) s = None \<or>
      GET R (pending_destruction_key (short_slug c)) s = None")
    case True
    then show ?thesis
      by (intro exI [of _ Frame]) (use ok in \<open>auto simp: destroy_look [OF Some]\<close>)
  next
    case False
    then show ?thesis
      by (intro exI [of _ "Kill c"])
         (use ok st in \<open>auto simp: destroy_look [OF Some] destruction_keys_def\<close>)
  qed
qed

lemma report_effect:
  assumes "channels_ok R s" and "slug_ok slug"
  shows "\<exists>e. has_effect R e s (chan_step R C cfg (Report_Op slug) s) \<and> (\<forall>c t. e \<noteq> Create c t)"
proof (cases "fetch_channel R slug s")
  case None
  then show ?thesis by (intro exI [of _ Frame]) simp
next
  case (Some c)
  note ok = channels_okD(1,2) [OF assms Some]
  show ?thesis
    by (intro exI [of _ "Kill c"])
       (use ok storedI [OF assms(2) Some] Some in
         \<open>auto simp: delete_channel_look delete_channel_keys_def\<close>)
qed

lemma download_effect:
  assumes "typed_store R s" and "channels_ok R s" and "slug_ok slug"
  shows "\<exists>e. has_effect R e s (snd (record_download_complete R C slug tok s)) \<and>
    (\<forall>c t. e \<noteq> Create c t) \<and>
    (\<forall>c. completes R C c (Download_Op slug tok) s \<longrightarrow> e = Count c)"
proof (cases "\<exists>c. download_granted R C slug tok s c")
  case True
  then obtain c where g: "download_granted R C slug tok s c" by blast
  then have f: "fetch_channel R slug s = Some c" by (simp add: download_granted_def)
  note ok = channels_okD(1,2) [OF assms(2,3) f]
  note eff = download_granted_effect [OF g typed_storeD(3) [OF assms(1)] typed_storeD(4) [OF assms(1)]]
  show ?thesis
    by (intro exI [of _ "Count c"])
       (use ok g storedI [OF assms(3) f] f in
         \<open>auto simp: eff(3) download_granted_def completes_def\<close>)
next
  case False
  then have "record_download_complete R C slug tok s = ((False, 0, 0), s)"
    using typed_storeD(3) [OF assms(1)] by (intro download_refused) auto
  then show ?thesis by (intro exI [of _ Frame]) (simp add: completes_def)
qed

text \<open>The requests that leave the channels and their counters alone.\<close>

lemma frame_refl: "has_effect R Frame s s"
  by simp

lemma reader_frame:
  assumes "channels_ok R s" and "slug_ok slug"
  shows "has_effect R Frame s (snd (set_reader_token R C slug sec h s))"
proof (cases "owned_channel R C slug sec s")
  case None
  then show ?thesis by (simp add: set_reader_token_refused)
next
  case (Some c)
  then have "fetch_channel R slug s = Some c" by (simp add: owned_channel_Some)
  then show ?thesis using channels_okD(1,2) [OF assms] by (auto simp: set_reader_token_look [OF Some])
qed

lemma password_frame:
  assumes "typed_store R s" and "channels_ok R s" and "slug_ok slug"
  shows "has_effect R Frame s (snd (record_password_attempt R C slug sec s))"
proof (cases "owned_channel R C slug sec s")
  case None
  then show ?thesis by (simp add: password_attempt_refused)
next
  case (Some c)
  then have "fetch_channel R slug s = Some c" by (simp add: owned_channel_Some)
  then show ?thesis using channels_okD(1,2) [OF assms(2,3)]
    by (auto simp: password_attempt_look [OF Some typed_storeD(1) [OF assms(1)]])
qed

lemma checksums_frame:
  assumes "channels_ok R s" and "slug_ok slug"
  shows "has_effect R Frame s (snd (store_checksums R C slug sec sums s))"
proof (cases "owned_channel R C slug sec s")
  case None
  then show ?thesis by (simp add: store_checksums_refused)
next
  case (Some c)
  then have "fetch_channel R slug s = Some c" by (simp add: owned_channel_Some)
  then show ?thesis using channels_okD(1,2) [OF assms] by (auto simp: store_checksums_look [OF Some])
qed

lemma pay_frame:
  assumes "typed_store R s"
  shows "has_effect R Frame s (store_payment_token R y h ttl fp s)"
  by (auto simp: store_payment_token_look typed_storeD(5) [OF assms])

lemma checkout_frame: "has_effect R Frame s (store_checkout_payment_token R C y cs tok s)"
  by (auto simp: store_checkout_payment_token_def CHECKOUT_TOKEN_TTL_def)

lemma claim_frame: "has_effect R Frame s (snd (claim_checkout_payment_token R C y cs s))"
  by (auto simp: claim_checkout_look)

lemma step_effect:
  assumes "typed_store R s" and "channels_ok R s" and "op_ok cfg x"
  shows "\<exists>e. has_effect R e s (chan_step R C cfg x s) \<and>
    (\<forall>c t. e = Create c t \<longrightarrow> (\<forall>c'. chan_other c' x \<longrightarrow>
       {short_slug c, long_slug c} \<inter> {short_slug c', long_slug c'} = {})) \<and>
    (\<forall>c. completes R C c x s \<longrightarrow> e = Count c)"
proof (cases x)
  case (Wait_Op d)
  then show ?thesis by (intro exI [of _ "Age d"]) (simp add: look_elapse completes_def)
next
  case (Create_Op shorts longs hex m ttl a)
  obtain e where e: "has_effect R e s (chan_step R C cfg x s)"
    "e = Frame \<or> (\<exists>c t. e = Create c t \<and> short_slug c \<in> range shorts \<and> long_slug c \<in> range longs)"
    using create_effect [of cfg shorts longs hex m ttl a s C] assms(3) Create_Op by blast
  from e(2) have "\<forall>c t. e = Create c t \<longrightarrow> (\<forall>c'. chan_other c' x \<longrightarrow>
       {short_slug c, long_slug c} \<inter> {short_slug c', long_slug c'} = {})"
    using Create_Op by (auto simp: chan_other_def)
  with e(1) show ?thesis using Create_Op by (auto simp: completes_def intro!: exI [of _ e])
next
  case (Renew_Op slug sec ttl)
  then show ?thesis using renew_effect [OF assms(2), of slug C cfg sec ttl] assms(3)
    by (auto simp: completes_def)
next
  case (Destroy_Op now slug sec)
  then show ?thesis using destroy_effect [OF assms(2), of slug C now sec] assms(3)
    by (auto simp: completes_def)
next
  case (Reader_Op slug sec h)
  then show ?thesis using reader_frame [OF assms(2), of slug C sec h] assms(3)
    by (intro exI [of _ Frame]) (simp add: completes_def del: has_effect.simps)
next
  case (Password_Op slug sec)
  then show ?thesis using password_frame [OF assms(1,2), of slug C sec] assms(3)
    by (intro exI [of _ Frame]) (simp add: completes_def del: has_effect.simps)
next
  case (Download_Op slug tok)
  then show ?thesis using download_effect [OF assms(1,2), of slug C tok] assms(3)
    by (auto simp del: has_effect.simps)
next
  case (Report_Op slug)
  then show ?thesis using report_effect [OF assms(2), of slug C cfg] assms(3)
    by (auto simp: completes_def)
next
  case (Checksums_Op slug sec sums)
  then show ?thesis using checksums_frame [OF assms(2), of slug C sec sums] assms(3)
    by (intro exI [of _ Frame]) (simp add: completes_def del: has_effect.simps)
next
  case (Pay_Op slug h ttl fp)
  then show ?thesis using pay_frame [OF assms(1)]
    by (intro exI [of _ Frame])
       (auto simp: completes_def frame_refl simp del: has_effect.simps split: option.splits)
next
  case (Checkout_Op slug cs tok)
  then show ?thesis using checkout_frame
    by (intro exI [of _ Frame])
       (auto simp: completes_def frame_refl simp del: has_effect.simps split: option.splits)
next
  case (Claim_Op slug cs)
  then show ?thesis using claim_frame
    by (intro exI [of _ Frame]) (simp add: completes_def del: has_effect.simps)
qed

subsection \<open>The effects keep the invariants\<close>

lemma age_channel_cell:
  "age d (channel_cell c t) = (if d < t then channel_cell c (t - d) else None)"
  by (auto simp: channel_cell_def)

lemma reexpire_channel_cell:
  "reexpire u (channel_cell c t) = (if 0 < u then channel_cell c (nat u) else None)"
  by (auto simp: channel_cell_def reexpire_def)

lemma fetch_channelD:
  "fetch_channel R x s = Some c \<Longrightarrow>
   \<exists>p. cell_str (look R s (channel_key x)) = Some p \<and> parse_channel p = Some c"
  by (auto simp: fetch_channel_look split: option.splits)

text \<open>
  A step changes a stored channel only as a whole: what is found afterwards was found
  before, or is the channel just created.
\<close>

lemma channels_ok_transfer:
  assumes ok: "channels_ok R s"
    and old: "\<And>x c. slug_ok x \<Longrightarrow> fetch_channel R x s' = Some c \<Longrightarrow> fetch_channel R x s = Some c"
    and keep: "\<And>x c t. slug_ok x \<Longrightarrow> fetch_channel R x s' = Some c \<Longrightarrow> fetch_channel R x s = Some c \<Longrightarrow>
       look R s (channel_key (short_slug c)) = channel_cell c t \<Longrightarrow>
       look R s (channel_key (long_slug c)) = channel_cell c t \<Longrightarrow>
       \<exists>t'. look R s' (channel_key (short_slug c)) = channel_cell c t' \<and>
            look R s' (channel_key (long_slug c)) = channel_cell c t'"
  shows "channels_ok R s'"
  unfolding channels_ok_def
proof (intro allI impI)
  fix x c assume x: "slug_ok x" "fetch_channel R x s' = Some c"
  note f = old [OF x]
  note D = channels_okD [OF ok x(1) f]
  from D(4) obtain t where t: "look R s (channel_key (short_slug c)) = channel_cell c t"
    "look R s (channel_key (long_slug c)) = channel_cell c t" by blast
  show "slug_ok (short_slug c) \<and> slug_ok (long_slug c) \<and> x \<in> {short_slug c, long_slug c} \<and>
     (\<exists>t. look R s' (channel_key (short_slug c)) = channel_cell c t \<and>
          look R s' (channel_key (long_slug c)) = channel_cell c t)"
    using D(1-3) keep [OF x f t] by blast
qed

lemma stored_unique:
  assumes "channels_ok R s" and "stored R c' s" and "slug_ok x" and "fetch_channel R x s = Some c"
    and "{short_slug c, long_slug c} \<inter> {short_slug c', long_slug c'} \<noteq> {}"
  shows "c' = c"
proof -
  obtain y where "slug_ok y" and "fetch_channel R y s = Some c'"
    using assms(2) by (auto simp: stored_def)
  from channels_ok_unique [OF assms(1,3,4) this assms(5)] show ?thesis by simp
qed

lemma fetch_channel_cong:
  "look R s' (channel_key x) = look R s (channel_key x) \<Longrightarrow> fetch_channel R x s' = fetch_channel R x s"
  by (simp add: fetch_channel_look)

lemma channels_ok_same:
  assumes "channels_ok R s" and "\<And>y. slug_ok y \<Longrightarrow> look R s' (channel_key y) = look R s (channel_key y)"
  shows "channels_ok R s'"
proof (rule channels_ok_transfer [OF assms(1)])
  fix x c assume "slug_ok x" and "fetch_channel R x s' = Some c"
  then show "fetch_channel R x s = Some c" using fetch_channel_cong [OF assms(2)] by simp
next
  fix x c t assume x: "slug_ok x" and f: "fetch_channel R x s = Some c"
    and t: "look R s (channel_key (short_slug c)) = channel_cell c t"
      "look R s (channel_key (long_slug c)) = channel_cell c t"
  note D = channels_okD(1,2) [OF assms(1) x f]
  show "\<exists>t'. look R s' (channel_key (short_slug c)) = channel_cell c t' \<and>
            look R s' (channel_key (long_slug c)) = channel_cell c t'"
    unfolding assms(2) [OF D(1)] assms(2) [OF D(2)] using t by blast
qed

lemma channels_ok_age:
  assumes "channels_ok R s" and eff: "\<And>k. look R s' k = age d (look R s k)"
  shows "channels_ok R s'"
proof (rule channels_ok_transfer [OF assms(1)])
  fix x c assume "slug_ok x" and "fetch_channel R x s' = Some c"
  then show "fetch_channel R x s = Some c"
    by (auto dest: cell_str_age simp: eff fetch_channel_look split: option.splits)
next
  fix x c t assume x: "slug_ok x" and f': "fetch_channel R x s' = Some c"
    and f: "fetch_channel R x s = Some c"
    and t: "look R s (channel_key (short_slug c)) = channel_cell c t"
      "look R s (channel_key (long_slug c)) = channel_cell c t"
  have "d < t"
    using f' t channels_okD(3) [OF assms(1) x f]
    by (auto simp: fetch_channel_look eff age_channel_cell split: if_splits)
  then show "\<exists>t'. look R s' (channel_key (short_slug c)) = channel_cell c t' \<and>
            look R s' (channel_key (long_slug c)) = channel_cell c t'"
    using t by (auto simp: eff age_channel_cell)
qed

text \<open>The two keys of one stored channel are changed alike, the others not at all.\<close>

lemma channels_ok_change:
  assumes ok: "channels_ok R s" and st: "stored R c' s"
    and eff: "\<And>y. slug_ok y \<Longrightarrow> look R s' (channel_key y) =
       (if y \<in> {short_slug c', long_slug c'} then f (look R s (channel_key y))
        else look R s (channel_key y))"
    and f: "\<And>t. f (channel_cell c' t) = None \<or> (\<exists>t'. f (channel_cell c' t) = channel_cell c' t')"
  shows "channels_ok R s'"
proof -
  obtain u where u: "look R s (channel_key (short_slug c')) = channel_cell c' u"
    "look R s (channel_key (long_slug c')) = channel_cell c' u"
    using storedD(3) [OF ok st] by blast
  show ?thesis
  proof (rule channels_ok_transfer [OF ok])
    fix x c assume x: "slug_ok x" and g: "fetch_channel R x s' = Some c"
    show "fetch_channel R x s = Some c"
    proof (cases "x \<in> {short_slug c', long_slug c'}")
      case True
      then have "look R s (channel_key x) = channel_cell c' u" using u by auto
      moreover from this have "look R s' (channel_key x) = f (channel_cell c' u)"
        using eff [OF x] True by simp
      ultimately show ?thesis using f [of u] g by (auto simp: fetch_channel_look)
    next
      case False
      then show ?thesis using g eff [OF x] fetch_channel_cong [of s' x s] by simp
    qed
  next
    fix x c t assume x: "slug_ok x" and g': "fetch_channel R x s' = Some c"
      and g: "fetch_channel R x s = Some c"
      and t: "look R s (channel_key (short_slug c)) = channel_cell c t"
        "look R s (channel_key (long_slug c)) = channel_cell c t"
    note D = channels_okD(1-3) [OF ok x g]
    show "\<exists>t'. look R s' (channel_key (short_slug c)) = channel_cell c t' \<and>
              look R s' (channel_key (long_slug c)) = channel_cell c t'"
    proof (cases "{short_slug c, long_slug c} \<inter> {short_slug c', long_slug c'} = {}")
      case True
      then show ?thesis using t eff D(1,2) by auto
    next
      case False
      then have c: "c' = c" using stored_unique [OF ok st x g] by blast
      have "look R s' (channel_key x) = f (channel_cell c t)" using eff [OF x] t D(3) c by auto
      with f [of t] g' c obtain t' where "f (channel_cell c t) = channel_cell c t'"
        by (auto simp: fetch_channel_look)
      then show ?thesis using eff [OF D(1)] eff [OF D(2)] t c by auto
    qed
  qed
qed

lemma channels_ok_create:
  assumes ok: "channels_ok R s" and eff: "has_effect R (Create c' t) s s'"
  shows "channels_ok R s'"
  unfolding channels_ok_def
proof (intro allI impI)
  fix x c assume x: "slug_ok x" "fetch_channel R x s' = Some c"
  show "slug_ok (short_slug c) \<and> slug_ok (long_slug c) \<and> x \<in> {short_slug c, long_slug c} \<and>
     (\<exists>t. look R s' (channel_key (short_slug c)) = channel_cell c t \<and>
          look R s' (channel_key (long_slug c)) = channel_cell c t)"
  proof (cases "x \<in> {short_slug c', long_slug c'}")
    case True
    then have "look R s' (channel_key x) = channel_cell c' t" using eff x(1) by auto
    then have "c = c'" using x(2) by simp
    then show ?thesis using True eff by auto
  next
    case False
    then have "fetch_channel R x s = Some c" using eff x fetch_channel_cong [of s' x s] by simp
    note D = channels_okD [OF ok x(1) this]
    from D(4) eff have "short_slug c \<notin> {short_slug c', long_slug c'}"
      "long_slug c \<notin> {short_slug c', long_slug c'}" by auto
    then show ?thesis using D eff by auto
  qed
qed

lemma effect_channels_ok:
  assumes "channels_ok R s" and "has_effect R e s s'"
  shows "channels_ok R s'"
proof (cases e)
  case Frame
  then show ?thesis using assms channels_ok_same [of s s'] by simp
next
  case (Age d)
  then show ?thesis using assms channels_ok_age [of s s' d] by simp
next
  case (Create c t)
  then show ?thesis using assms channels_ok_create by blast
next
  case (Touch c u)
  then show ?thesis
    using assms(2) channels_ok_change [OF assms(1), of c s' "reexpire u"]
    by (simp add: reexpire_channel_cell)
next
  case (Kill c)
  then show ?thesis
    using assms(2) channels_ok_change [OF assms(1), of c s' "\<lambda>_. None"] by simp
next
  case (Count c)
  then show ?thesis using assms channels_ok_same [of s s'] by simp
qed

subsection \<open>The count of downloads\<close>

lemma age_is_channel_cell:
  assumes "age d k = channel_cell c t"
  shows "k = channel_cell c (t + d)" and "0 < t"
  using assms by (auto simp: channel_cell_def elim!: age.elims split: if_splits)

lemma quota_age:
  assumes "quota R c n s" and eff: "\<And>k. look R s' k = age d (look R s k)"
  shows "quota R c n s'"
  unfolding quota_def
proof (intro conjI allI impI)
  show "n \<le> max_downloads c" using assms(1) by (simp add: quota_def)
next
  let ?k = "look R s (download_count_key (short_slug c))"
  fix t assume "look R s' (channel_key (short_slug c)) = channel_cell c t"
  then have "look R s (channel_key (short_slug c)) = channel_cell c (t + d)" and t: "0 < t"
    using age_is_channel_cell [of d _ c t] by (auto simp: eff)
  then have q: "n \<le> cell_count ?k" "cell_count ?k \<noteq> 0 \<Longrightarrow> outlives (cell_ttl ?k) (t + d)"
    using assms(1) by (auto simp: quota_def)
  show "n \<le> cell_count (look R s' (download_count_key (short_slug c)))"
    using q t by (cases "(d, ?k)" rule: age.cases; cases "cell_count ?k = 0")
      (auto simp: eff split: if_splits)
  assume "cell_count (look R s' (download_count_key (short_slug c))) \<noteq> 0"
  then show "outlives (cell_ttl (look R s' (download_count_key (short_slug c)))) t"
    using q t by (cases "(d, ?k)" rule: age.cases) (auto simp: eff split: if_splits)
qed

text \<open>A step that leaves the two keys of a channel alone keeps its quota.\<close>

lemma quota_same:
  assumes "quota R c n s"
    and "\<And>t. look R s' (channel_key (short_slug c)) = channel_cell c t \<Longrightarrow>
       look R s (channel_key (short_slug c)) = channel_cell c t \<and>
       look R s' (download_count_key (short_slug c)) = look R s (download_count_key (short_slug c))"
  shows "quota R c n s'"
  using assms unfolding quota_def by metis

lemma cell_count_reexpire: "0 < u \<Longrightarrow> cell_count (reexpire u k) = cell_count k"
  by (cases k rule: cell_count.cases) (auto simp: reexpire_def)

lemma outlives_reexpire: "0 < u \<Longrightarrow> outlives (cell_ttl (reexpire u k)) (nat u)"
  by (cases k) (auto simp: reexpire_def)

lemma quota_touch:
  assumes ok: "channels_ok R s" and q: "quota R c n s" and sc: "slug_ok (short_slug c)"
    and eff: "has_effect R (Touch c' u) s s'"
  shows "quota R c n s'"
proof -
  have st: "stored R c' s" using eff by simp
  obtain v where v: "look R s (channel_key (short_slug c')) = channel_cell c' v"
    "look R s (channel_key (long_slug c')) = channel_cell c' v"
    using storedD(3) [OF ok st] by blast
  show ?thesis
  proof (cases "short_slug c \<in> {short_slug c', long_slug c'} \<and> 0 < u \<and> c = c'")
    case True
    then have "look R s (channel_key (short_slug c)) = channel_cell c v" using v by simp
    then show ?thesis using q True eff sc
      by (simp add: quota_def reexpire_channel_cell cell_count_reexpire outlives_reexpire)
  next
    case False
    show ?thesis
    proof (rule quota_same [OF q])
      fix t assume a: "look R s' (channel_key (short_slug c)) = channel_cell c t"
      have "short_slug c \<notin> {short_slug c', long_slug c'}"
        using a False eff sc v by (auto simp: reexpire_channel_cell split: if_splits)
      then show "look R s (channel_key (short_slug c)) = channel_cell c t \<and>
         look R s' (download_count_key (short_slug c)) = look R s (download_count_key (short_slug c))"
        using a eff sc by simp
    qed
  qed
qed

lemma quota_count:
  assumes ok: "channels_ok R s" and q: "quota R c n s" and sc: "slug_ok (short_slug c)"
    and eff: "has_effect R (Count c) s s'" and max: "0 < max_downloads c"
    and typed: "typed_store R s"
  shows "quota R c (n + 1) s'"
proof -
  have "stored R c s" using eff by simp
  from storedD(3) [OF ok this] obtain v
    where v: "look R s (channel_key (short_slug c)) = channel_cell c v" by blast
  have lt: "cell_count (look R s (download_count_key (short_slug c))) < max_downloads c"
    using eff max by simp
  have n: "n \<le> cell_count (look R s (download_count_key (short_slug c)))"
    "cell_count (look R s (download_count_key (short_slug c))) \<noteq> 0 \<Longrightarrow>
      outlives (cell_ttl (look R s (download_count_key (short_slug c)))) v"
    using q v by (auto simp: quota_def)
  have "v \<le> nat (counter_ttl R s c)" using v by (simp add: counter_ttl_def TTL_def channel_cell_def)
  then show ?thesis using eff v n lt sc unfolding quota_def by simp
qed

lemma quota_other_count:
  assumes ok: "channels_ok R s" and q: "quota R c n s" and sc: "slug_ok (short_slug c)"
    and eff: "has_effect R (Count c') s s'" and "c' \<noteq> c"
  shows "quota R c n s'"
proof -
  have "stored R c' s" using eff by simp
  from storedD(3) [OF ok this] obtain v
    where "look R s (channel_key (short_slug c')) = channel_cell c' v" by blast
  then show ?thesis using eff sc assms(5) by (intro quota_same [OF q]) auto
qed

lemma effect_quota:
  assumes ok: "channels_ok R s" and q: "quota R c n s" and sc: "slug_ok (short_slug c)"
    and eff: "has_effect R e s s'" and "e \<noteq> Count c"
    and cr: "\<And>c' t. e = Create c' t \<Longrightarrow> {short_slug c', long_slug c'} \<inter> {short_slug c, long_slug c} = {}"
  shows "quota R c n s'"
proof (cases e)
  case Frame
  then show ?thesis using eff sc by (intro quota_same [OF q]) simp
next
  case (Age d)
  then show ?thesis using eff quota_age [OF q, of s' d] by simp
next
  case (Create c' t)
  then show ?thesis using eff sc cr [OF Create] by (intro quota_same [OF q]) simp
next
  case (Touch c' u)
  then show ?thesis using eff quota_touch [OF ok q sc] by blast
next
  case (Kill c')
  then show ?thesis using eff sc by (intro quota_same [OF q]) (simp split: if_splits)
next
  case (Count c')
  then show ?thesis using eff assms(5) quota_other_count [OF ok q sc] by blast
qed

subsection \<open>The types of the keys\<close>

lemma typed_frame:
  assumes "typed_store R s"
    and "\<And>y. is_counter (look R s (pw_attempts_key y)) \<Longrightarrow> is_counter (look R s' (pw_attempts_key y))"
    and "\<And>y. nat_counter (look R s (download_count_key y)) \<Longrightarrow> nat_counter (look R s' (download_count_key y))"
    and "\<And>y. is_set (look R s (payment_token_key y)) \<Longrightarrow> is_set (look R s' (payment_token_key y))"
  shows "typed_store R s'"
  using assms by (simp add: typed_store_def)

lemma typed_download:
  assumes typed: "typed_store R s"
  shows "typed_store R (snd (record_download_complete R C slug tok s))"
proof (cases "\<exists>c. download_granted R C slug tok s c")
  case True
  then obtain c where g: "download_granted R C slug tok s c" by blast
  note eff = download_granted_effect(3) [OF g typed_storeD(3) [OF typed] typed_storeD(4) [OF typed]]
  show ?thesis using typed_storeD(4) [OF typed]
    by (intro typed_frame [OF typed]) (auto simp: eff)
next
  case False
  then have "record_download_complete R C slug tok s = ((False, 0, 0), s)"
    using typed_storeD(3) [OF typed] by (intro download_refused) auto
  then show ?thesis using typed by simp
qed

lemma typed_create:
  assumes typed: "typed_store R s" and "op_ok cfg (Create_Op shorts longs hex m ttl a)"
  shows "typed_store R (snd (create_channel R C cfg shorts longs hex m ttl a s))"
proof (cases "fst (create_channel R C cfg shorts longs hex m ttl a s)")
  case (Inl e)
  then have "create_channel R C cfg shorts longs hex m ttl a s =
      (Inl e, snd (create_channel R C cfg shorts longs hex m ttl a s))"
    by (simp add: prod_eq_iff)
  from create_channel_error [OF this] show ?thesis by (intro typed_frame [OF typed]) simp_all
next
  case (Inr p)
  obtain c raw where "p = (c, raw)" by fastforce
  with Inr have cr: "create_channel R C cfg shorts longs hex m ttl a s =
      (Inr (c, raw), snd (create_channel R C cfg shorts longs hex m ttl a s))"
    by (simp add: prod_eq_iff)
  have ok: "\<And>i. slug_ok (shorts i)" "\<And>i. slug_ok (longs i)"
    "0 < resolve_ttl cfg (a_price_cents a) ttl" using assms(2) by auto
  have "slug_ok (short_slug c)" "slug_ok (long_slug c)"
    using create_channel_look(2) [OF cr ok] ok(1,2) by auto
  then show ?thesis
    by (intro typed_frame [OF typed]) (simp_all add: create_channel_look(1) [OF cr ok])
qed

lemma typed_renew:
  assumes typed: "typed_store R s" and "channels_ok R s" and "slug_ok slug"
  shows "typed_store R (snd (renew_channel R C cfg slug sec ttl s))"
proof (cases "owned_channel R C slug sec s")
  case None
  then show ?thesis using typed by (simp add: renew_channel_refused)
next
  case (Some c)
  then have "fetch_channel R slug s = Some c" by (simp add: owned_channel_Some)
  note ok = channels_okD(1,2) [OF assms(2,3) this]
  show ?thesis by (intro typed_frame [OF typed]) (simp_all add: renew_channel_look [OF Some ok])
qed

lemma typed_destroy:
  assumes typed: "typed_store R s"
  shows "typed_store R (snd (request_channel_destruction R C now slug sec s))"
proof (cases "owned_channel R C slug sec s")
  case None
  then obtain msg where "request_channel_destruction R C now slug sec s = ((False, False, msg), s)"
    using destroy_refused by blast
  then show ?thesis using typed by simp
next
  case (Some c)
  show ?thesis by (intro typed_frame [OF typed]) (simp_all add: destroy_look [OF Some])
qed

lemma typed_owner:
  assumes typed: "typed_store R s"
  shows "typed_store R (snd (set_reader_token R C slug sec h s))"
    and "typed_store R (snd (record_password_attempt R C slug sec s))"
    and "channels_ok R s \<Longrightarrow> slug_ok slug \<Longrightarrow> typed_store R (snd (store_checksums R C slug sec sums s))"
proof -
  show "typed_store R (snd (set_reader_token R C slug sec h s))"
  proof (cases "owned_channel R C slug sec s")
    case (Some c)
    then show ?thesis by (intro typed_frame [OF typed]) (simp_all add: set_reader_token_look)
  qed (simp add: typed set_reader_token_refused)
  show "typed_store R (snd (record_password_attempt R C slug sec s))"
  proof (cases "owned_channel R C slug sec s")
    case (Some c)
    show ?thesis by (intro typed_frame [OF typed])
      (simp_all add: password_attempt_look [OF Some typed_storeD(1) [OF typed]])
  qed (simp add: typed password_attempt_refused)
  assume ok: "channels_ok R s" "slug_ok slug"
  show "typed_store R (snd (store_checksums R C slug sec sums s))"
  proof (cases "owned_channel R C slug sec s")
    case (Some c)
    then have "fetch_channel R slug s = Some c" by (simp add: owned_channel_Some)
    with Some show ?thesis using channels_okD(1) [OF ok]
      by (intro typed_frame [OF typed]) (simp_all add: store_checksums_look)
  qed (simp add: typed store_checksums_refused)
qed

lemma typed_pay:
  assumes typed: "typed_store R s"
  shows "typed_store R (store_payment_token R y h ttl fp s)"
    and "typed_store R (store_checkout_payment_token R C y cs tok s)"
    and "typed_store R (delete_channel R c s)"
    and "typed_store R (snd (claim_checkout_payment_token R C y cs s))"
  by (intro typed_frame [OF typed];
      simp add: store_payment_token_look typed_storeD(5) [OF typed] store_checkout_payment_token_def
        CHECKOUT_TOKEN_TTL_def delete_channel_look claim_checkout_look)+

lemma typed_step:
  assumes typed: "typed_store R s" and ok: "channels_ok R s" and "op_ok cfg x"
  shows "typed_store R (chan_step R C cfg x s)"
proof (cases x)
  case (Wait_Op d)
  then show ?thesis by (intro typed_frame [OF typed]) (simp_all add: look_elapse)
qed (use assms typed_create typed_renew typed_destroy typed_owner typed_download typed_pay
     in \<open>auto split: option.splits\<close>)

end

subsection \<open>Reachable stores and the download limit\<close>

inductive reachable :: "'s redis \<Rightarrow> crypto \<Rightarrow> settings \<Rightarrow> 's \<Rightarrow> bool" for R C cfg where
  fresh: "(\<And>k. look R s k = None) \<Longrightarrow> reachable R C cfg s"
| step: "reachable R C cfg s \<Longrightarrow> op_ok cfg x \<Longrightarrow> reachable R C cfg (chan_step R C cfg x s)"

context redis_server
begin

lemma reachable_ok:
  assumes "reachable R C cfg s"
  shows "typed_store R s \<and> channels_ok R s"
  using assms
proof (induction rule: reachable.induct)
  case (fresh s)
  then show ?case by (simp add: typed_store_def channels_ok_def fetch_channel_look)
next
  case (step s x)
  then have ok: "typed_store R s" "channels_ok R s" by auto
  obtain e where "has_effect R e s (chan_step R C cfg x s)"
    using step_effect [OF ok step.hyps(2), of C] by blast
  then show ?case using typed_step [OF ok step.hyps(2)] effect_channels_ok [OF ok(2)] by blast
qed

lemma reachable_run:
  "reachable R C cfg s \<Longrightarrow> list_all (op_ok cfg) xs \<Longrightarrow> reachable R C cfg (chan_run R C cfg xs s)"
  by (induction xs arbitrary: s) (auto intro: reachable.step)

text \<open>A channel is found alike under both of its slugs, whatever has happened.\<close>

lemma both_slugs:
  assumes "reachable R C cfg s" and "slug_ok x" and "fetch_channel R x s = Some c"
  shows "fetch_channel R (short_slug c) s = Some c" and "fetch_channel R (long_slug c) s = Some c"
    and "x = short_slug c \<or> x = long_slug c"
    and "TTL R (channel_key (short_slug c)) s = TTL R (channel_key (long_slug c)) s"
proof -
  have ok: "channels_ok R s" using reachable_ok [OF assms(1)] by simp
  note D = channels_okD [OF ok assms(2,3)]
  then show "fetch_channel R (short_slug c) s = Some c" "fetch_channel R (long_slug c) s = Some c"
    "x = short_slug c \<or> x = long_slug c"
    "TTL R (channel_key (short_slug c)) s = TTL R (channel_key (long_slug c)) s"
    by (auto simp: TTL_def)
qed

lemma completed_quota:
  assumes "typed_store R s" and "channels_ok R s" and "quota R c n s"
    and "slug_ok (short_slug c)" and "0 < max_downloads c"
    and "list_all (op_ok cfg) xs" and "list_all (chan_other c) xs"
  shows "completed R C cfg c xs s \<le> max_downloads c - n"
  using assms(1-3,6,7)
proof (induction xs arbitrary: s n)
  case Nil
  then show ?case by (simp add: quota_def)
next
  case (Cons x xs)
  let ?s = "chan_step R C cfg x s"
  have x: "op_ok cfg x" "chan_other c x" and xs: "list_all (op_ok cfg) xs" "list_all (chan_other c) xs"
    using Cons.prems by auto
  obtain e where e: "has_effect R e s ?s"
    "\<And>c' t. e = Create c' t \<Longrightarrow> {short_slug c', long_slug c'} \<inter> {short_slug c, long_slug c} = {}"
    "completes R C c x s \<Longrightarrow> e = Count c"
    using step_effect [OF Cons.prems(1,2) x(1), of C] x(2) by metis
  note t = typed_step [OF Cons.prems(1,2) x(1), of C]
  note ok = effect_channels_ok [OF Cons.prems(2) e(1)]
  show ?case
  proof (cases "e = Count c")
    case True
    then have "quota R c (n + 1) ?s"
      using quota_count [OF Cons.prems(2,3) assms(4) _ assms(5) Cons.prems(1)] e(1) by blast
    from Cons.IH [OF t ok this xs] show ?thesis by simp
  next
    case False
    then have "quota R c n ?s"
      using effect_quota [OF Cons.prems(2,3) assms(4) e(1)] e(2) by blast
    from Cons.IH [OF t ok this xs] show ?thesis using e(3) False by auto
  qed
qed

lemma download_limit:
  assumes "reachable R C cfg s"
    and cr: "create_channel R C cfg shorts longs hex m ttl a s = (Inr (c, raw), s')"
    and ok: "op_ok cfg (Create_Op shorts longs hex m ttl a)"
    and "0 < m" and "look R s (download_count_key (short_slug c)) = None"
    and "list_all (op_ok cfg) xs" and "list_all (chan_other c) xs"
  shows "completed R C cfg c xs s' \<le> m"
proof -
  have sl: "\<And>i. slug_ok (shorts i)" "\<And>i. slug_ok (longs i)"
    "0 < resolve_ttl cfg (a_price_cents a) ttl" using ok by auto
  note cl = create_channel_look [OF cr sl]
  have sc: "slug_ok (short_slug c)" "slug_ok (long_slug c)" using cl(2) sl(1,2) by auto
  have "reachable R C cfg s'" using reachable.step [OF assms(1) ok] cr by simp
  from reachable_ok [OF this] have r: "typed_store R s'" "channels_ok R s'" by auto
  have "look R s' (download_count_key (short_slug c)) = None"
    using assms(5) sc by (simp add: cl(1))
  then have "quota R c 0 s'" using cl(8) assms(4) by (simp add: quota_def)
  from completed_quota [OF r this sc(1) _ assms(6,7)] show ?thesis
    using cl(8) assms(4) by simp
qed

end

subsection \<open>Creation and destruction\<close>

context redis_server
begin

lemma created_channel:
  assumes cr: "create_channel R C cfg shorts longs hex m ttl a s = (Inr (c, raw), s')"
    and ok: "op_ok cfg (Create_Op shorts longs hex m ttl a)"
  shows "look R s (channel_key (short_slug c)) = None" and "look R s (channel_key (long_slug c)) = None"
    and "fetch_channel R (short_slug c) s' = Some c" and "fetch_channel R (long_slug c) s' = Some c"
    and "TTL R (channel_key (short_slug c)) s' = resolve_ttl cfg (a_price_cents a) ttl"
    and "owned_channel R C (short_slug c) raw s' = Some c"
    and "is_pending_token R (short_slug c) None s'"
    and "k \<notin> {channel_key (short_slug c), channel_key (long_slug c),
               pending_token_key (short_slug c), pending_token_key (long_slug c)} \<Longrightarrow>
         look R s' k = look R s k"
proof -
  have sl: "\<And>i. slug_ok (shorts i)" "\<And>i. slug_ok (longs i)"
    "0 < resolve_ttl cfg (a_price_cents a) ttl" using ok by auto
  note cl = create_channel_look [OF cr sl]
  have sc: "slug_ok (short_slug c)" "slug_ok (long_slug c)" using cl(2) sl(1,2) by auto
  show "look R s (channel_key (short_slug c)) = None" "look R s (channel_key (long_slug c)) = None"
    using cl(4,5) by auto
  have l: "look R s' (channel_key (short_slug c)) = channel_cell c (nat (resolve_ttl cfg (a_price_cents a) ttl))"
    "look R s' (channel_key (long_slug c)) = channel_cell c (nat (resolve_ttl cfg (a_price_cents a) ttl))"
    by (simp_all add: cl(1))
  then show f: "fetch_channel R (short_slug c) s' = Some c" "fetch_channel R (long_slug c) s' = Some c"
    by simp_all
  show "TTL R (channel_key (short_slug c)) s' = resolve_ttl cfg (a_price_cents a) ttl"
    using l(1) sl(3) by (simp add: TTL_def channel_cell_def)
  show "owned_channel R C (short_slug c) raw s' = Some c" using f(1) cl(6) by (simp add: owned_channel_Some)
  show "is_pending_token R (short_slug c) None s'"
    using f(1) sc by (simp add: is_pending_token_def given_or_fetched_def GET_def cl(1))
  show "k \<notin> {channel_key (short_slug c), channel_key (long_slug c),
               pending_token_key (short_slug c), pending_token_key (long_slug c)} \<Longrightarrow>
         look R s' k = look R s k"
    by (simp add: cl(1))
qed

text \<open>The two phases: the first confirmed request marks the channel, the second one removes it.\<close>

lemma destroy_first:
  assumes "channels_ok R s" and "slug_ok slug" and own: "owned_channel R C slug sec s = Some c"
    and "GET R (pending_destruction_key (short_slug c)) s = None"
    and "request_channel_destruction R C now slug sec s = (r, s')"
  shows "fst r" and "\<not> fst (snd r)" and "fetch_channel R slug s' = Some c"
    and "owned_channel R C slug sec s' = Some c"
    and "look R s' (pending_destruction_key (short_slug c)) = Some (RStr (destruction_info now c), Some 30)"
proof -
  have f: "fetch_channel R slug s = Some c" "secret c = hash_secret C sec"
    using own by (simp_all add: owned_channel_Some)
  note D = channels_okD [OF assms(1,2) f(1)]
  from D(4) obtain t where t: "look R s (channel_key (short_slug c)) = channel_cell c t"
    "look R s (channel_key (long_slug c)) = channel_cell c t" by blast
  have g: "GET R (channel_key (short_slug c)) s \<noteq> None" "GET R (pending_destruction_key (short_slug c)) s = None"
    using t assms(4) by (simp_all add: GET_def)
  have l: "look R s' k = (if k = pending_destruction_key (short_slug c)
      then Some (RStr (destruction_info now c), Some 30) else look R s k)" for k
    using destroy_look [OF own, of now k] g assms(5) by simp
  show "fst r" "\<not> fst (snd r)"
    using assms(5) f g by (auto simp: request_channel_destruction_def Let_def
        atomic_pending_destruction_def case_prod_unfold split: if_splits)
  show f': "fetch_channel R slug s' = Some c"
    using f(1) channels_okD(1,2,3) [OF assms(1,2) f(1)] fetch_channel_cong [of s' slug s] assms(2) l by simp
  then show "owned_channel R C slug sec s' = Some c" using f(2) by (simp add: owned_channel_Some)
  show "look R s' (pending_destruction_key (short_slug c)) = Some (RStr (destruction_info now c), Some 30)"
    by (simp add: l)
qed

lemma destroy_second:
  assumes "channels_ok R s" and "slug_ok slug" and own: "owned_channel R C slug sec s = Some c"
    and "GET R (pending_destruction_key (short_slug c)) s \<noteq> None"
    and "request_channel_destruction R C now slug sec s = (r, s')"
  shows "r = (True, True, ''Channel destroyed'')"
    and "fetch_channel R (short_slug c) s' = None" and "fetch_channel R (long_slug c) s' = None"
    and "look R s' (reader_token_key (short_slug c)) = None"
    and "look R s' (download_count_key (short_slug c)) = None"
    and "look R s' (pw_attempts_key (short_slug c)) = None"
    and "look R s' (payment_token_key (short_slug c)) = look R s (payment_token_key (short_slug c))"
    and "look R s' (checksums_key (short_slug c)) = look R s (checksums_key (short_slug c))"
proof -
  have f: "fetch_channel R slug s = Some c" "secret c = hash_secret C sec"
    using own by (simp_all add: owned_channel_Some)
  note D = channels_okD [OF assms(1,2) f(1)]
  from D(4) obtain t where t: "look R s (channel_key (short_slug c)) = channel_cell c t"
    "look R s (channel_key (long_slug c)) = channel_cell c t" by blast
  have g: "GET R (channel_key (short_slug c)) s \<noteq> None"
    using t by (simp add: GET_def)
  have l: "look R s' k = (if k \<in> set (channel_key (short_slug c) #
      pending_destruction_key (short_slug c) # destruction_keys c) then None else look R s k)" for k
    using destroy_look [OF own, of now k] unfolding assms(5) snd_conv if_not_P [OF g] if_not_P [OF assms(4)] .
  show "r = (True, True, ''Channel destroyed'')"
    using assms(4,5) f g by (auto simp: request_channel_destruction_def Let_def
        atomic_pending_destruction_def atomic_destroy_channel_def case_prod_unfold split: if_splits)
  show "fetch_channel R (short_slug c) s' = None" "fetch_channel R (long_slug c) s' = None"
    by (simp_all add: fetch_channel_look l destruction_keys_def)
  show "look R s' (reader_token_key (short_slug c)) = None"
    "look R s' (download_count_key (short_slug c)) = None"
    "look R s' (pw_attempts_key (short_slug c)) = None"
    by (simp_all add: l destruction_keys_def)
  show "look R s' (payment_token_key (short_slug c)) = look R s (payment_token_key (short_slug c))"
    "look R s' (checksums_key (short_slug c)) = look R s (checksums_key (short_slug c))"
    using D(1,2) by (simp_all add: l destruction_keys_def)
qed

end

subsection \<open>Sample channel of the witnesses\<close>

text \<open>
  One creation on the empty reference server, with fixed candidates: the concrete input of
  the witnesses.
\<close>

definition sample_create :: chan_op where
  "sample_create = Create_Op (\<lambda>_. ''5f-0a'') (\<lambda>_. ''ham/olive'') ''deadbeef'' 2 None default_args"

definition sample_channel :: channel_data where
  "sample_channel = new_channel ref_crypto 2 default_args ''5f-0a'' ''ham/olive'' ''deadbeef''"

definition sample_store :: store where
  "sample_store = chan_step ref_redis ref_crypto default_settings sample_create empty_store"

lemma sample_created:
  "fst (create_channel ref_redis ref_crypto default_settings (\<lambda>_. ''5f-0a'') (\<lambda>_. ''ham/olive'')
     ''deadbeef'' 2 None default_args empty_store) = Inr (sample_channel, ''deadbeef'')"
  by code_simp

lemma sample_store_eq:
  "snd (create_channel ref_redis ref_crypto default_settings (\<lambda>_. ''5f-0a'') (\<lambda>_. ''ham/olive'')
     ''deadbeef'' 2 None default_args empty_store) = sample_store"
  by (simp add: sample_store_def sample_create_def)

lemma sample_ok: "op_ok default_settings sample_create"
  by (simp add: sample_create_def is_slug_char_def is_lower_alnum_def resolve_ttl_def
      default_settings_def default_args_def price_positive_def)

lemma sample_slugs [simp]: "short_slug sample_channel = ''5f-0a''" "long_slug sample_channel = ''ham/olive''"
  "max_downloads sample_channel = 2" "secret sample_channel = hash_secret ref_crypto ''deadbeef''"
  by (simp_all add: sample_channel_def)

lemma sample_fresh: "reachable ref_redis C cfg empty_store"
  by (rule reachable.fresh) simp

lemma sample_reachable: "reachable ref_redis ref_crypto default_settings sample_store"
  unfolding sample_store_def by (rule reachable.step [OF sample_fresh sample_ok])

lemma sample_channels_ok: "channels_ok ref_redis sample_store"
  using reference.reachable_ok [OF sample_reachable] by simp

lemma sample_look:
  "owned_channel ref_redis ref_crypto ''5f-0a'' ''deadbeef'' sample_store = Some sample_channel"
  "fetch_channel ref_redis ''5f-0a'' sample_store = Some sample_channel"
  "look ref_redis sample_store (pending_destruction_key ''5f-0a'') = None"
  by code_simp+

subsection \<open>Properties\<close>

text \<open>
  Property C1: the download limit. A channel created with a limit \<open>m > 0\<close> in any reachable
  state of the store never completes more than \<open>m\<close> downloads, whatever requests follow
  (downloads by any reader, renewals, destructions, reports, waiting, creation of other
  channels), because its counter outlives it.
\<close>

theorem download_limit_holds:
  assumes "redis_server R" and "reachable R C cfg s"
    and "create_channel R C cfg shorts longs hex m ttl a s = (Inr (c, raw), s')"
    and "op_ok cfg (Create_Op shorts longs hex m ttl a)"
    and "0 < m" and "look R s (download_count_key (short_slug c)) = None"
    and "list_all (op_ok cfg) xs" and "list_all (chan_other c) xs"
  shows "completed R C cfg c xs s' \<le> m"
  by (rule redis_server.download_limit [OF assms])

theorem download_limit_holds_witness:
  "completed ref_redis ref_crypto default_settings sample_channel
     [Reader_Op ''5f-0a'' ''deadbeef'' (sha256_hex ref_crypto ''tok''), Download_Op ''5f-0a'' ''tok'',
      Download_Op ''ham/olive'' ''tok'', Wait_Op 30, Download_Op ''5f-0a'' ''tok''] sample_store \<le> 2"
  using download_limit_holds [OF reference_server sample_fresh, of ref_crypto default_settings
      "\<lambda>_. ''5f-0a''" "\<lambda>_. ''ham/olive''" "''deadbeef''" 2 None default_args sample_channel "''deadbeef''" sample_store
      "[Reader_Op ''5f-0a'' ''deadbeef'' (sha256_hex ref_crypto ''tok''), Download_Op ''5f-0a'' ''tok'',
        Download_Op ''ham/olive'' ''tok'', Wait_Op 30, Download_Op ''5f-0a'' ''tok'']"]
    sample_created sample_store_eq sample_ok
  by (simp add: prod_eq_iff sample_create_def chan_other_def is_slug_char_def is_lower_alnum_def)

text \<open>
  Property C5: both slugs of a channel lead to the same channel. In every reachable state a
  channel found under an accepted slug is found under its short and its long slug, it has
  no third slug, and its two entries expire at the same time.
\<close>

theorem channel_found_under_both_slugs:
  assumes "redis_server R" and "reachable R C cfg s" and "slug_ok x" and "fetch_channel R x s = Some c"
  shows "fetch_channel R (short_slug c) s = Some c \<and> fetch_channel R (long_slug c) s = Some c \<and>
    (x = short_slug c \<or> x = long_slug c) \<and>
    TTL R (channel_key (short_slug c)) s = TTL R (channel_key (long_slug c)) s"
  using redis_server.both_slugs [OF assms] by simp

theorem channel_found_under_both_slugs_witness:
  "fetch_channel ref_redis ''ham/olive'' sample_store = Some sample_channel"
  using channel_found_under_both_slugs [OF reference_server sample_reachable, of "''5f-0a''" sample_channel]
    sample_look by (simp add: is_slug_char_def is_lower_alnum_def)

text \<open>
  Property C4: channel creation. A created channel gets two slugs under which nothing was
  stored, is found under both with the resolved time to live, is owned by the holder of the
  returned secret (of which only the keyed hash is stored), waits for its reader token, and
  no other key of the server has changed; a failed creation changes no key at all.
\<close>

theorem channel_creation:
  assumes "redis_server R" and "op_ok cfg (Create_Op shorts longs hex m ttl a)"
    and "create_channel R C cfg shorts longs hex m ttl a s = (r, s')"
  shows "case r of
      Inl e \<Rightarrow> \<forall>k. look R s' k = look R s k
    | Inr (c, raw) \<Rightarrow>
        look R s (channel_key (short_slug c)) = None \<and> look R s (channel_key (long_slug c)) = None \<and>
        fetch_channel R (short_slug c) s' = Some c \<and> fetch_channel R (long_slug c) s' = Some c \<and>
        TTL R (channel_key (short_slug c)) s' = resolve_ttl cfg (a_price_cents a) ttl \<and>
        owned_channel R C (short_slug c) raw s' = Some c \<and>
        is_pending_token R (short_slug c) None s' \<and>
        (\<forall>k. k \<notin> {channel_key (short_slug c), channel_key (long_slug c),
                  pending_token_key (short_slug c), pending_token_key (long_slug c)} \<longrightarrow>
           look R s' k = look R s k)"
proof (cases r)
  case (Inl e)
  then show ?thesis using redis_server.create_channel_error [OF assms(1)] assms(3) by auto
next
  case (Inr p)
  obtain c raw where p: "p = (c, raw)" by fastforce
  show ?thesis
    using redis_server.created_channel [OF assms(1) assms(3) [unfolded Inr p] assms(2)]
    by (simp add: Inr p)
qed

theorem channel_creation_witness:
  "fetch_channel ref_redis ''ham/olive'' sample_store = Some sample_channel \<and>
   TTL ref_redis (channel_key ''5f-0a'') sample_store = 3600 \<and>
   is_pending_token ref_redis ''5f-0a'' None sample_store"
  using channel_creation [OF reference_server, of default_settings "\<lambda>_. ''5f-0a''" "\<lambda>_. ''ham/olive''"
      "''deadbeef''" 2 None default_args ref_crypto empty_store "Inr (sample_channel, ''deadbeef'')" sample_store]
    sample_created sample_store_eq sample_ok
  by (simp add: prod_eq_iff sample_create_def resolve_ttl_def default_args_def price_positive_def
      default_settings_def)

text \<open>
  Property C3: destruction takes two requests of the owner. The first one only marks the
  channel for 30 seconds: it stays readable and owned; a second one while the mark lasts
  removes it under both slugs, with its reader token, counter and password attempts. A
  request with another secret changes nothing.
\<close>

theorem two_phase_destruction:
  assumes "redis_server R" and "channels_ok R s" and "slug_ok slug"
    and "request_channel_destruction R C now slug sec s = (r, s')"
  shows "case owned_channel R C slug sec s of
      None \<Rightarrow> \<not> fst r \<and> s' = s
    | Some c \<Rightarrow>
        (if GET R (pending_destruction_key (short_slug c)) s = None then
           fst r \<and> \<not> fst (snd r) \<and> fetch_channel R slug s' = Some c \<and>
           look R s' (pending_destruction_key (short_slug c)) = Some (RStr (destruction_info now c), Some 30)
         else
           r = (True, True, ''Channel destroyed'') \<and>
           fetch_channel R (short_slug c) s' = None \<and> fetch_channel R (long_slug c) s' = None \<and>
           look R s' (reader_token_key (short_slug c)) = None \<and>
           look R s' (download_count_key (short_slug c)) = None \<and>
           look R s' (pw_attempts_key (short_slug c)) = None)"
proof (cases "owned_channel R C slug sec s")
  case None
  obtain msg where "request_channel_destruction R C now slug sec s = ((False, False, msg), s)"
    using redis_server.destroy_refused [OF assms(1) None] by blast
  then show ?thesis using assms(4) None by auto
next
  case (Some c)
  then show ?thesis
    using redis_server.destroy_first [OF assms(1-3) Some _ assms(4)]
      redis_server.destroy_second [OF assms(1-3) Some _ assms(4)] by simp
qed

theorem two_phase_destruction_witness:
  "fst (request_channel_destruction ref_redis ref_crypto ''t0'' ''5f-0a'' ''deadbeef'' sample_store) \<noteq>
     (True, True, ''Channel destroyed'')"
  using two_phase_destruction [OF reference_server sample_channels_ok, of "''5f-0a''" ref_crypto "''t0''" "''deadbeef''"
      "fst (request_channel_destruction ref_redis ref_crypto ''t0'' ''5f-0a'' ''deadbeef'' sample_store)"
      "snd (request_channel_destruction ref_redis ref_crypto ''t0'' ''5f-0a'' ''deadbeef'' sample_store)"]
    sample_look by (auto simp: is_slug_char_def is_lower_alnum_def GET_def)

end
