(* ===== verification/Secret_Repository.thy ===== *)
theory Secret_Repository
  imports Lua_Scripts Slugs Channel_Data Settings
begin

section \<open>The secret store\<close>

text \<open>
  \<open>SecretRepository\<close> of \<open>queries.py\<close>: one-time secrets and files, the index of paid
  secrets per workspace, the counters of the public statistics, and the payment tokens of
  paid secrets. Item ids are the UUIDs the caller draws (\<open>uuid.uuid4\<close>), a parameter of the
  creating methods, as is the text of the timestamps.
\<close>

datatype item_kind = Secret_Kind | File_Kind

fun secret_prefix :: "item_kind \<Rightarrow> string" where
  "secret_prefix Secret_Kind = ''file-sharing:secret''"
| "secret_prefix File_Kind = ''file-sharing:file''"

definition secret_key :: "item_kind \<Rightarrow> string \<Rightarrow> string" where
  "secret_key kind item_id = secret_prefix kind @ '':'' @ item_id"

definition secret_entry :: "secret_data \<Rightarrow> payload" where
  "secret_entry d = Doc (JObj (secret_to_dict d))"

definition secret_create ::
  "'s redis \<Rightarrow> item_kind \<Rightarrow> string \<Rightarrow> int \<Rightarrow> secret_data \<Rightarrow> 's \<Rightarrow> 's" where
  "secret_create R kind item_id expiration d s =
     SETEX R (secret_key kind item_id) expiration (secret_entry d) s"

text \<open>\<open>SecretData.from_dict(json.loads(data))\<close>.\<close>

definition parse_secret :: "payload \<Rightarrow> py_error + secret_data" where
  "parse_secret p = (case json_loads p of
       None \<Rightarrow> Inl (ValueError ''JSONDecodeError'')
     | Some (JObj d) \<Rightarrow> secret_from_dict d
     | Some _ \<Rightarrow> Inl TypeError)"

definition parse_secret_reply :: "payload option \<Rightarrow> py_error + secret_data option" where
  "parse_secret_reply r = (case r of
       None \<Rightarrow> Inr None
     | Some data \<Rightarrow> bind_sum (parse_secret data) (\<lambda>d. Inr (Some d)))"

definition secret_fetch ::
  "'s redis \<Rightarrow> item_kind \<Rightarrow> string \<Rightarrow> 's \<Rightarrow> (py_error + secret_data option) \<times> 's" where
  "secret_fetch R kind item_id s =
     (case GETDEL R (secret_key kind item_id) s of (data, s1) \<Rightarrow> (parse_secret_reply data, s1))"

definition secret_peek :: "'s redis \<Rightarrow> item_kind \<Rightarrow> string \<Rightarrow> 's \<Rightarrow> py_error + secret_data option" where
  "secret_peek R kind item_id s = parse_secret_reply (GET R (secret_key kind item_id) s)"

subsection \<open>The index of paid secrets\<close>

definition paid_secrets_key :: "string \<Rightarrow> string" where
  "paid_secrets_key workspace_id = ''file-sharing:paid-secrets:'' @ workspace_id"

definition paid_entry ::
  "string \<Rightarrow> string option \<Rightarrow> int \<Rightarrow> string \<Rightarrow> string \<Rightarrow> string \<Rightarrow> payload" where
  "paid_entry item_id ttl_title price cur created_at expires_at = Doc (JObj [
     (''id'', JStr item_id),
     (''uuid'', JStr item_id),
     (''title'', json_opt_str ttl_title),
     (''price_cents'', JInt price),
     (''currency'', JStr cur),
     (''created_at'', JStr created_at),
     (''expires_at'', JStr expires_at)])"

definition index_paid_secret ::
  "'s redis \<Rightarrow> string \<Rightarrow> string \<Rightarrow> payload \<Rightarrow> int \<Rightarrow> 's \<Rightarrow> 's" where
  "index_paid_secret R workspace_id item_id entry expiration s =
     (let key = paid_secrets_key workspace_id;
          current_ttl = TTL R key s;
          s1 = HSET R key item_id entry s
      in if current_ttl < expiration then EXPIRE R key expiration s1 else s1)"

text \<open>\<open>json.loads\<close> on every listed entry; the first that does not parse raises.\<close>

fun load_all :: "payload list \<Rightarrow> py_error + json list" where
  "load_all [] = Inr []"
| "load_all (p # ps) = (case json_loads p of
       None \<Rightarrow> Inl (ValueError ''JSONDecodeError'')
     | Some j \<Rightarrow> bind_sum (load_all ps) (\<lambda>js. Inr (j # js)))"

definition list_paid_secrets ::
  "'s redis \<Rightarrow> string \<Rightarrow> 's \<Rightarrow> (py_error + json list) \<times> 's" where
  "list_paid_secrets R workspace_id s =
     (let key = paid_secrets_key workspace_id;
          entries = HGETALL R key s;
          live = filter (\<lambda>(item_id, _). EXISTS R (secret_key Secret_Kind item_id) s) entries;
          stale_keys = map fst (filter (\<lambda>(item_id, _). \<not> EXISTS R (secret_key Secret_Kind item_id) s) entries)
      in if entries = [] then (Inr [], s)
         else (case load_all (map snd live) of
                 Inl e \<Rightarrow> (Inl e, s)
               | Inr result \<Rightarrow> (Inr result, if stale_keys = [] then s else HDELS R key stale_keys s)))"

subsection \<open>Statistics\<close>

definition STATS_KEY :: string where
  "STATS_KEY = ''file-sharing:stats:secrets_created''"
definition STATS_CACHE_KEY :: string where
  "STATS_CACHE_KEY = ''file-sharing:stats:cached_total''"
definition STATS_CACHE_TTL :: int where
  "STATS_CACHE_TTL = 15"
definition NO_SERVER_STATS_KEY :: string where
  "NO_SERVER_STATS_KEY = ''file-sharing:stats:no_server_created''"
definition CHANNELS_TOTAL_KEY :: string where
  "CHANNELS_TOTAL_KEY = ''file-sharing:stats:channels_total''"
definition CHANNELS_INITIALIZED_KEY :: string where
  "CHANNELS_INITIALIZED_KEY = ''file-sharing:stats:channels_total:initialized''"

definition workspace_created_key :: "string \<Rightarrow> string" where
  "workspace_created_key w = ''file-sharing:stats:secrets_created:'' @ w"
definition workspace_no_server_key :: "string \<Rightarrow> string" where
  "workspace_no_server_key w = ''file-sharing:stats:no_server_created:'' @ w"
definition workspace_channels_key :: "string \<Rightarrow> string" where
  "workspace_channels_key w = ''file-sharing:stats:workspace_channels:'' @ w"
definition workspace_channels_init_key :: "string \<Rightarrow> string" where
  "workspace_channels_init_key w = ''file-sharing:stats:workspace_channels:initialized:'' @ w"

text \<open>\<open>int(val) if val else 0\<close> on a counter.\<close>

definition read_count :: "'s redis \<Rightarrow> string \<Rightarrow> 's \<Rightarrow> int" where
  "read_count R k s = (case GET R k s of Some (Number n) \<Rightarrow> n | _ \<Rightarrow> 0)"

definition get_cached_total :: "'s redis \<Rightarrow> 's \<Rightarrow> int option" where
  "get_cached_total R s = (case GET R STATS_CACHE_KEY s of Some (Number n) \<Rightarrow> Some n | _ \<Rightarrow> None)"

definition set_cached_total :: "'s redis \<Rightarrow> int \<Rightarrow> 's \<Rightarrow> 's" where
  "set_cached_total R n s = SETEX R STATS_CACHE_KEY STATS_CACHE_TTL (Number n) s"

definition increment_created_count :: "'s redis \<Rightarrow> string option \<Rightarrow> 's \<Rightarrow> 's" where
  "increment_created_count R workspace_id s =
     (let s1 = snd (INCR R STATS_KEY s);
          s2 = DEL R STATS_CACHE_KEY s1
      in if truthy workspace_id then snd (INCR R (workspace_created_key (the workspace_id)) s2) else s2)"

definition get_created_count :: "'s redis \<Rightarrow> 's \<Rightarrow> int" where
  "get_created_count R s = read_count R STATS_KEY s"

definition get_workspace_created_count :: "'s redis \<Rightarrow> string \<Rightarrow> 's \<Rightarrow> int" where
  "get_workspace_created_count R w s = read_count R (workspace_created_key w) s"

definition increment_no_server_created_count :: "'s redis \<Rightarrow> string option \<Rightarrow> 's \<Rightarrow> 's" where
  "increment_no_server_created_count R workspace_id s =
     (let s1 = snd (INCR R NO_SERVER_STATS_KEY s);
          s2 = DEL R STATS_CACHE_KEY s1
      in if truthy workspace_id then snd (INCR R (workspace_no_server_key (the workspace_id)) s2) else s2)"

definition get_no_server_created_count :: "'s redis \<Rightarrow> 's \<Rightarrow> int" where
  "get_no_server_created_count R s = read_count R NO_SERVER_STATS_KEY s"

definition get_workspace_no_server_created_count :: "'s redis \<Rightarrow> string \<Rightarrow> 's \<Rightarrow> int" where
  "get_workspace_no_server_created_count R w s = read_count R (workspace_no_server_key w) s"

definition increment_channels_total :: "'s redis \<Rightarrow> 's \<Rightarrow> 's" where
  "increment_channels_total R s = DEL R STATS_CACHE_KEY (snd (INCR R CHANNELS_TOTAL_KEY s))"

definition get_channels_total :: "'s redis \<Rightarrow> 's \<Rightarrow> int" where
  "get_channels_total R s = read_count R CHANNELS_TOTAL_KEY s"

definition channels_total_initialized :: "'s redis \<Rightarrow> 's \<Rightarrow> bool" where
  "channels_total_initialized R s = EXISTS R CHANNELS_INITIALIZED_KEY s"

definition seed_channels_total_if_needed :: "'s redis \<Rightarrow> int \<Rightarrow> 's \<Rightarrow> bool \<times> 's" where
  "seed_channels_total_if_needed R pg_baseline s =
     (case SET_NX R CHANNELS_INITIALIZED_KEY (Number 1) s of (won, s1) \<Rightarrow>
        (if \<not> won then (False, s1)
         else (True, snd (INCRBY R CHANNELS_TOTAL_KEY pg_baseline s1))))"

definition increment_workspace_channels_total :: "'s redis \<Rightarrow> string \<Rightarrow> 's \<Rightarrow> 's" where
  "increment_workspace_channels_total R w s = snd (INCR R (workspace_channels_key w) s)"

definition get_workspace_channels_total :: "'s redis \<Rightarrow> string \<Rightarrow> 's \<Rightarrow> int" where
  "get_workspace_channels_total R w s = read_count R (workspace_channels_key w) s"

definition workspace_channels_initialized :: "'s redis \<Rightarrow> string \<Rightarrow> 's \<Rightarrow> bool" where
  "workspace_channels_initialized R w s = EXISTS R (workspace_channels_init_key w) s"

definition seed_workspace_channels_total_if_needed ::
  "'s redis \<Rightarrow> string \<Rightarrow> int \<Rightarrow> 's \<Rightarrow> bool \<times> 's" where
  "seed_workspace_channels_total_if_needed R w pg_baseline s =
     (case SET_NX R (workspace_channels_init_key w) (Number 1) s of (won, s1) \<Rightarrow>
        (if \<not> won then (False, s1)
         else (True, snd (INCRBY R (workspace_channels_key w) pg_baseline s1))))"

subsection \<open>Creation and reading\<close>

text \<open>
  \<open>create_secret\<close> and \<open>create_file\<close>: the item, the counter, and for a priced item of a
  workspace the storefront index. \<open>stamps\<close> is the pair of timestamps of the index entry.
\<close>

definition create_item ::
  "'s redis \<Rightarrow> item_kind \<Rightarrow> string \<Rightarrow> string \<times> string \<Rightarrow> int \<Rightarrow> secret_data \<Rightarrow> 's \<Rightarrow> 's" where
  "create_item R kind item_id stamps expiration d s =
     (let s1 = secret_create R kind item_id expiration d s;
          s2 = increment_created_count R (s_workspace_id d) s1
      in (case s_price_cents d of
            Some p \<Rightarrow>
              (if p \<noteq> 0 \<and> 0 < p \<and> truthy (s_workspace_id d) then
                 index_paid_secret R (the (s_workspace_id d)) item_id
                   (paid_entry item_id (s_title d) p (s_currency d) (fst stamps) (snd stamps))
                   expiration s2
               else s2)
          | None \<Rightarrow> s2))"

definition create_secret ::
  "'s redis \<Rightarrow> string \<Rightarrow> string \<times> string \<Rightarrow> int \<Rightarrow> secret_data \<Rightarrow> 's \<Rightarrow> string \<times> 's" where
  "create_secret R item_id stamps expiration d s =
     (item_id, create_item R Secret_Kind item_id stamps expiration d s)"

definition create_file ::
  "'s redis \<Rightarrow> string \<Rightarrow> string \<times> string \<Rightarrow> int \<Rightarrow> secret_data \<Rightarrow> 's \<Rightarrow> string \<times> 's" where
  "create_file R item_id stamps expiration d s =
     (item_id, create_item R File_Kind item_id stamps expiration d s)"

definition fetch_secret where "fetch_secret R secret_id s = secret_fetch R Secret_Kind secret_id s"
definition fetch_file where "fetch_file R file_id s = secret_fetch R File_Kind file_id s"
definition peek_secret where "peek_secret R secret_id s = secret_peek R Secret_Kind secret_id s"
definition peek_file where "peek_file R file_id s = secret_peek R File_Kind file_id s"

subsection \<open>Payment tokens of paid secrets\<close>

definition secret_payment_token_key :: "string \<Rightarrow> string" where
  "secret_payment_token_key secret_id = ''file-sharing:secret:payment_tokens:'' @ secret_id"

definition secret_checkout_token_key :: "string \<Rightarrow> string \<Rightarrow> string" where
  "secret_checkout_token_key secret_id checkout_session_id =
     ''file-sharing:secret:checkout-token:'' @ secret_id @ '':'' @ checkout_session_id"

definition SECRET_CHECKOUT_TOKEN_TTL :: int where "SECRET_CHECKOUT_TOKEN_TTL = 900"

definition store_secret_payment_token ::
  "'s redis \<Rightarrow> string \<Rightarrow> string \<Rightarrow> int \<Rightarrow> string \<Rightarrow> 's \<Rightarrow> 's" where
  "store_secret_payment_token R secret_id token_h ttl fingerprint s =
     (let key = secret_payment_token_key secret_id
      in EXPIRE R key ttl (SADD R key (Text (token_h @ '':'' @ fingerprint)) s))"

definition validate_secret_payment_token ::
  "'s redis \<Rightarrow> crypto \<Rightarrow> string \<Rightarrow> string \<Rightarrow> string \<Rightarrow> 's \<Rightarrow> bool" where
  "validate_secret_payment_token R C secret_id token fingerprint s =
     SISMEMBER R (secret_payment_token_key secret_id)
       (Text (sha256_hex C token @ '':'' @ fingerprint)) s"

definition store_secret_checkout_payment_token ::
  "'s redis \<Rightarrow> crypto \<Rightarrow> string \<Rightarrow> string \<Rightarrow> string \<Rightarrow> 's \<Rightarrow> 's" where
  "store_secret_checkout_payment_token R C secret_id checkout_session_id payment_token s =
     SETEX R (secret_checkout_token_key secret_id checkout_session_id) SECRET_CHECKOUT_TOKEN_TTL
       (Text (encrypt_token C payment_token)) s"

definition claim_secret_checkout_token ::
  "'s redis \<Rightarrow> crypto \<Rightarrow> string \<Rightarrow> string \<Rightarrow> 's \<Rightarrow> (py_error + string option) \<times> 's" where
  "claim_secret_checkout_token R C secret_id checkout_session_id s =
     (case GETDEL R (secret_checkout_token_key secret_id checkout_session_id) s of
        (None, s1) \<Rightarrow> (Inr None, s1)
      | (Some encrypted, s1) \<Rightarrow>
          (case encrypted of
             Text e \<Rightarrow> (case decrypt_token C e of
                 None \<Rightarrow> (Inl (RuntimeError ''InvalidToken''), s1)
               | Some token \<Rightarrow> (Inr (Some token), s1))
           | _ \<Rightarrow> (Inl (RuntimeError ''InvalidToken''), s1)))"

end
