(* ===== verification/Secret_Lifecycle.thy ===== *)
theory Secret_Lifecycle
  imports Secret_Repository
begin

section \<open>One-time items, the storefront index and the counters\<close>

text \<open>
  What the methods of \<open>SecretRepository\<close> guarantee over any sequence of calls and any
  passing of time: an item is handed out at most once, reading its metadata does not use it
  up, the storefront index lives as long as what it lists, the seeded counters lose no
  increment.
\<close>

lemmas secret_key_defs =
  secret_key_def paid_secrets_key_def STATS_KEY_def STATS_CACHE_KEY_def NO_SERVER_STATS_KEY_def
  CHANNELS_TOTAL_KEY_def CHANNELS_INITIALIZED_KEY_def workspace_created_key_def
  workspace_no_server_key_def workspace_channels_key_def workspace_channels_init_key_def
  secret_payment_token_key_def secret_checkout_token_key_def

lemma secret_key_inject [simp, keys]: "secret_key k x = secret_key k' y \<longleftrightarrow> k = k' \<and> x = y"
  by (cases k; cases k') (auto simp: secret_key_def)

lemma paid_secrets_key_inject [simp, keys]: "paid_secrets_key x = paid_secrets_key y \<longleftrightarrow> x = y"
  by (simp add: paid_secrets_key_def)

lemma secret_key_families [simp, keys]:
  "secret_key k x \<noteq> paid_secrets_key w" "paid_secrets_key w \<noteq> secret_key k x"
  "secret_key k x \<noteq> STATS_KEY" "STATS_KEY \<noteq> secret_key k x"
  "secret_key k x \<noteq> STATS_CACHE_KEY" "STATS_CACHE_KEY \<noteq> secret_key k x"
  "secret_key k x \<noteq> NO_SERVER_STATS_KEY" "secret_key k x \<noteq> CHANNELS_TOTAL_KEY"
  "secret_key k x \<noteq> CHANNELS_INITIALIZED_KEY"
  "secret_key k x \<noteq> workspace_created_key w" "workspace_created_key w \<noteq> secret_key k x"
  "secret_key k x \<noteq> workspace_no_server_key w"
  "secret_key k x \<noteq> workspace_channels_key w" "secret_key k x \<noteq> workspace_channels_init_key w"
  "paid_secrets_key w \<noteq> STATS_KEY" "paid_secrets_key w \<noteq> STATS_CACHE_KEY"
  "paid_secrets_key w \<noteq> NO_SERVER_STATS_KEY" "paid_secrets_key w \<noteq> workspace_created_key v"
  "paid_secrets_key w \<noteq> workspace_no_server_key v"
  "STATS_KEY \<noteq> paid_secrets_key w" "STATS_CACHE_KEY \<noteq> paid_secrets_key w"
  "workspace_created_key v \<noteq> paid_secrets_key w"
  by (cases k; simp add: secret_key_defs)+

lemma stats_keys [simp, keys]:
  "STATS_KEY \<noteq> STATS_CACHE_KEY" "STATS_CACHE_KEY \<noteq> STATS_KEY"
  "STATS_KEY \<noteq> workspace_created_key w" "workspace_created_key w \<noteq> STATS_KEY"
  "STATS_CACHE_KEY \<noteq> workspace_created_key w" "workspace_created_key w \<noteq> STATS_CACHE_KEY"
  "CHANNELS_TOTAL_KEY \<noteq> STATS_CACHE_KEY" "STATS_CACHE_KEY \<noteq> CHANNELS_TOTAL_KEY"
  "CHANNELS_TOTAL_KEY \<noteq> CHANNELS_INITIALIZED_KEY" "CHANNELS_INITIALIZED_KEY \<noteq> CHANNELS_TOTAL_KEY"
  "CHANNELS_INITIALIZED_KEY \<noteq> STATS_CACHE_KEY" "STATS_CACHE_KEY \<noteq> CHANNELS_INITIALIZED_KEY"
  by (simp_all add: secret_key_defs)

lemma secret_token_keys [simp, keys]:
  "secret_payment_token_key x = secret_payment_token_key y \<longleftrightarrow> x = y"
  "secret_payment_token_key x \<noteq> paid_secrets_key w" "paid_secrets_key w \<noteq> secret_payment_token_key x"
  "secret_payment_token_key x \<noteq> STATS_KEY" "STATS_KEY \<noteq> secret_payment_token_key x"
  "secret_payment_token_key x \<noteq> STATS_CACHE_KEY" "STATS_CACHE_KEY \<noteq> secret_payment_token_key x"
  "secret_payment_token_key x \<noteq> NO_SERVER_STATS_KEY" "NO_SERVER_STATS_KEY \<noteq> secret_payment_token_key x"
  "secret_payment_token_key x \<noteq> workspace_created_key w"
  "workspace_created_key w \<noteq> secret_payment_token_key x"
  "secret_payment_token_key x \<noteq> workspace_no_server_key w"
  "workspace_no_server_key w \<noteq> secret_payment_token_key x"
  "secret_payment_token_key x \<noteq> secret_checkout_token_key y z"
  "secret_checkout_token_key y z \<noteq> secret_payment_token_key x"
  "secret_checkout_token_key y z \<noteq> paid_secrets_key w" "paid_secrets_key w \<noteq> secret_checkout_token_key y z"
  "secret_checkout_token_key y z \<noteq> STATS_KEY" "STATS_KEY \<noteq> secret_checkout_token_key y z"
  "secret_checkout_token_key y z \<noteq> NO_SERVER_STATS_KEY"
  "NO_SERVER_STATS_KEY \<noteq> secret_checkout_token_key y z"
  "secret_checkout_token_key y z \<noteq> workspace_created_key w"
  "workspace_created_key w \<noteq> secret_checkout_token_key y z"
  "secret_checkout_token_key y z \<noteq> workspace_no_server_key w"
  "workspace_no_server_key w \<noteq> secret_checkout_token_key y z"
  by (simp_all add: secret_key_defs)

lemma stats_key_families [simp, keys]:
  "NO_SERVER_STATS_KEY \<noteq> secret_key k x"
  "workspace_no_server_key w \<noteq> secret_key k x"
  "NO_SERVER_STATS_KEY \<noteq> STATS_KEY" "STATS_KEY \<noteq> NO_SERVER_STATS_KEY"
  "NO_SERVER_STATS_KEY \<noteq> STATS_CACHE_KEY" "STATS_CACHE_KEY \<noteq> NO_SERVER_STATS_KEY"
  "NO_SERVER_STATS_KEY \<noteq> paid_secrets_key w"
  "NO_SERVER_STATS_KEY \<noteq> workspace_created_key w" "workspace_created_key w \<noteq> NO_SERVER_STATS_KEY"
  "NO_SERVER_STATS_KEY \<noteq> workspace_no_server_key w" "workspace_no_server_key w \<noteq> NO_SERVER_STATS_KEY"
  "workspace_no_server_key w \<noteq> STATS_KEY" "STATS_KEY \<noteq> workspace_no_server_key w"
  "workspace_no_server_key w \<noteq> STATS_CACHE_KEY" "STATS_CACHE_KEY \<noteq> workspace_no_server_key w"
  "workspace_no_server_key w \<noteq> workspace_created_key v"
  "workspace_created_key v \<noteq> workspace_no_server_key w"
  "workspace_no_server_key w \<noteq> paid_secrets_key v"
  by (cases k; simp add: secret_key_defs)+

text \<open>An accepted id keeps an item's key apart from the payment tokens of a secret.\<close>

lemma secret_key_apart [simp, keys]:
  assumes "slug_ok x"
  shows "secret_key k x \<noteq> secret_payment_token_key y" "secret_key k x \<noteq> secret_checkout_token_key y z"
    "secret_payment_token_key y \<noteq> secret_key k x" "secret_checkout_token_key y z \<noteq> secret_key k x"
  using assms by (cases k; auto simp: secret_key_defs)+

lemma parse_secret_entry [simp]: "parse_secret (secret_entry d) = Inr d"
  by (simp add: parse_secret_def secret_entry_def secret_roundtrip)

context redis_server
begin

lemma HGET_look: "HGET R k f s = cell_hash (look R s k) f"
  by (simp add: HGET_def)

lemma set_HGETALL: "set (HGETALL R k s) = {(f, v). HGET R k f s = Some v}"
  by (force simp: HGETALL_def List.map_filter_def HKEYS_fields HGET_look dom_def)

lemma distinct_HGETALL: "distinct (map fst (HGETALL R k s))"
proof -
  have "map fst (List.map_filter (\<lambda>f. map_option (Pair f) (HGET R k f s)) fs) =
      filter (\<lambda>f. HGET R k f s \<noteq> None) fs" for fs
    by (induction fs) (auto simp: List.map_filter_def)
  then show ?thesis by (simp add: HGETALL_def HKEYS_distinct)
qed

end

subsection \<open>Calls and runs\<close>

datatype secret_op =
    Pass_Time nat
  | Create_Item item_kind string "string \<times> string" int secret_data
  | Fetch_Item item_kind string
  | List_Paid string
  | Count_No_Server "string option"
  | Pay_Secret string string int string
  | Checkout_Secret string string string
  | Claim_Secret string string

fun secret_step :: "'s redis \<Rightarrow> crypto \<Rightarrow> secret_op \<Rightarrow> 's \<Rightarrow> 's" where
  "secret_step R C (Pass_Time d) s = elapse R d s"
| "secret_step R C (Create_Item k x stamps t d) s = create_item R k x stamps t d s"
| "secret_step R C (Fetch_Item k x) s = snd (secret_fetch R k x s)"
| "secret_step R C (List_Paid w) s = snd (list_paid_secrets R w s)"
| "secret_step R C (Count_No_Server w) s = increment_no_server_created_count R w s"
| "secret_step R C (Pay_Secret x h t fp) s = store_secret_payment_token R x h t fp s"
| "secret_step R C (Checkout_Secret x cs tok) s = store_secret_checkout_payment_token R C x cs tok s"
| "secret_step R C (Claim_Secret x cs) s = snd (claim_secret_checkout_token R C x cs s)"

fun secret_run :: "'s redis \<Rightarrow> crypto \<Rightarrow> secret_op list \<Rightarrow> 's \<Rightarrow> 's" where
  "secret_run R C [] s = s"
| "secret_run R C (x # xs) s = secret_run R C xs (secret_step R C x s)"

fun secret_op_ok :: "secret_op \<Rightarrow> bool" where
  "secret_op_ok (Create_Item k x stamps t d) = (slug_ok x \<and> 0 < t)"
| "secret_op_ok (Fetch_Item k x) = slug_ok x"
| "secret_op_ok _ = True"

text \<open>The reads of an item that a run answers with its contents.\<close>

definition hands_out :: "'s redis \<Rightarrow> item_kind \<Rightarrow> string \<Rightarrow> secret_op \<Rightarrow> 's \<Rightarrow> bool" where
  "hands_out R k x y s = (y = Fetch_Item k x \<and> fst (secret_fetch R k x s) \<noteq> Inr None)"

fun handed_out :: "'s redis \<Rightarrow> crypto \<Rightarrow> item_kind \<Rightarrow> string \<Rightarrow> secret_op list \<Rightarrow> 's \<Rightarrow> nat" where
  "handed_out R C k x [] s = 0"
| "handed_out R C k x (y # ys) s =
     (if hands_out R k x y s then 1 else 0) + handed_out R C k x ys (secret_step R C y s)"

definition creates :: "item_kind \<Rightarrow> string \<Rightarrow> secret_op \<Rightarrow> bool" where
  "creates k x y = (case y of Create_Item k' x' stamps t d \<Rightarrow> k' = k \<and> x' = x | _ \<Rightarrow> False)"

text \<open>The calls that concern other items, and the time a run takes.\<close>

definition leaves :: "item_kind \<Rightarrow> string \<Rightarrow> secret_op \<Rightarrow> bool" where
  "leaves k x y = (\<not> creates k x y \<and> y \<noteq> Fetch_Item k x)"

fun duration :: "secret_op list \<Rightarrow> nat" where
  "duration [] = 0"
| "duration (Pass_Time d # ys) = d + duration ys"
| "duration (_ # ys) = duration ys"

fun wait_age :: "secret_op \<Rightarrow> cell \<Rightarrow> cell" where
  "wait_age (Pass_Time d) c = age d c"
| "wait_age _ c = c"

fun indexing :: "secret_op \<Rightarrow> bool" where
  "indexing (List_Paid w) = True"
| "indexing (Create_Item k x stamps t d) = True"
| "indexing _ = False"

lemma indexing_cases:
  assumes "indexing y"
  obtains w where "y = List_Paid w" | k x stamps t d where "y = Create_Item k x stamps t d"
  using assms by (cases y) auto

text \<open>The types of the keys.\<close>

definition secret_typed :: "'s redis \<Rightarrow> 's \<Rightarrow> bool" where
  "secret_typed R s =
     (is_counter (look R s STATS_KEY) \<and> is_counter (look R s NO_SERVER_STATS_KEY) \<and>
      (\<forall>w. is_counter (look R s (workspace_created_key w)) \<and>
           is_counter (look R s (workspace_no_server_key w)) \<and>
           is_hash (look R s (paid_secrets_key w)) \<and>
           is_set (look R s (secret_payment_token_key w))))"

text \<open>A priced item of a workspace is listed in that workspace's storefront.\<close>

definition storefront :: "secret_data \<Rightarrow> string \<Rightarrow> bool" where
  "storefront d w = (secret_is_paid d \<and> w \<noteq> [] \<and> s_workspace_id d = Some w)"

context redis_server
begin

lemma secret_typedD:
  assumes "secret_typed R s"
  shows "is_counter (look R s STATS_KEY)" and "is_counter (look R s NO_SERVER_STATS_KEY)"
    and "is_counter (look R s (workspace_created_key w))"
    and "is_counter (look R s (workspace_no_server_key w))"
    and "is_hash (look R s (paid_secrets_key w))"
    and "is_set (look R s (secret_payment_token_key w))"
  using assms by (auto simp: secret_typed_def)

lemma secret_typedI:
  assumes "is_counter (look R s STATS_KEY)" and "is_counter (look R s NO_SERVER_STATS_KEY)"
    and "\<And>w. is_counter (look R s (workspace_created_key w))"
    and "\<And>w. is_counter (look R s (workspace_no_server_key w))"
    and "\<And>w. is_hash (look R s (paid_secrets_key w))"
    and "\<And>w. is_set (look R s (secret_payment_token_key w))"
  shows "secret_typed R s"
  using assms by (simp add: secret_typed_def)

lemma increment_created_look:
  assumes "secret_typed R s"
  shows "look R (increment_created_count R w s) k =
    (if k = STATS_CACHE_KEY then None
     else if k = STATS_KEY \<or> truthy w \<and> k = workspace_created_key (the w)
       then Some (RStr (Number (cell_count (look R s k) + 1)), cell_ttl (look R s k))
     else look R s k)"
  using secret_typedD [OF assms] by (auto simp: increment_created_count_def Let_def)

lemma increment_no_server_look:
  assumes "secret_typed R s"
  shows "look R (increment_no_server_created_count R w s) k =
    (if k = STATS_CACHE_KEY then None
     else if k = NO_SERVER_STATS_KEY \<or> truthy w \<and> k = workspace_no_server_key (the w)
       then Some (RStr (Number (cell_count (look R s k) + 1)), cell_ttl (look R s k))
     else look R s k)"
  using secret_typedD [OF assms] by (auto simp: increment_no_server_created_count_def Let_def)

lemma secret_typed_create:
  assumes "secret_typed R s" and "slug_ok x" and "0 < t"
  shows "secret_typed R (secret_create R k x t d s)"
  using secret_typedD [OF assms(1)] assms(2,3)
  by (intro secret_typedI) (simp_all add: secret_create_def)

lemma index_paid_look:
  assumes "is_hash (look R s (paid_secrets_key w))" and "0 < t"
  shows "look R (index_paid_secret R w x e t s) k =
    (if k = paid_secrets_key w then
       Some (RHash ((cell_hash (look R s k))(x \<mapsto> e)),
             if TTL R k s < t then Some (nat t) else cell_ttl (look R s k))
     else look R s k)"
  using assms by (auto simp: index_paid_secret_def Let_def)

lemma create_item_cases:
  "create_item R k x stamps t d s =
    (let s2 = increment_created_count R (s_workspace_id d) (secret_create R k x t d s) in
     if \<exists>w. storefront d w then
       index_paid_secret R (the (s_workspace_id d)) x
         (paid_entry x (s_title d) (the (s_price_cents d)) (s_currency d) (fst stamps) (snd stamps)) t s2
     else s2)"
proof -
  have "(\<exists>w. storefront d w) \<longleftrightarrow> secret_is_paid d \<and> truthy (s_workspace_id d)"
    by (cases "s_workspace_id d") (auto simp: storefront_def)
  then show ?thesis
    by (cases "s_price_cents d") (simp_all add: create_item_def Let_def secret_is_paid_def)
qed

lemma create_item_look:
  assumes "secret_typed R s" and "slug_ok x" and "0 < t"
  shows "look R (create_item R k x stamps t d s) (secret_key k' y) =
      (if k' = k \<and> y = x then Some (RStr (secret_entry d), Some (nat t)) else look R s (secret_key k' y))"
    and "look R (create_item R k x stamps t d s) (paid_secrets_key w) =
      (if storefront d w then
         Some (RHash ((cell_hash (look R s (paid_secrets_key w)))
                 (x \<mapsto> paid_entry x (s_title d) (the (s_price_cents d)) (s_currency d) (fst stamps) (snd stamps))),
               if TTL R (paid_secrets_key w) s < t then Some (nat t)
               else cell_ttl (look R s (paid_secrets_key w)))
       else look R s (paid_secrets_key w))"
proof -
  note ty = secret_typed_create [OF assms, of k d]
  note look2 = increment_created_look [OF ty]
  have look1: "look R (secret_create R k x t d s) q =
      (if q = secret_key k x then Some (RStr (secret_entry d), Some (nat t)) else look R s q)" for q
    using assms(3) by (simp add: secret_create_def)
  have h: "is_hash (look R (increment_created_count R u (secret_create R k x t d s))
      (paid_secrets_key v))" for u v
    using secret_typedD(5) [OF assms(1)] by (simp add: look2 look1)
  show "look R (create_item R k x stamps t d s) (secret_key k' y) =
      (if k' = k \<and> y = x then Some (RStr (secret_entry d), Some (nat t)) else look R s (secret_key k' y))"
    by (cases "\<exists>w. storefront d w")
       (simp_all add: create_item_cases Let_def index_paid_look [OF h assms(3)] look2 look1)
  show "look R (create_item R k x stamps t d s) (paid_secrets_key w) =
      (if storefront d w then
         Some (RHash ((cell_hash (look R s (paid_secrets_key w)))
                 (x \<mapsto> paid_entry x (s_title d) (the (s_price_cents d)) (s_currency d) (fst stamps) (snd stamps))),
               if TTL R (paid_secrets_key w) s < t then Some (nat t)
               else cell_ttl (look R s (paid_secrets_key w)))
       else look R s (paid_secrets_key w))"
  proof (cases "\<exists>v. storefront d v")
    case True
    then obtain v where v: "storefront d v" by blast
    then have "s_workspace_id d = Some v" "storefront d w \<longleftrightarrow> w = v" by (auto simp: storefront_def)
    with v show ?thesis
      by (simp add: create_item_cases Let_def True index_paid_look [OF h assms(3)] look2 look1 TTL_def)
  next
    case False
    then show ?thesis by (simp add: create_item_cases Let_def look2 look1)
  qed
qed

lemma secret_typed_create_item:
  assumes "secret_typed R s" and "slug_ok x" and "0 < t"
  shows "secret_typed R (create_item R k x stamps t d s)"
proof -
  note ty = secret_typed_create [OF assms, of k d]
  have ty2: "secret_typed R (increment_created_count R (s_workspace_id d) (secret_create R k x t d s))"
    using secret_typedD [OF ty] by (intro secret_typedI) (simp_all add: increment_created_look [OF ty])
  have "secret_typed R (index_paid_secret R w x e t
      (increment_created_count R (s_workspace_id d) (secret_create R k x t d s)))" for w e
    using secret_typedD [OF ty2] assms(3) by (intro secret_typedI) (simp_all add: index_paid_look)
  with ty2 show ?thesis by (simp add: create_item_cases Let_def)
qed

subsection \<open>Reading\<close>

lemma secret_fetch_value:
  "fst (secret_fetch R k x s) = parse_secret_reply (cell_str (look R s (secret_key k x)))"
  using value_GETDEL by (simp add: secret_fetch_def case_prod_unfold)

lemma secret_fetch_look:
  "look R (snd (secret_fetch R k x s)) q = (if q = secret_key k x then None else look R s q)"
  using look_GETDEL by (simp add: secret_fetch_def case_prod_unfold)

lemma peek_value: "secret_peek R k x s = fst (secret_fetch R k x s)"
  by (simp add: secret_fetch_value secret_peek_def GET_def)

lemma parse_secret_reply_None [simp]: "parse_secret_reply None = Inr None"
  by (simp add: parse_secret_reply_def)

lemma parse_secret_reply_entry [simp]: "parse_secret_reply (Some (secret_entry d)) = Inr (Some d)"
  by (simp add: parse_secret_reply_def)

subsection \<open>The storefront index\<close>

lemma look_HDELS_other: "is_hash (look R s k) \<Longrightarrow> q \<noteq> k \<Longrightarrow> look R (HDELS R k fs s) q = look R s q"
  by (induction fs arbitrary: s) (simp_all add: HDELS_def look_HDEL)

lemma HDELS_hash:
  "is_hash (look R s k) \<Longrightarrow> is_hash (look R (HDELS R k fs s) k) \<and>
    cell_hash (look R (HDELS R k fs s) k) = (\<lambda>f. if f \<in> set fs then None else cell_hash (look R s k) f)"
proof (induction fs arbitrary: s)
  case Nil
  then show ?case by (simp add: HDELS_def)
next
  case (Cons f fs)
  have h: "is_hash (look R (HDEL R k f s) k)"
    "cell_hash (look R (HDEL R k f s) k) = (cell_hash (look R s k))(f := None)"
    using Cons.prems by (simp_all add: look_HDEL)
  from Cons.IH [OF h(1)] h(2) show ?case by (auto simp: HDELS_def fun_eq_iff)
qed

lemma HDELS_gone: "look R s k = None \<Longrightarrow> look R (HDELS R k fs s) k = None"
  by (induction fs arbitrary: s) (simp_all add: HDELS_def look_HDEL)

lemma HDELS_ttl:
  "is_hash (look R s k) \<Longrightarrow> look R (HDELS R k fs s) k \<noteq> None \<Longrightarrow>
    cell_ttl (look R (HDELS R k fs s) k) = cell_ttl (look R s k)"
proof (induction fs arbitrary: s)
  case Nil
  then show ?case by (simp add: HDELS_def)
next
  case (Cons f fs)
  have step: "HDELS R k (f # fs) s = HDELS R k fs (HDEL R k f s)" by (simp add: HDELS_def)
  have "look R (HDEL R k f s) k \<noteq> None"
  proof
    assume "look R (HDEL R k f s) k = None"
    from HDELS_gone [OF this] show False using Cons.prems(2) by (simp add: step)
  qed
  then have t: "cell_ttl (look R (HDEL R k f s) k) = cell_ttl (look R s k)"
    using Cons.prems(1) by (auto simp: look_HDEL)
  have h: "is_hash (look R (HDEL R k f s) k)" using Cons.prems(1) by (simp add: look_HDEL)
  show ?case using Cons.IH [OF h] Cons.prems(2) t unfolding step by simp
qed

lemma list_paid_look:
  assumes "is_hash (look R s (paid_secrets_key w))"
  shows "q \<noteq> paid_secrets_key w \<Longrightarrow> look R (snd (list_paid_secrets R w s)) q = look R s q"
    and "is_hash (look R (snd (list_paid_secrets R w s)) (paid_secrets_key w))"
  using look_HDELS_other [OF assms] HDELS_hash [OF assms] assms
  by (auto simp: list_paid_secrets_def Let_def split: sum.splits)

lemma load_all_set: "load_all ps = Inr js \<Longrightarrow> set js = {j. \<exists>p \<in> set ps. json_loads p = Some j}"
  by (induction ps arbitrary: js) (auto simp: bind_sum_Inr_iff split: option.splits)

text \<open>What is listed: exactly the indexed items whose secret is still stored.\<close>

lemma list_paid_value:
  assumes "fst (list_paid_secrets R w s) = Inr js"
  shows "set js = {j. \<exists>x p. HGET R (paid_secrets_key w) x s = Some p \<and>
      look R s (secret_key Secret_Kind x) \<noteq> None \<and> json_loads p = Some j}"
proof -
  let ?es = "HGETALL R (paid_secrets_key w) s"
  let ?live = "filter (\<lambda>(x, _). EXISTS R (secret_key Secret_Kind x) s) ?es"
  have "load_all (map snd ?live) = Inr js"
    using assms by (auto simp: list_paid_secrets_def Let_def split: sum.splits if_splits)
  from load_all_set [OF this] show ?thesis
    by (auto simp: set_HGETALL EXISTS_def)
qed

subsection \<open>Steps keep the types\<close>

lemma pay_secret_look:
  assumes "is_set (look R s (secret_payment_token_key x))"
  shows "q \<noteq> secret_payment_token_key x \<Longrightarrow> look R (store_secret_payment_token R x h t fp s) q = look R s q"
    and "is_set (look R (store_secret_payment_token R x h t fp s) (secret_payment_token_key x))"
proof -
  show "look R (store_secret_payment_token R x h t fp s) q = look R s q"
    if "q \<noteq> secret_payment_token_key x"
    using assms that by (simp add: store_secret_payment_token_def Let_def)
  show "is_set (look R (store_secret_payment_token R x h t fp s) (secret_payment_token_key x))"
    using assms by (cases "0 < t") (simp_all add: store_secret_payment_token_def Let_def)
qed

lemma claim_secret_look:
  "look R (snd (claim_secret_checkout_token R C x cs s)) q =
    (if q = secret_checkout_token_key x cs then None else look R s q)"
  using look_GETDEL value_GETDEL
  by (auto simp: claim_secret_checkout_token_def case_prod_unfold split: option.splits payload.splits)

lemma checkout_secret_look:
  "look R (store_secret_checkout_payment_token R C x cs tok s) q =
    (if q = secret_checkout_token_key x cs then Some (RStr (Text (encrypt_token C tok)), Some 900)
     else look R s q)"
  by (simp add: store_secret_checkout_payment_token_def SECRET_CHECKOUT_TOKEN_TTL_def)

lemma is_counter_rset: "is_set c \<Longrightarrow> is_set (age d c)" for c
  by (cases rule: age_cases [of d c]; cases c rule: is_set.cases) auto

lemma is_hash_age: "is_hash c \<Longrightarrow> is_hash (age d c)"
  by (cases rule: age_cases [of d c]; cases c rule: is_hash.cases) auto

lemma secret_typed_step:
  assumes ty: "secret_typed R s" and "secret_op_ok y"
  shows "secret_typed R (secret_step R C y s)"
proof (cases y)
  case (Pass_Time d)
  then show ?thesis using secret_typedD [OF ty]
    by (intro secret_typedI) (simp_all add: is_counter_rset is_hash_age)
next
  case (Create_Item k x stamps t d)
  then show ?thesis using secret_typed_create_item [OF ty] assms(2) by simp
next
  case (Fetch_Item k x)
  then show ?thesis using secret_typedD [OF ty] assms(2)
    by (intro secret_typedI) (simp_all add: secret_fetch_look)
next
  case (List_Paid w)
  have "is_hash (look R (snd (list_paid_secrets R w s)) (paid_secrets_key v))" for v
    using secret_typedD(5) [OF ty] list_paid_look [of s w] by (cases "v = w") simp_all
  then show ?thesis using secret_typedD [OF ty] List_Paid
    by (intro secret_typedI) (simp_all add: list_paid_look)
next
  case (Count_No_Server w)
  then show ?thesis using secret_typedD [OF ty]
    by (intro secret_typedI) (simp_all add: increment_no_server_look [OF ty])
next
  case (Pay_Secret x h t fp)
  have "is_set (look R (store_secret_payment_token R x h t fp s) (secret_payment_token_key v))" for v
    using secret_typedD(6) [OF ty] pay_secret_look [of s x] by (cases "v = x") simp_all
  then show ?thesis using secret_typedD [OF ty] Pay_Secret
    by (intro secret_typedI) (simp_all add: pay_secret_look)
next
  case (Checkout_Secret x cs tok)
  then show ?thesis using secret_typedD [OF ty]
    by (intro secret_typedI) (simp_all add: checkout_secret_look)
next
  case (Claim_Secret x cs)
  then show ?thesis using secret_typedD [OF ty]
    by (intro secret_typedI) (simp_all add: claim_secret_look)
qed

subsection \<open>An item is handed out at most once\<close>

lemma leaves_look:
  assumes ty: "secret_typed R s" and "secret_op_ok y" and "slug_ok x" and "leaves k x y"
  shows "look R (secret_step R C y s) (secret_key k x) = wait_age y (look R s (secret_key k x))"
  using assms(2-4) secret_typedD [OF ty]
  by (cases y) (auto simp: leaves_def creates_def create_item_look(1) [OF ty] secret_fetch_look list_paid_look
      increment_no_server_look [OF ty] pay_secret_look checkout_secret_look claim_secret_look)

lemma hands_out_look:
  assumes "hands_out R k x y s"
  shows "look R s (secret_key k x) \<noteq> None" and "look R (secret_step R C y s) (secret_key k x) = None"
proof -
  show "look R s (secret_key k x) \<noteq> None"
    using assms by (cases "look R s (secret_key k x)") (simp_all add: hands_out_def secret_fetch_value)
  show "look R (secret_step R C y s) (secret_key k x) = None"
    using assms by (auto simp: hands_out_def secret_fetch_look)
qed

lemma wait_age_None [simp]: "wait_age y None = None"
  by (cases y) simp_all

lemma handed_out_bound:
  assumes "secret_typed R s" and "slug_ok x" and "list_all secret_op_ok ys"
    and "list_all (\<lambda>y. \<not> creates k x y) ys"
  shows "handed_out R C k x ys s \<le> (if look R s (secret_key k x) = None then 0 else 1)"
  using assms(1,3,4)
proof (induction ys arbitrary: s)
  case Nil
  then show ?case by simp
next
  case (Cons y ys)
  let ?s = "secret_step R C y s"
  have y: "secret_op_ok y" "\<not> creates k x y" using Cons.prems by auto
  have IH: "handed_out R C k x ys ?s \<le> (if look R ?s (secret_key k x) = None then 0 else 1)"
    using Cons.IH [OF secret_typed_step [OF Cons.prems(1) y(1)]] Cons.prems(2,3) by simp
  show ?case
  proof (cases "hands_out R k x y s")
    case True
    then show ?thesis using hands_out_look(1) [OF True] hands_out_look(2) [OF True, of C] IH by simp
  next
    case False
    have "look R ?s (secret_key k x) = None" if "look R s (secret_key k x) = None"
    proof (cases "y = Fetch_Item k x")
      case True
      then show ?thesis using that by (simp add: secret_fetch_look)
    next
      case False
      then show ?thesis
        using that leaves_look [OF Cons.prems(1) y(1) assms(2)] y(2) by (simp add: leaves_def)
    qed
    then show ?thesis using IH False by (auto split: if_splits)
  qed
qed

lemma untouched_gone:
  assumes "secret_typed R s" and "slug_ok x" and "list_all secret_op_ok ys" and "list_all (leaves k x) ys"
    and "look R s (secret_key k x) = None"
  shows "look R (secret_run R C ys s) (secret_key k x) = None"
  using assms(1,3-5)
  by (induction ys arbitrary: s) (simp_all add: secret_typed_step leaves_look [OF _ _ assms(2)])

lemma untouched_run:
  assumes "secret_typed R s" and "slug_ok x" and "list_all secret_op_ok ys" and "list_all (leaves k x) ys"
    and "look R s (secret_key k x) = Some (v, Some t)" and "0 < t"
  shows "look R (secret_run R C ys s) (secret_key k x) =
    (if duration ys < t then Some (v, Some (t - duration ys)) else None)"
  using assms(1,3-6)
proof (induction ys arbitrary: s t)
  case Nil
  then show ?case by simp
next
  case (Cons y ys)
  have prems: "secret_op_ok y" "leaves k x y" "list_all secret_op_ok ys" "list_all (leaves k x) ys"
    using Cons.prems by auto
  note ty = secret_typed_step [OF Cons.prems(1) prems(1), of C]
  note l = leaves_look [OF Cons.prems(1) prems(1) assms(2) prems(2), of C]
  show ?case
  proof (cases y)
    case (Pass_Time d)
    show ?thesis
    proof (cases "d < t")
      case True
      then show ?thesis
        using Cons.IH [OF ty prems(3,4), of "t - d"] l Cons.prems(4) Pass_Time by auto
    next
      case False
      then show ?thesis
        using untouched_gone [OF ty assms(2) prems(3,4), of C] l Cons.prems(4) Pass_Time by simp
    qed
  qed (use Cons.IH [OF ty prems(3,4), of t] l Cons.prems(4,5) in simp_all)
qed

end

subsection \<open>The storefront\<close>

text \<open>Every index entry is the one its own item was given.\<close>

definition index_keyed :: "'s redis \<Rightarrow> 's \<Rightarrow> bool" where
  "index_keyed R s = (\<forall>w x p. cell_hash (look R s (paid_secrets_key w)) x = Some p \<longrightarrow>
     (\<exists>ti pr cu ca ex. p = paid_entry x ti pr cu ca ex))"

text \<open>Item \<open>x\<close> is indexed under \<open>w\<close>, and the index lives at least \<open>t\<close> more seconds.\<close>

definition listed :: "'s redis \<Rightarrow> string \<Rightarrow> string \<Rightarrow> payload \<Rightarrow> nat \<Rightarrow> 's \<Rightarrow> bool" where
  "listed R w x e t s =
     (cell_hash (look R s (paid_secrets_key w)) x = Some e \<and>
      (\<exists>u. cell_ttl (look R s (paid_secrets_key w)) = Some u \<and> t \<le> u))"

context redis_server
begin

lemma index_keyed_same:
  assumes "index_keyed R s"
    and "\<And>w x p. cell_hash (look R s' (paid_secrets_key w)) x = Some p \<Longrightarrow>
           cell_hash (look R s (paid_secrets_key w)) x = Some p"
  shows "index_keyed R s'"
  using assms unfolding index_keyed_def by blast

lemma cell_hash_age: "cell_hash (age d c) x = Some p \<Longrightarrow> cell_hash c x = Some p"
  by (cases c rule: cell_hash.cases; cases rule: age_cases [of d c]) auto

lemma list_paid_state:
  obtains fs where "snd (list_paid_secrets R w s) = HDELS R (paid_secrets_key w) fs s"
    and "\<And>x. x \<in> set fs \<longleftrightarrow> (\<exists>js. fst (list_paid_secrets R w s) = Inr js) \<and>
       look R s (secret_key Secret_Kind x) = None \<and>
       cell_hash (look R s (paid_secrets_key w)) x \<noteq> None"
proof -
  let ?es = "HGETALL R (paid_secrets_key w) s"
  let ?stale = "map fst (filter (\<lambda>(x, _). \<not> EXISTS R (secret_key Secret_Kind x) s) ?es)"
  have st: "x \<in> set ?stale \<longleftrightarrow>
      look R s (secret_key Secret_Kind x) = None \<and> cell_hash (look R s (paid_secrets_key w)) x \<noteq> None" for x
  proof -
    have "x \<in> set ?stale \<longleftrightarrow> (\<exists>v. (x, v) \<in> set ?es) \<and> \<not> EXISTS R (secret_key Secret_Kind x) s"
      by (auto simp: image_iff)
    then show ?thesis
      by (cases "look R s (secret_key Secret_Kind x)") (auto simp: set_HGETALL EXISTS_def HGET_look)
  qed
  let ?fs = "if \<exists>js. fst (list_paid_secrets R w s) = Inr js then ?stale else []"
  have "snd (list_paid_secrets R w s) = HDELS R (paid_secrets_key w) ?fs s"
    by (auto simp: list_paid_secrets_def Let_def HDELS_def split: sum.splits)
  then show thesis using st by (intro that [of ?fs]) auto
qed

lemma list_paid_hash:
  assumes "is_hash (look R s (paid_secrets_key w))"
  shows "cell_hash (look R (snd (list_paid_secrets R w s)) (paid_secrets_key v)) x =
    (if v = w \<and> look R s (secret_key Secret_Kind x) = None \<and> (\<exists>js. fst (list_paid_secrets R w s) = Inr js)
     then None else cell_hash (look R s (paid_secrets_key v)) x)"
proof -
  obtain fs where fs: "snd (list_paid_secrets R w s) = HDELS R (paid_secrets_key w) fs s"
    "\<And>x. x \<in> set fs \<longleftrightarrow> (\<exists>js. fst (list_paid_secrets R w s) = Inr js) \<and>
       look R s (secret_key Secret_Kind x) = None \<and> cell_hash (look R s (paid_secrets_key w)) x \<noteq> None"
    using list_paid_state [of w s] by metis
  show ?thesis
  proof (cases "v = w")
    case True
    have "cell_hash (look R (snd (list_paid_secrets R w s)) (paid_secrets_key w)) x =
        (if x \<in> set fs then None else cell_hash (look R s (paid_secrets_key w)) x)"
      using HDELS_hash [OF assms, of fs] fs(1) by simp
    then show ?thesis unfolding fs(2) True by (auto simp del: not_None_eq)
  next
    case False
    then show ?thesis using look_HDELS_other [OF assms] fs(1) by simp
  qed
qed

lemma list_paid_ttl:
  assumes "is_hash (look R s (paid_secrets_key w))"
    and "look R (snd (list_paid_secrets R w s)) (paid_secrets_key v) \<noteq> None"
  shows "cell_ttl (look R (snd (list_paid_secrets R w s)) (paid_secrets_key v)) =
     cell_ttl (look R s (paid_secrets_key v))"
proof -
  obtain fs where fs: "snd (list_paid_secrets R w s) = HDELS R (paid_secrets_key w) fs s"
    using list_paid_state [of w s] by metis
  show ?thesis
  proof (cases "v = w")
    case True
    then show ?thesis using HDELS_ttl [OF assms(1)] assms(2) unfolding fs by blast
  next
    case False
    then show ?thesis unfolding fs using look_HDELS_other [OF assms(1)] by simp
  qed
qed

text \<open>What every step does to one index entry.\<close>

lemma step_paid:
  assumes ty: "secret_typed R s" and "secret_op_ok y" and "\<not> indexing y"
  shows "look R (secret_step R C y s) (paid_secrets_key w) = wait_age y (look R s (paid_secrets_key w))"
  using assms(2,3)
  by (cases y) (auto simp: secret_fetch_look increment_no_server_look [OF ty]
      pay_secret_look secret_typedD(6) [OF ty] checkout_secret_look claim_secret_look)

lemma index_keyed_step:
  assumes ty: "secret_typed R s" and "index_keyed R s" and "secret_op_ok y"
  shows "index_keyed R (secret_step R C y s)"
proof (cases "indexing y")
  case False
  show ?thesis
  proof (rule index_keyed_same [OF assms(2)])
    fix w x p
    assume "cell_hash (look R (secret_step R C y s) (paid_secrets_key w)) x = Some p"
    moreover have "look R (secret_step R C y s) (paid_secrets_key w) = wait_age y (look R s (paid_secrets_key w))"
      using step_paid [OF ty assms(3)] False by blast
    ultimately show "cell_hash (look R s (paid_secrets_key w)) x = Some p"
      by (cases y) (auto dest: cell_hash_age)
  qed
next
  case True
  then show ?thesis
  proof (cases rule: indexing_cases)
    fix v assume y: "y = List_Paid v"
    show ?thesis
      by (rule index_keyed_same [OF assms(2)])
         (simp add: y list_paid_hash [OF secret_typedD(5) [OF ty]] split: if_splits)
  next
    fix k x' st t d assume y: "y = Create_Item k x' st t d"
    then have ok: "slug_ok x'" "0 < t" using assms(3) by simp_all
    show ?thesis
      unfolding index_keyed_def y secret_step.simps create_item_look(2) [OF ty ok]
      using assms(2) unfolding index_keyed_def by auto blast
  qed
qed

lemma cell_hash_Some: "cell_hash (Some (v, t)) = (case v of RHash m \<Rightarrow> m | _ \<Rightarrow> (\<lambda>_. None))"
  by (cases v) simp_all

lemma listed_step:
  assumes ty: "secret_typed R s" and "secret_op_ok y" and l: "leaves Secret_Kind x y" "\<not> creates File_Kind x y"
    and "listed R w x e t s" and "look R s (secret_key Secret_Kind x) \<noteq> None"
    and "duration [y] < t"
  shows "listed R w x e (t - duration [y]) (secret_step R C y s)"
proof (cases "indexing y")
  case False
  then have "look R (secret_step R C y s) (paid_secrets_key w) = wait_age y (look R s (paid_secrets_key w))"
    using step_paid [OF ty assms(2)] by blast
  then show ?thesis using assms(5,7)
    by (cases y; cases "look R s (paid_secrets_key w)" rule: cell_ttl.cases)
       (auto simp: listed_def cell_hash_Some)
next
  case True
  then show ?thesis
  proof (cases rule: indexing_cases)
    fix v assume y: "y = List_Paid v"
    have h: "cell_hash (look R (secret_step R C y s) (paid_secrets_key w)) x = Some e"
      using assms(5,6) by (simp add: y listed_def list_paid_hash [OF secret_typedD(5) [OF ty]])
    then have "look R (secret_step R C y s) (paid_secrets_key w) \<noteq> None"
      by (cases "look R (secret_step R C y s) (paid_secrets_key w)") simp_all
    with list_paid_ttl [OF secret_typedD(5) [OF ty]] h assms(5) show ?thesis
      by (simp add: listed_def y)
  next
    fix k x' st t' d assume y: "y = Create_Item k x' st t' d"
    then have ok: "slug_ok x'" "0 < t'" and "x' \<noteq> x"
      using assms(2) l by (cases k; auto simp: leaves_def creates_def)+
    then show ?thesis using assms(5) l(1) y
      by (cases "look R s (paid_secrets_key w)" rule: cell_ttl.cases)
         (auto simp: listed_def create_item_look(2) [OF ty ok] TTL_def cell_hash_Some)
  qed
qed

lemma load_all_Inr: "(\<forall>p \<in> set ps. json_loads p \<noteq> None) \<Longrightarrow> \<exists>js. load_all ps = Inr js"
  by (induction ps) auto

lemma paid_entry_loads [simp]: "\<exists>j. json_loads (paid_entry x ti pr cu ca ex) = Some j"
  by (simp add: paid_entry_def)

lemma list_paid_Inr:
  assumes "index_keyed R s"
  obtains js where "fst (list_paid_secrets R w s) = Inr js"
proof -
  let ?ps = "map snd (filter (\<lambda>(x, _). EXISTS R (secret_key Secret_Kind x) s)
      (HGETALL R (paid_secrets_key w) s))"
  have "json_loads p \<noteq> None" if "p \<in> set ?ps" for p
  proof -
    from that obtain x where "cell_hash (look R s (paid_secrets_key w)) x = Some p"
      by (auto simp: set_HGETALL HGET_look)
    with assms obtain ti pr cu ca ex where "p = paid_entry x ti pr cu ca ex"
      unfolding index_keyed_def by blast
    then show ?thesis by (simp add: paid_entry_def)
  qed
  then obtain js where "load_all ?ps = Inr js" using load_all_Inr [of ?ps] by blast
  then have "fst (list_paid_secrets R w s) = Inr (if HGETALL R (paid_secrets_key w) s = [] then [] else js)"
    by (simp add: list_paid_secrets_def Let_def)
  then show thesis by (rule that)
qed

lemma listed_run:
  assumes "secret_typed R s" and "slug_ok x" and "list_all secret_op_ok ys"
    and "list_all (leaves Secret_Kind x) ys" and "list_all (\<lambda>y. \<not> creates File_Kind x y) ys"
    and "listed R w x e t s" and "look R s (secret_key Secret_Kind x) = Some (v, Some t)"
    and "duration ys < t"
  shows "listed R w x e (t - duration ys) (secret_run R C ys s)"
  using assms(1,3-8)
proof (induction ys arbitrary: s t)
  case Nil
  then show ?case by simp
next
  case (Cons y ys)
  have prems: "secret_op_ok y" "leaves Secret_Kind x y" "\<not> creates File_Kind x y"
    "list_all secret_op_ok ys" "list_all (leaves Secret_Kind x) ys"
    "list_all (\<lambda>y. \<not> creates File_Kind x y) ys"
    using Cons.prems by auto
  have d: "duration (y # ys) = duration [y] + duration ys" by (cases y) simp_all
  have lt: "duration [y] < t" "duration ys < t - duration [y]" using Cons.prems(7) d by auto
  note ty = secret_typed_step [OF Cons.prems(1) prems(1), of C]
  have "look R (secret_step R C y s) (secret_key Secret_Kind x) = Some (v, Some (t - duration [y]))"
    using leaves_look [OF Cons.prems(1) prems(1) assms(2) prems(2), of C] Cons.prems(6) lt(1)
    by (cases y) simp_all
  moreover have "listed R w x e (t - duration [y]) (secret_step R C y s)"
    using listed_step [OF Cons.prems(1) prems(1-3) Cons.prems(5) _ lt(1)] Cons.prems(6) by simp
  ultimately have "listed R w x e (t - duration [y] - duration ys) (secret_run R C ys (secret_step R C y s))"
    using Cons.IH [OF ty prems(4-6)] lt(2) by blast
  then show ?case using d by (simp add: diff_diff_eq del: duration.simps)
qed

lemma index_keyed_run:
  "secret_typed R s \<Longrightarrow> index_keyed R s \<Longrightarrow> list_all secret_op_ok ys \<Longrightarrow>
    secret_typed R (secret_run R C ys s) \<and> index_keyed R (secret_run R C ys s)"
  by (induction ys arbitrary: s) (simp_all add: secret_typed_step index_keyed_step)

lemma create_item_listed:
  assumes ty: "secret_typed R s" and "slug_ok x" and "0 < t" and "storefront d w"
  shows "listed R w x (paid_entry x (s_title d) (the (s_price_cents d)) (s_currency d) (fst stamps) (snd stamps))
     (nat t) (create_item R k x stamps t d s)"
  using assms(3,4) create_item_look(2) [OF assms(1-3), of k stamps d w]
  by (cases "look R s (paid_secrets_key w)" rule: cell_ttl.cases)
     (auto simp: listed_def TTL_def split: option.splits)

lemma storefront_lists:
  assumes ty: "secret_typed R s" and "index_keyed R s" and x: "slug_ok x" "0 < t" and "storefront d w"
    and ys: "list_all secret_op_ok ys" "list_all (leaves Secret_Kind x) ys"
      "list_all (\<lambda>y. \<not> creates File_Kind x y) ys"
    and "int (duration ys) < t"
    and s': "s' = secret_run R C ys (create_item R Secret_Kind x stamps t d s)"
  shows "\<exists>js j. fst (list_paid_secrets R w s') = Inr js \<and> j \<in> set js \<and>
     Doc j = paid_entry x (s_title d) (the (s_price_cents d)) (s_currency d) (fst stamps) (snd stamps)"
proof -
  let ?s = "create_item R Secret_Kind x stamps t d s"
  let ?e = "paid_entry x (s_title d) (the (s_price_cents d)) (s_currency d) (fst stamps) (snd stamps)"
  have ok: "secret_op_ok (Create_Item Secret_Kind x stamps t d)" using x by simp
  have ty1: "secret_typed R ?s" "index_keyed R ?s"
    using secret_typed_step [OF ty ok] index_keyed_step [OF ty assms(2) ok] by simp_all
  note run = index_keyed_run [OF ty1 ys(1), of C]
  have c: "look R ?s (secret_key Secret_Kind x) = Some (RStr (secret_entry d), Some (nat t))"
    by (simp add: create_item_look(1) [OF ty x])
  have lt: "duration ys < nat t" using assms(9) by simp
  have "listed R w x ?e (nat t - duration ys) s'"
    unfolding s' by (rule listed_run [OF ty1(1) x(1) ys create_item_listed [OF ty x assms(5)] c lt])
  then have h: "HGET R (paid_secrets_key w) x s' = Some ?e" by (simp add: listed_def HGET_look)
  have "look R s' (secret_key Secret_Kind x) \<noteq> None"
    unfolding s' using untouched_run [OF ty1(1) x(1) ys(1,2) c] x(2) lt by simp
  moreover obtain js where js: "fst (list_paid_secrets R w s') = Inr js"
    using list_paid_Inr run s' by metis
  moreover obtain j where "json_loads ?e = Some j" and "Doc j = ?e" by (simp add: paid_entry_def)
  ultimately show ?thesis using h list_paid_value [OF js] by blast
qed

text \<open>A priced file is indexed like a secret, but a listing only keeps stored secrets.\<close>

lemma paid_file_unlisted:
  assumes ty: "secret_typed R s" and "index_keyed R s" and x: "slug_ok x" "0 < t" and "storefront d w"
    and "look R s (secret_key Secret_Kind x) = None"
    and s': "s' = create_item R File_Kind x stamps t d s"
  shows "HGET R (paid_secrets_key w) x s' =
      Some (paid_entry x (s_title d) (the (s_price_cents d)) (s_currency d) (fst stamps) (snd stamps))"
    and "secret_peek R File_Kind x s' = Inr (Some d)"
    and "\<exists>js. fst (list_paid_secrets R w s') = Inr js \<and>
       (\<forall>j \<in> set js. \<forall>ti pr cu ca ex. Doc j \<noteq> paid_entry x ti pr cu ca ex)"
    and "HGET R (paid_secrets_key w) x (snd (list_paid_secrets R w s')) = None"
proof -
  have ok: "secret_op_ok (Create_Item File_Kind x stamps t d)" using x by simp
  have ty1: "secret_typed R s'" "index_keyed R s'"
    using secret_typed_step [OF ty ok] index_keyed_step [OF ty assms(2) ok] s' by simp_all
  obtain js where js: "fst (list_paid_secrets R w s') = Inr js" using list_paid_Inr [OF ty1(2)] by metis
  have gone: "look R s' (secret_key Secret_Kind x) = None"
    using assms(6) by (simp add: s' create_item_look(1) [OF ty x])
  show "HGET R (paid_secrets_key w) x s' =
      Some (paid_entry x (s_title d) (the (s_price_cents d)) (s_currency d) (fst stamps) (snd stamps))"
    using assms(5) by (simp add: HGET_look s' create_item_look(2) [OF ty x])
  show "secret_peek R File_Kind x s' = Inr (Some d)"
    by (simp add: peek_value secret_fetch_value s' create_item_look(1) [OF ty x])
  show "HGET R (paid_secrets_key w) x (snd (list_paid_secrets R w s')) = None"
    using gone js by (simp add: HGET_look list_paid_hash [OF secret_typedD(5) [OF ty1(1)]])
  have "Doc j \<noteq> paid_entry x ti pr cu ca ex" if jin: "j \<in> set js" for j ti pr cu ca ex
  proof
    assume e: "Doc j = paid_entry x ti pr cu ca ex"
    obtain x' p where p: "HGET R (paid_secrets_key w) x' s' = Some p" "json_loads p = Some j"
      "look R s' (secret_key Secret_Kind x') \<noteq> None"
      using jin unfolding list_paid_value [OF js] mem_Collect_eq by metis
    obtain ti' pr' cu' ca' ex' where "p = paid_entry x' ti' pr' cu' ca' ex'"
      using p(1) ty1(2) unfolding index_keyed_def HGET_look by metis
    with p(2) e have "x' = x" by (simp add: paid_entry_def)
    with p(3) gone show False by simp
  qed
  then show "\<exists>js. fst (list_paid_secrets R w s') = Inr js \<and>
       (\<forall>j \<in> set js. \<forall>ti pr cu ca ex. Doc j \<noteq> paid_entry x ti pr cu ca ex)"
    using js by (intro exI [of _ js] conjI ballI allI)
qed

end

subsection \<open>Counters seeded from the database\<close>

text \<open>
  The channel totals, global and per workspace, are bumped by every creation and seeded
  once from a database count. The contract of such a counter, and what follows for any
  interleaving of bumps and seeds: no bump is lost, the first seed adds its baseline, the
  later ones change nothing.
\<close>

datatype counter_op = Bump | Seed int

fun counter_run :: "('s \<Rightarrow> 's) \<Rightarrow> (int \<Rightarrow> 's \<Rightarrow> bool \<times> 's) \<Rightarrow> counter_op list \<Rightarrow> 's \<Rightarrow> 's" where
  "counter_run bump seed [] s = s"
| "counter_run bump seed (Bump # xs) s = counter_run bump seed xs (bump s)"
| "counter_run bump seed (Seed b # xs) s = counter_run bump seed xs (snd (seed b s))"

fun bumps :: "counter_op list \<Rightarrow> int" where
  "bumps [] = 0"
| "bumps (Bump # xs) = 1 + bumps xs"
| "bumps (Seed b # xs) = bumps xs"

fun first_seed :: "counter_op list \<Rightarrow> int" where
  "first_seed [] = 0"
| "first_seed (Bump # xs) = first_seed xs"
| "first_seed (Seed b # xs) = b"

locale seeded_counter =
  fixes total :: "'s \<Rightarrow> int" and initialized :: "'s \<Rightarrow> bool" and ok :: "'s \<Rightarrow> bool"
    and bump :: "'s \<Rightarrow> 's" and seed :: "int \<Rightarrow> 's \<Rightarrow> bool \<times> 's"
  assumes ok_bump: "ok s \<Longrightarrow> ok (bump s)" and ok_seed: "ok s \<Longrightarrow> ok (snd (seed b s))"
    and total_bump: "ok s \<Longrightarrow> total (bump s) = total s + 1"
    and initialized_bump: "ok s \<Longrightarrow> initialized (bump s) = initialized s"
    and seed_won: "fst (seed b s) = (\<not> initialized s)"
    and total_seed: "ok s \<Longrightarrow> total (snd (seed b s)) = (if initialized s then total s else total s + b)"
    and initialized_seed: "ok s \<Longrightarrow> initialized (snd (seed b s))"
begin

lemma total_run:
  "ok s \<Longrightarrow> total (counter_run bump seed xs s) =
     total s + bumps xs + (if initialized s then 0 else first_seed xs)"
proof (induction xs arbitrary: s)
  case Nil
  then show ?case by simp
next
  case (Cons x xs)
  then show ?case
    by (cases x)
       (simp_all add: ok_bump ok_seed total_bump initialized_bump total_seed initialized_seed)
qed

end

context redis_server
begin

lemma cell_str_count: "is_counter c \<Longrightarrow>
    (case cell_str c of None \<Rightarrow> 0 | Some (Text t) \<Rightarrow> 0 | Some (Number n) \<Rightarrow> n | Some (Doc j) \<Rightarrow> 0) = cell_count c"
  by (cases c rule: is_counter.cases) auto

lemma read_count_look: "is_counter (look R s k) \<Longrightarrow> read_count R k s = cell_count (look R s k)"
  by (simp add: read_count_def GET_def cell_str_count)

lemma seed_workspace_keys [simp]:
  "workspace_channels_init_key w \<noteq> workspace_channels_key w"
  "workspace_channels_key w \<noteq> workspace_channels_init_key w"
proof -
  have "length (workspace_channels_init_key w) \<noteq> length (workspace_channels_key w)"
    by (simp add: workspace_channels_init_key_def workspace_channels_key_def)
  then show "workspace_channels_init_key w \<noteq> workspace_channels_key w"
    "workspace_channels_key w \<noteq> workspace_channels_init_key w" by metis+
qed

end

sublocale redis_server \<subseteq> channels_total: seeded_counter
  "get_channels_total R" "channels_total_initialized R" "\<lambda>s. is_counter (look R s CHANNELS_TOTAL_KEY)"
  "increment_channels_total R" "seed_channels_total_if_needed R"
  by unfold_locales
     (auto simp: get_channels_total_def channels_total_initialized_def increment_channels_total_def
       seed_channels_total_if_needed_def read_count_look EXISTS_def case_prod_unfold)

sublocale redis_server \<subseteq> workspace_channels: seeded_counter
  "get_workspace_channels_total R w" "workspace_channels_initialized R w"
  "\<lambda>s. is_counter (look R s (workspace_channels_key w))"
  "increment_workspace_channels_total R w" "seed_workspace_channels_total_if_needed R w" for w
  by unfold_locales
     (auto simp: get_workspace_channels_total_def workspace_channels_initialized_def
       increment_workspace_channels_total_def seed_workspace_channels_total_if_needed_def
       read_count_look EXISTS_def case_prod_unfold)

context redis_server
begin

lemma secret_typed_none: "(\<And>k. look R s k = None) \<Longrightarrow> secret_typed R s"
  by (intro secret_typedI) simp_all

lemma index_keyed_none: "(\<And>k. look R s k = None) \<Longrightarrow> index_keyed R s"
  by (simp add: index_keyed_def)

lemma handed_out_once:
  assumes "secret_typed R s" and "slug_ok x" and "0 < t"
    and "list_all secret_op_ok ys" and "list_all (\<lambda>y. \<not> creates k x y) ys"
  shows "handed_out R C k x ys (create_item R k x stamps t d s) \<le> 1"
  using handed_out_bound [OF secret_typed_create_item [OF assms(1-3), of k stamps d] assms(2,4,5), of C]
  by (simp split: if_splits)

lemma item_lifetime:
  assumes "secret_typed R s" and "slug_ok x" and "0 < t"
    and "list_all secret_op_ok ys" and "list_all (leaves k x) ys"
    and "s' = secret_run R C ys (create_item R k x stamps t d s)"
  shows "secret_peek R k x s' = (if int (duration ys) < t then Inr (Some d) else Inr None)"
    and "fst (secret_fetch R k x s') = secret_peek R k x s'"
    and "secret_peek R k x (snd (secret_fetch R k x s')) = Inr None"
proof -
  have c: "look R (create_item R k x stamps t d s) (secret_key k x) = Some (RStr (secret_entry d), Some (nat t))"
    by (simp add: create_item_look(1) [OF assms(1-3)])
  show "secret_peek R k x s' = (if int (duration ys) < t then Inr (Some d) else Inr None)"
    using untouched_run [OF secret_typed_create_item [OF assms(1-3)] assms(2,4,5) c] assms(3)
    by (auto simp: peek_value secret_fetch_value assms(6))
  show "fst (secret_fetch R k x s') = secret_peek R k x s'" by (simp add: peek_value)
  show "secret_peek R k x (snd (secret_fetch R k x s')) = Inr None"
    by (simp add: peek_value secret_fetch_value secret_fetch_look)
qed

lemmas total_runs = channels_total.total_run workspace_channels.total_run

end

subsection \<open>Properties\<close>

text \<open>
  Property C2: an item is handed out at most once. After an item is created, whatever calls
  follow on any items (reads, listings, payments, other creations, the passing of time), at
  most one read of it is answered with its contents.
\<close>

theorem secret_handed_out_once:
  assumes "redis_server R" and "secret_typed R s" and "slug_ok x" and "0 < t"
    and "list_all secret_op_ok ys" and "list_all (\<lambda>y. \<not> creates k x y) ys"
  shows "handed_out R C k x ys (create_item R k x stamps t d s) \<le> 1"
  by (rule redis_server.handed_out_once [OF assms])

definition sample_secret :: secret_data where
  "sample_secret = \<lparr>s_message = ''ciphertext'', s_price_cents = Some 500, s_currency = ''usd'',
     s_title = Some ''plans'', s_workspace_id = Some ''ws-1'', s_seller_stripe_id = Some ''acct_1''\<rparr>"

theorem secret_handed_out_once_witness:
  "handed_out ref_redis ref_crypto Secret_Kind ''5f-a1''
     [Fetch_Item Secret_Kind ''5f-a1'', Pass_Time 3, Fetch_Item Secret_Kind ''5f-a1'']
     (create_item ref_redis Secret_Kind ''5f-a1'' (''t0'', ''t1'') 60 sample_secret empty_store) \<le> 1"
  by (rule secret_handed_out_once [OF reference_server])
     (simp_all add: reference.secret_typed_none creates_def is_slug_char_def is_lower_alnum_def)

text \<open>
  An item lives exactly as long as it was created for. If no call reads or
  recreates it, its metadata and its contents are the ones it was created with until its
  expiry and are gone from then on; looking at the metadata does not use the item up, and
  the read that returns the contents removes it.
\<close>

theorem secret_item_lifetime:
  assumes "redis_server R" and "secret_typed R s" and "slug_ok x" and "0 < t"
    and "list_all secret_op_ok ys" and "list_all (leaves k x) ys"
    and "s' = secret_run R C ys (create_item R k x stamps t d s)"
  shows "secret_peek R k x s' = (if int (duration ys) < t then Inr (Some d) else Inr None) \<and>
    fst (secret_fetch R k x s') = secret_peek R k x s' \<and>
    secret_peek R k x (snd (secret_fetch R k x s')) = Inr None"
  using redis_server.item_lifetime [OF assms] by simp

theorem secret_item_lifetime_witness:
  "secret_peek ref_redis Secret_Kind ''5f-a1'' (secret_run ref_redis ref_crypto
     [Pass_Time 20, List_Paid ''ws-1'', Pass_Time 39]
     (create_item ref_redis Secret_Kind ''5f-a1'' (''t0'', ''t1'') 60 sample_secret empty_store))
   = Inr (Some sample_secret)"
  using secret_item_lifetime [OF reference_server _ _ _ _ _ refl, where s = empty_store and x = "''5f-a1''" and
      t = 60 and ys = "[Pass_Time 20, List_Paid ''ws-1'', Pass_Time 39]" and k = Secret_Kind and
      C = ref_crypto and stamps = "(''t0'', ''t1'')" and d = sample_secret]
  by (simp add: reference.secret_typed_none leaves_def creates_def is_slug_char_def is_lower_alnum_def)

text \<open>
  Property C6: the storefront lists a paid secret as long as it can be bought. Whatever else
  happens (other items created in the same workspace with any expiry, listings with their
  clean-up, payments), the index outlives the secret and a listing contains its entry.
\<close>

theorem storefront_lists_live_secret:
  assumes "redis_server R" and "secret_typed R s" and "index_keyed R s"
    and "slug_ok x" and "0 < t" and "storefront d w"
    and "list_all secret_op_ok ys" and "list_all (leaves Secret_Kind x) ys"
    and "list_all (\<lambda>y. \<not> creates File_Kind x y) ys" and "int (duration ys) < t"
    and "s' = secret_run R C ys (create_item R Secret_Kind x stamps t d s)"
  shows "\<exists>js j. fst (list_paid_secrets R w s') = Inr js \<and> j \<in> set js \<and>
     Doc j = paid_entry x (s_title d) (the (s_price_cents d)) (s_currency d) (fst stamps) (snd stamps)"
  by (rule redis_server.storefront_lists [OF assms])

theorem storefront_lists_live_secret_witness:
  "\<exists>js j. fst (list_paid_secrets ref_redis ''ws-1'' (secret_run ref_redis ref_crypto
       [Pass_Time 20, List_Paid ''ws-1'', Pass_Time 39]
       (create_item ref_redis Secret_Kind ''5f-a1'' (''t0'', ''t1'') 60 sample_secret empty_store))) = Inr js \<and>
     j \<in> set js \<and> Doc j = paid_entry ''5f-a1'' (Some ''plans'') 500 ''usd'' ''t0'' ''t1''"
  using storefront_lists_live_secret [OF reference_server _ _ _ _ _ _ _ _ _ refl, where s = empty_store and
      x = "''5f-a1''" and t = 60 and d = sample_secret and w = "''ws-1''" and
      ys = "[Pass_Time 20, List_Paid ''ws-1'', Pass_Time 39]" and C = ref_crypto and stamps = "(''t0'', ''t1'')"]
  by (simp add: reference.secret_typed_none reference.index_keyed_none leaves_def creates_def
      is_slug_char_def is_lower_alnum_def storefront_def secret_is_paid_def sample_secret_def)

text \<open>
  A paid file never reaches the storefront. \<open>create_file\<close> indexes it and it can
  be read under its id, but a listing keeps only the ids stored as secrets: the answer has
  no entry for it and the clean-up removes it from the index.
\<close>

theorem paid_file_never_listed:
  assumes "redis_server R" and "secret_typed R s" and "index_keyed R s"
    and "slug_ok x" and "0 < t" and "storefront d w" and "look R s (secret_key Secret_Kind x) = None"
    and "s' = snd (create_file R x stamps t d s)"
  shows "HGET R (paid_secrets_key w) x s' =
      Some (paid_entry x (s_title d) (the (s_price_cents d)) (s_currency d) (fst stamps) (snd stamps)) \<and>
    peek_file R x s' = Inr (Some d) \<and>
    (\<exists>js. fst (list_paid_secrets R w s') = Inr js \<and>
       (\<forall>j \<in> set js. \<forall>ti pr cu ca ex. Doc j \<noteq> paid_entry x ti pr cu ca ex)) \<and>
    HGET R (paid_secrets_key w) x (snd (list_paid_secrets R w s')) = None"
proof -
  have "s' = create_item R File_Kind x stamps t d s" using assms(8) by (simp add: create_file_def)
  from redis_server.paid_file_unlisted [OF assms(1-7) this] show ?thesis
    by (simp add: peek_file_def)
qed

theorem paid_file_never_listed_witness:
  "HGET ref_redis (paid_secrets_key ''ws-1'') ''5f-a1'' (snd (list_paid_secrets ref_redis ''ws-1''
     (snd (create_file ref_redis ''5f-a1'' (''t0'', ''t1'') 60 sample_secret empty_store)))) = None"
  using paid_file_never_listed [OF reference_server _ _ _ _ _ _ refl, where s = empty_store and
      x = "''5f-a1''" and t = 60 and d = sample_secret and w = "''ws-1''" and stamps = "(''t0'', ''t1'')"]
  by (simp add: reference.secret_typed_none reference.index_keyed_none
      is_slug_char_def is_lower_alnum_def storefront_def secret_is_paid_def sample_secret_def)

text \<open>
  The seeded counters lose no increment. From a counter that was never seeded,
  for every interleaving of creations and seeding attempts the total is what it held, plus
  one for each creation, plus the baseline of the first seed, for the global counter of
  channels and for the one of each workspace.
\<close>

theorem seeded_totals:
  assumes "redis_server R"
    and "is_counter (look R s CHANNELS_TOTAL_KEY)" and "\<not> channels_total_initialized R s"
    and "is_counter (look R s (workspace_channels_key w))" and "\<not> workspace_channels_initialized R w s"
  shows "get_channels_total R (counter_run (increment_channels_total R) (seed_channels_total_if_needed R) xs s) =
      get_channels_total R s + bumps xs + first_seed xs \<and>
    get_workspace_channels_total R w (counter_run (increment_workspace_channels_total R w)
        (seed_workspace_channels_total_if_needed R w) xs s) =
      get_workspace_channels_total R w s + bumps xs + first_seed xs"
  using redis_server.total_runs [OF assms(1)] assms(2-5) by simp

theorem seeded_totals_witness:
  "get_channels_total ref_redis (counter_run (increment_channels_total ref_redis)
     (seed_channels_total_if_needed ref_redis) [Bump, Seed 40, Bump, Seed 41] empty_store) = 42"
  using seeded_totals [OF reference_server, of empty_store "''ws-1''" "[Bump, Seed 40, Bump, Seed 41]"]
  by (simp add: channels_total_initialized_def workspace_channels_initialized_def EXISTS_def
      get_channels_total_def read_count_def GET_def)

end
