(* ===== verification/Room_Transport.thy ===== *)
theory Room_Transport
  imports Prelude "HOL-Library.AList" "HOL-Library.Word"
begin

section \<open>The room transport interface\<close>

text \<open>
  \<open>signaling_transport.py\<close>: the operations of signaling on room membership, and what every
  backend promises of them. A transport is a record of its operations; \<open>room_transport\<close> is
  its contract, stated over an abstract view: which peers, in which role, are members of
  which room, and which ids have never been used. Writes to WebSockets are deliveries, pairs of a peer id and a frame; a write
  that fails is swallowed by every backend and has no further effect. Times are
  milliseconds of the monotonic clock.
\<close>

type_synonym bytes = "8 word list"

datatype frame = Text_Frame json | Binary_Frame bytes | Close_Frame int string

type_synonym deliveries = "(string \<times> frame) list"

datatype register_result = Reg_OK | Room_Limit_Reached | Host_Taken | Room_Full

text \<open>A WebSocket is identified with the peer that owns it.\<close>

record peer =
  p_id :: string
  p_role :: string
  p_relay_mode :: bool

record room =
  room_peers :: "(string \<times> peer) list"
  host_id :: "string option"
  room_created_at :: int
  last_emptied_at :: int
  relay_bytes :: int
  relay_window_start :: int
  relay_window_bytes :: int

definition MAX_ROOMS :: nat where "MAX_ROOMS = 10000"

definition MAX_PEERS_PER_ROOM :: nat where "MAX_PEERS_PER_ROOM = 50"

definition peer_left_message :: "string \<Rightarrow> json" where
  "peer_left_message departed_id = JObj [(''type'', JStr ''peer-left''), (''peerId'', JStr departed_id)]"

definition reported_close :: frame where
  "reported_close = Close_Frame 4010 ''Channel reported''"

record 's transport =
  t_register :: "int \<Rightarrow> slug \<Rightarrow> peer \<Rightarrow> 's \<Rightarrow> register_result \<times> 's"
  t_remove :: "int \<Rightarrow> slug \<Rightarrow> string \<Rightarrow> 's \<Rightarrow> 's"
  t_exists :: "slug \<Rightarrow> string \<Rightarrow> 's \<Rightarrow> bool"
  t_host :: "slug \<Rightarrow> 's \<Rightarrow> string option"
  t_close :: "slug \<Rightarrow> 's \<Rightarrow> bool \<times> deliveries \<times> 's"
  t_send :: "slug \<Rightarrow> string \<Rightarrow> frame \<Rightarrow> 's \<Rightarrow> bool \<times> deliveries"
  t_broadcast :: "slug \<Rightarrow> string \<Rightarrow> 's \<Rightarrow> deliveries"
  t_get_room :: "slug \<Rightarrow> 's \<Rightarrow> room option"

locale room_transport =
  fixes T :: "'s transport" and inv :: "'s \<Rightarrow> bool"
    and members :: "'s \<Rightarrow> slug \<Rightarrow> string \<Rightarrow> string option"
    and fresh :: "'s \<Rightarrow> string \<Rightarrow> bool"
  assumes exists_members: "inv s \<Longrightarrow> t_exists T slug q s = (members s slug q \<noteq> None)"
    and host_members: "inv s \<Longrightarrow> (t_host T slug s = Some h) = (members s slug h = Some ''host'')"
    and finite_members: "inv s \<Longrightarrow> finite (dom (members s slug))"
    and members_bound: "inv s \<Longrightarrow> card (dom (members s slug)) \<le> MAX_PEERS_PER_ROOM"
    and register_inv: "inv s \<Longrightarrow> fresh s (p_id p) \<Longrightarrow>
      inv (snd (t_register T now slug p s))"
    and register_members: "inv s \<Longrightarrow> fresh s (p_id p) \<Longrightarrow>
      members (snd (t_register T now slug p s)) =
        (if fst (t_register T now slug p s) = Reg_OK
         then (members s)(slug := (members s slug)(p_id p \<mapsto> p_role p)) else members s)"
    and register_host_taken: "inv s \<Longrightarrow> fresh s (p_id p) \<Longrightarrow> p_role p = ''host'' \<Longrightarrow> members s slug h = Some ''host'' \<Longrightarrow>
      fst (t_register T now slug p s) \<noteq> Reg_OK"
    and register_full: "inv s \<Longrightarrow> fresh s (p_id p) \<Longrightarrow> card (dom (members s slug)) = MAX_PEERS_PER_ROOM \<Longrightarrow>
      fst (t_register T now slug p s) \<noteq> Reg_OK"
    and remove_inv: "inv s \<Longrightarrow> \<forall>slug'. slug' \<noteq> slug \<longrightarrow> members s slug' q = None \<Longrightarrow>
      inv (t_remove T now slug q s)"
    and remove_members: "inv s \<Longrightarrow> \<forall>slug'. slug' \<noteq> slug \<longrightarrow> members s slug' q = None \<Longrightarrow>
      members (t_remove T now slug q s) = (members s)(slug := (members s slug)(q := None))"
    and close_inv: "inv s \<Longrightarrow> inv (snd (snd (t_close T slug s)))"
    and close_members: "inv s \<Longrightarrow>
      members (snd (snd (t_close T slug s))) = (members s)(slug := Map.empty)"
    and close_found: "inv s \<Longrightarrow> members s slug \<noteq> Map.empty \<Longrightarrow> fst (t_close T slug s)"
    and close_deliveries: "inv s \<Longrightarrow>
      set (fst (snd (t_close T slug s))) = dom (members s slug) \<times> {reported_close}"
    and send_member: "inv s \<Longrightarrow> members s slug q \<noteq> None \<Longrightarrow> \<not> (\<exists>c m. f = Close_Frame c m) \<Longrightarrow>
      t_send T slug q f s = (True, [(q, f)])"
    and broadcast_deliveries: "inv s \<Longrightarrow> members s slug d = None \<Longrightarrow>
      set (t_broadcast T slug d s) = dom (members s slug) \<times> {Text_Frame (peer_left_message d)}"
begin

text \<open>What the contract gives its clients: a room has at most one host.\<close>

lemma one_host:
  assumes "inv s" and "members s slug h = Some ''host''" and "members s slug h' = Some ''host''"
  shows "h = h'"
proof -
  have "t_host T slug s = Some h" "t_host T slug s = Some h'"
    using assms host_members by blast+
  then show ?thesis by simp
qed

text \<open>A registered peer is reachable, and the others still are.\<close>

lemma register_reachable:
  assumes "inv s" and "fresh s (p_id p)"
    and "t_register T now slug p s = (Reg_OK, s')"
  shows "t_exists T slug (p_id p) s'" and "t_exists T slug q s \<Longrightarrow> t_exists T slug q s'"
    and "p_role p = ''host'' \<Longrightarrow> t_host T slug s' = Some (p_id p)"
proof -
  have inv: "inv s'" using register_inv [of s p now slug] assms by simp
  have m: "members s' = (members s)(slug := (members s slug)(p_id p \<mapsto> p_role p))"
    using register_members [of s p now slug] assms by simp
  show "t_exists T slug (p_id p) s'" by (simp add: exists_members [OF inv] m)
  show "t_exists T slug q s'" if "t_exists T slug q s"
    using that by (simp add: exists_members [OF inv] exists_members [OF assms(1)] m)
  show "t_host T slug s' = Some (p_id p)" if "p_role p = ''host''"
    using that by (simp add: host_members [OF inv] m)
qed

text \<open>A refused registration leaves every room as it was.\<close>

lemma register_refused:
  assumes "inv s" and "fresh s (p_id p)"
    and "t_register T now slug p s = (r, s')" and "r \<noteq> Reg_OK"
  shows "members s' = members s"
  using register_members [of s p now slug] assms by simp

text \<open>After a departure or a closure the peer is gone, the other rooms are untouched.\<close>

lemma departed:
  assumes "inv s" and "\<forall>slug'. slug' \<noteq> slug \<longrightarrow> members s slug' q = None"
  shows "\<not> t_exists T slug q (t_remove T now slug q s)"
    and "slug' \<noteq> slug \<or> q' \<noteq> q \<Longrightarrow> t_exists T slug' q' (t_remove T now slug q s) = t_exists T slug' q' s"
    and "\<not> t_exists T slug q (snd (snd (t_close T slug s)))"
    and "slug' \<noteq> slug \<Longrightarrow> t_exists T slug' q' (snd (snd (t_close T slug s))) = t_exists T slug' q' s"
  using assms
  by (auto simp: exists_members remove_inv close_inv remove_members close_members)

lemma departed_notice:
  assumes "inv s" and "\<forall>slug'. slug' \<noteq> slug \<longrightarrow> members s slug' q = None"
  shows "set (t_broadcast T slug q (t_remove T now slug q s)) =
    (dom (members s slug) - {q}) \<times> {Text_Frame (peer_left_message q)}"
  using assms by (auto simp: broadcast_deliveries remove_inv remove_members)

end

text \<open>
  The verdict on a registration is a function of the members of the room, as long as the
  backend is not at its global limit: \<open>load\<close> counts what it holds against \<open>MAX_ROOMS\<close>, and
  a registration adds \<open>cost\<close> to it at most (the Redis backend has no such limit).
  An id stays unused until it is registered.
\<close>

definition room_verdict :: "(string \<Rightarrow> string option) \<Rightarrow> string \<Rightarrow> register_result" where
  "room_verdict ms role =
     (if role = ''host'' \<and> ''host'' \<in> ran ms then Host_Taken
      else if MAX_PEERS_PER_ROOM \<le> card (dom ms) then Room_Full
      else Reg_OK)"

locale metered_transport = room_transport T inv members fresh
  for T :: "'s transport" and inv members fresh +
  fixes load :: "'s \<Rightarrow> nat" and cost :: nat
  assumes register_verdict: "inv s \<Longrightarrow> fresh s (p_id p) \<Longrightarrow> load s < MAX_ROOMS \<Longrightarrow>
      fst (t_register T now slug p s) = room_verdict (members s slug) (p_role p)"
    and load_register: "inv s \<Longrightarrow> load (snd (t_register T now slug p s)) \<le> load s + cost"
    and load_remove: "inv s \<Longrightarrow> load (t_remove T now slug q s) \<le> load s"
    and load_close: "inv s \<Longrightarrow> load (snd (snd (t_close T slug s))) \<le> load s"
    and fresh_register: "inv s \<Longrightarrow> fresh s (p_id p) \<Longrightarrow> fresh s i \<Longrightarrow> i \<noteq> p_id p \<Longrightarrow>
      fresh (snd (t_register T now slug p s)) i"
    and fresh_remove: "inv s \<Longrightarrow> \<forall>slug'. slug' \<noteq> slug \<longrightarrow> members s slug' q = None \<Longrightarrow>
      fresh s i \<Longrightarrow> fresh (t_remove T now slug q s) i"
    and fresh_close: "inv s \<Longrightarrow> fresh s i \<Longrightarrow> fresh (snd (snd (t_close T slug s))) i"

text \<open>The lists that stand for Python dicts.\<close>

lemmas dict_simps = AList.update_conv' AList.delete_conv'

end
