(* ===== verification/Signaling_Rooms.thy ===== *)
theory Signaling_Rooms
  imports Room_Transport
begin

section \<open>The in-memory signaling rooms\<close>

text \<open>
  \<open>SignalingManager\<close> of \<open>signaling.py\<close>: the rooms of one worker. A dict is an association
  list in insertion order; \<open>now\<close> is the reading of the monotonic clock.
\<close>

record manager =
  rooms :: "(slug \<times> room) list"
  multi_worker_warned :: bool
  multi_worker_detected :: bool
  last_cleanup_time :: int

definition new_manager :: manager where
  "new_manager = \<lparr>rooms = [], multi_worker_warned = False, multi_worker_detected = False,
     last_cleanup_time = 0\<rparr>"

definition STALE_ROOM_MS :: int where "STALE_ROOM_MS = 15 * 60 * 1000"

definition CLEANUP_INTERVAL_MS :: int where "CLEANUP_INTERVAL_MS = 60 * 1000"

definition new_room :: "int \<Rightarrow> room" where
  "new_room now = \<lparr>room_peers = [], host_id = None, room_created_at = now, last_emptied_at = now,
     relay_bytes = 0, relay_window_start = 0, relay_window_bytes = 0\<rparr>"

definition stale_room :: "int \<Rightarrow> room \<Rightarrow> bool" where
  "stale_room now r = (room_peers r = [] \<and> STALE_ROOM_MS < now - last_emptied_at r)"

definition cleanup_stale_rooms :: "int \<Rightarrow> manager \<Rightarrow> manager" where
  "cleanup_stale_rooms now m = m\<lparr>rooms := filter (\<lambda>(_, r). \<not> stale_room now r) (rooms m)\<rparr>"

text \<open>The sweep is throttled to once per interval.\<close>

definition throttled_cleanup :: "int \<Rightarrow> manager \<Rightarrow> manager" where
  "throttled_cleanup now m =
     (if CLEANUP_INTERVAL_MS < now - last_cleanup_time m
      then cleanup_stale_rooms now (m\<lparr>last_cleanup_time := now\<rparr>) else m)"

definition get_or_create_room :: "int \<Rightarrow> slug \<Rightarrow> manager \<Rightarrow> room option \<times> manager" where
  "get_or_create_room now slug m =
     (let m1 = throttled_cleanup now m
      in (case map_of (rooms m1) slug of
            None \<Rightarrow>
              (if MAX_ROOMS \<le> length (rooms m1) then (None, m1)
               else (Some (new_room now), m1\<lparr>rooms := AList.update slug (new_room now) (rooms m1)\<rparr>))
          | Some r \<Rightarrow> (Some r, m1)))"

definition get_room :: "slug \<Rightarrow> manager \<Rightarrow> room option" where
  "get_room slug m = map_of (rooms m) slug"

definition remove_room :: "slug \<Rightarrow> manager \<Rightarrow> manager" where
  "remove_room slug m = m\<lparr>rooms := AList.delete slug (rooms m)\<rparr>"

definition remove_peer :: "int \<Rightarrow> slug \<Rightarrow> string \<Rightarrow> manager \<Rightarrow> manager" where
  "remove_peer now slug peer_id m = (case get_room slug m of
       None \<Rightarrow> m
     | Some r \<Rightarrow>
         (let r1 = r\<lparr>room_peers := AList.delete peer_id (room_peers r)\<rparr>;
              r2 = (if host_id r1 = Some peer_id then r1\<lparr>host_id := None\<rparr> else r1);
              r3 = (if room_peers r2 = [] then r2\<lparr>last_emptied_at := now\<rparr> else r2)
          in m\<lparr>rooms := AList.update slug r3 (rooms m)\<rparr>))"

definition admit :: "peer \<Rightarrow> room \<Rightarrow> room" where
  "admit p r =
     (let r1 = (if p_role p = ''host'' then r\<lparr>host_id := Some (p_id p)\<rparr> else r)
      in r1\<lparr>room_peers := AList.update (p_id p) p (room_peers r1)\<rparr>)"

definition register_peer :: "int \<Rightarrow> slug \<Rightarrow> peer \<Rightarrow> manager \<Rightarrow> register_result \<times> manager" where
  "register_peer now slug p m = (case get_or_create_room now slug m of
       (None, m1) \<Rightarrow> (Room_Limit_Reached, m1)
     | (Some r, m1) \<Rightarrow>
         (if p_role p = ''host'' \<and> host_id r \<noteq> None then
            (Host_Taken, if room_peers r = [] then remove_room slug m1 else m1)
          else if MAX_PEERS_PER_ROOM \<le> length (room_peers r) then
            (Room_Full, if room_peers r = [] then remove_room slug m1 else m1)
          else (Reg_OK, m1\<lparr>rooms := AList.update slug (admit p r) (rooms m1)\<rparr>)))"

definition peer_exists :: "slug \<Rightarrow> string \<Rightarrow> manager \<Rightarrow> bool" where
  "peer_exists slug peer_id m = (case get_room slug m of
       None \<Rightarrow> False | Some r \<Rightarrow> map_of (room_peers r) peer_id \<noteq> None)"

definition host_id_for :: "slug \<Rightarrow> manager \<Rightarrow> string option" where
  "host_id_for slug m = (case get_room slug m of None \<Rightarrow> None | Some r \<Rightarrow> host_id r)"

definition close_room :: "slug \<Rightarrow> manager \<Rightarrow> bool \<times> deliveries \<times> manager" where
  "close_room slug m = (case get_room slug m of
       None \<Rightarrow> (False, [], m)
     | Some r \<Rightarrow> (True, map (\<lambda>(_, p). (p_id p, reported_close)) (room_peers r), remove_room slug m))"

definition send_to_peer :: "slug \<Rightarrow> string \<Rightarrow> frame \<Rightarrow> manager \<Rightarrow> bool \<times> deliveries" where
  "send_to_peer slug peer_id f m = (case get_room slug m of
       None \<Rightarrow> (False, [])
     | Some r \<Rightarrow> (case map_of (room_peers r) peer_id of
           None \<Rightarrow> (False, [])
         | Some p \<Rightarrow> (True, [(p_id p, f)])))"

definition broadcast_peer_left :: "slug \<Rightarrow> string \<Rightarrow> manager \<Rightarrow> deliveries" where
  "broadcast_peer_left slug departed_id m = (case get_room slug m of
       None \<Rightarrow> []
     | Some r \<Rightarrow> map (\<lambda>(_, p). (p_id p, Text_Frame (peer_left_message departed_id))) (room_peers r))"

definition memory_transport :: "manager transport" where
  "memory_transport = \<lparr>t_register = register_peer, t_remove = remove_peer, t_exists = peer_exists,
     t_host = host_id_for, t_close = close_room, t_send = send_to_peer,
     t_broadcast = broadcast_peer_left, t_get_room = get_room\<rparr>"

subsection \<open>The invariant of the rooms\<close>

definition room_ok :: "room \<Rightarrow> bool" where
  "room_ok r =
     (distinct (map fst (room_peers r)) \<and> length (room_peers r) \<le> MAX_PEERS_PER_ROOM \<and>
      (\<forall>k p. map_of (room_peers r) k = Some p \<longrightarrow> p_id p = k) \<and>
      (\<forall>h. host_id r = Some h \<longleftrightarrow> (\<exists>p. map_of (room_peers r) h = Some p \<and> p_role p = ''host'')))"

definition manager_ok :: "manager \<Rightarrow> bool" where
  "manager_ok m =
     (distinct (map fst (rooms m)) \<and> length (rooms m) \<le> MAX_ROOMS \<and>
      (\<forall>slug r. map_of (rooms m) slug = Some r \<longrightarrow> room_ok r))"

text \<open>The roles of the members of a room.\<close>

definition room_roles :: "manager \<Rightarrow> slug \<Rightarrow> string \<Rightarrow> string option" where
  "room_roles m slug q = (case get_room slug m of
       None \<Rightarrow> None | Some r \<Rightarrow> map_option p_role (map_of (room_peers r) q))"

subsection \<open>Every operation keeps the invariant\<close>

lemma length_update: "length (AList.update k v al) = (if k \<in> fst ` set al then length al else Suc (length al))"
proof -
  have "length (map fst (AList.update k v al)) = length (if k \<in> set (map fst al) then map fst al else map fst al @ [k])"
    by (simp only: AList.update_keys)
  then show ?thesis by auto
qed

lemma map_of_filter_value:
  "distinct (map fst al) \<Longrightarrow> map_of (filter (\<lambda>(_, v). P v) al) k =
    (case map_of al k of None \<Rightarrow> None | Some v \<Rightarrow> if P v then Some v else None)"
  by (induction al) (auto split: option.splits simp: map_of_eq_None_iff image_iff)

lemma map_of_in_fst: "map_of al k = Some v \<Longrightarrow> k \<in> fst ` set al"
  by (metis map_of_eq_None_iff option.distinct(1))

lemma manager_okD:
  assumes "manager_ok m"
  shows "distinct (map fst (rooms m))" and "length (rooms m) \<le> MAX_ROOMS"
    and "map_of (rooms m) slug = Some r \<Longrightarrow> room_ok r"
  using assms by (auto simp: manager_ok_def)

lemma room_okD:
  assumes "room_ok r"
  shows "distinct (map fst (room_peers r))" and "length (room_peers r) \<le> MAX_PEERS_PER_ROOM"
    and "map_of (room_peers r) k = Some p \<Longrightarrow> p_id p = k"
    and "host_id r = Some h \<longleftrightarrow> (\<exists>p. map_of (room_peers r) h = Some p \<and> p_role p = ''host'')"
  using assms by (auto simp: room_ok_def)

lemma room_ok_new [simp]: "room_ok (new_room now)"
  by (simp add: room_ok_def new_room_def)

lemma manager_ok_new [simp]: "manager_ok new_manager"
  by (simp add: manager_ok_def new_manager_def)

lemma manager_ok_cong: "rooms m' = rooms m \<Longrightarrow> manager_ok m' = manager_ok m"
  by (simp add: manager_ok_def)

lemma manager_ok_update:
  assumes "manager_ok m" and "room_ok r" and "map_of (rooms m) slug \<noteq> None \<or> length (rooms m) < MAX_ROOMS"
  shows "manager_ok (m\<lparr>rooms := AList.update slug r (rooms m)\<rparr>)"
proof -
  have "slug \<in> fst ` set (rooms m) \<or> length (rooms m) < MAX_ROOMS"
    using assms(3) by (auto dest: map_of_in_fst)
  then show ?thesis
    using manager_okD [OF assms(1)] assms(2)
    by (auto simp: manager_ok_def AList.distinct_update length_update dict_simps)
qed

lemma manager_ok_remove: "manager_ok m \<Longrightarrow> manager_ok (remove_room slug m)"
  using AList.length_delete_le [of slug "rooms m"]
  by (auto simp: manager_ok_def remove_room_def AList.distinct_delete dict_simps)

lemma manager_ok_cleanup:
  assumes "manager_ok m"
  shows "manager_ok (cleanup_stale_rooms now m)"
proof -
  have "length (filter (\<lambda>(_, r). \<not> stale_room now r) (rooms m)) \<le> MAX_ROOMS"
    using manager_okD(2) [OF assms] length_filter_le order_trans by blast
  moreover have "distinct (map fst (filter (\<lambda>(_, r). \<not> stale_room now r) (rooms m)))"
    using manager_okD(1) [OF assms] distinct_map_filter by blast
  ultimately show ?thesis
    using manager_okD [OF assms]
    by (auto simp: manager_ok_def cleanup_stale_rooms_def map_of_filter_value
        split: option.splits if_splits)
qed

lemma roles_cleanup:
  assumes "manager_ok m"
  shows "room_roles (cleanup_stale_rooms now m) = room_roles m"
  using manager_okD(1) [OF assms]
  by (auto simp: fun_eq_iff room_roles_def get_room_def cleanup_stale_rooms_def map_of_filter_value
      stale_room_def split: option.splits)

lemma roles_cong: "rooms m' = rooms m \<Longrightarrow> room_roles m' = room_roles m"
  by (simp add: room_roles_def get_room_def fun_eq_iff)

lemma roles_update: "room_roles (m\<lparr>rooms := AList.update slug r (rooms m)\<rparr>) =
    (room_roles m)(slug := (\<lambda>q. map_option p_role (map_of (room_peers r) q)))"
  by (auto simp: fun_eq_iff room_roles_def get_room_def dict_simps)

lemma roles_remove: "room_roles (remove_room slug m) = (room_roles m)(slug := Map.empty)"
  by (auto simp: fun_eq_iff room_roles_def get_room_def remove_room_def dict_simps)

text \<open>
  What \<open>get_or_create_room\<close> returns: the room of the slug, with the members it had; it
  refuses only when the room cap is reached and the slug has no room.
\<close>

lemma get_or_create_room_spec:
  assumes "manager_ok m" and "get_or_create_room now slug m = (res, m')"
  shows "manager_ok m'" and "room_roles m' = room_roles m"
    and "res = Some r \<Longrightarrow> map_of (rooms m') slug = Some r"
    and "res = None \<Longrightarrow> length (rooms m') = MAX_ROOMS"
proof -
  define m1 where "m1 = throttled_cleanup now m"
  have ok1: "manager_ok m1" and ro1: "room_roles m1 = room_roles m"
    using assms(1) by (auto simp: m1_def throttled_cleanup_def manager_ok_cleanup roles_cleanup
        manager_ok_cong [of "m\<lparr>last_cleanup_time := now\<rparr>" m] roles_cong [of "m\<lparr>last_cleanup_time := now\<rparr>" m])
  have e: "(res, m') = (case map_of (rooms m1) slug of
            None \<Rightarrow>
              (if MAX_ROOMS \<le> length (rooms m1) then (None, m1)
               else (Some (new_room now), m1\<lparr>rooms := AList.update slug (new_room now) (rooms m1)\<rparr>))
          | Some r \<Rightarrow> (Some r, m1))"
    using assms(2) unfolding get_or_create_room_def Let_def m1_def [symmetric] by simp
  consider "res = None" "m' = m1" "length (rooms m1) = MAX_ROOMS"
    | "map_of (rooms m1) slug = None" "res = Some (new_room now)" "length (rooms m1) < MAX_ROOMS"
      "m' = m1\<lparr>rooms := AList.update slug (new_room now) (rooms m1)\<rparr>"
    | r0 where "map_of (rooms m1) slug = Some r0" "res = Some r0" "m' = m1"
    using e manager_okD(2) [OF ok1] by (auto split: option.splits if_splits)
  note cs = this
  show "manager_ok m'"
    by (rule cs) (use ok1 manager_ok_update [OF ok1] in auto)
  have "room_roles m' = room_roles m1"
    by (rule cs) (auto simp: roles_update fun_eq_iff new_room_def, simp add: room_roles_def get_room_def)
  then show "room_roles m' = room_roles m" using ro1 by simp
  show "res = Some r \<Longrightarrow> map_of (rooms m') slug = Some r"
    by (rule cs) (auto simp: dict_simps)
  show "res = None \<Longrightarrow> length (rooms m') = MAX_ROOMS"
    by (rule cs) auto
qed

lemma admit_ok:
  assumes "room_ok r" and "map_of (room_peers r) (p_id p) = None"
    and "length (room_peers r) < MAX_PEERS_PER_ROOM" and "p_role p = ''host'' \<longrightarrow> host_id r = None"
  shows "room_ok (admit p r)"
proof -
  have "p_id p \<notin> fst ` set (room_peers r)" using assms(2) by (simp add: map_of_eq_None_iff)
  moreover have "host_id r = None \<Longrightarrow> map_of (room_peers r) h = Some q \<Longrightarrow> p_role q \<noteq> ''host''" for h q
    using room_okD(4) [OF assms(1), of h] by auto
  ultimately show ?thesis
    using room_okD [OF assms(1)] assms(2-4)
    by (auto simp: room_ok_def admit_def Let_def AList.distinct_update length_update dict_simps)
qed

lemma dom_room_roles: "map_of (rooms m) slug = Some r \<Longrightarrow> dom (room_roles m slug) = fst ` set (room_peers r)"
  by (auto simp: room_roles_def get_room_def dom_def map_of_in_fst)
     (metis fst_conv map_of_eq_None_iff not_Some_eq image_eqI)

lemma register_peer_spec:
  assumes ok: "manager_ok m" and fresh: "room_roles m slug (p_id p) = None"
    and reg: "register_peer now slug p m = (res, m')"
  shows "manager_ok m'"
    and "room_roles m' = (if res = Reg_OK
           then (room_roles m)(slug := (room_roles m slug)(p_id p \<mapsto> p_role p)) else room_roles m)"
    and "res = Reg_OK \<Longrightarrow> p_role p = ''host'' \<Longrightarrow> room_roles m slug h \<noteq> Some ''host''"
    and "res = Reg_OK \<Longrightarrow> card (dom (room_roles m slug)) < MAX_PEERS_PER_ROOM"
proof -
  obtain o1 m1 where g: "get_or_create_room now slug m = (o1, m1)" by fastforce
  note spec = get_or_create_room_spec [OF ok g]
  have "manager_ok m' \<and>
    room_roles m' = (if res = Reg_OK
           then (room_roles m)(slug := (room_roles m slug)(p_id p \<mapsto> p_role p)) else room_roles m) \<and>
    (res = Reg_OK \<longrightarrow> p_role p = ''host'' \<longrightarrow> room_roles m slug h \<noteq> Some ''host'') \<and>
    (res = Reg_OK \<longrightarrow> card (dom (room_roles m slug)) < MAX_PEERS_PER_ROOM)"
  proof (cases o1)
    case None
    then show ?thesis using reg g spec(1,2) by (simp add: register_peer_def)
  next
    case (Some r)
    note at = spec(3) [OF Some]
    have r_ok: "room_ok r" using manager_okD(3) [OF spec(1) at] .
    have roles: "room_roles m slug q = map_option p_role (map_of (room_peers r) q)" for q
      using at by (simp add: spec(2) [symmetric] room_roles_def get_room_def)
    have fresh': "map_of (room_peers r) (p_id p) = None" using fresh roles by simp
    show ?thesis
    proof (cases "p_role p = ''host'' \<and> host_id r \<noteq> None")
      case True
      then obtain h where "host_id r = Some h" by auto
      then have "room_peers r \<noteq> []" using room_okD(4) [OF r_ok, of h] by auto
      then have "res = Host_Taken" "m' = m1" using reg g Some True by (simp_all add: register_peer_def)
      then show ?thesis using spec(1,2) by simp
    next
      case not_taken: False
      show ?thesis
      proof (cases "MAX_PEERS_PER_ROOM \<le> length (room_peers r)")
        case True
        then have "room_peers r \<noteq> []" by (auto simp: MAX_PEERS_PER_ROOM_def)
        then have "res = Room_Full" "m' = m1"
          using reg g Some True not_taken by (auto simp: register_peer_def)
        then show ?thesis using spec(1,2) by simp
      next
        case False
        have m': "res = Reg_OK" "m' = m1\<lparr>rooms := AList.update slug (admit p r) (rooms m1)\<rparr>"
          using reg g Some False not_taken by (auto simp: register_peer_def)
        have "room_ok (admit p r)" using admit_ok [OF r_ok fresh'] False not_taken by auto
        then have "manager_ok m'" using m'(2) manager_ok_update [OF spec(1)] at by simp
        moreover have "room_roles m' = (room_roles m)(slug := (room_roles m slug)(p_id p \<mapsto> p_role p))"
          unfolding m'(2) roles_update
          by (auto simp: fun_eq_iff roles admit_def Let_def dict_simps spec(2))
        moreover have "room_roles m slug h \<noteq> Some ''host''" if "p_role p = ''host''"
          using that not_taken room_okD(4) [OF r_ok, of h] roles [of h] by auto
        moreover have "card (dom (room_roles m slug)) < MAX_PEERS_PER_ROOM"
        proof -
          have "card (fst ` set (room_peers r)) \<le> length (room_peers r)"
            using card_length [of "map fst (room_peers r)"] by simp
          moreover have "dom (room_roles m slug) = fst ` set (room_peers r)"
            using dom_room_roles [OF at] spec(2) by simp
          ultimately show ?thesis using False by simp
        qed
        ultimately show ?thesis using m'(1) by simp
      qed
    qed
  qed
  then show "manager_ok m'"
    and "room_roles m' = (if res = Reg_OK
           then (room_roles m)(slug := (room_roles m slug)(p_id p \<mapsto> p_role p)) else room_roles m)"
    and "res = Reg_OK \<Longrightarrow> p_role p = ''host'' \<Longrightarrow> room_roles m slug h \<noteq> Some ''host''"
    and "res = Reg_OK \<Longrightarrow> card (dom (room_roles m slug)) < MAX_PEERS_PER_ROOM"
    by blast+
qed

lemma remove_peer_spec:
  assumes ok: "manager_ok m"
  shows "manager_ok (remove_peer now slug q m)"
    and "room_roles (remove_peer now slug q m) = (room_roles m)(slug := (room_roles m slug)(q := None))"
proof -
  have "manager_ok (remove_peer now slug q m) \<and>
    room_roles (remove_peer now slug q m) = (room_roles m)(slug := (room_roles m slug)(q := None))"
  proof (cases "map_of (rooms m) slug")
    case None
    then show ?thesis using ok
      by (auto simp: remove_peer_def get_room_def room_roles_def fun_eq_iff)
  next
    case (Some r)
    define r1 where "r1 = r\<lparr>room_peers := AList.delete q (room_peers r)\<rparr>"
    define r2 where "r2 = (if host_id r1 = Some q then r1\<lparr>host_id := None\<rparr> else r1)"
    define r3 where "r3 = (if room_peers r2 = [] then r2\<lparr>last_emptied_at := now\<rparr> else r2)"
    have e: "remove_peer now slug q m = m\<lparr>rooms := AList.update slug r3 (rooms m)\<rparr>"
      using Some unfolding remove_peer_def get_room_def r3_def r2_def r1_def Let_def by simp
    have peers: "room_peers r3 = AList.delete q (room_peers r)"
      by (simp add: r3_def r2_def r1_def)
    have host: "host_id r3 = (if host_id r = Some q then None else host_id r)"
      by (simp add: r3_def r2_def r1_def)
    note rok = room_okD [OF manager_okD(3) [OF ok Some]]
    have "length (AList.delete q (room_peers r)) \<le> MAX_PEERS_PER_ROOM"
      using rok(2) AList.length_delete_le [of q "room_peers r"] by linarith
    moreover have "(if host_id r = Some q then None else host_id r) = Some h \<longleftrightarrow>
        (\<exists>p. map_of (AList.delete q (room_peers r)) h = Some p \<and> p_role p = ''host'')" for h
      using rok(4) [of h] rok(4) [of q] by (cases "h = q") (auto simp: dict_simps)
    ultimately have "room_ok r3"
      unfolding room_ok_def peers host
      using rok(1,3) by (auto simp: AList.distinct_delete dict_simps simp del: map_of_eq_Some_iff)
    then have "manager_ok (remove_peer now slug q m)"
      unfolding e using manager_ok_update [OF ok] Some by simp
    moreover have "room_roles (remove_peer now slug q m) = (room_roles m)(slug := (room_roles m slug)(q := None))"
      unfolding e roles_update peers
      using Some by (auto simp: fun_eq_iff room_roles_def get_room_def dict_simps)
    ultimately show ?thesis by simp
  qed
  then show "manager_ok (remove_peer now slug q m)"
    "room_roles (remove_peer now slug q m) = (room_roles m)(slug := (room_roles m slug)(q := None))"
    by blast+
qed

lemma set_peer_frames:
  assumes "room_ok r"
  shows "set (map (\<lambda>(_, p). (p_id p, f)) (room_peers r)) = fst ` set (room_peers r) \<times> {f}"
proof -
  have "p_id p = k" if "(k, p) \<in> set (room_peers r)" for k p
    using that room_okD(1,3) [OF assms] by (metis map_of_is_SomeI)
  then show ?thesis by (force simp: image_iff)
qed

lemma memory_transport_simps [simp]:
  "t_register memory_transport = register_peer" "t_remove memory_transport = remove_peer"
  "t_exists memory_transport = peer_exists" "t_host memory_transport = host_id_for"
  "t_close memory_transport = close_room" "t_send memory_transport = send_to_peer"
  "t_broadcast memory_transport = broadcast_peer_left" "t_get_room memory_transport = get_room"
  by (simp_all add: memory_transport_def)

lemma room_roles_cases:
  obtains "get_room slug m = None" and "room_roles m slug = Map.empty"
  | r where "get_room slug m = Some r" and "map_of (rooms m) slug = Some r"
    and "room_roles m slug = (\<lambda>q. map_option p_role (map_of (room_peers r) q))"
  by (cases "get_room slug m") (auto simp: room_roles_def get_room_def fun_eq_iff)

lemma card_room_roles:
  assumes "manager_ok m"
  shows "finite (dom (room_roles m slug)) \<and> card (dom (room_roles m slug)) \<le> MAX_PEERS_PER_ROOM"
proof (rule room_roles_cases [of slug m])
  fix r assume r: "map_of (rooms m) slug = Some r"
  then have "dom (room_roles m slug) = set (map fst (room_peers r))" by (simp add: dom_room_roles)
  moreover have "card (set (map fst (room_peers r))) \<le> MAX_PEERS_PER_ROOM"
    using card_length [of "map fst (room_peers r)"] room_okD(2) [OF manager_okD(3) [OF assms r]] by simp
  ultimately show ?thesis by simp
qed simp

lemma frames_to_room:
  assumes "manager_ok m" and "get_room slug m = Some r"
  shows "set (map (\<lambda>(_, p). (p_id p, f)) (room_peers r)) = dom (room_roles m slug) \<times> {f}"
  using assms set_peer_frames [OF manager_okD(3) [OF assms(1)], of slug r f]
  by (simp add: get_room_def dom_room_roles)

lemma room_roles_None: "get_room slug m = None \<Longrightarrow> room_roles m slug = Map.empty"
  by (simp add: room_roles_def fun_eq_iff)

text \<open>An id that no member of any room has.\<close>

definition unused_id :: "manager \<Rightarrow> string \<Rightarrow> bool" where
  "unused_id m q = (q \<noteq> [] \<and> (\<forall>slug. room_roles m slug q = None))"

interpretation memory: room_transport memory_transport manager_ok room_roles unused_id
proof
  fix m :: manager and slug q h :: string and p :: peer and now :: int and f :: frame
  assume ok: "manager_ok m"
  show "t_exists memory_transport slug q m = (room_roles m slug q \<noteq> None)"
    by (simp add: peer_exists_def room_roles_def split: option.splits)
  show "(t_host memory_transport slug m = Some h) = (room_roles m slug h = Some ''host'')"
    using room_okD(4) [OF manager_okD(3) [OF ok]]
    by (auto simp: host_id_for_def room_roles_def get_room_def split: option.splits)
  show "finite (dom (room_roles m slug))" "card (dom (room_roles m slug)) \<le> MAX_PEERS_PER_ROOM"
    using card_room_roles [OF ok] by auto
  show "manager_ok (t_remove memory_transport now slug q m)"
    and "room_roles (t_remove memory_transport now slug q m) = (room_roles m)(slug := (room_roles m slug)(q := None))"
    using remove_peer_spec [OF ok] by simp_all
  show "manager_ok (snd (snd (t_close memory_transport slug m)))"
    using manager_ok_remove [OF ok] ok by (simp add: close_room_def split: option.splits)
  show "room_roles (snd (snd (t_close memory_transport slug m))) = (room_roles m)(slug := Map.empty)"
    by (rule room_roles_cases [of slug m]) (auto simp: close_room_def roles_remove fun_eq_iff)
  show "fst (t_close memory_transport slug m)" if "room_roles m slug \<noteq> Map.empty"
    using that by (rule_tac room_roles_cases [of slug m]) (simp_all add: close_room_def)
  show "set (fst (snd (t_close memory_transport slug m))) = dom (room_roles m slug) \<times> {reported_close}"
    by (cases "get_room slug m")
       (simp_all add: close_room_def room_roles_None frames_to_room [OF ok] del: set_map)
  show "t_send memory_transport slug q f m = (True, [(q, f)])"
    if "room_roles m slug q \<noteq> None" and "\<not> (\<exists>c m. f = Close_Frame c m)"
    using that room_okD(3) [OF manager_okD(3) [OF ok]]
    by (auto simp: send_to_peer_def room_roles_def get_room_def split: option.splits)
  show "set (t_broadcast memory_transport slug q m) = dom (room_roles m slug) \<times> {Text_Frame (peer_left_message q)}"
    by (cases "get_room slug m")
       (simp_all add: broadcast_peer_left_def room_roles_None frames_to_room [OF ok] del: set_map)
next
  fix m :: manager and slug h :: string and p :: peer and now :: int
  assume ok: "manager_ok m" and "unused_id m (p_id p)"
  then have fresh: "room_roles m slug (p_id p) = None" by (simp add: unused_id_def)
  have e: "register_peer now slug p m =
      (fst (register_peer now slug p m), snd (register_peer now slug p m))" by simp
  show "manager_ok (snd (t_register memory_transport now slug p m))"
    "room_roles (snd (t_register memory_transport now slug p m)) =
      (if fst (t_register memory_transport now slug p m) = Reg_OK
       then (room_roles m)(slug := (room_roles m slug)(p_id p \<mapsto> p_role p)) else room_roles m)"
    using register_peer_spec(1,2) [OF ok fresh e] by simp_all
  show "fst (t_register memory_transport now slug p m) \<noteq> Reg_OK"
    if "p_role p = ''host''" and "room_roles m slug h = Some ''host''"
    using register_peer_spec(3) [OF ok fresh e] that by auto
  show "fst (t_register memory_transport now slug p m) \<noteq> Reg_OK"
    if "card (dom (room_roles m slug)) = MAX_PEERS_PER_ROOM"
    using register_peer_spec(4) [OF ok fresh e] that by auto
qed

text \<open>The verdict is the one on the members while there is room for another room.\<close>

lemma length_rooms_cleanup: "length (rooms (throttled_cleanup now m)) \<le> length (rooms m)"
  by (simp add: throttled_cleanup_def cleanup_stale_rooms_def)

lemma get_or_create_room_load:
  assumes "get_or_create_room now slug m = (res, m')"
  shows "length (rooms m') \<le> Suc (length (rooms m))"
    and "length (rooms m) < MAX_ROOMS \<Longrightarrow> \<exists>r. res = Some r"
  using assms length_rooms_cleanup [of now m]
  by (cases "map_of (rooms (throttled_cleanup now m)) slug";
      auto simp: get_or_create_room_def Let_def length_update split: if_splits)+

lemma register_peer_verdict:
  assumes ok: "manager_ok m" and room: "length (rooms m) < MAX_ROOMS"
  shows "fst (register_peer now slug p m) = room_verdict (room_roles m slug) (p_role p)"
proof -
  obtain o1 m1 where g: "get_or_create_room now slug m = (o1, m1)" by fastforce
  note spec = get_or_create_room_spec [OF ok g]
  obtain r where r: "o1 = Some r" using get_or_create_room_load(2) [OF g room] by blast
  note at = spec(3) [OF r]
  have r_ok: "room_ok r" using manager_okD(3) [OF spec(1) at] .
  have roles: "room_roles m slug = (\<lambda>q. map_option p_role (map_of (room_peers r) q))"
    using at by (simp add: spec(2) [symmetric] room_roles_def get_room_def fun_eq_iff)
  have "card (dom (room_roles m slug)) = card (set (map fst (room_peers r)))"
    using dom_room_roles [OF at] spec(2) by simp
  also have "\<dots> = length (room_peers r)"
    using distinct_card [OF room_okD(1) [OF r_ok]] by simp
  finally have card: "card (dom (room_roles m slug)) = length (room_peers r)" .
  have "''host'' \<in> ran (room_roles m slug) \<longleftrightarrow> (\<exists>h. host_id r = Some h)"
    using room_okD(4) [OF r_ok] by (auto simp: ran_def roles)
  then have "''host'' \<in> ran (room_roles m slug) \<longleftrightarrow> host_id r \<noteq> None" by simp
  then show ?thesis using g r by (simp add: register_peer_def room_verdict_def card)
qed

lemma register_peer_load:
  assumes ok: "manager_ok m"
  shows "length (rooms (snd (register_peer now slug p m))) \<le> Suc (length (rooms m))"
proof -
  obtain o1 m1 where g: "get_or_create_room now slug m = (o1, m1)" by fastforce
  note l = get_or_create_room_load(1) [OF g]
  have gone: "length (rooms (remove_room slug m1)) \<le> length (rooms m1)"
    by (simp add: remove_room_def AList.length_delete_le)
  show ?thesis
  proof (cases o1)
    case None
    then show ?thesis using l g by (simp add: register_peer_def)
  next
    case (Some r)
    have "slug \<in> fst ` set (rooms m1)"
      using map_of_in_fst [OF get_or_create_room_spec(3) [OF ok g Some]] .
    then show ?thesis using l gone g Some by (simp add: register_peer_def length_update)
  qed
qed

lemma remove_peer_load: "length (rooms (remove_peer now slug q m)) = length (rooms m)"
  by (auto simp: remove_peer_def get_room_def Let_def length_update map_of_in_fst split: option.splits)

lemma close_room_load: "length (rooms (snd (snd (close_room slug m)))) \<le> length (rooms m)"
  by (simp add: close_room_def remove_room_def AList.length_delete_le split: option.splits)

interpretation memory: metered_transport memory_transport manager_ok room_roles unused_id
  "\<lambda>m. length (rooms m)" 1
proof
  fix m :: manager and slug q i :: string and p :: peer and now :: int
  assume ok: "manager_ok m"
  show "length (rooms (snd (t_register memory_transport now slug p m))) \<le> length (rooms m) + 1"
    "length (rooms (t_remove memory_transport now slug q m)) \<le> length (rooms m)"
    "length (rooms (snd (snd (t_close memory_transport slug m)))) \<le> length (rooms m)"
    by (simp_all add: register_peer_load [OF ok] remove_peer_load close_room_load)
  show "fst (t_register memory_transport now slug p m) = room_verdict (room_roles m slug) (p_role p)"
    if "length (rooms m) < MAX_ROOMS"
    using register_peer_verdict [OF ok that] by simp
  assume i: "unused_id m i"
  show "unused_id (snd (snd (t_close memory_transport slug m))) i"
    using i memory.close_members [OF ok, of slug] by (simp add: unused_id_def)
  show "unused_id (t_remove memory_transport now slug q m) i"
    using i remove_peer_spec(2) [OF ok, of now slug q] by (simp add: unused_id_def)
  show "unused_id (snd (t_register memory_transport now slug p m)) i"
    if "unused_id m (p_id p)" "i \<noteq> p_id p"
    using i that(2) memory.register_members [OF ok that(1), of now slug] by (simp add: unused_id_def)
qed

end
