(* ===== verification/Redis_Transport.thy ===== *)
theory Redis_Transport
  imports Room_Transport Signaling_Rooms Lua_Scripts
begin

section \<open>The Redis-backed room transport\<close>

text \<open>
  \<open>RedisRoomTransport\<close> of \<open>signaling_redis_transport.py\<close>: membership in Redis hashes, one
  pub/sub channel per peer, one instance per worker process. The state is the whole
  deployment: the server, the workers with their sockets and subscriptions, and whether
  Redis answers (\<open>c_up\<close>; each method maps a \<open>RedisError\<close> to a refusal). A published
  envelope reaches every subscribed worker. The clean-up that \<open>remove_peer\<close> schedules as a
  task runs at once in \<open>redis_remove_peer\<close>.
\<close>

definition peers_key :: "slug \<Rightarrow> string" where
  "peers_key slug = ''file-sharing:p2p:room:'' @ slug @ '':peers''"

definition host_key :: "slug \<Rightarrow> string" where
  "host_key slug = ''file-sharing:p2p:room:'' @ slug @ '':host''"

definition ROOM_TTL_SECONDS :: int where "ROOM_TTL_SECONDS = 6 * 60 * 60"

definition REDIS_MAX_PEERS_PER_ROOM :: int where "REDIS_MAX_PEERS_PER_ROOM = 50"

subsection \<open>Envelopes\<close>

text \<open>
  An envelope is a tag byte and a body. The JSON body of a text envelope is kept parsed; the
  binary body and the close directive (a 16-bit big-endian code and the reason) are bytes.
\<close>

datatype envelope = Env_Json json | Env_Bytes bytes

definition ENV_BINARY :: "8 word" where "ENV_BINARY = 0x42"

definition ENV_CLOSE :: "8 word" where "ENV_CLOSE = 0x43"

definition ascii_bytes :: "string \<Rightarrow> bytes" where
  "ascii_bytes s = map (\<lambda>c. word_of_nat (of_char c)) s"

definition bytes_ascii :: "bytes \<Rightarrow> string" where
  "bytes_ascii bs = map (\<lambda>b. char_of (unat b)) bs"

definition encode_text_envelope :: "json \<Rightarrow> envelope" where
  "encode_text_envelope payload = Env_Json payload"

definition encode_binary_envelope :: "bytes \<Rightarrow> envelope" where
  "encode_binary_envelope payload = Env_Bytes (ENV_BINARY # payload)"

definition encode_close_envelope :: "int \<Rightarrow> string \<Rightarrow> envelope" where
  "encode_close_envelope code reason =
     (let c = (word_of_int code :: 16 word)
      in Env_Bytes (ENV_CLOSE # ucast (drop_bit 8 c) # ucast c # ascii_bytes reason))"

definition encode_frame :: "frame \<Rightarrow> envelope" where
  "encode_frame f = (case f of
       Text_Frame j \<Rightarrow> encode_text_envelope j
     | Binary_Frame bs \<Rightarrow> encode_binary_envelope bs
     | Close_Frame code reason \<Rightarrow> encode_close_envelope code reason)"

text \<open>What the subscriber of a peer's channel writes to its socket.\<close>

definition decode_envelope :: "envelope \<Rightarrow> frame option" where
  "decode_envelope e = (case e of
       Env_Json j \<Rightarrow> Some (Text_Frame j)
     | Env_Bytes [] \<Rightarrow> None
     | Env_Bytes (tag # rest) \<Rightarrow>
         (if tag = ENV_BINARY then Some (Binary_Frame rest)
          else if tag = ENV_CLOSE then
            (case rest of
               hi # lo # reason \<Rightarrow>
                 Some (Close_Frame (256 * uint hi + uint lo) (bytes_ascii reason))
             | _ \<Rightarrow> Some (Close_Frame 4010 ''''))
          else None))"

lemma ascii_roundtrip [simp]: "bytes_ascii (ascii_bytes s) = s"
proof -
  have "char_of (unat (word_of_nat (of_char c) :: 8 word)) = c" for c
  proof -
    have "(of_char c :: nat) < 256" by (rule nat_of_char_less_256)
    then have "unat (word_of_nat (of_char c) :: 8 word) = of_char c"
      by (simp add: unsigned_of_nat take_bit_eq_mod)
    then show ?thesis by simp
  qed
  then show ?thesis by (induction s) (simp_all add: bytes_ascii_def ascii_bytes_def)
qed

lemma close_code_bytes:
  assumes "0 \<le> code" and "code < 65536"
  shows "256 * uint (ucast (drop_bit 8 (word_of_int code :: 16 word)) :: 8 word) +
    uint (ucast (word_of_int code :: 16 word) :: 8 word) = code"
proof -
  have u: "uint (word_of_int code :: 16 word) = code"
    using assms by (simp add: uint_word_of_int)
  have "uint (ucast (drop_bit 8 (word_of_int code :: 16 word)) :: 8 word) = (code div 256) mod 256"
    by (simp only: unsigned_ucast_eq unsigned_drop_bit_eq u)
       (use assms in \<open>simp add: take_bit_eq_mod drop_bit_eq_div\<close>)
  moreover have "uint (ucast (word_of_int code :: 16 word) :: 8 word) = code mod 256"
    by (simp add: unsigned_ucast_eq u take_bit_eq_mod)
  moreover have "code div 256 < 256" "0 \<le> code div 256" using assms by auto
  ultimately show ?thesis by simp
qed

lemma envelope_roundtrip:
  assumes "\<And>code reason. f = Close_Frame code reason \<Longrightarrow> 0 \<le> code \<and> code < 65536"
  shows "decode_envelope (encode_frame f) = Some f"
  using assms close_code_bytes
  by (cases f) (simp_all add: encode_frame_def decode_envelope_def encode_text_envelope_def
      encode_binary_envelope_def encode_close_envelope_def ENV_BINARY_def ENV_CLOSE_def Let_def)

subsection \<open>Workers and the deployment\<close>

record worker =
  local_ws :: "string list"
  subscriptions :: "string list"
  local_rooms :: "(slug \<times> room) list"

record 's cluster =
  c_store :: 's
  c_up :: bool
  c_workers :: "(string \<times> worker) list"

definition worker_of :: "string \<Rightarrow> 's cluster \<Rightarrow> worker" where
  "worker_of w s = (case map_of (c_workers s) w of
       None \<Rightarrow> \<lparr>local_ws = [], subscriptions = [], local_rooms = []\<rparr>
     | Some k \<Rightarrow> k)"

definition set_worker :: "string \<Rightarrow> worker \<Rightarrow> 's cluster \<Rightarrow> 's cluster" where
  "set_worker w k s = s\<lparr>c_workers := AList.update w k (c_workers s)\<rparr>"

definition dispatch_pubsub_message :: "worker \<Rightarrow> string \<Rightarrow> envelope \<Rightarrow> deliveries" where
  "dispatch_pubsub_message k peer_id e =
     (if peer_id \<notin> set (local_ws k) then []
      else (case decode_envelope e of None \<Rightarrow> [] | Some f \<Rightarrow> [(peer_id, f)]))"

text \<open>\<open>PUBLISH\<close> to the channel of a peer.\<close>

definition publish :: "string \<Rightarrow> envelope \<Rightarrow> 's cluster \<Rightarrow> deliveries" where
  "publish peer_id e s = concat (map
     (\<lambda>(_, k). if peer_id \<in> set (subscriptions k) then dispatch_pubsub_message k peer_id e else [])
     (c_workers s))"

definition redis_get_room :: "string \<Rightarrow> slug \<Rightarrow> 's cluster \<Rightarrow> room option" where
  "redis_get_room w slug s = map_of (local_rooms (worker_of w s)) slug"

definition ensure_local_room :: "int \<Rightarrow> slug \<Rightarrow> worker \<Rightarrow> worker" where
  "ensure_local_room now slug k = (case map_of (local_rooms k) slug of
       None \<Rightarrow> k\<lparr>local_rooms := AList.update slug (new_room now) (local_rooms k)\<rparr>
     | Some r \<Rightarrow> k)"

definition redis_close_room ::
  "'s redis \<Rightarrow> string \<Rightarrow> slug \<Rightarrow> 's cluster \<Rightarrow> bool \<times> deliveries \<times> 's cluster" where
  "redis_close_room R w slug s =
     (if \<not> c_up s then (False, [], s)
      else
        (let peer_ids = HKEYS R (peers_key slug) (c_store s);
             k = worker_of w s;
             s1 = set_worker w (k\<lparr>local_rooms := AList.delete slug (local_rooms k)\<rparr>) s
         in if peer_ids = [] then (False, [], s1)
            else (True,
                  concat (map (\<lambda>q. publish q (encode_close_envelope 4010 ''Channel reported'') s) peer_ids),
                  s1\<lparr>c_store := DELS R [peers_key slug, host_key slug] (c_store s)\<rparr>)))"

definition peer_meta :: "string \<Rightarrow> int \<Rightarrow> peer \<Rightarrow> payload" where
  "peer_meta w now p = Doc (JObj [
     (''role'', JStr (p_role p)),
     (''worker_id'', JStr w),
     (''connected_at'', JInt now)])"

definition redis_register_peer ::
  "'s redis \<Rightarrow> string \<Rightarrow> int \<Rightarrow> slug \<Rightarrow> peer \<Rightarrow> 's cluster \<Rightarrow> register_result \<times> 's cluster" where
  "redis_register_peer R w now slug p s =
     (if \<not> c_up s then (Room_Limit_Reached, s)
      else (case atomic_register_peer R (peers_key slug) (host_key slug) (p_id p) (p_role p)
                   (peer_meta w now p) REDIS_MAX_PEERS_PER_ROOM ROOM_TTL_SECONDS (c_store s) of
              (result, store1) \<Rightarrow>
                (let s1 = s\<lparr>c_store := store1\<rparr>; k = worker_of w s1 in
                 if result = ''OK'' then
                   (Reg_OK, set_worker w (ensure_local_room now slug
                      (k\<lparr>local_ws := p_id p # local_ws k,
                         subscriptions := p_id p # subscriptions k\<rparr>)) s1)
                 else if result = ''HOST_TAKEN'' then (Host_Taken, s1)
                 else if result = ''ROOM_FULL'' then (Room_Full, s1)
                 else (Room_Limit_Reached, s1))))"

definition async_remove_peer :: "'s redis \<Rightarrow> string \<Rightarrow> slug \<Rightarrow> string \<Rightarrow> 's cluster \<Rightarrow> 's cluster" where
  "async_remove_peer R w slug peer_id s =
     (let store1 = HDEL R (peers_key slug) peer_id (c_store s);
          current_host = GET R (host_key slug) store1;
          store2 = (if current_host = Some (Text peer_id) then DEL R (host_key slug) store1 else store1);
          k = worker_of w s
      in (set_worker w (k\<lparr>subscriptions := removeAll peer_id (subscriptions k)\<rparr>) s)
           \<lparr>c_store := (if c_up s then store2 else c_store s)\<rparr>)"

definition redis_remove_peer :: "'s redis \<Rightarrow> string \<Rightarrow> int \<Rightarrow> slug \<Rightarrow> string \<Rightarrow> 's cluster \<Rightarrow> 's cluster" where
  "redis_remove_peer R w now slug peer_id s =
     (let k = worker_of w s;
          s1 = set_worker w (k\<lparr>local_ws := removeAll peer_id (local_ws k)\<rparr>) s
      in async_remove_peer R w slug peer_id s1)"

definition redis_peer_exists :: "'s redis \<Rightarrow> slug \<Rightarrow> string \<Rightarrow> 's cluster \<Rightarrow> bool" where
  "redis_peer_exists R slug peer_id s = (c_up s \<and> HEXISTS R (peers_key slug) peer_id (c_store s))"

definition redis_host_id_for :: "'s redis \<Rightarrow> slug \<Rightarrow> 's cluster \<Rightarrow> string option" where
  "redis_host_id_for R slug s =
     (if \<not> c_up s then None
      else (case GET R (host_key slug) (c_store s) of
              Some (Text h) \<Rightarrow> (if h = '''' then None else Some h)
            | _ \<Rightarrow> None))"

definition redis_send_to_peer ::
  "'s redis \<Rightarrow> string \<Rightarrow> slug \<Rightarrow> string \<Rightarrow> frame \<Rightarrow> 's cluster \<Rightarrow> bool \<times> deliveries" where
  "redis_send_to_peer R w slug peer_id f s =
     (if peer_id \<in> set (local_ws (worker_of w s)) then (True, [(peer_id, f)])
      else if \<not> c_up s then (False, [])
      else if \<not> HEXISTS R (peers_key slug) peer_id (c_store s) then (False, [])
      else (True, publish peer_id (encode_frame f) s))"

definition redis_broadcast_peer_left ::
  "'s redis \<Rightarrow> string \<Rightarrow> slug \<Rightarrow> string \<Rightarrow> 's cluster \<Rightarrow> deliveries" where
  "redis_broadcast_peer_left R w slug departed_id s =
     (if \<not> c_up s then []
      else concat (map (\<lambda>q.
          if q = departed_id then []
          else if q \<in> set (local_ws (worker_of w s)) then [(q, Text_Frame (peer_left_message departed_id))]
          else publish q (encode_text_envelope (peer_left_message departed_id)) s)
        (HKEYS R (peers_key slug) (c_store s))))"

definition redis_transport :: "'s redis \<Rightarrow> string \<Rightarrow> 's cluster transport" where
  "redis_transport R w = \<lparr>t_register = redis_register_peer R w, t_remove = redis_remove_peer R w,
     t_exists = redis_peer_exists R, t_host = redis_host_id_for R, t_close = redis_close_room R w,
     t_send = redis_send_to_peer R w, t_broadcast = redis_broadcast_peer_left R w,
     t_get_room = redis_get_room w\<rparr>"

subsection \<open>The view of the deployment\<close>

definition row_role :: "payload \<Rightarrow> string option" where
  "row_role p = (case p of
       Doc (JObj d) \<Rightarrow> (case map_of d ''role'' of Some (JStr r) \<Rightarrow> Some r | _ \<Rightarrow> None)
     | _ \<Rightarrow> None)"

definition cluster_roles :: "'s redis \<Rightarrow> 's cluster \<Rightarrow> slug \<Rightarrow> string \<Rightarrow> string option" where
  "cluster_roles R s slug q =
     Option.bind (cell_hash (look R (c_store s) (peers_key slug)) q) row_role"

text \<open>Exactly one worker has the socket of a peer and listens on its channel.\<close>

definition owned_by :: "'s cluster \<Rightarrow> string \<Rightarrow> string \<Rightarrow> bool" where
  "owned_by s q w = (map_of (c_workers s) w \<noteq> None \<and>
     (\<forall>w' k. map_of (c_workers s) w' = Some k \<longrightarrow>
        (q \<in> set (local_ws k) \<longleftrightarrow> w' = w) \<and> (q \<in> set (subscriptions k) \<longleftrightarrow> w' = w)))"

definition room_rows_ok :: "'s redis \<Rightarrow> 's cluster \<Rightarrow> slug \<Rightarrow> bool" where
  "room_rows_ok R s slug =
     (is_hash (look R (c_store s) (peers_key slug)) \<and>
      card (dom (cell_hash (look R (c_store s) (peers_key slug)))) \<le> MAX_PEERS_PER_ROOM \<and>
      (\<forall>q p. cell_hash (look R (c_store s) (peers_key slug)) q = Some p \<longrightarrow>
         q \<noteq> [] \<and> row_role p \<noteq> None \<and> (\<exists>w. owned_by s q w)) \<and>
      (\<forall>p. cell_str (look R (c_store s) (host_key slug)) = Some p \<longrightarrow> (\<exists>h. p = Text h)) \<and>
      (\<forall>h. cell_str (look R (c_store s) (host_key slug)) = Some (Text h) \<longleftrightarrow>
         cluster_roles R s slug h = Some ''host''))"

definition cluster_ok :: "'s redis \<Rightarrow> 's cluster \<Rightarrow> bool" where
  "cluster_ok R s = (c_up s \<and> distinct (map fst (c_workers s)) \<and> (\<forall>slug. room_rows_ok R s slug))"

definition cluster_fresh :: "'s redis \<Rightarrow> 's cluster \<Rightarrow> string \<Rightarrow> bool" where
  "cluster_fresh R s q =
     (q \<noteq> [] \<and> (\<forall>slug. cell_hash (look R (c_store s) (peers_key slug)) q = None) \<and>
      (\<forall>w k. map_of (c_workers s) w = Some k \<longrightarrow> q \<notin> set (local_ws k) \<and> q \<notin> set (subscriptions k)))"

lemma room_keys [simp, keys]:
  "peers_key a = peers_key b \<longleftrightarrow> a = b" "host_key a = host_key b \<longleftrightarrow> a = b"
  "peers_key a \<noteq> host_key b" "host_key b \<noteq> peers_key a"
proof -
  show "peers_key a = peers_key b \<longleftrightarrow> a = b" "host_key a = host_key b \<longleftrightarrow> a = b"
    by (simp_all add: peers_key_def host_key_def)
  have "last (peers_key a) \<noteq> last (host_key b)" by (simp add: peers_key_def host_key_def)
  then show "peers_key a \<noteq> host_key b" "host_key b \<noteq> peers_key a" by metis+
qed

lemma row_role_meta [simp]: "row_role (peer_meta w now p) = Some (p_role p)"
  by (simp add: row_role_def peer_meta_def)

lemma maps_single:
  assumes "distinct (map fst ws)" and "map_of ws w = Some k" and "f (w, k) = ys"
    and "\<And>w' k'. w' \<noteq> w \<Longrightarrow> map_of ws w' = Some k' \<Longrightarrow> f (w', k') = []"
  shows "concat (map f ws) = ys"
  using assms
proof (induction ws)
  case Nil
  then show ?case by simp
next
  case (Cons x ws)
  obtain v l where x: "x = (v, l)" by fastforce
  have d: "distinct (map fst ws)" "v \<notin> fst ` set ws" using Cons.prems(1) x by auto
  have nv: "map_of ws v = None" using d(2) by (simp add: map_of_eq_None_iff)
  show ?case
  proof (cases "v = w")
    case True
    have "f (w', k') = []" if "(w', k') \<in> set ws" for w' k'
    proof -
      have "w' \<noteq> v" using that d(2) by force
      then show ?thesis using Cons.prems(4) [of w' k'] that d(1) True x by (simp add: map_of_is_SomeI)
    qed
    then have "concat (map f ws) = []" by auto
    then show ?thesis using Cons.prems(2,3) x True by simp
  next
    case False
    have "f (v, l) = []" using Cons.prems(4) [of v l] False x by simp
    moreover have "concat (map f ws) = ys"
    proof (rule Cons.IH [OF d(1) _ Cons.prems(3)])
      show "map_of ws w = Some k" using Cons.prems(2) x False by simp
    next
      fix w' k' assume a: "w' \<noteq> w" "map_of ws w' = Some k'"
      then have "w' \<noteq> v" using nv by auto
      then show "f (w', k') = []" using Cons.prems(4) [of w' k'] a x by simp
    qed
    ultimately show ?thesis using x by simp
  qed
qed

lemma publish_owned:
  assumes "distinct (map fst (c_workers s))" and "owned_by s q w"
  shows "publish q e s = (case decode_envelope e of None \<Rightarrow> [] | Some f \<Rightarrow> [(q, f)])"
proof -
  obtain k where k: "map_of (c_workers s) w = Some k" using assms(2) by (auto simp: owned_by_def)
  show ?thesis
    unfolding publish_def
    by (rule maps_single [OF assms(1) k])
       (use assms(2) k in \<open>auto simp: owned_by_def dispatch_pubsub_message_def\<close>)
qed

lemma publish_frame:
  assumes "distinct (map fst (c_workers s))" and "owned_by s q w"
    and "\<And>code reason. f = Close_Frame code reason \<Longrightarrow> 0 \<le> code \<and> code < 65536"
  shows "publish q (encode_frame f) s = [(q, f)]"
  using publish_owned [OF assms(1,2)] envelope_roundtrip [OF assms(3)] by simp

lemma set_worker_simps [simp]:
  "c_store (set_worker w k s) = c_store s" "c_up (set_worker w k s) = c_up s"
  "map_of (c_workers (set_worker w k s)) = (map_of (c_workers s))(w \<mapsto> k)"
  "distinct (map fst (c_workers s)) \<Longrightarrow> distinct (map fst (c_workers (set_worker w k s)))"
  by (simp_all add: set_worker_def dict_simps AList.distinct_update)

lemma ensure_local_room_simps [simp]:
  "local_ws (ensure_local_room now slug k) = local_ws k"
  "subscriptions (ensure_local_room now slug k) = subscriptions k"
  by (simp_all add: ensure_local_room_def split: option.splits)

subsection \<open>Every operation keeps the deployment well formed\<close>

lemma cluster_okD:
  assumes "cluster_ok R s"
  shows "c_up s" and "distinct (map fst (c_workers s))"
    and "is_hash (look R (c_store s) (peers_key slug))"
    and "card (dom (cell_hash (look R (c_store s) (peers_key slug)))) \<le> MAX_PEERS_PER_ROOM"
    and "cell_hash (look R (c_store s) (peers_key slug)) q = Some p \<Longrightarrow> q \<noteq> []"
    and "cell_hash (look R (c_store s) (peers_key slug)) q = Some p \<Longrightarrow> row_role p \<noteq> None"
    and "cell_hash (look R (c_store s) (peers_key slug)) q = Some p \<Longrightarrow> \<exists>w. owned_by s q w"
    and "cell_str (look R (c_store s) (host_key slug)) = Some p \<Longrightarrow> \<exists>h. p = Text h"
    and "cell_str (look R (c_store s) (host_key slug)) = Some (Text h) \<longleftrightarrow>
      cluster_roles R s slug h = Some ''host''"
  using assms unfolding cluster_ok_def room_rows_ok_def by blast+

lemma cluster_roles_row: "cluster_ok R s \<Longrightarrow>
    cluster_roles R s slug q \<noteq> None \<longleftrightarrow> cell_hash (look R (c_store s) (peers_key slug)) q \<noteq> None"
  using cluster_okD(6) [of R s slug q]
  by (cases "cell_hash (look R (c_store s) (peers_key slug)) q") (auto simp: cluster_roles_def)

lemma dom_cluster_roles: "cluster_ok R s \<Longrightarrow>
    dom (cluster_roles R s slug) = dom (cell_hash (look R (c_store s) (peers_key slug)))"
  by (simp add: dom_def cluster_roles_row del: not_None_eq)

text \<open>The members own their sockets as before when only other ids change.\<close>

lemma owned_by_cong:
  assumes "owned_by s q w" and "map_of (c_workers s') w \<noteq> None"
    and "\<And>w' k. map_of (c_workers s') w' = Some k \<Longrightarrow>
       (q \<in> set (local_ws k) \<longleftrightarrow> (\<exists>k0. map_of (c_workers s) w' = Some k0 \<and> q \<in> set (local_ws k0))) \<and>
       (q \<in> set (subscriptions k) \<longleftrightarrow> (\<exists>k0. map_of (c_workers s) w' = Some k0 \<and> q \<in> set (subscriptions k0)))"
  shows "owned_by s' q w"
proof -
  obtain k where k: "map_of (c_workers s) w = Some k" using assms(1) by (auto simp: owned_by_def)
  show ?thesis
    unfolding owned_by_def
  proof (intro conjI allI impI)
    show "map_of (c_workers s') w \<noteq> None" by (rule assms(2))
  next
    fix w' k' assume k': "map_of (c_workers s') w' = Some k'"
    show "(q \<in> set (local_ws k')) = (w' = w)"
      using assms(1) assms(3) [OF k'] k unfolding owned_by_def by blast
    show "(q \<in> set (subscriptions k')) = (w' = w)"
      using assms(1) assms(3) [OF k'] k unfolding owned_by_def by blast
  qed
qed

text \<open>A worker's entry is replaced by one that agrees on the peer.\<close>

lemma owned_set_worker:
  assumes "owned_by s q v"
    and "q \<in> set (local_ws k) \<longleftrightarrow> q \<in> set (local_ws (worker_of w s))"
    and "q \<in> set (subscriptions k) \<longleftrightarrow> q \<in> set (subscriptions (worker_of w s))"
  shows "owned_by (set_worker w k s) q v"
proof (rule owned_by_cong [OF assms(1)])
  show "map_of (c_workers (set_worker w k s)) v \<noteq> None"
    using assms(1) by (auto simp: owned_by_def)
next
  fix w' k' assume a: "map_of (c_workers (set_worker w k s)) w' = Some k'"
  show "(q \<in> set (local_ws k') \<longleftrightarrow> (\<exists>k0. map_of (c_workers s) w' = Some k0 \<and> q \<in> set (local_ws k0))) \<and>
    (q \<in> set (subscriptions k') \<longleftrightarrow> (\<exists>k0. map_of (c_workers s) w' = Some k0 \<and> q \<in> set (subscriptions k0)))"
    using a assms(2,3) by (cases "w' = w") (auto simp: worker_of_def split: option.splits)
qed

lemma owned_store [simp]: "owned_by (s\<lparr>c_store := x\<rparr>) q w = owned_by s q w"
  by (simp add: owned_by_def)

lemma owned_new:
  assumes "\<And>w' k. map_of (c_workers s) w' = Some k \<Longrightarrow> q \<notin> set (local_ws k) \<and> q \<notin> set (subscriptions k)"
    and "q \<in> set (local_ws k)" and "q \<in> set (subscriptions k)"
  shows "owned_by (set_worker w k s) q w"
  using assms by (auto simp: owned_by_def)

context redis_server
begin

lemma register_script:
  assumes "is_hash (look R s pk)" and "pk \<noteq> hk" and "0 < t"
    and "atomic_register_peer R pk hk q role meta mx t s = (r, s')"
  shows "r = ''OK'' \<Longrightarrow> look R s' k =
      (if k = pk then Some (RHash ((cell_hash (look R s pk))(q \<mapsto> meta)), Some (nat t))
       else if k = hk \<and> role = ''host'' then Some (RStr (Text q), Some (nat t))
       else look R s k)"
    and "r = ''OK'' \<Longrightarrow> role = ''host'' \<Longrightarrow> GET R hk s \<in> {None, Some (Text [])}"
    and "r = ''OK'' \<Longrightarrow> int (card (dom (cell_hash (look R s pk)))) < mx"
    and "r \<noteq> ''OK'' \<Longrightarrow> s' = s"
  using assms
  by (auto simp: atomic_register_peer_def Let_def HLEN_card GET_def split: if_splits)

lemma no_host_role:
  assumes "cluster_ok R s" and "GET R (host_key slug) (c_store s) \<in> {None, Some (Text [])}"
  shows "cluster_roles R s slug h \<noteq> Some ''host''"
proof
  assume h: "cluster_roles R s slug h = Some ''host''"
  then have "cell_str (look R (c_store s) (host_key slug)) = Some (Text h)"
    using cluster_okD(9) [OF assms(1)] by blast
  then have "h = []" using assms(2) by (auto simp: GET_def)
  moreover obtain p where "cell_hash (look R (c_store s) (peers_key slug)) h = Some p"
    using h by (auto simp: cluster_roles_def Option.bind_eq_Some_conv)
  ultimately show False using cluster_okD(5) [OF assms(1)] by blast
qed

lemma redis_register_cases:
  assumes ok: "cluster_ok R s" and reg: "redis_register_peer R w now slug p s = (r, s')"
  obtains "r \<noteq> Reg_OK" and "s' = s"
  | store1 k1 where "r = Reg_OK"
    and "s' = set_worker w k1 (s\<lparr>c_store := store1\<rparr>)"
    and "set (local_ws k1) = insert (p_id p) (set (local_ws (worker_of w s)))"
    and "set (subscriptions k1) = insert (p_id p) (set (subscriptions (worker_of w s)))"
    and "\<And>k. look R store1 k =
      (if k = peers_key slug then
         Some (RHash ((cell_hash (look R (c_store s) (peers_key slug)))(p_id p \<mapsto> peer_meta w now p)), Some 21600)
       else if k = host_key slug \<and> p_role p = ''host'' then Some (RStr (Text (p_id p)), Some 21600)
       else look R (c_store s) k)"
    and "p_role p = ''host'' \<Longrightarrow> GET R (host_key slug) (c_store s) \<in> {None, Some (Text [])}"
    and "card (dom (cell_hash (look R (c_store s) (peers_key slug)))) < MAX_PEERS_PER_ROOM"
proof -
  obtain res store1 where a: "atomic_register_peer R (peers_key slug) (host_key slug) (p_id p) (p_role p)
      (peer_meta w now p) REDIS_MAX_PEERS_PER_ROOM ROOM_TTL_SECONDS (c_store s) = (res, store1)" by fastforce
  have ttl: "0 < ROOM_TTL_SECONDS" "nat ROOM_TTL_SECONDS = 21600" by (simp_all add: ROOM_TTL_SECONDS_def)
  note scr = register_script [OF cluster_okD(3) [OF ok] room_keys(3) ttl(1) a, unfolded ttl(2)]
  have wk: "worker_of w (s\<lparr>c_store := store1\<rparr>) = worker_of w s" by (simp add: worker_of_def)
  show thesis
  proof (cases "res = ''OK''")
    case False
    then have "r \<noteq> Reg_OK" "s' = s"
      using reg a scr(4) [OF False] cluster_okD(1) [OF ok]
      by (auto simp: redis_register_peer_def Let_def split: if_splits)
    then show thesis by (rule that(1))
  next
    case True
    let ?k1 = "ensure_local_room now slug ((worker_of w s)\<lparr>local_ws := p_id p # local_ws (worker_of w s),
       subscriptions := p_id p # subscriptions (worker_of w s)\<rparr>)"
    have "r = Reg_OK" "s' = set_worker w ?k1 (s\<lparr>c_store := store1\<rparr>)"
      using reg a True cluster_okD(1) [OF ok] by (auto simp: redis_register_peer_def Let_def wk)
    then show thesis
    proof (rule that(2))
      show "card (dom (cell_hash (look R (c_store s) (peers_key slug)))) < MAX_PEERS_PER_ROOM"
        using scr(3) [OF True] by (simp add: REDIS_MAX_PEERS_PER_ROOM_def MAX_PEERS_PER_ROOM_def)
    qed (use scr(1) [OF True] scr(2) [OF True] in auto)
  qed
qed

lemma redis_register_spec:
  assumes ok: "cluster_ok R s" and fresh: "cluster_fresh R s (p_id p)"
    and reg: "redis_register_peer R w now slug p s = (r, s')"
  shows "cluster_roles R s' = (if r = Reg_OK
      then (cluster_roles R s)(slug := (cluster_roles R s slug)(p_id p \<mapsto> p_role p)) else cluster_roles R s)"
    and "cluster_ok R s'"
    and "r = Reg_OK \<Longrightarrow> p_role p = ''host'' \<Longrightarrow> cluster_roles R s slug h \<noteq> Some ''host''"
    and "r = Reg_OK \<Longrightarrow> card (dom (cluster_roles R s slug)) < MAX_PEERS_PER_ROOM"
proof -
  have new: "p_id p \<noteq> []" "\<And>sl. cell_hash (look R (c_store s) (peers_key sl)) (p_id p) = None"
    "\<And>w' k. map_of (c_workers s) w' = Some k \<Longrightarrow> p_id p \<notin> set (local_ws k) \<and> p_id p \<notin> set (subscriptions k)"
    using fresh by (auto simp: cluster_fresh_def)
  have "cluster_roles R s' = (if r = Reg_OK
      then (cluster_roles R s)(slug := (cluster_roles R s slug)(p_id p \<mapsto> p_role p)) else cluster_roles R s) \<and>
    cluster_ok R s' \<and>
    (r = Reg_OK \<longrightarrow> p_role p = ''host'' \<longrightarrow> cluster_roles R s slug h \<noteq> Some ''host'') \<and>
    (r = Reg_OK \<longrightarrow> card (dom (cluster_roles R s slug)) < MAX_PEERS_PER_ROOM)"
  proof (rule redis_register_cases [OF ok reg])
    assume "r \<noteq> Reg_OK" and "s' = s"
    then show ?thesis using ok by simp
  next
    fix store1 k1
    assume r: "r = Reg_OK" and s': "s' = set_worker w k1 (s\<lparr>c_store := store1\<rparr>)"
      and lws: "set (local_ws k1) = insert (p_id p) (set (local_ws (worker_of w s)))"
      and sbs: "set (subscriptions k1) = insert (p_id p) (set (subscriptions (worker_of w s)))"
      and lk: "\<And>k. look R store1 k =
        (if k = peers_key slug then
           Some (RHash ((cell_hash (look R (c_store s) (peers_key slug)))(p_id p \<mapsto> peer_meta w now p)), Some 21600)
         else if k = host_key slug \<and> p_role p = ''host'' then Some (RStr (Text (p_id p)), Some 21600)
         else look R (c_store s) k)"
      and free: "p_role p = ''host'' \<Longrightarrow> GET R (host_key slug) (c_store s) \<in> {None, Some (Text [])}"
      and lt: "card (dom (cell_hash (look R (c_store s) (peers_key slug)))) < MAX_PEERS_PER_ROOM"
    have store: "c_store s' = store1" by (simp add: s')
    have roles: "cluster_roles R s' = (cluster_roles R s)(slug := (cluster_roles R s slug)(p_id p \<mapsto> p_role p))"
      by (auto simp: fun_eq_iff cluster_roles_def store lk)
    have old: "owned_by s' q v" if "owned_by s q v" and "q \<noteq> p_id p" for q v
      unfolding s' using that lws sbs
      by (intro owned_set_worker) (auto simp: worker_of_def)
    have mine: "owned_by s' (p_id p) w"
      unfolding s' using new(3) lws sbs by (intro owned_new) auto
    have rows: "room_rows_ok R s' sl" for sl
    proof -
      have hash: "is_hash (look R store1 (peers_key sl))" using cluster_okD(3) [OF ok] by (simp add: lk)
      have card: "card (dom (cell_hash (look R store1 (peers_key sl)))) \<le> MAX_PEERS_PER_ROOM"
      proof (cases "sl = slug")
        case True
        then show ?thesis
          using lt new(2) finite_fields [of "c_store s" "peers_key slug"] by (simp add: lk card_insert_if)
      next
        case False
        then show ?thesis using cluster_okD(4) [OF ok] by (simp add: lk)
      qed
      have row: "q \<noteq> [] \<and> row_role m \<noteq> None \<and> (\<exists>w. owned_by s' q w)"
        if "cell_hash (look R store1 (peers_key sl)) q = Some m" for q m
      proof (cases "q = p_id p")
        case True
        then have "sl = slug" using that new(2) by (auto simp: lk split: if_splits)
        then show ?thesis using that True mine new(1) by (auto simp: lk)
      next
        case False
        then have "cell_hash (look R (c_store s) (peers_key sl)) q = Some m"
          using that by (auto simp: lk split: if_splits)
        then show ?thesis using cluster_okD(5-7) [OF ok] old False by blast
      qed
      have host: "cell_str (look R store1 (host_key sl)) = Some (Text h) \<longleftrightarrow> cluster_roles R s' sl h = Some ''host''" for h
      proof (cases "sl = slug")
        case True
        show ?thesis
        proof (cases "p_role p = ''host''")
          case True
          then show ?thesis using no_host_role [OF ok free [OF True]] \<open>sl = slug\<close> by (auto simp: lk roles)
        next
          case False
          have "cluster_roles R s slug (p_id p) = None" by (simp add: cluster_roles_def new(2))
          then show ?thesis using cluster_okD(9) [OF ok, of slug h] False \<open>sl = slug\<close> by (auto simp: lk roles)
        qed
      next
        case False
        then show ?thesis using cluster_okD(9) [OF ok, of sl h] by (simp add: lk roles)
      qed
      have "\<exists>h. m = Text h" if "cell_str (look R store1 (host_key sl)) = Some m" for m
        using that cluster_okD(8) [OF ok] by (auto simp: lk split: if_splits)
      then show ?thesis using hash card row host unfolding room_rows_ok_def store by blast
    qed
    have "cluster_ok R s'"
      unfolding cluster_ok_def
    proof (intro conjI allI)
      show "room_rows_ok R s' sl" for sl by (rule rows)
    qed (use cluster_okD(1,2) [OF ok] in \<open>simp_all add: s'\<close>)
    moreover have "p_role p = ''host'' \<longrightarrow> cluster_roles R s slug h \<noteq> Some ''host''"
      using no_host_role [OF ok] free by blast
    ultimately show ?thesis using r roles lt dom_cluster_roles [OF ok] by simp
  qed
  then show "cluster_roles R s' = (if r = Reg_OK
      then (cluster_roles R s)(slug := (cluster_roles R s slug)(p_id p \<mapsto> p_role p)) else cluster_roles R s)"
    and "cluster_ok R s'"
    and "r = Reg_OK \<Longrightarrow> p_role p = ''host'' \<Longrightarrow> cluster_roles R s slug h \<noteq> Some ''host''"
    and "r = Reg_OK \<Longrightarrow> card (dom (cluster_roles R s slug)) < MAX_PEERS_PER_ROOM" by blast+
qed

text \<open>
  Leaving and closing take rows away; what remains is as before when every remaining
  member still has its socket.
\<close>

lemma cluster_ok_shrink:
  assumes ok: "cluster_ok R s" and up: "c_up s'" and ws: "distinct (map fst (c_workers s'))"
    and hash: "\<And>sl. is_hash (look R (c_store s') (peers_key sl))"
    and rows: "\<And>sl q. cell_hash (look R (c_store s') (peers_key sl)) q =
       (if gone sl q then None else cell_hash (look R (c_store s) (peers_key sl)) q)"
    and host: "\<And>sl. cell_str (look R (c_store s') (host_key sl)) =
       (case cell_str (look R (c_store s) (host_key sl)) of
          Some (Text h) \<Rightarrow> if gone sl h then None else Some (Text h) | _ \<Rightarrow> None)"
    and owned: "\<And>sl q v m. cell_hash (look R (c_store s) (peers_key sl)) q = Some m \<Longrightarrow>
       \<not> gone sl q \<Longrightarrow> owned_by s q v \<Longrightarrow> owned_by s' q v"
  shows "cluster_ok R s'" and "cluster_roles R s' sl q = (if gone sl q then None else cluster_roles R s sl q)"
proof -
  show roles: "cluster_roles R s' sl q = (if gone sl q then None else cluster_roles R s sl q)" for sl q
    by (simp add: cluster_roles_def rows)
  have "room_rows_ok R s' sl" for sl
  proof -
    have "dom (cell_hash (look R (c_store s') (peers_key sl))) \<subseteq> dom (cell_hash (look R (c_store s) (peers_key sl)))"
      by (auto simp: rows split: if_splits)
    from card_mono [OF finite_fields this]
    have card: "card (dom (cell_hash (look R (c_store s') (peers_key sl)))) \<le> MAX_PEERS_PER_ROOM"
      using cluster_okD(4) [OF ok, of sl] by linarith
    have row: "q \<noteq> [] \<and> row_role m \<noteq> None \<and> (\<exists>w. owned_by s' q w)"
      if m: "cell_hash (look R (c_store s') (peers_key sl)) q = Some m" for q m
    proof -
      have "\<not> gone sl q" "cell_hash (look R (c_store s) (peers_key sl)) q = Some m"
        using m by (auto simp: rows split: if_splits)
      then show ?thesis using cluster_okD(5-7) [OF ok] owned by blast
    qed
    have strs: "\<exists>h. m = Text h" if "cell_str (look R (c_store s') (host_key sl)) = Some m" for m
      using that by (auto simp: host split: option.splits payload.splits if_splits)
    have "cell_str (look R (c_store s') (host_key sl)) = Some (Text h) \<longleftrightarrow> cluster_roles R s' sl h = Some ''host''" for h
      using cluster_okD(9) [OF ok, of sl h]
      by (auto simp: host roles split: option.splits payload.splits if_splits)
    then show ?thesis using hash card row strs unfolding room_rows_ok_def by blast
  qed
  then show "cluster_ok R s'" unfolding cluster_ok_def using up ws by blast
qed

lemma redis_remove_spec:
  assumes ok: "cluster_ok R s" and elsewhere: "\<forall>slug'. slug' \<noteq> slug \<longrightarrow> cluster_roles R s slug' q = None"
  shows "cluster_ok R (redis_remove_peer R w now slug q s)"
    and "cluster_roles R (redis_remove_peer R w now slug q s) =
      (cluster_roles R s)(slug := (cluster_roles R s slug)(q := None))"
proof -
  let ?k = "worker_of w s"
  define k1 where "k1 = ?k\<lparr>local_ws := removeAll q (local_ws ?k)\<rparr>"
  define k2 where "k2 = k1\<lparr>subscriptions := removeAll q (subscriptions k1)\<rparr>"
  define s1 where "s1 = HDEL R (peers_key slug) q (c_store s)"
  define s2 where "s2 = (if GET R (host_key slug) s1 = Some (Text q) then DEL R (host_key slug) s1 else s1)"
  have wk: "worker_of w (set_worker w k1 s) = k1" by (simp add: worker_of_def)
  have e: "redis_remove_peer R w now slug q s = (set_worker w k2 (set_worker w k1 s))\<lparr>c_store := s2\<rparr>"
    using cluster_okD(1) [OF ok] wk unfolding redis_remove_peer_def async_remove_peer_def Let_def
    by (simp add: k1_def [symmetric] k2_def [symmetric] s1_def [symmetric] s2_def)
  note h = cluster_okD(3) [OF ok, of slug]
  have l1: "look R s1 k = (if k = peers_key slug then
         (if (cell_hash (look R (c_store s) k))(q := None) = Map.empty then None
          else Some (RHash ((cell_hash (look R (c_store s) k))(q := None)), cell_ttl (look R (c_store s) k)))
       else look R (c_store s) k)" for k
    using look_HDEL [OF h, of q k] by (simp add: s1_def)
  have l2: "look R s2 k = (if k = host_key slug \<and> cell_str (look R (c_store s) k) = Some (Text q)
      then None else look R s1 k)" for k
    by (auto simp: s2_def GET_def l1)
  have nh: "cell_str (look R (c_store s) (host_key sl)) \<noteq> Some (Text q)" if "sl \<noteq> slug" for sl
    using cluster_okD(9) [OF ok, of sl q] elsewhere that by auto
  have rows: "cell_hash (look R s2 (peers_key sl)) q' =
      (if sl = slug \<and> q' = q then None else cell_hash (look R (c_store s) (peers_key sl)) q')" for sl q'
    by (simp add: l2 l1 fun_eq_iff)
  have hosts: "cell_str (look R s2 (host_key sl)) = (case cell_str (look R (c_store s) (host_key sl)) of
          Some (Text h) \<Rightarrow> if sl = slug \<and> h = q then None else Some (Text h) | _ \<Rightarrow> None)" for sl
    using cluster_okD(8) [OF ok, of sl] by (auto simp: l2 l1 split: option.splits payload.splits)
  have own: "owned_by (set_worker w k2 (set_worker w k1 s)) q' v"
    if "cell_hash (look R (c_store s) (peers_key sl)) q' = Some m" "\<not> (sl = slug \<and> q' = q)" "owned_by s q' v"
    for sl q' v m
  proof -
    have "q' \<noteq> q"
    proof
      assume "q' = q"
      then have "sl \<noteq> slug" using that(2) by simp
      then have "cluster_roles R s sl q = None" using elsewhere by simp
      then show False using that(1) \<open>q' = q\<close> cluster_roles_row [OF ok, of sl q] by simp
    qed
    then have "owned_by (set_worker w k1 s) q' v"
      by (intro owned_set_worker [OF that(3)]) (auto simp: k1_def)
    from owned_set_worker [OF this, of k2 w] show ?thesis using \<open>q' \<noteq> q\<close> by (auto simp: wk k2_def)
  qed
  have hash: "is_hash (look R s2 (peers_key sl))" for sl
    using cluster_okD(3) [OF ok, of sl] by (simp add: l2 l1)
  define t where "t = redis_remove_peer R w now slug q s"
  have t: "c_store t = s2" "c_up t" "distinct (map fst (c_workers t))"
    "\<And>q v. owned_by t q v = owned_by (set_worker w k2 (set_worker w k1 s)) q v"
    using cluster_okD(1,2) [OF ok] by (simp_all add: t_def e)
  note shrink = cluster_ok_shrink [OF ok t(2,3), where gone = "\<lambda>sl q'. sl = slug \<and> q' = q",
      unfolded t(1,4), OF hash rows hosts own]
  show "cluster_ok R (redis_remove_peer R w now slug q s)"
    using shrink(1) by (simp add: t_def)
  show "cluster_roles R (redis_remove_peer R w now slug q s) =
      (cluster_roles R s)(slug := (cluster_roles R s slug)(q := None))"
    using shrink(2) by (auto simp: t_def fun_eq_iff)
qed

lemma redis_close_spec:
  assumes ok: "cluster_ok R s" and cl: "redis_close_room R w slug s = (b, ds, s')"
  shows "cluster_ok R s'" and "cluster_roles R s' = (cluster_roles R s)(slug := Map.empty)"
    and "cluster_roles R s slug \<noteq> Map.empty \<Longrightarrow> b"
    and "set ds = dom (cluster_roles R s slug) \<times> {reported_close}"
proof -
  let ?ids = "HKEYS R (peers_key slug) (c_store s)"
  let ?k1 = "(worker_of w s)\<lparr>local_rooms := AList.delete slug (local_rooms (worker_of w s))\<rparr>"
  have ids: "set ?ids = dom (cluster_roles R s slug)"
    by (simp add: HKEYS_fields dom_cluster_roles [OF ok])
  have cl': "b = (?ids \<noteq> [])"
    "ds = (if ?ids = [] then [] else
       concat (map (\<lambda>q. publish q (encode_close_envelope 4010 ''Channel reported'') s) ?ids))"
    "s' = (set_worker w ?k1 s)\<lparr>c_store := (if ?ids = [] then c_store s
       else DELS R [peers_key slug, host_key slug] (c_store s))\<rparr>"
    using cl cluster_okD(1) [OF ok] by (auto simp: redis_close_room_def Let_def split: if_splits)
  have own: "owned_by (set_worker w ?k1 s) q v" if "owned_by s q v" for q v
    using that by (rule owned_set_worker) simp_all
  have empty: "cell_hash (look R (c_store s) (peers_key slug)) q = None" if "?ids = []" for q
    using that HKEYS_fields [of "peers_key slug" "c_store s"] by (auto simp: dom_def)
  have none: "cell_str (look R (c_store s) (host_key slug)) \<noteq> Some (Text h)" if "?ids = []" for h
    using cluster_okD(9) [OF ok, of slug h] empty [OF that] by (simp add: cluster_roles_def)
  have "cluster_ok R s' \<and> (\<forall>sl q. cluster_roles R s' sl q = (if sl = slug then None else cluster_roles R s sl q))"
  proof -
    have "look R (c_store s') k = (if ?ids \<noteq> [] \<and> (k = peers_key slug \<or> k = host_key slug) then None
        else look R (c_store s) k)" for k
      by (auto simp: cl'(3))
    note lk = this
    have hash: "is_hash (look R (c_store s') (peers_key sl))" for sl
      using cluster_okD(3) [OF ok, of sl] by (simp add: lk)
    have rows: "cell_hash (look R (c_store s') (peers_key sl)) q =
        (if sl = slug then None else cell_hash (look R (c_store s) (peers_key sl)) q)" for sl q
      using empty [of q] by (auto simp: lk)
    have hosts: "cell_str (look R (c_store s') (host_key sl)) = (case cell_str (look R (c_store s) (host_key sl)) of
          Some (Text h) \<Rightarrow> if sl = slug then None else Some (Text h) | _ \<Rightarrow> None)" for sl
      using cluster_okD(8) [OF ok, of sl] none by (auto simp: lk split: option.splits payload.splits)
    show ?thesis
      using cluster_ok_shrink [OF ok, of s' "\<lambda>sl q. sl = slug"] hash rows hosts own cluster_okD(1,2) [OF ok]
      by (simp add: cl'(3))
  qed
  then show "cluster_ok R s'" "cluster_roles R s' = (cluster_roles R s)(slug := Map.empty)"
    by (auto simp: fun_eq_iff)
  show "b" if "cluster_roles R s slug \<noteq> Map.empty"
    using that ids by (cases ?ids) (auto simp: cl'(1) dom_def fun_eq_iff)
  have "publish q (encode_close_envelope 4010 ''Channel reported'') s = [(q, reported_close)]"
    if qin: "q \<in> set ?ids" for q
  proof -
    obtain m where "cell_hash (look R (c_store s) (peers_key slug)) q = Some m"
      using qin by (auto simp: HKEYS_fields)
    then obtain v where "owned_by s q v" using cluster_okD(7) [OF ok] by blast
    from publish_frame [OF cluster_okD(2) [OF ok] this, of reported_close]
    show ?thesis by (simp add: reported_close_def encode_frame_def)
  qed
  then have "set (concat (map (\<lambda>q. publish q (encode_close_envelope 4010 ''Channel reported'') s) ?ids)) =
      set ?ids \<times> {reported_close}"
    by (auto simp: set_concat)
  then show "set ds = dom (cluster_roles R s slug) \<times> {reported_close}"
  proof (cases "?ids = []")
    case True
    then show ?thesis using ids by (simp add: cl'(2) flip: ids)
  next
    case False
    then have "ds = concat (map (\<lambda>q. publish q (encode_close_envelope 4010 ''Channel reported'') s) ?ids)"
      by (simp add: cl'(2))
    then show ?thesis using \<open>set (concat _) = _\<close> ids by (simp only:)
  qed
qed

lemma member_owned:
  assumes "cluster_ok R s" and "cluster_roles R s slug q \<noteq> None"
  obtains v where "owned_by s q v"
  using assms cluster_roles_row [OF assms(1), of slug q] cluster_okD(7) [OF assms(1), of slug q] by auto

lemma redis_send_spec:
  assumes ok: "cluster_ok R s" and q: "cluster_roles R s slug q \<noteq> None" and "\<not> (\<exists>c m. f = Close_Frame c m)"
  shows "redis_send_to_peer R w slug q f s = (True, [(q, f)])"
proof -
  obtain v where v: "owned_by s q v" using member_owned [OF ok q] .
  have "HEXISTS R (peers_key slug) q (c_store s)"
    using q cluster_roles_row [OF ok] by (simp add: HEXISTS_def HGET_def del: not_None_eq)
  moreover have "publish q (encode_frame f) s = [(q, f)]"
    using publish_frame [OF cluster_okD(2) [OF ok] v, of f] assms(3) by blast
  ultimately show ?thesis using cluster_okD(1) [OF ok] by (simp add: redis_send_to_peer_def)
qed

lemma redis_broadcast_spec:
  assumes ok: "cluster_ok R s" and d: "cluster_roles R s slug d = None"
  shows "set (redis_broadcast_peer_left R w slug d s) =
    dom (cluster_roles R s slug) \<times> {Text_Frame (peer_left_message d)}"
proof -
  let ?f = "Text_Frame (peer_left_message d)"
  let ?ids = "HKEYS R (peers_key slug) (c_store s)"
  have ids: "set ?ids = dom (cluster_roles R s slug)"
    by (simp add: HKEYS_fields dom_cluster_roles [OF ok])
  have one: "(if q = d then [] else if q \<in> set (local_ws (worker_of w s)) then [(q, ?f)]
      else publish q (encode_text_envelope (peer_left_message d)) s) = [(q, ?f)]" if "q \<in> set ?ids" for q
  proof -
    have q: "cluster_roles R s slug q \<noteq> None" using that ids by auto
    then obtain v where "owned_by s q v" using member_owned [OF ok] by blast
    from publish_frame [OF cluster_okD(2) [OF ok] this, of ?f] q d show ?thesis
      by (auto simp: encode_frame_def)
  qed
  have "set (redis_broadcast_peer_left R w slug d s) = set ?ids \<times> {?f}"
    using one cluster_okD(1) [OF ok] by (force simp: redis_broadcast_peer_left_def set_concat)
  then show ?thesis by (simp only: ids)
qed

lemma redis_transport_simps:
  "t_register (redis_transport R w) = redis_register_peer R w"
  "t_remove (redis_transport R w) = redis_remove_peer R w"
  "t_exists (redis_transport R w) = redis_peer_exists R"
  "t_host (redis_transport R w) = redis_host_id_for R"
  "t_close (redis_transport R w) = redis_close_room R w"
  "t_send (redis_transport R w) = redis_send_to_peer R w"
  "t_broadcast (redis_transport R w) = redis_broadcast_peer_left R w"
  by (simp_all add: redis_transport_def)

text \<open>The verdict of the script is the one on the members.\<close>

lemma redis_register_verdict:
  assumes ok: "cluster_ok R s"
  shows "fst (redis_register_peer R w now slug p s) = room_verdict (cluster_roles R s slug) (p_role p)"
proof -
  have "GET R (host_key slug) (c_store s) \<notin> {None, Some (Text [])} \<longleftrightarrow> ''host'' \<in> ran (cluster_roles R s slug)"
  proof
    assume "GET R (host_key slug) (c_store s) \<notin> {None, Some (Text [])}"
    then obtain v where v: "cell_str (look R (c_store s) (host_key slug)) = Some v" by (auto simp: GET_def)
    then obtain h where "v = Text h" using cluster_okD(8) [OF ok] by blast
    then have "cluster_roles R s slug h = Some ''host''" using v cluster_okD(9) [OF ok] by blast
    then show "''host'' \<in> ran (cluster_roles R s slug)" by (rule ranI)
  next
    assume "''host'' \<in> ran (cluster_roles R s slug)"
    then obtain h where "cluster_roles R s slug h = Some ''host''" by (auto simp: ran_def)
    then show "GET R (host_key slug) (c_store s) \<notin> {None, Some (Text [])}"
      using no_host_role [OF ok] by blast
  qed
  then have scr: "fst (atomic_register_peer R (peers_key slug) (host_key slug) (p_id p) (p_role p)
      (peer_meta w now p) REDIS_MAX_PEERS_PER_ROOM ROOM_TTL_SECONDS (c_store s)) =
    (case room_verdict (cluster_roles R s slug) (p_role p) of
       Host_Taken \<Rightarrow> ''HOST_TAKEN'' | Room_Full \<Rightarrow> ''ROOM_FULL'' | _ \<Rightarrow> ''OK'')"
    by (auto simp: atomic_register_peer_def Let_def room_verdict_def HLEN_card dom_cluster_roles [OF ok]
        REDIS_MAX_PEERS_PER_ROOM_def MAX_PEERS_PER_ROOM_def)
  have "room_verdict (cluster_roles R s slug) (p_role p) \<noteq> Room_Limit_Reached"
    by (simp add: room_verdict_def)
  with scr show ?thesis
    using cluster_okD(1) [OF ok]
    by (auto simp: redis_register_peer_def Let_def split: prod.splits register_result.splits)
qed

lemma cluster_fresh_iff:
  assumes "cluster_ok R s"
  shows "cluster_fresh R s q =
    (q \<noteq> [] \<and> (\<forall>slug. cluster_roles R s slug q = None) \<and>
     (\<forall>w k. map_of (c_workers s) w = Some k \<longrightarrow> q \<notin> set (local_ws k) \<and> q \<notin> set (subscriptions k)))"
proof -
  have "(cluster_roles R s slug q = None) = (cell_hash (look R (c_store s) (peers_key slug)) q = None)" for slug
    using cluster_roles_row [OF assms, of slug q] by blast
  then show ?thesis by (simp add: cluster_fresh_def)
qed

lemma redis_register_fresh:
  assumes ok: "cluster_ok R s" and new: "cluster_fresh R s (p_id p)" and i: "cluster_fresh R s i"
    and ne: "i \<noteq> p_id p"
  shows "cluster_fresh R (snd (redis_register_peer R w now slug p s)) i"
proof -
  obtain r s' where reg: "redis_register_peer R w now slug p s = (r, s')" by fastforce
  note spec = redis_register_spec(1,2) [OF ok new reg]
  have old: "\<And>slug. cluster_roles R s slug i = None"
    "\<And>w k. map_of (c_workers s) w = Some k \<Longrightarrow> i \<notin> set (local_ws k) \<and> i \<notin> set (subscriptions k)" "i \<noteq> []"
    using i unfolding cluster_fresh_iff [OF ok] by blast+
  have w_old: "i \<notin> set (local_ws (worker_of w s))" "i \<notin> set (subscriptions (worker_of w s))"
    using old(2) by (auto simp: worker_of_def split: option.splits)
  have "i \<notin> set (local_ws k) \<and> i \<notin> set (subscriptions k)"
    if "map_of (c_workers s') v = Some k" for v k
    using redis_register_cases [OF ok reg]
  proof cases
    case 1
    then show ?thesis using that old(2) by blast
  next
    case (2 store1 k1)
    then have "map_of (c_workers s') = (map_of (c_workers s))(w \<mapsto> k1)" by simp
    then show ?thesis using that old(2) w_old 2(3,4) ne by (cases "v = w") auto
  qed
  then have "cluster_fresh R s' i"
    using old spec(1) ne unfolding cluster_fresh_iff [OF spec(2)] by simp
  then show ?thesis by (simp add: reg)
qed

lemma redis_remove_fresh:
  assumes ok: "cluster_ok R s" and elsewhere: "\<forall>slug'. slug' \<noteq> slug \<longrightarrow> cluster_roles R s slug' q = None"
    and i: "cluster_fresh R s i"
  shows "cluster_fresh R (redis_remove_peer R w now slug q s) i"
proof -
  note spec = redis_remove_spec [OF ok elsewhere, of w now]
  have old: "\<And>slug. cluster_roles R s slug i = None"
    "\<And>w k. map_of (c_workers s) w = Some k \<Longrightarrow> i \<notin> set (local_ws k) \<and> i \<notin> set (subscriptions k)" "i \<noteq> []"
    using i unfolding cluster_fresh_iff [OF ok] by blast+
  have w_old: "i \<notin> set (local_ws (worker_of w s))" "i \<notin> set (subscriptions (worker_of w s))"
    using old(2) by (auto simp: worker_of_def split: option.splits)
  have "i \<notin> set (local_ws k) \<and> i \<notin> set (subscriptions k)"
    if "map_of (c_workers (redis_remove_peer R w now slug q s)) v = Some k" for v k
    using that old(2) [of v] w_old
    by (auto simp: redis_remove_peer_def async_remove_peer_def Let_def worker_of_def
        simp del: map_of_eq_Some_iff split: if_splits)
  then show ?thesis using old spec(2) unfolding cluster_fresh_iff [OF spec(1)] by simp
qed

lemma redis_close_fresh:
  assumes ok: "cluster_ok R s" and i: "cluster_fresh R s i"
  shows "cluster_fresh R (snd (snd (redis_close_room R w slug s))) i"
proof -
  obtain b ds s' where cl: "redis_close_room R w slug s = (b, ds, s')" using prod_cases3 by blast
  note spec = redis_close_spec(1,2) [OF ok cl]
  have old: "\<And>slug. cluster_roles R s slug i = None"
    "\<And>w k. map_of (c_workers s) w = Some k \<Longrightarrow> i \<notin> set (local_ws k) \<and> i \<notin> set (subscriptions k)" "i \<noteq> []"
    using i unfolding cluster_fresh_iff [OF ok] by blast+
  have w_old: "i \<notin> set (local_ws (worker_of w s))" "i \<notin> set (subscriptions (worker_of w s))"
    using old(2) by (auto simp: worker_of_def split: option.splits)
  have "i \<notin> set (local_ws k) \<and> i \<notin> set (subscriptions k)"
    if "map_of (c_workers s') v = Some k" for v k
  proof (cases "v = w")
    case True
    then show ?thesis using that cl w_old cluster_okD(1) [OF ok]
      by (auto simp: redis_close_room_def Let_def split: if_splits)
  next
    case False
    then have "map_of (c_workers s) v = Some k" using that cl cluster_okD(1) [OF ok]
      by (auto simp: redis_close_room_def Let_def split: if_splits)
    then show ?thesis using old(2) by blast
  qed
  then have "cluster_fresh R s' i" using old spec(2) unfolding cluster_fresh_iff [OF spec(1)] by simp
  then show ?thesis by (simp add: cl)
qed

end

text \<open>A worker of the deployment is a room transport, for every server.\<close>

sublocale redis_server \<subseteq> shared: metered_transport "redis_transport R w" "cluster_ok R" "cluster_roles R"
  "cluster_fresh R" "\<lambda>_. 0" 0 for w
proof
  fix s :: "'s cluster" and slug q h i :: string and p :: peer and now :: int and f :: frame
  assume ok: "cluster_ok R s"
  show "t_exists (redis_transport R w) slug q s = (cluster_roles R s slug q \<noteq> None)"
    using cluster_okD(1) [OF ok] cluster_roles_row [OF ok, of slug q]
    by (simp add: redis_transport_simps redis_peer_exists_def HEXISTS_def HGET_def del: not_None_eq)
  show "(t_host (redis_transport R w) slug s = Some h) = (cluster_roles R s slug h = Some ''host'')"
    using cluster_okD(1) [OF ok] cluster_okD(9) [OF ok, of slug h] no_host_role [OF ok, of slug h]
    by (auto simp: redis_transport_simps redis_host_id_for_def GET_def
        split: option.splits payload.splits if_splits)
  show "finite (dom (cluster_roles R s slug))" "card (dom (cluster_roles R s slug)) \<le> MAX_PEERS_PER_ROOM"
    using cluster_okD(4) [OF ok] by (simp_all add: dom_cluster_roles [OF ok] finite_fields)
  obtain b ds s' where cl: "redis_close_room R w slug s = (b, ds, s')" using prod_cases3 by blast
  note closed = redis_close_spec [OF ok cl]
  show "cluster_ok R (snd (snd (t_close (redis_transport R w) slug s)))"
    "cluster_roles R (snd (snd (t_close (redis_transport R w) slug s))) = (cluster_roles R s)(slug := Map.empty)"
    "set (fst (snd (t_close (redis_transport R w) slug s))) = dom (cluster_roles R s slug) \<times> {reported_close}"
    using closed by (simp_all add: redis_transport_simps cl)
  show "fst (t_close (redis_transport R w) slug s)" if "cluster_roles R s slug \<noteq> Map.empty"
    using closed(3) that by (simp add: redis_transport_simps cl)
  show "t_send (redis_transport R w) slug q f s = (True, [(q, f)])"
    if "cluster_roles R s slug q \<noteq> None" and "\<not> (\<exists>c m. f = Close_Frame c m)"
    using redis_send_spec [OF ok that] by (simp add: redis_transport_simps)
  show "set (t_broadcast (redis_transport R w) slug q s) =
      dom (cluster_roles R s slug) \<times> {Text_Frame (peer_left_message q)}"
    if "cluster_roles R s slug q = None"
    using redis_broadcast_spec [OF ok that] by (simp add: redis_transport_simps)
  show "fst (t_register (redis_transport R w) now slug p s) = room_verdict (cluster_roles R s slug) (p_role p)"
    using redis_register_verdict [OF ok] by (simp add: redis_transport_simps)
  show "cluster_fresh R (snd (snd (t_close (redis_transport R w) slug s))) i" if "cluster_fresh R s i"
    using redis_close_fresh [OF ok that] by (simp add: redis_transport_simps)
next
  fix s :: "'s cluster" and slug q i :: string and now :: int
  assume ok: "cluster_ok R s" and out: "\<forall>slug'. slug' \<noteq> slug \<longrightarrow> cluster_roles R s slug' q = None"
  show "cluster_ok R (t_remove (redis_transport R w) now slug q s)"
    "cluster_roles R (t_remove (redis_transport R w) now slug q s) =
      (cluster_roles R s)(slug := (cluster_roles R s slug)(q := None))"
    using redis_remove_spec [OF ok out] by (simp_all add: redis_transport_simps)
  show "cluster_fresh R (t_remove (redis_transport R w) now slug q s) i" if "cluster_fresh R s i"
    using redis_remove_fresh [OF ok out that] by (simp add: redis_transport_simps)
next
  fix s :: "'s cluster" and slug h i :: string and p :: peer and now :: int
  assume ok: "cluster_ok R s" and new: "cluster_fresh R s (p_id p)"
  obtain r s' where reg: "redis_register_peer R w now slug p s = (r, s')" by fastforce
  note spec = redis_register_spec [OF ok new reg]
  show "cluster_ok R (snd (t_register (redis_transport R w) now slug p s))"
    "cluster_roles R (snd (t_register (redis_transport R w) now slug p s)) =
      (if fst (t_register (redis_transport R w) now slug p s) = Reg_OK
       then (cluster_roles R s)(slug := (cluster_roles R s slug)(p_id p \<mapsto> p_role p)) else cluster_roles R s)"
    using spec(1,2) by (simp_all add: redis_transport_simps reg)
  show "fst (t_register (redis_transport R w) now slug p s) \<noteq> Reg_OK"
    if "p_role p = ''host''" and "cluster_roles R s slug h = Some ''host''"
    using spec(3) [of h] that by (auto simp: redis_transport_simps reg)
  show "fst (t_register (redis_transport R w) now slug p s) \<noteq> Reg_OK"
    if "card (dom (cluster_roles R s slug)) = MAX_PEERS_PER_ROOM"
    using spec(4) that by (auto simp: redis_transport_simps reg)
  show "cluster_fresh R (snd (t_register (redis_transport R w) now slug p s)) i"
    if "cluster_fresh R s i" and "i \<noteq> p_id p"
    using redis_register_fresh [OF ok new that] by (simp add: redis_transport_simps)
qed simp_all

end
