(* ===== verification/Room_Backends.thy ===== *)
theory Room_Backends
  imports Redis_Transport
begin

section \<open>Both room backends implement the same rooms\<close>

text \<open>
  The specification of the rooms is a map from slugs to the roles of their members. What the
  signaling handler does with a transport, as whole steps: a peer joins; a peer leaves and
  the others are told (\<open>finally\<close> of \<open>handle_signaling\<close>); the room of a reported channel is
  closed; a frame is forwarded to a peer that exists. \<open>run\<close> executes any interleaving of
  such steps, each on a worker of its own choice, and collects what clients observe. The
  locale \<open>transport_family\<close> proves once that a backend keeping the transport contract behaves
  like the specification; the two interpretations are the in-memory rooms and the
  Redis-backed ones, with any number of workers.
\<close>

type_synonym rooms_view = "slug \<Rightarrow> string \<Rightarrow> string option"

datatype room_op =
    Join int slug peer
  | Leave int slug string
  | Shut slug
  | Forward slug string frame

datatype reply =
    Verdict register_result
  | Notices "(string \<times> frame) set"
  | Not_Found

definition room_step :: "'s transport \<Rightarrow> room_op \<Rightarrow> 's \<Rightarrow> reply \<times> 's" where
  "room_step T op s = (case op of
       Join now slug p \<Rightarrow> (case t_register T now slug p s of (r, s') \<Rightarrow> (Verdict r, s'))
     | Leave now slug q \<Rightarrow>
         (let s' = t_remove T now slug q s in (Notices (set (t_broadcast T slug q s')), s'))
     | Shut slug \<Rightarrow> (case t_close T slug s of (_, ds, s') \<Rightarrow> (Notices (set ds), s'))
     | Forward slug q f \<Rightarrow>
         (if t_exists T slug q s then (Notices (set (snd (t_send T slug q f s))), s)
          else (Not_Found, s)))"

primrec run :: "('w \<Rightarrow> 's transport) \<Rightarrow> ('w \<times> room_op) list \<Rightarrow> 's \<Rightarrow> reply list \<times> 's" where
  "run T [] s = ([], s)"
| "run T (x # xs) s =
     (case room_step (T (fst x)) (snd x) s of (r, s') \<Rightarrow>
       (case run T xs s' of (rs, s'') \<Rightarrow> (r # rs, s'')))"

definition spec_step :: "room_op \<Rightarrow> rooms_view \<Rightarrow> reply \<times> rooms_view" where
  "spec_step op A = (case op of
       Join now slug p \<Rightarrow>
         (let r = room_verdict (A slug) (p_role p)
          in (Verdict r, if r = Reg_OK then A(slug := (A slug)(p_id p \<mapsto> p_role p)) else A))
     | Leave now slug q \<Rightarrow>
         (Notices ((dom (A slug) - {q}) \<times> {Text_Frame (peer_left_message q)}),
          A(slug := (A slug)(q := None)))
     | Shut slug \<Rightarrow> (Notices (dom (A slug) \<times> {reported_close}), A(slug := Map.empty))
     | Forward slug q f \<Rightarrow>
         (if A slug q = None then Not_Found else Notices {(q, f)}, A))"

primrec spec_run :: "room_op list \<Rightarrow> rooms_view \<Rightarrow> reply list \<times> rooms_view" where
  "spec_run [] A = ([], A)"
| "spec_run (op # ops) A =
     (case spec_step op A of (r, A') \<Rightarrow> (case spec_run ops A' of (rs, A'') \<Rightarrow> (r # rs, A'')))"

text \<open>
  How the handler uses ids: a connection joins once, under a UUID of its own, and leaves the
  room it joined; close frames are sent by \<open>close_room\<close> only.
\<close>

fun joins :: "room_op list \<Rightarrow> (string \<times> slug) list" where
  "joins [] = []"
| "joins (Join now slug p # ops) = (p_id p, slug) # joins ops"
| "joins (_ # ops) = joins ops"

fun is_close :: "frame \<Rightarrow> bool" where
  "is_close (Close_Frame c m) = True"
| "is_close f = False"

definition at_home :: "(string \<times> slug) list \<Rightarrow> room_op \<Rightarrow> bool" where
  "at_home hs op = (case op of
       Leave now slug q \<Rightarrow> (\<forall>(i, home) \<in> set hs. i = q \<longrightarrow> home = slug)
     | Forward slug q f \<Rightarrow> \<not> is_close f
     | _ \<Rightarrow> True)"

definition well_used :: "room_op list \<Rightarrow> bool" where
  "well_used ops = (distinct (map fst (joins ops)) \<and> (\<forall>op \<in> set ops. at_home (joins ops) op))"

lemma is_close_iff: "is_close f \<longleftrightarrow> (\<exists>c m. f = Close_Frame c m)"
  by (cases f) auto

lemma at_home_tl: "at_home (joins (op # ops)) op' \<Longrightarrow> at_home (joins ops) op'"
  by (cases op) (auto simp: at_home_def split: room_op.splits)

text \<open>The members at any time sit in a room where the remaining steps let them leave.\<close>

definition settled :: "rooms_view \<Rightarrow> room_op list \<Rightarrow> bool" where
  "settled A ops = (\<forall>slug q now slug'. A slug q \<noteq> None \<longrightarrow> Leave now slug' q \<in> set ops \<longrightarrow> slug' = slug)"

lemma settledD: "settled A ops \<Longrightarrow> Leave now slug' q \<in> set ops \<Longrightarrow> slug \<noteq> slug' \<Longrightarrow> A slug q = None"
  unfolding settled_def by blast

lemma settled_step:
  assumes "settled A (op # ops)" and "well_used (op # ops)"
  shows "settled (snd (spec_step op A)) ops" and "well_used ops"
proof -
  show "well_used ops"
    using assms(2) at_home_tl [of op ops] by (cases op) (auto simp: well_used_def)
  have "slug' = slug" if "op = Join t slug p" and "Leave now slug' (p_id p) \<in> set ops" for t slug p now slug'
    using assms(2) that by (force simp: well_used_def at_home_def)
  then show "settled (snd (spec_step op A)) ops"
    using assms(1) by (cases op) (auto simp: settled_def spec_step_def Let_def split: if_splits)
qed

locale transport_family =
  fixes T :: "'w \<Rightarrow> 's transport" and inv :: "'s \<Rightarrow> bool" and members :: "'s \<Rightarrow> rooms_view"
    and fresh :: "'s \<Rightarrow> string \<Rightarrow> bool" and load :: "'s \<Rightarrow> nat" and cost :: nat
  assumes worker: "metered_transport (T w) inv members fresh load cost"
begin

lemmas room_laws = metered_transport.axioms(1) [OF worker]

text \<open>What every step keeps, at the room limit too.\<close>

lemma step_keeps:
  assumes inv: "inv s" and home: "settled (members s) (op # ops)" and use: "well_used (op # ops)"
    and new: "\<forall>(i, h) \<in> set (joins (op # ops)). fresh s i"
    and st: "room_step (T w) op s = (r, s')"
  shows "inv s'" and "load s' \<le> load s + cost" and "\<forall>(i, h) \<in> set (joins ops). fresh s' i"
    and "settled (members s') ops"
proof -
  note T = room_laws [of w] and M = worker [of w]
  note later = settled_step(1) [OF home use]
  have stay: "settled (members s) ops" using home by (simp add: settled_def)
  have "inv s' \<and> load s' \<le> load s + cost \<and> (\<forall>(i, h) \<in> set (joins ops). fresh s' i) \<and>
    settled (members s') ops"
  proof (cases op)
    case (Join now slug p)
    have f: "fresh s (p_id p)" using new Join by simp
    have s': "s' = snd (t_register (T w) now slug p s)"
      using st Join by (auto simp: room_step_def split: prod.splits)
    have "fresh s' i" if "(i, h) \<in> set (joins ops)" for i h
    proof -
      have "p_id p \<notin> fst ` set (joins ops)" using use Join by (simp add: well_used_def)
      then have "i \<noteq> p_id p" using that by force
      moreover have "fresh s i" using new that Join by auto
      ultimately show ?thesis
        unfolding s' using metered_transport.fresh_register [OF M inv f] by blast
    qed
    moreover have "settled ((members s)(slug := (members s slug)(p_id p \<mapsto> p_role p))) ops"
      using stay use Join by (force simp: settled_def well_used_def at_home_def)
    then have "settled (members s') ops"
      using room_transport.register_members [OF T inv f, of now slug] stay by (simp add: s')
    ultimately show ?thesis
      using room_transport.register_inv [OF T inv f] metered_transport.load_register [OF M inv]
      by (auto simp: s')
  next
    case (Leave now slug q)
    have out: "\<forall>slug'. slug' \<noteq> slug \<longrightarrow> members s slug' q = None"
      using settledD [OF home, of now slug q] Leave by auto
    have s': "s' = t_remove (T w) now slug q s"
      using st Leave by (auto simp: room_step_def Let_def)
    show ?thesis
      using room_transport.remove_inv [OF T inv out, of now] room_transport.remove_members [OF T inv out, of now]
        new Leave later metered_transport.fresh_remove [OF M inv out, of _ now]
        metered_transport.load_remove [OF M inv, of now slug q]
      by (auto simp: s' spec_step_def)
  next
    case (Shut slug)
    obtain b ds where cl: "t_close (T w) slug s = (b, ds, s')"
      using st Shut by (auto simp: room_step_def split: prod.splits)
    show ?thesis
      using room_transport.close_inv [OF T inv, of slug] room_transport.close_members [OF T inv, of slug]
        new Shut cl later metered_transport.fresh_close [OF M inv, of _ slug]
        metered_transport.load_close [OF M inv, of slug]
      by (auto simp: spec_step_def)
  next
    case (Forward slug q f)
    then show ?thesis using st inv new stay by (auto simp: room_step_def split: if_splits)
  qed
  then show "inv s'" and "load s' \<le> load s + cost" and "\<forall>(i, h) \<in> set (joins ops). fresh s' i"
    and "settled (members s') ops" by blast+
qed

text \<open>Below the limit, one step is the step of the specification.\<close>

lemma step_refines:
  assumes inv: "inv s" and home: "settled (members s) (op # ops)" and use: "well_used (op # ops)"
    and new: "\<forall>(i, h) \<in> set (joins (op # ops)). fresh s i" and room: "load s < MAX_ROOMS"
    and st: "room_step (T w) op s = (r, s')"
  shows "spec_step op (members s) = (r, members s')"
proof -
  note T = room_laws [of w] and M = worker [of w]
  show ?thesis
  proof (cases op)
    case (Join now slug p)
    have f: "fresh s (p_id p)" using new Join by simp
    have "s' = snd (t_register (T w) now slug p s)" and "r = Verdict (fst (t_register (T w) now slug p s))"
      using st Join by (auto simp: room_step_def split: prod.splits)
    then show ?thesis
      using metered_transport.register_verdict [OF M inv f room, of now slug]
        room_transport.register_members [OF T inv f, of now slug] Join
      by (simp add: spec_step_def Let_def)
  next
    case (Leave now slug q)
    have out: "\<forall>slug'. slug' \<noteq> slug \<longrightarrow> members s slug' q = None"
      using settledD [OF home, of now slug q] Leave by auto
    have "s' = t_remove (T w) now slug q s" and "r = Notices (set (t_broadcast (T w) slug q s'))"
      using st Leave by (auto simp: room_step_def Let_def)
    then show ?thesis
      using room_transport.remove_members [OF T inv out, of now]
        room_transport.departed_notice [OF T inv out, of now] Leave
      by (simp add: spec_step_def)
  next
    case (Shut slug)
    obtain b ds where "t_close (T w) slug s = (b, ds, s')" and "r = Notices (set ds)"
      using st Shut by (auto simp: room_step_def split: prod.splits)
    then show ?thesis
      using room_transport.close_members [OF T inv, of slug] room_transport.close_deliveries [OF T inv, of slug] Shut
      by (simp add: spec_step_def)
  next
    case (Forward slug q f)
    have f: "\<not> (\<exists>c m. f = Close_Frame c m)"
      using use Forward is_close_iff [of f] by (auto simp: well_used_def at_home_def)
    show ?thesis
      using st Forward inv room_transport.exists_members [OF T inv, of slug q]
        room_transport.send_member [OF T inv _ f, of slug q]
      by (auto simp: room_step_def spec_step_def split: if_splits)
  qed
qed

lemma run_keeps:
  assumes "inv s" and "settled (members s) (map snd ops)" and "well_used (map snd ops)"
    and "\<forall>(i, h) \<in> set (joins (map snd ops)). fresh s i" and "run T ops s = (rs, s')"
  shows "inv s'"
  using assms
proof (induction ops arbitrary: s rs)
  case (Cons x ops)
  obtain r s1 where st: "room_step (T (fst x)) (snd x) s = (r, s1)" by fastforce
  obtain rs1 where rest: "run T ops s1 = (rs1, s')"
    using Cons.prems(5) st by (auto split: prod.splits)
  have pre: "settled (members s) (snd x # map snd ops)" "well_used (snd x # map snd ops)"
    "\<forall>(i, h) \<in> set (joins (snd x # map snd ops)). fresh s i"
    using Cons.prems by simp_all
  note one = step_keeps [OF Cons.prems(1) pre st]
  show ?case by (rule Cons.IH [OF one(1,4) settled_step(2) [OF pre(1,2)] one(3) rest])
qed simp

text \<open>So is a run, as long as the room limit cannot be reached.\<close>

lemma run_refines:
  assumes "inv s" and "settled (members s) (map snd ops)" and "well_used (map snd ops)"
    and "\<forall>(i, h) \<in> set (joins (map snd ops)). fresh s i" and "load s + cost * length ops < MAX_ROOMS + cost"
    and "run T ops s = (rs, s')"
  shows "spec_run (map snd ops) (members s) = (rs, members s')"
  using assms
proof (induction ops arbitrary: s rs)
  case (Cons x ops)
  obtain r s1 where st: "room_step (T (fst x)) (snd x) s = (r, s1)" by fastforce
  obtain rs1 where rest: "run T ops s1 = (rs1, s')" and rs: "rs = r # rs1"
    using Cons.prems(6) st by (auto split: prod.splits)
  have pre: "settled (members s) (snd x # map snd ops)" "well_used (snd x # map snd ops)"
    "\<forall>(i, h) \<in> set (joins (snd x # map snd ops)). fresh s i" "load s < MAX_ROOMS"
    using Cons.prems by simp_all
  note one = step_keeps [OF Cons.prems(1) pre(1-3) st]
  have "spec_run (map snd ops) (members s1) = (rs1, members s')"
    by (rule Cons.IH [OF one(1,4) settled_step(2) [OF pre(1,2)] one(3) _ rest])
       (use one(2) Cons.prems(5) in simp)
  then show ?case using step_refines [OF Cons.prems(1) pre st] by (simp add: rs)
qed simp

end

interpretation memory_rooms: transport_family "\<lambda>_ :: string. memory_transport" manager_ok room_roles
  unused_id "\<lambda>m. length (rooms m)" 1
  by unfold_locales

sublocale redis_server \<subseteq> workers: transport_family "redis_transport R" "cluster_ok R" "cluster_roles R"
  "cluster_fresh R" "\<lambda>_. 0" 0
  by unfold_locales

text \<open>A deployment before its first connection.\<close>

definition idle_cluster :: "'s \<Rightarrow> 's cluster" where
  "idle_cluster st = \<lparr>c_store = st, c_up = True, c_workers = []\<rparr>"

definition no_rooms :: "'s redis \<Rightarrow> 's \<Rightarrow> bool" where
  "no_rooms R st = (\<forall>slug. look R st (peers_key slug) = None \<and> look R st (host_key slug) = None)"

lemma no_rooms_empty [simp]: "no_rooms ref_redis empty_store"
  by (simp add: no_rooms_def)

lemma settled_nowhere [simp]: "settled (\<lambda>_. Map.empty) ops"
  by (simp add: settled_def)

lemma memory_run:
  fixes ops :: "(string \<times> room_op) list"
  assumes "well_used (map snd ops)" and "[] \<notin> fst ` set (joins (map snd ops))"
    and "run (\<lambda>_. memory_transport) ops new_manager = (rs, m)"
  shows "manager_ok m"
    and "length ops \<le> MAX_ROOMS \<Longrightarrow> spec_run (map snd ops) (\<lambda>_. Map.empty) = (rs, room_roles m)"
proof -
  have e: "room_roles new_manager = (\<lambda>_. Map.empty)"
    by (simp add: fun_eq_iff room_roles_def get_room_def new_manager_def)
  have new: "\<forall>(i, h) \<in> set (joins (map snd ops)). unused_id new_manager i"
    using assms(2) by (force simp: unused_id_def e)
  have home: "settled (room_roles new_manager) (map snd ops)" by (simp add: e)
  show "manager_ok m"
    by (rule memory_rooms.run_keeps [OF manager_ok_new home assms(1) new assms(3)])
  show "spec_run (map snd ops) (\<lambda>_. Map.empty) = (rs, room_roles m)" if "length ops \<le> MAX_ROOMS"
    using memory_rooms.run_refines [OF manager_ok_new home assms(1) new _ assms(3)] that
    by (simp add: e) (simp add: new_manager_def)
qed

context redis_server
begin

lemma idle_cluster_ok:
  assumes "no_rooms R st"
  shows "cluster_ok R (idle_cluster st)" and "cluster_roles R (idle_cluster st) = (\<lambda>_. Map.empty)"
    and "q \<noteq> [] \<Longrightarrow> cluster_fresh R (idle_cluster st) q"
  using assms
  by (auto simp: no_rooms_def idle_cluster_def cluster_ok_def room_rows_ok_def cluster_roles_def
      cluster_fresh_def fun_eq_iff)

lemma redis_run:
  assumes "no_rooms R st" and "well_used (map snd ops)" and "[] \<notin> fst ` set (joins (map snd ops))"
    and "run (redis_transport R) ops (idle_cluster st) = (rs, s)"
  shows "spec_run (map snd ops) (\<lambda>_. Map.empty) = (rs, cluster_roles R s) \<and> cluster_ok R s"
proof -
  note idle = idle_cluster_ok [OF assms(1)]
  have "cluster_fresh R (idle_cluster st) i" if "(i, h) \<in> set (joins (map snd ops))" for i h
    using that assms(3) by (intro idle(3)) force
  then have "\<forall>(i, h) \<in> set (joins (map snd ops)). cluster_fresh R (idle_cluster st) i" by blast
  note new = this
  have home: "settled (cluster_roles R (idle_cluster st)) (map snd ops)" by (simp add: idle(2))
  have "spec_run (map snd ops) (cluster_roles R (idle_cluster st)) = (rs, cluster_roles R s)"
    by (rule workers.run_refines [OF idle(1) home assms(2) new _ assms(4)]) (simp add: MAX_ROOMS_def)
  moreover have "cluster_ok R s" by (rule workers.run_keeps [OF idle(1) home assms(2) new assms(4)])
  ultimately show ?thesis by (simp only: idle(2))
qed

lemma shared_exists: "cluster_ok R s \<Longrightarrow> redis_peer_exists R slug q s = (cluster_roles R s slug q \<noteq> None)"
  using shared.exists_members [of s undefined slug q] by (simp add: redis_transport_simps)

lemma shared_host: "cluster_ok R s \<Longrightarrow> (redis_host_id_for R slug s = Some h) = (cluster_roles R s slug h = Some ''host'')"
  using shared.host_members [of s undefined slug h] by (simp add: redis_transport_simps)

lemma shared_rows: "cluster_ok R s \<Longrightarrow> set (HKEYS R (peers_key slug) (c_store s)) = dom (cluster_roles R s slug)"
  by (simp add: HKEYS_fields dom_cluster_roles)

lemma shared_bound: "cluster_ok R s \<Longrightarrow> length (HKEYS R (peers_key slug) (c_store s)) \<le> 50"
  using cluster_okD(4) [of R s slug] distinct_card [OF HKEYS_distinct, of "peers_key slug" "c_store s"]
  by (simp add: HKEYS_fields MAX_PEERS_PER_ROOM_def)

end

subsection \<open>The properties of the rooms\<close>



text \<open>
  Whatever the connections do, no room ever holds more than fifty peers or two
  hosts, and the recorded host is the member with that role; in the memory of the single
  worker and in the shared Redis hashes alike.
\<close>

theorem rooms_one_host_bounded:
  assumes "redis_server R" and "no_rooms R st"
    and "well_used (map snd ops)" and "[] \<notin> fst ` set (joins (map snd ops))"
  shows "(case run (\<lambda>_. memory_transport) ops new_manager of (_, m) \<Rightarrow>
      \<forall>slug r. get_room slug m = Some r \<longrightarrow> length (room_peers r) \<le> 50 \<and>
        (\<forall>(i, p) \<in> set (room_peers r). p_role p = ''host'' \<longleftrightarrow> host_id r = Some i)) \<and>
    (case run (redis_transport R) ops (idle_cluster st) of (_, s) \<Rightarrow>
      \<forall>slug. length (HKEYS R (peers_key slug) (c_store s)) \<le> 50 \<and>
        (\<forall>i \<in> set (HKEYS R (peers_key slug) (c_store s)).
          Option.bind (HGET R (peers_key slug) i (c_store s)) row_role = Some ''host'' \<longleftrightarrow>
          redis_host_id_for R slug s = Some i))"
proof
  obtain rs m where a: "run (\<lambda>_. memory_transport) ops new_manager = (rs, m)" by fastforce
  note mem = memory_run(1) [OF assms(3,4) a]
  have "length (room_peers r) \<le> 50 \<and>
      (\<forall>(i, p) \<in> set (room_peers r). p_role p = ''host'' \<longleftrightarrow> host_id r = Some i)"
    if "get_room slug m = Some r" for slug r
  proof -
    note ok = room_okD [OF manager_okD(3) [OF mem that [unfolded get_room_def]]]
    have "p_role p = ''host'' \<longleftrightarrow> host_id r = Some i" if "(i, p) \<in> set (room_peers r)" for i p
      using that ok(4) [of i] map_of_is_SomeI [OF ok(1) that] by simp
    then show ?thesis using ok(2) by (auto simp: MAX_PEERS_PER_ROOM_def)
  qed
  then show "case run (\<lambda>_. memory_transport) ops new_manager of (_, m) \<Rightarrow>
      \<forall>slug r. get_room slug m = Some r \<longrightarrow> length (room_peers r) \<le> 50 \<and>
        (\<forall>(i, p) \<in> set (room_peers r). p_role p = ''host'' \<longleftrightarrow> host_id r = Some i)"
    using a by simp
next
  obtain rs s where b: "run (redis_transport R) ops (idle_cluster st) = (rs, s)" by fastforce
  have red: "cluster_ok R s" using redis_server.redis_run [OF assms b] by simp
  show "case run (redis_transport R) ops (idle_cluster st) of (_, s) \<Rightarrow>
      \<forall>slug. length (HKEYS R (peers_key slug) (c_store s)) \<le> 50 \<and>
        (\<forall>i \<in> set (HKEYS R (peers_key slug) (c_store s)).
          Option.bind (HGET R (peers_key slug) i (c_store s)) row_role = Some ''host'' \<longleftrightarrow>
          redis_host_id_for R slug s = Some i)"
    using b redis_server.shared_bound [OF assms(1) red] redis_server.shared_host [OF assms(1) red]
    by (simp add: cluster_roles_def HGET_def)
qed

text \<open>Two connections on two workers: the second host is refused, the guest is told of the departure.\<close>

definition sample_ops :: "(string \<times> room_op) list" where
  "sample_ops =
     [(''w1'', Join 5 ''moon'' \<lparr>p_id = ''h'', p_role = ''host'', p_relay_mode = False\<rparr>),
      (''w2'', Join 6 ''moon'' \<lparr>p_id = ''g'', p_role = ''guest'', p_relay_mode = False\<rparr>),
      (''w2'', Join 7 ''moon'' \<lparr>p_id = ''x'', p_role = ''host'', p_relay_mode = False\<rparr>),
      (''w2'', Forward ''moon'' ''h'' (Text_Frame (JStr ''offer''))),
      (''w1'', Leave 8 ''moon'' ''h'')]"

lemma sample_ops_use [simp]:
  "well_used (map snd sample_ops)" "[] \<notin> fst ` set (joins (map snd sample_ops))" "length sample_ops \<le> 10000"
  by (simp_all add: sample_ops_def well_used_def at_home_def)



lemma rooms_one_host_bounded_witness:
  "(case run (\<lambda>_. memory_transport) sample_ops new_manager of (_, m) \<Rightarrow>
      \<forall>slug r. get_room slug m = Some r \<longrightarrow> length (room_peers r) \<le> 50 \<and>
        (\<forall>(i, p) \<in> set (room_peers r). p_role p = ''host'' \<longleftrightarrow> host_id r = Some i)) \<and>
    (case run (redis_transport ref_redis) sample_ops (idle_cluster empty_store) of (_, s) \<Rightarrow>
      \<forall>slug. length (HKEYS ref_redis (peers_key slug) (c_store s)) \<le> 50 \<and>
        (\<forall>i \<in> set (HKEYS ref_redis (peers_key slug) (c_store s)).
          Option.bind (HGET ref_redis (peers_key slug) i (c_store s)) row_role = Some ''host'' \<longleftrightarrow>
          redis_host_id_for ref_redis slug s = Some i))"
  by (rule rooms_one_host_bounded [OF reference_server]) simp_all

end
