(* ===== verification/Ice_Config.thy ===== *)
theory Ice_Config
  imports Settings
begin

section \<open>ICE servers\<close>

text \<open>
  \<open>build_ice_config\<close> of \<open>actions.py\<close> and the form \<open>handle_signaling\<close> sends it in. The
  wall clock, the random label and the base64-encoded HMAC-SHA256 under the shared TURN
  secret are arguments.
\<close>

record ice_server =
  urls :: "string list"
  single_url :: bool
  username :: "string option"
  credential :: "string option"

text \<open>\<open>single_url\<close>: \<open>urls\<close> is one string and not a list.\<close>

definition build_ice_config :: "settings \<Rightarrow> (string \<Rightarrow> string \<Rightarrow> string) \<Rightarrow> int \<Rightarrow> string \<Rightarrow> ice_server list" where
  "build_ice_config cfg turn_hmac now label =
     (let stun = \<lparr>urls = [''stun:'' @ STUN_SERVER cfg], single_url = True, username = None, credential = None\<rparr>
      in if \<not> COTURN_ENABLED cfg then [stun]
         else
           (let expiry = now + TURN_CREDENTIAL_TTL cfg;
                user = dec_int expiry @ '':'' @ label;
                turn_urls = [''turn:'' @ TURN_HOST cfg @ '':'' @ TURN_PORT cfg] @
                  (if TURN_TLS_ENABLED cfg then [''turns:'' @ TURN_HOST cfg @ '':'' @ TURN_TLS_PORT cfg] else [])
            in [stun, \<lparr>urls = turn_urls, single_url = False, username = Some user,
                  credential = Some (turn_hmac (TURN_SECRET cfg) user)\<rparr>]))"

text \<open>The entry of the welcome message: absent or empty credentials are left out.\<close>

definition ice_entry :: "ice_server \<Rightarrow> json" where
  "ice_entry s = JObj (
     [(''urls'', if single_url s then JStr (hd (urls s)) else JList (map JStr (urls s)))] @
     (if truthy (username s) then [(''username'', json_opt_str (username s))] else []) @
     (if truthy (credential s) then [(''credential'', json_opt_str (credential s))] else []))"

end
