(* ===== verification/Signaling_Handlers.thy ===== *)
theory Signaling_Handlers
  imports Ice_Config Signaling_Rooms Channel_Lifecycle
begin

section \<open>The signaling handlers\<close>

text \<open>
  The WebSocket side of \<open>signaling.py\<close>: authentication, binary relay, relay control, WebRTC
  signaling and the loop of one connection, over the in-memory rooms. Times are milliseconds
  of the monotonic clock. What a handler writes to sockets is a list of deliveries; a frame
  to the connection's own socket is a delivery to its own peer id. The room object a
  connection holds is the one indexed under its slug: a room with members is dropped by
  \<open>close_room\<close> only, which closes their sockets.
\<close>

subsection \<open>Messages\<close>

text \<open>
  The result of \<open>json.loads\<close>: a value, the errors the handlers catch (\<open>JSONDecodeError\<close>,
  \<open>TypeError\<close>), or one they do not (\<open>UnicodeDecodeError\<close>, \<open>RecursionError\<close>). A text frame
  carries its length and its parse; for the header of a binary frame the parser is an argument.
\<close>

datatype parse = Parsed json | Malformed | Undecodable

record raw_text =
  raw_len :: nat
  raw_parse :: parse

datatype incoming = In_Bytes bytes | In_Text raw_text | In_Disconnect

datatype handled = Not_Mine | Handled | Closed | Crashed

definition MAX_SIGNALING_MESSAGE_SIZE :: nat where "MAX_SIGNALING_MESSAGE_SIZE = 64 * 1024"

definition WS_MSG_RATE_LIMIT :: nat where "WS_MSG_RATE_LIMIT = 60"

definition WS_MSG_RATE_WINDOW_MS :: int where "WS_MSG_RATE_WINDOW_MS = 10 * 1000"

definition MAX_CONNECTION_LIFETIME_MS :: int where "MAX_CONNECTION_LIFETIME_MS = 6 * 60 * 60 * 1000"

definition MAX_RELAY_SESSION_BYTES :: int where
  "MAX_RELAY_SESSION_BYTES = 10 * 1024 * 1024 * 1024"

definition RELAY_RATE_LIMIT_BYTES_PER_SEC :: int where
  "RELAY_RATE_LIMIT_BYTES_PER_SEC = 50 * 1024 * 1024"

definition error_message :: "string \<Rightarrow> frame" where
  "error_message text = Text_Frame (JObj [(''type'', JStr ''error''), (''message'', JStr text)])"

text \<open>\<open>_send_error\<close> followed by \<open>ws.close\<close>.\<close>

definition reject :: "string \<Rightarrow> int \<Rightarrow> string \<Rightarrow> frame list" where
  "reject text code reason = [error_message text, Close_Frame code reason]"

definition to_self :: "string \<Rightarrow> frame list \<Rightarrow> deliveries" where
  "to_self me fs = map (\<lambda>f. (me, f)) fs"

text \<open>
  \<open>peer_exists\<close> on a decoded JSON value: only a string can be a key; a list or a dict is
  unhashable and raises \<open>TypeError\<close>.
\<close>

definition target_lookup :: "slug \<Rightarrow> json \<Rightarrow> manager \<Rightarrow> string option option" where
  "target_lookup slug v m = (case v of
       JStr t \<Rightarrow> Some (if peer_exists slug t m then Some t else None)
     | JList _ \<Rightarrow> None
     | JObj _ \<Rightarrow> None
     | _ \<Rightarrow> Some None)"

subsection \<open>Binary relay\<close>

text \<open>The 4-byte big-endian header length, the header and the payload of a relay frame.\<close>

definition split_relay_frame :: "bytes \<Rightarrow> (bytes \<times> bytes) option" where
  "split_relay_frame bs =
     (if length bs < 4 then None
      else
        (let header_len = unat (word_rcat (take 4 bs) :: 32 word)
         in if MAX_SIGNALING_MESSAGE_SIZE < header_len \<or> length bs - 4 < header_len then None
            else Some (take header_len (drop 4 bs), drop (4 + header_len) bs)))"

text \<open>The session cap and the one-second throughput window of the room.\<close>

datatype relay_account = Session_Limit | Rate_Limit | Accounted room

definition account_relay :: "int \<Rightarrow> int \<Rightarrow> room \<Rightarrow> room \<times> relay_account" where
  "account_relay now payload_len r =
     (if MAX_RELAY_SESSION_BYTES < relay_bytes r + payload_len then (r, Session_Limit)
      else
        (let r1 = (if 1000 \<le> now - relay_window_start r
                   then r\<lparr>relay_window_start := now, relay_window_bytes := 0\<rparr> else r)
         in if RELAY_RATE_LIMIT_BYTES_PER_SEC < relay_window_bytes r1 + payload_len then (r1, Rate_Limit)
            else
              (let r2 = r1\<lparr>relay_window_bytes := relay_window_bytes r1 + payload_len,
                           relay_bytes := relay_bytes r1 + payload_len\<rparr>
               in (r2, Accounted r2))))"

definition set_room :: "slug \<Rightarrow> room \<Rightarrow> manager \<Rightarrow> manager" where
  "set_room slug r m = m\<lparr>rooms := AList.update slug r (rooms m)\<rparr>"

definition handle_binary_relay ::
  "(bytes \<Rightarrow> parse) \<Rightarrow> int \<Rightarrow> slug \<Rightarrow> string \<Rightarrow> incoming \<Rightarrow> manager \<Rightarrow> handled \<times> deliveries \<times> manager" where
  "handle_binary_relay loads now slug me msg m = (case msg of
       In_Bytes (b # bs) \<Rightarrow>
         (case split_relay_frame (b # bs) of
            None \<Rightarrow> (Handled, [], m)
          | Some (header, payload) \<Rightarrow>
              (case loads header of
                 Malformed \<Rightarrow> (Handled, [], m)
               | Undecodable \<Rightarrow> (Crashed, [], m)
               | Parsed (JObj h) \<Rightarrow>
                   (if map_of h ''type'' \<noteq> Some (JStr ''relay:chunk'') then (Handled, [], m)
                    else if \<not> get_true h ''targetId'' then (Handled, [], m)
                    else (case target_lookup slug (the (map_of h ''targetId'')) m of
                            None \<Rightarrow> (Crashed, [], m)
                          | Some None \<Rightarrow> (Handled, [], m)
                          | Some (Some target) \<Rightarrow>
                              (case get_room slug m of
                                 None \<Rightarrow> (Handled, [], m)
                               | Some r \<Rightarrow>
                                   (case account_relay now (int (length payload)) r of
                                      (r', Session_Limit) \<Rightarrow>
                                        (Closed, to_self me (reject ''Relay session size limit exceeded'' 4029
                                           ''Relay limit exceeded''), set_room slug r' m)
                                    | (r', Rate_Limit) \<Rightarrow>
                                        (Closed, to_self me (reject ''Relay rate limit exceeded'' 4029
                                           ''Relay rate limit exceeded''), set_room slug r' m)
                                    | (r', Accounted _) \<Rightarrow>
                                        (Handled, snd (send_to_peer slug target (Binary_Frame payload) (set_room slug r' m)),
                                         set_room slug r' m)))))
               | Parsed _ \<Rightarrow> (Crashed, [], m)))
     | _ \<Rightarrow> (Not_Mine, [], m))"

subsection \<open>Relay control and WebRTC signaling\<close>

definition relay_types :: "string list" where
  "relay_types = [''relay:start'', ''relay:ack'', ''relay:done'', ''relay:data'']"

definition signal_types :: "string list" where
  "signal_types = [''offer'', ''answer'', ''ice-candidate'', ''connect-request'']"

definition msg_type_in :: "string list \<Rightarrow> (string \<times> json) list \<Rightarrow> string option" where
  "msg_type_in types d = (case map_of d ''type'' of
       Some (JStr t) \<Rightarrow> (if t \<in> set types then Some t else None)
     | _ \<Rightarrow> None)"

definition set_relay_mode :: "slug \<Rightarrow> string \<Rightarrow> manager \<Rightarrow> manager" where
  "set_relay_mode slug me m = (case get_room slug m of
       None \<Rightarrow> m
     | Some r \<Rightarrow> (case map_of (room_peers r) me of
           None \<Rightarrow> m
         | Some p \<Rightarrow> set_room slug (r\<lparr>room_peers :=
             AList.update me (p\<lparr>p_relay_mode := True\<rparr>) (room_peers r)\<rparr>) m))"

text \<open>A string field that is copied when it is not too long.\<close>

definition short_str :: "nat \<Rightarrow> string \<Rightarrow> (string \<times> json) list \<Rightarrow> (string \<times> json) list" where
  "short_str cap k d = (case map_of d k of
       Some (JStr v) \<Rightarrow> (if length v \<le> cap then [(k, JStr v)] else [])
     | _ \<Rightarrow> [])"

definition nullable_str :: "string \<Rightarrow> (string \<times> json) list \<Rightarrow> (string \<times> json) list" where
  "nullable_str k d = (if map_of d k = Some JNull then [(k, JNull)] else short_str 255 k d)"

text \<open>\<open>isinstance(True, int)\<close> holds in Python.\<close>

definition nullable_int :: "string \<Rightarrow> (string \<times> json) list \<Rightarrow> (string \<times> json) list" where
  "nullable_int k d = (case map_of d k of
       Some JNull \<Rightarrow> [(k, JNull)]
     | Some (JInt n) \<Rightarrow> [(k, JInt n)]
     | Some (JBool b) \<Rightarrow> [(k, JBool b)]
     | _ \<Rightarrow> [])"

definition is_scalar :: "json \<Rightarrow> bool" where
  "is_scalar v = (case v of JList _ \<Rightarrow> False | JObj _ \<Rightarrow> False | _ \<Rightarrow> True)"

definition relay_metadata :: "string \<Rightarrow> (string \<times> json) list \<Rightarrow> (string \<times> json) list" where
  "relay_metadata role d = (case map_of d ''metadata'' of
       Some (JObj meta) \<Rightarrow>
         (if role = ''host'' \<and> list_all (\<lambda>(_, v). is_scalar v) meta \<and> dumps_len (JObj meta) \<le> 4096
          then [(''metadata'', JObj meta)] else [])
     | _ \<Rightarrow> [])"

definition handle_relay_control ::
  "slug \<Rightarrow> string \<Rightarrow> (string \<times> json) list \<Rightarrow> manager \<Rightarrow> handled \<times> deliveries \<times> manager" where
  "handle_relay_control slug me d m = (case msg_type_in relay_types d of
       None \<Rightarrow> (Not_Mine, [], m)
     | Some msg_type \<Rightarrow>
         (if \<not> get_true d ''targetId'' then
            (Handled, to_self me [error_message ''Missing targetId for relay''], m)
          else (case target_lookup slug (the (map_of d ''targetId'')) m of
                  None \<Rightarrow> (Crashed, [], m)
                | Some None \<Rightarrow> (Handled, to_self me [error_message ''Relay target not found''], m)
                | Some (Some target) \<Rightarrow>
                    (let m1 = (if msg_type = ''relay:start'' then set_relay_mode slug me m else m);
                         relay_msg = [(''type'', JStr msg_type), (''fromId'', JStr me)] @
                           (if msg_type = ''relay:data'' then short_str MAX_SIGNALING_MESSAGE_SIZE ''data'' d else [])
                     in (Handled, snd (send_to_peer slug target (Text_Frame (JObj relay_msg)) m1), m1)))))"

definition signal_fields :: "string \<Rightarrow> (string \<times> json) list \<Rightarrow> (string \<times> json) list" where
  "signal_fields role d =
     short_str MAX_SIGNALING_MESSAGE_SIZE ''sdp'' d @
     short_str MAX_SIGNALING_MESSAGE_SIZE ''candidate'' d @
     nullable_str ''sdpMid'' d @ nullable_str ''usernameFragment'' d @
     nullable_int ''sdpMLineIndex'' d @ relay_metadata role d"

definition handle_webrtc_signaling ::
  "slug \<Rightarrow> string \<Rightarrow> string \<Rightarrow> (string \<times> json) list \<Rightarrow> manager \<Rightarrow> handled \<times> deliveries \<times> manager" where
  "handle_webrtc_signaling slug me role d m = (case msg_type_in signal_types d of
       None \<Rightarrow> (Not_Mine, [], m)
     | Some msg_type \<Rightarrow>
         (let target_id =
            (if get_true d ''targetId'' then map_of d ''targetId''
             else if msg_type = ''connect-request'' then map_option JStr (host_id_for slug m)
             else None)
          in (case target_id of
                None \<Rightarrow> (Handled, to_self me [error_message ''Missing targetId''], m)
              | Some v \<Rightarrow>
                  (if \<not> json_true v then (Handled, to_self me [error_message ''Missing targetId''], m)
                   else (case target_lookup slug v m of
                     None \<Rightarrow> (Crashed, [], m)
                   | Some None \<Rightarrow> (Handled, to_self me [error_message ''Target peer not found''], m)
                   | Some (Some target) \<Rightarrow>
                       (Handled, snd (send_to_peer slug target (Text_Frame (JObj (
                          [(''type'', JStr msg_type), (''fromId'', JStr me)] @ signal_fields role d))) m), m))))))"

end
