(* ===== verification/Signaling_Sessions.thy ===== *)
theory Signaling_Sessions
  imports Signaling_Handlers Rate_Limit
begin

section \<open>Authentication and the life of a signaling connection\<close>

text \<open>
  \<open>_authenticate\<close>, the two validators of the file kind, and \<open>handle_signaling\<close> from the
  connection to the \<open>finally\<close> block. A connection is its request and the script of what its
  socket receives: each entry is the arrival time of a message, what the other connections
  did to the rooms in the meantime, and the message; after the last entry \<open>receive\<close> raises.
\<close>

subsection \<open>Authentication\<close>

definition AUTH_TIMEOUT_SECONDS :: int where "AUTH_TIMEOUT_SECONDS = 10"

definition CANONICAL_ROLES :: "string list" where "CANONICAL_ROLES = [''host'', ''guest'']"

definition ROLE_ALIASES :: "(string \<times> string) list" where
  "ROLE_ALIASES = [(''uploader'', ''host''), (''downloader'', ''guest'')]"

text \<open>\<open>Boom\<close>: an exception nothing catches.\<close>

datatype check = Pass | Fail "frame list" | Boom

datatype first = First_Timeout | First_Gone | First_Text raw_text

record request =
  ws_client :: "string option"
  ws_cookie :: string
  first_message :: first

definition forbidden :: "frame list" where
  "forbidden = reject ''Authentication failed'' 4003 ''Forbidden''"

definition validate_file_host :: "crypto \<Rightarrow> channel_data \<Rightarrow> (string \<times> json) list \<Rightarrow> check" where
  "validate_file_host C c d =
     (if \<not> get_true d ''secret'' then Fail forbidden
      else (case map_of d ''secret'' of
              Some (JStr t) \<Rightarrow> (if secret c = hash_secret C t then Pass else Fail forbidden)
            | _ \<Rightarrow> Boom))"

definition check_reader ::
  "'s redis \<Rightarrow> crypto \<Rightarrow> slug \<Rightarrow> channel_data \<Rightarrow> (string \<times> json) list \<Rightarrow> 's \<Rightarrow> check" where
  "check_reader R C slug c d s =
     (if get_true d ''token'' then
        (case map_of d ''token'' of
           Some (JStr t) \<Rightarrow> (if validate_reader_token R C slug t (Some c) s then Pass else Fail forbidden)
         | _ \<Rightarrow> (if has_reader_token R slug (Some c) s then Boom else Fail forbidden))
      else if has_reader_token R slug (Some c) s \<or> is_pending_token R slug (Some c) s then Fail forbidden
      else Pass)"

definition payment_needed :: "frame list" where
  "payment_needed = reject ''Payment required'' 4003 ''Payment required''"

definition check_payment ::
  "'s redis \<Rightarrow> crypto \<Rightarrow> slug \<Rightarrow> channel_data \<Rightarrow> (string \<times> json) list \<Rightarrow> string \<Rightarrow> string \<Rightarrow> 's \<Rightarrow> check" where
  "check_payment R C slug c d raw_cookie client_ip s =
     (if \<not> is_paid c then Pass
      else
        (let cookie = (if raw_cookie = '''' then '''' else str_or (decrypt_token C raw_cookie) '''');
             token = (if get_true d ''paymentToken'' then the (map_of d ''paymentToken'') else JStr cookie)
         in (case token of
               JStr t \<Rightarrow>
                 (if t \<noteq> [] \<and> validate_payment_token R C slug t (Some c) (hash_ip C client_ip) s
                  then Pass else Fail payment_needed)
             | _ \<Rightarrow> Boom)))"

definition validate_file_guest ::
  "'s redis \<Rightarrow> crypto \<Rightarrow> slug \<Rightarrow> channel_data \<Rightarrow> (string \<times> json) list \<Rightarrow> string \<Rightarrow> string \<Rightarrow> 's \<Rightarrow> check" where
  "validate_file_guest R C slug c d raw_cookie client_ip s =
     (case check_reader R C slug c d s of
        Pass \<Rightarrow> check_payment R C slug c d raw_cookie client_ip s
      | e \<Rightarrow> e)"

definition auth_validator ::
  "'s redis \<Rightarrow> crypto \<Rightarrow> string \<times> string \<Rightarrow>
     (slug \<Rightarrow> channel_data \<Rightarrow> (string \<times> json) list \<Rightarrow> string \<Rightarrow> string \<Rightarrow> 's \<Rightarrow> check) option" where
  "auth_validator R C key =
     (if key = (''file'', ''host'') then Some (\<lambda>slug c d cookie ip s. validate_file_host C c d)
      else if key = (''file'', ''guest'') then Some (validate_file_guest R C)
      else None)"

text \<open>The role and the canonical slug of an accepted connection.\<close>

datatype auth = Authenticated string slug | Refused "frame list" | Failed

definition canonical_role :: "json option \<Rightarrow> string option" where
  "canonical_role v = (case v of
       Some (JStr r) \<Rightarrow>
         (let role = (case map_of ROLE_ALIASES r of Some c \<Rightarrow> c | None \<Rightarrow> r)
          in if role \<in> set CANONICAL_ROLES then Some role else None)
     | _ \<Rightarrow> None)"

definition authenticate ::
  "'s redis \<Rightarrow> crypto \<Rightarrow> slug \<Rightarrow> string \<Rightarrow> string \<Rightarrow> first \<Rightarrow> 's \<Rightarrow> auth" where
  "authenticate R C slug client_ip cookie fm s = (case fm of
       First_Timeout \<Rightarrow> Refused (reject ''Auth timeout'' 4008 ''Auth timeout'')
     | First_Gone \<Rightarrow> Refused []
     | First_Text raw \<Rightarrow>
         (if MAX_SIGNALING_MESSAGE_SIZE < raw_len raw then
            Refused (reject ''Auth message too large'' 4001 ''Message too large'')
          else (case raw_parse raw of
                  Malformed \<Rightarrow> Refused (reject ''Invalid JSON'' 4001 ''Invalid auth message'')
                | Undecodable \<Rightarrow> Failed
                | Parsed (JObj d) \<Rightarrow>
                    (if map_of d ''type'' \<noteq> Some (JStr ''auth'') then
                       Refused (reject ''First message must be auth'' 4001 ''Expected auth message'')
                     else (case canonical_role (map_of d ''role'') of
                             None \<Rightarrow> Refused (reject ''Invalid role'' 4001 ''Invalid role'')
                           | Some role \<Rightarrow>
                               (case fetch_channel R slug s of
                                  None \<Rightarrow> Refused forbidden
                                | Some c \<Rightarrow>
                                    (case auth_validator R C (session_kind c, role) of
                                       None \<Rightarrow> Refused forbidden
                                     | Some validator \<Rightarrow>
                                         (case validator slug c d cookie client_ip s of
                                            Pass \<Rightarrow> Authenticated role (short_slug c)
                                          | Fail fs \<Rightarrow> Refused fs
                                          | Boom \<Rightarrow> Failed)))))
                | Parsed _ \<Rightarrow> Failed)))"

subsection \<open>One message of a connection\<close>

record session =
  se_id :: string
  se_role :: string
  se_slug :: slug
  msg_count :: nat
  window_start :: int
  deadline :: int

text \<open>The per-connection message throttle: whether the message may pass, and the new counters.\<close>

definition throttle :: "int \<Rightarrow> session \<Rightarrow> bool \<times> session" where
  "throttle now se =
     (let se1 = (if WS_MSG_RATE_WINDOW_MS \<le> now - window_start se
                 then se\<lparr>msg_count := 0, window_start := now\<rparr> else se);
          se2 = se1\<lparr>msg_count := msg_count se1 + 1\<rparr>
      in (msg_count se2 \<le> WS_MSG_RATE_LIMIT, se2))"

definition dispatch_text ::
  "slug \<Rightarrow> string \<Rightarrow> string \<Rightarrow> (string \<times> json) list \<Rightarrow> manager \<Rightarrow> handled \<times> deliveries \<times> manager" where
  "dispatch_text slug me role d m =
     (case handle_relay_control slug me d m of
        (Not_Mine, _, _) \<Rightarrow>
          (case handle_webrtc_signaling slug me role d m of
             (Not_Mine, _, _) \<Rightarrow> (Handled, to_self me [error_message ''Unknown message type''], m)
           | r \<Rightarrow> r)
      | r \<Rightarrow> r)"

text \<open>The body of the relay loop: whether it goes on, and what it did.\<close>

definition handle_message ::
  "(bytes \<Rightarrow> parse) \<Rightarrow> int \<Rightarrow> session \<Rightarrow> incoming \<Rightarrow> manager \<Rightarrow> bool \<times> deliveries \<times> session \<times> manager" where
  "handle_message loads now se msg m =
     (case handle_binary_relay loads now (se_slug se) (se_id se) msg m of
        (Not_Mine, _, _) \<Rightarrow>
          (case msg of
             In_Text raw \<Rightarrow>
               (if raw_len raw = 0 then (True, [], se, m)
                else (case throttle now se of (ok, se1) \<Rightarrow>
                  (if \<not> ok then
                     (False, to_self (se_id se) (reject ''Message rate limit exceeded'' 4029 ''Rate limit exceeded''), se1, m)
                   else if MAX_SIGNALING_MESSAGE_SIZE < raw_len raw then
                     (True, to_self (se_id se) [error_message ''Message too large''], se1, m)
                   else (case raw_parse raw of
                           Malformed \<Rightarrow> (True, to_self (se_id se) [error_message ''Invalid JSON''], se1, m)
                         | Undecodable \<Rightarrow> (False, [], se1, m)
                         | Parsed (JObj d) \<Rightarrow>
                             (case dispatch_text (se_slug se) (se_id se) (se_role se) d m of
                                (h, ds, m1) \<Rightarrow> (h = Handled, ds, se1, m1))
                         | Parsed _ \<Rightarrow> (False, [], se1, m)))))
           | _ \<Rightarrow> (True, [], se, m))
      | (h, ds, m1) \<Rightarrow> (h = Handled, ds, se, m1))"

subsection \<open>The relay loop\<close>

type_synonym script = "(int \<times> (manager \<Rightarrow> manager) \<times> incoming) list"

definition RECEIVE_TIMEOUT_MS :: int where "RECEIVE_TIMEOUT_MS = 300 * 1000"

definition lifetime_exceeded :: "frame list" where
  "lifetime_exceeded = reject ''Connection lifetime exceeded'' 4008 ''Connection lifetime exceeded''"

function session_loop ::
  "(bytes \<Rightarrow> parse) \<Rightarrow> int \<Rightarrow> session \<Rightarrow> script \<Rightarrow> manager \<Rightarrow> deliveries \<times> int \<times> manager" where
  "session_loop loads now se scr m =
     (let remaining = deadline se - now in
      if remaining \<le> 0 then (to_self (se_id se) lifetime_exceeded, now, m)
      else
        (let timeout = min remaining RECEIVE_TIMEOUT_MS in
         case scr of
           [] \<Rightarrow> ([], now, m)
         | (t, env, msg) # rest \<Rightarrow>
             (if now + timeout < t then session_loop loads (now + timeout) se scr m
              else
                (let now1 = max now t in
                 case handle_message loads now1 se msg (env m) of
                   (False, ds, _, m1) \<Rightarrow> (ds, now1, m1)
                 | (True, ds, se1, m1) \<Rightarrow>
                     (case session_loop loads now1 se1 rest m1 of (ds', end, m2) \<Rightarrow> (ds @ ds', end, m2))))))"
  by pat_completeness auto

text \<open>
  The loop ends: every iteration takes a message from the socket or moves the clock towards
  the deadline, which no message moves.
\<close>

termination session_loop
  by (relation "measures [\<lambda>(loads, now, se, scr, m). length scr, \<lambda>(loads, now, se, scr, m). nat (deadline se - now)]")
     (auto simp: RECEIVE_TIMEOUT_MS_def min_def)

declare session_loop.simps [simp del]

subsection \<open>The whole connection\<close>

definition new_session :: "string \<Rightarrow> string \<Rightarrow> slug \<Rightarrow> int \<Rightarrow> session" where
  "new_session pid role slug now =
     \<lparr>se_id = pid, se_role = role, se_slug = slug, msg_count = 0, window_start = now,
      deadline = now + MAX_CONNECTION_LIFETIME_MS\<rparr>"

definition welcome_message :: "string \<Rightarrow> ice_server list \<Rightarrow> frame" where
  "welcome_message pid ice = Text_Frame (JObj [
     (''type'', JStr ''welcome''), (''peerId'', JStr pid), (''iceServers'', JList (map ice_entry ice))])"

text \<open>From the connection to the admission into the room. \<open>up\<close>: whether Redis answers the limiter.\<close>

definition open_session ::
  "'s redis \<Rightarrow> crypto \<Rightarrow> bool \<Rightarrow> slug \<Rightarrow> request \<Rightarrow> string \<Rightarrow> int \<Rightarrow> 's \<Rightarrow> manager \<Rightarrow>
     (frame list + session) \<times> 's \<times> manager" where
  "open_session R C up slug req pid now s m =
     (if multi_worker_detected m then
        (Inl (reject ''Signaling unavailable: multiple worker processes detected. Deploy with --workers 1.''
           4503 ''Signaling requires single worker process''), s, m)
      else
        (let client_ip = (case ws_client req of Some h \<Rightarrow> h | None \<Rightarrow> ''unknown'') in
         case check_ws_connection_rate R C up client_ip s of
           (False, s1) \<Rightarrow> (Inl (reject ''Too many connections'' 4029 ''Rate limit exceeded''), s1, m)
         | (True, s1) \<Rightarrow>
             (case authenticate R C slug client_ip (ws_cookie req) (first_message req) s1 of
                Refused fs \<Rightarrow> (Inl fs, s1, m)
              | Failed \<Rightarrow> (Inl [], s1, m)
              | Authenticated role cslug \<Rightarrow>
                  (case register_peer now cslug \<lparr>p_id = pid, p_role = role, p_relay_mode = False\<rparr> m of
                     (Room_Limit_Reached, m1) \<Rightarrow>
                       (Inl (reject ''Server room limit reached'' 4029 ''Too many rooms''), s1, m1)
                   | (Host_Taken, m1) \<Rightarrow>
                       (Inl (reject ''Room already has a host'' 4009 ''Host already connected''), s1, m1)
                   | (Room_Full, m1) \<Rightarrow>
                       (Inl (reject ''Room is full'' 4029 ''Room peer limit reached''), s1, m1)
                   | (Reg_OK, m1) \<Rightarrow>
                       (case get_room cslug m1 of
                          None \<Rightarrow> (Inl (reject ''Internal error'' 1011 ''Internal error''), s1, m1)
                        | Some _ \<Rightarrow> (Inr (new_session pid role cslug now), s1, m1))))))"

text \<open>The \<open>finally\<close> block.\<close>

definition close_session :: "int \<Rightarrow> session \<Rightarrow> manager \<Rightarrow> deliveries \<times> manager" where
  "close_session now se m =
     (let m1 = remove_peer now (se_slug se) (se_id se) m
      in (broadcast_peer_left (se_slug se) (se_id se) m1, m1))"

definition handle_signaling ::
  "'s redis \<Rightarrow> crypto \<Rightarrow> (bytes \<Rightarrow> parse) \<Rightarrow> bool \<Rightarrow> ice_server list \<Rightarrow> slug \<Rightarrow> request \<Rightarrow> string \<Rightarrow> int \<Rightarrow>
     script \<Rightarrow> 's \<Rightarrow> manager \<Rightarrow> deliveries \<times> int \<times> 's \<times> manager" where
  "handle_signaling R C loads up ice slug req pid now scr s m =
     (case open_session R C up slug req pid now s m of
        (Inl fs, s1, m1) \<Rightarrow> (to_self pid fs, now, s1, m1)
      | (Inr se, s1, m1) \<Rightarrow>
          (case session_loop loads now se scr m1 of (ds, end, m2) \<Rightarrow>
            (case close_session end se m2 of (notices, m3) \<Rightarrow>
              ((pid, welcome_message pid ice) # ds @ notices, end, s1, m3))))"

end
