(* ===== verification/Signaling_Properties.thy ===== *)
theory Signaling_Properties
  imports Signaling_Sessions Channel_Runs
begin

section \<open>What the signaling server guarantees\<close>

text \<open>
  Who is let in, what is passed on, how much is relayed and handled, and that every
  connection ends and leaves its room. \<open>serving\<close> are the states of the rooms that the
  handlers reach, in any interleaving of connections.
\<close>

subsection \<open>Who may enter a room\<close>

definition presents :: "(string \<times> json) list \<Rightarrow> string \<Rightarrow> (string \<Rightarrow> bool) \<Rightarrow> bool" where
  "presents d k P = (\<exists>t. map_of d k = Some (JStr t) \<and> t \<noteq> [] \<and> P t)"

definition reader_may_enter :: "'s redis \<Rightarrow> crypto \<Rightarrow> channel_data \<Rightarrow> (string \<times> json) list \<Rightarrow> 's \<Rightarrow> bool" where
  "reader_may_enter R C c d s =
     (presents d ''token'' (\<lambda>t. GET R (reader_token_key (short_slug c)) s = Some (Text (sha256_hex C t))) \<or>
      (\<not> get_true d ''token'' \<and> GET R (reader_token_key (short_slug c)) s = None \<and>
       GET R (pending_token_key (short_slug c)) s = None))"

definition buyer_may_enter ::
  "'s redis \<Rightarrow> crypto \<Rightarrow> channel_data \<Rightarrow> (string \<times> json) list \<Rightarrow> string \<Rightarrow> string \<Rightarrow> 's \<Rightarrow> bool" where
  "buyer_may_enter R C c d cookie ip s =
     (is_paid c \<longrightarrow>
       (let paid = (\<lambda>t. SISMEMBER R (payment_token_key (short_slug c))
                      (bound_value (sha256_hex C t) (hash_ip C ip)) s)
        in presents d ''paymentToken'' paid \<or>
           (\<not> get_true d ''paymentToken'' \<and> cookie \<noteq> [] \<and>
            (\<exists>t. decrypt_token C cookie = Some t \<and> t \<noteq> [] \<and> paid t))))"

definition may_enter ::
  "'s redis \<Rightarrow> crypto \<Rightarrow> string \<Rightarrow> channel_data \<Rightarrow> (string \<times> json) list \<Rightarrow> string \<Rightarrow> string \<Rightarrow> 's \<Rightarrow> bool" where
  "may_enter R C role c d cookie ip s =
     ((role = ''host'' \<and> presents d ''secret'' (\<lambda>t. secret c = hash_secret C t)) \<or>
      (role = ''guest'' \<and> reader_may_enter R C c d s \<and> buyer_may_enter R C c d cookie ip s))"

lemma get_true_str: "map_of d k = Some (JStr t) \<Longrightarrow> get_true d k = (t \<noteq> [])"
  by (simp add: get_true_def)

lemma get_true_None: "map_of d k = None \<Longrightarrow> \<not> get_true d k"
  by (simp add: get_true_def)

lemma presents_str: "map_of d k = Some (JStr t) \<Longrightarrow> presents d k P = (t \<noteq> [] \<and> P t)"
  by (simp add: presents_def)

lemma presents_other: "\<forall>t. map_of d k \<noteq> Some (JStr t) \<Longrightarrow> \<not> presents d k P"
  by (auto simp: presents_def)

lemma presents_false: "\<not> get_true d k \<Longrightarrow> \<not> presents d k P"
  by (auto simp: presents_def get_true_def)

lemma validate_file_host_iff:
  "validate_file_host C c d = Pass \<longleftrightarrow> presents d ''secret'' (\<lambda>t. secret c = hash_secret C t)"
  by (auto simp: validate_file_host_def presents_def get_true_def split: option.splits json.splits)

lemma check_reader_iff: "check_reader R C slug c d s = Pass \<longleftrightarrow> reader_may_enter R C c d s"
proof (cases "get_true d ''token''")
  case False
  then show ?thesis
    by (simp add: check_reader_def reader_may_enter_def presents_false has_reader_token_def
        is_pending_token_def given_or_fetched_def)
next
  case True
  then show ?thesis
    by (auto simp: check_reader_def reader_may_enter_def presents_def validate_reader_token_def get_true_def
        given_or_fetched_def split: option.splits json.splits if_splits)
qed

lemma check_payment_iff:
  "check_payment R C slug c d cookie ip s = Pass \<longleftrightarrow> buyer_may_enter R C c d cookie ip s"
proof (cases "get_true d ''paymentToken''")
  case False
  then show ?thesis
    by (auto simp: check_payment_def buyer_may_enter_def presents_false Let_def str_or_def
        validate_payment_token_def given_or_fetched_def split: option.splits if_splits)
next
  case True
  then obtain v where v: "map_of d ''paymentToken'' = Some v" by (auto simp: get_true_def split: option.splits)
  then show ?thesis using True
    by (cases v) (auto simp: check_payment_def buyer_may_enter_def presents_def Let_def
        validate_payment_token_def given_or_fetched_def get_true_def)
qed

lemma validate_file_guest_iff: "validate_file_guest R C slug c d cookie ip s = Pass \<longleftrightarrow>
    reader_may_enter R C c d s \<and> buyer_may_enter R C c d cookie ip s"
  using check_reader_iff [of R C slug c d s] check_payment_iff [of R C slug c d cookie ip s]
  by (cases "check_reader R C slug c d s") (auto simp: validate_file_guest_def)

lemma canonical_roles: "canonical_role v = Some role \<Longrightarrow> role = ''host'' \<or> role = ''guest''"
  by (auto simp: canonical_role_def CANONICAL_ROLES_def Let_def split: option.splits json.splits if_splits)

text \<open>
  Property C9: a connection is let in exactly when its first message is a well-formed auth
  message of at most 64 KiB with a known role for an existing file channel and carries the
  credentials of that role: the channel secret for a host; for a guest the registered reader
  token, or none when none is registered or awaited, and on a paid channel a payment token
  bought from the same address. It enters under the short slug of the channel.
\<close>

theorem authentication_exact:
  "authenticate R C slug ip cookie fm s = Authenticated role cslug \<longleftrightarrow>
    (\<exists>raw d c. fm = First_Text raw \<and> raw_len raw \<le> 65536 \<and> raw_parse raw = Parsed (JObj d) \<and>
       map_of d ''type'' = Some (JStr ''auth'') \<and> canonical_role (map_of d ''role'') = Some role \<and>
       fetch_channel R slug s = Some c \<and> cslug = short_slug c \<and> session_kind c = ''file'' \<and>
       may_enter R C role c d cookie ip s)"
proof -
  have host: "(case validate_file_host C c d of Pass \<Rightarrow> Authenticated ''host'' (short_slug c)
      | Fail fs \<Rightarrow> Refused fs | Boom \<Rightarrow> Failed) = Authenticated role cslug \<longleftrightarrow>
      role = ''host'' \<and> cslug = short_slug c \<and> may_enter R C ''host'' c d cookie ip s" for c d
    using validate_file_host_iff [of C c d] by (cases "validate_file_host C c d") (auto simp: may_enter_def)
  have guest: "(case validate_file_guest R C slug c d cookie ip s of Pass \<Rightarrow> Authenticated ''guest'' (short_slug c)
      | Fail fs \<Rightarrow> Refused fs | Boom \<Rightarrow> Failed) = Authenticated role cslug \<longleftrightarrow>
      role = ''guest'' \<and> cslug = short_slug c \<and> may_enter R C ''guest'' c d cookie ip s" for c d
    using validate_file_guest_iff [of R C slug c d cookie ip s]
    by (cases "validate_file_guest R C slug c d cookie ip s") (auto simp: may_enter_def)
  show ?thesis
  proof (cases fm)
    case (First_Text raw)
    show ?thesis
    proof (cases "raw_parse raw")
      case (Parsed v)
      show ?thesis
      proof (cases v)
        case (JObj d)
        consider "canonical_role (map_of d ''role'') = None" | "canonical_role (map_of d ''role'') = Some ''host''"
          | "canonical_role (map_of d ''role'') = Some ''guest''"
          using canonical_roles by (cases "canonical_role (map_of d ''role'')") blast+
        then show ?thesis
          using First_Text Parsed JObj host guest
          by cases (auto simp: authenticate_def auth_validator_def MAX_SIGNALING_MESSAGE_SIZE_def
              split: option.splits)
      qed (use First_Text Parsed in \<open>auto simp: authenticate_def\<close>)
    qed (use First_Text in \<open>auto simp: authenticate_def\<close>)
  qed (auto simp: authenticate_def)
qed

subsection \<open>What is passed on\<close>

definition forwarded_keys :: "string list" where
  "forwarded_keys = [''type'', ''fromId'', ''data'', ''sdp'', ''candidate'', ''sdpMid'', ''usernameFragment'',
     ''sdpMLineIndex'', ''metadata'']"

text \<open>A bounded value: long strings are cut off by every field, metadata is flat and small.\<close>

definition bounded_value :: "json \<Rightarrow> bool" where
  "bounded_value v = (case v of
       JStr t \<Rightarrow> length t \<le> 65536
     | JObj meta \<Rightarrow> (\<forall>(k, x) \<in> set meta. is_scalar x) \<and> dumps_len v \<le> 4096
     | JList _ \<Rightarrow> False
     | _ \<Rightarrow> True)"

text \<open>A message another peer receives on behalf of the connection.\<close>

definition honest_message :: "session \<Rightarrow> (string \<times> json) list \<Rightarrow> bool" where
  "honest_message se d =
     (map_of d ''fromId'' = Some (JStr (se_id se)) \<and>
      (\<exists>t. map_of d ''type'' = Some (JStr t) \<and> t \<in> set relay_types \<union> set signal_types) \<and>
      fst ` set d \<subseteq> set forwarded_keys \<and>
      (\<forall>(k, v) \<in> set d. k \<notin> {''type'', ''fromId''} \<longrightarrow> bounded_value v) \<and>
      (map_of d ''metadata'' \<noteq> None \<longrightarrow> se_role se = ''host''))"

definition own_notice :: "frame \<Rightarrow> bool" where
  "own_notice f = ((\<exists>t. f = error_message t) \<or> (\<exists>code reason. f = Close_Frame code reason))"

definition honest_delivery :: "session \<Rightarrow> incoming \<Rightarrow> manager \<Rightarrow> string \<Rightarrow> frame \<Rightarrow> bool" where
  "honest_delivery se msg m q f =
     ((q = se_id se \<and> own_notice f) \<or>
      (peer_exists (se_slug se) q m \<and>
       ((\<exists>bs header payload. msg = In_Bytes bs \<and> split_relay_frame bs = Some (header, payload) \<and>
          f = Binary_Frame payload) \<or>
        (\<exists>raw d. msg = In_Text raw \<and> f = Text_Frame (JObj d) \<and> honest_message se d))))"

lemma short_str_cases:
  obtains "short_str cap k d = []" | v where "short_str cap k d = [(k, JStr v)]" and "length v \<le> cap"
proof (cases "\<exists>v. map_of d k = Some (JStr v) \<and> length v \<le> cap")
  case True
  then show thesis using that(2) by (auto simp: short_str_def)
next
  case False
  then have "short_str cap k d = []" by (auto simp: short_str_def split: option.split json.split)
  then show thesis by (rule that(1))
qed

lemma short_str_fields:
  "cap \<le> 65536 \<Longrightarrow> (x, v) \<in> set (short_str cap k d) \<Longrightarrow> x = k \<and> bounded_value v"
  by (cases rule: short_str_cases [of cap k d]) (auto simp: bounded_value_def)

lemma nullable_str_fields: "(x, v) \<in> set (nullable_str k d) \<Longrightarrow> x = k \<and> bounded_value v"
  using short_str_fields [of 255 x v k d]
  by (auto simp: nullable_str_def bounded_value_def split: if_splits)

lemma nullable_int_fields:
  assumes "(x, v) \<in> set (nullable_int k d)"
  shows "x = k \<and> bounded_value v"
proof (cases "map_of d k")
  case (Some a)
  then show ?thesis using assms by (cases a) (auto simp: nullable_int_def bounded_value_def)
qed (use assms in \<open>simp add: nullable_int_def\<close>)

lemma relay_metadata_fields:
  assumes "(x, v) \<in> set (relay_metadata role d)"
  shows "x = ''metadata'' \<and> bounded_value v \<and> role = ''host''"
proof (cases "map_of d ''metadata''")
  case (Some a)
  then show ?thesis using assms
    by (cases a) (auto simp: relay_metadata_def bounded_value_def list_all_iff simp del: dumps_len.simps split: if_splits)
qed (use assms in \<open>simp add: relay_metadata_def\<close>)

lemma signal_fields_ok:
  assumes "(x, v) \<in> set (signal_fields role d)"
  shows "x \<in> set (tl (tl forwarded_keys)) \<and> bounded_value v \<and> (x = ''metadata'' \<longrightarrow> role = ''host'')"
proof -
  have cap: "MAX_SIGNALING_MESSAGE_SIZE \<le> 65536" by (simp add: MAX_SIGNALING_MESSAGE_SIZE_def)
  consider "(x, v) \<in> set (short_str MAX_SIGNALING_MESSAGE_SIZE ''sdp'' d)"
    | "(x, v) \<in> set (short_str MAX_SIGNALING_MESSAGE_SIZE ''candidate'' d)"
    | "(x, v) \<in> set (nullable_str ''sdpMid'' d)" | "(x, v) \<in> set (nullable_str ''usernameFragment'' d)"
    | "(x, v) \<in> set (nullable_int ''sdpMLineIndex'' d)" | "(x, v) \<in> set (relay_metadata role d)"
    using assms unfolding signal_fields_def by auto
  then show ?thesis
  proof cases
    case 1
    then show ?thesis using short_str_fields [OF cap 1] by (simp add: forwarded_keys_def)
  next
    case 2
    then show ?thesis using short_str_fields [OF cap 2] by (simp add: forwarded_keys_def)
  next
    case 3
    then show ?thesis using nullable_str_fields [OF 3] by (simp add: forwarded_keys_def)
  next
    case 4
    then show ?thesis using nullable_str_fields [OF 4] by (simp add: forwarded_keys_def)
  next
    case 5
    then show ?thesis using nullable_int_fields [OF 5] by (simp add: forwarded_keys_def)
  next
    case 6
    then show ?thesis using relay_metadata_fields [OF 6] by (simp add: forwarded_keys_def)
  qed
qed

lemma metadata_value: "map_of fs k \<noteq> None \<Longrightarrow> \<exists>v. (k, v) \<in> set fs"
  by (metis map_of_SomeD not_None_eq)

lemma honest_fields:
  assumes "t \<in> set relay_types \<union> set signal_types" and "fs = short_str MAX_SIGNALING_MESSAGE_SIZE ''data'' d \<or>
      fs = [] \<or> fs = signal_fields (se_role se) d"
  shows "honest_message se ([(''type'', JStr t), (''fromId'', JStr (se_id se))] @ fs)"
proof -
  have cap: "MAX_SIGNALING_MESSAGE_SIZE \<le> 65536" by (simp add: MAX_SIGNALING_MESSAGE_SIZE_def)
  have tl: "set (tl (tl forwarded_keys)) \<subseteq> set forwarded_keys"
    "x \<in> set (tl (tl forwarded_keys)) \<Longrightarrow> x \<noteq> ''type'' \<and> x \<noteq> ''fromId''" for x
    by (auto simp: forwarded_keys_def)
  have f: "x \<in> set (tl (tl forwarded_keys)) \<and> bounded_value v \<and> (x = ''metadata'' \<longrightarrow> se_role se = ''host'')"
    if mem: "(x, v) \<in> set fs" for x v
  proof -
    consider "fs = short_str MAX_SIGNALING_MESSAGE_SIZE ''data'' d" | "fs = signal_fields (se_role se) d"
      using assms(2) mem by auto
    then show ?thesis
    proof cases
      case 1
      then have "(x, v) \<in> set (short_str MAX_SIGNALING_MESSAGE_SIZE ''data'' d)" using mem by simp
      from short_str_fields [OF cap this] show ?thesis by (simp add: forwarded_keys_def)
    next
      case 2
      then have "(x, v) \<in> set (signal_fields (se_role se) d)" using mem by simp
      then show ?thesis by (rule signal_fields_ok)
    qed
  qed
  have "map_of fs ''metadata'' \<noteq> None \<Longrightarrow> se_role se = ''host''"
    using f metadata_value by metis
  moreover have "fst ` set fs \<subseteq> set forwarded_keys" using f tl(1) by fastforce
  moreover have "\<forall>(k, v) \<in> set fs. k \<noteq> ''type'' \<and> k \<noteq> ''fromId'' \<longrightarrow> bounded_value v" using f by fast
  moreover have "''type'' \<in> set forwarded_keys" "''fromId'' \<in> set forwarded_keys" by (simp_all add: forwarded_keys_def)
  ultimately show ?thesis
    using assms(1) by (simp add: honest_message_def)
qed

lemma send_to_peer_target:
  assumes "manager_ok m" and "(q, f) \<in> set (snd (send_to_peer slug target g m))"
  shows "q = target \<and> f = g"
  using assms room_okD(3) [OF manager_okD(3)] 
  by (auto simp: send_to_peer_def get_room_def split: option.splits)

lemma target_lookup_Some: "target_lookup slug v m = Some (Some t) \<Longrightarrow> peer_exists slug t m"
  by (auto simp: target_lookup_def split: json.splits if_splits)

text \<open>The room updates of the handlers keep the rooms well formed and their members.\<close>

lemma set_room_spec:
  assumes ok: "manager_ok m" and at: "get_room slug m = Some r"
    and "room_peers r' = room_peers r" and "host_id r' = host_id r"
  shows "manager_ok (set_room slug r' m)" and "room_roles (set_room slug r' m) = room_roles m"
proof -
  have at': "map_of (rooms m) slug = Some r" using at by (simp add: get_room_def)
  have "room_ok r'" using manager_okD(3) [OF ok at'] assms(3,4) by (simp add: room_ok_def)
  then show "manager_ok (set_room slug r' m)"
    unfolding set_room_def using manager_ok_update [OF ok] at' by simp
  show "room_roles (set_room slug r' m) = room_roles m"
    unfolding set_room_def roles_update
    by (auto simp: fun_eq_iff room_roles_def at assms(3))
qed

lemma set_relay_mode_spec:
  assumes ok: "manager_ok m"
  shows "manager_ok (set_relay_mode slug me m)" and "room_roles (set_relay_mode slug me m) = room_roles m"
proof -
  have "manager_ok (set_relay_mode slug me m) \<and> room_roles (set_relay_mode slug me m) = room_roles m"
  proof (cases "\<exists>r p. get_room slug m = Some r \<and> map_of (room_peers r) me = Some p")
    case False
    then have "set_relay_mode slug me m = m" by (auto simp: set_relay_mode_def split: option.splits)
    then show ?thesis using ok by simp
  next
    case True
    then obtain r p where at: "get_room slug m = Some r" and p: "map_of (room_peers r) me = Some p" by blast
    define r' where "r' = r\<lparr>room_peers := AList.update me (p\<lparr>p_relay_mode := True\<rparr>) (room_peers r)\<rparr>"
    have e: "set_relay_mode slug me m = set_room slug r' m" by (simp add: set_relay_mode_def at p r'_def)
    have at': "map_of (rooms m) slug = Some r" using at by (simp add: get_room_def)
    note rok = room_okD [OF manager_okD(3) [OF ok at']]
    have mo: "map_of (room_peers r') k = (if k = me then Some (p\<lparr>p_relay_mode := True\<rparr>) else map_of (room_peers r) k)" for k
      by (simp add: r'_def dict_simps)
    have len: "length (room_peers r') = length (room_peers r)"
      using map_of_in_fst [OF p] by (simp add: r'_def length_update)
    have "distinct (map fst (room_peers r'))" using rok(1) by (simp add: r'_def AList.distinct_update)
    moreover have "host_id r' = host_id r" by (simp add: r'_def)
    ultimately have "room_ok r'"
      using rok(2) rok(3) rok(4) p unfolding room_ok_def by (auto simp: mo len)
    then have "manager_ok (set_room slug r' m)"
      unfolding set_room_def using manager_ok_update [OF ok] at' by simp
    moreover have "room_roles (set_room slug r' m) = room_roles m"
      unfolding set_room_def roles_update using p by (auto simp: fun_eq_iff room_roles_def at mo)
    ultimately show ?thesis using e by simp
  qed
  then show "manager_ok (set_relay_mode slug me m)" and "room_roles (set_relay_mode slug me m) = room_roles m"
    by blast+
qed

lemma account_relay_room:
  assumes "account_relay now len r = (r', a)"
  shows "room_peers r' = room_peers r" and "host_id r' = host_id r"
  using assms by (auto simp: account_relay_def Let_def split: if_splits)

text \<open>The ways a binary frame, a relay control and a signaling message are handled.\<close>

lemma binary_relay_cases:
  assumes "handle_binary_relay loads now slug me msg m = (h, ds, m1)"
  obtains (idle) "ds = []" and "m1 = m"
  | (refused) r r' a note_text code reason len where "get_room slug m = Some r" and "0 \<le> len"
    and "account_relay now len r = (r', a)"
    and "m1 = set_room slug r' m" and "ds = to_self me (reject note_text code reason)" and "h = Closed"
  | (relayed) bs header payload target r r' a where "msg = In_Bytes bs"
    and "split_relay_frame bs = Some (header, payload)" and "peer_exists slug target m"
    and "get_room slug m = Some r" and "account_relay now (int (length payload)) r = (r', Accounted a)"
    and "m1 = set_room slug r' m" and "ds = snd (send_to_peer slug target (Binary_Frame payload) m1)"
proof (cases "\<exists>bs header payload d target r.
    msg = In_Bytes bs \<and> bs \<noteq> [] \<and> split_relay_frame bs = Some (header, payload) \<and>
    loads header = Parsed (JObj d) \<and> map_of d ''type'' = Some (JStr ''relay:chunk'') \<and>
    get_true d ''targetId'' \<and> target_lookup slug (the (map_of d ''targetId'')) m = Some (Some target) \<and>
    get_room slug m = Some r")
  case True
  then obtain bs header payload d target r where c:
    "msg = In_Bytes bs" "bs \<noteq> []" "split_relay_frame bs = Some (header, payload)"
    "loads header = Parsed (JObj d)" "map_of d ''type'' = Some (JStr ''relay:chunk'')"
    "get_true d ''targetId''" "target_lookup slug (the (map_of d ''targetId'')) m = Some (Some target)"
    "get_room slug m = Some r" by blast
  obtain r' a where acc: "account_relay now (int (length payload)) r = (r', a)" by fastforce
  obtain b bs' where bs: "bs = b # bs'" using c(2) by (cases bs) auto
  show thesis
  proof (cases a)
    case Session_Limit
    then have "m1 = set_room slug r' m" "ds = to_self me (reject ''Relay session size limit exceeded'' 4029 ''Relay limit exceeded'')" "h = Closed"
      using assms c acc bs by (simp_all add: handle_binary_relay_def)
    then show thesis by (rule refused [OF c(8) of_nat_0_le_iff acc])
  next
    case Rate_Limit
    then have "m1 = set_room slug r' m" "ds = to_self me (reject ''Relay rate limit exceeded'' 4029 ''Relay rate limit exceeded'')" "h = Closed"
      using assms c acc bs by (simp_all add: handle_binary_relay_def)
    then show thesis by (rule refused [OF c(8) of_nat_0_le_iff acc])
  next
    case (Accounted r2)
    then have "m1 = set_room slug r' m" "ds = snd (send_to_peer slug target (Binary_Frame payload) m1)"
      using assms c acc bs by (auto simp: handle_binary_relay_def)
    then show thesis
      by (rule relayed [OF c(1,3) target_lookup_Some [OF c(7)] c(8) acc [unfolded Accounted]])
  qed
next
  case False
  have "ds = [] \<and> m1 = m"
  proof (cases "\<exists>b bs header payload. msg = In_Bytes (b # bs) \<and> split_relay_frame (b # bs) = Some (header, payload)")
    case True
    then obtain b bs header payload where f: "msg = In_Bytes (b # bs)"
      "split_relay_frame (b # bs) = Some (header, payload)" by blast
    show ?thesis
    proof (cases "loads header")
      case (Parsed v)
      show ?thesis
      proof (cases v)
        case (JObj d)
        then show ?thesis
          using assms f Parsed False
          by (auto simp: handle_binary_relay_def split: option.splits if_splits)
      qed (use assms f Parsed in \<open>auto simp: handle_binary_relay_def\<close>)
    qed (use assms f in \<open>auto simp: handle_binary_relay_def\<close>)
  next
    case False
    then show ?thesis using assms
      by (auto simp: handle_binary_relay_def split: incoming.splits list.splits option.splits)
  qed
  then show thesis using idle by blast
qed

lemma relay_control_cases:
  assumes "handle_relay_control slug me d m = (h, ds, m1)"
  obtains (not_mine) "h = Not_Mine"
  | (notice) ts where "ds = to_self me (map error_message ts)" and "m1 = m"
  | (passed) t fs target where "t \<in> set relay_types" and "peer_exists slug target m"
    and "fs = short_str MAX_SIGNALING_MESSAGE_SIZE ''data'' d \<or> fs = []"
    and "m1 = m \<or> m1 = set_relay_mode slug me m"
    and "ds = snd (send_to_peer slug target (Text_Frame (JObj ([(''type'', JStr t), (''fromId'', JStr me)] @ fs))) m1)"
proof (cases "msg_type_in relay_types d")
  case None
  then show thesis using assms not_mine by (simp add: handle_relay_control_def)
next
  case (Some t)
  have t: "t \<in> set relay_types"
    using Some by (auto simp: msg_type_in_def split: option.splits json.splits if_splits)
  show thesis
  proof (cases "get_true d ''targetId''")
    case False
    then have "ds = to_self me (map error_message [''Missing targetId for relay''])" "m1 = m"
      using assms Some by (auto simp: handle_relay_control_def)
    then show thesis by (rule notice)
  next
    case True
    show thesis
    proof (cases "target_lookup slug (the (map_of d ''targetId'')) m")
      case None
      then have "ds = to_self me (map error_message [])" "m1 = m"
        using assms Some True by (auto simp: handle_relay_control_def to_self_def)
      then show thesis by (rule notice)
    next
      case found: (Some o1)
      show thesis
      proof (cases o1)
        case None
        then have "ds = to_self me (map error_message [''Relay target not found''])" "m1 = m"
          using assms Some True found by (auto simp: handle_relay_control_def)
        then show thesis by (rule notice)
      next
        case target: (Some target)
        define fs where "fs = (if t = ''relay:data'' then short_str MAX_SIGNALING_MESSAGE_SIZE ''data'' d else [])"
        have "m1 = (if t = ''relay:start'' then set_relay_mode slug me m else m)"
          "ds = snd (send_to_peer slug target (Text_Frame (JObj ([(''type'', JStr t), (''fromId'', JStr me)] @ fs))) m1)"
          using assms Some True found target by (auto simp: handle_relay_control_def Let_def fs_def)
        then show thesis
          using target_lookup_Some [OF found [unfolded target]] t
          by (intro passed [of t target fs]) (auto simp: fs_def)
      qed
    qed
  qed
qed

lemma webrtc_cases:
  assumes "handle_webrtc_signaling slug me role d m = (h, ds, m1)"
  obtains (not_mine) "h = Not_Mine"
  | (notice) ts where "ds = to_self me (map error_message ts)" and "m1 = m"
  | (passed) t target where "t \<in> set signal_types" and "peer_exists slug target m" and "m1 = m"
    and "ds = snd (send_to_peer slug target (Text_Frame (JObj
      ([(''type'', JStr t), (''fromId'', JStr me)] @ signal_fields role d))) m)"
proof (cases "msg_type_in signal_types d")
  case None
  then show thesis using assms not_mine by (simp add: handle_webrtc_signaling_def)
next
  case (Some t)
  have t: "t \<in> set signal_types"
    using Some by (auto simp: msg_type_in_def split: option.splits json.splits if_splits)
  define tid where "tid = (if get_true d ''targetId'' then map_of d ''targetId''
      else if t = ''connect-request'' then map_option JStr (host_id_for slug m) else None)"
  have e: "(h, ds, m1) = (case tid of
                None \<Rightarrow> (Handled, to_self me [error_message ''Missing targetId''], m)
              | Some v \<Rightarrow>
                  (if \<not> json_true v then (Handled, to_self me [error_message ''Missing targetId''], m)
                   else (case target_lookup slug v m of
                     None \<Rightarrow> (Crashed, [], m)
                   | Some None \<Rightarrow> (Handled, to_self me [error_message ''Target peer not found''], m)
                   | Some (Some target) \<Rightarrow>
                       (Handled, snd (send_to_peer slug target (Text_Frame (JObj (
                          [(''type'', JStr t), (''fromId'', JStr me)] @ signal_fields role d))) m), m))))"
    using assms Some unfolding handle_webrtc_signaling_def Let_def tid_def by simp
  consider "ds = to_self me (map error_message [''Missing targetId''])" "m1 = m"
    | "ds = to_self me (map error_message [''Target peer not found''])" "m1 = m"
    | "ds = to_self me (map error_message [])" "m1 = m"
    | v target where "target_lookup slug v m = Some (Some target)" "m1 = m"
      "ds = snd (send_to_peer slug target (Text_Frame (JObj
        ([(''type'', JStr t), (''fromId'', JStr me)] @ signal_fields role d))) m)"
    using e by (auto simp: to_self_def split: option.splits if_splits)
  then show thesis
  proof cases
    case 4
    show thesis by (rule passed [OF t target_lookup_Some [OF 4(1)] 4(2,3)])
  qed (use notice in blast)+
qed

lemma notices_honest: "(q, f) \<in> set (to_self (se_id se) fs) \<Longrightarrow> \<forall>f \<in> set fs. own_notice f \<Longrightarrow>
    honest_delivery se msg m q f"
  by (auto simp: honest_delivery_def to_self_def)

lemma own_errors: "\<forall>f \<in> set (map error_message ts). own_notice f"
  by (auto simp: own_notice_def)

lemma own_reject: "\<forall>f \<in> set (reject a c b). own_notice f"
  by (auto simp: own_notice_def reject_def)

text \<open>Dispatching a text message: what is passed on is honest, the members stay.\<close>

lemma dispatch_text_spec:
  assumes ok: "manager_ok m"
    and dt: "dispatch_text (se_slug se) (se_id se) (se_role se) d m = (h, ds, m1)"
  shows "m1 = m \<or> m1 = set_relay_mode (se_slug se) (se_id se) m"
    and "(q, f) \<in> set ds \<Longrightarrow> honest_delivery se (In_Text raw) m q f"
proof -
  obtain h1 ds1 m2 where rc: "handle_relay_control (se_slug se) (se_id se) d m = (h1, ds1, m2)"
    using prod_cases3 by blast
  obtain h2 ds2 m3 where ws: "handle_webrtc_signaling (se_slug se) (se_id se) (se_role se) d m = (h2, ds2, m3)"
    using prod_cases3 by blast
  have relay: "(m2 = m \<or> m2 = set_relay_mode (se_slug se) (se_id se) m) \<and>
      ((q, f) \<in> set ds1 \<longrightarrow> honest_delivery se (In_Text raw) m q f)" if "h1 \<noteq> Not_Mine"
    using rc
  proof (cases rule: relay_control_cases)
    case (passed t fs target)
    have okm: "manager_ok m2" using passed(4) ok set_relay_mode_spec(1) [OF ok] by metis
    have "honest_message se ([(''type'', JStr t), (''fromId'', JStr (se_id se))] @ fs)"
      using honest_fields [of t fs d se] passed(1,3) by blast
    then show ?thesis
      using passed send_to_peer_target [OF okm] unfolding honest_delivery_def by blast
  qed (use that notices_honest own_errors in \<open>blast+\<close>)
  have signal: "m3 = m \<and> ((q, f) \<in> set ds2 \<longrightarrow> honest_delivery se (In_Text raw) m q f)" if "h2 \<noteq> Not_Mine"
    using ws
  proof (cases rule: webrtc_cases)
    case (passed t target)
    have "honest_message se ([(''type'', JStr t), (''fromId'', JStr (se_id se))] @ signal_fields (se_role se) d)"
      using honest_fields [of t "signal_fields (se_role se) d" d se] passed(1) by blast
    then show ?thesis
      using passed send_to_peer_target [OF ok] unfolding honest_delivery_def by blast
  qed (use that notices_honest own_errors in \<open>blast+\<close>)
  consider "h1 \<noteq> Not_Mine" "(h, ds, m1) = (h1, ds1, m2)"
    | "h1 = Not_Mine" "h2 \<noteq> Not_Mine" "(h, ds, m1) = (h2, ds2, m3)"
    | "ds = to_self (se_id se) (map error_message [''Unknown message type''])" "m1 = m"
    using dt rc ws by (cases h1; cases h2) (auto simp: dispatch_text_def)
  then have "(m1 = m \<or> m1 = set_relay_mode (se_slug se) (se_id se) m) \<and>
      ((q, f) \<in> set ds \<longrightarrow> honest_delivery se (In_Text raw) m q f)"
  proof cases
    case 3
    then show ?thesis using notices_honest own_errors by blast
  qed (use relay signal in auto)
  then show "m1 = m \<or> m1 = set_relay_mode (se_slug se) (se_id se) m"
    and "(q, f) \<in> set ds \<Longrightarrow> honest_delivery se (In_Text raw) m q f" by blast+
qed

text \<open>One message: what happens to the rooms, and what is delivered.\<close>

lemma handle_message_cases:
  assumes ok: "manager_ok m" and hm: "handle_message loads now se msg m = (go, ds, se1, m1)"
  obtains (binary) h where "handle_binary_relay loads now (se_slug se) (se_id se) msg m = (h, ds, m1)" and "se1 = se"
  | (notice) fs where "m1 = m" and "ds = to_self (se_id se) fs" and "\<forall>f \<in> set fs. own_notice f"
  | (text_message) h raw d where "msg = In_Text raw" and "fst (throttle now se)" and "raw_len raw \<le> 65536"
    and "dispatch_text (se_slug se) (se_id se) (se_role se) d m = (h, ds, m1)"
proof -
  obtain h ds0 m0 where b: "handle_binary_relay loads now (se_slug se) (se_id se) msg m = (h, ds0, m0)"
    using prod_cases3 by blast
  show thesis
  proof (cases "h = Not_Mine")
    case False
    then have "handle_binary_relay loads now (se_slug se) (se_id se) msg m = (h, ds, m1)" "se1 = se"
      using hm b by (auto simp: handle_message_def split: handled.splits)
    then show thesis by (rule binary)
  next
    case True
    show thesis
    proof (cases "\<exists>raw se2. msg = In_Text raw \<and> raw_len raw \<noteq> 0 \<and> throttle now se = (True, se2) \<and>
        raw_len raw \<le> MAX_SIGNALING_MESSAGE_SIZE \<and> (\<exists>d. raw_parse raw = Parsed (JObj d))")
      case True
      then obtain raw se2 d where c: "msg = In_Text raw" "raw_len raw \<noteq> 0" "throttle now se = (True, se2)"
        "raw_len raw \<le> MAX_SIGNALING_MESSAGE_SIZE" "raw_parse raw = Parsed (JObj d)" by blast
      obtain h1 ds1 m2 where dt: "dispatch_text (se_slug se) (se_id se) (se_role se) d m = (h1, ds1, m2)"
        using prod_cases3 by blast
      have "ds = ds1" "m1 = m2" using hm b \<open>h = Not_Mine\<close> c dt by (auto simp: handle_message_def)
      then show thesis
        using text_message [OF c(1) _ _ dt [folded \<open>ds = ds1\<close> \<open>m1 = m2\<close>]] c(3,4)
        by (simp add: MAX_SIGNALING_MESSAGE_SIZE_def)
    next
      case False
      have m1: "m1 = m" and ds: "ds = to_self (se_id se) [] \<or>
          ds = to_self (se_id se) (reject ''Message rate limit exceeded'' 4029 ''Rate limit exceeded'') \<or>
          (\<exists>t. ds = to_self (se_id se) (map error_message [t]))"
      proof -
        have "m1 = m \<and> (ds = to_self (se_id se) [] \<or>
          ds = to_self (se_id se) (reject ''Message rate limit exceeded'' 4029 ''Rate limit exceeded'') \<or>
          (\<exists>t. ds = to_self (se_id se) (map error_message [t])))"
        proof (cases msg)
          case (In_Text raw)
          obtain okt se2 where th: "throttle now se = (okt, se2)" by fastforce
          show ?thesis
          proof (cases "raw_parse raw")
            case (Parsed v)
            then show ?thesis
              using hm b \<open>h = Not_Mine\<close> In_Text th False
              by (cases v) (auto simp: handle_message_def to_self_def split: if_splits)
          qed (use hm b \<open>h = Not_Mine\<close> In_Text th in
              \<open>auto simp: handle_message_def to_self_def split: if_splits\<close>)
        qed (use hm b \<open>h = Not_Mine\<close> in \<open>auto simp: handle_message_def to_self_def\<close>)
        then show "m1 = m" and "ds = to_self (se_id se) [] \<or>
          ds = to_self (se_id se) (reject ''Message rate limit exceeded'' 4029 ''Rate limit exceeded'') \<or>
          (\<exists>t. ds = to_self (se_id se) (map error_message [t]))" by blast+
      qed
      show thesis
        using ds
      proof (elim disjE exE)
        assume "ds = to_self (se_id se) []"
        then show thesis by (rule notice [OF m1]) simp
      qed (use notice [OF m1 _ own_reject] notice [OF m1 _ own_errors] in blast)+
    qed
  qed
qed

lemma handle_message_honest:
  assumes ok: "manager_ok m" and hm: "handle_message loads now se msg m = (go, ds, se1, m1)"
    and d: "(q, f) \<in> set ds"
  shows "honest_delivery se msg m q f"
  using ok hm
proof (cases rule: handle_message_cases)
  case (binary h)
  from binary(1) show ?thesis
  proof (cases rule: binary_relay_cases)
    case idle
    then show ?thesis using d by simp
  next
    case (refused r r' a nt code reason len)
    then show ?thesis using d notices_honest own_reject by blast
  next
    case (relayed bs header payload target r r' a)
    have "manager_ok m1"
      using set_room_spec(1) [OF ok relayed(4)] account_relay_room [OF relayed(5)] relayed(6) by simp
    from send_to_peer_target [OF this] show ?thesis
      using d relayed unfolding honest_delivery_def by blast
  qed
next
  case (notice fs)
  then show ?thesis using d notices_honest by blast
next
  case (text_message h raw dd)
  show ?thesis using dispatch_text_spec(2) [OF ok text_message(4)] d text_message(1) by blast
qed

text \<open>
  Property C13: what a connection makes the server write is either a notice on its own socket,
  or goes to a member of its own room and is one of: the payload of its relay frame, byte for
  byte; or a message of the known types that carries its true id as sender, only the allowed
  fields, strings of at most 64 KiB, and flat metadata of at most 4 KiB if it is the host.
\<close>

theorem forwarded_messages_honest:
  assumes "manager_ok m"
  shows "case handle_message loads now se msg m of (_, ds, _, _) \<Rightarrow>
    \<forall>(q, f) \<in> set ds. honest_delivery se msg m q f"
proof -
  obtain go ds se1 m1 where hm: "handle_message loads now se msg m = (go, ds, se1, m1)"
    by (metis prod_cases4)
  show ?thesis using handle_message_honest [OF assms hm] hm by auto
qed

subsection \<open>The states of the rooms\<close>

inductive serving :: "(bytes \<Rightarrow> parse) \<Rightarrow> manager \<Rightarrow> bool" for loads where
  started: "serving loads new_manager"
| joined: "serving loads m \<Longrightarrow> unused_id m (p_id p) \<Longrightarrow>
    serving loads (snd (register_peer now slug p m))"
| message: "serving loads m \<Longrightarrow> handle_message loads now se msg m = (go, ds, se1, m1) \<Longrightarrow> serving loads m1"
| left: "serving loads m \<Longrightarrow> serving loads (remove_peer now slug q m)"
| reported: "serving loads m \<Longrightarrow> serving loads (snd (snd (close_room slug m)))"

definition room_capped :: "room \<Rightarrow> bool" where
  "room_capped r = (0 \<le> relay_bytes r \<and> relay_bytes r \<le> MAX_RELAY_SESSION_BYTES \<and>
     0 \<le> relay_window_bytes r \<and> relay_window_bytes r \<le> RELAY_RATE_LIMIT_BYTES_PER_SEC)"

definition all_capped :: "manager \<Rightarrow> bool" where
  "all_capped m = (\<forall>slug r. get_room slug m = Some r \<longrightarrow> room_capped r)"

lemma capped_new [simp]: "room_capped (new_room now)"
  by (simp add: room_capped_def new_room_def MAX_RELAY_SESSION_BYTES_def RELAY_RATE_LIMIT_BYTES_PER_SEC_def)

lemma capped_account:
  assumes "room_capped r" and "0 \<le> len" and "account_relay now len r = (r', a)"
  shows "room_capped r'"
  using assms by (auto simp: account_relay_def room_capped_def Let_def RELAY_RATE_LIMIT_BYTES_PER_SEC_def
      split: if_splits)

lemma capped_set_room: "all_capped m \<Longrightarrow> room_capped r \<Longrightarrow> all_capped (set_room slug r m)"
  by (auto simp: all_capped_def set_room_def get_room_def dict_simps split: if_splits)

lemma capped_relay_mode: "all_capped m \<Longrightarrow> all_capped (set_relay_mode slug me m)"
  by (auto simp: set_relay_mode_def split: option.split intro!: capped_set_room)
     (auto simp: all_capped_def room_capped_def)

lemma capped_remove_room: "all_capped m \<Longrightarrow> all_capped (remove_room slug m)"
  by (auto simp: all_capped_def remove_room_def get_room_def dict_simps split: if_splits)

lemma capped_remove_peer: "all_capped m \<Longrightarrow> all_capped (remove_peer now slug q m)"
  by (auto simp: all_capped_def remove_peer_def get_room_def Let_def dict_simps room_capped_def
      split: option.splits if_splits)

lemma capped_sub:
  assumes "all_capped m" and "set (rooms m') \<subseteq> set (rooms m)" and "distinct (map fst (rooms m))"
  shows "all_capped m'"
proof -
  have "room_capped r" if "map_of (rooms m') slug = Some r" for slug r
  proof -
    have "(slug, r) \<in> set (rooms m)" using map_of_SomeD [OF that] assms(2) by blast
    then have "map_of (rooms m) slug = Some r" using assms(3) by (simp add: map_of_is_SomeI)
    then show ?thesis using assms(1) by (auto simp: all_capped_def get_room_def)
  qed
  then show ?thesis by (simp add: all_capped_def get_room_def)
qed

lemma capped_register:
  assumes ok: "manager_ok m" and c: "all_capped m"
  shows "all_capped (snd (register_peer now slug p m))"
proof -
  obtain o1 m1 where g: "get_or_create_room now slug m = (o1, m1)" by fastforce
  define m0 where "m0 = throttled_cleanup now m"
  have "all_capped m0"
    by (rule capped_sub [OF c _ manager_okD(1) [OF ok]])
       (auto simp: m0_def throttled_cleanup_def cleanup_stale_rooms_def)
  then have c1: "all_capped m1"
    using g capped_set_room [of m0 "new_room now" slug]
    by (auto simp: get_or_create_room_def m0_def [symmetric] Let_def set_room_def split: option.splits if_splits)
  show ?thesis
  proof (cases o1)
    case None
    then show ?thesis using g c1 by (simp add: register_peer_def)
  next
    case (Some r)
    have "room_capped r" using get_or_create_room_spec(3) [OF ok g Some] c1
      by (auto simp: all_capped_def get_room_def)
    then have "room_capped (admit p r)" by (simp add: admit_def Let_def room_capped_def)
    then show ?thesis
      using g Some c1 capped_remove_room [OF c1] capped_set_room [OF c1, of "admit p r" slug]
      by (auto simp: register_peer_def set_room_def)
  qed
qed

lemma message_keeps:
  assumes ok: "manager_ok m" and c: "all_capped m" and hm: "handle_message loads now se msg m = (go, ds, se1, m1)"
  shows "manager_ok m1" and "all_capped m1" and "room_roles m1 = room_roles m"
proof -
  have "manager_ok m1 \<and> all_capped m1 \<and> room_roles m1 = room_roles m"
    using ok hm
  proof (cases rule: handle_message_cases)
    case (binary h)
    have set: "manager_ok (set_room sl r' m) \<and> all_capped (set_room sl r' m) \<and> room_roles (set_room sl r' m) = room_roles m"
      if "get_room sl m = Some r" "account_relay now len r = (r', a)" "0 \<le> len" for sl r r' len a
    proof -
      have "room_capped r" using c that(1) by (auto simp: all_capped_def)
      then have "all_capped (set_room sl r' m)"
        using capped_set_room [OF c] capped_account [OF _ that(3,2)] by blast
      then show ?thesis using set_room_spec [OF ok that(1)] account_relay_room [OF that(2)] by simp
    qed
    from binary(1) show ?thesis
    proof (cases rule: binary_relay_cases)
      case idle
      then show ?thesis using ok c by simp
    next
      case (refused r r' a nt code reason len)
      then show ?thesis using set [OF refused(1,3,2)] by simp
    next
      case (relayed bs header payload target r r' a)
      then show ?thesis using set [OF relayed(4,5)] by simp
    qed
  next
    case (notice fs)
    then show ?thesis using ok c by simp
  next
    case (text_message h raw d)
    show ?thesis
      using dispatch_text_spec(1) [OF ok text_message(4)] ok c capped_relay_mode [OF c] set_relay_mode_spec [OF ok]
      by metis
  qed
  then show "manager_ok m1" and "all_capped m1" and "room_roles m1 = room_roles m" by blast+
qed

lemma serving_inv: "serving loads m \<Longrightarrow> manager_ok m \<and> all_capped m"
proof (induction rule: serving.induct)
  case started
  then show ?case by (simp add: all_capped_def get_room_def new_manager_def manager_ok_def)
next
  case (joined m p now slug)
  then show ?case
    using memory.register_inv [of m p now slug] capped_register [of m now slug p] by simp
next
  case (message m now se msg go ds se1 m1)
  then show ?case using message_keeps by blast
next
  case (left m now slug q)
  then show ?case using remove_peer_spec(1) capped_remove_peer by blast
next
  case (reported m slug)
  then show ?case
    using memory.close_inv [of m slug] capped_remove_room [of m slug]
    by (auto simp: close_room_def split: option.splits)
qed


subsection \<open>Throughput and message rate\<close>

text \<open>The bytes let through over a sequence of relay frames of a room, by arrival time and size.\<close>

fun relay_run :: "(int \<times> int) list \<Rightarrow> room \<Rightarrow> int" where
  "relay_run [] r = 0"
| "relay_run ((now, len) # xs) r =
     (case account_relay now len r of
        (r', Accounted _) \<Rightarrow> len + relay_run xs r'
      | (r', _) \<Rightarrow> relay_run xs r')"

lemma div_step: "(a::int) + 1000 \<le> b \<Longrightarrow> (c - b) div 1000 + 1 \<le> (c - a) div 1000"
proof -
  assume "a + 1000 \<le> b"
  then have "(c - b + 1000) div 1000 \<le> (c - a) div 1000" by (intro zdiv_mono1) auto
  then show ?thesis by simp
qed

lemma relay_run_bound:
  assumes "sorted (map fst xs)" and "\<forall>(t, len) \<in> set xs. relay_window_start r \<le> t \<and> t \<le> z \<and> 0 \<le> len"
    and "0 \<le> relay_window_bytes r" and "relay_window_bytes r \<le> RELAY_RATE_LIMIT_BYTES_PER_SEC"
    and "relay_window_start r \<le> z"
  shows "relay_run xs r \<le> RELAY_RATE_LIMIT_BYTES_PER_SEC * ((z - relay_window_start r) div 1000 + 1) -
    relay_window_bytes r"
  using assms
proof (induction xs arbitrary: r)
  case Nil
  have "0 \<le> (z - relay_window_start r) div 1000" using Nil.prems(5) by (simp add: pos_imp_zdiv_nonneg_iff)
  then have "RELAY_RATE_LIMIT_BYTES_PER_SEC \<le> RELAY_RATE_LIMIT_BYTES_PER_SEC * ((z - relay_window_start r) div 1000 + 1)"
    by (simp add: RELAY_RATE_LIMIT_BYTES_PER_SEC_def)
  then show ?case using Nil.prems(4) by simp
next
  case (Cons x xs)
  obtain t len where x: "x = (t, len)" by fastforce
  let ?L = "RELAY_RATE_LIMIT_BYTES_PER_SEC"
  define r1 where "r1 = (if 1000 \<le> t - relay_window_start r
      then r\<lparr>relay_window_start := t, relay_window_bytes := 0\<rparr> else r)"
  have len: "0 \<le> len" and t: "relay_window_start r \<le> t" "t \<le> z" using Cons.prems(2) x by auto
  have later: "t \<le> u" if "(u, l) \<in> set xs" for u l
    using Cons.prems(1) that x by force
  have r1: "0 \<le> relay_window_bytes r1" "relay_window_bytes r1 \<le> ?L" "relay_window_start r1 \<le> t"
    using Cons.prems(3,4) t by (auto simp: r1_def RELAY_RATE_LIMIT_BYTES_PER_SEC_def)
  have budget: "?L * ((z - relay_window_start r1) div 1000 + 1) - relay_window_bytes r1 \<le>
      ?L * ((z - relay_window_start r) div 1000 + 1) - relay_window_bytes r"
  proof (cases "1000 \<le> t - relay_window_start r")
    case True
    then have "?L * ((z - t) div 1000 + 1) \<le> ?L * ((z - relay_window_start r) div 1000)"
      using div_step [of "relay_window_start r" t z] by (simp add: RELAY_RATE_LIMIT_BYTES_PER_SEC_def)
    then show ?thesis using True Cons.prems(4) by (simp add: r1_def algebra_simps)
  qed (simp add: r1_def)
  have ih: "relay_run xs r2 \<le> ?L * ((z - relay_window_start r2) div 1000 + 1) - relay_window_bytes r2"
    if "relay_window_start r2 \<in> {relay_window_start r, relay_window_start r1}"
      "0 \<le> relay_window_bytes r2" "relay_window_bytes r2 \<le> ?L" for r2
  proof (rule Cons.IH)
    have st: "relay_window_start r2 \<le> t" using that(1) t r1(3) by auto
    show "\<forall>(u, l) \<in> set xs. relay_window_start r2 \<le> u \<and> u \<le> z \<and> 0 \<le> l"
      using Cons.prems(2) later st by force
    show "relay_window_start r2 \<le> z" using st t by simp
  qed (use Cons.prems(1) that in auto)
  have acc: "account_relay t len r = (if MAX_RELAY_SESSION_BYTES < relay_bytes r + len then (r, Session_Limit)
      else if ?L < relay_window_bytes r1 + len then (r1, Rate_Limit)
      else (let r2 = r1\<lparr>relay_window_bytes := relay_window_bytes r1 + len, relay_bytes := relay_bytes r1 + len\<rparr>
            in (r2, Accounted r2)))"
    by (simp add: account_relay_def Let_def r1_def)
  consider "account_relay t len r = (r, Session_Limit)"
    | "account_relay t len r = (r1, Rate_Limit)"
    | r2 where "account_relay t len r = (r2, Accounted r2)" "relay_window_start r2 = relay_window_start r1"
      "relay_window_bytes r2 = relay_window_bytes r1 + len" "relay_window_bytes r1 + len \<le> ?L"
    using acc by (cases "MAX_RELAY_SESSION_BYTES < relay_bytes r + len"; cases "?L < relay_window_bytes r1 + len")
       (simp_all add: Let_def)
  then show ?case
  proof cases
    case 1
    then show ?thesis using ih [of r] Cons.prems(3,4) by (simp add: x)
  next
    case 2
    then show ?thesis using ih [of r1] r1 budget by (simp add: x)
  next
    case (3 r2)
    then show ?thesis using ih [of r2] r1 budget len by (simp add: x)
  qed
qed

text \<open>A window older than a second counts as one that is just over.\<close>

lemma relay_run_older:
  assumes "\<forall>(t, len) \<in> set xs. a + 1000 \<le> t \<and> b + 1000 \<le> t"
  shows "relay_run xs (r\<lparr>relay_window_start := a\<rparr>) = relay_run xs (r\<lparr>relay_window_start := b\<rparr>)"
  using assms
proof (induction xs)
  case (Cons x xs)
  obtain t len where x: "x = (t, len)" by fastforce
  have t: "a + 1000 \<le> t" "b + 1000 \<le> t" using Cons.prems x by auto
  then show ?case using Cons by (auto simp: x account_relay_def Let_def)
qed simp

text \<open>
  Whatever is sent, a room relays at most 50 MiB in its current window and as
  much again for every further second: no more than 50 MiB times the seconds begun.
\<close>

theorem relay_throughput_bounded:
  assumes "room_capped r" and "sorted (map fst xs)" and "\<forall>(t, len) \<in> set xs. t0 \<le> t \<and> t \<le> t0 + d \<and> 0 \<le> len"
    and "relay_window_start r \<le> t0" and "0 \<le> d"
  shows "relay_run xs r \<le> 52428800 * (d div 1000 + 2)"
proof -
  define a where "a = max (relay_window_start r) (t0 - 1000)"
  define r1 where "r1 = r\<lparr>relay_window_start := a\<rparr>"
  have "relay_run xs r1 = relay_run xs r"
  proof (cases "t0 - 1000 < relay_window_start r")
    case True
    then show ?thesis by (simp add: r1_def a_def)
  next
    case False
    then have "\<forall>(t, len) \<in> set xs. a + 1000 \<le> t \<and> relay_window_start r + 1000 \<le> t"
      using assms(3) by (auto simp: a_def)
    from relay_run_older [OF this, of r] show ?thesis by (simp add: r1_def)
  qed
  moreover have "relay_run xs r1 \<le> 52428800 * ((t0 + d - a) div 1000 + 1) - relay_window_bytes r"
    using relay_run_bound [of xs r1 "t0 + d"] assms
    by (force simp: room_capped_def RELAY_RATE_LIMIT_BYTES_PER_SEC_def r1_def a_def)
  moreover have "(t0 + d - a) div 1000 \<le> (d + 1000) div 1000"
    by (intro zdiv_mono1) (auto simp: a_def)
  moreover have "(d + 1000) div 1000 = d div 1000 + 1" by simp
  ultimately show ?thesis using assms(1) by (simp add: room_capped_def)
qed

text \<open>The messages of one connection that pass the throttle before it closes, by arrival time.\<close>

fun throttle_run :: "int list \<Rightarrow> session \<Rightarrow> nat" where
  "throttle_run [] se = 0"
| "throttle_run (t # ts) se =
     (case throttle t se of (True, se1) \<Rightarrow> Suc (throttle_run ts se1) | (False, _) \<Rightarrow> 0)"

lemma throttle_run_bound:
  assumes "sorted ts" and "\<forall>t \<in> set ts. window_start se \<le> t \<and> t \<le> z" and "window_start se \<le> z"
    and "msg_count se \<le> 60"
  shows "int (throttle_run ts se) + int (msg_count se) \<le> 60 * ((z - window_start se) div 10000 + 1)"
  using assms
proof (induction ts arbitrary: se)
  case Nil
  have "0 \<le> (z - window_start se) div 10000" using Nil.prems(3) by (simp add: pos_imp_zdiv_nonneg_iff)
  then show ?case using Nil.prems(4) by simp
next
  case (Cons t ts)
  have t: "window_start se \<le> t" "t \<le> z" and later: "\<forall>u \<in> set ts. t \<le> u \<and> u \<le> z" using Cons.prems by auto
  have pos: "0 \<le> (z - window_start se) div 10000" using Cons.prems(3) by (simp add: pos_imp_zdiv_nonneg_iff)
  show ?case
  proof (cases "10000 \<le> t - window_start se")
    case True
    define se1 where "se1 = se\<lparr>msg_count := 1, window_start := t\<rparr>"
    have e: "throttle t se = (True, se1)"
      using True by (simp add: throttle_def WS_MSG_RATE_WINDOW_MS_def WS_MSG_RATE_LIMIT_def se1_def)
    have "int (throttle_run ts se1) + int (msg_count se1) \<le> 60 * ((z - window_start se1) div 10000 + 1)"
      by (rule Cons.IH) (use Cons.prems(1) later t in \<open>auto simp: se1_def\<close>)
    moreover have "(z - t + 10000) div 10000 \<le> (z - window_start se) div 10000"
      using True by (intro zdiv_mono1) auto
    then have "(z - t) div 10000 + 1 \<le> (z - window_start se) div 10000" by simp
    ultimately show ?thesis using e Cons.prems(4) by (simp add: se1_def)
  next
    case False
    define se1 where "se1 = se\<lparr>msg_count := msg_count se + 1\<rparr>"
    have e: "throttle t se = (msg_count se + 1 \<le> 60, se1)"
      using False by (simp add: throttle_def WS_MSG_RATE_WINDOW_MS_def WS_MSG_RATE_LIMIT_def se1_def Let_def)
    show ?thesis
    proof (cases "msg_count se + 1 \<le> 60")
      case True
      have "int (throttle_run ts se1) + int (msg_count se1) \<le> 60 * ((z - window_start se1) div 10000 + 1)"
        by (rule Cons.IH) (use Cons.prems later t True in \<open>auto simp: se1_def\<close>)
      then show ?thesis using e True by (simp add: se1_def)
    next
      case False
      then show ?thesis using e pos Cons.prems(4) by simp
    qed
  qed
qed

text \<open>
  Over its whole life a connection gets at most sixty text messages handled per
  ten-second window, at most 129,660 in the six hours it may stay.
\<close>

theorem messages_per_connection_bounded:
  assumes "sorted ts" and "\<forall>t \<in> set ts. now \<le> t \<and> t \<le> now + d" and "0 \<le> d"
  shows "int (throttle_run ts (new_session pid role slug now)) \<le> 60 * (d div 10000 + 1) \<and>
    (d = MAX_CONNECTION_LIFETIME_MS \<longrightarrow> throttle_run ts (new_session pid role slug now) \<le> 129660)"
proof -
  have "int (throttle_run ts (new_session pid role slug now)) \<le> 60 * (d div 10000 + 1)"
    using throttle_run_bound [of ts "new_session pid role slug now" "now + d"] assms
    by (simp add: new_session_def)
  then show ?thesis by (auto simp: MAX_CONNECTION_LIFETIME_MS_def)
qed

subsection \<open>Every connection ends and leaves its room\<close>

text \<open>What the other connections do in the meantime keeps the rooms in a reachable state.\<close>

definition fair_script :: "(bytes \<Rightarrow> parse) \<Rightarrow> script \<Rightarrow> bool" where
  "fair_script loads scr = (\<forall>(t, env, msg) \<in> set scr. \<forall>m. serving loads m \<longrightarrow> serving loads (env m))"

lemma handle_message_session:
  assumes "handle_message loads now se msg m = (go, ds, se1, m1)"
  shows "se_id se1 = se_id se" and "se_slug se1 = se_slug se" and "deadline se1 = deadline se"
proof -
  have th: "se_id (snd (throttle now se)) = se_id se" "se_slug (snd (throttle now se)) = se_slug se"
    "deadline (snd (throttle now se)) = deadline se"
    by (simp_all add: throttle_def Let_def)
  have "se1 = se \<or> se1 = snd (throttle now se)"
  proof -
    obtain h ds0 m0 where b: "handle_binary_relay loads now (se_slug se) (se_id se) msg m = (h, ds0, m0)"
      using prod_cases3 by blast
    show ?thesis
    proof (cases "h = Not_Mine")
      case False
      then show ?thesis using assms b by (auto simp: handle_message_def split: handled.splits)
    next
      case True
      show ?thesis
      proof (cases msg)
        case (In_Text raw)
        obtain okt se2 where tt: "throttle now se = (okt, se2)" by fastforce
        show ?thesis
        proof (cases "raw_parse raw")
          case (Parsed v)
          show ?thesis
          proof (cases v)
            case (JObj d)
            obtain h1 ds1 m2 where "dispatch_text (se_slug se) (se_id se) (se_role se) d m = (h1, ds1, m2)"
              using prod_cases3 by blast
            then show ?thesis
              using assms b True In_Text tt Parsed JObj by (auto simp: handle_message_def split: if_splits)
          qed (use assms b True In_Text tt Parsed in \<open>auto simp: handle_message_def split: if_splits\<close>)
        qed (use assms b True In_Text tt in \<open>auto simp: handle_message_def split: if_splits\<close>)
      qed (use assms b True in \<open>auto simp: handle_message_def\<close>)
    qed
  qed
  then show "se_id se1 = se_id se" and "se_slug se1 = se_slug se" and "deadline se1 = deadline se"
    using th by auto
qed

lemma session_loop_ends:
  assumes "serving loads m" and "fair_script loads scr" and "now \<le> deadline se"
    and "session_loop loads now se scr m = (ds, end, m')"
  shows "serving loads m' \<and> now \<le> end \<and> end \<le> deadline se"
  using assms
proof (induction loads now se scr m arbitrary: ds rule: session_loop.induct)
  case (1 loads now se scr m)
  note IH_wait = "1.IH"(1) and IH_next = "1.IH"(2)
  let ?wait = "min (deadline se - now) RECEIVE_TIMEOUT_MS"
  show ?case
  proof (cases "deadline se - now \<le> 0")
    case True
    then show ?thesis using "1.prems" by (subst (asm) session_loop.simps) (auto simp: Let_def)
  next
    case alive: False
    show ?thesis
    proof (cases scr)
      case Nil
      then show ?thesis using "1.prems" alive by (subst (asm) session_loop.simps) (auto simp: Let_def)
    next
      case (Cons x rest)
      obtain t env msg where x: "x = (t, env, msg)" by (cases x) auto
      show ?thesis
      proof (cases "now + ?wait < t")
        case True
        have pos: "0 < ?wait" using alive by (simp add: RECEIVE_TIMEOUT_MS_def)
        have "session_loop loads (now + ?wait) se scr m = (ds, end, m')"
          using "1.prems"(4) alive Cons x True by (subst (asm) session_loop.simps) (simp add: Let_def)
        from IH_wait [OF refl alive refl Cons x [symmetric] refl True "1.prems"(1,2) _ this]
        moreover have "now + ?wait \<le> deadline se" by simp
        ultimately show ?thesis using pos by linarith
      next
        case False
        let ?now = "max now t"
        have s1: "serving loads (env m)" using "1.prems"(1,2) Cons x by (auto simp: fair_script_def)
        obtain go ds1 se1 m1 where hm: "handle_message loads ?now se msg (env m) = (go, ds1, se1, m1)"
          by (metis prod_cases4)
        have s2: "serving loads m1" using serving.message [OF s1 hm] .
        have now: "?now \<le> deadline se" using alive False by auto
        note keep = handle_message_session [OF hm]
        show ?thesis
        proof (cases go)
          case True
          obtain ds2 e m2 where rest: "session_loop loads ?now se1 rest m1 = (ds2, e, m2)"
            using prod_cases3 by blast
          have "end = e" "m' = m2"
            using "1.prems"(4) alive Cons x False hm True rest
            by (subst (asm) session_loop.simps, simp add: Let_def)+
          note same = this
          have "fair_script loads rest" using "1.prems"(2) Cons by (auto simp: fair_script_def)
          then have "serving loads m' \<and> ?now \<le> end \<and> end \<le> deadline se1"
            using IH_next [OF refl alive refl Cons x [symmetric] refl False refl hm [symmetric] _ refl refl s2] True
              now keep(3) rest same by simp
          then show ?thesis using keep(3) by auto
        next
          case False
          then have "end = ?now" "m' = m1"
            using "1.prems"(4) alive Cons x \<open>\<not> now + ?wait < t\<close> hm
            by (subst (asm) session_loop.simps, simp add: Let_def)+
          then show ?thesis using s2 now by auto
        qed
      qed
    qed
  qed
qed

lemma open_session_cases:
  assumes "open_session R C up slug req pid now s m = (res, s1, m1)"
  obtains fs where "res = Inl fs" and "m1 = m"
  | fs cslug p where "res = Inl fs" and "p_id p = pid" and "m1 = snd (register_peer now cslug p m)"
  | cslug p where "res = Inr (new_session pid (p_role p) cslug now)" and "p_id p = pid"
    and "register_peer now cslug p m = (Reg_OK, m1)"
proof -
  let ?ip = "case ws_client req of Some h \<Rightarrow> h | None \<Rightarrow> ''unknown''"
  obtain okc s2 where c: "check_ws_connection_rate R C up ?ip s = (okc, s2)" by fastforce
  show thesis
  proof (cases "multi_worker_detected m \<or> \<not> okc")
    case True
    then show thesis using assms c that(1) by (auto simp: open_session_def Let_def split: if_splits)
  next
    case False
    show thesis
    proof (cases "authenticate R C slug ?ip (ws_cookie req) (first_message req) s2")
      case (Authenticated role cslug)
      let ?p = "\<lparr>p_id = pid, p_role = role, p_relay_mode = False\<rparr>"
      obtain r m2 where reg: "register_peer now cslug ?p m = (r, m2)" by fastforce
      have m2: "m2 = snd (register_peer now cslug ?p m)" by (simp add: reg)
      have id: "p_id ?p = pid" by simp
      show thesis
      proof (cases "r = Reg_OK \<and> get_room cslug m2 \<noteq> None")
        case True
        then have "res = Inr (new_session pid (p_role ?p) cslug now)" "m1 = m2"
          using assms c False Authenticated reg by (auto simp: open_session_def Let_def)
        then show thesis using that(3) [OF _ id] reg True by blast
      next
        case no: False
        then have "(\<exists>fs. res = Inl fs) \<and> m1 = m2"
          using assms c False Authenticated reg
          by (cases r) (auto simp: open_session_def Let_def split: option.splits)
        then show thesis using that(2) [OF _ id] m2 by blast
      qed
    qed (use assms c False that(1) in \<open>auto simp: open_session_def Let_def\<close>)
  qed
qed

lemma handle_signaling_ends:
  assumes m: "serving loads m" and new: "unused_id m pid" and fair: "fair_script loads scr"
    and hs: "handle_signaling R C loads up ice slug req pid now scr s m = (ds, end, s', m')"
  shows "serving loads m'" and "now \<le> end" and "end \<le> now + MAX_CONNECTION_LIFETIME_MS"
    and "open_session R C up slug req pid now s m = (Inr se, s1, m1) \<Longrightarrow> \<not> peer_exists (se_slug se) pid m'"
    and "open_session R C up slug req pid now s m = (Inr se, s1, m1) \<Longrightarrow> peer_exists (se_slug se) q m' \<Longrightarrow>
      (q, Text_Frame (peer_left_message pid)) \<in> set ds"
proof -
  obtain res s2 m2 where op: "open_session R C up slug req pid now s m = (res, s2, m2)"
    using prod_cases3 by blast
  have life: "0 < MAX_CONNECTION_LIFETIME_MS" by (simp add: MAX_CONNECTION_LIFETIME_MS_def)
  have "serving loads m' \<and> now \<le> end \<and> end \<le> now + MAX_CONNECTION_LIFETIME_MS \<and>
    (res = Inr se \<longrightarrow> \<not> peer_exists (se_slug se) pid m' \<and>
      (peer_exists (se_slug se) q m' \<longrightarrow> (q, Text_Frame (peer_left_message pid)) \<in> set ds))"
    using op
  proof (cases rule: open_session_cases)
    case (1 fs)
    then show ?thesis using hs op m life by (auto simp: handle_signaling_def)
  next
    case (2 fs cslug p)
    have "serving loads m2" using serving.joined [OF m, of p now cslug] new 2 by simp
    then show ?thesis using hs op 2(1) life by (auto simp: handle_signaling_def)
  next
    case (3 cslug p)
    have sm: "serving loads m2" using serving.joined [OF m, of p now cslug] new 3 by simp
    define e where "e = new_session pid (p_role p) cslug now"
    have ef: "se_id e = pid" "se_slug e = cslug" "deadline e = now + MAX_CONNECTION_LIFETIME_MS"
      by (simp_all add: e_def new_session_def)
    obtain ds1 t m3 where lp: "session_loop loads now e scr m2 = (ds1, t, m3)" using prod_cases3 by blast
    have le: "serving loads m3 \<and> now \<le> t \<and> t \<le> now + MAX_CONNECTION_LIFETIME_MS"
      using session_loop_ends [OF sm fair _ lp] ef(3) life by simp
    define m4 where "m4 = remove_peer t cslug pid m3"
    have out: "ds = (pid, welcome_message pid ice) # ds1 @ broadcast_peer_left cslug pid m4" "end = t" "m' = m4"
      using hs op 3(1) lp by (auto simp: handle_signaling_def close_session_def Let_def m4_def ef simp flip: e_def)
    have s4: "serving loads m4" unfolding m4_def using serving.left le by blast
    have ok3: "manager_ok m3" and ok4: "manager_ok m4" using serving_inv le s4 by blast+
    have gone: "room_roles m4 cslug pid = None" unfolding m4_def remove_peer_spec(2) [OF ok3] by simp
    then have "\<not> peer_exists cslug pid m4" using memory.exists_members [OF ok4, of cslug pid] by simp
    moreover have "(q, Text_Frame (peer_left_message pid)) \<in> set ds" if "peer_exists cslug q m4"
    proof -
      have "q \<in> dom (room_roles m4 cslug)" using that memory.exists_members [OF ok4, of cslug q] by auto
      then have "(q, Text_Frame (peer_left_message pid)) \<in> set (broadcast_peer_left cslug pid m4)"
        using memory.broadcast_deliveries [OF ok4 gone] by auto
      then show ?thesis by (simp add: out(1))
    qed
    ultimately show ?thesis using le s4 out(2,3) 3(1) ef(2) by (auto simp flip: e_def)
  qed
  then show "serving loads m'" and "now \<le> end" and "end \<le> now + MAX_CONNECTION_LIFETIME_MS"
    and "open_session R C up slug req pid now s m = (Inr se, s1, m1) \<Longrightarrow> \<not> peer_exists (se_slug se) pid m'"
    and "open_session R C up slug req pid now s m = (Inr se, s1, m1) \<Longrightarrow> peer_exists (se_slug se) q m' \<Longrightarrow>
      (q, Text_Frame (peer_left_message pid)) \<in> set ds"
    using op by auto
qed


subsection \<open>Examples\<close>

definition sample_host :: peer where
  "sample_host = \<lparr>p_id = ''h'', p_role = ''host'', p_relay_mode = False\<rparr>"

definition sample_guest :: peer where
  "sample_guest = \<lparr>p_id = ''g'', p_role = ''guest'', p_relay_mode = False\<rparr>"

definition sample_rooms :: manager where
  "sample_rooms = snd (register_peer 60 ''5f-0a'' sample_guest
     (snd (register_peer 50 ''5f-0a'' sample_host new_manager)))"

definition sample_loads :: "bytes \<Rightarrow> parse" where
  "sample_loads bs = (if bs = [123] then Parsed (JObj [(''type'', JStr ''relay:chunk''), (''targetId'', JStr ''g'')])
     else Malformed)"

definition offer :: incoming where
  "offer = In_Text \<lparr>raw_len = 60, raw_parse = Parsed (JObj [(''type'', JStr ''offer''),
     (''targetId'', JStr ''g''), (''sdp'', JStr ''v=0''), (''evil'', JStr ''x'')])\<rparr>"

lemma sample_unused: "unused_id new_manager q = (q \<noteq> [])"
  by (simp add: unused_id_def room_roles_def get_room_def new_manager_def)

lemma sample_rooms_serving: "serving loads sample_rooms"
  unfolding sample_rooms_def
proof (rule serving.joined [OF serving.joined [OF serving.started]])
  show "unused_id new_manager (p_id sample_host)" by (simp add: sample_unused sample_host_def)
  show "unused_id (snd (register_peer 50 ''5f-0a'' sample_host new_manager)) (p_id sample_guest)"
    by (simp add: unused_id_def register_peer_def get_or_create_room_def throttled_cleanup_def
        cleanup_stale_rooms_def Let_def CLEANUP_INTERVAL_MS_def new_manager_def new_room_def MAX_ROOMS_def
        MAX_PEERS_PER_ROOM_def admit_def sample_host_def sample_guest_def room_roles_def get_room_def)
qed

lemma sample_rooms_eq:
  "sample_rooms = \<lparr>rooms = [(''5f-0a'', \<lparr>room_peers = [(''h'', sample_host), (''g'', sample_guest)],
     host_id = Some ''h'', room_created_at = 50, last_emptied_at = 50, relay_bytes = 0,
     relay_window_start = 0, relay_window_bytes = 0\<rparr>)], multi_worker_warned = False,
     multi_worker_detected = False, last_cleanup_time = 0\<rparr>"
  by (simp add: sample_rooms_def register_peer_def get_or_create_room_def throttled_cleanup_def
      Let_def CLEANUP_INTERVAL_MS_def new_manager_def new_room_def MAX_ROOMS_def
      MAX_PEERS_PER_ROOM_def admit_def sample_host_def sample_guest_def)

lemmas handler_defs = handle_message_def handle_binary_relay_def dispatch_text_def handle_relay_control_def
  handle_webrtc_signaling_def throttle_def msg_type_in_def get_true_def target_lookup_def send_to_peer_def
  peer_exists_def get_room_def set_room_def account_relay_def Let_def

lemma authentication_exact_witness:
  "authenticate ref_redis ref_crypto ''ham/olive'' ''1.2.3.4'' '''' (First_Text \<lparr>raw_len = 50,
      raw_parse = Parsed (JObj [(''type'', JStr ''auth''), (''role'', JStr ''uploader''), (''secret'', JStr ''deadbeef'')])\<rparr>)
      sample_store = Authenticated ''host'' ''5f-0a''"
proof -
  have "canonical_role (Some (JStr ''uploader'')) = Some ''host''" by code_simp
  moreover have "fetch_channel ref_redis ''ham/olive'' sample_store = Some sample_channel" by code_simp
  moreover have "session_kind sample_channel = ''file''"
    by (simp add: sample_channel_def new_channel_def default_channel_def)
  ultimately show ?thesis
    unfolding authentication_exact by (simp add: may_enter_def presents_def)
qed

lemma forwarded_messages_honest_witness:
  "handle_message sample_loads 70 (new_session ''h'' ''host'' ''5f-0a'' 50) offer sample_rooms =
     (True, [(''g'', Text_Frame (JObj [(''type'', JStr ''offer''), (''fromId'', JStr ''h''), (''sdp'', JStr ''v=0'')]))],
      (new_session ''h'' ''host'' ''5f-0a'' 50)\<lparr>msg_count := 1\<rparr>, sample_rooms) \<and>
   honest_delivery (new_session ''h'' ''host'' ''5f-0a'' 50) offer sample_rooms ''g''
     (Text_Frame (JObj [(''type'', JStr ''offer''), (''fromId'', JStr ''h''), (''sdp'', JStr ''v=0'')]))"
proof -
  have "handle_message sample_loads 70 (new_session ''h'' ''host'' ''5f-0a'' 50) offer sample_rooms =
     (True, [(''g'', Text_Frame (JObj [(''type'', JStr ''offer''), (''fromId'', JStr ''h''), (''sdp'', JStr ''v=0'')]))],
      (new_session ''h'' ''host'' ''5f-0a'' 50)\<lparr>msg_count := 1\<rparr>, sample_rooms)"
    by (simp add: handler_defs sample_rooms_eq offer_def new_session_def sample_guest_def
        relay_types_def signal_types_def signal_fields_def short_str_def nullable_str_def nullable_int_def
        relay_metadata_def WS_MSG_RATE_WINDOW_MS_def WS_MSG_RATE_LIMIT_def MAX_SIGNALING_MESSAGE_SIZE_def)
  moreover have "manager_ok sample_rooms" using serving_inv sample_rooms_serving by blast
  ultimately show ?thesis
    using forwarded_messages_honest [where loads = sample_loads and now = 70 and m = sample_rooms and msg = offer
        and se = "new_session ''h'' ''host'' ''5f-0a'' 50"]
    by simp
qed

definition chunk :: incoming where
  "chunk = In_Bytes [0, 0, 0, 1, 123, 7, 8, 9]"

lemma header_one: "unat (word_rcat [0, 0, 0, 1 :: 8 word] :: 32 word) = 1"
  by (simp add: word_rcat_def)


lemma relay_throughput_bounded_witness:
  "relay_run [(1500, 52428800), (1600, 1), (2600, 30)] (new_room 0) = 52428830 \<and>
   relay_run [(1500, 52428800), (1600, 1), (2600, 30)] (new_room 0) \<le> 52428800 * (1100 div 1000 + 2)"
proof
  show "relay_run [(1500, 52428800), (1600, 1), (2600, 30)] (new_room 0) = 52428830" by code_simp
  show "relay_run [(1500, 52428800), (1600, 1), (2600, 30)] (new_room 0) \<le> 52428800 * (1100 div 1000 + 2)"
    by (rule relay_throughput_bounded [of _ _ 1500]) (simp, simp_all add: new_room_def)
qed

lemma messages_per_connection_bounded_witness:
  "throttle_run [50, 60, 20000] (new_session ''h'' ''host'' ''5f-0a'' 50) = 3 \<and>
   int (throttle_run [50, 60, 20000] (new_session ''h'' ''host'' ''5f-0a'' 50)) \<le> 60 * (20000 div 10000 + 1)"
  using messages_per_connection_bounded [of "[50, 60, 20000]" 50 20000 "''h''" "''host''" "''5f-0a''"]
  by (simp add: throttle_def new_session_def Let_def WS_MSG_RATE_WINDOW_MS_def WS_MSG_RATE_LIMIT_def)

definition sample_request :: request where
  "sample_request = \<lparr>ws_client = Some ''1.2.3.4'', ws_cookie = '''', first_message = First_Text \<lparr>raw_len = 50,
      raw_parse = Parsed (JObj [(''type'', JStr ''auth''), (''role'', JStr ''host''), (''secret'', JStr ''deadbeef'')])\<rparr>\<rparr>"


end
