(* ===== verification/Pg_Tables.thy ===== *)
theory Pg_Tables
  imports Channel_Repository "HOL-Library.Char_ord" "HOL-Library.List_Lexorder"
begin

section \<open>The relational tables of file sharing\<close>

text \<open>
  The tables behind \<open>pg_repository.py\<close> with their columns and constraints
  (\<open>models/file_share_*.py\<close>), the rows of workspaces, memberships, accounts, saved cards and
  customers the file-sharing service reads, and the repository queries over them. A table is
  the list of its rows in insertion order; a select is a filter, an update a map. Times are
  seconds of the UTC clock, UUIDs their canonical text. \<open>pg_up\<close> tells whether the database
  answers; otherwise every statement raises \<open>SQLAlchemyError\<close>.
\<close>

type_synonym uuid = string

subsection \<open>Enumerations stored as text\<close>

datatype session_status = Created | Active | Completed | Expired | Destroyed | Reported

fun status_value :: "session_status \<Rightarrow> string" where
  "status_value Created = ''created''"
| "status_value Active = ''active''"
| "status_value Completed = ''completed''"
| "status_value Expired = ''expired''"
| "status_value Destroyed = ''destroyed''"
| "status_value Reported = ''reported''"

text \<open>\<open>FileShareSessionStatus(v)\<close>.\<close>

definition session_statuses :: "session_status list" where
  "session_statuses = [Created, Active, Completed, Expired, Destroyed, Reported]"

definition status_of :: "string \<Rightarrow> py_error + session_status" where
  "status_of v = (case find (\<lambda>st. status_value st = v) session_statuses of
       Some st \<Rightarrow> Inr st
     | None \<Rightarrow> Inl (ValueError v))"

datatype payment_status = Payment_Pending | Payment_Completed | Payment_Refunded | Payment_Failed

datatype report_status = Report_Pending | Report_Reviewed | Report_Dismissed | Report_Actioned

text \<open>What \<open>StrEnum\<close> gives its users: the text of a value denotes it and nothing else does.\<close>

locale str_enum =
  fixes val :: "'e \<Rightarrow> string" and of_val :: "string \<Rightarrow> py_error + 'e"
  assumes of_val: "of_val (val e) = Inr e"
    and val_of: "of_val v = Inr e \<Longrightarrow> val e = v"
begin

lemma val_inject: "val e = val e' \<longleftrightarrow> e = e'"
  by (metis of_val sum.inject(2))

lemma of_val_iff: "of_val v = Inr e \<longleftrightarrow> v = val e"
  using of_val val_of by blast

end

interpretation statuses: str_enum status_value status_of
proof
  fix e show "status_of (status_value e) = Inr e"
    by (cases e) (simp_all add: status_of_def session_statuses_def)
next
  fix v e assume "status_of v = Inr e"
  then show "status_value e = v"
    by (auto simp: status_of_def find_Some_iff split: option.splits)
qed

text \<open>The column is text, so a listing sorts the statuses by their text.\<close>

instantiation session_status :: linorder
begin

definition less_eq_session_status :: "session_status \<Rightarrow> session_status \<Rightarrow> bool" where
  "less_eq_session_status a b = (status_value a \<le> status_value b)"

definition less_session_status :: "session_status \<Rightarrow> session_status \<Rightarrow> bool" where
  "less_session_status a b = (status_value a < status_value b)"

instance
  by standard (auto simp: less_eq_session_status_def less_session_status_def less_le_not_le
    dest: antisym simp flip: statuses.val_inject)

end

subsection \<open>Rows\<close>

record fs_session =
  f_id :: uuid
  f_short_slug :: slug
  f_long_slug :: slug
  f_status :: session_status
  f_max_downloads :: int
  f_download_count :: int
  f_price_cents :: "int option"
  f_currency :: string
  f_title :: "string option"
  f_file_name :: "string option"
  f_file_size_bytes :: "int option"
  f_ttl_seconds :: "int option"
  f_expires_at :: "int option"
  f_activated_at :: "int option"
  f_completed_at :: "int option"
  f_creator_ip_hash :: "string option"
  f_user_id :: "uuid option"
  f_workspace_id :: "uuid option"
  f_share_id :: "uuid option"
  f_created_at :: int
  f_deleted_at :: "int option"

record fs_download =
  d_id :: uuid
  d_session_id :: uuid
  d_downloader_ip_hash :: "string option"
  d_slot_number :: int
  d_deleted_at :: "int option"

record fs_payment =
  y_id :: uuid
  y_session_id :: uuid
  y_status :: payment_status
  y_amount_cents :: int
  y_currency :: string
  y_platform_fee_cents :: int
  y_checkout_session_id :: "string option"
  y_payment_intent_id :: "string option"
  y_payment_method_id :: "uuid option"
  y_deleted_at :: "int option"

record fs_report =
  r_id :: uuid
  r_session_id :: uuid
  r_status :: report_status
  r_reporter_ip_hash :: "string option"
  r_admin_notes :: "string option"
  r_reviewed_at :: "int option"
  r_deleted_at :: "int option"

record workspace_row =
  w_id :: uuid
  w_currency :: string
  w_account_id :: "uuid option"
  w_blocked_at :: "int option"
  w_deleted_at :: "int option"

record membership_row =
  m_user_id :: uuid
  m_workspace_id :: uuid
  m_deleted_at :: "int option"

text \<open>\<open>acc_card_status\<close> is \<open>data["capabilities"]["card_payments"]["status"]\<close>, if it is there.\<close>

record account_row =
  acc_id :: uuid
  acc_stripe_id :: "string option"
  acc_charges_enabled :: bool
  acc_currency :: string
  acc_card_status :: "string option"
  acc_deleted_at :: "int option"

record share_row =
  h_id :: uuid
  h_name :: string
  h_workspace_id :: uuid
  h_price_amount :: int
  h_price_currency :: string

record card_row =
  k_id :: uuid
  k_customer_id :: uuid
  k_processor_id :: string
  k_deleted_at :: "int option"

record customer_row =
  u_id :: uuid
  u_stripe_customer_id :: "string option"
  u_deleted_at :: "int option"

text \<open>\<open>pg_jobs\<close> are the tasks handed to the queue, in order: actor name and session id.\<close>

record pg =
  pg_up :: bool
  pg_sessions :: "fs_session list"
  pg_downloads :: "fs_download list"
  pg_payments :: "fs_payment list"
  pg_reports :: "fs_report list"
  pg_users :: "uuid list"
  pg_workspaces :: "workspace_row list"
  pg_memberships :: "membership_row list"
  pg_accounts :: "account_row list"
  pg_shares :: "share_row list"
  pg_cards :: "card_row list"
  pg_customers :: "customer_row list"
  pg_jobs :: "(string \<times> uuid) list"

definition empty_pg :: pg where
  "empty_pg = \<lparr>pg_up = True, pg_sessions = [], pg_downloads = [], pg_payments = [],
     pg_reports = [], pg_users = [], pg_workspaces = [], pg_memberships = [], pg_accounts = [],
     pg_shares = [], pg_cards = [], pg_customers = [], pg_jobs = []\<rparr>"

subsection \<open>Selects\<close>

text \<open>
  \<open>Repository.get_one_or_none\<close>: more than one row raises \<open>MultipleResultsFound\<close>, a
  \<open>SQLAlchemyError\<close>. \<open>get_base_statement\<close> of the soft-delete mixin keeps the rows whose
  \<open>deleted_at\<close> is null.
\<close>

definition run_select :: "pg \<Rightarrow> 'a list \<Rightarrow> py_error + 'a list" where
  "run_select pg rows = (if pg_up pg then Inr rows else Inl SQLAlchemyError)"

fun at_most_one :: "'a list \<Rightarrow> py_error + 'a option" where
  "at_most_one [] = Inr None"
| "at_most_one [x] = Inr (Some x)"
| "at_most_one (x # y # xs) = Inl SQLAlchemyError"

definition get_one_or_none :: "pg \<Rightarrow> 'a list \<Rightarrow> py_error + 'a option" where
  "get_one_or_none pg rows = bind_sum (run_select pg rows) at_most_one"

definition live_sessions :: "pg \<Rightarrow> fs_session list" where
  "live_sessions pg = filter (\<lambda>x. f_deleted_at x = None) (pg_sessions pg)"

definition session_by_id :: "uuid \<Rightarrow> pg \<Rightarrow> py_error + fs_session option" where
  "session_by_id i pg = get_one_or_none pg (filter (\<lambda>x. f_id x = i) (live_sessions pg))"

definition get_by_short_slug :: "slug \<Rightarrow> pg \<Rightarrow> py_error + fs_session option" where
  "get_by_short_slug slug pg =
     get_one_or_none pg (filter (\<lambda>x. f_short_slug x = slug) (live_sessions pg))"

definition get_by_long_slug :: "slug \<Rightarrow> pg \<Rightarrow> py_error + fs_session option" where
  "get_by_long_slug slug pg =
     get_one_or_none pg (filter (\<lambda>x. f_long_slug x = slug) (live_sessions pg))"

definition get_by_slug :: "slug \<Rightarrow> pg \<Rightarrow> py_error + fs_session option" where
  "get_by_slug slug pg =
     get_one_or_none pg (filter (\<lambda>x. f_short_slug x = slug \<or> f_long_slug x = slug) (live_sessions pg))"

definition get_total_count :: "pg \<Rightarrow> py_error + int" where
  "get_total_count pg = bind_sum (run_select pg (live_sessions pg)) (\<lambda>xs. Inr (int (length xs)))"

definition get_count_by_workspace :: "uuid \<Rightarrow> pg \<Rightarrow> py_error + int" where
  "get_count_by_workspace w pg =
     bind_sum (run_select pg (filter (\<lambda>x. f_workspace_id x = Some w) (live_sessions pg)))
       (\<lambda>xs. Inr (int (length xs)))"

definition downloads_by_session_id :: "uuid \<Rightarrow> pg \<Rightarrow> py_error + fs_download list" where
  "downloads_by_session_id i pg =
     run_select pg (filter (\<lambda>d. d_deleted_at d = None \<and> d_session_id d = i) (pg_downloads pg))"

definition payments_by_session_id :: "uuid \<Rightarrow> pg \<Rightarrow> py_error + fs_payment list" where
  "payments_by_session_id i pg =
     run_select pg (filter (\<lambda>y. y_deleted_at y = None \<and> y_session_id y = i) (pg_payments pg))"

definition payment_by_checkout_session_id :: "string \<Rightarrow> pg \<Rightarrow> py_error + fs_payment option" where
  "payment_by_checkout_session_id cs pg =
     get_one_or_none pg (filter (\<lambda>y. y_deleted_at y = None \<and> y_checkout_session_id y = Some cs) (pg_payments pg))"

definition payment_by_payment_intent_id :: "string \<Rightarrow> pg \<Rightarrow> py_error + fs_payment option" where
  "payment_by_payment_intent_id pi pg =
     get_one_or_none pg (filter (\<lambda>y. y_deleted_at y = None \<and> y_payment_intent_id y = Some pi) (pg_payments pg))"

definition reports_by_session_id :: "uuid \<Rightarrow> pg \<Rightarrow> py_error + fs_report list" where
  "reports_by_session_id i pg =
     run_select pg (filter (\<lambda>r. r_deleted_at r = None \<and> r_session_id r = i) (pg_reports pg))"

definition report_by_id :: "uuid \<Rightarrow> pg \<Rightarrow> py_error + fs_report option" where
  "report_by_id i pg =
     get_one_or_none pg (filter (\<lambda>r. r_deleted_at r = None \<and> r_id r = i) (pg_reports pg))"

subsection \<open>Who may read what\<close>

text \<open>The subject of \<open>AuthPrincipal\<close>, with its id.\<close>

datatype subject =
    User uuid
  | Workspace uuid
  | Customer uuid
  | Member uuid
  | Anonymous

fun is_user_principal :: "subject \<Rightarrow> bool" where
  "is_user_principal (User _) = True"
| "is_user_principal _ = False"

fun is_workspace_principal :: "subject \<Rightarrow> bool" where
  "is_workspace_principal (Workspace _) = True"
| "is_workspace_principal _ = False"

fun is_anonymous_principal :: "subject \<Rightarrow> bool" where
  "is_anonymous_principal Anonymous = True"
| "is_anonymous_principal _ = False"

definition member_of :: "uuid \<Rightarrow> pg \<Rightarrow> uuid \<Rightarrow> bool" where
  "member_of u pg w = list_ex (\<lambda>m. m_user_id m = u \<and> m_workspace_id m = w \<and> m_deleted_at m = None)
     (pg_memberships pg)"

text \<open>
  \<open>FileShareSessionRepository.get_readable_statement\<close>: a null workspace is in no
  \<open>IN (SELECT ...)\<close>.
\<close>

definition readable_sessions :: "subject \<Rightarrow> pg \<Rightarrow> fs_session list" where
  "readable_sessions auth pg = (case auth of
       User u \<Rightarrow> filter (\<lambda>x. (case f_workspace_id x of Some w \<Rightarrow> member_of u pg w | None \<Rightarrow> False)
                            \<or> f_user_id x = Some u) (live_sessions pg)
     | Workspace w \<Rightarrow> filter (\<lambda>x. f_workspace_id x = Some w) (live_sessions pg)
     | _ \<Rightarrow> live_sessions pg)"

text \<open>\<open>WorkspaceRepository.get_readable_statement\<close> and \<open>get_by_id\<close>.\<close>

definition readable_workspaces :: "subject \<Rightarrow> pg \<Rightarrow> workspace_row list" where
  "readable_workspaces auth pg =
     (let open_ws = filter (\<lambda>w. w_deleted_at w = None \<and> w_blocked_at w = None) (pg_workspaces pg)
      in (case auth of
            User u \<Rightarrow> filter (\<lambda>w. member_of u pg (w_id w)) open_ws
          | Workspace i \<Rightarrow> filter (\<lambda>w. w_id w = i) open_ws
          | _ \<Rightarrow> open_ws))"

definition readable_workspace :: "subject \<Rightarrow> uuid \<Rightarrow> pg \<Rightarrow> py_error + workspace_row option" where
  "readable_workspace auth i pg =
     get_one_or_none pg (filter (\<lambda>w. w_id w = i) (readable_workspaces auth pg))"

definition workspace_by_id :: "uuid \<Rightarrow> pg \<Rightarrow> py_error + workspace_row option" where
  "workspace_by_id i pg =
     get_one_or_none pg (filter (\<lambda>w. w_id w = i \<and> w_deleted_at w = None \<and> w_blocked_at w = None)
       (pg_workspaces pg))"

text \<open>\<open>AccountRepository.get_by_workspace\<close>: a join over \<open>Workspace.account_id\<close>.\<close>

definition account_by_workspace :: "uuid \<Rightarrow> pg \<Rightarrow> py_error + account_row option" where
  "account_by_workspace i pg =
     get_one_or_none pg
       (filter (\<lambda>a. acc_deleted_at a = None \<and>
            list_ex (\<lambda>w. w_id w = i \<and> w_account_id w = Some (acc_id a)) (pg_workspaces pg))
          (pg_accounts pg))"

definition payment_method_get :: "uuid \<Rightarrow> pg \<Rightarrow> py_error + card_row option" where
  "payment_method_get i pg =
     get_one_or_none pg (filter (\<lambda>k. k_deleted_at k = None \<and> k_id k = i) (pg_cards pg))"

definition customer_by_id :: "uuid \<Rightarrow> pg \<Rightarrow> py_error + customer_row option" where
  "customer_by_id i pg =
     get_one_or_none pg (filter (\<lambda>u. u_deleted_at u = None \<and> u_id u = i) (pg_customers pg))"

end
