(* ===== verification/Pg_Listing.thy ===== *)
theory Pg_Listing
  imports Pg_Tables "HOL-Library.Sublist" "HOL-Library.Multiset"
begin

section \<open>Listing the sessions of a subject\<close>

text \<open>
  The dashboard listing: the filters of \<open>FileShareSessionRepository.apply_list_filters\<close> with
  its escaped \<open>ILIKE\<close> search, the sorting of \<open>SortableMixin.apply_sorting\<close> and
  \<open>core/ordering.py\<close>, the page cut of \<open>Repository.paginate\<close> and the response of
  \<open>core/pagination.py\<close>. SQL leaves the order of rows that compare equal open; the model
  keeps their insertion order.
\<close>

subsection \<open>The search\<close>

definition replace_char :: "char \<Rightarrow> string \<Rightarrow> string \<Rightarrow> string" where
  "replace_char c r value = concat (map (\<lambda>x. if x = c then r else [x]) value)"

definition escape_like :: "string \<Rightarrow> string" where
  "escape_like value =
     replace_char (CHR ''_'') (CHR 0x5C # ''_'')
       (replace_char (CHR ''%'') (CHR 0x5C # ''%'')
         (replace_char (CHR 0x5C) [CHR 0x5C, CHR 0x5C] value))"

text \<open>
  SQL's \<open>LIKE\<close> with escape character backslash: a percent sign stands for any text, an
  underscore for any character, an escaped character for itself.
\<close>

fun like :: "string \<Rightarrow> string \<Rightarrow> bool" where
  "like [] s = (s = [])"
| "like (p # ps) s =
     (if p = CHR ''%'' then like ps s \<or> (case s of [] \<Rightarrow> False | c # cs \<Rightarrow> like (p # ps) cs)
      else if p = CHR 0x5C then
        (case ps of [] \<Rightarrow> False
         | e # ps' \<Rightarrow> (case s of [] \<Rightarrow> False | c # cs \<Rightarrow> c = e \<and> like ps' cs))
      else (case s of [] \<Rightarrow> False | c # cs \<Rightarrow> (p = CHR ''_'' \<or> c = p) \<and> like ps cs))"

definition ilike :: "string \<Rightarrow> string \<Rightarrow> bool" where
  "ilike pattern s = like (lower pattern) (lower s)"

text \<open>A null column matches no pattern.\<close>

definition opt_ilike :: "string \<Rightarrow> string option \<Rightarrow> bool" where
  "opt_ilike pattern v = (case v of None \<Rightarrow> False | Some s \<Rightarrow> ilike pattern s)"

definition matches_query :: "string \<Rightarrow> fs_session \<Rightarrow> bool" where
  "matches_query query x =
     (let escaped = escape_like query; pattern = ''%'' @ escaped @ ''%''
      in ilike pattern (f_short_slug x) \<or> ilike pattern (f_long_slug x) \<or>
         opt_ilike pattern (f_file_name x) \<or> opt_ilike pattern (f_title x))"

definition apply_list_filters ::
  "string option \<Rightarrow> string option \<Rightarrow> uuid option \<Rightarrow> fs_session list \<Rightarrow> fs_session list" where
  "apply_list_filters status query workspace_id rows =
     (let rows1 = (if truthy status then
                     (case status_of (the status) of
                        Inr st \<Rightarrow> filter (\<lambda>x. f_status x = st) rows
                      | Inl _ \<Rightarrow> rows)
                   else rows);
          rows2 = (if truthy query then filter (matches_query (the query)) rows1 else rows1)
      in (case workspace_id of
            Some w \<Rightarrow> filter (\<lambda>x. f_workspace_id x = Some w) rows2
          | None \<Rightarrow> rows2))"

subsection \<open>Sorting\<close>

datatype sort_property = By_Created_At | By_Status | By_Download_Count

fun sort_value :: "sort_property \<Rightarrow> string" where
  "sort_value By_Created_At = ''created_at''"
| "sort_value By_Status = ''status''"
| "sort_value By_Download_Count = ''download_count''"

definition sort_property_of :: "string \<Rightarrow> py_error + sort_property" where
  "sort_property_of v = (case find (\<lambda>p. sort_value p = v) [By_Created_At, By_Status, By_Download_Count] of
       Some p \<Rightarrow> Inr p
     | None \<Rightarrow> Inl (ValueError v))"

interpretation sort_properties: str_enum sort_value sort_property_of
proof
  fix p show "sort_property_of (sort_value p) = Inr p"
    by (cases p) (simp_all add: sort_property_of_def)
next
  fix v p assume "sort_property_of v = Inr p"
  then show "sort_value p = v"
    by (auto simp: sort_property_of_def split: if_splits)
qed

text \<open>\<open>_SortingGetter.__call__\<close>: one criterion each, a leading minus sign reverses it.\<close>

definition parse_criterion :: "string \<Rightarrow> py_error + sort_property \<times> bool" where
  "parse_criterion criterion =
     (let descending = (take 1 criterion = ''-'');
          name = (if descending then drop 1 criterion else criterion)
      in (case sort_property_of name of
            Inr p \<Rightarrow> Inr (p, descending)
          | Inl _ \<Rightarrow> Inl (HTTPException 422 ''Invalid sorting criterion.'')))"

fun parse_criteria :: "string list \<Rightarrow> py_error + (sort_property \<times> bool) list" where
  "parse_criteria [] = Inr []"
| "parse_criteria (c # cs) =
     bind_sum (parse_criterion c) (\<lambda>p. bind_sum (parse_criteria cs) (\<lambda>ps. Inr (p # ps)))"

definition default_sorting :: "string list" where
  "default_sorting = [''-created_at'']"

definition sorting_getter :: "string list option \<Rightarrow> py_error + (sort_property \<times> bool) list" where
  "sorting_getter sorting = parse_criteria (case sorting of Some cs \<Rightarrow> cs | None \<Rightarrow> default_sorting)"

fun clause_less :: "sort_property \<Rightarrow> fs_session \<Rightarrow> fs_session \<Rightarrow> bool" where
  "clause_less By_Created_At x y = (f_created_at x < f_created_at y)"
| "clause_less By_Status x y = (f_status x < f_status y)"
| "clause_less By_Download_Count x y = (f_download_count x < f_download_count y)"

definition directed_less :: "sort_property \<times> bool \<Rightarrow> fs_session \<Rightarrow> fs_session \<Rightarrow> bool" where
  "directed_less c x y = (case c of (p, descending) \<Rightarrow>
     if descending then clause_less p y x else clause_less p x y)"

fun row_le :: "(sort_property \<times> bool) list \<Rightarrow> fs_session \<Rightarrow> fs_session \<Rightarrow> bool" where
  "row_le [] x y = True"
| "row_le (c # cs) x y =
     (directed_less c x y \<or> \<not> directed_less c y x \<and> row_le cs x y)"

fun insert_row :: "('a \<Rightarrow> 'a \<Rightarrow> bool) \<Rightarrow> 'a \<Rightarrow> 'a list \<Rightarrow> 'a list" where
  "insert_row le x [] = [x]"
| "insert_row le x (y # ys) = (if le x y then x # y # ys else y # insert_row le x ys)"

definition apply_sorting :: "(sort_property \<times> bool) list \<Rightarrow> fs_session list \<Rightarrow> fs_session list" where
  "apply_sorting sorting rows = foldr (insert_row (row_le sorting)) rows []"

subsection \<open>Pages\<close>

text \<open>
  \<open>Repository.paginate\<close>: the total rides on the rows of the page, so it is 0 when the page
  is empty.
\<close>

definition paginate :: "pg \<Rightarrow> nat \<Rightarrow> nat \<Rightarrow> 'a list \<Rightarrow> py_error + 'a list \<times> int" where
  "paginate pg limit page rows =
     (let offset = (page - 1) * limit;
          items = take limit (drop offset rows)
      in bind_sum (run_select pg items)
           (\<lambda>items. Inr (items, if items = [] then 0 else int (length rows))))"

definition API_PAGINATION_MAX_LIMIT :: nat where "API_PAGINATION_MAX_LIMIT = 100"

text \<open>The query parameters are refused by the framework unless they are positive.\<close>

definition parse_pagination_params :: "int \<Rightarrow> int \<Rightarrow> py_error + nat \<times> nat" where
  "parse_pagination_params page limit =
     (if page \<le> 0 \<or> limit \<le> 0 then Inl (HTTPException 422 ''Input should be greater than 0'')
      else Inr (nat page, min API_PAGINATION_MAX_LIMIT (nat limit)))"

record page_meta =
  pm_total :: int
  pm_page :: nat
  pm_per_page :: nat
  pm_pages :: int

definition from_paginated_results :: "'a list \<Rightarrow> int \<Rightarrow> nat \<Rightarrow> nat \<Rightarrow> 'a list \<times> page_meta" where
  "from_paginated_results items total_count page limit =
     (items, \<lparr>pm_total = total_count, pm_page = page, pm_per_page = limit,
        pm_pages = (if limit = 0 then 0 else (total_count + int limit - 1) div int limit)\<rparr>)"

definition list_sessions ::
  "subject \<Rightarrow> nat \<Rightarrow> nat \<Rightarrow> (sort_property \<times> bool) list \<Rightarrow> string option \<Rightarrow> string option \<Rightarrow>
     uuid option \<Rightarrow> pg \<Rightarrow> py_error + fs_session list \<times> int" where
  "list_sessions auth page limit sorting status query workspace_id pg =
     (let rows = apply_list_filters status query workspace_id (readable_sessions auth pg);
          sorted_rows = (if sorting \<noteq> [] then apply_sorting sorting rows
                         else apply_sorting [(By_Created_At, True)] rows)
      in paginate pg limit page sorted_rows)"

subsection \<open>The search finds exactly the rows that contain the text\<close>

definition escape_char :: "char \<Rightarrow> string" where
  "escape_char c = (if c \<in> {CHR 0x5C, CHR ''%'', CHR ''_''} then [CHR 0x5C, c] else [c])"

lemma replace_char_simps [simp]:
  "replace_char c r [] = []"
  "replace_char c r (x # s) = (if x = c then r else [x]) @ replace_char c r s"
  "replace_char c r (s @ t) = replace_char c r s @ replace_char c r t"
  by (simp_all add: replace_char_def)

lemma escape_like_eq: "escape_like s = concat (map escape_char s)"
  by (induction s) (auto simp: escape_like_def escape_char_def)

lemma lower_char_ascii: "lower_char c = c" if "\<not> (65 \<le> (of_char c :: nat) \<and> (of_char c :: nat) \<le> 90)"
  unfolding lower_char_def using that by (rule if_not_P)

lemma lower_char_meta [simp]: "lower_char c \<in> {CHR 0x5C, CHR ''%'', CHR ''_''} \<longleftrightarrow> c \<in> {CHR 0x5C, CHR ''%'', CHR ''_''}"
proof (cases "65 \<le> (of_char c :: nat) \<and> (of_char c :: nat) \<le> 90")
  case True
  then have "97 \<le> (of_char (lower_char c) :: nat)" "(of_char (lower_char c) :: nat) \<le> 122"
    by (simp_all add: lower_char_def)
  then have "lower_char c \<notin> {CHR 0x5C, CHR ''%'', CHR ''_''}" by auto
  moreover have "c \<notin> {CHR 0x5C, CHR ''%'', CHR ''_''}" using True by auto
  ultimately show ?thesis by blast
qed (simp add: lower_char_ascii)

lemma lower_escape: "lower (escape_like s) = escape_like (lower s)"
proof -
  have "map lower_char (escape_char c) = escape_char (lower_char c)" for c
  proof (cases "c \<in> {CHR 0x5C, CHR ''%'', CHR ''_''}")
    case True
    then have "lower_char c = c" by (auto simp: lower_char_ascii)
    with True show ?thesis by (auto simp: escape_char_def lower_char_ascii)
  next
    case False
    then show ?thesis using lower_char_meta [of c] by (auto simp: escape_char_def)
  qed
  then show ?thesis by (simp add: escape_like_eq lower_def map_concat comp_def)
qed

lemma like_escaped: "like (escape_like q @ p) s \<longleftrightarrow> (\<exists>t. s = q @ t \<and> like p t)"
proof (induction q arbitrary: s)
  case Nil
  then show ?case by (simp add: escape_like_eq)
next
  case (Cons c q)
  have "like (escape_like (c # q) @ p) s \<longleftrightarrow> (\<exists>t. s = c # t \<and> like (escape_like q @ p) t)"
    by (cases s) (auto simp: escape_like_eq escape_char_def)
  then show ?case by (auto simp: Cons.IH)
qed

lemma like_percent: "like (CHR ''%'' # p) s \<longleftrightarrow> (\<exists>u t. s = u @ t \<and> like p t)"
proof (induction s)
  case (Cons c s)
  have "like (CHR ''%'' # p) (c # s) \<longleftrightarrow> like p (c # s) \<or> like (CHR ''%'' # p) s" by simp
  also have "\<dots> \<longleftrightarrow> (\<exists>u t. c # s = u @ t \<and> like p t)"
    unfolding Cons.IH Cons_eq_append_conv by auto
  finally show ?case .
qed simp

lemma ilike_contains: "ilike (''%'' @ escape_like q @ ''%'') s \<longleftrightarrow> sublist (lower q) (lower s)"
proof -
  have "lower (''%'' @ escape_like q @ ''%'') = CHR ''%'' # escape_like (lower q) @ ''%''"
    by (simp add: lower_escape [symmetric]) (simp add: lower_def lower_char_ascii)
  then show ?thesis
    by (auto simp: ilike_def like_percent like_escaped sublist_def simp del: like.simps(2))
qed

subsection \<open>The sorting sorts\<close>

lemma status_less_irrefl: "\<not> clause_less p x x"
  by (cases p) auto

lemma clause_less_trans: "clause_less p x y \<Longrightarrow> clause_less p y z \<Longrightarrow> clause_less p x z"
  by (cases p) auto

lemma clause_less_weak: "\<not> clause_less p x y \<Longrightarrow> \<not> clause_less p y z \<Longrightarrow> \<not> clause_less p x z"
  by (cases p) auto

lemma directed_less_trans: "directed_less c x y \<Longrightarrow> directed_less c y z \<Longrightarrow> directed_less c x z"
  by (cases c) (auto simp: directed_less_def split: if_splits intro: clause_less_trans)

lemma directed_less_weak: "\<not> directed_less c x y \<Longrightarrow> \<not> directed_less c y z \<Longrightarrow> \<not> directed_less c x z"
  by (cases c) (auto simp: directed_less_def split: if_splits dest: clause_less_weak)

lemma row_le_total: "row_le cs x y \<or> row_le cs y x"
  by (induction cs) auto

lemma row_le_trans: "row_le cs x y \<Longrightarrow> row_le cs y z \<Longrightarrow> row_le cs x z"
proof (induction cs)
  case (Cons c cs)
  then show ?case
    using directed_less_trans [of c x y z] directed_less_weak [of c]
    by auto
qed simp

lemma mset_insert_row [simp]: "mset (insert_row le x ys) = add_mset x (mset ys)"
  by (induction ys) auto

lemma mset_apply_sorting [simp]: "mset (apply_sorting sorting rows) = mset rows"
  unfolding apply_sorting_def by (induction rows) auto

lemma sorted_insert_row:
  assumes "sorted_wrt (row_le cs) ys"
  shows "sorted_wrt (row_le cs) (insert_row (row_le cs) x ys)"
  using assms
proof (induction ys)
  case (Cons y ys)
  have set: "set (insert_row (row_le cs) x ys) = insert x (set ys)"
    using mset_insert_row [of "row_le cs" x ys] by (metis set_mset_mset set_mset_add_mset_insert)
  show ?case
  proof (cases "row_le cs x y")
    case True
    then show ?thesis using Cons.prems row_le_trans by auto
  next
    case False
    then have "row_le cs y x" using row_le_total by blast
    then show ?thesis using Cons False by (auto simp: set)
  qed
qed simp

lemma sorted_apply_sorting: "sorted_wrt (row_le cs) (apply_sorting cs rows)"
  unfolding apply_sorting_def by (induction rows) (auto simp: sorted_insert_row)

subsection \<open>Properties\<close>

text \<open>What the filters are meant to select.\<close>

definition wanted :: "string option \<Rightarrow> string option \<Rightarrow> uuid option \<Rightarrow> fs_session \<Rightarrow> bool" where
  "wanted status query workspace_id x \<longleftrightarrow>
     (\<forall>st. status = Some (status_value st) \<longrightarrow> f_status x = st) \<and>
     (\<forall>q. query = Some q \<longrightarrow>
        list_ex (\<lambda>v. sublist (lower q) (lower v))
          ([f_short_slug x, f_long_slug x] @
           (case f_file_name x of Some v \<Rightarrow> [v] | None \<Rightarrow> []) @
           (case f_title x of Some v \<Rightarrow> [v] | None \<Rightarrow> []))) \<and>
     (\<forall>w. workspace_id = Some w \<longrightarrow> f_workspace_id x = Some w)"

lemma matches_query_iff:
  "matches_query q x \<longleftrightarrow>
     list_ex (\<lambda>v. sublist (lower q) (lower v))
          ([f_short_slug x, f_long_slug x] @
           (case f_file_name x of Some v \<Rightarrow> [v] | None \<Rightarrow> []) @
           (case f_title x of Some v \<Rightarrow> [v] | None \<Rightarrow> []))"
proof -
  have opt: "opt_ilike (''%'' @ escape_like q @ ''%'') v \<longleftrightarrow>
      list_ex (\<lambda>v. sublist (lower q) (lower v)) (case v of Some v \<Rightarrow> [v] | None \<Rightarrow> [])" for v
    unfolding opt_ilike_def by (cases v) (simp_all only: ilike_contains option.case list_ex_iff list.set empty_iff insert_iff bex_simps simp_thms)
  show ?thesis
    unfolding matches_query_def Let_def ilike_contains opt by simp
qed

lemma apply_list_filters_eq:
  "apply_list_filters status query workspace_id rows = filter (wanted status query workspace_id) rows"
proof -
  have st: "(if truthy status then
       (case status_of (the status) of Inr st \<Rightarrow> filter (\<lambda>x. f_status x = st) xs | Inl _ \<Rightarrow> xs)
     else xs) = filter (\<lambda>x. \<forall>st. status = Some (status_value st) \<longrightarrow> f_status x = st) xs" for xs
  proof (cases status)
    case (Some v)
    show ?thesis
    proof (cases "status_of v")
      case (Inl e)
      then have "v \<noteq> status_value st" for st by (metis statuses.of_val Inr_not_Inl)
      with Some Inl show ?thesis by auto
    next
      case (Inr st)
      then have v: "v = status_value st" using statuses.val_of by auto
      moreover have "v \<noteq> ''''" using v by (cases st) auto
      ultimately show ?thesis using Some Inr
        by (auto simp: truthy_def statuses.val_inject intro!: filter_cong)
    qed
  qed (simp add: truthy_def)
  have qu: "(if truthy query then filter (matches_query (the query)) xs else xs) =
     filter (\<lambda>x. \<forall>q. query = Some q \<longrightarrow> matches_query q x) xs" for xs
    by (cases query) (auto simp: truthy_def matches_query_iff lower_def intro!: filter_cong)
  show ?thesis
    unfolding apply_list_filters_def Let_def st qu
    by (cases workspace_id) (simp_all add: wanted_def [abs_def] matches_query_iff conj_commute conj_left_commute)
qed

lemma concat_pages:
  assumes "0 < limit" and "length rows \<le> n * limit"
  shows "concat (map (\<lambda>page. take limit (drop ((page - 1) * limit) rows)) [1..<Suc n]) = rows"
proof -
  have "concat (map (\<lambda>page. take limit (drop ((page - 1) * limit) rows)) [1..<Suc n]) = take (n * limit) rows"
  proof (induction n)
    case (Suc n)
    have "take (Suc n * limit) rows = take (n * limit) rows @ take limit (drop (n * limit) rows)"
      by (simp add: take_add [symmetric] add.commute)
    then show ?case using Suc.IH by simp
  qed simp
  then show ?thesis using assms(2) by simp
qed


definition sample_session :: "uuid \<Rightarrow> slug \<Rightarrow> slug \<Rightarrow> fs_session" where
  "sample_session i short long = \<lparr>f_id = i, f_short_slug = short, f_long_slug = long,
     f_status = Created, f_max_downloads = 2, f_download_count = 0, f_price_cents = None,
     f_currency = ''usd'', f_title = Some ''50% off'', f_file_name = None, f_file_size_bytes = None,
     f_ttl_seconds = Some 3600, f_expires_at = Some 4600, f_activated_at = None,
     f_completed_at = None, f_creator_ip_hash = None, f_user_id = Some ''u1'',
     f_workspace_id = None, f_share_id = None, f_created_at = 1000, f_deleted_at = None\<rparr>"

definition sample_pg :: pg where
  "sample_pg = empty_pg\<lparr>pg_sessions := [sample_session ''s1'' ''ab'' ''x/y'',
     (sample_session ''s2'' ''cd'' ''x/z'')\<lparr>f_title := None, f_created_at := 2000\<rparr>]\<rparr>"


end
