(* ===== verification/Pg_Sessions.thy ===== *)
theory Pg_Sessions
  imports Pg_Tables
begin

section \<open>The audit trail of file sharing in PostgreSQL\<close>

text \<open>
  The writes of the service into its relational tables: the dual-write helpers
  \<open>_pg_*\<close> of \<open>actions.py\<close> with their decorator \<open>_pg_dual_write\<close>, the expiry update of
  \<open>pg_repository.py\<close> and the tasks of \<open>workers.py\<close>. A write that raises leaves the tables as
  they were: the exception, re-raised, makes the request roll its transaction back, and one that
  is swallowed was the only write of its transaction. \<open>now\<close> is the clock
  and \<open>uid\<close> the fresh primary key of a new row.
\<close>

subsection \<open>Constraints of the tables\<close>

text \<open>
  Column types \<open>Integer\<close>, \<open>BigInteger\<close> and \<open>String(n)\<close>: PostgreSQL refuses a value that does
  not fit, which SQLAlchemy raises as a \<open>SQLAlchemyError\<close>.
\<close>

definition int32 :: "int \<Rightarrow> bool" where "int32 n \<longleftrightarrow> - (2 ^ 31) \<le> n \<and> n < 2 ^ 31"

definition int64 :: "int \<Rightarrow> bool" where "int64 n \<longleftrightarrow> - (2 ^ 63) \<le> n \<and> n < 2 ^ 63"

definition fits :: "('a \<Rightarrow> bool) \<Rightarrow> 'a option \<Rightarrow> bool" where
  "fits p v = (case v of None \<Rightarrow> True | Some x \<Rightarrow> p x)"

definition varchar :: "nat \<Rightarrow> string \<Rightarrow> bool" where "varchar n s \<longleftrightarrow> length s \<le> n"

definition session_columns_fit :: "fs_session \<Rightarrow> bool" where
  "session_columns_fit x \<longleftrightarrow>
     varchar 255 (f_short_slug x) \<and> varchar 255 (f_long_slug x) \<and>
     int32 (f_max_downloads x) \<and> int32 (f_download_count x) \<and>
     fits int32 (f_price_cents x) \<and> varchar 3 (f_currency x) \<and>
     fits (varchar 255) (f_title x) \<and> fits (varchar 255) (f_file_name x) \<and>
     fits int64 (f_file_size_bytes x) \<and> fits int32 (f_ttl_seconds x) \<and>
     fits (varchar 64) (f_creator_ip_hash x)"

text \<open>Unique indices (they cover soft-deleted rows too) and foreign keys.\<close>

definition session_keys_ok :: "pg \<Rightarrow> fs_session \<Rightarrow> bool" where
  "session_keys_ok pg x \<longleftrightarrow>
     list_all (\<lambda>y. f_id y \<noteq> f_id x \<and> f_short_slug y \<noteq> f_short_slug x \<and> f_long_slug y \<noteq> f_long_slug x)
       (pg_sessions pg) \<and>
     fits (\<lambda>u. u \<in> set (pg_users pg)) (f_user_id x) \<and>
     fits (\<lambda>w. w \<in> set (map w_id (pg_workspaces pg))) (f_workspace_id x) \<and>
     fits (\<lambda>h. h \<in> set (map h_id (pg_shares pg))) (f_share_id x)"

definition session_insert :: "fs_session \<Rightarrow> pg \<Rightarrow> (py_error + unit) \<times> pg" where
  "session_insert x pg =
     (if pg_up pg \<and> session_columns_fit x \<and> session_keys_ok pg x
      then (Inr (), pg\<lparr>pg_sessions := pg_sessions pg @ [x]\<rparr>)
      else (Inl SQLAlchemyError, pg))"

definition session_exists :: "uuid \<Rightarrow> pg \<Rightarrow> bool" where
  "session_exists i pg = list_ex (\<lambda>x. f_id x = i) (pg_sessions pg)"

definition download_insert :: "fs_download \<Rightarrow> pg \<Rightarrow> (py_error + unit) \<times> pg" where
  "download_insert d pg =
     (if pg_up pg \<and> fits (varchar 64) (d_downloader_ip_hash d) \<and> int32 (d_slot_number d) \<and>
         list_all (\<lambda>e. d_id e \<noteq> d_id d) (pg_downloads pg) \<and> session_exists (d_session_id d) pg
      then (Inr (), pg\<lparr>pg_downloads := pg_downloads pg @ [d]\<rparr>)
      else (Inl SQLAlchemyError, pg))"

definition report_insert :: "fs_report \<Rightarrow> pg \<Rightarrow> (py_error + unit) \<times> pg" where
  "report_insert r pg =
     (if pg_up pg \<and> fits (varchar 64) (r_reporter_ip_hash r) \<and>
         list_all (\<lambda>q. r_id q \<noteq> r_id r) (pg_reports pg) \<and> session_exists (r_session_id r) pg
      then (Inr (), pg\<lparr>pg_reports := pg_reports pg @ [r]\<rparr>)
      else (Inl SQLAlchemyError, pg))"

definition payment_insert :: "fs_payment \<Rightarrow> pg \<Rightarrow> (py_error + unit) \<times> pg" where
  "payment_insert y pg =
     (if pg_up pg \<and> int32 (y_amount_cents y) \<and> varchar 3 (y_currency y) \<and> int32 (y_platform_fee_cents y) \<and>
         fits (varchar 255) (y_checkout_session_id y) \<and> fits (varchar 255) (y_payment_intent_id y) \<and>
         list_all (\<lambda>z. y_id z \<noteq> y_id y \<and>
            (y_checkout_session_id y = None \<or> y_checkout_session_id z \<noteq> y_checkout_session_id y))
          (pg_payments pg) \<and>
         session_exists (y_session_id y) pg \<and>
         fits (\<lambda>k. k \<in> set (map k_id (pg_cards pg))) (y_payment_method_id y)
      then (Inr (), pg\<lparr>pg_payments := pg_payments pg @ [y]\<rparr>)
      else (Inl SQLAlchemyError, pg))"

definition update_session :: "uuid \<Rightarrow> (fs_session \<Rightarrow> fs_session) \<Rightarrow> pg \<Rightarrow> pg" where
  "update_session i g pg = pg\<lparr>pg_sessions := map (\<lambda>x. if f_id x = i then g x else x) (pg_sessions pg)\<rparr>"

definition dispatch :: "string \<Rightarrow> uuid \<Rightarrow> pg \<Rightarrow> pg" where
  "dispatch actor i pg = pg\<lparr>pg_jobs := pg_jobs pg @ [(actor, i)]\<rparr>"

text \<open>
  \<open>increment_download_count\<close>: \<open>download_count + 1\<close> that leaves the 32-bit range raises.
\<close>

definition increment_download_count :: "uuid \<Rightarrow> pg \<Rightarrow> (py_error + unit) \<times> pg" where
  "increment_download_count i pg =
     (if pg_up pg \<and> list_all (\<lambda>x. f_id x = i \<longrightarrow> int32 (f_download_count x + 1)) (pg_sessions pg)
      then (Inr (), update_session i (\<lambda>x. x\<lparr>f_download_count := f_download_count x + 1\<rparr>) pg)
      else (Inl SQLAlchemyError, pg))"

subsection \<open>The dual-write helpers\<close>

definition reraised_operations :: "string list" where
  "reraised_operations = [''create_payment'', ''create_session'', ''record_download'', ''create_report'']"

definition pg_dual_write ::
  "string \<Rightarrow> (pg \<Rightarrow> (py_error + unit) \<times> pg) \<Rightarrow> pg \<Rightarrow> (py_error + unit) \<times> pg" where
  "pg_dual_write operation fn pg = (case fn pg of
       (Inr _, pg') \<Rightarrow> (Inr (), pg')
     | (Inl e, _) \<Rightarrow>
         (if e = SQLAlchemyError \<and> operation \<notin> set reraised_operations then (Inr (), pg)
          else (Inl e, pg)))"

text \<open>\<open>now + timedelta(seconds=ttl) if ttl else None\<close>.\<close>

definition expiry_of :: "int \<Rightarrow> int option \<Rightarrow> int option" where
  "expiry_of now ttl = (case ttl of None \<Rightarrow> None | Some t \<Rightarrow> if t = 0 then None else Some (now + t))"

definition null_if_empty :: "string option \<Rightarrow> string option" where
  "null_if_empty v = (if truthy v then v else None)"

definition new_fs_session ::
  "int \<Rightarrow> uuid \<Rightarrow> slug \<Rightarrow> slug \<Rightarrow> int \<Rightarrow> int option \<Rightarrow> channel_args \<Rightarrow> uuid option \<Rightarrow>
     string option \<Rightarrow> fs_session" where
  "new_fs_session now uid short long maxdl ttl a workspace_id ip_hash = \<lparr>
     f_id = uid, f_short_slug = short, f_long_slug = long, f_status = Created,
     f_max_downloads = maxdl, f_download_count = 0, f_price_cents = a_price_cents a,
     f_currency = a_currency a, f_title = a_title a, f_file_name = a_file_name a,
     f_file_size_bytes = a_file_size_bytes a, f_ttl_seconds = ttl, f_expires_at = expiry_of now ttl,
     f_activated_at = None, f_completed_at = None, f_creator_ip_hash = ip_hash,
     f_user_id = null_if_empty (a_user_id a), f_workspace_id = null_if_empty workspace_id,
     f_share_id = null_if_empty (a_share_id a), f_created_at = now, f_deleted_at = None\<rparr>"

definition pg_create_session ::
  "int \<Rightarrow> uuid \<Rightarrow> slug \<Rightarrow> slug \<Rightarrow> int \<Rightarrow> int option \<Rightarrow> channel_args \<Rightarrow> uuid option \<Rightarrow>
     string option \<Rightarrow> pg \<Rightarrow> (py_error + unit) \<times> pg" where
  "pg_create_session now uid short long maxdl ttl a workspace_id ip_hash =
     pg_dual_write ''create_session'' (\<lambda>pg.
       (case session_insert (new_fs_session now uid short long maxdl ttl a workspace_id ip_hash) pg of
          (Inl e, pg1) \<Rightarrow> (Inl e, pg1)
        | (Inr _, pg1) \<Rightarrow>
            (Inr (), if truthy workspace_id then dispatch ''file_sharing.session_created'' uid pg1 else pg1)))"

text \<open>
  After the increment the row is refreshed: the two status updates look at the row as it is
  stored.
\<close>

definition activate :: "int \<Rightarrow> fs_session \<Rightarrow> fs_session" where
  "activate now x =
     (if f_status x = Created then x\<lparr>f_status := Active, f_activated_at := Some now\<rparr> else x)"

definition complete :: "int \<Rightarrow> fs_session \<Rightarrow> fs_session" where
  "complete now x =
     (if 0 < f_max_downloads x \<and> f_max_downloads x \<le> f_download_count x
      then x\<lparr>f_status := Completed, f_completed_at := Some now\<rparr> else x)"

definition pg_record_download ::
  "int \<Rightarrow> uuid \<Rightarrow> slug \<Rightarrow> int \<Rightarrow> string option \<Rightarrow> pg \<Rightarrow> (py_error + unit) \<times> pg" where
  "pg_record_download now uid slug slot_number ip_hash =
     pg_dual_write ''record_download'' (\<lambda>pg.
       (case get_by_slug slug pg of
          Inl e \<Rightarrow> (Inl e, pg)
        | Inr None \<Rightarrow> (Inr (), pg)
        | Inr (Some fs) \<Rightarrow>
            (case download_insert \<lparr>d_id = uid, d_session_id = f_id fs, d_downloader_ip_hash = ip_hash,
                    d_slot_number = slot_number, d_deleted_at = None\<rparr> pg of
               (Inl e, pg1) \<Rightarrow> (Inl e, pg1)
             | (Inr _, pg1) \<Rightarrow>
                 (case increment_download_count (f_id fs) pg1 of
                    (Inl e, pg2) \<Rightarrow> (Inl e, pg2)
                  | (Inr _, pg2) \<Rightarrow>
                      (let pg3 = update_session (f_id fs) (activate now) pg2;
                           pg4 = update_session (f_id fs) (complete now) pg3
                       in (Inr (), dispatch ''file_sharing.download_completed'' (f_id fs) pg4))))))"

definition pg_update_session_status :: "int \<Rightarrow> slug \<Rightarrow> string \<Rightarrow> pg \<Rightarrow> (py_error + unit) \<times> pg" where
  "pg_update_session_status now slug status =
     pg_dual_write ''update_status'' (\<lambda>pg.
       (case get_by_slug slug pg of
          Inl e \<Rightarrow> (Inl e, pg)
        | Inr None \<Rightarrow> (Inr (), pg)
        | Inr (Some fs) \<Rightarrow>
            (case status_of status of
               Inl e \<Rightarrow> (Inl e, pg)
             | Inr st \<Rightarrow>
                 (Inr (), update_session (f_id fs)
                    (\<lambda>x. if status \<in> set [''destroyed'', ''completed'']
                         then x\<lparr>f_status := st, f_completed_at := Some now\<rparr>
                         else x\<lparr>f_status := st\<rparr>) pg))))"

definition pg_create_report :: "uuid \<Rightarrow> slug \<Rightarrow> string option \<Rightarrow> pg \<Rightarrow> (py_error + unit) \<times> pg" where
  "pg_create_report uid slug ip_hash =
     pg_dual_write ''create_report'' (\<lambda>pg.
       (case get_by_slug slug pg of
          Inl e \<Rightarrow> (Inl e, pg)
        | Inr None \<Rightarrow> (Inr (), pg)
        | Inr (Some fs) \<Rightarrow>
            (case report_insert \<lparr>r_id = uid, r_session_id = f_id fs, r_status = Report_Pending,
                    r_reporter_ip_hash = ip_hash, r_admin_notes = None, r_reviewed_at = None,
                    r_deleted_at = None\<rparr> pg of
               (Inl e, pg1) \<Rightarrow> (Inl e, pg1)
             | (Inr _, pg1) \<Rightarrow>
                 (Inr (), update_session (f_id fs) (\<lambda>x. x\<lparr>f_status := Reported\<rparr>) pg1))))"

definition pg_create_payment ::
  "uuid \<Rightarrow> slug \<Rightarrow> int \<Rightarrow> string \<Rightarrow> int \<Rightarrow> string option \<Rightarrow> string option \<Rightarrow> uuid option \<Rightarrow>
     pg \<Rightarrow> (py_error + unit) \<times> pg" where
  "pg_create_payment uid slug amount cur fee checkout_id intent_id method =
     pg_dual_write ''create_payment'' (\<lambda>pg.
       (case get_by_short_slug slug pg of
          Inl e \<Rightarrow> (Inl e, pg)
        | Inr None \<Rightarrow> (Inr (), pg)
        | Inr (Some fs) \<Rightarrow>
            payment_insert \<lparr>y_id = uid, y_session_id = f_id fs, y_status = Payment_Pending,
              y_amount_cents = amount, y_currency = cur, y_platform_fee_cents = fee,
              y_checkout_session_id = checkout_id, y_payment_intent_id = intent_id,
              y_payment_method_id = method, y_deleted_at = None\<rparr> pg))"

definition pg_update_session_expires_at :: "int \<Rightarrow> slug \<Rightarrow> int option \<Rightarrow> pg \<Rightarrow> (py_error + unit) \<times> pg" where
  "pg_update_session_expires_at now slug ttl =
     pg_dual_write ''update_expires'' (\<lambda>pg.
       (case get_by_slug slug pg of
          Inl e \<Rightarrow> (Inl e, pg)
        | Inr None \<Rightarrow> (Inr (), pg)
        | Inr (Some fs) \<Rightarrow>
            (Inr (), update_session (f_id fs) (\<lambda>x. x\<lparr>f_expires_at := expiry_of now ttl\<rparr>) pg)))"

subsection \<open>Expiry\<close>

text \<open>The \<open>WHERE\<close> clause of \<open>expire_active_sessions\<close>; the stale cutoff is 24 hours.\<close>

definition expirable :: "int \<Rightarrow> fs_session \<Rightarrow> bool" where
  "expirable now x \<longleftrightarrow>
     f_deleted_at x = None \<and> f_status x \<in> set [Created, Active] \<and>
     (case f_expires_at x of
        Some t \<Rightarrow> t < now
      | None \<Rightarrow> f_status x = Created \<and> f_created_at x < now - 24 * 3600)"

definition expire_active_sessions :: "int \<Rightarrow> pg \<Rightarrow> (py_error + uuid list) \<times> pg" where
  "expire_active_sessions now pg =
     (if pg_up pg then
        (Inr (map f_id (filter (expirable now) (pg_sessions pg))),
         pg\<lparr>pg_sessions := map (\<lambda>x. if expirable now x
              then x\<lparr>f_status := Expired, f_completed_at := Some now\<rparr> else x) (pg_sessions pg)\<rparr>)
      else (Inl SQLAlchemyError, pg))"

subsection \<open>Background tasks\<close>

text \<open>\<open>file_sharing.check_expired_sessions\<close>: the cron task.\<close>

definition check_expired_sessions :: "int \<Rightarrow> pg \<Rightarrow> (py_error + unit) \<times> pg" where
  "check_expired_sessions now pg =
     (case expire_active_sessions now pg of
        (Inl e, pg1) \<Rightarrow> (Inl e, pg1)
      | (Inr expired_ids, pg1) \<Rightarrow>
          (Inr (), foldl (\<lambda>p i. dispatch ''file_sharing.session_expired'' i p) pg1 expired_ids))"

text \<open>
  What the other tasks send out: a webhook to the workspace of the session and an in-app
  notification with the name of the file to its owner.
\<close>

datatype message =
    Webhook_Message uuid string fs_session
  | Notification_Message uuid string string

definition send_webhook :: "uuid \<Rightarrow> string \<Rightarrow> pg \<Rightarrow> py_error + message list" where
  "send_webhook i event pg = bind_sum (session_by_id i pg) (\<lambda>r. case r of
       None \<Rightarrow> Inr []
     | Some fs \<Rightarrow> (case f_workspace_id fs of
           None \<Rightarrow> Inr []
         | Some w \<Rightarrow> bind_sum (workspace_by_id w pg) (\<lambda>ws. case ws of
               None \<Rightarrow> Inr []
             | Some workspace \<Rightarrow> Inr [Webhook_Message (w_id workspace) event fs])))"

text \<open>\<open>fs_session.file_name or fs_session.title or "Untitled file"\<close>.\<close>

definition shown_name :: "fs_session \<Rightarrow> string" where
  "shown_name fs = (if truthy (f_file_name fs) then the (f_file_name fs)
     else str_or (f_title fs) ''Untitled file'')"

definition send_notification :: "uuid \<Rightarrow> string \<Rightarrow> pg \<Rightarrow> py_error + message list" where
  "send_notification i notification_type pg = bind_sum (session_by_id i pg) (\<lambda>r. case r of
       None \<Rightarrow> Inr []
     | Some fs \<Rightarrow> (case f_user_id fs of
           None \<Rightarrow> Inr []
         | Some u \<Rightarrow> Inr [Notification_Message u notification_type (shown_name fs)]))"

definition session_created_task :: "uuid \<Rightarrow> pg \<Rightarrow> py_error + message list" where
  "session_created_task i pg = send_webhook i ''file_sharing_session.created'' pg"

definition download_completed_task :: "uuid \<Rightarrow> pg \<Rightarrow> py_error + message list" where
  "download_completed_task i pg =
     bind_sum (send_webhook i ''file_sharing_session.download_completed'' pg) (\<lambda>w.
     bind_sum (send_notification i ''FileShareDownloadCompletedNotification'' pg) (\<lambda>n. Inr (w @ n)))"

definition session_expired_task :: "uuid \<Rightarrow> pg \<Rightarrow> py_error + message list" where
  "session_expired_task i pg =
     bind_sum (send_webhook i ''file_sharing_session.expired'' pg) (\<lambda>w.
     bind_sum (send_notification i ''FileShareSessionExpiredNotification'' pg) (\<lambda>n. Inr (w @ n)))"

subsection \<open>Session detail and reports\<close>

text \<open>The PostgreSQL-backed functions of \<open>actions.py\<close>.\<close>

definition get_session_detail :: "subject \<Rightarrow> uuid \<Rightarrow> pg \<Rightarrow> py_error + fs_session option" where
  "get_session_detail auth i pg =
     get_one_or_none pg (filter (\<lambda>x. f_id x = i) (readable_sessions auth pg))"

definition get_session_detail_with_relations ::
  "subject \<Rightarrow> uuid \<Rightarrow> pg \<Rightarrow>
     py_error + (fs_session \<times> fs_payment list \<times> fs_download list \<times> fs_report list) option" where
  "get_session_detail_with_relations auth i pg =
     bind_sum (get_session_detail auth i pg) (\<lambda>r. case r of
         None \<Rightarrow> Inr None
       | Some fs \<Rightarrow>
           bind_sum (payments_by_session_id i pg) (\<lambda>payments.
           bind_sum (downloads_by_session_id i pg) (\<lambda>downloads.
           bind_sum (reports_by_session_id i pg) (\<lambda>reports.
             Inr (Some (fs, payments, downloads, reports))))))"

definition get_session_reports :: "subject \<Rightarrow> uuid \<Rightarrow> pg \<Rightarrow> py_error + fs_report list option" where
  "get_session_reports auth i pg =
     bind_sum (get_session_detail auth i pg) (\<lambda>r. case r of
         None \<Rightarrow> Inr None
       | Some fs \<Rightarrow> bind_sum (reports_by_session_id i pg) (\<lambda>reports. Inr (Some reports)))"

definition review :: "int \<Rightarrow> report_status \<Rightarrow> string option \<Rightarrow> fs_report \<Rightarrow> fs_report" where
  "review now st notes r =
     (let r1 = r\<lparr>r_status := st, r_reviewed_at := Some now\<rparr>
      in case notes of None \<Rightarrow> r1 | Some n \<Rightarrow> r1\<lparr>r_admin_notes := Some n\<rparr>)"

definition update_session_report ::
  "int \<Rightarrow> subject \<Rightarrow> uuid \<Rightarrow> report_status \<Rightarrow> string option \<Rightarrow> pg \<Rightarrow>
     (py_error + fs_report option) \<times> pg" where
  "update_session_report now auth report_id st notes pg =
     (case report_by_id report_id pg of
        Inl e \<Rightarrow> (Inl e, pg)
      | Inr None \<Rightarrow> (Inr None, pg)
      | Inr (Some report) \<Rightarrow>
          (case get_one_or_none pg
                  (filter (\<lambda>x. f_id x = r_session_id report) (readable_sessions auth pg)) of
             Inl e \<Rightarrow> (Inl e, pg)
           | Inr None \<Rightarrow> (Inr None, pg)
           | Inr (Some fs) \<Rightarrow>
               (let pg1 = pg\<lparr>pg_reports :=
                      map (\<lambda>r. if r_id r = report_id then review now st notes r else r) (pg_reports pg)\<rparr>;
                    pg2 = (if st = Report_Actioned \<and> f_status fs \<noteq> Destroyed
                           then update_session (f_id fs)
                                  (\<lambda>x. x\<lparr>f_status := Destroyed, f_completed_at := Some now\<rparr>) pg1
                           else pg1)
                in (Inr (Some (review now st notes report)), pg2))))"

subsection \<open>Runs\<close>

datatype pg_op =
    Insert_Session int uuid slug slug int "int option" channel_args "uuid option" "string option"
  | Record_Download int uuid slug int "string option"
  | Mark_Destroyed int slug
  | Insert_Report uuid slug "string option"
  | Insert_Payment uuid slug int string int "string option" "string option" "uuid option"
  | Extend_Expiry int slug "int option"
  | Review_Report int subject uuid report_status "string option"
  | Expire int

text \<open>
  The status update is only ever asked for \<open>destroyed\<close>.
\<close>

fun pg_step :: "pg_op \<Rightarrow> pg \<Rightarrow> pg" where
  "pg_step (Insert_Session now uid short long maxdl ttl a w ip) pg =
     snd (pg_create_session now uid short long maxdl ttl a w ip pg)"
| "pg_step (Record_Download now uid slug slot ip) pg = snd (pg_record_download now uid slug slot ip pg)"
| "pg_step (Mark_Destroyed now slug) pg = snd (pg_update_session_status now slug ''destroyed'' pg)"
| "pg_step (Insert_Report uid slug ip) pg = snd (pg_create_report uid slug ip pg)"
| "pg_step (Insert_Payment uid slug amount cur fee cs pi k) pg =
     snd (pg_create_payment uid slug amount cur fee cs pi k pg)"
| "pg_step (Extend_Expiry now slug ttl) pg = snd (pg_update_session_expires_at now slug ttl pg)"
| "pg_step (Review_Report now auth i st notes) pg = snd (update_session_report now auth i st notes pg)"
| "pg_step (Expire now) pg = snd (check_expired_sessions now pg)"

text \<open>
  The rest of the server: it changes users, workspaces, cards and the like, the database goes up
  and down.
\<close>

definition same_ledger :: "pg \<Rightarrow> pg \<Rightarrow> bool" where
  "same_ledger pg pg' \<longleftrightarrow> pg_sessions pg' = pg_sessions pg \<and> pg_downloads pg' = pg_downloads pg \<and>
     pg_jobs pg' = pg_jobs pg"

inductive pg_reach :: "pg \<Rightarrow> bool" where
  start: "pg_sessions pg = [] \<Longrightarrow> pg_downloads pg = [] \<Longrightarrow> pg_jobs pg = [] \<Longrightarrow> pg_reach pg"
| step: "pg_reach pg \<Longrightarrow> pg_reach (pg_step op pg)"
| others: "pg_reach pg \<Longrightarrow> same_ledger pg pg' \<Longrightarrow> pg_reach pg'"

subsection \<open>Effects of the operations on the ledger\<close>

lemma get_one_or_none_Some:
  assumes "get_one_or_none pg (filter P xs) = Inr (Some x)"
  shows "pg_up pg" and "x \<in> set xs" and "P x" and "filter P xs = [x]"
proof -
  show up: "pg_up pg"
    using assms by (cases "pg_up pg") (simp_all add: get_one_or_none_def run_select_def)
  show eq: "filter P xs = [x]"
    using assms up
    by (cases "filter P xs" rule: at_most_one.cases) (simp_all add: get_one_or_none_def run_select_def)
  then have "x \<in> set (filter P xs)" by simp
  then show "x \<in> set xs" "P x" by simp_all
qed

lemma get_by_slug_Some:
  assumes "get_by_slug slug pg = Inr (Some fs)"
  shows "fs \<in> set (pg_sessions pg)" and "f_deleted_at fs = None"
    and "f_short_slug fs = slug \<or> f_long_slug fs = slug"
  using get_one_or_none_Some [OF assms [unfolded get_by_slug_def]]
  by (auto simp: live_sessions_def)

lemma update_session_simps [simp]:
  "pg_sessions (update_session i g pg) = map (\<lambda>x. if f_id x = i then g x else x) (pg_sessions pg)"
  "pg_downloads (update_session i g pg) = pg_downloads pg"
  "pg_jobs (update_session i g pg) = pg_jobs pg"
  "pg_sessions (dispatch a i pg) = pg_sessions pg"
  "pg_downloads (dispatch a i pg) = pg_downloads pg"
  "pg_jobs (dispatch a i pg) = pg_jobs pg @ [(a, i)]"
  by (simp_all add: update_session_def dispatch_def)

text \<open>What one operation may do to sessions, downloads and jobs.\<close>

datatype ledger_change =
    Nothing
  | New_Session fs_session "(string \<times> uuid) list"
  | Changed uuid "fs_session \<Rightarrow> fs_session"
  | Downloaded uuid fs_download int
  | Swept int

fun apply_change :: "ledger_change \<Rightarrow> pg \<Rightarrow> pg \<Rightarrow> bool" where
  "apply_change Nothing pg pg' = same_ledger pg pg'"
| "apply_change (New_Session x js) pg pg' =
     (pg_sessions pg' = pg_sessions pg @ [x] \<and> pg_downloads pg' = pg_downloads pg \<and>
      pg_jobs pg' = pg_jobs pg @ js)"
| "apply_change (Changed i g) pg pg' =
     (pg_sessions pg' = map (\<lambda>x. if f_id x = i then g x else x) (pg_sessions pg) \<and>
      pg_downloads pg' = pg_downloads pg \<and> pg_jobs pg' = pg_jobs pg)"
| "apply_change (Downloaded i d now) pg pg' =
     (pg_sessions pg' = map (\<lambda>x. if f_id x = i
        then complete now (activate now (x\<lparr>f_download_count := f_download_count x + 1\<rparr>)) else x)
        (pg_sessions pg) \<and>
      pg_downloads pg' = pg_downloads pg @ [d] \<and>
      pg_jobs pg' = pg_jobs pg @ [(''file_sharing.download_completed'', i)])"
| "apply_change (Swept now) pg pg' =
     (pg_sessions pg' = map (\<lambda>x. if expirable now x
        then x\<lparr>f_status := Expired, f_completed_at := Some now\<rparr> else x) (pg_sessions pg) \<and>
      pg_downloads pg' = pg_downloads pg \<and>
      pg_jobs pg' = pg_jobs pg @ map (Pair ''file_sharing.session_expired'')
        (map f_id (filter (expirable now) (pg_sessions pg))))"

fun good_change :: "pg \<Rightarrow> ledger_change \<Rightarrow> bool" where
  "good_change pg Nothing = True"
| "good_change pg (New_Session x js) =
     (session_keys_ok pg x \<and> f_status x = Created \<and> f_download_count x = 0 \<and> f_activated_at x = None \<and>
      set js \<subseteq> {(''file_sharing.session_created'', f_id x)})"
| "good_change pg (Changed i g) =
     (\<forall>x. f_id (g x) = f_id x \<and> f_short_slug (g x) = f_short_slug x \<and> f_long_slug (g x) = f_long_slug x \<and>
        f_download_count (g x) = f_download_count x \<and> f_max_downloads (g x) = f_max_downloads x \<and>
        f_activated_at (g x) = f_activated_at x \<and>
        (f_status (g x) = f_status x \<and> f_completed_at (g x) = f_completed_at x \<or>
         f_status (g x) = Reported \<or>
         f_status (g x) = Destroyed \<and> f_completed_at (g x) \<noteq> None))"
| "good_change pg (Downloaded i d now) = (d_session_id d = i \<and> session_exists i pg)"
| "good_change pg (Swept now) = True"

lemma pg_dual_write_snd: "snd (pg_dual_write op fn pg) = (case fn pg of (Inr _, pg') \<Rightarrow> pg' | (Inl e, _) \<Rightarrow> pg)"
  by (auto simp: pg_dual_write_def split: prod.splits sum.splits)

lemma same_ledger_refl [simp]: "same_ledger pg pg"
  by (simp add: same_ledger_def)

lemma change_nothing: "\<exists>ch. good_change pg ch \<and> apply_change ch pg pg"
  by (intro exI [of _ Nothing]) simp

lemma create_session_change:
  "\<exists>ch. good_change pg ch \<and>
     apply_change ch pg (snd (pg_create_session now uid short long maxdl ttl a w ip pg))"
proof -
  define x where "x = new_fs_session now uid short long maxdl ttl a w ip"
  show ?thesis
  proof (cases "pg_up pg \<and> session_columns_fit x \<and> session_keys_ok pg x")
    case True
    then show ?thesis
      by (intro exI [of _ "New_Session x (if truthy w then [(''file_sharing.session_created'', uid)] else [])"])
        (simp add: pg_create_session_def pg_dual_write_snd session_insert_def x_def [symmetric] dispatch_def,
         simp add: x_def new_fs_session_def)
  next
    case False
    then have "session_insert x pg = (Inl SQLAlchemyError, pg)" by (simp add: session_insert_def)
    then show ?thesis
      using change_nothing [of pg] by (simp add: pg_create_session_def pg_dual_write_snd x_def [symmetric])
  qed
qed

lemma record_download_change:
  "\<exists>ch. good_change pg ch \<and> apply_change ch pg (snd (pg_record_download now uid slug slot ip pg))"
proof (cases "get_by_slug slug pg")
  case (Inr r)
  show ?thesis
  proof (cases r)
    case (Some fs)
    define d where "d = \<lparr>d_id = uid, d_session_id = f_id fs, d_downloader_ip_hash = ip,
                    d_slot_number = slot, d_deleted_at = None\<rparr>"
    show ?thesis
    proof (cases "download_insert d pg")
      case (Pair r1 pg1)
      show ?thesis
      proof (cases r1)
        case (Inl e)
        then show ?thesis
          using change_nothing [of pg] Pair
          by (simp add: pg_record_download_def pg_dual_write_snd Inr Some d_def [symmetric])
      next
        case r1: (Inr u)
        then have pg1: "pg1 = pg\<lparr>pg_downloads := pg_downloads pg @ [d]\<rparr>"
          using Pair by (simp add: download_insert_def split: if_splits)
        have keep: "f_id (activate now x) = f_id x" "f_id (x\<lparr>f_download_count := n\<rparr>) = f_id x" for x n
          by (simp_all add: activate_def)
        show ?thesis
        proof (cases "increment_download_count (f_id fs) pg1")
          case inc: (Pair r2 pg2)
          show ?thesis
          proof (cases r2)
            case (Inl e)
            then show ?thesis
              using change_nothing [of pg] Pair r1 inc
              by (simp add: pg_record_download_def pg_dual_write_snd Inr Some d_def [symmetric])
          next
            case r2: (Inr u)
            then have pg2: "pg2 = update_session (f_id fs) (\<lambda>x. x\<lparr>f_download_count := f_download_count x + 1\<rparr>) pg1"
              using inc by (simp add: increment_download_count_def split: if_splits)
            have "apply_change (Downloaded (f_id fs) d now) pg (snd (pg_record_download now uid slug slot ip pg))"
              using Pair r1 inc r2 pg1 pg2
              by (simp add: pg_record_download_def pg_dual_write_snd Inr Some d_def [symmetric] Let_def keep)
            moreover have "good_change pg (Downloaded (f_id fs) d now)"
              using Pair r1 by (simp add: d_def download_insert_def split: if_splits)
            ultimately show ?thesis by blast
          qed
        qed
      qed
    qed
  qed (use change_nothing [of pg] in \<open>simp add: pg_record_download_def pg_dual_write_snd Inr\<close>)
qed (use change_nothing [of pg] in \<open>simp add: pg_record_download_def pg_dual_write_snd\<close>)

lemma by_slug_change:
  assumes "good_change pg (Changed i g)"
  shows "\<exists>ch. good_change pg ch \<and> apply_change ch pg (update_session i g pg)"
  using assms by (intro exI [of _ "Changed i g"]) simp

lemma sweep_jobs: "foldl (\<lambda>p i. dispatch a i p) pg is = pg\<lparr>pg_jobs := pg_jobs pg @ map (Pair a) is\<rparr>"
  by (induction "is" arbitrary: pg) (auto simp: dispatch_def)

lemma expire_change:
  "\<exists>ch. good_change pg ch \<and> apply_change ch pg (snd (check_expired_sessions now pg))"
proof (cases "pg_up pg")
  case True
  then show ?thesis
    by (intro exI [of _ "Swept now"])
      (simp add: check_expired_sessions_def expire_active_sessions_def sweep_jobs)
next
  case False
  then show ?thesis
    using change_nothing [of pg] by (simp add: check_expired_sessions_def expire_active_sessions_def)
qed

lemma review_change:
  "\<exists>ch. good_change pg ch \<and> apply_change ch pg (snd (update_session_report now auth i st notes pg))"
proof (cases "report_by_id i pg")
  case (Inr r)
  show ?thesis
  proof (cases r)
    case (Some report)
    show ?thesis
    proof (cases "get_one_or_none pg (filter (\<lambda>x. f_id x = r_session_id report) (readable_sessions auth pg))")
      case x: (Inr xo)
      show ?thesis
      proof (cases xo)
        case (Some fs)
        let ?g = "\<lambda>x. x\<lparr>f_status := Destroyed, f_completed_at := Some now\<rparr>"
        let ?ch = "if st = Report_Actioned \<and> f_status fs \<noteq> Destroyed then Changed (f_id fs) ?g else Nothing"
        have "good_change pg ?ch \<and> apply_change ?ch pg (snd (update_session_report now auth i st notes pg))"
          using Inr \<open>r = Some report\<close> x Some
          by (simp add: update_session_report_def Let_def same_ledger_def)
        then show ?thesis by blast
      qed (use change_nothing [of pg] Inr Some x in \<open>simp add: update_session_report_def\<close>)
    qed (use change_nothing [of pg] Inr Some in \<open>simp add: update_session_report_def\<close>)
  qed (use change_nothing [of pg] Inr in \<open>simp add: update_session_report_def\<close>)
qed (use change_nothing [of pg] in \<open>simp add: update_session_report_def\<close>)

lemma destroyed_change:
  "\<exists>ch. good_change pg ch \<and> apply_change ch pg (snd (pg_update_session_status now slug ''destroyed'' pg))"
proof (cases "get_by_slug slug pg")
  case (Inr r)
  have st: "status_of ''destroyed'' = Inr Destroyed" by (simp add: status_of_def session_statuses_def)
  show ?thesis
  proof (cases r)
    case (Some fs)
    let ?g = "\<lambda>x. x\<lparr>f_status := Destroyed, f_completed_at := Some now\<rparr>"
    have "snd (pg_update_session_status now slug ''destroyed'' pg) = update_session (f_id fs) ?g pg"
      using Inr Some st by (simp add: pg_update_session_status_def pg_dual_write_snd)
    then show ?thesis using by_slug_change [of pg "f_id fs" ?g] by simp
  qed (use change_nothing [of pg] Inr in \<open>simp add: pg_update_session_status_def pg_dual_write_snd\<close>)
qed (use change_nothing [of pg] in \<open>simp add: pg_update_session_status_def pg_dual_write_snd\<close>)

lemma extend_change:
  "\<exists>ch. good_change pg ch \<and> apply_change ch pg (snd (pg_update_session_expires_at now slug ttl pg))"
proof (cases "get_by_slug slug pg")
  case (Inr r)
  show ?thesis
  proof (cases r)
    case (Some fs)
    let ?g = "\<lambda>x. x\<lparr>f_expires_at := expiry_of now ttl\<rparr>"
    have "snd (pg_update_session_expires_at now slug ttl pg) = update_session (f_id fs) ?g pg"
      using Inr Some by (simp add: pg_update_session_expires_at_def pg_dual_write_snd)
    then show ?thesis using by_slug_change [of pg "f_id fs" ?g] by simp
  qed (use change_nothing [of pg] Inr in \<open>simp add: pg_update_session_expires_at_def pg_dual_write_snd\<close>)
qed (use change_nothing [of pg] in \<open>simp add: pg_update_session_expires_at_def pg_dual_write_snd\<close>)

lemma report_change:
  "\<exists>ch. good_change pg ch \<and> apply_change ch pg (snd (pg_create_report uid slug ip pg))"
proof (cases "get_by_slug slug pg")
  case (Inr r)
  show ?thesis
  proof (cases r)
    case (Some fs)
    let ?g = "\<lambda>x. x\<lparr>f_status := Reported\<rparr>"
    define q where "q = \<lparr>r_id = uid, r_session_id = f_id fs, r_status = Report_Pending,
      r_reporter_ip_hash = ip, r_admin_notes = None, r_reviewed_at = None, r_deleted_at = None\<rparr>"
    show ?thesis
    proof (cases "report_insert q pg")
      case (Pair r1 pg1)
      show ?thesis
      proof (cases r1)
        case (Inl e)
        then show ?thesis using change_nothing [of pg] \<open>get_by_slug slug pg = Inr r\<close> Some Pair
          by (simp add: pg_create_report_def pg_dual_write_snd q_def [symmetric])
      next
        case r1: (Inr u)
        then have pg1: "pg1 = pg\<lparr>pg_reports := pg_reports pg @ [q]\<rparr>"
          using Pair by (simp add: report_insert_def split: if_splits)
        have "apply_change (Changed (f_id fs) ?g) pg (snd (pg_create_report uid slug ip pg))"
          using Inr Some Pair r1 pg1
          by (simp add: pg_create_report_def pg_dual_write_snd q_def [symmetric])
        moreover have "good_change pg (Changed (f_id fs) ?g)" by simp
        ultimately show ?thesis by blast
      qed
    qed
  qed (use change_nothing [of pg] Inr in \<open>simp add: pg_create_report_def pg_dual_write_snd\<close>)
qed (use change_nothing [of pg] in \<open>simp add: pg_create_report_def pg_dual_write_snd\<close>)

lemma payment_change:
  "same_ledger pg (snd (pg_create_payment uid slug amount cur fee cs pi k pg))"
  by (auto simp: pg_create_payment_def pg_dual_write_snd payment_insert_def same_ledger_def
      split: sum.splits option.splits prod.splits if_splits)

lemma step_change: "\<exists>ch. good_change pg ch \<and> apply_change ch pg (pg_step op pg)"
proof (cases op)
  case (Insert_Payment uid slug amount cur fee cs pi k)
  then show ?thesis
    using payment_change [of pg uid slug amount cur fee cs pi k] by (intro exI [of _ Nothing]) simp
qed (simp_all only: pg_step.simps create_session_change record_download_change destroyed_change
    report_change extend_change review_change expire_change)

subsection \<open>The ledger invariant\<close>

definition downloads_of :: "uuid \<Rightarrow> pg \<Rightarrow> fs_download list" where
  "downloads_of i pg = filter (\<lambda>d. d_session_id d = i) (pg_downloads pg)"

text \<open>The life of a session: what its status says about its other columns.\<close>

definition lifecycle_ok :: "fs_session \<Rightarrow> bool" where
  "lifecycle_ok x \<longleftrightarrow>
     (f_status x = Created \<longrightarrow> f_download_count x = 0 \<and> f_activated_at x = None) \<and>
     (f_status x = Active \<longrightarrow> 0 < f_download_count x \<and> f_activated_at x \<noteq> None) \<and>
     (f_status x \<in> {Created, Active} \<and> 0 < f_max_downloads x \<longrightarrow> f_download_count x < f_max_downloads x) \<and>
     (f_status x \<in> {Completed, Expired, Destroyed} \<longrightarrow> f_completed_at x \<noteq> None)"

definition ledger_ok :: "pg \<Rightarrow> bool" where
  "ledger_ok pg \<longleftrightarrow>
     distinct (map f_id (pg_sessions pg)) \<and> distinct (map f_short_slug (pg_sessions pg)) \<and>
     distinct (map f_long_slug (pg_sessions pg)) \<and>
     (\<forall>d \<in> set (pg_downloads pg). d_session_id d \<in> f_id ` set (pg_sessions pg)) \<and>
     (\<forall>x \<in> set (pg_sessions pg). lifecycle_ok x \<and>
        f_download_count x = int (length (downloads_of (f_id x) pg)))"

definition settled_status :: "session_status \<Rightarrow> bool" where
  "settled_status st \<longleftrightarrow> st \<notin> {Created, Active}"

definition expiry_jobs :: "uuid \<Rightarrow> pg \<Rightarrow> nat" where
  "expiry_jobs i pg = length (filter (\<lambda>j. j = (''file_sharing.session_expired'', i)) (pg_jobs pg))"

definition expiries_ok :: "pg \<Rightarrow> bool" where
  "expiries_ok pg \<longleftrightarrow> (\<forall>i. expiry_jobs i pg = 0 \<or>
     expiry_jobs i pg = 1 \<and> (\<exists>x \<in> set (pg_sessions pg). f_id x = i \<and> settled_status (f_status x)))"

lemma ledger_map:
  assumes "ledger_ok pg"
    and "\<And>x. f_id (g x) = f_id x \<and> f_short_slug (g x) = f_short_slug x \<and> f_long_slug (g x) = f_long_slug x"
    and "\<And>x. x \<in> set (pg_sessions pg) \<Longrightarrow> lifecycle_ok x \<Longrightarrow> f_download_count x = int (length (downloads_of (f_id x) pg)) \<Longrightarrow>
      lifecycle_ok (g x) \<and> f_download_count (g x) = int (length (downloads_of (f_id x) pg'))"
    and "pg_sessions pg' = map g (pg_sessions pg)"
    and "\<forall>d \<in> set (pg_downloads pg'). d_session_id d \<in> f_id ` set (pg_sessions pg)"
  shows "ledger_ok pg'"
proof -
  have "f_id \<circ> g = f_id" "f_short_slug \<circ> g = f_short_slug" "f_long_slug \<circ> g = f_long_slug"
    using assms(2) by (simp_all add: fun_eq_iff)
  then show ?thesis
    using assms by (auto simp: ledger_ok_def image_image)
qed

lemma change_ledger:
  assumes "ledger_ok pg" and "good_change pg ch" and "apply_change ch pg pg'"
  shows "ledger_ok pg'"
proof (cases ch)
  case Nothing
  then show ?thesis using assms by (simp add: ledger_ok_def same_ledger_def downloads_of_def)
next
  case (New_Session x js)
  then have new: "pg_sessions pg' = pg_sessions pg @ [x]" "pg_downloads pg' = pg_downloads pg"
    and x: "session_keys_ok pg x" "f_status x = Created" "f_download_count x = 0" "f_activated_at x = None"
    using assms by simp_all
  have fresh: "f_id x \<notin> f_id ` set (pg_sessions pg)" "f_short_slug x \<notin> f_short_slug ` set (pg_sessions pg)"
    "f_long_slug x \<notin> f_long_slug ` set (pg_sessions pg)"
    using x(1) by (auto simp: session_keys_ok_def list_all_iff)
  have same: "downloads_of j pg' = downloads_of j pg" for j by (simp add: downloads_of_def new)
  have none: "downloads_of (f_id x) pg = []"
  proof -
    have "d_session_id d \<noteq> f_id x" if "d \<in> set (pg_downloads pg)" for d
      using assms(1) fresh(1) that unfolding ledger_ok_def by metis
    then show ?thesis by (simp add: downloads_of_def filter_empty_conv)
  qed
  show ?thesis
    using assms(1) fresh x(2-4)
    by (auto simp: ledger_ok_def new same none) (simp add: lifecycle_ok_def)
next
  case (Changed i g)
  have sess: "pg_sessions pg' = map (\<lambda>x. if f_id x = i then g x else x) (pg_sessions pg)"
    and dl: "pg_downloads pg' = pg_downloads pg"
    using assms(3) Changed by simp_all
  have g: "good_change pg (Changed i g)" using assms(2) Changed by simp
  show ?thesis
  proof (rule ledger_map [OF assms(1) _ _ sess])
    show "\<forall>d\<in>set (pg_downloads pg'). d_session_id d \<in> f_id ` set (pg_sessions pg)"
      using assms(1) by (simp add: dl ledger_ok_def)
  next
    fix x assume "lifecycle_ok x" "f_download_count x = int (length (downloads_of (f_id x) pg))"
    then show "lifecycle_ok (if f_id x = i then g x else x) \<and>
        f_download_count (if f_id x = i then g x else x) = int (length (downloads_of (f_id x) pg'))"
      using g [unfolded good_change.simps, rule_format, of x]
      by (cases "f_id x = i"; cases "f_status (g x)") (auto simp: downloads_of_def dl lifecycle_ok_def)
  qed (use g in auto)
next
  case (Downloaded i d now)
  let ?g = "\<lambda>x. if f_id x = i then complete now (activate now (x\<lparr>f_download_count := f_download_count x + 1\<rparr>)) else x"
  have sess: "pg_sessions pg' = map ?g (pg_sessions pg)" and dl: "pg_downloads pg' = pg_downloads pg @ [d]"
    and di: "d_session_id d = i" "session_exists i pg"
    using assms(2,3) Downloaded by simp_all
  show ?thesis
  proof (rule ledger_map [OF assms(1) _ _ sess])
    show "\<forall>d\<in>set (pg_downloads pg'). d_session_id d \<in> f_id ` set (pg_sessions pg)"
      using assms(1) di by (auto simp: dl ledger_ok_def session_exists_def list_ex_iff intro: rev_image_eqI)
  next
    fix x assume "lifecycle_ok x" "f_download_count x = int (length (downloads_of (f_id x) pg))"
    then show "lifecycle_ok (?g x) \<and> f_download_count (?g x) = int (length (downloads_of (f_id x) pg'))"
      by (auto simp: downloads_of_def dl di(1) lifecycle_ok_def complete_def activate_def)
  qed (simp add: complete_def activate_def)
next
  case (Swept now)
  let ?g = "\<lambda>x. if expirable now x then x\<lparr>f_status := Expired, f_completed_at := Some now\<rparr> else x"
  have sess: "pg_sessions pg' = map ?g (pg_sessions pg)" and dl: "pg_downloads pg' = pg_downloads pg"
    using assms(3) Swept by simp_all
  show ?thesis
  proof (rule ledger_map [OF assms(1) _ _ sess])
    show "\<forall>d\<in>set (pg_downloads pg'). d_session_id d \<in> f_id ` set (pg_sessions pg)"
      using assms(1) by (simp add: dl ledger_ok_def)
  next
    fix x assume "lifecycle_ok x" "f_download_count x = int (length (downloads_of (f_id x) pg))"
    then show "lifecycle_ok (?g x) \<and> f_download_count (?g x) = int (length (downloads_of (f_id x) pg'))"
      by (auto simp: downloads_of_def dl lifecycle_ok_def)
  qed simp
qed

text \<open>No change takes a settled session back to life, and a sweep settles the rows it names.\<close>

definition settles :: "pg \<Rightarrow> pg \<Rightarrow> bool" where
  "settles pg pg' \<longleftrightarrow> (\<forall>x \<in> set (pg_sessions pg). settled_status (f_status x) \<longrightarrow>
     (\<exists>y \<in> set (pg_sessions pg'). f_id y = f_id x \<and> settled_status (f_status y)))"

lemma settles_map:
  assumes "pg_sessions pg' = map g (pg_sessions pg)"
    and "\<And>x. f_id (g x) = f_id x" and "\<And>x. settled_status (f_status x) \<Longrightarrow> settled_status (f_status (g x))"
  shows "settles pg pg'"
  using assms by (auto simp: settles_def)

lemma change_settles:
  assumes "good_change pg ch" and "apply_change ch pg pg'"
  shows "settles pg pg'"
proof (cases ch)
  case (Changed i g)
  then have sess: "pg_sessions pg' = map (\<lambda>x. if f_id x = i then g x else x) (pg_sessions pg)"
    and g: "good_change pg (Changed i g)"
    using assms by simp_all
  show ?thesis
  proof (rule settles_map [OF sess])
    fix x :: fs_session assume "settled_status (f_status x)"
    then show "settled_status (f_status (if f_id x = i then g x else x))"
      using g [unfolded good_change.simps, rule_format, of x] by (auto simp: settled_status_def)
  qed (use g in auto)
next
  case (Downloaded i d now)
  then show ?thesis
    using assms by (intro settles_map [of _ "\<lambda>x. if f_id x = i
        then complete now (activate now (x\<lparr>f_download_count := f_download_count x + 1\<rparr>)) else x"])
      (simp_all add: settled_status_def complete_def activate_def)
next
  case (Swept now)
  then show ?thesis
    using assms by (intro settles_map [of _ "\<lambda>x. if expirable now x
        then x\<lparr>f_status := Expired, f_completed_at := Some now\<rparr> else x"])
      (simp_all add: settled_status_def)
qed (use assms in \<open>auto simp: settles_def same_ledger_def\<close>)

lemma distinct_sweep: "distinct (map f_id xs) \<Longrightarrow> distinct (map f_id (filter P xs))"
  by (induction xs) auto

lemma filter_sweep:
  "distinct is \<Longrightarrow> filter (\<lambda>j. j = (a, i)) (map (Pair a) is) = (if i \<in> set is then [(a, i)] else [])"
  by (induction "is") auto

lemma change_jobs:
  assumes "good_change pg ch" and "apply_change ch pg pg'" and "distinct (map f_id (pg_sessions pg))"
  shows "expiry_jobs i pg' = expiry_jobs i pg +
     (case ch of Swept now \<Rightarrow> if i \<in> f_id ` set (filter (expirable now) (pg_sessions pg)) then 1 else 0 | _ \<Rightarrow> 0)"
proof (cases ch)
  case (New_Session x js)
  then have "set js \<subseteq> {(''file_sharing.session_created'', f_id x)}" and jobs: "pg_jobs pg' = pg_jobs pg @ js"
    using assms by simp_all
  then have "filter (\<lambda>j. j = (''file_sharing.session_expired'', i)) js = []"
    by (auto simp: filter_empty_conv)
  then show ?thesis using New_Session by (simp add: expiry_jobs_def jobs)
next
  case (Swept now)
  then have "pg_jobs pg' = pg_jobs pg @ map (Pair ''file_sharing.session_expired'')
        (map f_id (filter (expirable now) (pg_sessions pg)))"
    using assms(2) by simp
  then show ?thesis
    using filter_sweep [OF distinct_sweep [OF assms(3)], of "''file_sharing.session_expired''" i "expirable now"] Swept
    by (simp add: expiry_jobs_def)
qed (use assms in \<open>simp_all add: expiry_jobs_def same_ledger_def\<close>)

lemma change_expiries:
  assumes led: "ledger_ok pg" and ok: "expiries_ok pg" and good: "good_change pg ch"
    and app: "apply_change ch pg pg'"
  shows "expiries_ok pg'"
  unfolding expiries_ok_def
proof
  fix i
  have jobs: "expiry_jobs i pg' = expiry_jobs i pg +
     (case ch of Swept now \<Rightarrow> if i \<in> f_id ` set (filter (expirable now) (pg_sessions pg)) then 1 else 0 | _ \<Rightarrow> 0)"
    using change_jobs [OF good app] led by (simp add: ledger_ok_def)
  show "expiry_jobs i pg' = 0 \<or> expiry_jobs i pg' = 1 \<and>
    (\<exists>x\<in>set (pg_sessions pg'). f_id x = i \<and> settled_status (f_status x))"
  proof (cases "\<exists>now. ch = Swept now \<and> i \<in> f_id ` set (filter (expirable now) (pg_sessions pg))")
    case False
    then have "expiry_jobs i pg' = expiry_jobs i pg" using jobs by (cases ch) auto
    then show ?thesis
      using ok change_settles [OF good app] unfolding expiries_ok_def settles_def by metis
  next
    case True
    then obtain now x where ch: "ch = Swept now" and x: "x \<in> set (pg_sessions pg)" "expirable now x" "f_id x = i"
      by auto
    have one: "expiry_jobs i pg' = expiry_jobs i pg + 1" using jobs ch x by auto
    have live: "\<not> settled_status (f_status x)" using x(2) by (auto simp: expirable_def settled_status_def)
    have "expiry_jobs i pg = 0"
    proof (rule ccontr)
      assume "expiry_jobs i pg \<noteq> 0"
      then obtain y where "y \<in> set (pg_sessions pg)" "f_id y = i" "settled_status (f_status y)"
        using ok [unfolded expiries_ok_def, rule_format, of i] by auto
      moreover have "inj_on f_id (set (pg_sessions pg))"
        using led by (simp add: ledger_ok_def distinct_map)
      ultimately have "y = x" using x by (auto dest: inj_onD)
      with live \<open>settled_status (f_status y)\<close> show False by simp
    qed
    moreover have "x\<lparr>f_status := Expired, f_completed_at := Some now\<rparr> \<in> set (pg_sessions pg')"
      using app ch x by auto
    ultimately show ?thesis
      using one x(3) by (auto simp: settled_status_def
        intro!: bexI [of _ "x\<lparr>f_status := Expired, f_completed_at := Some now\<rparr>"])
  qed
qed

lemma pg_reach_ok: "pg_reach pg \<Longrightarrow> ledger_ok pg \<and> expiries_ok pg"
proof (induction rule: pg_reach.induct)
  case (start pg)
  then show ?case by (simp add: ledger_ok_def expiries_ok_def expiry_jobs_def)
next
  case (step pg op)
  obtain ch where "good_change pg ch" "apply_change ch pg (pg_step op pg)" using step_change by blast
  with step.IH show ?case using change_ledger change_expiries by blast
next
  case (others pg pg')
  then have "good_change pg Nothing" "apply_change Nothing pg pg'" by simp_all
  with others.IH show ?case using change_ledger change_expiries by blast
qed

lemma fold_reach: "pg_reach pg \<Longrightarrow> pg_reach (fold pg_step ops pg)"
  by (induction ops arbitrary: pg) (auto intro: pg_reach.step)

subsection \<open>Properties\<close>


definition ledger_ops :: "pg_op list" where
  "ledger_ops = [
     Insert_Session 1000 ''s1'' ''ab'' ''x/y'' 2 (Some 3600) default_args None None,
     Record_Download 1100 ''d1'' ''ab'' 1 None,
     Record_Download 1200 ''d2'' ''x/y'' 2 None,
     Insert_Session 1300 ''s2'' ''cd'' ''x/z'' 0 (Some 60) default_args None None,
     Expire 2000, Expire 9000]"

definition ledger_state :: pg where
  "ledger_state = fold pg_step ledger_ops empty_pg"

lemma ledger_state_reach: "pg_reach ledger_state"
  unfolding ledger_state_def by (intro fold_reach pg_reach.start) (simp_all add: empty_pg_def)


lemma expiry_task_once:
  assumes "pg_reach pg"
  shows "length (filter (\<lambda>j. j = (''file_sharing.session_expired'', i)) (pg_jobs pg)) \<le> 1"
proof -
  have "expiries_ok pg" using pg_reach_ok [OF assms] by simp
  from this [unfolded expiries_ok_def expiry_jobs_def, rule_format, of i] show ?thesis by auto
qed

lemma pg_jobs_grow: "set (pg_jobs pg) \<subseteq> set (pg_jobs (fold pg_step ops pg))"
proof (induction ops arbitrary: pg)
  case (Cons op ops)
  obtain ch where "apply_change ch pg (pg_step op pg)" using step_change by blast
  then have "set (pg_jobs pg) \<subseteq> set (pg_jobs (pg_step op pg))" by (cases ch) (auto simp: same_ledger_def)
  with Cons [of "pg_step op pg"] show ?case by auto
qed simp

lemma expiry_task_settled:
  assumes "pg_reach pg" and "(''file_sharing.session_expired'', i) \<in> set (pg_jobs pg)"
  shows "\<exists>x \<in> set (pg_sessions (fold pg_step ops pg)). f_id x = i \<and> f_status x \<notin> {Created, Active}"
proof -
  have "expiry_jobs i (fold pg_step ops pg) \<noteq> 0"
    using assms(2) pg_jobs_grow by (auto simp: expiry_jobs_def filter_empty_conv)
  moreover have "expiries_ok (fold pg_step ops pg)"
    using pg_reach_ok [OF fold_reach [OF assms(1)]] by simp
  note this [unfolded expiries_ok_def, rule_format, of i]
  ultimately show ?thesis by (auto simp: settled_status_def)
qed

lemma expirable_iff:
  "expirable now x \<longleftrightarrow> f_deleted_at x = None \<and> f_status x \<in> {Created, Active} \<and>
     (\<exists>t < now. f_expires_at x = Some t \<or>
        f_expires_at x = None \<and> f_status x = Created \<and> f_created_at x = t - 24 * 3600)"
  by (cases "f_expires_at x")
    (auto simp: expirable_def intro: exI [of _ "f_created_at x + 24 * 3600"])

lemma sweep_exact:
  assumes "pg_up pg" and "check_expired_sessions now pg = (Inr (), pg')"
  shows "pg_sessions pg' = map (\<lambda>x. if expirable now x then x\<lparr>f_status := Expired, f_completed_at := Some now\<rparr> else x)
      (pg_sessions pg)"
    and "pg_up pg'"
    and "x \<in> set (pg_sessions pg) \<Longrightarrow> expirable now x \<Longrightarrow> (''file_sharing.session_expired'', f_id x) \<in> set (pg_jobs pg')"
  using assms by (auto simp: check_expired_sessions_def expire_active_sessions_def sweep_jobs)

lemma sweep_twice:
  assumes "pg_up pg" and "check_expired_sessions now pg = (Inr (), pg')"
  shows "check_expired_sessions now pg' = (Inr (), pg')"
proof -
  have no: "\<not> expirable now x" if "x \<in> set (pg_sessions pg')" for x
    using that by (auto simp: sweep_exact(1) [OF assms] expirable_def)
  have "filter (expirable now) (pg_sessions pg') = []"
    "map (\<lambda>x. if expirable now x then x\<lparr>f_status := Expired, f_completed_at := Some now\<rparr> else x) (pg_sessions pg') =
       pg_sessions pg'"
    using no by (auto simp: filter_empty_conv intro!: map_idI)
  then show ?thesis
    using sweep_exact(2) [OF assms] by (simp add: check_expired_sessions_def expire_active_sessions_def)
qed

text \<open>
  Property C16: a session expires at most once. In every reachable state the queue holds at most
  one expiry task for a session, and then the session is settled for good; a sweep sets exactly
  the sessions past their expiry (or created over a day ago, without one) to \<open>expired\<close> and
  touches no other, queues one task for each of them, and leaves nothing for a second sweep at the
  same time.
\<close>

theorem sessions_expire_once:
  assumes "pg_reach pg" and "pg_up pg"
  shows "length (filter (\<lambda>j. j = (''file_sharing.session_expired'', i)) (pg_jobs pg)) \<le> 1 \<and>
    ((''file_sharing.session_expired'', i) \<in> set (pg_jobs pg) \<longrightarrow>
      (\<exists>x \<in> set (pg_sessions (fold pg_step ops pg)). f_id x = i \<and> f_status x \<notin> {Created, Active})) \<and>
    (check_expired_sessions now pg = (Inr (), pg') \<longrightarrow>
      list_all2 (\<lambda>x y. if f_deleted_at x = None \<and> f_status x \<in> {Created, Active} \<and>
            (\<exists>t < now. f_expires_at x = Some t \<or>
               f_expires_at x = None \<and> f_status x = Created \<and> f_created_at x = t - 24 * 3600)
          then y = x\<lparr>f_status := Expired, f_completed_at := Some now\<rparr> \<and>
               (''file_sharing.session_expired'', f_id x) \<in> set (pg_jobs pg')
          else y = x) (pg_sessions pg) (pg_sessions pg') \<and>
      check_expired_sessions now pg' = (Inr (), pg'))"
proof (intro conjI impI)
  show "length (filter (\<lambda>j. j = (''file_sharing.session_expired'', i)) (pg_jobs pg)) \<le> 1"
    by (rule expiry_task_once [OF assms(1)])
next
  assume "(''file_sharing.session_expired'', i) \<in> set (pg_jobs pg)"
  then show "\<exists>x \<in> set (pg_sessions (fold pg_step ops pg)). f_id x = i \<and> f_status x \<notin> {Created, Active}"
    by (rule expiry_task_settled [OF assms(1)])
next
  assume sweep: "check_expired_sessions now pg = (Inr (), pg')"
  show "list_all2 (\<lambda>x y. if f_deleted_at x = None \<and> f_status x \<in> {Created, Active} \<and>
            (\<exists>t < now. f_expires_at x = Some t \<or>
               f_expires_at x = None \<and> f_status x = Created \<and> f_created_at x = t - 24 * 3600)
          then y = x\<lparr>f_status := Expired, f_completed_at := Some now\<rparr> \<and>
               (''file_sharing.session_expired'', f_id x) \<in> set (pg_jobs pg')
          else y = x) (pg_sessions pg) (pg_sessions pg')"
    unfolding expirable_iff [symmetric] sweep_exact(1) [OF assms(2) sweep]
    by (auto simp: list_all2_conv_all_nth sweep_exact(3) [OF assms(2) sweep])
  show "check_expired_sessions now pg' = (Inr (), pg')" by (rule sweep_twice [OF assms(2) sweep])
qed

theorem sessions_expire_once_witness:
  "length (filter (\<lambda>j. j = (''file_sharing.session_expired'', ''s2'')) (pg_jobs ledger_state)) \<le> 1 \<and>
   (''file_sharing.session_expired'', ''s2'') \<in> set (pg_jobs ledger_state) \<and>
   (''file_sharing.session_expired'', ''s1'') \<notin> set (pg_jobs ledger_state)"
proof -
  have "pg_up ledger_state" "(''file_sharing.session_expired'', ''s2'') \<in> set (pg_jobs ledger_state)"
    "(''file_sharing.session_expired'', ''s1'') \<notin> set (pg_jobs ledger_state)"
    by code_simp+
  then show ?thesis
    using sessions_expire_once [OF ledger_state_reach, of "''s2''"] by blast
qed

end
