(* ===== verification/Stripe_Connect.thy ===== *)
theory Stripe_Connect
  imports Pg_Tables
begin

section \<open>Currencies of a connected Stripe account\<close>

text \<open>
  \<open>billing/stripe_connect/capabilities.py\<close>: the currencies an account can charge in, computed
  from its stored capabilities and cached in Redis for five minutes. \<open>accept_pending\<close> is the
  setting \<open>STRIPE_ACCEPT_PENDING_CAPABILITIES\<close>. A frozen set is the sorted list of its
  elements; the cache holds them joined by commas.
\<close>

definition currencies_key :: "uuid \<Rightarrow> string" where
  "currencies_key account_id = ''stripe:account:'' @ account_id @ '':currencies:v1''"

definition CURRENCIES_TTL :: int where "CURRENCIES_TTL = 5 * 60"

definition UNIVERSAL_PRESENTMENT_CURRENCIES :: "string list" where
  "UNIVERSAL_PRESENTMENT_CURRENCIES = [''eur'', ''gbp'', ''usd'']"

definition compute_supported_currencies :: "bool \<Rightarrow> account_row \<Rightarrow> string list" where
  "compute_supported_currencies accept_pending account =
     (case acc_card_status account of
        None \<Rightarrow> []
      | Some status \<Rightarrow>
          (if status \<in> set (if accept_pending then [''active'', ''pending''] else [''active'']) then
             (if acc_currency account \<noteq> '''' then
                remdups_adj (insort (lower (acc_currency account)) UNIVERSAL_PRESENTMENT_CURRENCIES)
              else UNIVERSAL_PRESENTMENT_CURRENCIES)
           else []))"

definition get_supported_currencies ::
  "'s redis \<Rightarrow> bool \<Rightarrow> account_row \<Rightarrow> 's \<Rightarrow> string list \<times> 's" where
  "get_supported_currencies R accept_pending account s =
     (let key = currencies_key (acc_id account) in
      (case GET R key s of
         Some cached \<Rightarrow>
           ((case payload_text cached of [] \<Rightarrow> [] | c # cs \<Rightarrow> split_on (CHR '','') (c # cs)), s)
       | None \<Rightarrow>
           (let supported = compute_supported_currencies accept_pending account
            in (supported, SETEX R key CURRENCIES_TTL (Text (join '','' supported)) s))))"

definition invalidate_supported_currencies :: "'s redis \<Rightarrow> uuid \<Rightarrow> 's \<Rightarrow> 's" where
  "invalidate_supported_currencies R account_id s = DEL R (currencies_key account_id) s"

subsection \<open>The cache answers what it was given\<close>

lemma split_on_word: "c \<notin> set w \<Longrightarrow> split_on c w = [w]"
  by (induction w) auto

lemma split_join: "ws \<noteq> [] \<Longrightarrow> \<forall>w \<in> set ws. c \<notin> set w \<Longrightarrow> split_on c (join [c] ws) = ws"
  by (induction "[c]" ws rule: join.induct) (auto simp: split_on_word split_on_append)

lemma set_compute:
  "set (compute_supported_currencies accept_pending account) =
     (if acc_card_status account = Some ''active'' \<or> accept_pending \<and> acc_card_status account = Some ''pending''
      then {''eur'', ''gbp'', ''usd''} \<union>
        (if acc_currency account = '''' then {} else {lower (acc_currency account)})
      else {})"
  by (auto simp: compute_supported_currencies_def UNIVERSAL_PRESENTMENT_CURRENCIES_def set_insort_key
      split: option.splits)

lemma lower_char_comma: "lower_char c = CHR '','' \<Longrightarrow> c = CHR '',''"
proof (cases "65 \<le> (of_char c :: nat) \<and> (of_char c :: nat) \<le> 90")
  case True
  then have "97 \<le> (of_char (lower_char c) :: nat)" by (simp add: lower_char_def)
  then show "lower_char c = CHR '','' \<Longrightarrow> c = CHR '',''" by auto
qed (auto simp: lower_char_def)

context redis_server
begin

lemma GET_look: "GET R k s = cell_str (look R s k)"
  by (simp add: GET_def)

lemma currencies_cached:
  assumes "CHR '','' \<notin> set (acc_currency account)"
    and "get_supported_currencies R accept_pending account s = (cs, s')"
    and "GET R (currencies_key (acc_id account)) s = None"
    and "look R s'' (currencies_key (acc_id account)) = look R s' (currencies_key (acc_id account))"
  shows "get_supported_currencies R accept_pending account s'' = (cs, s'')"
proof -
  let ?k = "currencies_key (acc_id account)"
  let ?cs = "compute_supported_currencies accept_pending account"
  have s': "cs = ?cs" "s' = SETEX R ?k CURRENCIES_TTL (Text (join '','' ?cs)) s"
    using assms(2,3) by (auto simp: get_supported_currencies_def Let_def)
  have "cell_str (look R s'' ?k) = Some (Text (join '','' ?cs))"
    by (simp add: assms(4) s'(2) CURRENCIES_TTL_def)
  then have got: "GET R ?k s'' = Some (Text (join '','' ?cs))" by (simp add: GET_look)
  have "CHR '','' \<notin> set (lower w)" if "CHR '','' \<notin> set w" for w
    using that lower_char_comma by (metis (no_types, lifting) imageE list.set_map lower_def)
  then have words: "\<forall>w \<in> set ?cs. CHR '','' \<notin> set w"
    using assms(1) by (auto simp: set_compute split: if_splits)
  show ?thesis
  proof (cases ?cs)
    case Nil
    then show ?thesis using got s'(1) by (simp add: get_supported_currencies_def payload_text_def)
  next
    case (Cons w ws)
    then have split: "split_on (CHR '','') (join '','' ?cs) = ?cs" using split_join [of ?cs "CHR '',''"] words by simp
    have "join '','' ?cs \<noteq> []"
    proof
      assume "join '','' ?cs = []"
      with split have "?cs = [[]]" by simp
      moreover have "set ?cs \<noteq> {}" using Cons by simp
      then have "''eur'' \<in> set ?cs" unfolding set_compute by (simp split: if_splits)
      ultimately show False by simp
    qed
    then show ?thesis using got split s'(1)
      by (cases "join '','' ?cs") (simp_all add: get_supported_currencies_def payload_text_def)
  qed
qed

end

end
