(* ===== verification/Sharing_Actions.thy ===== *)
theory Sharing_Actions
  imports Channel_Lifecycle Secret_Lifecycle Pg_Listing Pg_Sessions Stripe_Connect Room_Transport Ice_Config
begin

section \<open>The file-sharing service\<close>

text \<open>
  The functions of \<open>actions.py\<close>: they check who may do what, call the stores in Redis, write the
  audit trail into PostgreSQL and talk to Stripe. A function works on the Redis store and the
  tables, \<open>'s \<times> pg\<close> (or on one of them), and answers a value or the exception it raises; what it
  had changed when it raised stays changed. The caller-supplied arguments that Python draws
  itself (UUIDs, tokens, the clock) are arguments here. The read replica is the primary: its lag is
  not modelled.
\<close>

subsection \<open>The outside\<close>

text \<open>
  What the service asks of Stripe and of \<open>structlog\<close>. A call that raises \<open>StripeError\<close> is an
  \<open>Inl\<close>. \<open>log_info\<close> is the call of the logger's \<open>info\<close> method with its keyword arguments.
\<close>

record session_request =
  q_account :: string
  q_price :: int
  q_currency :: string
  q_fee :: int
  q_product :: string
  q_success_url :: string
  q_cancel_url :: string
  q_metadata :: "(string \<times> string) list"
  q_idempotency_key :: string

record intent_request =
  i_amount :: int
  i_currency :: string
  i_customer :: string
  i_payment_method :: string
  i_account :: string
  i_fee :: int
  i_metadata :: "(string \<times> string) list"
  i_idempotency_key :: string

record service_env =
  accept_pending :: bool
  FRONTEND_BASE_URL :: string
  stripe_session :: "session_request \<Rightarrow> py_error + string \<times> string option"
  stripe_intent :: "intent_request \<Rightarrow> py_error + string \<times> string option \<times> string"
  stripe_payment_status :: "string \<Rightarrow> string \<Rightarrow> py_error + string"
  log_info :: "(string \<times> string) list \<Rightarrow> py_error + unit"

definition generate_frontend_url :: "service_env \<Rightarrow> string \<Rightarrow> string" where
  "generate_frontend_url E path = FRONTEND_BASE_URL E @ path"

text \<open>\<open>(price_cents * settings.FILE_SHARING_PLATFORM_FEE_PERCENT) // 10000\<close>.\<close>

definition platform_fee :: "settings \<Rightarrow> int \<Rightarrow> int" where
  "platform_fee cfg price = (price * PLATFORM_FEE_PERCENT cfg) div 10000"

subsection \<open>Secrets\<close>

text \<open>
  The checks on the seller of a paid item: membership, account, currency. They are the same code
  in \<open>create_secret_or_file\<close> and, up to the messages, in \<open>resolve_channel_creation_context\<close>.
\<close>

definition seller_account ::
  "'s redis \<Rightarrow> service_env \<Rightarrow> string \<Rightarrow> uuid \<Rightarrow> string \<Rightarrow> pg \<Rightarrow> 's \<Rightarrow>
     (py_error + account_row) \<times> 's" where
  "seller_account R E incomplete workspace_id cur pg s =
     (case account_by_workspace workspace_id pg of
        Inl e \<Rightarrow> (Inl e, s)
      | Inr None \<Rightarrow> (Inl (ChannelCreationError incomplete 400), s)
      | Inr (Some account) \<Rightarrow>
          (if \<not> truthy (acc_stripe_id account) \<or> \<not> acc_charges_enabled account
           then (Inl (ChannelCreationError incomplete 400), s)
           else (case get_supported_currencies R (accept_pending E) account s of (supported, s1) \<Rightarrow>
             (if lower cur \<notin> set supported
              then (Inl (ChannelCreationError ''Your Stripe account cannot accept this currency'' 400), s1)
              else (Inr account, s1)))))"

definition paid_secret_seller ::
  "'s redis \<Rightarrow> service_env \<Rightarrow> subject option \<Rightarrow> uuid option \<Rightarrow> string \<Rightarrow> pg option \<Rightarrow> 's \<Rightarrow>
     (py_error + string option) \<times> 's" where
  "paid_secret_seller R E auth workspace_id cur read_session s =
     (case auth of
        Some (User u) \<Rightarrow>
          (case workspace_id of
             None \<Rightarrow> (Inl (ChannelCreationError ''workspace_id is required for paid secrets'' 400), s)
           | Some w \<Rightarrow>
               (case read_session of
                  None \<Rightarrow> (Inl (ChannelCreationError ''Internal error: read_session required'' 400), s)
                | Some pg \<Rightarrow>
                    (case readable_workspace (User u) w pg of
                       Inl e \<Rightarrow> (Inl e, s)
                     | Inr None \<Rightarrow> (Inl (ChannelCreationError ''Not a member of this workspace'' 403), s)
                     | Inr (Some workspace) \<Rightarrow>
                         and_then (seller_account R E
                             ''Your Stripe account setup is incomplete. Please finish onboarding in your account settings to accept payments.''
                             w cur pg s)
                           (\<lambda>account s1. (Inr (acc_stripe_id account), s1)))))
      | _ \<Rightarrow> (Inl (ChannelCreationError ''Authentication required for paid secrets'' 401), s))"

definition create_secret_or_file ::
  "'s redis \<Rightarrow> service_env \<Rightarrow> item_kind \<Rightarrow> string \<Rightarrow> string \<times> string \<Rightarrow> string \<Rightarrow> int \<Rightarrow>
     uuid option \<Rightarrow> int option \<Rightarrow> string \<Rightarrow> string option \<Rightarrow> subject option \<Rightarrow> pg option \<Rightarrow> 's \<Rightarrow>
     (py_error + string) \<times> 's" where
  "create_secret_or_file R E kind item_id stamps msg expiration workspace_id price cur ttl_title auth
       read_session s =
     and_then (if price_positive price then paid_secret_seller R E auth workspace_id cur read_session s
               else (Inr None, s))
       (\<lambda>seller s1.
          (let d = \<lparr>s_message = msg, s_price_cents = price, s_currency = cur, s_title = ttl_title,
                    s_workspace_id = workspace_id, s_seller_stripe_id = seller\<rparr>;
               create_fn = (case kind of Secret_Kind \<Rightarrow> create_secret R | File_Kind \<Rightarrow> create_file R)
           in case create_fn item_id stamps expiration d s1 of (i, s2) \<Rightarrow> (Inr i, s2)))"

record secret_metadata =
  sm_title :: "string option"
  sm_payment_required :: bool
  sm_price_cents :: "int option"
  sm_currency :: string

definition peek_secret_metadata :: "'s redis \<Rightarrow> string \<Rightarrow> 's \<Rightarrow> py_error + secret_metadata option" where
  "peek_secret_metadata R secret_id s =
     bind_sum (peek_secret R secret_id s) (\<lambda>r. case r of
         None \<Rightarrow> Inr None
       | Some peeked \<Rightarrow> Inr (Some \<lparr>sm_title = s_title peeked, sm_payment_required = secret_is_paid peeked,
           sm_price_cents = s_price_cents peeked, sm_currency = s_currency peeked\<rparr>))"

text \<open>\<open>SecretFetchResponse\<close>: the content, or what has to be paid for it.\<close>

datatype secret_response =
    Content string
  | Payment_Required "int option" string "string option"

definition peek_fn where
  "peek_fn R kind item_id s = (case kind of
       Secret_Kind \<Rightarrow> peek_secret R item_id s
     | File_Kind \<Rightarrow> peek_file R item_id s)"

definition fetch_fn where
  "fetch_fn R kind item_id s = (case kind of
       Secret_Kind \<Rightarrow> fetch_secret R item_id s
     | File_Kind \<Rightarrow> fetch_file R item_id s)"

definition fetch_secret_or_file ::
  "'s redis \<Rightarrow> crypto \<Rightarrow> item_kind \<Rightarrow> string \<Rightarrow> string option \<Rightarrow> string \<Rightarrow> 's \<Rightarrow>
     (py_error + secret_response option) \<times> 's" where
  "fetch_secret_or_file R C kind item_id payment_token fingerprint s =
     (case peek_fn R kind item_id s of
        Inl e \<Rightarrow> (Inl e, s)
      | Inr None \<Rightarrow> (Inr None, s)
      | Inr (Some peeked) \<Rightarrow>
          (let payment_verified =
                 (truthy payment_token \<and>
                  validate_secret_payment_token R C item_id (the payment_token) fingerprint s)
           in if secret_is_paid peeked \<and> \<not> payment_verified then
                (Inr (Some (Payment_Required (s_price_cents peeked) (s_currency peeked) (s_title peeked))), s)
              else
                and_then (fetch_fn R kind item_id s)
                  (\<lambda>d s1. (case d of
                       None \<Rightarrow> (Inr None, s1)
                     | Some d \<Rightarrow> (Inr (Some (Content (s_message d))), s1)))))"

record checkout_response =
  checkout_url :: string
  checkout_id :: string

definition kind_name :: "item_kind \<Rightarrow> string" where
  "kind_name kind = (case kind of Secret_Kind \<Rightarrow> ''secret'' | File_Kind \<Rightarrow> ''file'')"

definition create_secret_checkout ::
  "'s redis \<Rightarrow> crypto \<Rightarrow> settings \<Rightarrow> service_env \<Rightarrow> string \<Rightarrow> string \<Rightarrow> item_kind \<Rightarrow> string \<Rightarrow> 's \<Rightarrow>
     (py_error + checkout_response option) \<times> 's" where
  "create_secret_checkout R C cfg E payment_token secret_id kind fingerprint s =
     (case peek_fn R kind secret_id s of
        Inl e \<Rightarrow> (Inl e, s)
      | Inr None \<Rightarrow> (Inr None, s)
      | Inr (Some sec) \<Rightarrow>
          (if \<not> secret_is_paid sec \<or> \<not> truthy (s_seller_stripe_id sec) then
             (Inl (ValueError ''Item is not configured for payments''), s)
           else
             (case s_price_cents sec of
                None \<Rightarrow> (Inl (ValueError ''price_cents must be set for paid items''), s)
              | Some price \<Rightarrow>
                  (let fee = platform_fee cfg price;
                       token_h = sha256_hex C payment_token;
                       ttl = TTL R (secret_key kind secret_id) s
                   in if ttl \<le> 0 then (Inr None, s)
                      else
                        (let s1 = store_secret_payment_token R secret_id token_h ttl fingerprint s;
                             product = str_or (s_title sec)
                               (if kind = Secret_Kind then ''Encrypted Secret'' else ''Encrypted File'')
                         in (case stripe_session E \<lparr>q_account = the (s_seller_stripe_id sec), q_price = price,
                                q_currency = s_currency sec, q_fee = fee, q_product = product,
                                q_success_url = generate_frontend_url E
                                  (''/secret-checkout-return/'' @ secret_id @ ''?session_id={CHECKOUT_SESSION_ID}''),
                                q_cancel_url = generate_frontend_url E
                                  (''/secret-checkout-return/'' @ secret_id @ ''?cancelled=true''),
                                q_metadata = [(''platform'', ''rapidly''), (''secret_id'', secret_id),
                                  (''kind'', kind_name kind), (''workspace_id'', str_or (s_workspace_id sec) '''')],
                                q_idempotency_key = ''secret-checkout-'' @ secret_id @ ''-'' @ fingerprint\<rparr> of
                             Inl e \<Rightarrow> (Inl e, s1)
                           | Inr (sid, url) \<Rightarrow>
                               (Inr (Some \<lparr>checkout_url = str_or url '''', checkout_id = sid\<rparr>),
                                store_secret_checkout_payment_token R C secret_id sid payment_token s1)))))))"

definition claim_secret_checkout_action ::
  "'s redis \<Rightarrow> crypto \<Rightarrow> string \<Rightarrow> string \<Rightarrow> item_kind \<Rightarrow> 's \<Rightarrow> (py_error + string option) \<times> 's" where
  "claim_secret_checkout_action R C secret_id checkout_session_id kind s =
     (case peek_fn R kind secret_id s of
        Inl e \<Rightarrow> (Inl e, s)
      | Inr None \<Rightarrow> (Inr None, s)
      | Inr (Some peeked) \<Rightarrow> claim_secret_checkout_token R C secret_id checkout_session_id s)"

subsection \<open>Currency and creation context\<close>

definition resolve_workspace_currency :: "pg \<Rightarrow> uuid option \<Rightarrow> py_error + string" where
  "resolve_workspace_currency pg workspace_id = (case workspace_id of
       None \<Rightarrow> Inr ''usd''
     | Some w \<Rightarrow> bind_sum (workspace_by_id w pg) (\<lambda>r. case r of
           None \<Rightarrow> Inr ''usd''
         | Some workspace \<Rightarrow> Inr (w_currency workspace)))"

text \<open>The user, the workspace, and the seller's Stripe and local account ids.\<close>

record creation_context =
  cc_user_id :: "uuid option"
  cc_workspace_id :: "uuid option"
  cc_seller_stripe_id :: "string option"
  cc_seller_account_id :: "uuid option"

definition resolve_channel_creation_context ::
  "'s redis \<Rightarrow> service_env \<Rightarrow> pg \<Rightarrow> subject \<Rightarrow> uuid option \<Rightarrow> int option \<Rightarrow> string \<Rightarrow> 's \<Rightarrow>
     (py_error + creation_context) \<times> 's" where
  "resolve_channel_creation_context R E pg auth workspace_id_input price cur s =
     (let uid = (case auth of User u \<Rightarrow> Some u | _ \<Rightarrow> None);
          member_check = (case (auth, workspace_id_input) of
              (User u, Some w) \<Rightarrow> bind_sum (readable_workspace (User u) w pg) (\<lambda>r. case r of
                   None \<Rightarrow> Inl (ChannelCreationError ''Not a member of this workspace'' 403)
                 | Some workspace \<Rightarrow> Inr (Some w))
            | _ \<Rightarrow> Inr None)
      in and_then (member_check, s) (\<lambda>wid s.
           (if \<not> price_positive price then (Inr \<lparr>cc_user_id = uid, cc_workspace_id = wid,
                cc_seller_stripe_id = None, cc_seller_account_id = None\<rparr>, s)
            else if \<not> is_user_principal auth then
              (Inl (ChannelCreationError ''Authentication required for paid channels'' 401), s)
            else (case workspace_id_input of
                None \<Rightarrow> (Inl (ChannelCreationError ''workspaceId is required for paid channels'' 400), s)
              | Some w \<Rightarrow>
                  and_then (seller_account R E
                      ''Active Stripe account with charges enabled is required for paid channels'' w cur pg s)
                    (\<lambda>account s1. (Inr \<lparr>cc_user_id = uid, cc_workspace_id = wid,
                       cc_seller_stripe_id = acc_stripe_id account,
                       cc_seller_account_id = Some (acc_id account)\<rparr>, s1))))))"

subsection \<open>Channel lifecycle\<close>

definition create_product_for_channel ::
  "uuid \<Rightarrow> uuid \<Rightarrow> int \<Rightarrow> string \<Rightarrow> string option \<Rightarrow> pg \<Rightarrow> (py_error + uuid option) \<times> pg" where
  "create_product_for_channel uid w price cur file pg =
     (case workspace_by_id w pg of
        Inl e \<Rightarrow> (Inl e, pg)
      | Inr None \<Rightarrow> (Inr None, pg)
      | Inr (Some workspace) \<Rightarrow>
          (if pg_up pg \<and> int32 price \<and> varchar 3 cur \<and> uid \<notin> set (map h_id (pg_shares pg))
           then (Inr (Some uid), pg\<lparr>pg_shares := pg_shares pg @
                  [\<lparr>h_id = uid, h_name = str_or file ''File Download'', h_workspace_id = w_id workspace,
                    h_price_amount = price, h_price_currency = cur\<rparr>]\<rparr>)
           else (Inl SQLAlchemyError, pg)))"

record channel_created =
  cr_secret :: string
  cr_long_slug :: slug
  cr_short_slug :: slug

text \<open>
  \<open>with_pg\<close> is whether a write session was given. \<open>uids\<close> are the primary keys of the share and
  the session row.
\<close>

definition create_channel_action ::
  "'s redis \<Rightarrow> crypto \<Rightarrow> settings \<Rightarrow> (nat \<Rightarrow> slug) \<Rightarrow> (nat \<Rightarrow> slug) \<Rightarrow> string \<Rightarrow> uuid \<times> uuid \<Rightarrow> int \<Rightarrow>
     int \<Rightarrow> int option \<Rightarrow> channel_args \<Rightarrow> uuid option \<Rightarrow> string option \<Rightarrow> bool \<Rightarrow> 's \<times> pg \<Rightarrow>
     (py_error + channel_created) \<times> ('s \<times> pg)" where
  "create_channel_action R C cfg shorts longs token_hex uids now maxdl ttl a workspace_id ip_hash
       with_pg sp =
     (let t = resolve_ttl cfg (a_price_cents a) ttl;
          (s, pg) = sp;
          product = (case (a_price_cents a, workspace_id) of
              (Some price, Some w) \<Rightarrow>
                (if 0 < price \<and> with_pg
                 then create_product_for_channel (fst uids) w price (a_currency a) (a_file_name a) pg
                 else (Inr None, pg))
            | _ \<Rightarrow> (Inr None, pg))
      in (case product of
            (Inl e, pg1) \<Rightarrow> (Inl e, (s, pg1))
          | (Inr sid, pg1) \<Rightarrow>
              (let a' = a\<lparr>a_share_id := sid\<rparr> in
               (case create_channel R C cfg shorts longs token_hex maxdl (Some t) a' s of
                  (Inl e, s1) \<Rightarrow> (Inl e, (s1, pg1))
                | (Inr (c, raw_secret), s1) \<Rightarrow>
                    (case (if with_pg
                           then pg_create_session now (snd uids) (short_slug c) (long_slug c) maxdl (Some t)
                                  a' workspace_id ip_hash pg1
                           else (Inr (), pg1)) of
                       (Inl e, pg2) \<Rightarrow> (Inl e, (s1, pg2))
                     | (Inr _, pg2) \<Rightarrow>
                         (let s2 = increment_channels_total R s1;
                              s3 = (if truthy workspace_id
                                    then increment_workspace_channels_total R (the workspace_id) s2 else s2)
                          in (Inr \<lparr>cr_secret = raw_secret, cr_long_slug = long_slug c,
                                  cr_short_slug = short_slug c\<rparr>, (s3, pg2))))))))"

record channel_info =
  ch_title :: "string option"
  ch_price_cents :: "int option"
  ch_currency :: "string option"
  ch_file_name :: "string option"
  ch_file_size_bytes :: "int option"
  ch_payment_required :: bool
  ch_creator_country :: string

definition fetch_channel_action ::
  "'s redis \<Rightarrow> crypto \<Rightarrow> slug \<Rightarrow> string option \<Rightarrow> string option \<Rightarrow> string \<Rightarrow> 's \<Rightarrow> channel_info option" where
  "fetch_channel_action R C slug reader_token payment_token fingerprint s =
     (case fetch_channel R slug s of
        None \<Rightarrow> None
      | Some c \<Rightarrow>
          (if is_pending_token R slug (Some c) s then None
           else if truthy reader_token \<and> \<not> validate_reader_token R C slug (the reader_token) (Some c) s
           then None
           else if \<not> truthy reader_token \<and> has_reader_token R slug (Some c) s then None
           else if \<not> check_download_available R slug (Some c) s then None
           else Some \<lparr>ch_title = title c, ch_price_cents = price_cents c,
                  ch_currency = (if is_paid c then Some (currency c) else None),
                  ch_file_name = file_name c, ch_file_size_bytes = file_size_bytes c,
                  ch_payment_required =
                    (if is_paid c then
                       (if truthy payment_token
                        then \<not> validate_payment_token R C slug (the payment_token) (Some c) fingerprint s
                        else True)
                     else False),
                  ch_creator_country = creator_country c\<rparr>))"

definition renew_channel_action ::
  "'s redis \<Rightarrow> crypto \<Rightarrow> settings \<Rightarrow> int \<Rightarrow> slug \<Rightarrow> string \<Rightarrow> int option \<Rightarrow> bool \<Rightarrow> 's \<times> pg \<Rightarrow>
     (py_error + bool) \<times> ('s \<times> pg)" where
  "renew_channel_action R C cfg now slug sec ttl with_pg sp =
     (let (s, pg) = sp;
          t = (case ttl of None \<Rightarrow> CHANNEL_TTL cfg | Some n \<Rightarrow> n)
      in (case renew_channel R C cfg slug sec (Some t) s of (success, s1) \<Rightarrow>
           (if success \<and> with_pg then
              (case pg_update_session_expires_at now slug (Some t) pg of
                 (Inl e, pg1) \<Rightarrow> (Inl e, (s1, pg1))
               | (Inr _, pg1) \<Rightarrow> (Inr success, (s1, pg1)))
            else (Inr success, (s1, pg)))))"

definition destroy_channel_action ::
  "'s redis \<Rightarrow> crypto \<Rightarrow> string \<Rightarrow> int \<Rightarrow> slug \<Rightarrow> string \<Rightarrow> bool \<Rightarrow> 's \<times> pg \<Rightarrow>
     (py_error + bool \<times> bool \<times> string) \<times> ('s \<times> pg)" where
  "destroy_channel_action R C stamp now slug sec with_pg sp =
     (let (s, pg) = sp
      in (case request_channel_destruction R C stamp slug sec s of ((success, is_immediate, msg), s1) \<Rightarrow>
           (if success \<and> is_immediate \<and> with_pg then
              (case pg_update_session_status now slug ''destroyed'' pg of
                 (Inl e, pg1) \<Rightarrow> (Inl e, (s1, pg1))
               | (Inr _, pg1) \<Rightarrow> (Inr (success, is_immediate, msg), (s1, pg1)))
            else (Inr (success, is_immediate, msg), (s1, pg)))))"

subsection \<open>Payments for channels\<close>

text \<open>The price of the audit trail wins over the price in Redis; a failing query is a \<open>ValueError\<close>.\<close>

definition validate_channel_price :: "bool \<Rightarrow> channel_data \<Rightarrow> int \<Rightarrow> pg \<Rightarrow> py_error + int \<times> string" where
  "validate_channel_price with_pg c price pg =
     (if with_pg then
        (case get_by_short_slug (short_slug c) pg of
           Inl e \<Rightarrow> Inl (ValueError ''Price verification failed'')
         | Inr (Some fs) \<Rightarrow>
             (case f_price_cents fs of
                Some p \<Rightarrow> Inr (if p \<noteq> price then p else price,
                               if f_currency fs \<noteq> currency c then f_currency fs else currency c)
              | None \<Rightarrow> Inr (price, currency c))
         | Inr None \<Rightarrow> Inr (price, currency c))
      else Inr (price, currency c))"

datatype payment_response =
    Redirect checkout_response
  | Direct_Payment string string bool

definition checkout_metadata :: "channel_data \<Rightarrow> (string \<times> string) list" where
  "checkout_metadata c = [(''platform'', ''rapidly''), (''channel_slug'', short_slug c),
     (''user_id'', str_or (user_id c) ''''), (''share_id'', str_or (share_id c) '''')]"

text \<open>
  The saved card of the buyer, when all of the conditions of the direct path hold: the card with
  the Stripe id of its customer.
\<close>

definition direct_card ::
  "uuid option \<Rightarrow> uuid option \<Rightarrow> bool \<Rightarrow> pg \<Rightarrow> py_error + (card_row \<times> string) option" where
  "direct_card payment_method_id buyer_customer_id with_pg pg =
     (case (payment_method_id, buyer_customer_id) of
        (Some pmid, Some buyer) \<Rightarrow>
          (if \<not> with_pg then Inr None
           else bind_sum (payment_method_get pmid pg) (\<lambda>k. case k of
                 None \<Rightarrow> Inr None
               | Some pm \<Rightarrow>
                   (if k_customer_id pm \<noteq> buyer then Inr None
                    else bind_sum (customer_by_id (k_customer_id pm) pg) (\<lambda>u. case u of
                          None \<Rightarrow> Inr None
                        | Some customer \<Rightarrow>
                            (if truthy (u_stripe_customer_id customer)
                             then Inr (Some (pm, the (u_stripe_customer_id customer)))
                             else Inr None)))))
      | _ \<Rightarrow> Inr None)"

text \<open>
  The two ways to pay. Both store the token under the id Stripe gave the payment and record it;
  \<open>uid\<close> is the primary key of the payment row.
\<close>

definition pay_with_card ::
  "'s redis \<Rightarrow> crypto \<Rightarrow> service_env \<Rightarrow> uuid \<Rightarrow> string \<Rightarrow> channel_data \<Rightarrow> int \<Rightarrow> string \<Rightarrow> int \<Rightarrow> string \<Rightarrow>
     card_row \<Rightarrow> string \<Rightarrow> 's \<times> pg \<Rightarrow> (py_error + payment_response option) \<times> ('s \<times> pg)" where
  "pay_with_card R C E uid payment_token c price cur fee fingerprint pm customer sp =
     (let (s, pg) = sp
      in (case stripe_intent E \<lparr>i_amount = price, i_currency = cur, i_customer = customer,
             i_payment_method = k_processor_id pm, i_account = the (seller_stripe_id c), i_fee = fee,
             i_metadata = checkout_metadata c,
             i_idempotency_key = ''pi-'' @ short_slug c @ ''-'' @ fingerprint\<rparr> of
            Inl e \<Rightarrow> (Inl e, (s, pg))
          | Inr (intent_id, client_secret, status) \<Rightarrow>
              (let s1 = store_checkout_payment_token R C (short_slug c) intent_id payment_token s
               in (case pg_create_payment uid (short_slug c) price cur fee None (Some intent_id)
                          (Some (k_id pm)) pg of
                     (Inl e, pg1) \<Rightarrow> (Inl e, (s1, pg1))
                   | (Inr _, pg1) \<Rightarrow>
                       (Inr (Some (Direct_Payment (str_or client_secret '''') intent_id
                          (status = ''requires_action''))), (s1, pg1))))))"

definition pay_by_redirect ::
  "'s redis \<Rightarrow> crypto \<Rightarrow> service_env \<Rightarrow> uuid \<Rightarrow> string \<Rightarrow> channel_data \<Rightarrow> int \<Rightarrow> string \<Rightarrow> int \<Rightarrow> string \<Rightarrow>
     bool \<Rightarrow> 's \<times> pg \<Rightarrow> (py_error + payment_response option) \<times> ('s \<times> pg)" where
  "pay_by_redirect R C E uid payment_token c price cur fee fingerprint with_pg sp =
     (let (s, pg) = sp
      in (case stripe_session E \<lparr>q_account = the (seller_stripe_id c), q_price = price, q_currency = cur,
             q_fee = fee, q_product = str_or (file_name c) ''File Download'',
             q_success_url = generate_frontend_url E
               (''/checkout-return/'' @ short_slug c @ ''?session_id={CHECKOUT_SESSION_ID}''),
             q_cancel_url = generate_frontend_url E (''/checkout-return/'' @ short_slug c @ ''?cancelled=true''),
             q_metadata = checkout_metadata c,
             q_idempotency_key = ''checkout-'' @ short_slug c @ ''-'' @ fingerprint\<rparr> of
            Inl e \<Rightarrow> (Inl e, (s, pg))
          | Inr (sid, url) \<Rightarrow>
              (let s1 = store_checkout_payment_token R C (short_slug c) sid payment_token s
               in (case (if with_pg then pg_create_payment uid (short_slug c) price cur fee (Some sid) None None pg
                         else (Inr (), pg)) of
                     (Inl e, pg1) \<Rightarrow> (Inl e, (s1, pg1))
                   | (Inr _, pg1) \<Rightarrow>
                       (Inr (Some (Redirect \<lparr>checkout_url = str_or url '''', checkout_id = sid\<rparr>)), (s1, pg1))))))"

definition create_checkout ::
  "'s redis \<Rightarrow> crypto \<Rightarrow> settings \<Rightarrow> service_env \<Rightarrow> uuid \<Rightarrow> string \<Rightarrow> slug \<Rightarrow> bool \<Rightarrow> string \<Rightarrow>
     uuid option \<Rightarrow> uuid option \<Rightarrow> 's \<times> pg \<Rightarrow> (py_error + payment_response option) \<times> ('s \<times> pg)" where
  "create_checkout R C cfg E uid payment_token slug with_pg fingerprint payment_method_id
       buyer_customer_id sp =
     (let (s, pg) = sp in
      (case fetch_channel R slug s of
         None \<Rightarrow> (Inr None, sp)
       | Some c \<Rightarrow>
           (if \<not> is_paid c \<or> \<not> truthy (seller_stripe_id c) then
              (Inl (ValueError ''Channel is not configured for payments''), sp)
            else (case price_cents c of
                None \<Rightarrow> (Inl (ValueError ''Channel price_cents must be set for paid channels''), sp)
              | Some redis_price \<Rightarrow>
                  (case validate_channel_price with_pg c redis_price pg of
                     Inl e \<Rightarrow> (Inl e, sp)
                   | Inr (price, cur) \<Rightarrow>
                       (let fee = platform_fee cfg price;
                            ttl = TTL R (channel_key (short_slug c)) s
                        in if ttl \<le> 0 then (Inr None, sp)
                           else
                             (let s1 = store_payment_token R (short_slug c)
                                         (sha256_hex C payment_token) ttl fingerprint s
                              in (case direct_card payment_method_id buyer_customer_id with_pg pg of
                                    Inl e \<Rightarrow> (Inl e, (s1, pg))
                                  | Inr (Some (pm, customer)) \<Rightarrow>
                                      pay_with_card R C E uid payment_token c price cur fee fingerprint
                                        pm customer (s1, pg)
                                  | Inr None \<Rightarrow>
                                      pay_by_redirect R C E uid payment_token c price cur fee fingerprint
                                        with_pg (s1, pg)))))))))"

text \<open>
  \<open>claim_checkout_payment_token\<close>: Stripe is asked whether the session is paid; if Stripe raises,
  the claim goes through.
\<close>

definition claim_checkout_action ::
  "'s redis \<Rightarrow> crypto \<Rightarrow> service_env \<Rightarrow> slug \<Rightarrow> string \<Rightarrow> 's \<Rightarrow> (py_error + string option) \<times> 's" where
  "claim_checkout_action R C E slug checkout_session_id s =
     (case fetch_channel R slug s of
        None \<Rightarrow> (Inr None, s)
      | Some c \<Rightarrow>
          (if truthy (seller_stripe_id c) then
             (case stripe_payment_status E (the (seller_stripe_id c)) checkout_session_id of
                Inr status \<Rightarrow>
                  (if status \<noteq> ''paid'' then (Inr None, s)
                   else claim_checkout_payment_token R C slug checkout_session_id s)
              | Inl e \<Rightarrow>
                  (if e = StripeError then claim_checkout_payment_token R C slug checkout_session_id s
                   else (Inl e, s)))
           else claim_checkout_payment_token R C slug checkout_session_id s))"

subsection \<open>Downloads, reports, access\<close>

definition record_download_action ::
  "'s redis \<Rightarrow> crypto \<Rightarrow> int \<Rightarrow> uuid \<Rightarrow> slug \<Rightarrow> string \<Rightarrow> string option \<Rightarrow> bool \<Rightarrow> 's \<times> pg \<Rightarrow>
     (py_error + bool \<times> int) \<times> ('s \<times> pg)" where
  "record_download_action R C now uid slug reader_token ip_hash with_pg sp =
     (let (s, pg) = sp
      in (case record_download_complete R C slug reader_token s of ((success, remaining, download_no), s1) \<Rightarrow>
           (if success \<and> with_pg then
              (case pg_record_download now uid slug download_no ip_hash pg of
                 (Inl e, pg1) \<Rightarrow> (Inl e, (s1, pg1))
               | (Inr _, pg1) \<Rightarrow> (Inr (success, remaining), (s1, pg1)))
            else (Inr (success, remaining), (s1, pg)))))"

text \<open>
  \<open>report_channel\<close> on the rooms of the signaling server: the room is closed, the channel deleted,
  and the report logged before it is written to the audit trail.
\<close>

definition report_authorized :: "'s redis \<Rightarrow> crypto \<Rightarrow> slug \<Rightarrow> string \<Rightarrow> channel_data \<Rightarrow> 's \<Rightarrow> bool" where
  "report_authorized R C slug reader_token c s \<longleftrightarrow>
     \<not> is_pending_token R slug (Some c) s \<and> reader_token \<noteq> '''' \<and>
     has_reader_token R slug (Some c) s \<and> validate_reader_token R C slug reader_token (Some c) s"

definition report_channel_action ::
  "'s redis \<Rightarrow> crypto \<Rightarrow> service_env \<Rightarrow> 'r transport \<Rightarrow> uuid \<Rightarrow> slug \<Rightarrow> string \<Rightarrow> string option \<Rightarrow> bool \<Rightarrow>
     'r \<times> 's \<times> pg \<Rightarrow> (py_error + bool) \<times> deliveries \<times> ('r \<times> 's \<times> pg)" where
  "report_channel_action R C E T uid slug reader_token ip_hash with_pg rsp =
     (let (rms, s, pg) = rsp in
      (case fetch_channel R slug s of
         None \<Rightarrow> (Inr False, [], rsp)
       | Some c \<Rightarrow>
           (if \<not> report_authorized R C slug reader_token c s then (Inr False, [], rsp)
            else
              (case t_close T (short_slug c) rms of (_, out, rms1) \<Rightarrow>
                 (let s1 = delete_channel R c s
                  in (case log_info E [(''event'', ''channel_reported''), (''short_slug'', short_slug c)] of
                        Inl e \<Rightarrow> (Inl e, out, (rms1, s1, pg))
                      | Inr _ \<Rightarrow>
                          (if with_pg then
                             (case pg_create_report uid (short_slug c) ip_hash pg of
                                (Inl e, pg1) \<Rightarrow> (Inl e, out, (rms1, s1, pg1))
                              | (Inr _, pg1) \<Rightarrow> (Inr True, out, (rms1, s1, pg1)))
                           else (Inr True, out, (rms1, s1, pg)))))))))"

definition get_ice_config_for_channel ::
  "'s redis \<Rightarrow> crypto \<Rightarrow> settings \<Rightarrow> (string \<Rightarrow> string \<Rightarrow> string) \<Rightarrow> int \<Rightarrow> string \<Rightarrow> slug \<Rightarrow> string \<Rightarrow> 's \<Rightarrow>
     py_error + ice_server list option" where
  "get_ice_config_for_channel R C cfg turn_hmac now label slug token s =
     (case fetch_channel R slug s of
        None \<Rightarrow> Inr None
      | Some c \<Rightarrow>
          (if \<not> validate_reader_token R C slug token (Some c) s \<and> has_reader_token R slug (Some c) s
           then Inl (ValueError ''Invalid reader token'')
           else Inr (Some (build_ice_config cfg turn_hmac now label))))"

subsection \<open>Statistics\<close>

definition get_public_stats :: "'s redis \<Rightarrow> pg \<Rightarrow> 's \<Rightarrow> (py_error + int) \<times> 's" where
  "get_public_stats R pg s = (case get_cached_total R s of
       Some cached \<Rightarrow> (Inr cached, s)
     | None \<Rightarrow>
         and_then (if channels_total_initialized R s then (Inr (), s)
                   else (case get_total_count pg of
                           Inl e \<Rightarrow> (Inl e, s)
                         | Inr baseline \<Rightarrow> (Inr (), snd (seed_channels_total_if_needed R baseline s))))
           (\<lambda>_ s1.
              (let total_count = get_channels_total R s1 + get_created_count R s1 +
                     get_no_server_created_count R s1
               in (Inr total_count, set_cached_total R total_count s1))))"

definition get_workspace_stats :: "'s redis \<Rightarrow> pg \<Rightarrow> uuid \<Rightarrow> 's \<Rightarrow> (py_error + int) \<times> 's" where
  "get_workspace_stats R pg w s =
     and_then (if workspace_channels_initialized R w s then (Inr (), s)
               else (case get_count_by_workspace w pg of
                       Inl e \<Rightarrow> (Inl e, s)
                     | Inr baseline \<Rightarrow> (Inr (), snd (seed_workspace_channels_total_if_needed R w baseline s))))
       (\<lambda>_ s1. (Inr (get_workspace_channels_total R w s1 + get_workspace_created_count R w s1 +
                     get_workspace_no_server_created_count R w s1), s1))"

definition record_no_server_secret :: "'s redis \<Rightarrow> uuid option \<Rightarrow> 's \<Rightarrow> 's" where
  "record_no_server_secret R workspace_id s = increment_no_server_created_count R workspace_id s"

text \<open>
  The remaining functions of the service hand their arguments to the store: \<open>set_reader_token\<close>,
  \<open>record_password_attempt\<close>, \<open>upload_checksums\<close> and \<open>fetch_checksums\<close>.
\<close>

definition set_reader_token_action where
  "set_reader_token_action R C slug sec token_h s = set_reader_token R C slug sec token_h s"

definition password_attempt_action where
  "password_attempt_action R C slug sec s = record_password_attempt R C slug sec s"

definition upload_checksums_action where
  "upload_checksums_action R C slug sec checksums s = store_checksums R C slug sec checksums s"

definition fetch_checksums_action where
  "fetch_checksums_action R C slug reader_token s = fetch_checksums R C slug reader_token s"

end
