(* ===== verification/Sharing_Api.thy ===== *)
theory Sharing_Api
  imports Sharing_Actions Rate_Limit
begin

section \<open>The HTTP endpoints of file sharing\<close>

text \<open>
  The endpoints of \<open>api.py\<close> with the request schemas of \<open>types.py\<close>: each checks the size of the
  body, the request rate, the slug, the subject, calls the service and maps its exceptions to HTTP
  errors. An endpoint answers a response or an exception; \<open>HTTPException n\<close> stands for the
  error with status \<open>n\<close> (\<open>BadRequest\<close> 400, \<open>Unauthorized\<close> 401, \<open>NotPermitted\<close> 403,
  \<open>ResourceNotFound\<close> 404 of \<open>errors\<close>), any other exception is a 500.
\<close>

subsection \<open>Requests\<close>

text \<open>
  \<open>app\<close> is what the process is set up with; \<open>drawn\<close> holds the values Python draws during a
  request: the clock, random tokens, UUIDs and slug candidates.
\<close>

record 's app =
  redis_ops :: "'s redis"
  app_crypto :: crypto
  app_settings :: settings
  app_env :: service_env
  trusted_proxy :: "string \<Rightarrow> bool"
  redis_up :: bool
  turn_hmac :: "string \<Rightarrow> string \<Rightarrow> string"

record drawn =
  clock :: int
  stamp :: string
  row_ids :: "uuid \<times> uuid"
  item_uuid :: uuid
  item_stamps :: "string \<times> string"
  short_slugs :: "nat \<Rightarrow> slug"
  long_slugs :: "nat \<Rightarrow> slug"
  token_hex_32 :: string
  token_urlsafe :: string
  turn_label :: string

record http_request =
  hr_peer :: "string option"
  hr_xff :: "string option"
  hr_content_length :: "string option"
  hr_body :: string
  hr_authorization :: "string option"
  hr_payment_token :: "string option"
  hr_cookies :: "(string \<times> string) list"
  hr_subject :: subject
  hr_country :: string
  hr_continent :: string

definition client_ip :: "'s app \<Rightarrow> http_request \<Rightarrow> string" where
  "client_ip A h = resolve_client_ip (trusted_proxy A) (hr_xff h) (hr_peer h)"

definition ip_hash :: "'s app \<Rightarrow> http_request \<Rightarrow> string" where
  "ip_hash A h = hash_ip (app_crypto A) (client_ip A h)"

text \<open>The limits of \<open>guards.py\<close>: requests and seconds.\<close>

definition CHANNEL_CREATE_RATE :: "int \<times> int" where "CHANNEL_CREATE_RATE = (20, 600)"
definition CHANNEL_FETCH_RATE :: "int \<times> int" where "CHANNEL_FETCH_RATE = (60, 60)"
definition CHANNEL_ACTION_RATE :: "int \<times> int" where "CHANNEL_ACTION_RATE = (30, 60)"
definition SECRET_CREATE_RATE :: "int \<times> int" where "SECRET_CREATE_RATE = (30, 600)"
definition SECRET_FETCH_RATE :: "int \<times> int" where "SECRET_FETCH_RATE = (60, 60)"
definition SECRET_METADATA_RATE :: "int \<times> int" where "SECRET_METADATA_RATE = (30, 60)"

definition default_detail :: string where
  "default_detail = ''Too many requests. Try again later.''"

definition guard_rate ::
  "'s app \<Rightarrow> http_request \<Rightarrow> string \<Rightarrow> int \<times> int \<Rightarrow> string \<Rightarrow> 's \<Rightarrow> (py_error + unit) \<times> 's" where
  "guard_rate A h action rate detail s =
     check_rate_limit (redis_ops A) (app_crypto A) (redis_up A) (client_ip A h) action
       (fst rate) (snd rate) detail s"

text \<open>A guard on the store in front of a computation on store and tables.\<close>

definition guarded ::
  "(py_error + 'a) \<times> 's \<Rightarrow> pg \<Rightarrow> ('a \<Rightarrow> 's \<times> pg \<Rightarrow> (py_error + 'b) \<times> ('s \<times> pg)) \<Rightarrow>
     (py_error + 'b) \<times> ('s \<times> pg)" where
  "guarded g pg f = (case g of (Inl e, s) \<Rightarrow> (Inl e, (s, pg)) | (Inr x, s) \<Rightarrow> f x (s, pg))"

text \<open>\<open>get_db_session\<close>: the write session is rolled back when the endpoint raises.\<close>

definition transactional ::
  "('s \<times> pg \<Rightarrow> (py_error + 'b) \<times> ('s \<times> pg)) \<Rightarrow> 's \<times> pg \<Rightarrow> (py_error + 'b) \<times> ('s \<times> pg)" where
  "transactional f sp = (case f sp of
       (Inl e, (s, pg)) \<Rightarrow> (Inl e, (s, snd sp))
     | (Inr x, sp') \<Rightarrow> (Inr x, sp'))"

text \<open>\<open>_raise_creation_error\<close> and \<open>except ValueError\<close>.\<close>

fun creation_error :: "py_error \<Rightarrow> py_error" where
  "creation_error (ChannelCreationError detail status) =
     HTTPException (if status = 401 \<or> status = 403 then status else 400) detail"
| "creation_error e = e"

fun value_error :: "nat \<Rightarrow> py_error \<Rightarrow> py_error" where
  "value_error status (ValueError m) = HTTPException status m"
| "value_error status e = e"

definition map_error :: "(py_error \<Rightarrow> py_error) \<Rightarrow> (py_error + 'a) \<times> 's \<Rightarrow> (py_error + 'a) \<times> 's" where
  "map_error f r = (case r of (Inl e, s) \<Rightarrow> (Inl (f e), s) | (Inr x, s) \<Rightarrow> (Inr x, s))"

text \<open>\<open>if result is None: raise ResourceNotFound(...)\<close>.\<close>

definition or_not_found :: "string \<Rightarrow> (py_error + 'a option) \<times> 's \<Rightarrow> (py_error + 'a) \<times> 's" where
  "or_not_found detail r = (case r of
       (Inl e, s) \<Rightarrow> (Inl e, s)
     | (Inr None, s) \<Rightarrow> (Inl (HTTPException 404 detail), s)
     | (Inr (Some x), s) \<Rightarrow> (Inr x, s))"

definition read_payment_cookie :: "'s app \<Rightarrow> http_request \<Rightarrow> string \<Rightarrow> string option" where
  "read_payment_cookie A h name =
     (let encrypted = map_of (hr_cookies h) name
      in if \<not> truthy encrypted then None else decrypt_token (app_crypto A) (the encrypted))"

text \<open>\<open>x_payment_token or _read_payment_cookie(...)\<close>.\<close>

definition effective_payment_token :: "'s app \<Rightarrow> http_request \<Rightarrow> string \<Rightarrow> string option" where
  "effective_payment_token A h name =
     (if truthy (hr_payment_token h) then hr_payment_token h else read_payment_cookie A h name)"

record payment_cookie =
  pc_name :: string
  pc_value :: string
  pc_max_age :: int
  pc_httponly :: bool
  pc_samesite :: string
  pc_path :: string

definition payment_cookie :: "'s app \<Rightarrow> string \<Rightarrow> string \<Rightarrow> payment_cookie" where
  "payment_cookie A name token = \<lparr>pc_name = name, pc_value = encrypt_token (app_crypto A) token,
     pc_max_age = 3600, pc_httponly = True, pc_samesite = ''strict'', pc_path = ''/api/file-sharing/''\<rparr>"

subsection \<open>Request schemas\<close>

text \<open>
  The field constraints of the pydantic schemas; a request that breaks one is answered with 422.
\<close>

definition PRESENTMENT_CURRENCIES :: "string list" where
  "PRESENTMENT_CURRENCIES = [''aud'', ''brl'', ''cad'', ''chf'', ''eur'', ''inr'', ''gbp'', ''jpy'', ''sek'', ''usd'']"

record secret_create_request =
  sr_message :: string
  sr_expiration :: int
  sr_workspace_id :: "uuid option"
  sr_price_cents :: "int option"
  sr_currency :: "string option"
  sr_title :: "string option"

record channel_create_request =
  cq_max_downloads :: int
  cq_price_cents :: "int option"
  cq_currency :: "string option"
  cq_title :: "string option"
  cq_file_name :: "string option"
  cq_file_size_bytes :: "int option"
  cq_workspace_id :: "uuid option"

definition unprocessable :: "py_error" where "unprocessable = HTTPException 422 ''Validation error''"

definition valid_price :: "settings \<Rightarrow> int option \<Rightarrow> bool" where
  "valid_price cfg p = (fits (\<lambda>n. 0 \<le> n) p \<and> \<not> isl (validate_price_cents cfg p))"

definition parse_secret_create :: "settings \<Rightarrow> secret_create_request \<Rightarrow> py_error + secret_create_request" where
  "parse_secret_create cfg q =
     (if 1 \<le> length (sr_message q) \<and> length (sr_message q) \<le> 1024 * 1024 \<and>
         60 \<le> sr_expiration q \<and> sr_expiration q \<le> 604800 \<and> valid_price cfg (sr_price_cents q) \<and>
         fits (\<lambda>c. c \<in> set PRESENTMENT_CURRENCIES) (sr_currency q) \<and> fits (varchar 255) (sr_title q)
      then Inr q else Inl unprocessable)"

definition parse_channel_create :: "settings \<Rightarrow> channel_create_request \<Rightarrow> py_error + channel_create_request" where
  "parse_channel_create cfg q =
     (if 0 \<le> cq_max_downloads q \<and> cq_max_downloads q \<le> 1000 \<and> valid_price cfg (cq_price_cents q) \<and>
         fits (\<lambda>c. c \<in> set PRESENTMENT_CURRENCIES) (cq_currency q) \<and> fits (varchar 255) (cq_title q) \<and>
         fits (varchar 255) (cq_file_name q) \<and> fits (\<lambda>n. 0 \<le> n) (cq_file_size_bytes q)
      then Inr q else Inl unprocessable)"

text \<open>The channel secret and the tokens of the other bodies, and the hash of a reader token.\<close>

definition parse_bounded :: "nat \<Rightarrow> string \<Rightarrow> py_error + string" where
  "parse_bounded n v = (if 1 \<le> length v \<and> length v \<le> n then Inr v else Inl unprocessable)"

definition is_hex :: "char \<Rightarrow> bool" where
  "is_hex c = (let n = of_char c :: nat in 48 \<le> n \<and> n \<le> 57 \<or> 97 \<le> n \<and> n \<le> 102 \<or> 65 \<le> n \<and> n \<le> 70)"

definition parse_token_hash :: "string \<Rightarrow> py_error + string" where
  "parse_token_hash v = (if length v = 64 \<and> list_all is_hex v then Inr v else Inl unprocessable)"

subsection \<open>Statistics\<close>

definition get_stats ::
  "'s app \<Rightarrow> http_request \<Rightarrow> uuid option \<Rightarrow> 's \<times> pg \<Rightarrow> (py_error + int) \<times> ('s \<times> pg)" where
  "get_stats A h workspace_id sp =
     (let (s, pg) = sp; R = redis_ops A in
      guarded (guard_rate A h ''stats'' CHANNEL_FETCH_RATE default_detail s) pg (\<lambda>_ (s, pg).
        (case workspace_id of
           Some w \<Rightarrow>
             (if \<not> is_user_principal (hr_subject h)
              then (Inl (HTTPException 401 ''Authentication required''), (s, pg))
              else (case readable_workspace (hr_subject h) w pg of
                  Inl e \<Rightarrow> (Inl e, (s, pg))
                | Inr None \<Rightarrow> (Inl (HTTPException 403 ''Not a member of this workspace''), (s, pg))
                | Inr (Some _) \<Rightarrow>
                    (case get_workspace_stats R pg w s of (r, s1) \<Rightarrow> (r, (s1, pg)))))
         | None \<Rightarrow> (case get_public_stats R pg s of (r, s1) \<Rightarrow> (r, (s1, pg))))))"

definition ping_no_server_secret ::
  "'s app \<Rightarrow> http_request \<Rightarrow> uuid option \<Rightarrow> 's \<times> pg \<Rightarrow> (py_error + unit) \<times> ('s \<times> pg)" where
  "ping_no_server_secret A h workspace_id sp =
     (let (s, pg) = sp in
      guarded (guard_rate A h ''no_server_secret_ping'' SECRET_CREATE_RATE default_detail s) pg
        (\<lambda>_ (s, pg). (Inr (), (record_no_server_secret (redis_ops A) workspace_id s, pg))))"

subsection \<open>Session listing, detail and reports\<close>

definition list_sessions_endpoint ::
  "http_request \<Rightarrow> int \<Rightarrow> int \<Rightarrow> string list option \<Rightarrow> string option \<Rightarrow> string option \<Rightarrow> uuid option \<Rightarrow>
     pg \<Rightarrow> py_error + fs_session list \<times> page_meta" where
  "list_sessions_endpoint h page limit sorting status query workspace_id pg =
     bind_sum (parse_pagination_params page limit) (\<lambda>(page, limit).
     bind_sum (sorting_getter sorting) (\<lambda>criteria.
     bind_sum (list_sessions (hr_subject h) page limit criteria status query workspace_id pg)
       (\<lambda>(results, total_count). Inr (from_paginated_results results total_count page limit))))"

definition get_session_endpoint where
  "get_session_endpoint A h i sp =
     (let (s, pg) = sp in
      guarded (guard_rate A h ''session_detail'' CHANNEL_FETCH_RATE default_detail s) pg
        (\<lambda>_ (s, pg). or_not_found ''Session not found''
           (get_session_detail_with_relations (hr_subject h) i pg, (s, pg))))"

definition list_session_reports :: "http_request \<Rightarrow> uuid \<Rightarrow> pg \<Rightarrow> (py_error + fs_report list) \<times> pg" where
  "list_session_reports h i pg =
     or_not_found ''Session not found'' (get_session_reports (hr_subject h) i pg, pg)"

definition update_report ::
  "drawn \<Rightarrow> http_request \<Rightarrow> uuid \<Rightarrow> report_status option \<Rightarrow> string option \<Rightarrow> 's \<times> pg \<Rightarrow>
     (py_error + fs_report) \<times> ('s \<times> pg)" where
  "update_report D h i status notes =
     transactional (\<lambda>(s, pg).
       (if \<not> fits (varchar 2000) notes then (Inl unprocessable, (s, pg))
        else (case status of
            None \<Rightarrow> (Inl (HTTPException 400 ''status is required''), (s, pg))
          | Some st \<Rightarrow>
              (case or_not_found ''Report not found''
                      (update_session_report (clock D) (hr_subject h) i st notes pg) of
                 (r, pg1) \<Rightarrow> (r, (s, pg1))))))"

subsection \<open>Secrets\<close>

text \<open>\<open>request.currency or await resolve_workspace_currency(...)\<close>.\<close>

definition requested_currency :: "string option \<Rightarrow> uuid option \<Rightarrow> pg \<Rightarrow> py_error + string" where
  "requested_currency given workspace_id pg =
     (if truthy given then Inr (the given) else resolve_workspace_currency pg workspace_id)"

definition create_item_endpoint ::
  "'s app \<Rightarrow> drawn \<Rightarrow> http_request \<Rightarrow> item_kind \<Rightarrow> secret_create_request \<Rightarrow> 's \<times> pg \<Rightarrow>
     (py_error + string) \<times> ('s \<times> pg)" where
  "create_item_endpoint A D h kind q sp =
     (let (s, pg) = sp in
      guarded (parse_secret_create (app_settings A) q, s) pg (\<lambda>q (s, pg).
      guarded (check_body_size (hr_content_length h) (hr_body h) MAX_SECRET_BODY_SIZE, s) pg (\<lambda>_ (s, pg).
      guarded (guard_rate A h ''secret_create'' SECRET_CREATE_RATE default_detail s) pg (\<lambda>_ (s, pg).
      guarded (requested_currency (sr_currency q) (sr_workspace_id q) pg, s) pg (\<lambda>cur (s, pg).
      map_error creation_error
        (case create_secret_or_file (redis_ops A) (app_env A) kind (item_uuid D) (item_stamps D)
                (sr_message q) (sr_expiration q) (sr_workspace_id q) (sr_price_cents q) cur (sr_title q)
                (Some (hr_subject h)) (Some pg) s of
           (r, s1) \<Rightarrow> (r, (s1, pg))))))))"

definition create_secret_endpoint where
  "create_secret_endpoint A D h q sp = create_item_endpoint A D h Secret_Kind q sp"

definition create_file_endpoint where
  "create_file_endpoint A D h q sp = create_item_endpoint A D h File_Kind q sp"

definition get_secret_metadata where
  "get_secret_metadata A h secret_id sp =
     (let (s, pg) = sp in
      guarded (guard_rate A h ''secret_metadata'' SECRET_METADATA_RATE default_detail s) pg
        (\<lambda>_ (s, pg). or_not_found ''Secret not found''
           (peek_secret_metadata (redis_ops A) secret_id s, (s, pg))))"

definition fetch_item_endpoint ::
  "'s app \<Rightarrow> http_request \<Rightarrow> item_kind \<Rightarrow> string \<Rightarrow> 's \<times> pg \<Rightarrow> (py_error + secret_response) \<times> ('s \<times> pg)" where
  "fetch_item_endpoint A h kind item_id sp =
     (let (s, pg) = sp in
      guarded (guard_rate A h ''secret_fetch'' SECRET_FETCH_RATE default_detail s) pg
        (\<lambda>_ (s, pg). or_not_found ''Secret not found''
           (case fetch_secret_or_file (redis_ops A) (app_crypto A) kind item_id
                   (effective_payment_token A h ''rapidly_spt'') (ip_hash A h) s of
              (r, s1) \<Rightarrow> (r, (s1, pg)))))"

definition fetch_secret_endpoint where
  "fetch_secret_endpoint A h secret_id sp = fetch_item_endpoint A h Secret_Kind secret_id sp"

definition fetch_file_endpoint where
  "fetch_file_endpoint A h file_id sp = fetch_item_endpoint A h File_Kind file_id sp"

text \<open>Both payment endpoints of secrets leave the item kind at its default, the text secret.\<close>

definition secret_checkout_endpoint ::
  "'s app \<Rightarrow> drawn \<Rightarrow> http_request \<Rightarrow> string \<Rightarrow> 's \<times> pg \<Rightarrow> (py_error + checkout_response) \<times> ('s \<times> pg)" where
  "secret_checkout_endpoint A D h secret_id sp =
     (let (s, pg) = sp in
      guarded (guard_rate A h ''checkout'' CHANNEL_ACTION_RATE default_detail s) pg
        (\<lambda>_ (s, pg). or_not_found ''Secret not found'' (map_error (value_error 400)
           (case create_secret_checkout (redis_ops A) (app_crypto A) (app_settings A) (app_env A)
                   (token_urlsafe D) secret_id Secret_Kind (ip_hash A h) s of
              (r, s1) \<Rightarrow> (r, (s1, pg))))))"

definition claim_secret_payment_token ::
  "'s app \<Rightarrow> http_request \<Rightarrow> string \<Rightarrow> string \<Rightarrow> 's \<times> pg \<Rightarrow> (py_error + payment_cookie) \<times> ('s \<times> pg)" where
  "claim_secret_payment_token A h secret_id checkout_session_id sp =
     (let (s, pg) = sp in
      guarded (parse_bounded 256 checkout_session_id, s) pg (\<lambda>cs (s, pg).
      guarded (guard_rate A h ''claim_token'' CHANNEL_ACTION_RATE default_detail s) pg (\<lambda>_ (s, pg).
      (case or_not_found ''Invalid or already claimed checkout session''
              (claim_secret_checkout_action (redis_ops A) (app_crypto A) secret_id cs Secret_Kind s) of
         (Inl e, s1) \<Rightarrow> (Inl e, (s1, pg))
       | (Inr token, s1) \<Rightarrow> (Inr (payment_cookie A ''rapidly_spt'' token), (s1, pg))))))"

subsection \<open>Channels\<close>

text \<open>
  Most channel endpoints validate the slug and then check the request rate; the lookup checks
  the rate first.
\<close>

definition on_channel ::
  "'s app \<Rightarrow> http_request \<Rightarrow> string \<Rightarrow> int \<times> int \<Rightarrow> slug \<Rightarrow>
     (slug \<Rightarrow> 's \<times> pg \<Rightarrow> (py_error + 'b) \<times> ('s \<times> pg)) \<Rightarrow> 's \<times> pg \<Rightarrow> (py_error + 'b) \<times> ('s \<times> pg)" where
  "on_channel A h action rate slug f sp =
     (let (s, pg) = sp in
      guarded (validate_slug slug, s) pg (\<lambda>slug (s, pg).
      guarded (guard_rate A h action rate default_detail s) pg (\<lambda>_. f slug)))"

definition create_channel_endpoint ::
  "'s app \<Rightarrow> drawn \<Rightarrow> http_request \<Rightarrow> channel_create_request \<Rightarrow> 's \<times> pg \<Rightarrow>
     (py_error + channel_created) \<times> ('s \<times> pg)" where
  "create_channel_endpoint A D h q =
     transactional (\<lambda>(s, pg).
      guarded (parse_channel_create (app_settings A) q, s) pg (\<lambda>q (s, pg).
      guarded (guard_rate A h ''channel_create'' CHANNEL_CREATE_RATE
                 ''Too many channels created. Try again later.'' s) pg (\<lambda>_ (s, pg).
      guarded (requested_currency (cq_currency q) (cq_workspace_id q) pg, s) pg (\<lambda>cur (s, pg).
      guarded (map_error creation_error
                 (resolve_channel_creation_context (redis_ops A) (app_env A) pg (hr_subject h)
                    (cq_workspace_id q) (cq_price_cents q) cur s)) pg (\<lambda>cc sp.
      create_channel_action (redis_ops A) (app_crypto A) (app_settings A) (short_slugs D) (long_slugs D)
        (token_hex_32 D) (row_ids D) (clock D) (cq_max_downloads q) None
        \<lparr>a_price_cents = cq_price_cents q, a_currency = cur, a_seller_stripe_id = cc_seller_stripe_id cc,
          a_seller_account_id = cc_seller_account_id cc, a_user_id = cc_user_id cc,
          a_title = cq_title q, a_file_name = cq_file_name q, a_file_size_bytes = cq_file_size_bytes q,
          a_share_id = None, a_creator_country = hr_country h, a_creator_continent = hr_continent h\<rparr>
        (cc_workspace_id cc) (Some (ip_hash A h)) True sp)))))"

definition fetch_channel_endpoint ::
  "'s app \<Rightarrow> http_request \<Rightarrow> slug \<Rightarrow> 's \<times> pg \<Rightarrow> (py_error + channel_info) \<times> ('s \<times> pg)" where
  "fetch_channel_endpoint A h slug sp =
     (let (s, pg) = sp in
      guarded (guard_rate A h ''channel_fetch'' CHANNEL_FETCH_RATE default_detail s) pg (\<lambda>_ (s, pg).
      guarded (validate_slug slug, s) pg (\<lambda>slug (s, pg).
        or_not_found ''Channel not found''
          (Inr (fetch_channel_action (redis_ops A) (app_crypto A) slug
                  (extract_bearer_token (hr_authorization h))
                  (effective_payment_token A h ''rapidly_pt'') (ip_hash A h) s), (s, pg)))))"

text \<open>
  The checkout resolves the buyer of a saved card: the customer id handed to the ownership check
  is read from the payment method itself.
\<close>

definition resolve_buyer :: "http_request \<Rightarrow> uuid option \<Rightarrow> pg \<Rightarrow> py_error + uuid option \<times> uuid option" where
  "resolve_buyer h payment_method_id pg = (case payment_method_id of
       None \<Rightarrow> Inr (None, None)
     | Some pmid \<Rightarrow>
         (if is_anonymous_principal (hr_subject h) then Inr (None, None)
          else bind_sum (payment_method_get pmid pg) (\<lambda>k. case k of
                None \<Rightarrow> Inr (None, None)
              | Some pm \<Rightarrow> Inr (Some pmid, Some (k_customer_id pm)))))"

definition checkout_endpoint ::
  "'s app \<Rightarrow> drawn \<Rightarrow> http_request \<Rightarrow> slug \<Rightarrow> uuid option \<Rightarrow> 's \<times> pg \<Rightarrow>
     (py_error + payment_response) \<times> ('s \<times> pg)" where
  "checkout_endpoint A D h slug payment_method_id =
     transactional (on_channel A h ''checkout'' CHANNEL_ACTION_RATE slug (\<lambda>slug (s, pg).
       guarded (resolve_buyer h payment_method_id pg, s) pg (\<lambda>(pmid, buyer) sp.
         or_not_found ''Channel not found'' (map_error (value_error 400)
           (create_checkout (redis_ops A) (app_crypto A) (app_settings A) (app_env A) (fst (row_ids D))
              (token_urlsafe D) slug True (ip_hash A h) pmid buyer sp)))))"

definition set_reader_token_endpoint ::
  "'s app \<Rightarrow> http_request \<Rightarrow> slug \<Rightarrow> string \<Rightarrow> string \<Rightarrow> 's \<times> pg \<Rightarrow> (py_error + bool) \<times> ('s \<times> pg)" where
  "set_reader_token_endpoint A h slug sec token_h sp =
     (let (s, pg) = sp in
      guarded (parse_bounded 128 sec, s) pg (\<lambda>sec (s, pg).
      guarded (parse_token_hash token_h, s) pg (\<lambda>token_h.
      on_channel A h ''set_reader_token'' CHANNEL_ACTION_RATE slug (\<lambda>slug (s, pg).
        (case set_reader_token_action (redis_ops A) (app_crypto A) slug sec token_h s of
           (r, s1) \<Rightarrow> (Inr r, (s1, pg)))))))"

definition password_attempt_endpoint ::
  "'s app \<Rightarrow> http_request \<Rightarrow> slug \<Rightarrow> string \<Rightarrow> 's \<times> pg \<Rightarrow> (py_error + bool) \<times> ('s \<times> pg)" where
  "password_attempt_endpoint A h slug sec sp =
     (let (s, pg) = sp in
      guarded (parse_bounded 128 sec, s) pg (\<lambda>sec.
      on_channel A h ''password_attempt'' CHANNEL_ACTION_RATE slug (\<lambda>slug (s, pg).
        (case password_attempt_action (redis_ops A) (app_crypto A) slug sec s of
           (r, s1) \<Rightarrow> (Inr r, (s1, pg))))))"

definition claim_payment_token ::
  "'s app \<Rightarrow> http_request \<Rightarrow> slug \<Rightarrow> string \<Rightarrow> 's \<times> pg \<Rightarrow> (py_error + payment_cookie) \<times> ('s \<times> pg)" where
  "claim_payment_token A h slug checkout_session_id sp =
     (let (s, pg) = sp in
      guarded (parse_bounded 256 checkout_session_id, s) pg (\<lambda>cs.
      on_channel A h ''claim_token'' CHANNEL_ACTION_RATE slug (\<lambda>slug (s, pg).
        (case or_not_found ''Invalid or already claimed checkout session''
                (claim_checkout_action (redis_ops A) (app_crypto A) (app_env A) slug cs s) of
           (Inl e, s1) \<Rightarrow> (Inl e, (s1, pg))
         | (Inr token, s1) \<Rightarrow> (Inr (payment_cookie A ''rapidly_pt'' token), (s1, pg))))))"

definition upload_checksums_endpoint ::
  "'s app \<Rightarrow> http_request \<Rightarrow> slug \<Rightarrow> string \<Rightarrow> (string \<times> string) list \<Rightarrow> 's \<times> pg \<Rightarrow>
     (py_error + bool) \<times> ('s \<times> pg)" where
  "upload_checksums_endpoint A h slug sec checksums sp =
     (let (s, pg) = sp in
      guarded (parse_bounded 128 sec, s) pg (\<lambda>sec (s, pg).
      guarded ((case validate_checksums checksums of Inl _ \<Rightarrow> Inl unprocessable | Inr v \<Rightarrow> Inr v), s) pg (\<lambda>sums.
      on_channel A h ''checksums_upload'' CHANNEL_ACTION_RATE slug (\<lambda>slug (s, pg).
        (case upload_checksums_action (redis_ops A) (app_crypto A) slug sec sums s of
           (r, s1) \<Rightarrow> (Inr r, (s1, pg)))))))"

definition fetch_checksums_endpoint ::
  "'s app \<Rightarrow> http_request \<Rightarrow> slug \<Rightarrow> 's \<times> pg \<Rightarrow> (py_error + json) \<times> ('s \<times> pg)" where
  "fetch_checksums_endpoint A h slug =
     on_channel A h ''checksums_fetch'' CHANNEL_FETCH_RATE slug (\<lambda>slug (s, pg).
       (let token = extract_bearer_token (hr_authorization h) in
        if \<not> truthy token then (Inl (HTTPException 401 ''Reader token required''), (s, pg))
        else or_not_found ''Checksums not found''
               (Inr (fetch_checksums_action (redis_ops A) (app_crypto A) slug (the token) s), (s, pg))))"

definition download_complete_endpoint ::
  "'s app \<Rightarrow> drawn \<Rightarrow> http_request \<Rightarrow> slug \<Rightarrow> string \<Rightarrow> 's \<times> pg \<Rightarrow> (py_error + bool \<times> int) \<times> ('s \<times> pg)" where
  "download_complete_endpoint A D h slug token =
     transactional (\<lambda>(s, pg).
      guarded (parse_bounded 256 token, s) pg (\<lambda>token.
      on_channel A h ''download_complete'' CHANNEL_ACTION_RATE slug (\<lambda>slug.
        record_download_action (redis_ops A) (app_crypto A) (clock D) (fst (row_ids D)) slug token
          (Some (ip_hash A h)) True)))"

definition renew_channel_endpoint ::
  "'s app \<Rightarrow> drawn \<Rightarrow> http_request \<Rightarrow> slug \<Rightarrow> string \<Rightarrow> 's \<times> pg \<Rightarrow> (py_error + bool) \<times> ('s \<times> pg)" where
  "renew_channel_endpoint A D h slug sec =
     transactional (\<lambda>(s, pg).
      guarded (parse_bounded 128 sec, s) pg (\<lambda>sec.
      on_channel A h ''renew'' CHANNEL_ACTION_RATE slug (\<lambda>slug sp.
        (case renew_channel_action (redis_ops A) (app_crypto A) (app_settings A) (clock D) slug sec None True sp of
           (Inr False, sp') \<Rightarrow> (Inl (HTTPException 403 ''Invalid channel secret''), sp')
         | r \<Rightarrow> r))))"

definition destroy_channel_endpoint ::
  "'s app \<Rightarrow> drawn \<Rightarrow> http_request \<Rightarrow> slug \<Rightarrow> string \<Rightarrow> 's \<times> pg \<Rightarrow>
     (py_error + bool \<times> bool \<times> string) \<times> ('s \<times> pg)" where
  "destroy_channel_endpoint A D h slug sec =
     transactional (\<lambda>(s, pg).
      guarded (parse_bounded 128 sec, s) pg (\<lambda>sec.
      on_channel A h ''destroy'' CHANNEL_ACTION_RATE slug (\<lambda>slug sp.
        (case destroy_channel_action (redis_ops A) (app_crypto A) (stamp D) (clock D) slug sec True sp of
           (Inr (False, _), sp') \<Rightarrow> (Inl (HTTPException 403 ''Invalid channel secret''), sp')
         | r \<Rightarrow> r))))"

text \<open>The report endpoint also works on the rooms; they are not part of the transaction.\<close>

definition report_channel_endpoint ::
  "'s app \<Rightarrow> 'r transport \<Rightarrow> drawn \<Rightarrow> http_request \<Rightarrow> slug \<Rightarrow> string \<Rightarrow> 'r \<times> 's \<times> pg \<Rightarrow>
     (py_error + bool) \<times> deliveries \<times> ('r \<times> 's \<times> pg)" where
  "report_channel_endpoint A T D h slug token rsp =
     (let (rms, s, pg) = rsp in
      (case parse_bounded 256 token of
         Inl e \<Rightarrow> (Inl e, [], rsp)
       | Inr token \<Rightarrow>
      (case validate_slug slug of
         Inl e \<Rightarrow> (Inl e, [], rsp)
       | Inr slug \<Rightarrow>
      (case guard_rate A h ''report'' CHANNEL_ACTION_RATE default_detail s of
         (Inl e, s1) \<Rightarrow> (Inl e, [], (rms, s1, pg))
       | (Inr _, s1) \<Rightarrow>
           (case report_channel_action (redis_ops A) (app_crypto A) (app_env A) T (fst (row_ids D)) slug token
                   (Some (ip_hash A h)) True (rms, s1, pg) of
              (Inl e, out, (rms2, s2, _)) \<Rightarrow> (Inl e, out, (rms2, s2, pg))
            | r \<Rightarrow> r)))))"

definition get_ice_config ::
  "'s app \<Rightarrow> drawn \<Rightarrow> http_request \<Rightarrow> slug \<Rightarrow> string \<Rightarrow> 's \<times> pg \<Rightarrow> (py_error + ice_server list) \<times> ('s \<times> pg)" where
  "get_ice_config A D h slug token sp =
     (let (s, pg) = sp in
      guarded (parse_bounded 256 token, s) pg (\<lambda>token.
      on_channel A h ''ice_config'' CHANNEL_ACTION_RATE slug (\<lambda>slug (s, pg).
        or_not_found ''Channel not found'' (map_error (value_error 403)
          (get_ice_config_for_channel (redis_ops A) (app_crypto A) (app_settings A) (turn_hmac A) (clock D)
             (turn_label D) slug token s, (s, pg))))))"

end
