(* ===== verification/Sharing_Guards.thy ===== *)
theory Sharing_Guards
  imports Sharing_Api
begin

section \<open>What the guards of the endpoints do\<close>

text \<open>
  The rate guard in front of every endpoint counts in a key of its own: no key of a channel, a
  secret or a token changes, and a refused request changes nothing else at all.
\<close>

text \<open>The store up to the keys of the limiter.\<close>

definition same_but_rates :: "'s redis \<Rightarrow> 's \<Rightarrow> 's \<Rightarrow> bool" where
  "same_but_rates R s s' \<longleftrightarrow>
     (\<forall>k. look R s' k \<noteq> look R s k \<longrightarrow> (\<exists>rest. k = ''file-sharing:rate:'' @ rest))"

lemma same_but_ratesD:
  "same_but_rates R s s' \<Longrightarrow> (\<And>rest. k \<noteq> ''file-sharing:rate:'' @ rest) \<Longrightarrow> look R s' k = look R s k"
  by (auto simp: same_but_rates_def)

lemma same_but_rates_refl [simp]: "same_but_rates R s s"
  by (simp add: same_but_rates_def)

lemma same_but_rates_trans:
  assumes "same_but_rates R s s'" and "same_but_rates R s' s''"
  shows "same_but_rates R s s''"
  unfolding same_but_rates_def
proof (intro allI impI)
  fix k assume "look R s'' k \<noteq> look R s k"
  then have "look R s'' k \<noteq> look R s' k \<or> look R s' k \<noteq> look R s k" by auto
  then show "\<exists>rest. k = ''file-sharing:rate:'' @ rest"
    using assms by (auto simp: same_but_rates_def)
qed

text \<open>The keys of the limiter hold counters.\<close>

definition rates_typed :: "'s redis \<Rightarrow> 's \<Rightarrow> bool" where
  "rates_typed R s \<longleftrightarrow> (\<forall>rest. is_counter (look R s (''file-sharing:rate:'' @ rest)))"

lemma rates_typedD: "rates_typed R s \<Longrightarrow> is_counter (look R s (rate_key C a ip))"
  by (simp add: rates_typed_def rate_key_def)

lemma rate_key_apart [simp, keys]:
  "secret_key k x \<noteq> rate_key C a ip" "secret_payment_token_key x \<noteq> rate_key C a ip"
  "secret_checkout_token_key x cs \<noteq> rate_key C a ip"
  by (cases k; simp add: rate_key_def secret_key_defs)+

lemma rate_key_channel [simp, keys]:
  assumes "slug_ok y"
  shows "channel_key y \<noteq> rate_key C a ip"
  using assms by (auto simp: rate_key_def channel_key_def)

context redis_server
begin

lemma guard_rate_look:
  assumes "redis_ops A = R" and "rates_typed R s" and "0 < snd rate"
    and "k \<noteq> rate_key (app_crypto A) action (client_ip A h)"
  shows "look R (snd (guard_rate A h action rate detail s)) k = look R s k"
  using assms rates_typedD [OF assms(2)]
  by (cases "redis_up A") (simp_all add: guard_rate_def check_rate_limit_look, simp add: check_rate_limit_def)

end

lemma guard_rate_error:
  "guard_rate A h action rate detail s = (Inl e, s') \<Longrightarrow> \<exists>st m. e = HTTPException st m \<and> st \<in> {429, 503}"
  by (auto simp: guard_rate_def check_rate_limit_def split: if_splits prod.splits)

subsection \<open>A sample deployment\<close>

text \<open>What the examples run on: Stripe opens sessions that stay unpaid, and the log takes no second event.\<close>

definition quiet_env :: service_env where
  "quiet_env = \<lparr>accept_pending = False, FRONTEND_BASE_URL = ''https://app'',
     stripe_session = (\<lambda>q. Inr (''cs_1'', Some ''https://pay'')),
     stripe_intent = (\<lambda>q. Inr (''pi_1'', Some ''sec'', ''requires_action'')),
     stripe_payment_status = (\<lambda>account i. if i = ''cs_1'' then Inr ''unpaid'' else Inl StripeError),
     log_info = (\<lambda>kw. if ''event'' \<in> fst ` set kw then Inl TypeError else Inr ())\<rparr>"

definition sample_app :: "store app" where
  "sample_app = \<lparr>redis_ops = ref_redis, app_crypto = ref_crypto, app_settings = default_settings,
     app_env = quiet_env, trusted_proxy = (\<lambda>_. False), redis_up = True, turn_hmac = (\<lambda>_ _. ''mac'')\<rparr>"

definition sample_drawn :: drawn where
  "sample_drawn = \<lparr>clock = 1000, stamp = ''now'', row_ids = (''u1'', ''u2''), item_uuid = ''x1'',
     item_stamps = ('''', ''''), short_slugs = (\<lambda>_. ''5f-0a''), long_slugs = (\<lambda>_. ''ham/olive''),
     token_hex_32 = ''secret'', token_urlsafe = ''t'', turn_label = ''peer''\<rparr>"

definition sample_http :: "subject \<Rightarrow> http_request" where
  "sample_http who = \<lparr>hr_peer = Some ''ip'', hr_xff = None, hr_content_length = None, hr_body = '''',
     hr_authorization = None, hr_payment_token = None, hr_cookies = [], hr_subject = who,
     hr_country = ''US'', hr_continent = ''NA''\<rparr>"

end
