(* ===== verification/Secret_Sales.thy ===== *)
theory Secret_Sales
  imports Sharing_Guards
begin

section \<open>Selling secrets and files\<close>

text \<open>
  How the service, Redis and Stripe work together on a paid item: who gets its content, what a
  checkout stores, what a claim releases.
\<close>

lemmas item_fns = peek_fn_def fetch_fn_def peek_secret_def peek_file_def fetch_secret_def fetch_file_def

lemma peek_fn_eq: "peek_fn R kind x s = secret_peek R kind x s"
  by (cases kind) (simp_all add: item_fns)

lemma fetch_fn_eq: "fetch_fn R kind x s = secret_fetch R kind x s"
  by (cases kind) (simp_all add: item_fns)

text \<open>The buyer holds a token the shop has issued to the buyer's address for the item.\<close>

definition paid_for :: "'s redis \<Rightarrow> crypto \<Rightarrow> string \<Rightarrow> string option \<Rightarrow> string \<Rightarrow> 's \<Rightarrow> bool" where
  "paid_for R C x token fp s \<longleftrightarrow>
     (\<exists>t. token = Some t \<and> t \<noteq> '''' \<and>
        Text (sha256_hex C t @ '':'' @ fp) \<in> cell_members (look R s (secret_payment_token_key x)))"

lemma paid_for_iff:
  "paid_for R C x token fp s \<longleftrightarrow>
     truthy token \<and> validate_secret_payment_token R C x (the token) fp s"
  by (cases token) (auto simp: paid_for_def validate_secret_payment_token_def SISMEMBER_def)

context redis_server
begin

lemma peek_same: "look R s' (secret_key k x) = look R s (secret_key k x) \<Longrightarrow> secret_peek R k x s' = secret_peek R k x s"
  by (simp add: peek_value secret_fetch_value)

lemma fetch_item:
  assumes "secret_peek R kind x s = Inr (Some d)"
  shows "fetch_secret_or_file R C kind x token fp s =
    (if secret_is_paid d \<and> \<not> paid_for R C x token fp s
     then (Inr (Some (Payment_Required (s_price_cents d) (s_currency d) (s_title d))), s)
     else (Inr (Some (Content (s_message d))), snd (secret_fetch R kind x s)))"
proof -
  obtain s1 where f: "secret_fetch R kind x s = (Inr (Some d), s1)"
    using assms by (metis peek_value prod.collapse)
  then show ?thesis
    using assms by (simp add: fetch_secret_or_file_def peek_fn_eq fetch_fn_eq paid_for_iff)
qed

lemma store_token_members:
  assumes "is_set (look R s (secret_payment_token_key x))" and "0 < t"
  shows "cell_members (look R (store_secret_payment_token R x h t fp s) (secret_payment_token_key x)) =
    insert (Text (h @ '':'' @ fp)) (cell_members (look R s (secret_payment_token_key x)))"
  using assms by (simp add: store_secret_payment_token_def Let_def)

lemma claim_stored_token:
  assumes "fernet C"
    and "look R s (secret_checkout_token_key x cs) = Some (RStr (Text (encrypt_token C tok)), t)"
  shows "claim_secret_checkout_token R C x cs s =
    (Inr (Some tok), snd (GETDEL R (secret_checkout_token_key x cs) s))"
proof -
  obtain o1 s1 where g: "GETDEL R (secret_checkout_token_key x cs) s = (o1, s1)" by fastforce
  then have "o1 = Some (Text (encrypt_token C tok))"
    using value_GETDEL [of "secret_checkout_token_key x cs" s] assms(2) by simp
  with g show ?thesis
    using fernet.decrypt_encrypt_token [OF assms(1), of tok]
    by (simp add: claim_secret_checkout_token_def)
qed

lemma secret_checkout_effect:
  assumes peek: "secret_peek R kind x s = Inr (Some d)"
    and set: "is_set (look R s (secret_payment_token_key x))"
    and co: "create_secret_checkout R C cfg E tok x kind fp s = (Inr (Some c), s1)"
  shows "secret_is_paid d"
    and "look R s1 (secret_checkout_token_key x (checkout_id c)) = Some (RStr (Text (encrypt_token C tok)), Some 900)"
    and "Text (sha256_hex C tok @ '':'' @ fp) \<in> cell_members (look R s1 (secret_payment_token_key x))"
    and "slug_ok y \<Longrightarrow> look R s1 (secret_key k' y) = look R s (secret_key k' y)"
proof -
  define s0 where "s0 = store_secret_payment_token R x (sha256_hex C tok) (TTL R (secret_key kind x) s) fp s"
  have paid: "secret_is_paid d" and ttl: "0 < TTL R (secret_key kind x) s"
    and s1: "s1 = store_secret_checkout_payment_token R C x (checkout_id c) tok s0"
    using co peek
    by (auto simp: create_secret_checkout_def peek_fn_eq Let_def s0_def split: if_splits option.splits sum.splits)
  show "secret_is_paid d" by (rule paid)
  show "look R s1 (secret_checkout_token_key x (checkout_id c)) = Some (RStr (Text (encrypt_token C tok)), Some 900)"
    by (simp add: s1 checkout_secret_look)
  show "Text (sha256_hex C tok @ '':'' @ fp) \<in> cell_members (look R s1 (secret_payment_token_key x))"
    using store_token_members [OF set ttl] by (simp add: s1 checkout_secret_look s0_def)
  show "look R s1 (secret_key k' y) = look R s (secret_key k' y)" if "slug_ok y"
    using that pay_secret_look(1) [OF set, of "secret_key k' y"] by (simp add: s1 checkout_secret_look s0_def)
qed

lemma claim_releases:
  assumes "fernet C" and ok: "slug_ok x" and peek: "secret_peek R kind x s1 = Inr (Some d)" and "tok \<noteq> ''''"
    and "look R s1 (secret_checkout_token_key x sid) = Some (RStr (Text (encrypt_token C tok)), t)"
    and "Text (sha256_hex C tok @ '':'' @ fp) \<in> cell_members (look R s1 (secret_payment_token_key x))"
    and claim: "claim_secret_checkout_action R C x sid kind s1 = (r, s2)"
  shows "r = Inr (Some tok)"
    and "fst (fetch_secret_or_file R C kind x (Some tok) fp s2) = Inr (Some (Content (s_message d)))"
proof -
  have cl: "(r, s2) = (Inr (Some tok), snd (GETDEL R (secret_checkout_token_key x sid) s1))"
    unfolding claim [symmetric] claim_secret_checkout_action_def peek_fn_eq peek
    by (simp add: claim_stored_token [OF assms(1,5)])
  then show "r = Inr (Some tok)" by simp
  have s2: "look R s2 q = (if q = secret_checkout_token_key x sid then None else look R s1 q)" for q
    using cl by (simp add: look_GETDEL)
  have "secret_peek R kind x s2 = Inr (Some d)"
    unfolding peek [symmetric] by (rule peek_same) (simp add: s2 ok)
  moreover have "paid_for R C x (Some tok) fp s2" using assms(4,6) by (simp add: paid_for_def s2)
  ultimately show "fst (fetch_secret_or_file R C kind x (Some tok) fp s2) = Inr (Some (Content (s_message d)))"
    by (simp add: fetch_item)
qed

end

subsection \<open>Properties\<close>

text \<open>
  Property C18: the content of a paid item is handed out exactly to a buyer who presents a token
  issued for this item and the buyer's own address, and is deleted then; everyone else gets the
  price, and the store is as before. A free item is handed out to the first reader.
\<close>

theorem paid_content_needs_token:
  assumes "redis_server R" and "secret_peek R kind x s = Inr (Some d)"
    and "fetch_secret_or_file R C kind x token fp s = (r, s')"
  shows "(r = Inr (Some (Content (s_message d))) \<longleftrightarrow> \<not> secret_is_paid d \<or> paid_for R C x token fp s) \<and>
    (r = Inr (Some (Content (s_message d))) \<longrightarrow> secret_peek R kind x s' = Inr None) \<and>
    (r \<noteq> Inr (Some (Content (s_message d))) \<longrightarrow>
      r = Inr (Some (Payment_Required (s_price_cents d) (s_currency d) (s_title d))) \<and> s' = s)"
proof (intro conjI)
  note f = redis_server.fetch_item [OF assms(1,2), of C token fp]
  show "r = Inr (Some (Content (s_message d))) \<longleftrightarrow> \<not> secret_is_paid d \<or> paid_for R C x token fp s"
    and "r \<noteq> Inr (Some (Content (s_message d))) \<longrightarrow>
      r = Inr (Some (Payment_Required (s_price_cents d) (s_currency d) (s_title d))) \<and> s' = s"
    using f assms(3) by (auto split: if_splits)
  show "r = Inr (Some (Content (s_message d))) \<longrightarrow> secret_peek R kind x s' = Inr None"
    using f assms(3)
    by (auto simp: redis_server.peek_value [OF assms(1)] redis_server.secret_fetch_value [OF assms(1)]
        redis_server.secret_fetch_look [OF assms(1)] redis_server.parse_secret_reply_None [OF assms(1)] split: if_splits)
qed

definition sold_secret :: secret_data where
  "sold_secret = \<lparr>s_message = ''msg'', s_price_cents = Some 5000, s_currency = ''usd'', s_title = None,
     s_workspace_id = Some ''w1'', s_seller_stripe_id = Some ''acct''\<rparr>"

definition sold_store :: store where
  "sold_store = create_item ref_redis Secret_Kind ''x1'' ('''', '''') 3600 sold_secret empty_store"

lemma sold_peek: "secret_peek ref_redis Secret_Kind ''x1'' sold_store = Inr (Some sold_secret)"
  by code_simp

theorem paid_content_needs_token_witness:
  "fst (fetch_secret_or_file ref_redis ref_crypto Secret_Kind ''x1'' (Some ''t'') ''ip'' sold_store) =
     Inr (Some (Payment_Required (Some 5000) ''usd'' None))"
proof -
  let ?f = "fetch_secret_or_file ref_redis ref_crypto Secret_Kind ''x1'' (Some ''t'') ''ip'' sold_store"
  have no: "\<not> paid_for ref_redis ref_crypto ''x1'' (Some ''t'') ''ip'' sold_store" "secret_is_paid sold_secret"
    unfolding paid_for_iff by code_simp+
  then show ?thesis
    using paid_content_needs_token [OF reference_server sold_peek, of ref_crypto "Some ''t''" "''ip''"
        "fst ?f" "snd ?f"]
    by (auto simp: sold_secret_def)
qed

text \<open>
  Property C19: the claim of a secret's checkout does not ask Stripe: whoever started a checkout of
  a paid item gets the payment token by claiming the session id the checkout answered, and the
  content with it, whether or not anything was paid. The claim of a channel asks (below).
\<close>

theorem secret_claim_ignores_payment:
  assumes "redis_server R" and "fernet C" and "slug_ok x" and "tok \<noteq> ''''"
    and "secret_peek R kind x s = Inr (Some d)" and "is_set (look R s (secret_payment_token_key x))"
    and "create_secret_checkout R C cfg E tok x kind fp s = (Inr (Some c), s1)"
    and "claim_secret_checkout_action R C x (checkout_id c) kind s1 = (r2, s2)"
    and "fetch_secret_or_file R C kind x (Some tok) fp s2 = (r3, s3)"
  shows "secret_is_paid d \<and> r2 = Inr (Some tok) \<and> r3 = Inr (Some (Content (s_message d)))"
proof (intro conjI)
  note e = redis_server.secret_checkout_effect [OF assms(1,5,6,7)]
  show "secret_is_paid d" by (rule e(1))
  have "secret_peek R kind x s1 = Inr (Some d)"
    using redis_server.peek_same [OF assms(1) e(4) [OF assms(3)]] assms(5) by simp
  note cl = redis_server.claim_releases [OF assms(1,2,3) this assms(4) e(2,3) assms(8)]
  show "r2 = Inr (Some tok)" by (rule cl(1))
  show "r3 = Inr (Some (Content (s_message d)))" using cl(2) assms(9) by simp
qed

lemma slug_x1: "slug_ok ''x1''"
  by code_simp

theorem secret_claim_ignores_payment_witness:
  "fst (fetch_secret_or_file ref_redis ref_crypto Secret_Kind ''x1'' (Some ''t'') ''ip''
     (snd (claim_secret_checkout_action ref_redis ref_crypto ''x1'' ''cs_1'' Secret_Kind
       (snd (create_secret_checkout ref_redis ref_crypto default_settings quiet_env ''t'' ''x1'' Secret_Kind ''ip'' sold_store))))) =
   Inr (Some (Content ''msg''))"
proof -
  let ?c = "\<lparr>checkout_url = ''https://pay'', checkout_id = ''cs_1''\<rparr>"
  let ?co = "create_secret_checkout ref_redis ref_crypto default_settings quiet_env ''t'' ''x1'' Secret_Kind ''ip'' sold_store"
  have ttl: "TTL ref_redis (secret_key Secret_Kind ''x1'') sold_store = 3600"
    and set: "is_set (look ref_redis sold_store (secret_payment_token_key ''x1''))"
    by code_simp+
  then have co: "fst ?co = Inr (Some ?c)"
    by (simp add: create_secret_checkout_def peek_fn_eq sold_peek secret_is_paid_def sold_secret_def quiet_env_def str_or_def truthy_def Let_def)
  show ?thesis
    using secret_claim_ignores_payment [OF reference_server reference_fernet.fernet_axioms slug_x1 _ sold_peek set,
        of "''t''" default_settings quiet_env "''ip''" ?c "snd ?co"] co
    by (simp add: prod_eq_iff sold_secret_def)
qed

text \<open>
  A paid file cannot be bought. The only checkout endpoint looks its id up among the
  text secrets; as no text secret has the file's id, it answers 404 (or the refusal of the rate
  limiter) and no item changes, so no payment token for the file is ever issued.
\<close>

theorem paid_file_cannot_be_bought:
  assumes "redis_server R" and "redis_ops A = R" and "rates_typed R s"
    and "secret_peek R File_Kind x s = Inr (Some d)" and "secret_peek R Secret_Kind x s = Inr None"
    and "secret_checkout_endpoint A D h x (s, pg) = (r, (s', pg'))"
  shows "(\<exists>status m. r = Inl (HTTPException status m) \<and> status \<in> {404, 429, 503}) \<and>
    secret_peek R kind y s' = secret_peek R kind y s \<and>
    cell_members (look R s' (secret_payment_token_key x)) = cell_members (look R s (secret_payment_token_key x))"
proof (intro conjI)
  define g where "g = guard_rate A h ''checkout'' CHANNEL_ACTION_RATE default_detail s"
  have same: "look R (snd g) k = look R s k" if "k \<noteq> rate_key (app_crypto A) ''checkout'' (client_ip A h)" for k
    unfolding g_def by (rule redis_server.guard_rate_look [OF assms(1-3) _ that]) (simp add: CHANNEL_ACTION_RATE_def)
  have peek: "secret_peek R kind y (snd g) = secret_peek R kind y s" for kind y
    by (rule redis_server.peek_same [OF assms(1)]) (simp add: same)
  have out: "(\<exists>status m. r = Inl (HTTPException status m) \<and> status \<in> {404, 429, 503}) \<and> s' = snd g"
  proof (cases "fst g")
    case (Inl e)
    then have "r = Inl e \<and> s' = snd g"
      using assms(6) by (auto simp: secret_checkout_endpoint_def guarded_def g_def split: prod.splits)
    then show ?thesis using guard_rate_error [of A h "''checkout''" CHANNEL_ACTION_RATE default_detail s e] Inl
      by (auto simp: g_def prod_eq_iff)
  next
    case (Inr u)
    then have "r = Inl (HTTPException 404 ''Secret not found'') \<and> s' = snd g"
      using assms(2,5,6) peek [of Secret_Kind x]
      by (auto simp: secret_checkout_endpoint_def guarded_def g_def or_not_found_def map_error_def
          create_secret_checkout_def peek_fn_eq split: prod.splits)
    then show ?thesis by simp
  qed
  then show "\<exists>status m. r = Inl (HTTPException status m) \<and> status \<in> {404, 429, 503}" by simp
  show "secret_peek R kind y s' = secret_peek R kind y s" using out peek by simp
  show "cell_members (look R s' (secret_payment_token_key x)) = cell_members (look R s (secret_payment_token_key x))"
    using out by (simp add: same)
qed

definition sold_file_store :: store where
  "sold_file_store = secret_create ref_redis File_Kind ''x1'' 3600 sold_secret empty_store"

lemma sold_file_rates: "rates_typed ref_redis sold_file_store"
  using reference.look_SETEX by (simp add: rates_typed_def sold_file_store_def secret_create_def secret_key_defs)

theorem paid_file_cannot_be_bought_witness:
  "\<exists>status m. fst (secret_checkout_endpoint sample_app sample_drawn (sample_http Anonymous) ''x1'' (sold_file_store, empty_pg)) =
     Inl (HTTPException status m) \<and> status \<in> {404, 429, 503}"
proof -
  let ?r = "secret_checkout_endpoint sample_app sample_drawn (sample_http Anonymous) ''x1'' (sold_file_store, empty_pg)"
  have f: "secret_peek ref_redis File_Kind ''x1'' sold_file_store = Inr (Some sold_secret)"
    and n: "secret_peek ref_redis Secret_Kind ''x1'' sold_file_store = Inr None"
    by code_simp+
  show ?thesis
    by (rule conjunct1 [OF paid_file_cannot_be_bought [OF reference_server _ sold_file_rates f n,
        of sample_app sample_drawn "sample_http Anonymous" empty_pg _ "fst (snd ?r)" "snd (snd ?r)"]])
      (simp_all add: sample_app_def)
qed

end
