(* ===== verification/Channel_Sales.thy ===== *)
theory Channel_Sales
  imports Sharing_Guards Channel_Runs Pg_Sessions Pg_Listing
begin

section \<open>Selling channels\<close>

text \<open>
  How a paid channel is sold: what a checkout charges and stores, whose card it may charge, and when
  the claim of a payment token asks Stripe.
\<close>

subsection \<open>The course of a checkout\<close>

lemma direct_card_Some:
  assumes "direct_card pmid buyer True pg = Inr (Some (pm, cu))"
  obtains i u where "pmid = Some i" and "payment_method_get i pg = Inr (Some pm)"
    and "buyer = Some (k_customer_id pm)" and "customer_by_id (k_customer_id pm) pg = Inr (Some u)"
    and "u_stripe_customer_id u = Some cu"
  using assms
  by (auto simp: direct_card_def bind_sum_def truthy_def split: option.splits sum.splits if_splits)

lemma direct_card_no_pg [simp]: "direct_card pmid buyer False pg = Inr None"
  by (auto simp: direct_card_def split: option.splits)

text \<open>What Stripe was asked for, for either way to pay, and where the token went.\<close>

lemma pay_by_redirect_Some:
  assumes "pay_by_redirect R C E uid tok c price cur fee fp pgs (s, pg) = (Inr (Some r), (s', pg'))"
  obtains q sid url where "stripe_session E q = Inr (sid, url)" and "q_price q = price" and "q_currency q = cur"
    and "q_fee q = fee" and "q_account q = the (seller_stripe_id c)"
    and "r = Redirect \<lparr>checkout_url = str_or url '''', checkout_id = sid\<rparr>"
    and "s' = store_checkout_payment_token R C (short_slug c) sid tok s"
  using assms
  by (fastforce simp: pay_by_redirect_def Let_def split: sum.splits prod.splits if_splits)

lemma pay_with_card_Some:
  assumes "pay_with_card R C E uid tok c price cur fee fp pm cu (s, pg) = (Inr (Some r), (s', pg'))"
  obtains q i cs st where "stripe_intent E q = Inr (i, cs, st)" and "i_amount q = price" and "i_currency q = cur"
    and "i_fee q = fee" and "i_account q = the (seller_stripe_id c)"
    and "i_customer q = cu" and "i_payment_method q = k_processor_id pm"
    and "r = Direct_Payment (str_or cs '''') i (st = ''requires_action'')"
    and "s' = store_checkout_payment_token R C (short_slug c) i tok s"
  using assms
  by (fastforce simp: pay_with_card_def Let_def split: sum.splits prod.splits)

lemma create_checkout_Some:
  assumes "create_checkout R C cfg E uid tok slug pgs fp pmid buyer (s, pg) = (Inr (Some r), (s', pg'))"
  obtains c redis_price price cur s1 where "fetch_channel R slug s = Some c" and "is_paid c"
    and "truthy (seller_stripe_id c)" and "price_cents c = Some redis_price"
    and "validate_channel_price pgs c redis_price pg = Inr (price, cur)"
    and "0 < TTL R (channel_key (short_slug c)) s"
    and "s1 = store_payment_token R (short_slug c) (sha256_hex C tok) (TTL R (channel_key (short_slug c)) s) fp s"
    and "direct_card pmid buyer pgs pg = Inr None \<and>
           pay_by_redirect R C E uid tok c price cur (platform_fee cfg price) fp pgs (s1, pg) = (Inr (Some r), (s', pg')) \<or>
         (\<exists>pm cu. direct_card pmid buyer pgs pg = Inr (Some (pm, cu)) \<and>
           pay_with_card R C E uid tok c price cur (platform_fee cfg price) fp pm cu (s1, pg) = (Inr (Some r), (s', pg')))"
proof -
  obtain c where c: "fetch_channel R slug s = Some c" "is_paid c" "truthy (seller_stripe_id c)"
    using assms by (auto simp: create_checkout_def Let_def split: option.splits if_splits)
  obtain p where p: "price_cents c = Some p"
    using assms c by (auto simp: create_checkout_def Let_def split: option.splits if_splits)
  obtain price cur where v: "validate_channel_price pgs c p pg = Inr (price, cur)"
    using assms c p by (auto simp: create_checkout_def Let_def split: sum.splits if_splits)
  define s1 where "s1 = store_payment_token R (short_slug c) (sha256_hex C tok) (TTL R (channel_key (short_slug c)) s) fp s"
  have ttl: "0 < TTL R (channel_key (short_slug c)) s"
    using assms c p v by (auto simp: create_checkout_def Let_def split: if_splits)
  show thesis
  proof (rule that [OF c p v ttl s1_def])
    show "direct_card pmid buyer pgs pg = Inr None \<and>
           pay_by_redirect R C E uid tok c price cur (platform_fee cfg price) fp pgs (s1, pg) = (Inr (Some r), (s', pg')) \<or>
         (\<exists>pm cu. direct_card pmid buyer pgs pg = Inr (Some (pm, cu)) \<and>
           pay_with_card R C E uid tok c price cur (platform_fee cfg price) fp pm cu (s1, pg) = (Inr (Some r), (s', pg')))"
      using assms c p v ttl
      by (cases "direct_card pmid buyer pgs pg")
        (auto simp: create_checkout_def Let_def s1_def split: option.splits)
  qed
qed

subsection \<open>Properties\<close>

text \<open>
  Property C20: what a channel checkout charges. A checkout that is answered asked Stripe, on the
  seller's account of the channel, for exactly the price and currency of the audit trail where it
  has them and of the channel else, with the platform fee of that price; the fee lies between
  nothing and the price.
\<close>

theorem channel_checkout_charges:
  assumes "create_checkout R C cfg E uid tok slug pgs fp pmid buyer (s, pg) = (Inr (Some r), (s', pg'))"
  shows "\<exists>c p price cur.
    fetch_channel R slug s = Some c \<and> is_paid c \<and> price_cents c = Some p \<and>
    validate_channel_price pgs c p pg = Inr (price, cur) \<and>
    (\<forall>fs fp. pgs \<and> get_by_short_slug (short_slug c) pg = Inr (Some fs) \<and> f_price_cents fs = Some fp \<longrightarrow>
       price = fp \<and> cur = f_currency fs) \<and>
    (case r of
       Redirect co \<Rightarrow> (\<exists>q url. stripe_session E q = Inr (checkout_id co, url) \<and> q_price q = price \<and>
         q_currency q = cur \<and> q_fee q = platform_fee cfg price \<and> q_account q = the (seller_stripe_id c))
     | Direct_Payment cs i act \<Rightarrow> (\<exists>q cs st. stripe_intent E q = Inr (i, cs, st) \<and> i_amount q = price \<and>
         i_currency q = cur \<and> i_fee q = platform_fee cfg price \<and> i_account q = the (seller_stripe_id c))) \<and>
    (0 \<le> price \<and> 0 \<le> PLATFORM_FEE_PERCENT cfg \<and> PLATFORM_FEE_PERCENT cfg \<le> 10000 \<longrightarrow>
       0 \<le> platform_fee cfg price \<and> platform_fee cfg price \<le> price)"
proof -
  obtain c p price cur s1 where c: "fetch_channel R slug s = Some c" "is_paid c" "price_cents c = Some p"
    and v: "validate_channel_price pgs c p pg = Inr (price, cur)"
    and pay: "direct_card pmid buyer pgs pg = Inr None \<and>
           pay_by_redirect R C E uid tok c price cur (platform_fee cfg price) fp pgs (s1, pg) = (Inr (Some r), (s', pg')) \<or>
         (\<exists>pm cu. direct_card pmid buyer pgs pg = Inr (Some (pm, cu)) \<and>
           pay_with_card R C E uid tok c price cur (platform_fee cfg price) fp pm cu (s1, pg) = (Inr (Some r), (s', pg')))"
    using assms by (rule create_checkout_Some)
  have ask: "case r of
       Redirect co \<Rightarrow> (\<exists>q url. stripe_session E q = Inr (checkout_id co, url) \<and> q_price q = price \<and>
         q_currency q = cur \<and> q_fee q = platform_fee cfg price \<and> q_account q = the (seller_stripe_id c))
     | Direct_Payment cs i act \<Rightarrow> (\<exists>q cs st. stripe_intent E q = Inr (i, cs, st) \<and> i_amount q = price \<and>
         i_currency q = cur \<and> i_fee q = platform_fee cfg price \<and> i_account q = the (seller_stripe_id c))"
    using pay
  proof (elim disjE conjE exE)
    assume "pay_by_redirect R C E uid tok c price cur (platform_fee cfg price) fp pgs (s1, pg) = (Inr (Some r), (s', pg'))"
    then show ?thesis by (rule pay_by_redirect_Some) auto
  next
    fix pm cu
    assume "pay_with_card R C E uid tok c price cur (platform_fee cfg price) fp pm cu (s1, pg) = (Inr (Some r), (s', pg'))"
    then show ?thesis by (rule pay_with_card_Some) auto
  qed
  have audit: "\<forall>fs fp. pgs \<and> get_by_short_slug (short_slug c) pg = Inr (Some fs) \<and> f_price_cents fs = Some fp \<longrightarrow>
       price = fp \<and> cur = f_currency fs"
    using v by (auto simp: validate_channel_price_def split: if_splits)
  have fee: "0 \<le> platform_fee cfg price \<and> platform_fee cfg price \<le> price"
    if "0 \<le> price" "0 \<le> PLATFORM_FEE_PERCENT cfg" "PLATFORM_FEE_PERCENT cfg \<le> 10000"
  proof -
    have "price * PLATFORM_FEE_PERCENT cfg \<le> price * 10000" using that by (simp add: mult_left_mono)
    moreover have "0 \<le> price * PLATFORM_FEE_PERCENT cfg" using that by simp
    moreover have "0 \<le> n div 10000 \<and> n div 10000 \<le> price" if "0 \<le> n" "n \<le> price * 10000" for n :: int
      using that by arith
    ultimately show ?thesis by (simp add: platform_fee_def)
  qed
  show ?thesis
    by (intro exI [of _ c] exI [of _ p] exI [of _ price] exI [of _ cur] conjI impI c v audit ask fee) auto
qed

text \<open>
  a saved card may be charged by anyone who is logged in. The checkout reads the
  customer it compares the card's owner with from the card itself, so it answers every logged-in
  subject alike, and a direct payment charges the card of the given id at its owner's Stripe
  customer, whoever asked.
\<close>

theorem checkout_charges_any_card:
  assumes "\<not> is_anonymous_principal (hr_subject h)" and "\<not> is_anonymous_principal who"
  shows "checkout_endpoint A D (h\<lparr>hr_subject := who\<rparr>) slug pmid (s, pg) = checkout_endpoint A D h slug pmid (s, pg) \<and>
    (checkout_endpoint A D h slug pmid (s, pg) = (Inr (Direct_Payment cs i act), (s', pg')) \<longrightarrow>
      (\<exists>p pm u cu q st sec. pmid = Some p \<and> payment_method_get p pg = Inr (Some pm) \<and>
        customer_by_id (k_customer_id pm) pg = Inr (Some u) \<and> u_stripe_customer_id u = Some cu \<and>
        stripe_intent (app_env A) q = Inr (i, sec, st) \<and> i_customer q = cu \<and> i_payment_method q = k_processor_id pm))"
proof (intro conjI impI)
  have buyer: "resolve_buyer (h\<lparr>hr_subject := who\<rparr>) pmid pg = resolve_buyer h pmid pg" for pg
    using assms by (auto simp: resolve_buyer_def split: option.splits)
  have ip: "client_ip A (h\<lparr>hr_subject := who\<rparr>) = client_ip A h" by (simp add: client_ip_def)
  have on: "on_channel A (h\<lparr>hr_subject := who\<rparr>) a rate slug f = on_channel A h a rate slug f" for a rate f
    by (rule ext) (simp add: on_channel_def guard_rate_def ip)
  show "checkout_endpoint A D (h\<lparr>hr_subject := who\<rparr>) slug pmid (s, pg) = checkout_endpoint A D h slug pmid (s, pg)"
    by (simp add: checkout_endpoint_def ip_hash_def buyer ip on)
next
  assume a: "checkout_endpoint A D h slug pmid (s, pg) = (Inr (Direct_Payment cs i act), (s', pg'))"
  then obtain slug' s1 pm' buyer sp2 where r: "resolve_buyer h pmid pg = Inr (pm', buyer)"
    and co: "create_checkout (redis_ops A) (app_crypto A) (app_settings A) (app_env A) (fst (row_ids D))
              (token_urlsafe D) slug' True (ip_hash A h) pm' buyer (s1, pg) = (Inr (Some (Direct_Payment cs i act)), sp2)"
    by (auto simp: checkout_endpoint_def transactional_def on_channel_def guarded_def or_not_found_def map_error_def
        split: prod.splits sum.splits option.splits)
  obtain s2 pg2 where sp2: "sp2 = (s2, pg2)" by fastforce
  from co [unfolded sp2] obtain c price cur s3 pm cu where
    card: "direct_card pm' buyer True pg = Inr (Some (pm, cu))" and
    pay: "pay_with_card (redis_ops A) (app_crypto A) (app_env A) (fst (row_ids D)) (token_urlsafe D) c price cur
       (platform_fee (app_settings A) price) (ip_hash A h) pm cu (s3, pg) = (Inr (Some (Direct_Payment cs i act)), (s2, pg2))"
    by (elim create_checkout_Some disjE conjE exE) (auto elim: pay_by_redirect_Some)
  from card obtain p u where p: "pm' = Some p" "payment_method_get p pg = Inr (Some pm)"
      "customer_by_id (k_customer_id pm) pg = Inr (Some u)" "u_stripe_customer_id u = Some cu"
    by (rule direct_card_Some)
  from pay obtain q sec st where q: "stripe_intent (app_env A) q = Inr (i, sec, st)" "i_customer q = cu"
      "i_payment_method q = k_processor_id pm"
    by (rule pay_with_card_Some) auto
  have "pmid = Some p" using r p(1) by (auto simp: resolve_buyer_def bind_sum_def split: option.splits if_splits sum.splits)
  then show "\<exists>p pm u cu q st sec. pmid = Some p \<and> payment_method_get p pg = Inr (Some pm) \<and>
        customer_by_id (k_customer_id pm) pg = Inr (Some u) \<and> u_stripe_customer_id u = Some cu \<and>
        stripe_intent (app_env A) q = Inr (i, sec, st) \<and> i_customer q = cu \<and> i_payment_method q = k_processor_id pm"
    using p q by blast
qed

context redis_server
begin

lemma checkout_effect:
  assumes c: "fetch_channel R slug s = Some c" and set: "is_set (look R s (payment_token_key (short_slug c)))"
    and co: "create_checkout R C cfg E uid tok slug pgs fp pmid buyer (s, pg) = (Inr (Some r), (s', pg'))"
    and i: "i = (case r of Redirect co \<Rightarrow> checkout_id co | Direct_Payment cs i act \<Rightarrow> i)"
  shows "look R s' (checkout_token_key (short_slug c) i) = Some (RStr (Text (encrypt_token C tok)), Some 900)"
    and "Text (sha256_hex C tok @ '':'' @ fp) \<in> cell_members (look R s' (payment_token_key (short_slug c)))"
    and "slug_ok y \<Longrightarrow> fetch_channel R y s' = fetch_channel R y s"
    and "truthy (seller_stripe_id c)"
proof -
  obtain s1 where sel: "truthy (seller_stripe_id c)" and ttl: "0 < TTL R (channel_key (short_slug c)) s"
    and s1: "s1 = store_payment_token R (short_slug c) (sha256_hex C tok) (TTL R (channel_key (short_slug c)) s) fp s"
    and s': "s' = store_checkout_payment_token R C (short_slug c) i tok s1"
    using co i c
    by (elim create_checkout_Some disjE conjE exE) (auto elim!: pay_by_redirect_Some pay_with_card_Some)
  have l: "look R s' k = (if k = checkout_token_key (short_slug c) i then Some (RStr (Text (encrypt_token C tok)), Some 900)
      else look R s1 k)" for k
    by (simp add: s' store_checkout_payment_token_def CHECKOUT_TOKEN_TTL_def)
  note l1 = store_payment_token_look [OF set, of "sha256_hex C tok" "TTL R (channel_key (short_slug c)) s" fp, folded s1]
  show "look R s' (checkout_token_key (short_slug c) i) = Some (RStr (Text (encrypt_token C tok)), Some 900)"
    by (simp add: l)
  show "Text (sha256_hex C tok @ '':'' @ fp) \<in> cell_members (look R s' (payment_token_key (short_slug c)))"
    using ttl by (simp add: l l1 reexpire_def bound_value_def)
  show "fetch_channel R y s' = fetch_channel R y s" if "slug_ok y"
    using that by (simp add: fetch_channel_look l l1)
  show "truthy (seller_stripe_id c)" by (rule sel)
qed

lemma claim_checkout_stored:
  assumes "fernet C"
    and "look R s (checkout_token_key y cs) = Some (RStr (Text (encrypt_token C tok)), t)"
  shows "claim_checkout_payment_token R C y cs s = (Inr (Some tok), snd (GETDEL R (checkout_token_key y cs) s))"
proof -
  obtain o1 s1 where g: "GETDEL R (checkout_token_key y cs) s = (o1, s1)" by fastforce
  then have "o1 = Some (Text (encrypt_token C tok))"
    using value_GETDEL [of "checkout_token_key y cs" s] assms(2) by simp
  with g show ?thesis
    using fernet.decrypt_encrypt_token [OF assms(1), of tok]
    by (simp add: claim_checkout_payment_token_def payload_text_def)
qed

end

text \<open>
  The claim of a channel's payment token asks Stripe. A token is handed out only when
  Stripe reports the checkout session as paid or cannot be asked; any other answer of Stripe
  yields nothing and changes nothing, so the buyer can claim again after paying.
\<close>

theorem channel_claim_asks_stripe:
  assumes "fetch_channel R slug s = Some c" and "truthy (seller_stripe_id c)"
    and "claim_checkout_action R C E slug cs s = (r, s')"
  shows "(r = Inr (Some tok) \<longrightarrow> stripe_payment_status E (the (seller_stripe_id c)) cs \<in> {Inr ''paid'', Inl StripeError}) \<and>
    (\<forall>status. stripe_payment_status E (the (seller_stripe_id c)) cs = Inr status \<and> status \<noteq> ''paid'' \<longrightarrow>
       r = Inr None \<and> s' = s)"
  using assms by (auto simp: claim_checkout_action_def split: sum.splits if_splits)

text \<open>
  A direct card payment is never verified. Its token is stored under the id of the
  payment intent; asked for a checkout session of that id, Stripe fails, and the claim then
  releases the token, which opens the channel, whatever the payment intent still needs.
\<close>

theorem direct_payment_not_verified:
  assumes "redis_server R" and "fernet C" and "slug_ok (short_slug c)" and "tok \<noteq> ''''"
    and "fetch_channel R slug s = Some c" and "fetch_channel R (short_slug c) s = Some c"
    and "is_set (look R s (payment_token_key (short_slug c)))"
    and "create_checkout R C cfg E uid tok slug pgs fp pmid buyer (s, pg) = (Inr (Some (Direct_Payment cs i act)), (s1, pg1))"
    and "stripe_payment_status E (the (seller_stripe_id c)) i = Inl StripeError"
    and "claim_checkout_action R C E (short_slug c) i s1 = (r, s2)"
  shows "r = Inr (Some tok) \<and> validate_payment_token R C (short_slug c) tok (Some c) fp s2"
proof (intro conjI)
  note e = redis_server.checkout_effect [OF assms(1,5,7,8) refl, simplified]
  have cl: "(r, s2) = (Inr (Some tok), snd (GETDEL R (checkout_token_key (short_slug c) i) s1))"
    unfolding assms(10) [symmetric] claim_checkout_action_def
    using e(3) [OF assms(3)] assms(6,9) e(4)
    by (simp add: redis_server.claim_checkout_stored [OF assms(1,2) e(1)])
  then show "r = Inr (Some tok)" by simp
  have "look R s2 (payment_token_key (short_slug c)) = look R s1 (payment_token_key (short_slug c))"
    using cl redis_server.look_GETDEL [OF assms(1)] by simp
  then show "validate_payment_token R C (short_slug c) tok (Some c) fp s2"
    using e(2) assms(4) by (simp add: validate_payment_token_def given_or_fetched_def SISMEMBER_def bound_value_def)
qed

subsection \<open>Examples\<close>

text \<open>
  A channel for 10.00 whose audit trail says 20.00, and a saved card of the customer \<open>u9\<close>.
\<close>

definition paid_channel :: channel_data where
  "paid_channel = new_channel ref_crypto 0
     (default_args\<lparr>a_price_cents := Some 1000, a_seller_stripe_id := Some ''acct''\<rparr>)
     ''5f-0a'' ''ham/olive'' ''deadbeef''"

definition paid_store :: store where
  "paid_store = store_channel ref_redis paid_channel 3600 empty_store"

definition paid_pg :: pg where
  "paid_pg = empty_pg\<lparr>
     pg_sessions := [(sample_session ''s1'' ''5f-0a'' ''ham/olive'')\<lparr>f_price_cents := Some 2000\<rparr>],
     pg_cards := [\<lparr>k_id = ''k1'', k_customer_id = ''u9'', k_processor_id = ''pm_1'', k_deleted_at = None\<rparr>],
     pg_customers := [\<lparr>u_id = ''u9'', u_stripe_customer_id = Some ''cus_9'', u_deleted_at = None\<rparr>]\<rparr>"

lemma paid_fetch:
  "fetch_channel ref_redis ''5f-0a'' paid_store = Some paid_channel"
  "TTL ref_redis (channel_key ''5f-0a'') paid_store = 3600"
  "is_set (look ref_redis paid_store (payment_token_key ''5f-0a''))"
  by code_simp+

lemma paid_fields [simp]: "short_slug paid_channel = ''5f-0a''" "price_cents paid_channel = Some 1000"
  "seller_stripe_id paid_channel = Some ''acct''" "is_paid paid_channel"
  by code_simp+

lemma paid_audit:
  "validate_channel_price True paid_channel 1000 paid_pg = Inr (2000, ''usd'')"
  "direct_card (Some ''k1'') (Some ''u9'') True paid_pg =
     Inr (Some (\<lparr>k_id = ''k1'', k_customer_id = ''u9'', k_processor_id = ''pm_1'', k_deleted_at = None\<rparr>, ''cus_9''))"
  by code_simp+

lemma paid_direct:
  assumes "fetch_channel ref_redis ''5f-0a'' s = Some paid_channel" and "TTL ref_redis (channel_key ''5f-0a'') s = 3600"
  shows "fst (create_checkout ref_redis ref_crypto default_settings quiet_env ''y1'' ''t'' ''5f-0a'' True fp
     (Some ''k1'') (Some ''u9'') (s, paid_pg)) = Inr (Some (Direct_Payment ''sec'' ''pi_1'' True))"
proof -
  let ?p = "pg_create_payment ''y1'' ''5f-0a'' 2000 ''usd'' (platform_fee default_settings 2000) None (Some ''pi_1'')
      (Some ''k1'') paid_pg"
  have "fst ?p = Inr ()" by code_simp
  then obtain pg' where "?p = (Inr (), pg')" by (metis prod.collapse)
  then show ?thesis
    by (simp add: create_checkout_def assms paid_audit pay_with_card_def quiet_env_def str_or_def truthy_def Let_def)
qed

theorem channel_checkout_charges_witness:
  "\<exists>q cs st. stripe_intent quiet_env q = Inr (''pi_1'', cs, st) \<and> i_amount q = 2000 \<and> i_currency q = ''usd'' \<and>
     i_fee q = platform_fee default_settings 2000 \<and> i_account q = ''acct''"
proof -
  let ?r = "create_checkout ref_redis ref_crypto default_settings quiet_env ''y1'' ''t'' ''5f-0a'' True ''ip''
     (Some ''k1'') (Some ''u9'') (paid_store, paid_pg)"
  have "?r = (Inr (Some (Direct_Payment ''sec'' ''pi_1'' True)), (fst (snd ?r), snd (snd ?r)))"
    using paid_direct [OF paid_fetch(1,2), of "''ip''"] by (metis prod.collapse)
  from channel_checkout_charges [OF this] paid_fetch(1) paid_audit(1) show ?thesis by auto
qed

lemma paid_guarded:
  fixes h :: http_request
  defines "g \<equiv> guard_rate sample_app h ''checkout'' CHANNEL_ACTION_RATE default_detail paid_store"
  shows "fetch_channel ref_redis ''5f-0a'' (snd g) = Some paid_channel"
    and "TTL ref_redis (channel_key ''5f-0a'') (snd g) = 3600" and "fst g = Inr ()"
proof -
  have none: "look ref_redis paid_store (''file-sharing:rate:'' @ x) = None" for x
    using reference.look_SETEX
    by (simp add: paid_store_def store_channel_def Let_def channel_key_def pending_token_key_def)
  have look: "look ref_redis (snd g) (channel_key ''5f-0a'') = look ref_redis paid_store (channel_key ''5f-0a'')"
    unfolding g_def
    by (rule reference.guard_rate_look)
      (simp_all add: sample_app_def rates_typed_def none [simplified] CHANNEL_ACTION_RATE_def rate_key_def channel_key_def)
  show "fetch_channel ref_redis ''5f-0a'' (snd g) = Some paid_channel"
    "TTL ref_redis (channel_key ''5f-0a'') (snd g) = 3600"
    using paid_fetch(1,2) look by (simp_all add: fetch_channel_def GET_def TTL_def)
  show "fst g = Inr ()"
    by (simp add: g_def guard_rate_def sample_app_def reference.check_rate_limit_result none [simplified] rate_key_def CHANNEL_ACTION_RATE_def)
qed

lemma paid_slug: "validate_slug ''5f-0a'' = Inr ''5f-0a''"
  by code_simp

theorem checkout_charges_any_card_witness:
  "(\<exists>q st sec. stripe_intent quiet_env q = Inr (''pi_1'', sec, st) \<and> i_customer q = ''cus_9'' \<and> i_payment_method q = ''pm_1'') \<and>
   fst (checkout_endpoint sample_app sample_drawn (sample_http (User ''u1'')) ''5f-0a'' (Some ''k1'') (paid_store, paid_pg)) =
   fst (checkout_endpoint sample_app sample_drawn (sample_http (User ''u2'')) ''5f-0a'' (Some ''k1'') (paid_store, paid_pg))"
proof -
  define h where "h = sample_http (User ''u1'')"
  let ?d = "sample_drawn\<lparr>row_ids := (''y1'', ''y2'')\<rparr>"
  let ?r = "checkout_endpoint sample_app ?d h ''5f-0a'' (Some ''k1'') (paid_store, paid_pg)"
  obtain s1 where g: "guard_rate sample_app h ''checkout'' CHANNEL_ACTION_RATE default_detail paid_store = (Inr (), s1)"
    using paid_guarded(3) [of h] by (metis prod.collapse)
  have s1: "fetch_channel ref_redis ''5f-0a'' s1 = Some paid_channel" "TTL ref_redis (channel_key ''5f-0a'') s1 = 3600"
    using paid_guarded(1,2) [of h] by (simp_all add: g)
  have buyer: "resolve_buyer h (Some ''k1'') paid_pg = Inr (Some ''k1'', Some ''u9'')"
    unfolding h_def by code_simp
  obtain s2 pg2 where "create_checkout ref_redis ref_crypto default_settings quiet_env ''y1'' ''t'' ''5f-0a'' True
      (ip_hash sample_app h) (Some ''k1'') (Some ''u9'') (s1, paid_pg) =
      (Inr (Some (Direct_Payment ''sec'' ''pi_1'' True)), (s2, pg2))"
    using paid_direct [OF s1, of "ip_hash sample_app h"] by (metis prod.collapse)
  then have "fst ?r = Inr (Direct_Payment ''sec'' ''pi_1'' True)"
    using g buyer
    by (simp add: checkout_endpoint_def transactional_def on_channel_def guarded_def paid_slug or_not_found_def map_error_def
        sample_drawn_def sample_app_def)
  then have r: "?r = (Inr (Direct_Payment ''sec'' ''pi_1'' True), (fst (snd ?r), snd (snd ?r)))"
    by (metis prod.collapse)
  have h2: "sample_http (User ''u2'') = h\<lparr>hr_subject := User ''u2''\<rparr>" by (simp add: h_def sample_http_def)
  have logged: "\<not> is_anonymous_principal (hr_subject h)" "\<not> is_anonymous_principal (User ''u2'')"
    by (simp_all add: h_def sample_http_def)
  have card: "payment_method_get ''k1'' paid_pg =
      Inr (Some \<lparr>k_id = ''k1'', k_customer_id = ''u9'', k_processor_id = ''pm_1'', k_deleted_at = None\<rparr>)"
    "customer_by_id ''u9'' paid_pg = Inr (Some \<lparr>u_id = ''u9'', u_stripe_customer_id = Some ''cus_9'', u_deleted_at = None\<rparr>)"
    by code_simp+
  note t = checkout_charges_any_card [OF logged, of sample_app _ "''5f-0a''" "Some ''k1''" paid_store paid_pg]
  have "\<exists>q st sec. stripe_intent quiet_env q = Inr (''pi_1'', sec, st) \<and> i_customer q = ''cus_9'' \<and> i_payment_method q = ''pm_1''"
    using t [THEN conjunct2, rule_format, OF r] card by (auto simp: sample_app_def)
  then show ?thesis
    using t [THEN conjunct1, of sample_drawn] by (simp add: h2 h_def)
qed

theorem channel_claim_asks_stripe_witness:
  "claim_checkout_action ref_redis ref_crypto quiet_env ''5f-0a'' ''cs_1'' paid_store = (Inr None, paid_store)"
proof -
  let ?r = "claim_checkout_action ref_redis ref_crypto quiet_env ''5f-0a'' ''cs_1'' paid_store"
  show ?thesis
    using channel_claim_asks_stripe [OF paid_fetch(1), of ref_crypto quiet_env "''cs_1''" "fst ?r" "snd ?r"]
    by (simp add: truthy_def quiet_env_def prod_eq_iff)
qed

theorem direct_payment_not_verified_witness:
  "fst (claim_checkout_action ref_redis ref_crypto quiet_env ''5f-0a'' ''pi_1''
     (fst (snd (create_checkout ref_redis ref_crypto default_settings quiet_env ''y1'' ''t'' ''5f-0a'' True ''ip''
       (Some ''k1'') (Some ''u9'') (paid_store, paid_pg))))) = Inr (Some ''t'')"
proof -
  let ?r = "create_checkout ref_redis ref_crypto default_settings quiet_env ''y1'' ''t'' ''5f-0a'' True ''ip''
     (Some ''k1'') (Some ''u9'') (paid_store, paid_pg)"
  let ?c = "claim_checkout_action ref_redis ref_crypto quiet_env ''5f-0a'' ''pi_1'' (fst (snd ?r))"
  have r: "?r = (Inr (Some (Direct_Payment ''sec'' ''pi_1'' True)), (fst (snd ?r), snd (snd ?r)))"
    using paid_direct [OF paid_fetch(1,2), of "''ip''"] by (metis prod.collapse)
  have slug: "slug_ok ''5f-0a''" by code_simp
  show ?thesis
    using direct_payment_not_verified [OF reference_server reference_fernet.fernet_axioms _ _ paid_fetch(1) _ _ r,
        of "fst ?c" "snd ?c"] paid_fetch slug
    by (simp add: quiet_env_def)
qed

end
