(* ===== verification/Sharing_Properties.thy ===== *)
theory Sharing_Properties
  imports Channel_Sales Signaling_Rooms Secret_Lifecycle
begin

section \<open>The composed service\<close>

text \<open>
  What holds of the service functions as they combine Redis, the rooms and the audit trail: reports,
  the privacy of a new channel, the public statistics, renewals, and who sees a session.
\<close>

subsection \<open>Reports\<close>

context redis_server
begin

lemma reported_gone:
  assumes "channels_ok R s" and "slug_ok slug" and "fetch_channel R slug s = Some c"
  shows "fetch_channel R (short_slug c) (delete_channel R c s) = None"
    and "fetch_channel R (long_slug c) (delete_channel R c s) = None"
    and "fetch_channel R slug (delete_channel R c s) = None"
proof -
  show "fetch_channel R (short_slug c) (delete_channel R c s) = None"
    "fetch_channel R (long_slug c) (delete_channel R c s) = None"
    by (simp_all add: fetch_channel_look delete_channel_look delete_channel_keys_def)
  moreover have "slug \<in> {short_slug c, long_slug c}"
    using channels_okD(3) [OF assms] by simp
  ultimately show "fetch_channel R slug (delete_channel R c s) = None" by auto
qed

end

text \<open>
  Property C21: a justified report. A report with the channel's reader token deletes the channel
  under both slugs, closes its room and tells every peer in it; but as the log call passes the
  event twice, it then ends in an error: the audit trail never learns of the report, and the
  reporter is answered 500.
\<close>

theorem report_deletes_then_fails:
  assumes "redis_server R" and "room_transport T ok members fresh" and "ok rms"
    and "channels_ok R s" and "slug_ok slug" and "fetch_channel R slug s = Some c"
    and "report_authorized R C slug tok c s"
    and "\<And>kw. ''event'' \<in> fst ` set kw \<Longrightarrow> log_info E kw = Inl TypeError"
    and "report_channel_action R C E T uid slug tok ip pgs (rms, s, pg) = (r, out, (rms', s', pg'))"
  shows "r = Inl TypeError \<and> pg' = pg \<and>
    fetch_channel R slug s' = None \<and> fetch_channel R (short_slug c) s' = None \<and> fetch_channel R (long_slug c) s' = None \<and>
    members rms' (short_slug c) = Map.empty \<and> set out = dom (members rms (short_slug c)) \<times> {reported_close}"
proof -
  have log: "log_info E [(''event'', ''channel_reported''), (''short_slug'', short_slug c)] = Inl TypeError"
    by (rule assms(8)) simp
  have "r = Inl TypeError \<and> pg' = pg \<and> s' = delete_channel R c s \<and>
    rms' = snd (snd (t_close T (short_slug c) rms)) \<and> out = fst (snd (t_close T (short_slug c) rms))"
    using assms(6,7,9) log by (auto simp: report_channel_action_def Let_def split: prod.splits)
  then show ?thesis
    using redis_server.reported_gone [OF assms(1,4-6)]
      room_transport.close_members [OF assms(2,3)] room_transport.close_deliveries [OF assms(2,3)]
    by simp
qed

text \<open>A channel with the reader token \<open>rt\<close> and a host and a guest in its room.\<close>

definition guarded_store :: store where
  "guarded_store = chan_step ref_redis ref_crypto default_settings
     (Reader_Op ''5f-0a'' ''deadbeef'' (sha256_hex ref_crypto ''rt'')) sample_store"

definition busy_rooms :: manager where
  "busy_rooms = snd (t_register memory_transport 0 ''5f-0a'' \<lparr>p_id = ''h'', p_role = ''host'', p_relay_mode = False\<rparr> new_manager)"

theorem report_deletes_then_fails_witness:
  "fst (report_channel_action ref_redis ref_crypto quiet_env memory_transport ''r1'' ''ham/olive'' ''rt'' None True
     (busy_rooms, guarded_store, empty_pg)) = Inl TypeError"
proof -
  let ?r = "report_channel_action ref_redis ref_crypto quiet_env memory_transport ''r1'' ''ham/olive'' ''rt'' None True
     (busy_rooms, guarded_store, empty_pg)"
  have rooms: "manager_ok busy_rooms"
    unfolding busy_rooms_def
    by (rule memory.register_inv) (rule manager_ok_new, simp add: unused_id_def room_roles_def get_room_def new_manager_def)
  have chans: "channels_ok ref_redis guarded_store"
    unfolding guarded_store_def
    by (rule reference.reachable_ok [THEN conjunct2, OF reachable.step [OF sample_reachable]])
      (simp add: is_slug_char_def is_lower_alnum_def)
  have slug: "slug_ok ''ham/olive''" by code_simp
  have found: "fetch_channel ref_redis ''ham/olive'' guarded_store = Some sample_channel"
    "report_authorized ref_redis ref_crypto ''ham/olive'' ''rt'' sample_channel guarded_store"
    by code_simp+
  have log: "\<And>kw. ''event'' \<in> fst ` set kw \<Longrightarrow> log_info quiet_env kw = Inl TypeError"
    by (simp add: quiet_env_def)
  obtain r out rms s pg where r: "?r = (r, out, (rms, s, pg))" by (metis prod.collapse)
  from report_deletes_then_fails [OF reference_server memory.room_transport_axioms rooms chans slug found log this]
  show ?thesis by (simp add: r)
qed

subsection \<open>A new channel\<close>

lemma fetch_channel_action_eq:
  assumes "fetch_channel R slug s = Some c" and "\<not> is_pending_token R slug (Some c) s"
    and "check_download_available R slug (Some c) s"
  shows "(fetch_channel_action R C slug rt pt fp s \<noteq> None) \<longleftrightarrow>
    (if truthy rt then validate_reader_token R C slug (the rt) (Some c) s else \<not> has_reader_token R slug (Some c) s)"
  using assms by (auto simp: fetch_channel_action_def)

context redis_server
begin

lemma created_private:
  assumes "create_channel R C cfg shorts longs hex m ttl a s = (Inr (c, raw), s')"
    and "\<And>i. slug_ok (shorts i)" and "\<And>i. slug_ok (longs i)"
    and "0 < resolve_ttl cfg (a_price_cents a) ttl"
    and "slug \<in> {short_slug c, long_slug c}"
    and "look R s (reader_token_key (short_slug c)) = None" and "look R s (download_count_key (short_slug c)) = None"
  shows "fetch_channel R slug (elapse R d s') =
      (if int d < resolve_ttl cfg (a_price_cents a) ttl then Some c else None)"
    and "is_pending_token R slug (Some c) (elapse R d s') \<longleftrightarrow> d < 120"
    and "\<not> has_reader_token R slug (Some c) (elapse R d s')"
    and "check_download_available R slug (Some c) (elapse R d s') \<longleftrightarrow> 0 \<le> m \<and> (m = 0 \<or> 0 < m)"
proof -
  note cr = create_channel_look [OF assms(1-4)]
  have ok: "slug_ok (short_slug c)" "slug_ok (long_slug c)" using cr(2) assms(2,3) by auto
  show "fetch_channel R slug (elapse R d s') =
      (if int d < resolve_ttl cfg (a_price_cents a) ttl then Some c else None)"
    using assms(4,5) by (auto simp: fetch_channel_look look_elapse cr(1) channel_cell_def)
  show "is_pending_token R slug (Some c) (elapse R d s') \<longleftrightarrow> d < 120"
    using ok cr(3) by (simp add: is_pending_token_def given_or_fetched_def GET_def look_elapse cr(1))
  show "\<not> has_reader_token R slug (Some c) (elapse R d s')"
    using ok assms(6) by (simp add: has_reader_token_def given_or_fetched_def GET_def look_elapse cr(1))
  show "check_download_available R slug (Some c) (elapse R d s') \<longleftrightarrow> 0 \<le> m \<and> (m = 0 \<or> 0 < m)"
    using ok assms(7) cr(8)
    by (auto simp: check_download_available_def given_or_fetched_def GET_def look_elapse cr(1) stored_count_def)
qed

end

text \<open>
  A new channel is private for two minutes. Until its owner registers a reader token,
  no lookup finds it during the first 120 seconds, whatever token is presented, and no download
  counts; from then on to its expiry it is open to a lookup without a token, under both slugs.
\<close>

theorem new_channel_private:
  assumes "redis_server R" and "create_channel R C cfg shorts longs hex m ttl a s = (Inr (c, raw), s')"
    and "\<And>i. slug_ok (shorts i)" and "\<And>i. slug_ok (longs i)" and "0 \<le> m"
    and "0 < resolve_ttl cfg (a_price_cents a) ttl" and "slug \<in> {short_slug c, long_slug c}"
    and "look R s (reader_token_key (short_slug c)) = None" and "look R s (download_count_key (short_slug c)) = None"
  shows "if d < 120 then
      fetch_channel_action R C slug rt pt fp (elapse R d s') = None \<and>
      record_download_complete R C slug tok (elapse R d s') = ((False, 0, 0), elapse R d s')
    else (fetch_channel_action R C slug None pt fp (elapse R d s') \<noteq> None) =
      (int d < resolve_ttl cfg (a_price_cents a) ttl)"
proof -
  note p = redis_server.created_private [OF assms(1-4,6-9), of d]
  have none: "fetch_channel_action R C slug rt pt fp (elapse R d s') = None"
    if "fetch_channel R slug (elapse R d s') = None \<or> d < 120" for rt
    using that p(1,2) by (auto simp: fetch_channel_action_def split: option.splits if_splits)
  show ?thesis
  proof (cases "d < 120")
    case True
    then have "record_download_complete R C slug tok (elapse R d s') = ((False, 0, 0), elapse R d s')"
      using p(1,2) by (auto simp: record_download_complete_def split: option.splits if_splits)
    with True none show ?thesis by simp
  next
    case False
    have "fetch_channel_action R C slug None pt fp (elapse R d s') \<noteq> None"
      if "int d < resolve_ttl cfg (a_price_cents a) ttl"
    proof -
      have "check_download_available R slug (Some c) (elapse R d s')" using p(4) assms(5) by auto
      moreover have "\<not> is_pending_token R slug (Some c) (elapse R d s')" using p(2) False by simp
      moreover have "fetch_channel R slug (elapse R d s') = Some c" using p(1) that by simp
      ultimately show ?thesis using fetch_channel_action_eq [of R slug _ c C None pt fp] p(3) by simp
    qed
    moreover have "fetch_channel_action R C slug None pt fp (elapse R d s') = None"
      if "\<not> int d < resolve_ttl cfg (a_price_cents a) ttl"
      using that p(1) by (intro none) simp
    ultimately show ?thesis
      using False by (cases "int d < resolve_ttl cfg (a_price_cents a) ttl") auto
  qed
qed

theorem new_channel_private_witness:
  "fetch_channel_action ref_redis ref_crypto ''ham/olive'' (Some ''rt'') None ''ip'' (elapse ref_redis 119 sample_store) = None \<and>
   fetch_channel_action ref_redis ref_crypto ''ham/olive'' None None ''ip'' (elapse ref_redis 120 sample_store) \<noteq> None"
proof -
  have c: "create_channel ref_redis ref_crypto default_settings (\<lambda>_. ''5f-0a'') (\<lambda>_. ''ham/olive'')
     ''deadbeef'' 2 None default_args empty_store = (Inr (sample_channel, ''deadbeef''), sample_store)"
    using sample_created sample_store_eq by (metis prod.collapse)
  have ttl: "resolve_ttl default_settings (a_price_cents default_args) None = 3600"
    by (simp add: resolve_ttl_def default_args_def price_positive_def)
  note t = new_channel_private [OF reference_server c]
  show ?thesis
    using t [of "''ham/olive''" 119 "Some ''rt''" None "''ip''" "''tok''"]
      t [of "''ham/olive''" 120 None None "''ip''" "''tok''"]
    by (simp add: is_slug_char_def is_lower_alnum_def ttl)
qed

subsection \<open>The public total\<close>

lemma dispatch_sessions [simp]: "pg_sessions (dispatch a i pg) = pg_sessions pg" "pg_up (dispatch a i pg) = pg_up pg"
  by (simp_all add: dispatch_def)

lemma pg_create_session_counts:
  assumes "pg_create_session now uid short long m ttl a w h pg = (Inr (), pg')"
  shows "int (length (live_sessions pg')) = int (length (live_sessions pg)) + 1" and "pg_up pg' = pg_up pg" and "pg_up pg"
  using assms
  by (auto simp: pg_create_session_def pg_dual_write_def session_insert_def reraised_operations_def live_sessions_def
      new_fs_session_def split: prod.splits sum.splits if_splits)

lemma create_product_counts:
  assumes "create_product_for_channel uid w price cur file pg = (r, pg')"
  shows "live_sessions pg' = live_sessions pg" and "pg_up pg' = pg_up pg"
  using assms
  by (auto simp: create_product_for_channel_def live_sessions_def split: sum.splits option.splits if_splits)

definition stats_typed :: "'s redis \<Rightarrow> 's \<Rightarrow> bool" where
  "stats_typed R s \<longleftrightarrow> is_counter (look R s CHANNELS_TOTAL_KEY) \<and> is_counter (look R s STATS_KEY) \<and>
     is_counter (look R s NO_SERVER_STATS_KEY)"

lemma total_keys [simp, keys]:
  "CHANNELS_TOTAL_KEY \<noteq> STATS_KEY" "STATS_KEY \<noteq> CHANNELS_TOTAL_KEY"
  "CHANNELS_TOTAL_KEY \<noteq> NO_SERVER_STATS_KEY" "NO_SERVER_STATS_KEY \<noteq> CHANNELS_TOTAL_KEY"
  "CHANNELS_INITIALIZED_KEY \<noteq> STATS_KEY" "STATS_KEY \<noteq> CHANNELS_INITIALIZED_KEY"
  "CHANNELS_INITIALIZED_KEY \<noteq> NO_SERVER_STATS_KEY" "NO_SERVER_STATS_KEY \<noteq> CHANNELS_INITIALIZED_KEY"
  "workspace_channels_key w \<noteq> CHANNELS_TOTAL_KEY" "workspace_channels_key w \<noteq> STATS_CACHE_KEY"
  "workspace_channels_key w \<noteq> STATS_KEY" "workspace_channels_key w \<noteq> NO_SERVER_STATS_KEY"
  "workspace_channels_key w \<noteq> CHANNELS_INITIALIZED_KEY"
  "CHANNELS_TOTAL_KEY \<noteq> workspace_channels_key w" "STATS_CACHE_KEY \<noteq> workspace_channels_key w"
  "STATS_KEY \<noteq> workspace_channels_key w" "NO_SERVER_STATS_KEY \<noteq> workspace_channels_key w"
  "CHANNELS_INITIALIZED_KEY \<noteq> workspace_channels_key w"
  by (simp_all add: secret_key_defs)

lemma stats_channel_keys [simp, keys]:
  "slug_ok x \<Longrightarrow> k \<in> {CHANNELS_TOTAL_KEY, STATS_KEY, NO_SERVER_STATS_KEY, CHANNELS_INITIALIZED_KEY, STATS_CACHE_KEY} \<Longrightarrow>
    k \<noteq> channel_key x \<and> k \<noteq> pending_token_key x \<and> k \<noteq> workspace_channels_key w"
  by (auto simp: secret_key_defs channel_key_def pending_token_key_def)

context redis_server
begin

lemma read_count_cell: "is_counter (look R s k) \<Longrightarrow> read_count R k s = cell_count (look R s k)"
  by (cases "look R s k" rule: is_counter.cases) (auto simp: read_count_def GET_def)

lemma public_stats_value:
  assumes "stats_typed R s" and "get_cached_total R s = None" and "pg_up pg"
  shows "fst (get_public_stats R pg s) =
    Inr (cell_count (look R s CHANNELS_TOTAL_KEY) +
         (if channels_total_initialized R s then 0 else int (length (live_sessions pg))) +
         cell_count (look R s STATS_KEY) + cell_count (look R s NO_SERVER_STATS_KEY))"
proof (cases "channels_total_initialized R s")
  case True
  then show ?thesis
    using assms by (simp add: get_public_stats_def get_channels_total_def get_created_count_def
        get_no_server_created_count_def read_count_cell stats_typed_def Let_def)
next
  case False
  define s1 where "s1 = snd (seed_channels_total_if_needed R (int (length (live_sessions pg))) s)"
  have none: "look R s CHANNELS_INITIALIZED_KEY = None"
    using False by (cases "look R s CHANNELS_INITIALIZED_KEY") (simp_all add: channels_total_initialized_def EXISTS_def)
  have l: "look R s1 k = (if k = CHANNELS_TOTAL_KEY then
        Some (RStr (Number (cell_count (look R s k) + int (length (live_sessions pg)))), cell_ttl (look R s k))
      else if k = CHANNELS_INITIALIZED_KEY then Some (RStr (Number 1), None) else look R s k)" for k
    using none assms(1) by (simp add: s1_def seed_channels_total_if_needed_def case_prod_unfold stats_typed_def)
  have "get_total_count pg = Inr (int (length (live_sessions pg)))"
    using assms(3) by (simp add: get_total_count_def run_select_def)
  then show ?thesis
    using False assms(1,2) by (simp add: get_public_stats_def get_channels_total_def get_created_count_def
        get_no_server_created_count_def read_count_cell stats_typed_def Let_def s1_def [symmetric] l)
qed

lemma counted_creation:
  assumes "create_channel R C cfg shorts longs hex m (Some t) a s = (Inr (c, raw), s1)"
    and "\<And>i. slug_ok (shorts i)" and "\<And>i. slug_ok (longs i)" and "0 < t"
    and "stats_typed R s"
    and "s' = (if truthy w then increment_workspace_channels_total R (the w) (increment_channels_total R s1)
               else increment_channels_total R s1)"
    and "is_counter (look R s (workspace_channels_key (the w)))"
  shows "cell_count (look R s' CHANNELS_TOTAL_KEY) = cell_count (look R s CHANNELS_TOTAL_KEY) + 1"
    and "look R s' STATS_KEY = look R s STATS_KEY" and "look R s' NO_SERVER_STATS_KEY = look R s NO_SERVER_STATS_KEY"
    and "look R s' CHANNELS_INITIALIZED_KEY = look R s CHANNELS_INITIALIZED_KEY"
    and "look R s' STATS_CACHE_KEY = None" and "stats_typed R s'"
proof -
  have ttl: "resolve_ttl cfg (a_price_cents a) (Some t) = t" by (simp add: resolve_ttl_def)
  note cr = create_channel_look [OF assms(1-3), unfolded ttl, OF assms(4)]
  have ok: "slug_ok (short_slug c)" "slug_ok (long_slug c)" using cr(2) assms(2,3) by auto
  have l1: "look R s1 k = look R s k"
    if "k \<in> {CHANNELS_TOTAL_KEY, STATS_KEY, NO_SERVER_STATS_KEY, CHANNELS_INITIALIZED_KEY, STATS_CACHE_KEY}
      \<or> k = workspace_channels_key v" for k v
    using that ok stats_channel_keys [OF ok(1), of k] stats_channel_keys [OF ok(2), of k]
    by (auto simp: cr(1) workspace_channels_key_def channel_key_def pending_token_key_def)
  define s2 where "s2 = increment_channels_total R s1"
  have total: "is_counter (look R s1 CHANNELS_TOTAL_KEY)" "look R s1 CHANNELS_TOTAL_KEY = look R s CHANNELS_TOTAL_KEY"
    using l1 assms(5) by (simp_all add: stats_typed_def)
  have l2: "look R s2 k = (if k = STATS_CACHE_KEY then None else if k = CHANNELS_TOTAL_KEY
      then Some (RStr (Number (cell_count (look R s k) + 1)), cell_ttl (look R s k)) else look R s1 k)" for k
    using total by (simp add: s2_def increment_channels_total_def INCR_def)
  have counter: "is_counter (look R s2 (workspace_channels_key (the w)))"
    using l1 assms(7) by (simp add: l2)
  have l3: "look R s' k = look R s2 k" if "\<And>v. k \<noteq> workspace_channels_key v" for k
    using that counter by (simp add: assms(6) s2_def [symmetric] increment_workspace_channels_total_def INCR_def)
  show "cell_count (look R s' CHANNELS_TOTAL_KEY) = cell_count (look R s CHANNELS_TOTAL_KEY) + 1"
    "look R s' STATS_KEY = look R s STATS_KEY" "look R s' NO_SERVER_STATS_KEY = look R s NO_SERVER_STATS_KEY"
    "look R s' CHANNELS_INITIALIZED_KEY = look R s CHANNELS_INITIALIZED_KEY"
    "look R s' STATS_CACHE_KEY = None" "stats_typed R s'"
    using assms(5) l1 by (simp_all add: l3 l2 stats_typed_def)
qed

end

lemma create_channel_action_Inr:
  assumes "create_channel_action R C cfg shorts longs hex uids now m ttl a w ip True (s, pg) = (Inr cr, (s', pg'))"
  obtains sid pg1 c raw s1 where
    "create_channel R C cfg shorts longs hex m (Some (resolve_ttl cfg (a_price_cents a) ttl)) (a\<lparr>a_share_id := sid\<rparr>) s =
       (Inr (c, raw), s1)"
    and "live_sessions pg1 = live_sessions pg" and "pg_up pg1 = pg_up pg"
    and "pg_create_session now (snd uids) (short_slug c) (long_slug c) m (Some (resolve_ttl cfg (a_price_cents a) ttl))
       (a\<lparr>a_share_id := sid\<rparr>) w ip pg1 = (Inr (), pg')"
    and "s' = (if truthy w then increment_workspace_channels_total R (the w) (increment_channels_total R s1)
               else increment_channels_total R s1)"
    and "cr = \<lparr>cr_secret = raw, cr_long_slug = long_slug c, cr_short_slug = short_slug c\<rparr>"
proof -
  define product where "product = (case a_price_cents a of None \<Rightarrow> (Inr None, pg)
    | Some price \<Rightarrow> (case w of None \<Rightarrow> (Inr None, pg)
      | Some w \<Rightarrow> (if 0 < price \<and> True
          then create_product_for_channel (fst uids) w price (a_currency a) (a_file_name a) pg
          else (Inr None, pg))))"
  note action = assms [unfolded create_channel_action_def Let_def prod.case, folded product_def]
  obtain sid pg1 where p: "product = (Inr sid, pg1)"
    using action by (cases product; cases "fst product") auto
  have same: "live_sessions pg1 = live_sessions pg" "pg_up pg1 = pg_up pg"
    using p create_product_counts by (auto simp: product_def split: option.splits if_splits)
  show thesis
    using action that [OF _ same] by (auto simp: p split: prod.splits sum.splits)
qed

text \<open>
  The public total and a creation. Between two uncached reads of the total with one
  channel created in between, the total grows by one once the counter has been seeded from the
  audit trail, but by two when the second read seeds it: the new session is then in the baseline
  and in the counter.
\<close>

theorem creation_in_public_total:
  assumes "redis_server R" and "\<And>i. slug_ok (shorts i)" and "\<And>i. slug_ok (longs i)"
    and "0 < resolve_ttl cfg (a_price_cents a) ttl"
    and "stats_typed R s" and "is_counter (look R s (workspace_channels_key (the w)))" and "get_cached_total R s = None"
    and "create_channel_action R C cfg shorts longs hex uids now m ttl a w ip True (s, pg) = (Inr cr, (s', pg'))"
    and "fst (get_public_stats R pg s) = Inr n" and "fst (get_public_stats R pg' s') = Inr n'"
  shows "n' = n + (if channels_total_initialized R s then 1 else 2)"
proof -
  obtain sid pg1 c raw s1 where
    c: "create_channel R C cfg shorts longs hex m (Some (resolve_ttl cfg (a_price_cents a) ttl)) (a\<lparr>a_share_id := sid\<rparr>) s =
       (Inr (c, raw), s1)"
    and pg1: "live_sessions pg1 = live_sessions pg" "pg_up pg1 = pg_up pg"
    and row: "pg_create_session now (snd uids) (short_slug c) (long_slug c) m (Some (resolve_ttl cfg (a_price_cents a) ttl))
       (a\<lparr>a_share_id := sid\<rparr>) w ip pg1 = (Inr (), pg')"
    and s': "s' = (if truthy w then increment_workspace_channels_total R (the w) (increment_channels_total R s1)
               else increment_channels_total R s1)"
    using assms(8) by (rule create_channel_action_Inr)
  note e = redis_server.counted_creation [OF assms(1) c assms(2-5) s' assms(6)]
  note rows = pg_create_session_counts [OF row]
  have "get_cached_total R s' = None" using e(5) by (simp add: get_cached_total_def GET_def)
  from redis_server.public_stats_value [OF assms(1) e(6) this] rows pg1 assms(10)
  have n': "n' = cell_count (look R s CHANNELS_TOTAL_KEY) + 1 +
      (if channels_total_initialized R s' then 0 else int (length (live_sessions pg)) + 1) +
      cell_count (look R s STATS_KEY) + cell_count (look R s NO_SERVER_STATS_KEY)"
    by (auto simp: e(1-3) split: if_splits)
  have "channels_total_initialized R s' = channels_total_initialized R s"
    by (simp add: channels_total_initialized_def EXISTS_def e(4))
  then show ?thesis
    using n' redis_server.public_stats_value [OF assms(1,5,7), of pg] rows(2,3) pg1(2) assms(9) by (auto split: if_splits)
qed

theorem creation_in_public_total_witness:
  "fst (get_public_stats ref_redis empty_pg empty_store) = Inr 0 \<and>
   (\<exists>cr s pg. create_channel_action ref_redis ref_crypto default_settings (\<lambda>_. ''5f-0a'') (\<lambda>_. ''ham/olive'') ''deadbeef''
      (''u1'', ''u2'') 1000 2 None default_args None None True (empty_store, empty_pg) = (Inr cr, (s, pg)) \<and>
      fst (get_public_stats ref_redis pg s) = Inr 2)"
proof -
  let ?act = "create_channel_action ref_redis ref_crypto default_settings (\<lambda>_. ''5f-0a'') (\<lambda>_. ''ham/olive'') ''deadbeef''
      (''u1'', ''u2'') 1000 2 None default_args None None True (empty_store, empty_pg)"
  have zero: "fst (get_public_stats ref_redis empty_pg empty_store) = Inr 0" by code_simp
  have cache: "get_cached_total ref_redis empty_store = None" by code_simp
  have init: "\<not> channels_total_initialized ref_redis empty_store" by code_simp
  have typed: "stats_typed ref_redis empty_store" by (simp add: stats_typed_def)
  have ttl: "resolve_ttl default_settings None t = (case t of None \<Rightarrow> 3600 | Some n \<Rightarrow> n)" for t
    by (simp add: resolve_ttl_def price_positive_def split: option.splits)
  have args: "default_args\<lparr>a_share_id := None\<rparr> = default_args" "a_price_cents default_args = None"
    by (simp_all add: default_args_def)
  let ?c = "create_channel ref_redis ref_crypto default_settings (\<lambda>_. ''5f-0a'') (\<lambda>_. ''ham/olive'') ''deadbeef'' 2 (Some 3600)
      default_args empty_store"
  have "fst ?c = Inr (sample_channel, ''deadbeef'')"
    using sample_created by (simp add: create_channel_def ttl args)
  then obtain s1 where c: "?c = (Inr (sample_channel, ''deadbeef''), s1)" by (metis prod.collapse)
  let ?row = "pg_create_session 1000 ''u2'' ''5f-0a'' ''ham/olive'' 2 (Some 3600) default_args None None empty_pg"
  have "fst ?row = Inr ()" by code_simp
  then obtain pg1 where row: "?row = (Inr (), pg1)" by (metis prod.collapse)
  let ?s = "increment_channels_total ref_redis s1"
  have act: "?act = (Inr \<lparr>cr_secret = ''deadbeef'', cr_long_slug = ''ham/olive'', cr_short_slug = ''5f-0a''\<rparr>, (?s, pg1))"
    by (simp add: create_channel_action_def Let_def ttl args c row)
  note e = reference.counted_creation [OF c _ _ _ typed refl, of None]
  have "stats_typed ref_redis ?s" "look ref_redis ?s STATS_CACHE_KEY = None"
    using e(5,6) by (simp_all add: is_slug_char_def is_lower_alnum_def)
  then obtain n where n: "fst (get_public_stats ref_redis pg1 ?s) = Inr n"
    using reference.public_stats_value [of ?s pg1] pg_create_session_counts(2,3) [OF row]
    by (simp add: get_cached_total_def GET_def empty_pg_def)
  have "n = 0 + (if channels_total_initialized ref_redis empty_store then 1 else 2)"
    by (rule creation_in_public_total [OF reference_server _ _ _ typed _ cache act zero n])
      (simp_all add: is_slug_char_def is_lower_alnum_def ttl args)
  then show ?thesis using zero n act init by auto
qed

end
