(* ===== verification/Sharing_Audit.thy ===== *)
theory Sharing_Audit
  imports Sharing_Properties
begin

section \<open>Redis and the audit trail together\<close>

text \<open>
  Each operation of an owner or a reader writes Redis first and then the audit trail in PostgreSQL:
  what the two say afterwards, and who may read the trail.
\<close>

subsection \<open>Renewals\<close>

lemma pg_expiry_written:
  assumes "get_by_slug slug pg = Inr (Some fs)"
    and "pg_update_session_expires_at now slug ttl pg = (r, pg')"
  shows "r = Inr ()" and "pg' = update_session (f_id fs) (\<lambda>x. x\<lparr>f_expires_at := expiry_of now ttl\<rparr>) pg"
  using assms by (auto simp: pg_update_session_expires_at_def pg_dual_write_def)

context redis_server
begin

lemma renewed_ttl:
  assumes "channels_ok R s" and "slug_ok slug" and "owned_channel R C slug sec s = Some c" and "0 < renew_ttl cfg ttl"
  shows "TTL R (channel_key (short_slug c)) (snd (renew_channel R C cfg slug sec ttl s)) = renew_ttl cfg ttl"
    and "TTL R (channel_key (long_slug c)) (snd (renew_channel R C cfg slug sec ttl s)) = renew_ttl cfg ttl"
proof -
  have c: "fetch_channel R slug s = Some c" using assms(3) by (simp add: owned_channel_Some)
  note D = channels_okD [OF assms(1,2) c]
  obtain t where t: "look R s (channel_key (short_slug c)) = channel_cell c t"
    "look R s (channel_key (long_slug c)) = channel_cell c t"
    using D(4) by blast
  note l = renew_channel_look(2) [OF assms(3) D(1,2), of cfg ttl]
  show "TTL R (channel_key (short_slug c)) (snd (renew_channel R C cfg slug sec ttl s)) = renew_ttl cfg ttl"
    "TTL R (channel_key (long_slug c)) (snd (renew_channel R C cfg slug sec ttl s)) = renew_ttl cfg ttl"
    using D(1,2) assms(4) by (auto simp: TTL_def l t reexpire_def channel_cell_def)
qed

end

text \<open>
  A renewal by the owner sets the remaining time of the channel, under both slugs and
  in the audit trail, to the default channel lifetime, however much was left: it extends a channel
  near its expiry and shortens a paid channel that has more than the default left.
\<close>

theorem renewal_sets_default_lifetime:
  assumes "redis_server R" and "channels_ok R s" and "slug_ok slug" and "owned_channel R C slug sec s = Some c"
    and "0 < CHANNEL_TTL cfg" and "get_by_slug slug pg = Inr (Some fs)"
    and "renew_channel_action R C cfg now slug sec None True (s, pg) = (r, (s', pg'))"
  shows "r = Inr True \<and>
    TTL R (channel_key (short_slug c)) s' = CHANNEL_TTL cfg \<and> TTL R (channel_key (long_slug c)) s' = CHANNEL_TTL cfg \<and>
    (\<forall>x \<in> set (pg_sessions pg'). f_id x = f_id fs \<longrightarrow> f_expires_at x = Some (now + CHANNEL_TTL cfg)) \<and>
    (CHANNEL_TTL cfg < TTL R (channel_key (short_slug c)) s \<longrightarrow>
       TTL R (channel_key (short_slug c)) s' < TTL R (channel_key (short_slug c)) s)"
proof -
  have ttl: "renew_ttl cfg (Some (CHANNEL_TTL cfg)) = CHANNEL_TTL cfg"
    by (simp add: renew_ttl_def)
  have fst: "fst (renew_channel R C cfg slug sec (Some (CHANNEL_TTL cfg)) s)"
    using redis_server.renew_channel_look(1) [OF assms(1,4) channels_okD(1,2) [OF assms(2,3)]] assms(4)
    by (simp add: owned_channel_Some)
  obtain r1 pg1 where w: "pg_update_session_expires_at now slug (Some (CHANNEL_TTL cfg)) pg = (r1, pg1)" by fastforce
  note row = pg_expiry_written [OF assms(6) w]
  have eq: "r = Inr True" "s' = snd (renew_channel R C cfg slug sec (Some (CHANNEL_TTL cfg)) s)" "pg' = pg1"
    using assms(7) fst row(1) w by (auto simp: renew_channel_action_def Let_def split: prod.splits)
  have "f_expires_at x = Some (now + CHANNEL_TTL cfg)" if "x \<in> set (pg_sessions pg')" "f_id x = f_id fs" for x
    using that assms(5) by (auto simp: eq row(2) update_session_def expiry_of_def split: if_splits)
  then show ?thesis
    using redis_server.renewed_ttl [OF assms(1-4), of cfg "Some (CHANNEL_TTL cfg)", unfolded ttl, OF assms(5)]
    by (simp add: eq(1,2))
qed

text \<open>A paid channel with an hour left, renewed where the default lifetime is ten minutes.\<close>

definition brief_settings :: settings where
  "brief_settings = default_settings\<lparr>CHANNEL_TTL := 600\<rparr>"

theorem renewal_sets_default_lifetime_witness:
  "TTL ref_redis (channel_key ''5f-0a'') sample_store = 3600 \<and>
   TTL ref_redis (channel_key ''5f-0a'')
     (fst (snd (renew_channel_action ref_redis ref_crypto brief_settings 1000 ''ham/olive'' ''deadbeef'' None True
        (sample_store, empty_pg\<lparr>pg_sessions := [sample_session ''s1'' ''5f-0a'' ''ham/olive'']\<rparr>)))) = 600"
proof -
  let ?pg = "empty_pg\<lparr>pg_sessions := [sample_session ''s1'' ''5f-0a'' ''ham/olive'']\<rparr>"
  let ?r = "renew_channel_action ref_redis ref_crypto brief_settings 1000 ''ham/olive'' ''deadbeef'' None True (sample_store, ?pg)"
  have ttl: "TTL ref_redis (channel_key ''5f-0a'') sample_store = 3600"
    and owned: "owned_channel ref_redis ref_crypto ''ham/olive'' ''deadbeef'' sample_store = Some sample_channel"
    and row: "get_by_slug ''ham/olive'' ?pg = Inr (Some (sample_session ''s1'' ''5f-0a'' ''ham/olive''))"
    and slug: "slug_ok ''ham/olive''"
    by code_simp+
  obtain r s pg where r: "?r = (r, (s, pg))" by (metis prod.collapse)
  have "TTL ref_redis (channel_key ''5f-0a'') s = 600"
    using renewal_sets_default_lifetime [OF reference_server sample_channels_ok slug owned _ row r]
    by (simp add: brief_settings_def)
  with ttl show ?thesis by (simp add: r)
qed

subsection \<open>Downloads\<close>

lemma pg_download_written:
  assumes "get_by_slug slug pg = Inr (Some fs)" and "pg_record_download now uid slug slot ip pg = (Inr (), pg')"
  shows "pg_downloads pg' = pg_downloads pg @ [\<lparr>d_id = uid, d_session_id = f_id fs, d_downloader_ip_hash = ip,
      d_slot_number = slot, d_deleted_at = None\<rparr>]"
    and "pg_sessions pg' = map (\<lambda>x. if f_id x = f_id fs
       then complete now (activate now (x\<lparr>f_download_count := f_download_count x + 1\<rparr>)) else x) (pg_sessions pg)"
proof -
  have "pg' = dispatch ''file_sharing.download_completed'' (f_id fs)
      (update_session (f_id fs) (complete now) (update_session (f_id fs) (activate now)
        (update_session (f_id fs) (\<lambda>x. x\<lparr>f_download_count := f_download_count x + 1\<rparr>)
          (pg\<lparr>pg_downloads := pg_downloads pg @ [\<lparr>d_id = uid, d_session_id = f_id fs, d_downloader_ip_hash = ip,
             d_slot_number = slot, d_deleted_at = None\<rparr>]\<rparr>))))"
    using assms
    by (auto simp: pg_record_download_def pg_dual_write_def reraised_operations_def download_insert_def
        increment_download_count_def Let_def split: prod.splits sum.splits if_splits)
  then show "pg_downloads pg' = pg_downloads pg @ [\<lparr>d_id = uid, d_session_id = f_id fs, d_downloader_ip_hash = ip,
      d_slot_number = slot, d_deleted_at = None\<rparr>]"
    and "pg_sessions pg' = map (\<lambda>x. if f_id x = f_id fs
       then complete now (activate now (x\<lparr>f_download_count := f_download_count x + 1\<rparr>)) else x) (pg_sessions pg)"
    by (auto simp: dispatch_def update_session_def activate_def complete_def)
qed

lemma lifecycle_count [simp]: "f_download_count (complete now (activate now x)) = f_download_count x"
  "f_max_downloads (activate now x) = f_max_downloads x" "f_download_count (activate now x) = f_download_count x"
  by (simp_all add: complete_def activate_def)

text \<open>
  A completed download counts once on both sides. If the audit trail and Redis agreed
  on the number of downloads of a channel, they agree after a completed download, on one more; the
  new row holds that number as its slot, what is left is reported, and with the last download of a
  limited channel its session is completed.
\<close>

theorem download_counts_agree:
  assumes "redis_server R" and "typed_store R s" and "fetch_channel R slug s = Some c" and "0 \<le> max_downloads c"
    and "get_by_slug slug pg = Inr (Some fs)" and "f_max_downloads fs = max_downloads c"
    and "\<And>x. x \<in> set (pg_sessions pg) \<Longrightarrow> f_id x = f_id fs \<Longrightarrow> x = fs"
    and "f_download_count fs = cell_count (look R s (download_count_key (short_slug c)))"
    and "record_download_action R C now uid slug tok ip True (s, pg) = (Inr (True, remaining), (s', pg'))"
  shows "\<exists>x \<in> set (pg_sessions pg'). f_id x = f_id fs \<and>
    f_download_count x = cell_count (look R s' (download_count_key (short_slug c))) \<and>
    f_download_count x = f_download_count fs + 1 \<and>
    d_slot_number (last (pg_downloads pg')) = f_download_count x \<and> d_session_id (last (pg_downloads pg')) = f_id fs \<and>
    remaining = (if max_downloads c = 0 then -1 else max_downloads c - f_download_count x) \<and>
    (remaining = 0 \<longrightarrow> f_status x = Completed)"
proof -
  let ?K = "download_count_key (short_slug c)"
  have typed: "is_counter (look R s ?K)" "0 \<le> cell_count (look R s ?K)" "\<And>y. is_counter (look R s (download_count_key y))"
    using assms(2) by (simp_all add: typed_store_def nat_counter_def)
  obtain ok rem n s1 where d: "record_download_complete R C slug tok s = ((ok, rem, n), s1)" by (metis prod.collapse)
  have ok: ok and rem: "rem = remaining" and s1: "s1 = s'"
    using assms(9) d by (auto simp: record_download_action_def Let_def split: prod.splits sum.splits if_splits)
  have pg: "pg_record_download now uid slug n ip pg = (Inr (), pg')"
    using assms(9) d ok by (auto simp: record_download_action_def Let_def split: prod.splits sum.splits)
  obtain c' where "download_granted R C slug tok s c'"
    using redis_server.download_refused [OF assms(1) _ typed(3), of C slug tok] d ok by fastforce
  then have granted: "download_granted R C slug tok s c" using assms(3) by (simp add: download_granted_def)
  note e = redis_server.download_granted_effect [OF assms(1) granted typed(1,2)]
  have n: "n = cell_count (look R s ?K) + 1" and count: "cell_count (look R s' ?K) = cell_count (look R s ?K) + 1"
    using e(2) e(3) [of ?K] d s1 by simp_all
  have left: "remaining = (if max_downloads c = 0 then -1 else max_downloads c - n)"
    using granted d n rem typed(1,2) assms(4) redis_server.download_incr_granted [OF assms(1)]
    by (auto simp: record_download_complete_def download_granted_def Let_def split: prod.splits if_splits)
  note w = pg_download_written [OF assms(5) pg]
  have fs: "fs \<in> set (pg_sessions pg)" using get_by_slug_Some(1) [OF assms(5)] .
  define x where "x = complete now (activate now (fs\<lparr>f_download_count := f_download_count fs + 1\<rparr>))"
  have x: "x \<in> set (pg_sessions pg')" "f_id x = f_id fs" "f_download_count x = f_download_count fs + 1"
    using fs by (auto simp: w(2) x_def complete_def activate_def intro!: image_eqI [of _ _ fs])
  have "f_status x = Completed" if "remaining = 0"
    using that left n assms(4,6,8) typed(2) by (auto simp: x_def complete_def split: if_splits)
  then show ?thesis
    using x left n count assms(8) w(1) by (intro bexI [of _ x]) auto
qed

definition trail_pg :: pg where
  "trail_pg = empty_pg\<lparr>pg_sessions := [sample_session ''s1'' ''5f-0a'' ''ham/olive'']\<rparr>"

theorem download_counts_agree_witness:
  "\<exists>s pg. record_download_action ref_redis ref_crypto 1000 ''d1'' ''ham/olive'' ''rt'' None True (guarded_store, trail_pg) =
     (Inr (True, 1), (s, pg)) \<and> cell_count (look ref_redis s (download_count_key ''5f-0a'')) = 1 \<and>
     (\<exists>x \<in> set (pg_sessions pg). f_id x = ''s1'' \<and> f_download_count x = 1)"
proof -
  let ?r = "record_download_action ref_redis ref_crypto 1000 ''d1'' ''ham/olive'' ''rt'' None True (guarded_store, trail_pg)"
  have typed: "typed_store ref_redis guarded_store"
    unfolding guarded_store_def
    by (rule reference.reachable_ok [THEN conjunct1, OF reachable.step [OF sample_reachable]])
      (simp add: is_slug_char_def is_lower_alnum_def)
  have found: "fetch_channel ref_redis ''ham/olive'' guarded_store = Some sample_channel"
    "get_by_slug ''ham/olive'' trail_pg = Inr (Some (sample_session ''s1'' ''5f-0a'' ''ham/olive''))"
    by code_simp+
  have none: "look ref_redis guarded_store (download_count_key ''5f-0a'') = None" by code_simp
  have "fst ?r = Inr (True, 1)" by code_simp
  then obtain s pg where r: "?r = (Inr (True, 1), (s, pg))" by (metis prod.collapse)
  from download_counts_agree [OF reference_server typed found(1) _ found(2) _ _ _ r]
  have "\<exists>x \<in> set (pg_sessions pg). f_id x = ''s1'' \<and> f_download_count x = 1 \<and>
      cell_count (look ref_redis s (download_count_key ''5f-0a'')) = 1"
    by (auto simp: sample_session_def trail_pg_def none)
  with r show ?thesis by auto
qed

subsection \<open>Who sees a session\<close>

definition may_read :: "pg \<Rightarrow> subject \<Rightarrow> fs_session \<Rightarrow> bool" where
  "may_read pg auth x \<longleftrightarrow> (case auth of
       User u \<Rightarrow> f_user_id x = Some u \<or> (\<exists>w. f_workspace_id x = Some w \<and> member_of u pg w)
     | Workspace w \<Rightarrow> f_workspace_id x = Some w
     | _ \<Rightarrow> True)"

lemma readable_sessions_iff:
  "x \<in> set (readable_sessions auth pg) \<longleftrightarrow> x \<in> set (pg_sessions pg) \<and> f_deleted_at x = None \<and> may_read pg auth x"
  by (auto simp: readable_sessions_def live_sessions_def may_read_def split: subject.splits option.splits)


definition shared_pg :: pg where
  "shared_pg = pg_step (Insert_Session 1000 ''s1'' ''ab'' ''x/y'' 2 (Some 3600) (default_args\<lparr>a_user_id := Some ''u1''\<rparr>) None None)
     (empty_pg\<lparr>pg_users := [''u1'']\<rparr>)"


end
