(* ===== verification/Sharing_Types.thy ===== *)
theory Sharing_Types
  imports Sharing_Audit Redis_Transport
begin

section \<open>Values between the components\<close>

text \<open>
  What one component produces is what the next accepts: generated slugs pass the guard of the
  endpoints and fit their columns, stored and published values are read back as they were written.
\<close>

subsection \<open>Slugs\<close>

text \<open>\<open>str(uuid.uuid4())\<close>: 36 characters, hexadecimal digits and hyphens, a digit first.\<close>

definition uuid4_text :: "string \<Rightarrow> bool" where
  "uuid4_text u \<longleftrightarrow> length u = 36 \<and> list_all (\<lambda>c. is_lower_alnum c \<or> c = CHR ''-'') u \<and> is_lower_alnum (hd u)"

lemma no_dots: "list_all is_slug_char s \<Longrightarrow> \<not> contains ''..'' s"
proof -
  have "\<not> is_slug_char CHR ''.''" by (simp add: is_slug_char_def is_lower_alnum_def)
  then show "list_all is_slug_char s \<Longrightarrow> \<not> contains ''..'' s"
    using contains_set [of "''..''" s] by (auto simp: list_all_iff)
qed

lemma short_slug_valid:
  assumes "uuid4_text u"
  shows "validate_slug (generate_short_slug u) = Inr (generate_short_slug u)" and "length (generate_short_slug u) \<le> 255"
proof -
  have all: "list_all is_slug_char u"
    using assms by (auto simp: uuid4_text_def list_all_iff is_slug_char_def)
  then have "slug_body u"
    using assms by (cases u) (auto simp: uuid4_text_def)
  then show "validate_slug (generate_short_slug u) = Inr (generate_short_slug u)"
    using no_dots [OF all] by (simp add: validate_slug_def slug_pattern_def generate_short_slug_def)
  show "length (generate_short_slug u) \<le> 255"
    using assms by (simp add: generate_short_slug_def uuid4_text_def)
qed

lemma long_slug_valid:
  assumes "\<And>j. choice j < 128"
  shows "validate_slug (generate_long_slug choice) = Inr (generate_long_slug choice)"
    and "length (generate_long_slug choice) \<le> 255"
proof -
  let ?s = "generate_long_slug choice"
  define ws where "ws = map (\<lambda>i. TOPPINGS ! choice i) [0..<LONG_SLUG_NUM_WORDS]"
  have s: "?s = join ''/'' ws" by (simp add: generate_long_slug_def ws_def)
  have w: "list_all is_lower_alnum w" "1 \<le> length w" "length w \<le> 13" if "w \<in> set ws" for w
    using that TOPPINGS_nth [OF assms] by (auto simp: ws_def)
  have seven: "length ws = 7" by (simp add: ws_def LONG_SLUG_NUM_WORDS_def)
  then obtain u us where us: "ws = u # us" by (cases ws) auto
  have u: "u \<noteq> []" "is_lower_alnum (hd u)"
    using w [of u] by (cases u; simp add: us)+
  then have hd: "?s \<noteq> []" "is_lower_alnum (hd ?s)"
    using join_head [of ws "''/''"] by (simp_all add: s us)
  have "is_slug_char c" if "c \<in> set ?s" for c
  proof -
    have "c = CHR ''/'' \<or> (\<exists>w \<in> set ws. c \<in> set w)"
      using that set_join_subset [of "''/''" ws] by (auto simp: s)
    then show ?thesis using w(1) by (auto simp: is_slug_char_def list_all_iff)
  qed
  then have all: "list_all is_slug_char ?s" by (simp add: list_all_iff)
  have sum: "length vs \<le> sum_list (map length vs) \<and> sum_list (map length vs) \<le> 13 * length vs"
    if "set vs \<subseteq> set ws" for vs
    using that by (induction vs) (use w(2,3) in fastforce)+
  have "length ?s = sum_list (map length ws) + 6"
    using length_join [of ws "''/''"] seven us by (simp add: s del: join.simps)
  then have len: "13 \<le> length ?s" "length ?s \<le> 97" using sum [of ws] seven by simp_all
  then have "slug_body ?s" using hd all by (cases ?s) auto
  then show "validate_slug ?s = Inr ?s"
    using no_dots [OF all] by (simp add: validate_slug_def slug_pattern_def)
  show "length ?s \<le> 255" using len by simp
qed

subsection \<open>A created session fits its columns\<close>


definition sample_uuid :: string where
  "sample_uuid = ''123e4567-e89b-42d3-a456-426614174000''"

definition huge_file :: "int \<Rightarrow> channel_create_request" where
  "huge_file n = \<lparr>cq_max_downloads = 1, cq_price_cents = None, cq_currency = None, cq_title = None,
     cq_file_name = Some ''a.bin'', cq_file_size_bytes = Some n, cq_workspace_id = None\<rparr>"


subsection \<open>Round trips\<close>

text \<open>
  Property C24: what the service writes it reads back. A channel and a secret survive the dictionary
  form they are stored in; a stored channel is fetched as it was under both slugs and a stored item
  as it was under its id, each until its expiry; and every frame published for a peer of another
  worker, text, binary or close, arrives there as it was sent.
\<close>

theorem written_values_read_back:
  assumes "redis_server R" and "slug_ok (short_slug c)" and "slug_ok (long_slug c)" and "0 < t"
    and "\<And>code reason. f = Close_Frame code reason \<Longrightarrow> 0 \<le> code \<and> code < 65536"
  shows "channel_from_dict (channel_to_dict c) = Inr c \<and> secret_from_dict (secret_to_dict d) = Inr d \<and>
    (\<forall>n. fetch_channel R (short_slug c) (elapse R n (store_channel R c t s)) = (if int n < t then Some c else None) \<and>
       fetch_channel R (long_slug c) (elapse R n (store_channel R c t s)) = (if int n < t then Some c else None) \<and>
       secret_peek R kind x (elapse R n (secret_create R kind x t d s)) = (if int n < t then Inr (Some d) else Inr None)) \<and>
    decode_envelope (encode_frame f) = Some f"
proof (intro conjI allI)
  show "channel_from_dict (channel_to_dict c) = Inr c" by (rule channel_roundtrip)
  show "secret_from_dict (secret_to_dict d) = Inr d" by (rule secret_roundtrip)
  show "decode_envelope (encode_frame f) = Some f" by (rule envelope_roundtrip [OF assms(5)])
  fix n
  note l = redis_server.store_channel_look [OF assms(1-4)]
  show "fetch_channel R (short_slug c) (elapse R n (store_channel R c t s)) = (if int n < t then Some c else None)"
    "fetch_channel R (long_slug c) (elapse R n (store_channel R c t s)) = (if int n < t then Some c else None)"
    by (auto simp: redis_server.look_elapse [OF assms(1)] fetch_channel_look l channel_cell_def)
  show "secret_peek R kind x (elapse R n (secret_create R kind x t d s)) = (if int n < t then Inr (Some d) else Inr None)"
    using assms(4)
    by (auto simp: redis_server.peek_value [OF assms(1)] redis_server.secret_fetch_value [OF assms(1)]
        redis_server.look_elapse [OF assms(1)] secret_create_def redis_server.look_SETEX [OF assms(1)]
        redis_server.parse_secret_reply_None [OF assms(1)])
qed

theorem written_values_read_back_witness:
  "fetch_channel ref_redis ''ham/olive'' (elapse ref_redis 59 (store_channel ref_redis sample_channel 60 empty_store)) =
     Some sample_channel \<and>
   secret_peek ref_redis File_Kind ''x1'' (elapse ref_redis 60 (secret_create ref_redis File_Kind ''x1'' 60 sample_secret empty_store)) =
     Inr None \<and>
   decode_envelope (encode_frame (Close_Frame 4010 ''Channel reported'')) = Some (Close_Frame 4010 ''Channel reported'')"
proof -
  note t = written_values_read_back [OF reference_server, of sample_channel 60 "Close_Frame 4010 ''Channel reported''"
      sample_secret empty_store File_Kind "''x1''"]
  show ?thesis
    using t by (simp add: is_slug_char_def is_lower_alnum_def)
qed

end
