(* ===== verification/Webhook_Tables.thy ===== *)
theory Webhook_Tables
  imports Pg_Listing
begin

section \<open>The tables of outgoing webhooks\<close>

text \<open>
  The three tables of \<open>messaging/webhook\<close> (\<open>models/webhook_endpoint.py\<close>,
  \<open>webhook_event.py\<close>, \<open>webhook_delivery.py\<close>) and the repositories of
  \<open>messaging/webhook/queries.py\<close> over them, each query with the rows it selects, its order
  and its limit. Workspaces and memberships are those of \<open>Pg_Tables\<close>; a table is the list
  of its rows in insertion order, and rows that compare equal keep it.
\<close>

subsection \<open>Event types and formats\<close>

datatype hook_type =
    Customer_Created | Customer_Updated | Customer_Deleted | Customer_State_Changed
  | Share_Created | Share_Updated
  | Workspace_Updated
  | Session_Created | Session_Download_Completed | Session_Expired | Session_Payment_Received

fun hook_type_value :: "hook_type \<Rightarrow> string" where
  "hook_type_value Customer_Created = ''customer.created''"
| "hook_type_value Customer_Updated = ''customer.updated''"
| "hook_type_value Customer_Deleted = ''customer.deleted''"
| "hook_type_value Customer_State_Changed = ''customer.state_changed''"
| "hook_type_value Share_Created = ''share.created''"
| "hook_type_value Share_Updated = ''share.updated''"
| "hook_type_value Workspace_Updated = ''workspace.updated''"
| "hook_type_value Session_Created = ''file_sharing_session.created''"
| "hook_type_value Session_Download_Completed = ''file_sharing_session.download_completed''"
| "hook_type_value Session_Expired = ''file_sharing_session.expired''"
| "hook_type_value Session_Payment_Received = ''file_sharing_session.payment_received''"

definition hook_types :: "hook_type list" where
  "hook_types = [Customer_Created, Customer_Updated, Customer_Deleted, Customer_State_Changed,
     Share_Created, Share_Updated, Workspace_Updated, Session_Created,
     Session_Download_Completed, Session_Expired, Session_Payment_Received]"

definition hook_type_of :: "string \<Rightarrow> py_error + hook_type" where
  "hook_type_of v = (case find (\<lambda>t. hook_type_value t = v) hook_types of
       Some t \<Rightarrow> Inr t
     | None \<Rightarrow> Inl (ValueError v))"

interpretation hook_types: str_enum hook_type_value hook_type_of
proof
  fix t show "hook_type_of (hook_type_value t) = Inr t"
    by (cases t) (simp_all add: hook_type_of_def hook_types_def)
next
  fix v t assume "hook_type_of v = Inr t"
  then show "hook_type_value t = v"
    by (auto simp: hook_type_of_def find_Some_iff split: option.splits)
qed

datatype hook_format = Raw | Discord | Slack

subsection \<open>Rows\<close>

text \<open>The payload is the JSON text the receiver is sent, kept in parsed form.\<close>

record hook_endpoint =
  ep_id :: uuid
  ep_url :: string
  ep_format :: hook_format
  ep_secret :: string
  ep_events :: "hook_type list"
  ep_enabled :: bool
  ep_workspace_id :: uuid
  ep_created_at :: int
  ep_deleted_at :: "int option"

record hook_event =
  ev_id :: uuid
  ev_type :: hook_type
  ev_payload :: "json option"
  ev_last_http_code :: "int option"
  ev_succeeded :: "bool option"
  ev_skipped :: bool
  ev_endpoint_id :: uuid
  ev_created_at :: int
  ev_deleted_at :: "int option"

record hook_delivery =
  dl_id :: uuid
  dl_succeeded :: bool
  dl_http_code :: "int option"
  dl_response :: "string option"
  dl_endpoint_id :: uuid
  dl_event_id :: uuid
  dl_created_at :: int
  dl_deleted_at :: "int option"

definition is_archived :: "hook_event \<Rightarrow> bool" where
  "is_archived ev = (ev_payload ev = None)"

text \<open>The tasks the webhook code hands to the queue; a mail is kept with its subject.\<close>

datatype hook_job =
    Send_Job uuid bool
  | Success_Job uuid
  | Failed_Job uuid
  | Mail_Job (mail_to: string) (mail_subject: string)

text \<open>
  \<open>hk_emails\<close> holds the address of each user, \<open>hk_names\<close> the name of each workspace: the
  columns of the rows in \<open>hk_pg\<close> that only the webhook code reads.
\<close>

record hooks =
  hk_pg :: pg
  hk_emails :: "uuid \<Rightarrow> string"
  hk_names :: "uuid \<Rightarrow> string"
  hk_endpoints :: "hook_endpoint list"
  hk_events :: "hook_event list"
  hk_deliveries :: "hook_delivery list"
  hk_jobs :: "hook_job list"

datatype hook_error =
    Database py_error
  | Retry
  | Event_Not_Found uuid
  | EventDoesNotExist uuid
  | EventNotSuccessful uuid
  | ResourceNotFound
  | RequestValidationError string
  | AttributeError
  | DeliveryUnset

type_synonym 'a hook_result = "(hook_error + 'a) \<times> hooks"

definition select_one :: "hooks \<Rightarrow> 'a list \<Rightarrow> hook_error + 'a option" where
  "select_one s rows = map_sum Database id (get_one_or_none (hk_pg s) rows)"

definition select_all :: "hooks \<Rightarrow> 'a list \<Rightarrow> hook_error + 'a list" where
  "select_all s rows = map_sum Database id (run_select (hk_pg s) rows)"

lemma select_all_up [simp]:
  "select_all s rows = (if pg_up (hk_pg s) then Inr rows else Inl (Database SQLAlchemyError))"
  by (simp add: select_all_def run_select_def)

subsection \<open>Which rows a subject may read\<close>

definition endpoint_readable :: "subject \<Rightarrow> pg \<Rightarrow> hook_endpoint \<Rightarrow> bool" where
  "endpoint_readable auth pg e = (case auth of
       User u \<Rightarrow> member_of u pg (ep_workspace_id e)
     | Workspace w \<Rightarrow> ep_workspace_id e = w
     | _ \<Rightarrow> True)"

definition live_endpoints :: "hooks \<Rightarrow> hook_endpoint list" where
  "live_endpoints s = filter (\<lambda>e. ep_deleted_at e = None) (hk_endpoints s)"

definition live_events :: "hooks \<Rightarrow> hook_event list" where
  "live_events s = filter (\<lambda>ev. ev_deleted_at ev = None) (hk_events s)"

definition live_deliveries :: "hooks \<Rightarrow> hook_delivery list" where
  "live_deliveries s = filter (\<lambda>d. dl_deleted_at d = None) (hk_deliveries s)"

definition readable_endpoints :: "subject \<Rightarrow> hooks \<Rightarrow> hook_endpoint list" where
  "readable_endpoints auth s = filter (endpoint_readable auth (hk_pg s)) (live_endpoints s)"

text \<open>The join with the endpoint does not ask whether the endpoint has been deleted.\<close>

definition readable_events :: "subject \<Rightarrow> hooks \<Rightarrow> hook_event list" where
  "readable_events auth s =
     filter (\<lambda>ev. list_ex (\<lambda>e. ep_id e = ev_endpoint_id ev \<and> endpoint_readable auth (hk_pg s) e) (hk_endpoints s))
       (live_events s)"

definition readable_deliveries :: "subject \<Rightarrow> hooks \<Rightarrow> hook_delivery list" where
  "readable_deliveries auth s =
     filter (\<lambda>d. list_ex (\<lambda>e. ep_id e = dl_endpoint_id d \<and> endpoint_readable auth (hk_pg s) e) (hk_endpoints s))
       (live_deliveries s)"

subsection \<open>\<open>WebhookEventRepository\<close>\<close>

definition event_by_id :: "uuid \<Rightarrow> hooks \<Rightarrow> hook_error + hook_event option" where
  "event_by_id i s = select_one s (filter (\<lambda>ev. ev_id ev = i) (live_events s))"

text \<open>The eagerly loaded \<open>event.webhook_endpoint\<close>: the endpoint, deleted or not.\<close>

definition event_endpoint :: "hooks \<Rightarrow> hook_event \<Rightarrow> hook_endpoint option" where
  "event_endpoint s ev = find (\<lambda>e. ep_id e = ev_endpoint_id ev) (hk_endpoints s)"

definition delivered :: "hooks \<Rightarrow> hook_event \<Rightarrow> bool" where
  "delivered s ev = list_ex (\<lambda>d. dl_event_id d = ev_id ev) (hk_deliveries s)"

definition get_all_undelivered :: "int option \<Rightarrow> nat \<Rightarrow> hooks \<Rightarrow> hook_error + hook_event list" where
  "get_all_undelivered older_than limit s =
     select_all s (take limit (filter (\<lambda>ev. \<not> delivered s ev \<and> ev_payload ev \<noteq> None \<and> \<not> ev_skipped ev \<and>
         (case older_than of None \<Rightarrow> True | Some t \<Rightarrow> ev_created_at ev < t)) (live_events s)))"

definition get_recent_by_endpoint :: "uuid \<Rightarrow> nat \<Rightarrow> hooks \<Rightarrow> hook_error + hook_event list" where
  "get_recent_by_endpoint endpoint_id limit s =
     select_all s (take limit (sort_key (\<lambda>ev. - ev_created_at ev)
       (filter (\<lambda>ev. ev_endpoint_id ev = endpoint_id \<and> ev_succeeded ev \<noteq> None) (live_events s))))"

definition pending_at :: "uuid \<Rightarrow> hook_event \<Rightarrow> bool" where
  "pending_at endpoint_id ev = (ev_endpoint_id ev = endpoint_id \<and> ev_succeeded ev = None \<and>
     \<not> ev_skipped ev \<and> ev_deleted_at ev = None)"

definition get_pending_by_endpoint :: "uuid \<Rightarrow> hooks \<Rightarrow> hook_error + hook_event list" where
  "get_pending_by_endpoint endpoint_id s = select_all s (filter (pending_at endpoint_id) (hk_events s))"

text \<open>The \<open>LIMIT 1\<close> of the query bounds the one row of the aggregate, not the count.\<close>

definition count_undelivered_older_than :: "uuid \<Rightarrow> uuid \<Rightarrow> int \<Rightarrow> int \<Rightarrow> hooks \<Rightarrow> hook_error + nat" where
  "count_undelivered_older_than endpoint_id event_id before age_limit s =
     map_sum id length (select_all s (filter (\<lambda>ev. ev_deleted_at ev = None \<and> ev_endpoint_id ev = endpoint_id \<and>
         ev_id ev \<noteq> event_id \<and> \<not> delivered s ev \<and>
         ev_created_at ev < before \<and> age_limit \<le> ev_created_at ev) (hk_events s)))"

definition skip_pending_by_endpoint :: "uuid \<Rightarrow> hooks \<Rightarrow> nat hook_result" where
  "skip_pending_by_endpoint endpoint_id s =
     (if pg_up (hk_pg s)
      then (Inr (length (filter (pending_at endpoint_id) (hk_events s))),
            s\<lparr>hk_events := map (\<lambda>ev. if pending_at endpoint_id ev then ev\<lparr>ev_skipped := True\<rparr> else ev) (hk_events s)\<rparr>)
      else (Inl (Database SQLAlchemyError), s))"

definition archivable :: "int \<Rightarrow> hook_event \<Rightarrow> bool" where
  "archivable older_than ev = (ev_created_at ev < older_than \<and> ev_payload ev \<noteq> None)"

definition archive_payloads :: "int \<Rightarrow> nat \<Rightarrow> hooks \<Rightarrow> nat hook_result" where
  "archive_payloads older_than batch_size s =
     (if pg_up (hk_pg s)
      then (let ids = map ev_id (take batch_size (sort_key ev_created_at
                  (filter (archivable older_than) (hk_events s))))
            in (Inr (length (filter (\<lambda>ev. ev_id ev \<in> set ids) (hk_events s))),
                s\<lparr>hk_events := map (\<lambda>ev. if ev_id ev \<in> set ids then ev\<lparr>ev_payload := None\<rparr> else ev) (hk_events s)\<rparr>))
      else (Inl (Database SQLAlchemyError), s))"

subsection \<open>\<open>WebhookDeliveryRepository\<close>\<close>

definition get_all_by_event :: "uuid \<Rightarrow> hooks \<Rightarrow> hook_error + hook_delivery list" where
  "get_all_by_event i s =
     select_all s (sort_key dl_created_at (filter (\<lambda>d. dl_event_id d = i) (live_deliveries s)))"

datatype http_class = Class_2xx | Class_3xx | Class_4xx | Class_5xx

fun class_base :: "http_class \<Rightarrow> int" where
  "class_base Class_2xx = 2 * 100"
| "class_base Class_3xx = 3 * 100"
| "class_base Class_4xx = 4 * 100"
| "class_base Class_5xx = 5 * 100"

record delivery_filter =
  df_endpoint_id :: "uuid list option"
  df_start :: "int option"
  df_end :: "int option"
  df_succeeded :: "bool option"
  df_query :: "string option"
  df_http_class :: "http_class option"
  df_event_type :: "hook_type list option"

text \<open>A filter that is not given keeps every row; a null HTTP code satisfies no comparison.\<close>

definition given :: "'a option \<Rightarrow> ('a \<Rightarrow> bool) \<Rightarrow> bool" where
  "given x P = (case x of None \<Rightarrow> True | Some v \<Rightarrow> P v)"

lemma given_simps [simp]: "given None P" "given (Some v) P = P v"
  by (simp_all add: given_def)

definition delivery_matches :: "string \<Rightarrow> hook_delivery \<Rightarrow> bool" where
  "delivery_matches query d =
     (let pattern = ''%'' @ escape_like query @ ''%''
      in ilike pattern (dl_id d) \<or> ilike pattern (dl_event_id d) \<or>
         opt_ilike pattern (map_option dec_int (dl_http_code d)))"

definition delivery_list_filters :: "delivery_filter \<Rightarrow> hooks \<Rightarrow> hook_delivery list \<Rightarrow> hook_delivery list" where
  "delivery_list_filters f s rows = filter (\<lambda>d.
       given (df_endpoint_id f) (\<lambda>es. dl_endpoint_id d \<in> set es) \<and>
       given (df_start f) (\<lambda>t. t < dl_created_at d) \<and>
       given (df_end f) (\<lambda>t. dl_created_at d < t) \<and>
       given (df_succeeded f) (\<lambda>b. dl_succeeded d = b) \<and>
       given (df_query f) (\<lambda>q. delivery_matches q d) \<and>
       given (df_http_class f) (\<lambda>c. case dl_http_code d of None \<Rightarrow> False
           | Some n \<Rightarrow> class_base c \<le> n \<and> n < class_base c + 100) \<and>
       given (df_event_type f) (\<lambda>ts. list_ex (\<lambda>ev. ev_id ev = dl_event_id d \<and> ev_type ev \<in> set ts) (hk_events s)))
     rows"

subsection \<open>\<open>WebhookEndpointRepository\<close>\<close>

definition endpoint_list_filters :: "uuid list option \<Rightarrow> string option \<Rightarrow> hook_endpoint list \<Rightarrow> hook_endpoint list" where
  "endpoint_list_filters workspace_id url rows = filter (\<lambda>e.
       given workspace_id (\<lambda>ws. ep_workspace_id e \<in> set ws) \<and>
       given url (\<lambda>u. strip u = [] \<or> ilike (''%'' @ escape_like (strip u) @ ''%'') (ep_url e)))
     rows"

definition get_active_for_event :: "hook_type \<Rightarrow> uuid \<Rightarrow> hooks \<Rightarrow> hook_error + hook_endpoint list" where
  "get_active_for_event t workspace_id s =
     select_all s (filter (\<lambda>e. ep_deleted_at e = None \<and> ep_enabled e \<and> t \<in> set (ep_events e) \<and>
         ep_workspace_id e = workspace_id) (hk_endpoints s))"

end
