(* ===== verification/Webhook_Addresses.thy ===== *)
theory Webhook_Addresses
  imports Prelude "HOL-Library.Word"
begin

section \<open>The addresses a webhook may be sent to\<close>

text \<open>
  \<open>_resolve_safe_addrs\<close> of \<open>messaging/webhook/workers.py\<close>: the host and port of a URL as
  \<open>urllib.parse.urlparse\<close> reads them, and the classification of Python's \<open>ipaddress\<close> for the
  addresses the resolver returns. The resolver is a parameter: it answers with the addresses
  of a host name, or not at all (\<open>gaierror\<close>).
\<close>

unbundle bit_operations_syntax

subsection \<open>Networks\<close>

datatype ip_address = IPv4 "32 word" | IPv6 "128 word"

text \<open>Membership in \<open>base/prefix\<close>.\<close>

definition in_net :: "'a::len word \<Rightarrow> nat \<Rightarrow> 'a word \<Rightarrow> bool" where
  "in_net base prefix a = (drop_bit (LENGTH('a) - prefix) a = drop_bit (LENGTH('a) - prefix) base)"

definition ipv4 :: "nat \<Rightarrow> nat \<Rightarrow> nat \<Rightarrow> nat \<Rightarrow> 32 word" where
  "ipv4 a b c d = of_nat (((a * 256 + b) * 256 + c) * 256 + d)"

definition private_networks4 :: "(32 word \<times> nat) list" where
  "private_networks4 =
     [(ipv4 0 0 0 0, 8), (ipv4 10 0 0 0, 8), (ipv4 127 0 0 0, 8), (ipv4 169 254 0 0, 16),
      (ipv4 172 16 0 0, 12), (ipv4 192 0 0 0, 24), (ipv4 192 0 0 170, 31), (ipv4 192 0 2 0, 24),
      (ipv4 192 168 0 0, 16), (ipv4 198 18 0 0, 15), (ipv4 198 51 100 0, 24),
      (ipv4 203 0 113 0, 24), (ipv4 240 0 0 0, 4), (ipv4 255 255 255 255, 32)]"

definition private_exceptions4 :: "(32 word \<times> nat) list" where
  "private_exceptions4 = [(ipv4 192 0 0 9, 32), (ipv4 192 0 0 10, 32)]"

definition in_some_net :: "('a::len word \<times> nat) list \<Rightarrow> 'a word \<Rightarrow> bool" where
  "in_some_net nets a = list_ex (\<lambda>(base, prefix). in_net base prefix a) nets"

definition is_private4 :: "32 word \<Rightarrow> bool" where
  "is_private4 a = (in_some_net private_networks4 a \<and> \<not> in_some_net private_exceptions4 a)"

definition is_loopback4 :: "32 word \<Rightarrow> bool" where
  "is_loopback4 a = in_net (ipv4 127 0 0 0) 8 a"

definition is_link_local4 :: "32 word \<Rightarrow> bool" where
  "is_link_local4 a = in_net (ipv4 169 254 0 0) 16 a"

text \<open>The eight groups of an IPv6 address; an IPv4-mapped one starts with five zero groups and \<open>ffff\<close>.\<close>

definition ipv6 :: "nat list \<Rightarrow> 128 word" where
  "ipv6 groups = of_nat (foldl (\<lambda>acc g. acc * 65536 + g) 0 groups)"

definition private_networks6 :: "(128 word \<times> nat) list" where
  "private_networks6 =
     [(ipv6 [0, 0, 0, 0, 0, 0, 0, 1], 128), (ipv6 [0, 0, 0, 0, 0, 0, 0, 0], 128),
      (ipv6 [0, 0, 0, 0, 0, 0xffff, 0, 0], 96), (ipv6 [0x64, 0xff9b, 1, 0, 0, 0, 0, 0], 48),
      (ipv6 [0x100, 0, 0, 0, 0, 0, 0, 0], 64), (ipv6 [0x2001, 0, 0, 0, 0, 0, 0, 0], 23),
      (ipv6 [0x2001, 0xdb8, 0, 0, 0, 0, 0, 0], 32), (ipv6 [0x2002, 0, 0, 0, 0, 0, 0, 0], 16),
      (ipv6 [0x3fff, 0, 0, 0, 0, 0, 0, 0], 20), (ipv6 [0xfc00, 0, 0, 0, 0, 0, 0, 0], 7),
      (ipv6 [0xfe80, 0, 0, 0, 0, 0, 0, 0], 10)]"

definition private_exceptions6 :: "(128 word \<times> nat) list" where
  "private_exceptions6 =
     [(ipv6 [0x2001, 1, 0, 0, 0, 0, 0, 1], 128), (ipv6 [0x2001, 1, 0, 0, 0, 0, 0, 2], 128),
      (ipv6 [0x2001, 3, 0, 0, 0, 0, 0, 0], 32), (ipv6 [0x2001, 4, 0x112, 0, 0, 0, 0, 0], 48),
      (ipv6 [0x2001, 0x20, 0, 0, 0, 0, 0, 0], 28), (ipv6 [0x2001, 0x30, 0, 0, 0, 0, 0, 0], 28)]"

definition ipv4_mapped :: "128 word \<Rightarrow> 32 word option" where
  "ipv4_mapped a = (if drop_bit 32 a = 0xffff then Some (ucast a) else None)"

fun is_private :: "ip_address \<Rightarrow> bool" where
  "is_private (IPv4 a) = is_private4 a"
| "is_private (IPv6 a) = (case ipv4_mapped a of
       Some m \<Rightarrow> is_private4 m
     | None \<Rightarrow> in_some_net private_networks6 a \<and> \<not> in_some_net private_exceptions6 a)"

fun is_loopback :: "ip_address \<Rightarrow> bool" where
  "is_loopback (IPv4 a) = is_loopback4 a"
| "is_loopback (IPv6 a) = (case ipv4_mapped a of Some m \<Rightarrow> is_loopback4 m | None \<Rightarrow> a = 1)"

fun is_link_local :: "ip_address \<Rightarrow> bool" where
  "is_link_local (IPv4 a) = is_link_local4 a"
| "is_link_local (IPv6 a) = (case ipv4_mapped a of
       Some m \<Rightarrow> is_link_local4 m
     | None \<Rightarrow> in_net (ipv6 [0xfe80, 0, 0, 0, 0, 0, 0, 0]) 10 a)"

definition refused_address :: "ip_address \<Rightarrow> bool" where
  "refused_address a = (is_private a \<or> is_loopback a \<or> is_link_local a)"

subsection \<open>Host and port of a URL\<close>

text \<open>
  \<open>s.partition(c)\<close> and the part of \<open>s\<close> after the last \<open>c\<close>. Control characters and blanks in
  front of a URL are dropped, tabs and line ends anywhere in it.
\<close>

definition before_char :: "char \<Rightarrow> string \<Rightarrow> string" where
  "before_char c s = takeWhile (\<lambda>x. x \<noteq> c) s"

definition after_char :: "char \<Rightarrow> string \<Rightarrow> string" where
  "after_char c s = drop 1 (dropWhile (\<lambda>x. x \<noteq> c) s)"

definition after_last :: "char \<Rightarrow> string \<Rightarrow> string" where
  "after_last c s = rev (takeWhile (\<lambda>x. x \<noteq> c) (rev s))"

definition is_alpha_char :: "char \<Rightarrow> bool" where
  "is_alpha_char c = (let n = of_char c :: nat in (65 \<le> n \<and> n \<le> 90) \<or> (97 \<le> n \<and> n \<le> 122))"

definition is_scheme_char :: "char \<Rightarrow> bool" where
  "is_scheme_char c = (is_alpha_char c \<or> digit_val c \<noteq> None \<or> c \<in> {CHR ''+'', CHR ''-'', CHR ''.''})"

definition clean_url :: "string \<Rightarrow> string" where
  "clean_url url = filter (\<lambda>c. (of_char c :: nat) \<notin> {9, 10, 13})
     (dropWhile (\<lambda>c. (of_char c :: nat) \<le> 32) url)"

text \<open>Scheme and rest; a text without a well-formed scheme has the empty one.\<close>

definition split_scheme :: "string \<Rightarrow> string \<times> string" where
  "split_scheme url =
     (let s = before_char (CHR '':'') url
      in if CHR '':'' \<in> set url \<and> s \<noteq> [] \<and> is_alpha_char (hd s) \<and> list_all is_scheme_char s
         then (lower s, after_char (CHR '':'') url) else ([], url))"

text \<open>
  Brackets must come in pairs. What stands between them is not validated here: a text that is
  no IPv6 address has no addresses, and \<open>ValueError\<close> and an empty answer end alike.
\<close>

definition url_netloc :: "string \<Rightarrow> string option" where
  "url_netloc rest =
     (let netloc = (if take 2 rest = ''//''
                    then takeWhile (\<lambda>c. c \<notin> {CHR ''/'', CHR ''?'', CHR ''#''}) (drop 2 rest) else [])
      in if (CHR ''['' \<in> set netloc) = (CHR '']'' \<in> set netloc) then Some netloc else None)"

definition host_info :: "string \<Rightarrow> string \<times> string" where
  "host_info netloc =
     (let hostinfo = after_last (CHR ''@'') netloc
      in if CHR ''['' \<in> set hostinfo
         then (let bracketed = after_char (CHR ''['') hostinfo
               in (before_char (CHR '']'') bracketed,
                   after_char (CHR '':'') (after_char (CHR '']'') bracketed)))
         else (before_char (CHR '':'') hostinfo, after_char (CHR '':'') hostinfo))"

definition url_hostname :: "string \<Rightarrow> string option" where
  "url_hostname netloc =
     (let host = fst (host_info netloc)
      in if host = [] then None
         else Some (lower (before_char (CHR ''%'') host) @ dropWhile (\<lambda>x. x \<noteq> CHR ''%'') host))"

text \<open>\<open>Some None\<close>: no port; \<open>None\<close>: \<open>ValueError\<close>.\<close>

definition url_port :: "string \<Rightarrow> int option option" where
  "url_port netloc =
     (let port = snd (host_info netloc)
      in if port = [] then Some None
         else if list_all (\<lambda>c. digit_val c \<noteq> None) port
         then (case py_digits 0 port of
                 Some n \<Rightarrow> if n \<le> 65535 then Some (Some n) else None
               | None \<Rightarrow> None)
         else None)"

subsection \<open>\<open>_resolve_safe_addrs\<close>\<close>

definition resolve_safe_addrs ::
  "(string \<Rightarrow> ip_address list option) \<Rightarrow> string \<Rightarrow> (ip_address \<times> int) list option" where
  "resolve_safe_addrs dns url =
     (let (scheme, rest) = split_scheme (clean_url url)
      in (case url_netloc rest of None \<Rightarrow> None
          | Some netloc \<Rightarrow> (case url_hostname netloc of None \<Rightarrow> None
          | Some hostname \<Rightarrow> (case url_port netloc of None \<Rightarrow> None
          | Some given_port \<Rightarrow>
              (let port = (case given_port of
                     Some n \<Rightarrow> if n \<noteq> 0 then n else if scheme = ''https'' then 443 else 80
                   | None \<Rightarrow> if scheme = ''https'' then 443 else 80)
               in (case dns hostname of None \<Rightarrow> None
                   | Some addrs \<Rightarrow>
                       if list_ex refused_address addrs then None
                       else if addrs = [] then None
                       else Some (map (\<lambda>a. (a, port)) addrs)))))))"

subsection \<open>What the check refuses\<close>

text \<open>The host name the check asks the resolver for.\<close>

definition checked_host :: "string \<Rightarrow> string option" where
  "checked_host url = Option.bind (url_netloc (snd (split_scheme (clean_url url)))) url_hostname"

lemma resolve_safe_addrs_Some:
  assumes "resolve_safe_addrs dns url = Some sa"
  shows "\<exists>host addrs. checked_host url = Some host \<and> dns host = Some addrs \<and> addrs \<noteq> [] \<and>
    map fst sa = addrs \<and> (\<forall>a \<in> set addrs. \<not> refused_address a)"
  using assms
  by (auto simp: resolve_safe_addrs_def checked_host_def Let_def list_ex_iff comp_def
      split: prod.splits option.splits if_splits)

text \<open>The ranges of private IPv4 networks as intervals of addresses.\<close>

lemma in_net_interval:
  fixes base a :: "'a::len word"
  assumes "prefix \<le> LENGTH('a)" and "2 ^ (LENGTH('a) - prefix) dvd unat base"
  shows "in_net base prefix a \<longleftrightarrow>
    unat base \<le> unat a \<and> unat a < unat base + 2 ^ (LENGTH('a) - prefix)"
proof -
  let ?n = "LENGTH('a) - prefix"
  obtain k where k: "unat base = 2 ^ ?n * k" using assms(2) by (elim dvdE)
  have unat_shift: "unat (drop_bit m w) = unat w div 2 ^ m" for m and w :: "'a word"
    by (metis drop_bit_eq_div of_nat_drop_bit unat_drop_bit_eq)
  have "in_net base prefix a \<longleftrightarrow> unat a div 2 ^ ?n = unat base div 2 ^ ?n"
    unfolding in_net_def word_unat_eq_iff unat_shift ..
  also have "\<dots> \<longleftrightarrow> unat a div 2 ^ ?n = k"
    by (simp add: k)
  also have "\<dots> \<longleftrightarrow> 2 ^ ?n * k \<le> unat a \<and> unat a < 2 ^ ?n * k + 2 ^ ?n"
    by (metis add.commute div_nat_eqI dividend_less_times_div mult_Suc_right nat_zero_less_power_iff
        times_div_less_eq_dividend zero_less_numeral)
  finally show ?thesis by (simp add: k)
qed

lemma unat_ipv4:
  assumes "a < 256" "b < 256" "c < 256" "d < 256"
  shows "unat (ipv4 a b c d) = ((a * 256 + b) * 256 + c) * 256 + d"
proof -
  have "((a * 256 + b) * 256 + c) * 256 + d < 2 ^ LENGTH(32)" using assms by simp
  then show ?thesis by (simp only: ipv4_def unat_of_nat mod_less)
qed

text \<open>The networks of an organisation and of the host itself are refused, the shared address space of carriers is not.\<close>

lemma refused_networks:
  assumes "b < 256" "c < 256" "d < 256"
  shows "refused_address (IPv4 (ipv4 10 b c d))"
    and "refused_address (IPv4 (ipv4 127 b c d))"
    and "refused_address (IPv4 (ipv4 169 254 c d))"
    and "refused_address (IPv4 (ipv4 192 168 c d))"
    and "16 \<le> b \<Longrightarrow> b < 32 \<Longrightarrow> refused_address (IPv4 (ipv4 172 b c d))"
    and "64 \<le> b \<Longrightarrow> b < 128 \<Longrightarrow> \<not> refused_address (IPv4 (ipv4 100 b c d))"
  using assms
  by (simp_all add: refused_address_def is_private4_def is_loopback4_def is_link_local4_def
      in_some_net_def private_networks4_def private_exceptions4_def in_net_interval unat_ipv4)

end
