(* ===== verification/Tokens.thy ===== *)
theory Tokens
  imports Prelude
begin

section \<open>Random tokens\<close>

text \<open>
  \<open>core/crypto.py\<close>: tokens of 32 random bytes and a 4-byte integrity tag in URL-safe base64,
  and the keyed hashes stored in their place. Bytes are numbers below 256, the hash function
  BLAKE2b is a parameter (key, digest size, data), the random bytes are drawn by the caller.
\<close>

definition ENTROPY_SIZE :: nat where "ENTROPY_SIZE = 32"

definition TAG_SIZE :: nat where "TAG_SIZE = 4"

type_synonym blake2b = "nat list \<Rightarrow> nat \<Rightarrow> nat list \<Rightarrow> nat list"

text \<open>\<open>base64\<close>: six bits a character, three bytes to four characters.\<close>

fun sextets :: "nat list \<Rightarrow> nat list" where
  "sextets [] = []"
| "sextets [a] = [a div 4, a mod 4 * 16]"
| "sextets [a, b] = [a div 4, a mod 4 * 16 + b div 16, b mod 16 * 4]"
| "sextets (a # b # c # bs) =
     [a div 4, a mod 4 * 16 + b div 16, b mod 16 * 4 + c div 64, c mod 64] @ sextets bs"

definition b64_char :: "string \<Rightarrow> nat \<Rightarrow> char" where
  "b64_char extra n =
     (if n < 26 then char_of (65 + n)
      else if n < 52 then char_of (97 + (n - 26))
      else if n < 62 then char_of (48 + (n - 52))
      else extra ! (n - 62))"

definition standard_b64encode :: "nat list \<Rightarrow> string" where
  "standard_b64encode bs = map (b64_char ''+/'') (sextets bs) @ replicate ((3 - length bs mod 3) mod 3) (CHR ''='')"

text \<open>\<open>base64.urlsafe_b64encode(bs).rstrip(b"=")\<close>.\<close>

definition urlsafe_unpadded :: "nat list \<Rightarrow> string" where
  "urlsafe_unpadded bs = map (b64_char ''-_'') (sextets bs)"

definition str_bytes :: "string \<Rightarrow> nat list" where
  "str_bytes s = map of_char s"

text \<open>\<open>bytes.hex()\<close>.\<close>

definition hex_digit :: "nat \<Rightarrow> char" where
  "hex_digit n = (if n < 10 then char_of (48 + n) else char_of (97 + (n - 10)))"

definition hex_bytes :: "nat list \<Rightarrow> string" where
  "hex_bytes bs = concat (map (\<lambda>b. [hex_digit (b div 16), hex_digit (b mod 16)]) bs)"

definition keyed_blake2b :: "blake2b \<Rightarrow> nat list \<Rightarrow> nat list \<Rightarrow> nat \<Rightarrow> nat list" where
  "keyed_blake2b h data key digest_size = h key digest_size data"

definition integrity_tag :: "blake2b \<Rightarrow> nat list \<Rightarrow> nat list" where
  "integrity_tag h payload = h [] TAG_SIZE payload"

definition get_token_hash :: "blake2b \<Rightarrow> string \<Rightarrow> string \<Rightarrow> string" where
  "get_token_hash h secret token = hex_bytes (keyed_blake2b h (str_bytes token) (str_bytes secret) 32)"

definition generate_token :: "blake2b \<Rightarrow> string \<Rightarrow> nat list \<Rightarrow> string" where
  "generate_token h prefix entropy = prefix @ urlsafe_unpadded (entropy @ integrity_tag h entropy)"

definition pad_b64 :: "string \<Rightarrow> string" where
  "pad_b64 s = s @ replicate ((4 - length s mod 4) mod 4) (CHR ''='')"

definition generate_token_hash_pair :: "blake2b \<Rightarrow> string \<Rightarrow> string \<Rightarrow> nat list \<Rightarrow> string \<times> string" where
  "generate_token_hash_pair h secret prefix entropy =
     (let token = generate_token h prefix entropy in (token, get_token_hash h secret token))"

subsection \<open>Decoding\<close>

text \<open>\<open>base64.urlsafe_b64decode\<close> on unpadded text of the alphabet.\<close>

definition b64_value :: "char \<Rightarrow> nat" where
  "b64_value c = (let n = of_char c :: nat in
     if 65 \<le> n \<and> n \<le> 90 then n - 65
     else if 97 \<le> n \<and> n \<le> 122 then n - 97 + 26
     else if 48 \<le> n \<and> n \<le> 57 then n - 48 + 52
     else if c = CHR ''-'' then 62 else 63)"

fun unsextets :: "nat list \<Rightarrow> nat list" where
  "unsextets (w # x # y # z # ss) =
     [w * 4 + x div 16, x mod 16 * 16 + y div 4, y mod 4 * 64 + z] @ unsextets ss"
| "unsextets [w, x, y] = [w * 4 + x div 16, x mod 16 * 16 + y div 4]"
| "unsextets [w, x] = [w * 4 + x div 16]"
| "unsextets ss = []"

definition urlsafe_decode :: "string \<Rightarrow> nat list" where
  "urlsafe_decode s = unsextets (map b64_value s)"

lemma sextets_bound: "\<forall>b \<in> set bs. b < 256 \<Longrightarrow> \<forall>n \<in> set (sextets bs). n < 64"
  by (induction bs rule: sextets.induct) auto

lemma b64_value_char: "n < 64 \<Longrightarrow> b64_value (b64_char ''-_'' n) = n"
  by (cases "n = 62"; cases "n = 63") (auto simp: b64_char_def b64_value_def Let_def)

lemma unsextets_sextets: "\<forall>b \<in> set bs. b < 256 \<Longrightarrow> unsextets (sextets bs) = bs"
  by (induction bs rule: sextets.induct) (auto simp: div_mult2_eq [symmetric])

lemma length_sextets: "length (sextets bs) = (4 * length bs + 2) div 3"
  by (induction bs rule: sextets.induct) auto

lemma urlsafe_decode_encode:
  assumes "\<forall>b \<in> set bs. b < 256"
  shows "urlsafe_decode (urlsafe_unpadded bs) = bs"
proof -
  have "map (b64_value \<circ> b64_char ''-_'') (sextets bs) = sextets bs"
    using sextets_bound [OF assms] b64_value_char by (auto intro: map_idI)
  then show ?thesis
    by (simp add: urlsafe_decode_def urlsafe_unpadded_def unsextets_sextets assms)
qed

text \<open>A token carries 36 bytes in 48 characters and can be decoded again.\<close>

lemma generate_token_length:
  assumes "length entropy = ENTROPY_SIZE" and "length (integrity_tag h entropy) = TAG_SIZE"
  shows "length (generate_token h prefix entropy) = length prefix + 48"
  using assms
  by (simp add: generate_token_def urlsafe_unpadded_def length_sextets ENTROPY_SIZE_def TAG_SIZE_def)

lemma generate_token_decodes:
  assumes "\<forall>b \<in> set entropy. b < 256" and "\<forall>b \<in> set (integrity_tag h entropy). b < 256"
  shows "urlsafe_decode (drop (length prefix) (generate_token h prefix entropy)) =
    entropy @ integrity_tag h entropy"
  using assms by (simp add: generate_token_def urlsafe_decode_encode ball_Un)

lemma generate_token_inject:
  assumes "\<forall>b \<in> set e. b < 256" "\<forall>b \<in> set (integrity_tag h e). b < 256"
    and "\<forall>b \<in> set e'. b < 256" "\<forall>b \<in> set (integrity_tag h e'). b < 256"
    and "length e = length e'"
    and "generate_token h prefix e = generate_token h prefix e'"
  shows "e = e'"
  using generate_token_decodes [OF assms(1,2), of prefix]
    generate_token_decodes [OF assms(3,4), of prefix] assms(5,6)
  by (metis append_eq_append_conv)

end
