(* ===== verification/Webhook_Delivery.thy ===== *)
theory Webhook_Delivery
  imports Webhook_Tables Webhook_Addresses Tokens
begin

section \<open>Outgoing webhooks: endpoints, events and their delivery\<close>

text \<open>
  \<open>messaging/webhook/actions.py\<close> and the tasks of \<open>messaging/webhook/workers.py\<close>. A task runs
  in the session of \<open>AsyncSessionMaker\<close>: what it wrote is committed when it returns and rolled
  back when it raises, \<open>Retry\<close> included, and the jobs it dispatched reach the queue only in the
  first case. A delivery attempt also yields the requests it sent, which nothing takes back.
  The signature library, the schemas of the payloads, the resolver and the receiver are
  parameters.
\<close>

subsection \<open>Settings\<close>

definition WEBHOOK_MAX_RETRIES :: nat where "WEBHOOK_MAX_RETRIES = 10"

definition WEBHOOK_FAILURE_THRESHOLD :: nat where "WEBHOOK_FAILURE_THRESHOLD = 10"

definition WEBHOOK_EVENT_RETENTION_PERIOD :: int where "WEBHOOK_EVENT_RETENTION_PERIOD = 30 * 86400"

definition WEBHOOK_SECRET_PREFIX :: string where "WEBHOOK_SECRET_PREFIX = ''rapidly_whs_''"

definition FAVICON_URL :: string where
  "FAVICON_URL = ''https://raw.githubusercontent.com/rapidly-tech/rapidly/2648cf7472b5128704a097cd1eb3ae5f1dd847e5/docs/docs/assets/favicon.png''"

definition THUMBNAIL_URL :: string where
  "THUMBNAIL_URL = ''https://raw.githubusercontent.com/rapidly-tech/rapidly/4fd899222e200ca70982f437039f549b7a822ecc/clients/apps/web/public/email-logo-dark.png''"

subsection \<open>Sessions\<close>

text \<open>\<open>AsyncSessionMaker\<close>: commit on return, rollback on an exception.\<close>

definition in_session :: "(hooks \<Rightarrow> 'a hook_result) \<Rightarrow> hooks \<Rightarrow> 'a hook_result" where
  "in_session f s = (case f s of (Inr x, s') \<Rightarrow> (Inr x, s') | (Inl e, s') \<Rightarrow> (Inl e, s))"

definition dispatch_job :: "hook_job \<Rightarrow> hooks \<Rightarrow> hooks" where
  "dispatch_job j s = s\<lparr>hk_jobs := hk_jobs s @ [j]\<rparr>"

definition update_event :: "uuid \<Rightarrow> (hook_event \<Rightarrow> hook_event) \<Rightarrow> hooks \<Rightarrow> hooks" where
  "update_event i g s = s\<lparr>hk_events := map (\<lambda>ev. if ev_id ev = i then g ev else ev) (hk_events s)\<rparr>"

definition update_endpoint_row :: "uuid \<Rightarrow> (hook_endpoint \<Rightarrow> hook_endpoint) \<Rightarrow> hooks \<Rightarrow> hooks" where
  "update_endpoint_row i g s = s\<lparr>hk_endpoints := map (\<lambda>e. if ep_id e = i then g e else e) (hk_endpoints s)\<rparr>"

definition add_delivery :: "hook_delivery \<Rightarrow> hooks \<Rightarrow> hooks" where
  "add_delivery d s = s\<lparr>hk_deliveries := hk_deliveries s @ [d]\<rparr>"

subsection \<open>Payloads\<close>

text \<open>
  A validated payload: its type, its time as the schema prints it, and the dumped fields of its
  data with the id among them.
\<close>

record hook_payload =
  hp_type :: hook_type
  hp_timestamp :: int
  hp_printed_time :: string
  hp_data_id :: uuid
  hp_data :: "(string \<times> json) list"

definition get_raw_payload :: "hook_payload \<Rightarrow> json" where
  "get_raw_payload p = JObj [(''type'', JStr (hook_type_value (hp_type p))),
     (''timestamp'', JStr (hp_printed_time p)), (''data'', JObj (hp_data p))]"

definition brand_defaults :: "(string \<times> json) list" where
  "brand_defaults = [(''color'', JInt 25343),
     (''author'', JObj [(''name'', JStr ''Rapidly''), (''icon_url'', JStr FAVICON_URL)]),
     (''thumbnail'', JObj [(''url'', JStr THUMBNAIL_URL)]),
     (''footer'', JObj [(''text'', JStr ''Powered by Rapidly'')])]"

text \<open>\<open>{**a, **b}\<close> with the keys of \<open>b\<close> taking precedence, in the order of first appearance.\<close>

definition dict_merge :: "(string \<times> json) list \<Rightarrow> (string \<times> json) list \<Rightarrow> (string \<times> json) list" where
  "dict_merge a b =
     map (\<lambda>(k, v). (k, case map_of b k of Some w \<Rightarrow> w | None \<Rightarrow> v)) a @
     filter (\<lambda>(k, v). k \<notin> fst ` set a) b"

definition get_branded_discord_embed :: "(string \<times> json) list \<Rightarrow> json" where
  "get_branded_discord_embed overrides = JObj (dict_merge brand_defaults overrides)"

definition get_discord_payload :: "hook_payload \<Rightarrow> string \<Rightarrow> json" where
  "get_discord_payload p workspace_name =
     (let t = JStr (hook_type_value (hp_type p));
          flds = [JObj [(''name'', JStr ''Object''), (''value'', JStr (hp_data_id p))],
                    JObj [(''name'', JStr ''Workspace''), (''value'', JStr workspace_name)]]
      in JObj [(''content'', t),
               (''embeds'', JList [get_branded_discord_embed
                  [(''title'', t), (''description'', t), (''fields'', JList flds)]])])"

definition brand_context_block :: json where
  "brand_context_block = JObj [(''type'', JStr ''context''),
     (''elements'', JList
        [JObj [(''type'', JStr ''image''), (''image_url'', JStr FAVICON_URL), (''alt_text'', JStr ''Rapidly'')],
         JObj [(''type'', JStr ''mrkdwn''), (''text'', JStr ''Powered by Rapidly'')]])]"

definition get_branded_slack_payload :: "(string \<times> json) list \<Rightarrow> json list \<Rightarrow> json" where
  "get_branded_slack_payload payload blocks =
     JObj (dict_merge payload [(''blocks'', JList (blocks @ [brand_context_block]))])"

definition mrkdwn :: "string \<Rightarrow> json" where
  "mrkdwn t = JObj [(''type'', JStr ''mrkdwn''), (''text'', JStr t)]"

definition get_slack_payload :: "hook_payload \<Rightarrow> string \<Rightarrow> json" where
  "get_slack_payload p workspace_name =
     (let t = hook_type_value (hp_type p);
          flds = [mrkdwn (''*Object*'' @ [CHR 0x0A] @ hp_data_id p),
                    mrkdwn (''*Workspace*'' @ [CHR 0x0A] @ workspace_name)];
          blocks = [JObj [(''type'', JStr ''section''), (''text'', mrkdwn t), (''fields'', JList flds)]]
      in get_branded_slack_payload [(''text'', JStr t), (''blocks'', JList blocks)] blocks)"

text \<open>The target of an event is always a workspace; no payload overrides the generic ones.\<close>

definition get_payload :: "hook_payload \<Rightarrow> hook_format \<Rightarrow> string \<Rightarrow> json" where
  "get_payload p fmt workspace_name = (case fmt of
       Raw \<Rightarrow> get_raw_payload p
     | Discord \<Rightarrow> get_discord_payload p workspace_name
     | Slack \<Rightarrow> get_slack_payload p workspace_name)"

subsection \<open>Endpoints\<close>

record endpoint_create =
  ec_url :: string
  ec_secret :: "string option"
  ec_format :: hook_format
  ec_events :: "hook_type list"
  ec_workspace_id :: "uuid option"

record endpoint_update =
  eu_url :: "string option"
  eu_secret :: "string option"
  eu_format :: "hook_format option"
  eu_events :: "hook_type list option"
  eu_enabled :: "bool option"

text \<open>
  \<open>get_payload_workspace\<close>: the workspace of the token, or one the user is a member of. The
  statement asks neither whether the workspace is deleted nor whether it is blocked. Other
  subjects are kept out by the permissions of the routes.
\<close>

definition get_payload_workspace :: "subject \<Rightarrow> uuid option \<Rightarrow> hooks \<Rightarrow> hook_error + uuid" where
  "get_payload_workspace auth workspace_id s = (case auth of
       Workspace w \<Rightarrow> (case workspace_id of
           Some _ \<Rightarrow> Inl (RequestValidationError ''Setting workspace_id is disallowed when using an workspace token.'')
         | None \<Rightarrow> Inr w)
     | User u \<Rightarrow> (case workspace_id of
           None \<Rightarrow> Inl (RequestValidationError ''workspace_id is required.'')
         | Some i \<Rightarrow> bind_sum (select_one s (filter (\<lambda>w. w_id w = i \<and> member_of u (hk_pg s) (w_id w))
               (pg_workspaces (hk_pg s))))
             (\<lambda>found. case found of
                None \<Rightarrow> Inl (RequestValidationError ''Workspace not found.'')
              | Some w \<Rightarrow> Inr (w_id w)))
     | _ \<Rightarrow> Inl AttributeError)"

text \<open>\<open>new_id\<close> and \<open>entropy\<close> are drawn; a generated secret replaces a missing one.\<close>

definition create_endpoint ::
  "blake2b \<Rightarrow> subject \<Rightarrow> endpoint_create \<Rightarrow> int \<Rightarrow> uuid \<Rightarrow> nat list \<Rightarrow> hooks \<Rightarrow> hook_endpoint hook_result" where
  "create_endpoint h auth c now new_id entropy s =
     (case get_payload_workspace auth (ec_workspace_id c) s of
        Inl e \<Rightarrow> (Inl e, s)
      | Inr w \<Rightarrow>
          (let secret = (case ec_secret c of Some x \<Rightarrow> x | None \<Rightarrow> generate_token h WEBHOOK_SECRET_PREFIX entropy);
               e = \<lparr>ep_id = new_id, ep_url = ec_url c, ep_format = ec_format c, ep_secret = secret,
                    ep_events = ec_events c, ep_enabled = True, ep_workspace_id = w,
                    ep_created_at = now, ep_deleted_at = None\<rparr>
           in (Inr e, s\<lparr>hk_endpoints := hk_endpoints s @ [e]\<rparr>)))"

text \<open>\<open>model_dump(exclude_unset=True, exclude_none=True)\<close>: a field that is null or not given stays as it is.\<close>

definition or_keep :: "'a option \<Rightarrow> 'a \<Rightarrow> 'a" where
  "or_keep x old = (case x of Some v \<Rightarrow> v | None \<Rightarrow> old)"

lemma or_keep_simps [simp]: "or_keep None old = old" "or_keep (Some v) old = v"
  by (simp_all add: or_keep_def)

definition apply_endpoint_update :: "endpoint_update \<Rightarrow> hook_endpoint \<Rightarrow> hook_endpoint" where
  "apply_endpoint_update u e = e\<lparr>ep_url := or_keep (eu_url u) (ep_url e),
     ep_secret := or_keep (eu_secret u) (ep_secret e), ep_format := or_keep (eu_format u) (ep_format e),
     ep_events := or_keep (eu_events u) (ep_events e), ep_enabled := or_keep (eu_enabled u) (ep_enabled e)\<rparr>"

definition update_endpoint :: "hook_endpoint \<Rightarrow> endpoint_update \<Rightarrow> hooks \<Rightarrow> hooks" where
  "update_endpoint e u s = update_endpoint_row (ep_id e) (apply_endpoint_update u) s"

definition reset_endpoint_secret :: "blake2b \<Rightarrow> nat list \<Rightarrow> hook_endpoint \<Rightarrow> hooks \<Rightarrow> hooks" where
  "reset_endpoint_secret h entropy e s =
     update_endpoint_row (ep_id e) (\<lambda>r. r\<lparr>ep_secret := generate_token h WEBHOOK_SECRET_PREFIX entropy\<rparr>) s"

definition delete_endpoint :: "int \<Rightarrow> hook_endpoint \<Rightarrow> hooks \<Rightarrow> hooks" where
  "delete_endpoint now e s = update_endpoint_row (ep_id e) (\<lambda>r. r\<lparr>ep_deleted_at := Some now\<rparr>) s"

definition get_endpoint :: "subject \<Rightarrow> uuid \<Rightarrow> hooks \<Rightarrow> hook_error + hook_endpoint option" where
  "get_endpoint auth i s = select_one s (filter (\<lambda>e. ep_id e = i) (readable_endpoints auth s))"

text \<open>
  The routes of one endpoint in \<open>messaging/webhook/api.py\<close>: 404 unless the subject reads it,
  then the operation.
\<close>

definition endpoint_route :: "subject \<Rightarrow> uuid \<Rightarrow> (hook_endpoint \<Rightarrow> hooks \<Rightarrow> hooks) \<Rightarrow> hooks \<Rightarrow> unit hook_result" where
  "endpoint_route auth i f s = (case get_endpoint auth i s of
       Inl e \<Rightarrow> (Inl e, s)
     | Inr None \<Rightarrow> (Inl ResourceNotFound, s)
     | Inr (Some e) \<Rightarrow> (Inr (), f e s))"

definition get_webhook_endpoint :: "subject \<Rightarrow> uuid \<Rightarrow> hooks \<Rightarrow> hook_error + hook_endpoint" where
  "get_webhook_endpoint auth i s = bind_sum (get_endpoint auth i s)
     (\<lambda>found. case found of None \<Rightarrow> Inl ResourceNotFound | Some e \<Rightarrow> Inr e)"

definition update_webhook_endpoint :: "subject \<Rightarrow> uuid \<Rightarrow> endpoint_update \<Rightarrow> hooks \<Rightarrow> unit hook_result" where
  "update_webhook_endpoint auth i u s = endpoint_route auth i (\<lambda>e. update_endpoint e u) s"

definition reset_webhook_endpoint_secret :: "blake2b \<Rightarrow> nat list \<Rightarrow> subject \<Rightarrow> uuid \<Rightarrow> hooks \<Rightarrow> unit hook_result" where
  "reset_webhook_endpoint_secret h entropy auth i s = endpoint_route auth i (reset_endpoint_secret h entropy) s"

definition delete_webhook_endpoint :: "int \<Rightarrow> subject \<Rightarrow> uuid \<Rightarrow> hooks \<Rightarrow> unit hook_result" where
  "delete_webhook_endpoint now auth i s = endpoint_route auth i (delete_endpoint now) s"

definition list_endpoints ::
  "subject \<Rightarrow> uuid list option \<Rightarrow> string option \<Rightarrow> nat \<Rightarrow> nat \<Rightarrow> hooks \<Rightarrow> hook_error + hook_endpoint list \<times> int" where
  "list_endpoints auth workspace_id url limit page s =
     map_sum Database id (paginate (hk_pg s) limit page
       (sort_key (\<lambda>e. - ep_created_at e) (endpoint_list_filters workspace_id url (readable_endpoints auth s))))"

definition list_deliveries ::
  "subject \<Rightarrow> delivery_filter \<Rightarrow> nat \<Rightarrow> nat \<Rightarrow> hooks \<Rightarrow> hook_error + hook_delivery list \<times> int" where
  "list_deliveries auth f limit page s =
     map_sum Database id (paginate (hk_pg s) limit page
       (sort_key (\<lambda>d. - dl_created_at d) (delivery_list_filters f s (readable_deliveries auth s))))"


subsection \<open>Creating events\<close>

text \<open>
  \<open>schema\<close> validates the data of an event against the schema of its type and prints it;
  \<open>None\<close> is a \<open>ValidationError\<close>. \<open>draw n\<close> is the id of the n-th event created by the call.
\<close>

definition hook_event_row :: "hook_payload \<Rightarrow> string \<Rightarrow> uuid \<Rightarrow> hook_endpoint \<Rightarrow> hook_event" where
  "hook_event_row p workspace_name i e =
     \<lparr>ev_id = i, ev_type = hp_type p, ev_payload = Some (get_payload p (ep_format e) workspace_name),
      ev_last_http_code = None, ev_succeeded = None, ev_skipped = False, ev_endpoint_id = ep_id e,
      ev_created_at = hp_timestamp p, ev_deleted_at = None\<rparr>"

fun create_events :: "hook_payload \<Rightarrow> string \<Rightarrow> uuid list \<Rightarrow> hook_endpoint list \<Rightarrow> hooks \<Rightarrow> hook_event list \<times> hooks" where
  "create_events p name (i # is) (e # es) s =
     (let ev = hook_event_row p name i e;
          s' = dispatch_job (Send_Job i False) (s\<lparr>hk_events := hk_events s @ [ev]\<rparr>);
          (evs, s'') = create_events p name is es s'
      in (ev # evs, s''))"
| "create_events p name is es s = ([], s)"

definition hook_send ::
  "(hook_type \<Rightarrow> 'd \<Rightarrow> (uuid \<times> (string \<times> json) list) option) \<Rightarrow> (int \<Rightarrow> string) \<Rightarrow> (nat \<Rightarrow> uuid) \<Rightarrow>
     int \<Rightarrow> uuid \<Rightarrow> hook_type \<Rightarrow> 'd \<Rightarrow> hooks \<Rightarrow> hook_event list hook_result" where
  "hook_send schema print_time draw now workspace_id t data s = (case schema t data of
       None \<Rightarrow> (Inl (RequestValidationError ''data''), s)
     | Some (data_id, flds) \<Rightarrow>
         (let p = \<lparr>hp_type = t, hp_timestamp = now, hp_printed_time = print_time now,
                   hp_data_id = data_id, hp_data = flds\<rparr>
          in (case get_active_for_event t workspace_id s of
                Inl e \<Rightarrow> (Inl e, s)
              | Inr es \<Rightarrow> (let (evs, s') = create_events p (hk_names s workspace_id)
                    (map draw [0..<length es]) es s in (Inr evs, s')))))"

subsection \<open>Delivering an event\<close>

text \<open>
  What surrounds one attempt: the clock, the retries of the message so far, the id drawn for
  the delivery row, whether the server runs in development, the resolver, and the answer of
  the receiver. \<open>Response code body reason\<close> is an HTTP response with the text of the
  \<open>HTTPStatusError\<close> that \<open>raise_for_status\<close> raises unless the code is 2xx; \<open>Http_Error\<close> is an
  \<open>httpx.HTTPError\<close> or \<open>SSLError\<close>, \<open>Other_Exception\<close> anything else the client raises.
\<close>

datatype http_reply =
    Response int string string
  | Http_Error string
  | Other_Exception

record attempt =
  at_now :: int
  at_retries :: nat
  at_delivery_id :: uuid
  at_development :: bool
  at_dns :: "string \<Rightarrow> ip_address list option"
  at_reply :: http_reply

record post =
  po_url :: string
  po_headers :: "(string \<times> string) list"
  po_content :: json

text \<open>\<open>StandardWebhook(b64secret).sign(id, ts, payload)\<close>.\<close>

type_synonym signer = "string \<Rightarrow> uuid \<Rightarrow> int \<Rightarrow> json \<Rightarrow> string"

definition can_retry :: "attempt \<Rightarrow> bool" where
  "can_retry at = (at_retries at < WEBHOOK_MAX_RETRIES)"

definition delivery_headers :: "signer \<Rightarrow> attempt \<Rightarrow> hook_endpoint \<Rightarrow> uuid \<Rightarrow> json \<Rightarrow> (string \<times> string) list" where
  "delivery_headers sign at ep i payload =
     [(''user-agent'', ''rapidly.tech webhooks''), (''content-type'', ''application/json''),
      (''webhook-id'', i), (''webhook-timestamp'', dec_int (at_now at)),
      (''webhook-signature'', sign (standard_b64encode (str_bytes (ep_secret ep))) i (at_now at) payload)]"

definition is_latest_event :: "int \<Rightarrow> hook_event \<Rightarrow> hooks \<Rightarrow> hook_error + bool" where
  "is_latest_event now ev s =
     map_sum id (\<lambda>n. n = 0) (count_undelivered_older_than (ev_endpoint_id ev) (ev_id ev) (ev_created_at ev) (now - 60) s)"

definition new_delivery :: "attempt \<Rightarrow> hook_event \<Rightarrow> bool \<Rightarrow> int option \<Rightarrow> string option \<Rightarrow> hook_delivery" where
  "new_delivery at ev ok code response =
     \<lparr>dl_id = at_delivery_id at, dl_succeeded = ok, dl_http_code = code, dl_response = response,
      dl_endpoint_id = ev_endpoint_id ev, dl_event_id = ev_id ev, dl_created_at = at_now at,
      dl_deleted_at = None\<rparr>"

text \<open>
  The \<open>except\<close>, \<open>else\<close> and \<open>finally\<close> branches. \<open>code\<close> is \<open>None\<close> when no response came;
  only a response changes the event's last code.
\<close>

definition set_last_code :: "int option \<Rightarrow> hook_event \<Rightarrow> hook_event" where
  "set_last_code code ev = (case code of None \<Rightarrow> ev | Some n \<Rightarrow> ev\<lparr>ev_last_http_code := Some n\<rparr>)"

definition delivery_failed :: "attempt \<Rightarrow> hook_event \<Rightarrow> int option \<Rightarrow> string option \<Rightarrow> string \<Rightarrow> hooks \<Rightarrow> unit hook_result" where
  "delivery_failed at ev code body error s =
     (let d = new_delivery at ev False code (case body of None \<Rightarrow> Some error | Some b \<Rightarrow> Some b);
          s1 = update_event (ev_id ev) (set_last_code code) s
      in if can_retry at then (Inl Retry, add_delivery d s1)
         else (Inr (), add_delivery d (dispatch_job (Failed_Job (ev_id ev))
                (update_event (ev_id ev) (\<lambda>e. e\<lparr>ev_succeeded := Some False\<rparr>) s1))))"

definition delivery_succeeded :: "attempt \<Rightarrow> hook_event \<Rightarrow> int \<Rightarrow> string option \<Rightarrow> hooks \<Rightarrow> unit hook_result" where
  "delivery_succeeded at ev code body s =
     (Inr (), add_delivery (new_delivery at ev True (Some code) body)
        (dispatch_job (Success_Job (ev_id ev))
          (update_event (ev_id ev) (\<lambda>e. e\<lparr>ev_last_http_code := Some code, ev_succeeded := Some True\<rparr>) s)))"

definition refused_response :: string where
  "refused_response = ''URL resolves to a private/internal IP address''"

definition deliver :: "signer \<Rightarrow> attempt \<Rightarrow> hook_endpoint \<Rightarrow> hook_event \<Rightarrow> json \<Rightarrow> hooks \<Rightarrow> unit hook_result \<times> post list" where
  "deliver sign at ep ev payload s = (case resolve_safe_addrs (at_dns at) (ep_url ep) of
       None \<Rightarrow> ((Inr (), add_delivery (new_delivery at ev False None (Some refused_response))
                  (update_event (ev_id ev) (\<lambda>e. e\<lparr>ev_succeeded := Some False\<rparr>) s)), [])
     | Some _ \<Rightarrow>
         if at_development at then (delivery_succeeded at ev 200 None s, [])
         else ((case at_reply at of
                  Response code body reason \<Rightarrow>
                    (let response = (if body \<noteq> [] then Some (take 2048 body) else None)
                     in if 200 \<le> code \<and> code < 300 then delivery_succeeded at ev code response s
                        else delivery_failed at ev (Some code) response reason s)
                | Http_Error error \<Rightarrow> delivery_failed at ev None None error s
                | Other_Exception \<Rightarrow> (Inl DeliveryUnset, s)),
               [\<lparr>po_url = ep_url ep, po_headers = delivery_headers sign at ep (ev_id ev) payload,
                 po_content = payload\<rparr>]))"

definition unskip :: "hook_event \<Rightarrow> hooks \<Rightarrow> hooks" where
  "unskip ev s = (if ev_skipped ev then update_event (ev_id ev) (\<lambda>e. e\<lparr>ev_skipped := False\<rparr>) s else s)"

definition send_attempt :: "signer \<Rightarrow> attempt \<Rightarrow> uuid \<Rightarrow> bool \<Rightarrow> hooks \<Rightarrow> unit hook_result \<times> post list" where
  "send_attempt sign at i redeliver s = (case event_by_id i s of
       Inl e \<Rightarrow> ((Inl e, s), [])
     | Inr None \<Rightarrow> ((Inl (Event_Not_Found i), s), [])
     | Inr (Some ev) \<Rightarrow> (case event_endpoint s ev of
         None \<Rightarrow> ((Inl AttributeError, s), [])
       | Some ep \<Rightarrow>
           if \<not> ep_enabled ep then ((Inr (), update_event i (\<lambda>e. e\<lparr>ev_skipped := True\<rparr>) s), [])
           else (case ev_payload ev of
             None \<Rightarrow> ((Inr (), s), [])
           | Some payload \<Rightarrow>
               if ev_succeeded ev = Some True \<and> \<not> redeliver then ((Inr (), s), [])
               else (case is_latest_event (at_now at) ev s of
                 Inl e \<Rightarrow> ((Inl e, s), [])
               | Inr False \<Rightarrow> ((Inl Retry, s), [])
               | Inr True \<Rightarrow> deliver sign at ep ev payload (unskip ev s)))))"

text \<open>The actors \<open>webhook_event.send\<close> and \<open>webhook_event.send.v2\<close>.\<close>

definition webhook_event_send :: "signer \<Rightarrow> attempt \<Rightarrow> uuid \<Rightarrow> bool \<Rightarrow> hooks \<Rightarrow> unit hook_result \<times> post list" where
  "webhook_event_send sign at i redeliver s =
     (in_session (\<lambda>s. fst (send_attempt sign at i redeliver s)) s, snd (send_attempt sign at i redeliver s))"

definition redeliver_event :: "subject \<Rightarrow> uuid \<Rightarrow> hooks \<Rightarrow> unit hook_result" where
  "redeliver_event auth i s = (case select_one s (filter (\<lambda>ev. ev_id ev = i) (readable_events auth s)) of
       Inl e \<Rightarrow> (Inl e, s)
     | Inr None \<Rightarrow> (Inl ResourceNotFound, s)
     | Inr (Some ev) \<Rightarrow> (Inr (), dispatch_job (Send_Job (ev_id ev) True) s))"

subsection \<open>After the delivery\<close>

definition on_event_success :: "uuid \<Rightarrow> hooks \<Rightarrow> unit hook_result" where
  "on_event_success i s = (case event_by_id i s of
       Inl e \<Rightarrow> (Inl e, s)
     | Inr None \<Rightarrow> (Inl (EventDoesNotExist i), s)
     | Inr (Some ev) \<Rightarrow> if ev_succeeded ev = Some True then (Inr (), s) else (Inl (EventNotSuccessful i), s))"

definition list_by_workspace :: "uuid \<Rightarrow> hooks \<Rightarrow> hook_error + membership_row list" where
  "list_by_workspace w s =
     select_all s (filter (\<lambda>m. m_deleted_at m = None \<and> m_workspace_id m = w) (pg_memberships (hk_pg s)))"

definition disabled_mail :: "hooks \<Rightarrow> hook_endpoint \<Rightarrow> membership_row \<Rightarrow> hook_job" where
  "disabled_mail s ep m = Mail_Job (hk_emails s (m_user_id m))
     (''Webhook endpoint disabled for '' @ hk_names s (ep_workspace_id ep))"

definition disable_endpoint :: "hook_endpoint \<Rightarrow> hooks \<Rightarrow> unit hook_result" where
  "disable_endpoint ep s =
     and_then (skip_pending_by_endpoint (ep_id ep)
        (update_endpoint_row (ep_id ep) (\<lambda>e. e\<lparr>ep_enabled := False\<rparr>) s))
       (\<lambda>_ s2. (case list_by_workspace (ep_workspace_id ep) s2 of
           Inl e \<Rightarrow> (Inl e, s2)
         | Inr members \<Rightarrow> (Inr (), foldl (\<lambda>s m. dispatch_job (disabled_mail s ep m) s) s2 members)))"

definition on_event_failed :: "uuid \<Rightarrow> hooks \<Rightarrow> unit hook_result" where
  "on_event_failed i s = (case event_by_id i s of
       Inl e \<Rightarrow> (Inl e, s)
     | Inr None \<Rightarrow> (Inl (EventDoesNotExist i), s)
     | Inr (Some ev) \<Rightarrow>
         if ev_succeeded ev \<noteq> Some False then (Inr (), s)
         else (case event_endpoint s ev of
           None \<Rightarrow> (Inl AttributeError, s)
         | Some ep \<Rightarrow>
             if \<not> ep_enabled ep then (Inr (), s)
             else (case get_recent_by_endpoint (ep_id ep) WEBHOOK_FAILURE_THRESHOLD s of
               Inl e \<Rightarrow> (Inl e, s)
             | Inr recent \<Rightarrow>
                 if WEBHOOK_FAILURE_THRESHOLD \<le> length recent \<and> list_all (\<lambda>e. ev_succeeded e = Some False) recent
                 then disable_endpoint ep s
                 else (Inr (), s))))"

definition webhook_event_success :: "uuid \<Rightarrow> hooks \<Rightarrow> unit hook_result" where
  "webhook_event_success i = in_session (on_event_success i)"

definition webhook_event_failed :: "uuid \<Rightarrow> hooks \<Rightarrow> unit hook_result" where
  "webhook_event_failed i = in_session (on_event_failed i)"

subsection \<open>Archiving\<close>

text \<open>The \<open>while True\<close> of \<open>archive_events\<close>; not returning is \<open>None\<close>.\<close>

partial_function (option) archive_events :: "int \<Rightarrow> nat \<Rightarrow> hooks \<Rightarrow> unit hook_result option" where
  "archive_events older_than batch_size s =
     (case archive_payloads older_than batch_size s of
        (Inl e, s') \<Rightarrow> Some (Inl e, s')
      | (Inr updated_count, s') \<Rightarrow>
          if updated_count < batch_size then Some (Inr (), s')
          else archive_events older_than batch_size s')"

definition ARCHIVE_BATCH_SIZE :: nat where "ARCHIVE_BATCH_SIZE = 5000"

definition webhook_event_archive :: "int \<Rightarrow> hooks \<Rightarrow> unit hook_result option" where
  "webhook_event_archive now s =
     (case archive_events (now - WEBHOOK_EVENT_RETENTION_PERIOD) ARCHIVE_BATCH_SIZE s of
        None \<Rightarrow> None
      | Some r \<Rightarrow> Some (in_session (\<lambda>_. r) s))"

end
