(* ===== verification/Webhook_Facts.thy ===== *)
theory Webhook_Facts
  imports Webhook_Delivery
begin

section \<open>Facts about the delivery of webhooks\<close>

text \<open>
  What the operations of outgoing webhooks leave alone, when an attempt sends a request, what
  it writes, and what disabling an endpoint and archiving do to the tables. The properties of
  \<open>Webhook_Properties\<close> are put together from these.
\<close>

subsection \<open>Frames\<close>

lemma hook_update_simps [simp]:
  "hk_pg (update_event i g s) = hk_pg s" "hk_endpoints (update_event i g s) = hk_endpoints s"
  "hk_deliveries (update_event i g s) = hk_deliveries s" "hk_jobs (update_event i g s) = hk_jobs s"
  "hk_emails (update_event i g s) = hk_emails s" "hk_names (update_event i g s) = hk_names s"
  "hk_pg (dispatch_job j s) = hk_pg s" "hk_endpoints (dispatch_job j s) = hk_endpoints s"
  "hk_deliveries (dispatch_job j s) = hk_deliveries s" "hk_jobs (dispatch_job j s) = hk_jobs s @ [j]"
  "hk_events (dispatch_job j s) = hk_events s"
  "hk_emails (dispatch_job j s) = hk_emails s" "hk_names (dispatch_job j s) = hk_names s"
  "hk_pg (add_delivery d s) = hk_pg s" "hk_endpoints (add_delivery d s) = hk_endpoints s"
  "hk_deliveries (add_delivery d s) = hk_deliveries s @ [d]" "hk_jobs (add_delivery d s) = hk_jobs s"
  "hk_events (add_delivery d s) = hk_events s"
  "hk_emails (add_delivery d s) = hk_emails s" "hk_names (add_delivery d s) = hk_names s"
  "hk_pg (update_endpoint_row i h s) = hk_pg s" "hk_events (update_endpoint_row i h s) = hk_events s"
  "hk_deliveries (update_endpoint_row i h s) = hk_deliveries s"
  "hk_jobs (update_endpoint_row i h s) = hk_jobs s"
  "hk_emails (update_endpoint_row i h s) = hk_emails s" "hk_names (update_endpoint_row i h s) = hk_names s"
  by (simp_all add: update_event_def dispatch_job_def add_delivery_def update_endpoint_row_def)

lemma unskip_simps [simp]:
  "hk_pg (unskip ev s) = hk_pg s" "hk_endpoints (unskip ev s) = hk_endpoints s"
  "hk_deliveries (unskip ev s) = hk_deliveries s" "hk_jobs (unskip ev s) = hk_jobs s"
  by (simp_all add: unskip_def)

text \<open>The columns of an event that no delivery changes.\<close>

definition same_event :: "hook_event \<Rightarrow> hook_event \<Rightarrow> bool" where
  "same_event ev ev' = (ev_id ev' = ev_id ev \<and> ev_type ev' = ev_type ev \<and> ev_payload ev' = ev_payload ev \<and>
     ev_endpoint_id ev' = ev_endpoint_id ev \<and> ev_created_at ev' = ev_created_at ev \<and>
     ev_deleted_at ev' = ev_deleted_at ev)"

lemma in_session_cases:
  "in_session f s = (case f s of (Inr x, s') \<Rightarrow> (Inr x, s') | (Inl e, s') \<Rightarrow> (Inl e, s))"
  by (rule in_session_def)

lemma in_session_error: "fst (in_session f s) = Inl e \<Longrightarrow> snd (in_session f s) = s"
  by (auto simp: in_session_def split: prod.splits sum.splits)

lemma in_session_ok: "fst (f s) = Inr x \<Longrightarrow> in_session f s = f s"
  by (auto simp: in_session_def split: prod.splits sum.splits)

subsection \<open>Finding an event and its endpoint\<close>

text \<open>The tables as the constraints keep them: primary keys are unique, an event has its endpoint.\<close>

definition hooks_keyed :: "hooks \<Rightarrow> bool" where
  "hooks_keyed s = (distinct (map ep_id (hk_endpoints s)) \<and> distinct (map ev_id (hk_events s)) \<and>
     distinct (map dl_id (hk_deliveries s)) \<and>
     (\<forall>ev \<in> set (hk_events s). ev_endpoint_id ev \<in> ep_id ` set (hk_endpoints s)) \<and>
     (\<forall>d \<in> set (hk_deliveries s). dl_event_id d \<in> ev_id ` set (hk_events s)))"

lemma filter_id_unique:
  assumes "distinct (map f xs)" and "x \<in> set xs"
  shows "filter (\<lambda>y. f y = f x) xs = [x]"
  using assms
proof (induction xs)
  case (Cons y ys)
  then show ?case by (auto simp: filter_empty_conv rev_image_eqI)
qed simp

lemma event_by_id_found:
  assumes "hooks_keyed s" and "pg_up (hk_pg s)" and "ev \<in> set (hk_events s)" and "ev_deleted_at ev = None"
  shows "event_by_id (ev_id ev) s = Inr (Some ev)"
proof -
  have "filter (\<lambda>x. ev_id x = ev_id ev) (hk_events s) = [ev]"
    using filter_id_unique [of ev_id "hk_events s" ev] assms by (simp add: hooks_keyed_def)
  then have "filter (\<lambda>x. ev_deleted_at x = None) (filter (\<lambda>x. ev_id x = ev_id ev) (hk_events s)) = [ev]"
    using assms(4) by simp
  then have "filter (\<lambda>x. ev_id x = ev_id ev) (live_events s) = [ev]"
    by (simp add: live_events_def conj_commute)
  then show ?thesis
    using assms(2) by (simp add: event_by_id_def select_one_def get_one_or_none_def run_select_def)
qed

lemma event_by_id_Some:
  assumes "event_by_id i s = Inr (Some ev)"
  shows "ev \<in> set (hk_events s) \<and> ev_id ev = i \<and> ev_deleted_at ev = None \<and> pg_up (hk_pg s)"
proof -
  obtain rows where "rows = filter (\<lambda>x. ev_id x = i) (live_events s)" by blast
  moreover from this have "pg_up (hk_pg s)" "at_most_one rows = Inr (Some ev)"
    using assms
    by (auto simp: event_by_id_def select_one_def get_one_or_none_def run_select_def
        map_sum_def split: if_splits sum.splits)
  moreover have "ev \<in> set rows" using calculation(3) by (cases rows rule: at_most_one.cases) auto
  ultimately show ?thesis by (auto simp: live_events_def)
qed

lemma event_endpoint_found:
  assumes "hooks_keyed s" and "ep \<in> set (hk_endpoints s)" and "ev_endpoint_id ev = ep_id ep"
  shows "event_endpoint s ev = Some ep"
proof -
  obtain e where e: "event_endpoint s ev = Some e"
    using assms(2,3) by (cases "event_endpoint s ev") (auto simp: event_endpoint_def find_None_iff)
  then have "e \<in> set (hk_endpoints s)" "ep_id e = ep_id ep"
    using assms(3) by (auto simp: event_endpoint_def find_Some_iff)
  then have "e = ep"
    using assms(1,2) by (auto simp: hooks_keyed_def distinct_map inj_on_def)
  with e show ?thesis by simp
qed

lemma event_endpoint_Some:
  "event_endpoint s ev = Some ep \<Longrightarrow> ep \<in> set (hk_endpoints s) \<and> ep_id ep = ev_endpoint_id ev"
  by (auto simp: event_endpoint_def find_Some_iff)


subsection \<open>When a request is sent\<close>

text \<open>
  The events an attempt waits for: live undelivered ones of the same endpoint, created before
  this one and within the last minute.
\<close>

definition waits_for :: "int \<Rightarrow> hooks \<Rightarrow> hook_event \<Rightarrow> hook_event \<Rightarrow> bool" where
  "waits_for now s ev ev' = (ev_deleted_at ev' = None \<and> ev_endpoint_id ev' = ev_endpoint_id ev \<and>
     ev_id ev' \<noteq> ev_id ev \<and> \<not> delivered s ev' \<and>
     ev_created_at ev' < ev_created_at ev \<and> now - 60 \<le> ev_created_at ev')"

lemma is_latest_event_iff:
  "pg_up (hk_pg s) \<Longrightarrow> is_latest_event now ev s = Inr (\<not> list_ex (waits_for now s ev) (hk_events s))"
  by (simp add: is_latest_event_def count_undelivered_older_than_def waits_for_def list_ex_iff
      filter_empty_conv)

text \<open>An attempt on an event that is due: it reaches the receiver unless the address is refused.\<close>

definition due :: "int \<Rightarrow> bool \<Rightarrow> hooks \<Rightarrow> hook_endpoint \<Rightarrow> hook_event \<Rightarrow> bool" where
  "due now redeliver s ep ev = (ep_enabled ep \<and> ev_payload ev \<noteq> None \<and>
     (ev_succeeded ev = Some True \<longrightarrow> redeliver) \<and> \<not> list_ex (waits_for now s ev) (hk_events s))"

lemma send_attempt_due:
  assumes "hooks_keyed s" "pg_up (hk_pg s)" "ev \<in> set (hk_events s)" "ev_deleted_at ev = None"
    and "ep \<in> set (hk_endpoints s)" "ev_endpoint_id ev = ep_id ep"
    and "due (at_now at) redeliver s ep ev"
  shows "send_attempt sign at (ev_id ev) redeliver s =
    deliver sign at ep ev (the (ev_payload ev)) (unskip ev s)"
  using assms(7) is_latest_event_iff [OF assms(2), of "at_now at" ev]
  by (auto simp: send_attempt_def event_by_id_found [OF assms(1-4)]
      event_endpoint_found [OF assms(1,5,6)] due_def)

lemma send_attempt_not_due:
  assumes "hooks_keyed s" "pg_up (hk_pg s)" "ev \<in> set (hk_events s)" "ev_deleted_at ev = None"
    and "ep \<in> set (hk_endpoints s)" "ev_endpoint_id ev = ep_id ep"
    and "\<not> due (at_now at) redeliver s ep ev"
  shows "snd (send_attempt sign at (ev_id ev) redeliver s) = []"
  using assms(7) is_latest_event_iff [OF assms(2), of "at_now at" ev]
  by (auto simp: send_attempt_def event_by_id_found [OF assms(1-4)]
      event_endpoint_found [OF assms(1,5,6)] due_def split: option.splits)

lemma deliver_posts:
  "snd (deliver sign at ep ev payload s) =
     (if resolve_safe_addrs (at_dns at) (ep_url ep) \<noteq> None \<and> \<not> at_development at
      then [\<lparr>po_url = ep_url ep, po_headers = delivery_headers sign at ep (ev_id ev) payload, po_content = payload\<rparr>]
      else [])"
  by (auto simp: deliver_def split: option.splits)

lemma send_attempt_cases:
  obtains (returned) ev where "ev \<in> set (hk_events s)" "ev_id ev = i" "ev_deleted_at ev = None"
      "fst (send_attempt sign at i redeliver s) = (Inr (), s)"
  | (error) e where "fst (send_attempt sign at i redeliver s) = (Inl e, s)"
      "snd (send_attempt sign at i redeliver s) = []"
  | (skipped) ev where "ev \<in> set (hk_events s)" "ev_id ev = i" "ev_deleted_at ev = None"
      "fst (send_attempt sign at i redeliver s) = (Inr (), update_event i (\<lambda>e. e\<lparr>ev_skipped := True\<rparr>) s)"
  | (tried) ev ep payload where "ev \<in> set (hk_events s)" "ev_id ev = i" "ev_deleted_at ev = None"
      "event_endpoint s ev = Some ep" "ep_enabled ep" "ev_payload ev = Some payload"
      "send_attempt sign at i redeliver s = deliver sign at ep ev payload (unskip ev s)"
proof (cases "event_by_id i s")
  case (Inl e)
  then show ?thesis using error by (simp add: send_attempt_def)
next
  case (Inr found)
  show ?thesis
  proof (cases found)
    case None
    with Inr show ?thesis using error by (simp add: send_attempt_def)
  next
    case (Some ev)
    with Inr have ev: "ev \<in> set (hk_events s)" "ev_id ev = i" "ev_deleted_at ev = None"
      using event_by_id_Some by blast+
    show ?thesis
    proof (cases "event_endpoint s ev")
      case None
      with Inr Some show ?thesis using error by (simp add: send_attempt_def)
    next
      case (Some ep)
      note found = Inr \<open>found = Some ev\<close> Some
      show ?thesis
      proof (cases "ep_enabled ep")
        case False
        with found show ?thesis using skipped [OF ev] by (simp add: send_attempt_def)
      next
        case enabled: True
        show ?thesis
        proof (cases "ev_payload ev = None \<or> ev_succeeded ev = Some True \<and> \<not> redeliver")
          case True
          with enabled found show ?thesis
            using returned [OF ev] by (auto simp: send_attempt_def split: option.splits)
        next
          case False
          then obtain payload where p: "ev_payload ev = Some payload" by auto
          show ?thesis
          proof (cases "is_latest_event (at_now at) ev s")
            case (Inl e)
            with enabled found p False show ?thesis using error by (simp add: send_attempt_def)
          next
            case (Inr latest)
            have "send_attempt sign at i redeliver s =
              (if latest then deliver sign at ep ev payload (unskip ev s) else ((Inl Retry, s), []))"
              using enabled found p False Inr by (cases latest) (auto simp: send_attempt_def)
            then show ?thesis
              using error [of Retry] tried [OF ev found(3) enabled p] by (cases latest) simp_all
          qed
        qed
      qed
    qed
  qed
qed


subsection \<open>What an attempt writes\<close>

lemma update_event_update:
  "(\<And>e. ev_id (g e) = ev_id e) \<Longrightarrow> update_event i f (update_event i g s) = update_event i (f \<circ> g) s"
  by (simp add: update_event_def comp_def)

text \<open>
  A settled event: one delivery row more, carrying the outcome, and the outcome in the event.
\<close>

definition settles :: "attempt \<Rightarrow> hook_event \<Rightarrow> bool \<Rightarrow> hooks \<Rightarrow> hooks \<Rightarrow> bool" where
  "settles at ev ok s s' = (\<exists>d g. hk_events s' = map (\<lambda>e. if ev_id e = ev_id ev then g e else e) (hk_events s) \<and>
     (\<forall>e. same_event e (g e) \<and> ev_succeeded (g e) = Some ok) \<and>
     hk_deliveries s' = hk_deliveries s @ [d] \<and> dl_event_id d = ev_id ev \<and> dl_succeeded d = ok \<and>
     dl_id d = at_delivery_id at \<and> dl_endpoint_id d = ev_endpoint_id ev \<and>
     hk_endpoints s' = hk_endpoints s \<and> hk_pg s' = hk_pg s)"

lemma settles_unskip: "settles at ev ok (unskip ev s) s' \<Longrightarrow> settles at ev ok s s'"
proof -
  assume s: "settles at ev ok (unskip ev s) s'"
  then obtain d g where
    d: "hk_events s' = map (\<lambda>e. if ev_id e = ev_id ev then g e else e) (hk_events (unskip ev s))"
      "\<forall>e. same_event e (g e) \<and> ev_succeeded (g e) = Some ok"
      "hk_deliveries s' = hk_deliveries s @ [d]" "dl_event_id d = ev_id ev" "dl_succeeded d = ok"
      "dl_id d = at_delivery_id at" "dl_endpoint_id d = ev_endpoint_id ev"
      "hk_endpoints s' = hk_endpoints s" "hk_pg s' = hk_pg s"
    unfolding settles_def unskip_simps by blast
  let ?h = "\<lambda>e. if ev_skipped ev then e\<lparr>ev_skipped := False\<rparr> else e"
  have "hk_events (unskip ev s) = map (\<lambda>e. if ev_id e = ev_id ev then ?h e else e) (hk_events s)"
    by (cases "ev_skipped ev") (simp_all add: unskip_def update_event_def map_idI)
  then have "hk_events s' = map (\<lambda>e. if ev_id e = ev_id ev then (g \<circ> ?h) e else e) (hk_events s)"
    using d(1) by simp
  moreover have "\<forall>e. same_event e ((g \<circ> ?h) e) \<and> ev_succeeded ((g \<circ> ?h) e) = Some ok"
    using d(2) by (auto simp: same_event_def)
  ultimately show ?thesis unfolding settles_def using d(3-9) by blast
qed

lemma settlesI:
  assumes "\<And>e. same_event e (g e) \<and> ev_succeeded (g e) = Some ok"
  shows "settles at ev ok s (add_delivery (new_delivery at ev ok code body) (update_event (ev_id ev) g s))"
    and "settles at ev ok s (add_delivery (new_delivery at ev ok code body) (dispatch_job j (update_event (ev_id ev) g s)))"
  unfolding settles_def using assms
  by (auto simp: update_event_def new_delivery_def intro!: exI [of _ g])

lemma set_last_code_id [simp]: "ev_id (set_last_code c e) = ev_id e"
  by (simp add: set_last_code_def split: option.splits)

lemma delivery_failed_result:
  "fst (delivery_failed at ev code body error s) = (if can_retry at then Inl Retry else Inr ())"
  by (simp add: delivery_failed_def Let_def)

lemma delivery_failed_settles:
  assumes "\<not> can_retry at"
  shows "settles at ev False s (snd (delivery_failed at ev code body error s))"
    and "hk_jobs (snd (delivery_failed at ev code body error s)) = hk_jobs s @ [Failed_Job (ev_id ev)]"
  using assms
  by (auto simp: delivery_failed_def Let_def update_event_update set_last_code_def same_event_def
      intro!: settlesI split: option.splits)

lemma delivery_succeeded_settles:
  "settles at ev True s (snd (delivery_succeeded at ev code body s))"
  "hk_jobs (snd (delivery_succeeded at ev code body s)) = hk_jobs s @ [Success_Job (ev_id ev)]"
  "fst (delivery_succeeded at ev code body s) = Inr ()"
  by (auto simp: delivery_succeeded_def same_event_def intro!: settlesI)

definition success_reply :: "http_reply \<Rightarrow> bool" where
  "success_reply r = (case r of Response code _ _ \<Rightarrow> 200 \<le> code \<and> code < 300 | _ \<Rightarrow> False)"

definition failure_reply :: "http_reply \<Rightarrow> bool" where
  "failure_reply r = (case r of Response code _ _ \<Rightarrow> \<not> (200 \<le> code \<and> code < 300) | Http_Error _ \<Rightarrow> True | _ \<Rightarrow> False)"

lemma deliver_outcome:
  assumes "fst (deliver sign at ep ev payload s) = (Inr x, s')"
  shows "\<exists>ok. settles at ev ok s s'"
proof (cases "resolve_safe_addrs (at_dns at) (ep_url ep)")
  case None
  with assms show ?thesis by (auto simp: deliver_def same_event_def intro!: settlesI exI [of _ False])
next
  case (Some sa)
  consider (ok) code body where "delivery_succeeded at ev code body s = (Inr x, s')"
    | (bad) code body error where "delivery_failed at ev code body error s = (Inr x, s')"
    using assms Some
    by (cases "at_reply at") (simp_all add: deliver_def Let_def split: if_splits)
  then show ?thesis
  proof cases
    case ok
    then show ?thesis using delivery_succeeded_settles(1) [of at ev s code body] by (metis snd_conv)
  next
    case bad
    then have "\<not> can_retry at"
      using delivery_failed_result [of at ev code body error s] by (metis Inl_Inr_False fst_conv)
    with bad show ?thesis
      using delivery_failed_settles(1) [of at ev s code body error] by (metis snd_conv)
  qed
qed


subsection \<open>Archiving in batches\<close>

definition archived :: "int \<Rightarrow> hooks \<Rightarrow> hooks" where
  "archived older_than s = s\<lparr>hk_events := map (\<lambda>ev. if ev_created_at ev < older_than
     then ev\<lparr>ev_payload := None\<rparr> else ev) (hk_events s)\<rparr>"

definition to_archive :: "int \<Rightarrow> hooks \<Rightarrow> nat" where
  "to_archive older_than s = length (filter (archivable older_than) (hk_events s))"

lemma length_filter_image:
  assumes "distinct (map f xs)" and "distinct ys" and "set ys \<subseteq> set xs"
  shows "length (filter (\<lambda>x. f x \<in> f ` set ys) xs) = length ys"
proof -
  have "inj_on f (set xs)" "distinct xs" using assms(1) by (auto simp: distinct_map)
  then have "set (filter (\<lambda>x. f x \<in> f ` set ys) xs) = set ys"
    using assms(3) by (auto simp: inj_on_def)
  moreover have "distinct (filter (\<lambda>x. f x \<in> f ` set ys) xs)" using \<open>distinct xs\<close> by simp
  ultimately show ?thesis using assms(2) by (metis distinct_card)
qed

text \<open>One batch archives as many events as it may, all of them old ones.\<close>

lemma archive_payloads_step:
  assumes "pg_up (hk_pg s)" and "distinct (map ev_id (hk_events s))"
  obtains s' where "archive_payloads older_than b s = (Inr (min b (to_archive older_than s)), s')"
    "archived older_than s' = archived older_than s" "pg_up (hk_pg s')"
    "distinct (map ev_id (hk_events s'))"
    "to_archive older_than s' = to_archive older_than s - b"
proof -
  let ?old = "filter (archivable older_than) (hk_events s)"
  let ?chosen = "take b (sort_key ev_created_at ?old)"
  let ?ids = "map ev_id ?chosen"
  let ?g = "\<lambda>ev. if ev_id ev \<in> set ?ids then ev\<lparr>ev_payload := None\<rparr> else ev"
  let ?s = "s\<lparr>hk_events := map ?g (hk_events s)\<rparr>"
  have dist: "distinct (hk_events s)" "inj_on ev_id (set (hk_events s))"
    using assms(2) by (auto simp: distinct_map)
  have chosen: "distinct ?chosen" "set ?chosen \<subseteq> set ?old"
    using dist by (auto dest: in_set_takeD)
  have inids: "ev_id ev \<in> set ?ids \<longleftrightarrow> ev \<in> set ?chosen" if "ev \<in> set (hk_events s)" for ev
    using that chosen(2) dist(2) unfolding inj_on_def by (auto dest: in_set_takeD)
  have "length (filter (\<lambda>ev. ev_id ev \<in> ev_id ` set ?chosen) (hk_events s)) = length ?chosen"
    by (rule length_filter_image) (use assms(2) chosen in auto)
  then have n: "length (filter (\<lambda>ev. ev_id ev \<in> set ?ids) (hk_events s)) = min b (to_archive older_than s)"
    by (simp add: to_archive_def min.commute)
  have "archive_payloads older_than b s = (Inr (min b (to_archive older_than s)), ?s)"
    using assms(1) n by (simp add: archive_payloads_def Let_def)
  moreover have "archived older_than ?s = archived older_than s"
  proof -
    have "map (\<lambda>ev. if ev_created_at ev < older_than then ev\<lparr>ev_payload := None\<rparr> else ev) (map ?g (hk_events s)) =
      map (\<lambda>ev. if ev_created_at ev < older_than then ev\<lparr>ev_payload := None\<rparr> else ev) (hk_events s)"
      unfolding map_map using chosen(2) inids by (intro map_cong) (auto simp: archivable_def)
    then show ?thesis by (simp add: archived_def)
  qed
  moreover have "distinct (map ev_id (hk_events ?s))"
    using assms(2) by (simp add: comp_def if_distrib [of ev_id] cong: if_cong)
  moreover have "to_archive older_than ?s = to_archive older_than s - b"
  proof -
    have "archivable older_than (?g ev) \<longleftrightarrow> ev \<notin> set ?chosen \<and> archivable older_than ev"
      if "ev \<in> set (hk_events s)" for ev
      using inids [OF that] by (cases "ev \<in> set ?chosen") (simp_all add: archivable_def)
    then have "filter (archivable older_than \<circ> ?g) (hk_events s) = filter (\<lambda>ev. ev \<notin> set ?chosen) ?old"
      unfolding filter_filter by (intro filter_cong) (auto simp only: o_apply)
    then have "to_archive older_than ?s = length (filter (\<lambda>ev. ev \<notin> set ?chosen) ?old)"
      by (simp add: to_archive_def filter_map)
    moreover have "length (filter (\<lambda>ev. ev \<in> set ?chosen) ?old) = length ?chosen"
      using length_filter_image [of id ?old ?chosen] chosen dist(1) by simp
    ultimately show ?thesis
      using sum_length_filter_compl [of "\<lambda>ev. ev \<in> set ?chosen" ?old]
      by (simp add: to_archive_def)
  qed
  ultimately show ?thesis using that assms(1) by simp
qed

lemma archived_done: "to_archive older_than s = 0 \<Longrightarrow> archived older_than s = s"
  by (cases s) (auto simp: archived_def to_archive_def archivable_def filter_empty_conv intro!: map_idI)

lemma archive_events_returns:
  assumes "pg_up (hk_pg s)" and "distinct (map ev_id (hk_events s))" and "0 < b"
  shows "archive_events older_than b s = Some (Inr (), archived older_than s)"
  using assms
proof (induction "to_archive older_than s" arbitrary: s rule: less_induct)
  case less
  obtain s' where s': "archive_payloads older_than b s = (Inr (min b (to_archive older_than s)), s')"
    "archived older_than s' = archived older_than s" "pg_up (hk_pg s')"
    "distinct (map ev_id (hk_events s'))" "to_archive older_than s' = to_archive older_than s - b"
    using archive_payloads_step [OF less.prems(1,2)] by blast
  show ?case
  proof (cases "to_archive older_than s < b")
    case True
    then have "archived older_than s' = s'" using s'(5) by (intro archived_done) simp
    with True s'(1,2) show ?thesis by (simp add: archive_events.simps)
  next
    case False
    then have "to_archive older_than s' < to_archive older_than s" using s'(5) less.prems(3) by simp
    then have "archive_events older_than b s' = Some (Inr (), archived older_than s')"
      using less.hyps s'(3,4) less.prems(3) by blast
    with False s'(1,2) show ?thesis by (simp add: archive_events.simps)
  qed
qed

text \<open>An empty batch changes nothing, and the loop never ends.\<close>

lemma archive_events_stuck:
  assumes "archive_events older_than b s = Some r"
  shows "pg_up (hk_pg s) \<longrightarrow> b \<noteq> 0"
proof (rule archive_events.raw_induct [where P = "\<lambda>older b s r. pg_up (hk_pg s) \<longrightarrow> b \<noteq> 0", OF _ assms])
  fix archive :: "int \<Rightarrow> nat \<Rightarrow> hooks \<Rightarrow> unit hook_result option" and older b s r
  assume IH: "\<And>older b s r. archive older b s = Some r \<Longrightarrow> pg_up (hk_pg s) \<longrightarrow> b \<noteq> 0"
    and body: "(case archive_payloads older b s of
        (Inl e, s') \<Rightarrow> Some (Inl e, s')
      | (Inr updated_count, s') \<Rightarrow> if updated_count < b then Some (Inr (), s') else archive older b s') = Some r"
  show "pg_up (hk_pg s) \<longrightarrow> b \<noteq> 0"
  proof (intro impI notI)
    assume "pg_up (hk_pg s)" and "b = 0"
    then have "archive_payloads older b s = (Inr 0, s)"
      by (simp add: archive_payloads_def Let_def)
    with body \<open>b = 0\<close> have "archive older b s = Some r" by simp
    from IH [OF this] \<open>pg_up (hk_pg s)\<close> \<open>b = 0\<close> show False by simp
  qed
qed

lemma archive_events_endless:
  assumes "pg_up (hk_pg s)"
  shows "archive_events older_than 0 s = None"
proof (rule ccontr)
  assume "archive_events older_than 0 s \<noteq> None"
  then obtain r where "archive_events older_than 0 s = Some r" by blast
  from archive_events_stuck [OF this] assms show False by simp
qed

end
