(* ===== verification/Webhook_Runs.thy ===== *)
theory Webhook_Runs
  imports Webhook_Facts
begin

section \<open>Runs of the webhook component\<close>

text \<open>
  The reachable states of the three tables under every operation of the component, in any
  order, with the rest of the server changing what it owns (the queue, workspaces, members).
  The invariant ties the state of an event to the delivery rows recorded for it.
\<close>

subsection \<open>Steps\<close>

inductive hook_step :: "hooks \<Rightarrow> hooks \<Rightarrow> bool" where
  creates: "create_endpoint h auth c now i entropy s = (r, s') \<Longrightarrow> i \<notin> ep_id ` set (hk_endpoints s) \<Longrightarrow> hook_step s s'"
| updates: "update_webhook_endpoint auth i u s = (r, s') \<Longrightarrow> hook_step s s'"
| resets: "reset_webhook_endpoint_secret h entropy auth i s = (r, s') \<Longrightarrow> hook_step s s'"
| deletes: "delete_webhook_endpoint now auth i s = (r, s') \<Longrightarrow> hook_step s s'"
| redelivers: "redeliver_event auth i s = (r, s') \<Longrightarrow> hook_step s s'"
| sends: "hook_send schema print_time draw now w t (data :: json) s = (r, s') \<Longrightarrow> inj draw \<Longrightarrow>
    range draw \<inter> ev_id ` set (hk_events s) = {} \<Longrightarrow> hook_step s s'"
| attempts: "webhook_event_send sign at i redeliver s = ((r, s'), posts) \<Longrightarrow>
    at_delivery_id at \<notin> dl_id ` set (hk_deliveries s) \<Longrightarrow> hook_step s s'"
| succeeds: "webhook_event_success i s = (r, s') \<Longrightarrow> hook_step s s'"
| fails: "webhook_event_failed i s = (r, s') \<Longrightarrow> hook_step s s'"
| archives: "webhook_event_archive now s = Some (r, s') \<Longrightarrow> hook_step s s'"
| elsewhere: "hk_endpoints s' = hk_endpoints s \<Longrightarrow> hk_events s' = hk_events s \<Longrightarrow>
    hk_deliveries s' = hk_deliveries s \<Longrightarrow> hook_step s s'"

inductive hook_reach :: "hooks \<Rightarrow> bool" where
  start: "hk_endpoints s = [] \<Longrightarrow> hk_events s = [] \<Longrightarrow> hk_deliveries s = [] \<Longrightarrow> hook_reach s"
| step: "hook_reach s \<Longrightarrow> hook_step s s' \<Longrightarrow> hook_reach s'"

subsection \<open>The invariant\<close>

text \<open>The outcome the delivery rows of an event tell: that of the last one.\<close>

definition recorded_outcome :: "hook_delivery list \<Rightarrow> uuid \<Rightarrow> bool option" where
  "recorded_outcome ds i = (let own = filter (\<lambda>d. dl_event_id d = i) ds in
     if own = [] then None else Some (dl_succeeded (last own)))"

lemma recorded_outcome_append:
  "recorded_outcome (ds @ [d]) i = (if dl_event_id d = i then Some (dl_succeeded d) else recorded_outcome ds i)"
  by (simp add: recorded_outcome_def Let_def)

lemma recorded_outcome_None: "recorded_outcome ds i = None \<longleftrightarrow> (\<forall>d \<in> set ds. dl_event_id d \<noteq> i)"
  by (auto simp: recorded_outcome_def Let_def filter_empty_conv)

definition hooks_ok :: "hooks \<Rightarrow> bool" where
  "hooks_ok s = (hooks_keyed s \<and>
     (\<forall>ev \<in> set (hk_events s). ev_succeeded ev = recorded_outcome (hk_deliveries s) (ev_id ev)) \<and>
     (\<forall>d \<in> set (hk_deliveries s). \<forall>ev \<in> set (hk_events s). dl_event_id d = ev_id ev \<longrightarrow> dl_endpoint_id d = ev_endpoint_id ev))"

lemma hooks_keyed_lists: "hooks_keyed s = (distinct (map ep_id (hk_endpoints s)) \<and>
     distinct (map ev_id (hk_events s)) \<and> distinct (map dl_id (hk_deliveries s)) \<and>
     set (map ev_endpoint_id (hk_events s)) \<subseteq> set (map ep_id (hk_endpoints s)) \<and>
     set (map dl_event_id (hk_deliveries s)) \<subseteq> set (map ev_id (hk_events s)))"
  by (auto simp: hooks_keyed_def)

text \<open>Operations that leave ids, endpoints and outcomes alone.\<close>

definition keeps_outcomes :: "hooks \<Rightarrow> hooks \<Rightarrow> bool" where
  "keeps_outcomes s s' = (map ep_id (hk_endpoints s') = map ep_id (hk_endpoints s) \<and>
     hk_deliveries s' = hk_deliveries s \<and>
     map (\<lambda>ev. (ev_id ev, ev_endpoint_id ev, ev_succeeded ev)) (hk_events s') =
       map (\<lambda>ev. (ev_id ev, ev_endpoint_id ev, ev_succeeded ev)) (hk_events s))"

lemma keeps_outcomes_refl [simp]: "keeps_outcomes s s"
  by (simp add: keeps_outcomes_def)

lemma keeps_outcomes_trans: "keeps_outcomes s s' \<Longrightarrow> keeps_outcomes s' s'' \<Longrightarrow> keeps_outcomes s s''"
  by (simp add: keeps_outcomes_def)

lemma keeps_outcomes_ok:
  assumes "keeps_outcomes s s'" and "hooks_ok s"
  shows "hooks_ok s'"
proof -
  let ?k = "\<lambda>ev. (ev_id ev, ev_endpoint_id ev, ev_succeeded ev)"
  have k: "map ?k (hk_events s') = map ?k (hk_events s)"
    and e: "map ep_id (hk_endpoints s') = map ep_id (hk_endpoints s)"
    and d: "hk_deliveries s' = hk_deliveries s"
    using assms(1) by (simp_all add: keeps_outcomes_def)
  have ids: "map ev_id (hk_events s') = map ev_id (hk_events s)"
    using arg_cong [OF k, of "map fst"] by (simp add: comp_def)
  have row: "\<exists>ev' \<in> set (hk_events s). ?k ev' = ?k ev" if "ev \<in> set (hk_events s')" for ev
    using that arg_cong [OF k, of set] by (metis (no_types, lifting) image_iff set_map)
  have eps: "map ev_endpoint_id (hk_events s') = map ev_endpoint_id (hk_events s)"
    using arg_cong [OF k, of "map (fst \<circ> snd)"] by (simp add: comp_def)
  have "hooks_keyed s'"
    using assms(2) unfolding hooks_ok_def hooks_keyed_lists e d ids eps by blast
  moreover have "ev_succeeded ev = recorded_outcome (hk_deliveries s') (ev_id ev)"
    if "ev \<in> set (hk_events s')" for ev
    using row [OF that] assms(2) d unfolding hooks_ok_def by (metis Pair_inject)
  moreover have "dl_endpoint_id x = ev_endpoint_id ev"
    if "x \<in> set (hk_deliveries s')" "ev \<in> set (hk_events s')" "dl_event_id x = ev_id ev" for x ev
    using row [OF that(2)] that assms(2) d unfolding hooks_ok_def by (metis Pair_inject)
  ultimately show ?thesis by (simp add: hooks_ok_def)
qed

lemma settles_ok:
  assumes "settles at ev ok s s'" and "hooks_ok s" and "ev \<in> set (hk_events s)"
    and "at_delivery_id at \<notin> dl_id ` set (hk_deliveries s)"
  shows "hooks_ok s'"
proof -
  obtain d g where g: "hk_events s' = map (\<lambda>e. if ev_id e = ev_id ev then g e else e) (hk_events s)"
      "\<And>e. same_event e (g e) \<and> ev_succeeded (g e) = Some ok"
    and d: "hk_deliveries s' = hk_deliveries s @ [d]" "dl_event_id d = ev_id ev" "dl_succeeded d = ok"
      "dl_id d = at_delivery_id at" "dl_endpoint_id d = ev_endpoint_id ev"
    and e: "hk_endpoints s' = hk_endpoints s"
    using assms(1) unfolding settles_def by blast
  have k: "map ev_id (hk_events s') = map ev_id (hk_events s)"
    "map ev_endpoint_id (hk_events s') = map ev_endpoint_id (hk_events s)"
    using g unfolding g(1) map_map by (auto simp: same_event_def)
  have one: "x = ev" if "x \<in> set (hk_events s)" "ev_id x = ev_id ev" for x
    using assms(2,3) that by (auto simp: hooks_ok_def hooks_keyed_def distinct_map inj_on_def)
  have "hooks_keyed s"
    using assms(2) by (simp add: hooks_ok_def)
  then have "hooks_keyed s'"
    unfolding hooks_keyed_lists k e d(1) using assms(3,4) d(2,4) by auto
  moreover have "ev_succeeded x = recorded_outcome (hk_deliveries s') (ev_id x)" if "x \<in> set (hk_events s')" for x
    using that assms(2) d g by (auto simp: hooks_ok_def recorded_outcome_append same_event_def)
  moreover have "dl_endpoint_id y = ev_endpoint_id x"
    if y: "y \<in> set (hk_deliveries s')" and x: "x \<in> set (hk_events s')" and yx: "dl_event_id y = ev_id x" for x y
  proof -
    obtain x0 where x0: "x0 \<in> set (hk_events s)" "ev_id x = ev_id x0" "ev_endpoint_id x = ev_endpoint_id x0"
      using x g by (auto simp: same_event_def)
    show ?thesis
    proof (cases "y = d")
      case True
      then have "ev_id x0 = ev_id ev" using x0(2) yx d(2) by metis
      then have "x0 = ev" by (rule one [OF x0(1)])
      with True x0(3) d(5) show ?thesis by simp
    next
      case False
      then have "y \<in> set (hk_deliveries s)" using y d(1) by simp
      then show ?thesis using assms(2) x0 yx by (auto simp: hooks_ok_def)
    qed
  qed
  ultimately show ?thesis by (simp add: hooks_ok_def)
qed

lemma create_events_ok:
  assumes "create_events p name is es s = (evs, s')" and "hooks_ok s" and "distinct is"
    and "set is \<inter> ev_id ` set (hk_events s) = {}" and "set es \<subseteq> set (hk_endpoints s)"
  shows "hooks_ok s'"
  using assms
proof (induction p name "is" es s arbitrary: evs s' rule: create_events.induct)
  case (1 p name i "is" e es s)
  let ?s = "dispatch_job (Send_Job i False) (s\<lparr>hk_events := hk_events s @ [hook_event_row p name i e]\<rparr>)"
  obtain evs' where rec: "create_events p name is es ?s = (evs', s')"
    using 1(2) by (auto simp: Let_def split: prod.splits)
  have i: "i \<notin> ev_id ` set (hk_events s)" using 1(5) by simp
  then have none: "recorded_outcome (hk_deliveries s) i = None"
    using 1(3) unfolding recorded_outcome_None by (auto simp: hooks_ok_def hooks_keyed_def)
  have "hooks_ok ?s"
    using 1(3,6) i none
    by (auto simp: hooks_ok_def hooks_keyed_def hook_event_row_def)
  moreover have "set is \<inter> ev_id ` set (hk_events ?s) = {}"
    using 1(4,5) by (auto simp: hook_event_row_def)
  ultimately show ?case using 1(1) [OF refl refl rec] 1(4,6) by simp
qed simp_all


subsection \<open>Every step keeps the invariant\<close>

lemma update_endpoint_row_keeps:
  "(\<And>e. ep_id (g e) = ep_id e) \<Longrightarrow> keeps_outcomes s (update_endpoint_row i g s)"
  by (auto simp: keeps_outcomes_def update_endpoint_row_def)

lemma dispatch_job_keeps: "keeps_outcomes s (dispatch_job j s)"
  by (simp add: keeps_outcomes_def)

lemma dispatch_jobs_keep: "keeps_outcomes s (foldl (\<lambda>s m. dispatch_job (f s m) s) s ms)"
proof (induction ms arbitrary: s)
  case (Cons m ms)
  show ?case
    using keeps_outcomes_trans [OF dispatch_job_keeps Cons.IH] by simp
qed simp

lemma map_events_keep:
  assumes "\<And>e. ev_id (g e) = ev_id e \<and> ev_endpoint_id (g e) = ev_endpoint_id e \<and> ev_succeeded (g e) = ev_succeeded e"
  shows "keeps_outcomes s (s\<lparr>hk_events := map g (hk_events s)\<rparr>)"
  using assms by (simp add: keeps_outcomes_def comp_def)

lemma update_event_keeps:
  assumes "\<And>e. ev_id (g e) = ev_id e \<and> ev_endpoint_id (g e) = ev_endpoint_id e \<and> ev_succeeded (g e) = ev_succeeded e"
  shows "keeps_outcomes s (update_event i g s)"
  unfolding update_event_def using assms by (intro map_events_keep) auto

lemma endpoint_route_keeps:
  assumes "endpoint_route auth i f s = (r, s')" and "\<And>e. keeps_outcomes s (f e s)"
  shows "keeps_outcomes s s'"
  using assms by (auto simp: endpoint_route_def split: sum.splits option.splits)

lemma skip_pending_keeps: "keeps_outcomes s (snd (skip_pending_by_endpoint i s))"
  by (auto simp: skip_pending_by_endpoint_def intro!: map_events_keep)

lemma on_event_failed_keeps: "keeps_outcomes s (snd (on_event_failed i s))"
proof -
  have "keeps_outcomes s (snd (disable_endpoint ep s))" for ep
  proof -
    let ?s1 = "update_endpoint_row (ep_id ep) (\<lambda>e. e\<lparr>ep_enabled := False\<rparr>) s"
    have one: "keeps_outcomes s ?s1" by (rule update_endpoint_row_keeps) simp
    obtain r2 s2 where s2: "skip_pending_by_endpoint (ep_id ep) ?s1 = (r2, s2)" by fastforce
    have two: "keeps_outcomes ?s1 s2"
      using skip_pending_keeps [of ?s1 "ep_id ep"] s2 by simp
    have s12: "keeps_outcomes s s2" by (rule keeps_outcomes_trans [OF one two])
    show ?thesis
    proof (cases r2)
      case (Inl e)
      with s2 s12 show ?thesis by (simp add: disable_endpoint_def)
    next
      case (Inr n)
      show ?thesis
      proof (cases "list_by_workspace (ep_workspace_id ep) s2")
        case (Inl e)
        with Inr s2 s12 show ?thesis by (simp add: disable_endpoint_def)
      next
        case members: (Inr ms)
        with Inr s2 show ?thesis
          using keeps_outcomes_trans [OF s12 dispatch_jobs_keep] by (simp add: disable_endpoint_def)
      qed
    qed
  qed
  then show ?thesis by (simp add: on_event_failed_def split: sum.splits option.splits)
qed

lemma in_session_keeps: "keeps_outcomes s (snd (f s)) \<Longrightarrow> in_session f s = (r, s') \<Longrightarrow> keeps_outcomes s s'"
  by (auto simp: in_session_def split: prod.splits sum.splits)

lemma archive_payloads_keeps: "keeps_outcomes s (snd (archive_payloads older_than b s))"
  by (auto simp: archive_payloads_def Let_def intro!: map_events_keep)

lemma archive_events_keeps:
  assumes "archive_events older_than b s = Some r"
  shows "keeps_outcomes s (snd r)"
proof (rule archive_events.raw_induct [where P = "\<lambda>older b s r. keeps_outcomes s (snd r)", OF _ assms])
  fix archive :: "int \<Rightarrow> nat \<Rightarrow> hooks \<Rightarrow> unit hook_result option" and older b s r
  assume IH: "\<And>older b s r. archive older b s = Some r \<Longrightarrow> keeps_outcomes s (snd r)"
    and body: "(case archive_payloads older b s of
        (Inl e, s') \<Rightarrow> Some (Inl e, s')
      | (Inr updated_count, s') \<Rightarrow> if updated_count < b then Some (Inr (), s') else archive older b s') = Some r"
  obtain q s1 where q: "archive_payloads older b s = (q, s1)" by fastforce
  have "keeps_outcomes s s1" using archive_payloads_keeps [of s older b] q by simp
  moreover have "snd r = s1 \<or> keeps_outcomes s1 (snd r)"
    using body q IH [of older b s1 r] by (cases q) (auto split: if_splits)
  ultimately show "keeps_outcomes s (snd r)" by (auto intro: keeps_outcomes_trans)
qed

lemma webhook_event_send_ok:
  assumes "webhook_event_send sign at i redeliver s = ((r, s'), posts)" and "hooks_ok s"
    and "at_delivery_id at \<notin> dl_id ` set (hk_deliveries s)"
  shows "hooks_ok s'"
proof -
  have run: "in_session (\<lambda>s. fst (send_attempt sign at i redeliver s)) s = (r, s')"
    using assms(1) by (simp add: webhook_event_send_def)
  show ?thesis
  proof (cases r)
    case (Inl e)
    with run have "s' = s" using in_session_error by (metis fst_conv snd_conv)
    with assms(2) show ?thesis by simp
  next
    case (Inr x)
    with run have att: "fst (send_attempt sign at i redeliver s) = (Inr x, s')"
      by (auto simp: in_session_def split: prod.splits sum.splits)
    from send_attempt_cases [of s i sign at redeliver] show ?thesis
    proof cases
      case returned
      with att assms(2) show ?thesis by simp
    next
      case error
      with att show ?thesis by simp
    next
      case skipped
      have "keeps_outcomes s s'"
        using skipped(4) att by (auto intro: update_event_keeps)
      then show ?thesis using assms(2) keeps_outcomes_ok by blast
    next
      case (tried ev ep payload)
      with att obtain ok where "settles at ev ok (unskip ev s) s'"
        using deliver_outcome by metis
      then have "settles at ev ok s s'" by (rule settles_unskip)
      then show ?thesis using settles_ok assms(2,3) tried(1) by blast
    qed
  qed
qed

lemma hook_send_ok:
  assumes "hook_send schema print_time draw now w t data s = (r, s')" and "inj draw"
    and "range draw \<inter> ev_id ` set (hk_events s) = {}" and "hooks_ok s"
  shows "hooks_ok s'"
proof (cases "schema t data")
  case None
  with assms show ?thesis by (simp add: hook_send_def)
next
  case (Some d)
  obtain data_id flds where d: "d = (data_id, flds)" by fastforce
  let ?p = "\<lparr>hp_type = t, hp_timestamp = now, hp_printed_time = print_time now,
    hp_data_id = data_id, hp_data = flds\<rparr>"
  show ?thesis
  proof (cases "get_active_for_event t w s")
    case (Inl e)
    with assms(1,4) Some d show ?thesis by (simp add: hook_send_def Let_def)
  next
    case (Inr es)
    obtain evs s1 where run: "create_events ?p (hk_names s w) (map draw [0..<length es]) es s = (evs, s1)"
      by fastforce
    with assms(1) Some d Inr have "s' = s1" by (simp add: hook_send_def Let_def)
    moreover have "set es \<subseteq> set (hk_endpoints s)"
      using Inr by (auto simp: get_active_for_event_def split: if_splits)
    moreover have "distinct (map draw [0..<length es])"
      using assms(2) by (simp add: distinct_map inj_on_def)
    ultimately show ?thesis
      using create_events_ok [OF run assms(4)] assms(3) by (auto simp: disjoint_iff)
  qed
qed

lemma create_endpoint_row:
  "snd (create_endpoint h auth c now i entropy s) = s \<or>
   (\<exists>e. ep_id e = i \<and> snd (create_endpoint h auth c now i entropy s) = s\<lparr>hk_endpoints := hk_endpoints s @ [e]\<rparr>)"
  by (cases "get_payload_workspace auth (ec_workspace_id c) s")
    (auto simp: create_endpoint_def Let_def intro!: exI)

lemma hook_step_ok:
  assumes "hook_step s s'" and "hooks_ok s"
  shows "hooks_ok s'"
  using assms(1)
proof cases
  case (creates h auth c now i entropy r)
  then consider "s' = s" | e where "ep_id e = i" "s' = s\<lparr>hk_endpoints := hk_endpoints s @ [e]\<rparr>"
    using create_endpoint_row [of h auth c now i entropy s] by auto
  then show ?thesis
    using assms(2) creates(2) by cases (auto simp: hooks_ok_def hooks_keyed_def)
next
  case (updates auth i u r)
  then show ?thesis
    using keeps_outcomes_ok [OF endpoint_route_keeps [OF updates [unfolded update_webhook_endpoint_def]]] assms(2)
    by (simp add: update_endpoint_def update_endpoint_row_keeps apply_endpoint_update_def)
next
  case (resets h entropy auth i r)
  then show ?thesis
    using keeps_outcomes_ok [OF endpoint_route_keeps [OF resets [unfolded reset_webhook_endpoint_secret_def]]] assms(2)
    by (simp add: reset_endpoint_secret_def update_endpoint_row_keeps)
next
  case (deletes now auth i r)
  then show ?thesis
    using keeps_outcomes_ok [OF endpoint_route_keeps [OF deletes [unfolded delete_webhook_endpoint_def]]] assms(2)
    by (simp add: delete_endpoint_def update_endpoint_row_keeps)
next
  case (redelivers auth i r)
  have "keeps_outcomes s (snd (redeliver_event auth i s))"
    by (simp add: redeliver_event_def dispatch_job_keeps split: sum.split option.split)
  then have "keeps_outcomes s s'" using redelivers by simp
  then show ?thesis using assms(2) keeps_outcomes_ok by blast
next
  case sends
  then show ?thesis by (rule hook_send_ok) (rule assms(2))
next
  case attempts
  from webhook_event_send_ok [OF attempts(1) assms(2) attempts(2)] show ?thesis .
next
  case (succeeds i r)
  have "snd (on_event_success i s) = s"
    by (simp add: on_event_success_def split: sum.splits option.splits)
  then have "keeps_outcomes s s'"
    using succeeds in_session_keeps [of s "on_event_success i"] by (simp add: webhook_event_success_def)
  then show ?thesis using assms(2) keeps_outcomes_ok by blast
next
  case (fails i r)
  then have "keeps_outcomes s s'"
    using in_session_keeps [of s "on_event_failed i"] on_event_failed_keeps by (simp add: webhook_event_failed_def)
  then show ?thesis using assms(2) keeps_outcomes_ok by blast
next
  case (archives now r)
  then obtain q where q: "archive_events (now - WEBHOOK_EVENT_RETENTION_PERIOD) ARCHIVE_BATCH_SIZE s = Some q"
    "in_session (\<lambda>_. q) s = (r, s')"
    by (auto simp: webhook_event_archive_def split: option.splits)
  then have "keeps_outcomes s s'"
    using in_session_keeps [of s "\<lambda>_. q"] archive_events_keeps [OF q(1)] by simp
  then show ?thesis using assms(2) keeps_outcomes_ok by blast
next
  case elsewhere
  then have "keeps_outcomes s s'" by (simp add: keeps_outcomes_def)
  then show ?thesis using assms(2) keeps_outcomes_ok by blast
qed

lemma hook_reach_ok: "hook_reach s \<Longrightarrow> hooks_ok s"
proof (induction rule: hook_reach.induct)
  case (start s)
  then show ?case by (simp add: hooks_ok_def hooks_keyed_def)
next
  case (step s s')
  then show ?case using hook_step_ok by blast
qed

end
