(* ===== verification/Webhook_Properties.thy ===== *)
theory Webhook_Properties
  imports Webhook_Runs
begin

section \<open>What the webhook component guarantees\<close>

text \<open>
  The properties of outgoing webhooks over the reachable states of \<open>Webhook_Runs\<close>: which
  requests leave the server, what an attempt records, when an endpoint is disabled, that the
  archival ends, and what deleting an endpoint does and does not stop.
\<close>

subsection \<open>A deployment with one endpoint\<close>

text \<open>Ada owns a workspace with one endpoint for new sessions; its host has one public address.\<close>

definition hook_pg :: pg where
  "hook_pg = empty_pg\<lparr>
     pg_workspaces := [\<lparr>w_id = ''w1'', w_currency = ''usd'', w_account_id = None, w_blocked_at = None, w_deleted_at = None\<rparr>],
     pg_memberships := [\<lparr>m_user_id = ''ada'', m_workspace_id = ''w1'', m_deleted_at = None\<rparr>]\<rparr>"

definition ada_endpoint :: hook_endpoint where
  "ada_endpoint = \<lparr>ep_id = ''e1'', ep_url = ''https://hooks.example.com/in'', ep_format = Raw,
     ep_secret = ''s'', ep_events = [Session_Created], ep_enabled = True, ep_workspace_id = ''w1'',
     ep_created_at = 0, ep_deleted_at = None\<rparr>"

definition hooks0 :: hooks where
  "hooks0 = \<lparr>hk_pg = hook_pg, hk_emails = (\<lambda>_. ''ada@example.com''), hk_names = (\<lambda>_. ''Ada''),
     hk_endpoints = [], hk_events = [], hk_deliveries = [], hk_jobs = []\<rparr>"

definition hooks1 :: hooks where
  "hooks1 = hooks0\<lparr>hk_endpoints := [ada_endpoint]\<rparr>"

definition event_ids :: "nat \<Rightarrow> uuid" where
  "event_ids n = CHR ''v'' # replicate n (CHR ''i'')"

definition plain_schema :: "hook_type \<Rightarrow> json \<Rightarrow> (uuid \<times> (string \<times> json) list) option" where
  "plain_schema t d = Some (''x1'', [(''id'', JStr ''x1'')])"

definition sent_event :: hook_event where
  "sent_event = hook_event_row \<lparr>hp_type = Session_Created, hp_timestamp = 100, hp_printed_time = ''T'',
     hp_data_id = ''x1'', hp_data = [(''id'', JStr ''x1'')]\<rparr> ''Ada'' ''v'' ada_endpoint"

definition hooks2 :: hooks where
  "hooks2 = hooks1\<lparr>hk_events := [sent_event], hk_jobs := [Send_Job ''v'' False]\<rparr>"

definition public_dns :: "string \<Rightarrow> ip_address list option" where
  "public_dns host = (if host = ''hooks.example.com'' then Some [IPv4 (ipv4 93 184 216 34)] else None)"

definition plain_signer :: signer where
  "plain_signer key i t payload = key @ i"

definition sample_attempt :: "nat \<Rightarrow> http_reply \<Rightarrow> attempt" where
  "sample_attempt n reply = \<lparr>at_now = 101, at_retries = n, at_delivery_id = ''d1'', at_development = False,
     at_dns = public_dns, at_reply = reply\<rparr>"

lemma inj_event_ids: "inj event_ids"
proof (rule injI)
  fix m n assume "event_ids m = event_ids n"
  then have "length (event_ids m) = length (event_ids n)" by simp
  then show "m = n" by (simp add: event_ids_def)
qed

lemma hooks1_reach: "hook_reach hooks1"
proof -
  have "hook_reach hooks0" by (rule hook_reach.start) (simp_all add: hooks0_def)
  moreover have "create_endpoint (\<lambda>_ _ _. []) (User ''ada'') \<lparr>ec_url = ''https://hooks.example.com/in'',
      ec_secret = Some ''s'', ec_format = Raw, ec_events = [Session_Created], ec_workspace_id = Some ''w1''\<rparr>
      0 ''e1'' [] hooks0 = (Inr ada_endpoint, hooks1)"
    by (simp add: Let_def create_endpoint_def get_payload_workspace_def select_one_def get_one_or_none_def
        run_select_def hooks0_def hooks1_def hook_pg_def empty_pg_def member_of_def ada_endpoint_def)
  moreover have "''e1'' \<notin> ep_id ` set (hk_endpoints hooks0)" by (simp add: hooks0_def)
  ultimately show ?thesis using hook_reach.step hook_step.creates by blast
qed

lemma hooks2_sent:
  "hook_send plain_schema (\<lambda>_. ''T'') event_ids 100 ''w1'' Session_Created JNull hooks1 = (Inr [sent_event], hooks2)"
  by (simp add: Let_def hook_send_def plain_schema_def get_active_for_event_def hooks1_def hooks0_def hook_pg_def
      empty_pg_def ada_endpoint_def hooks2_def sent_event_def dispatch_job_def event_ids_def hook_event_row_def)

lemma hooks2_reach: "hook_reach hooks2"
proof -
  have "range event_ids \<inter> ev_id ` set (hk_events hooks1) = {}" by (simp add: hooks1_def hooks0_def)
  then show ?thesis
    using hook_reach.step [OF hooks1_reach] hook_step.sends [OF hooks2_sent inj_event_ids] by blast
qed

lemma hooks2_rows:
  "pg_up (hk_pg hooks2)" "sent_event \<in> set (hk_events hooks2)" "ev_deleted_at sent_event = None"
  "ada_endpoint \<in> set (hk_endpoints hooks2)" "ev_endpoint_id sent_event = ep_id ada_endpoint"
  "ev_id sent_event = ''v''"
  by (simp_all add: hooks2_def hooks1_def hooks0_def hook_pg_def empty_pg_def sent_event_def
      hook_event_row_def ada_endpoint_def)

lemma hooks2_due: "due 101 redeliver hooks2 ada_endpoint sent_event"
  by (simp add: due_def hooks2_def ada_endpoint_def sent_event_def hook_event_row_def waits_for_def)

lemma public_dns_safe: "resolve_safe_addrs public_dns (ep_url ada_endpoint) \<noteq> None"
proof -
  have "\<not> refused_address (IPv4 (ipv4 93 184 216 34))"
    by (simp add: refused_address_def is_private4_def is_loopback4_def is_link_local4_def
        in_some_net_def private_networks4_def private_exceptions4_def in_net_interval unat_ipv4)
  moreover have "split_scheme (clean_url (ep_url ada_endpoint)) = (''https'', ''//hooks.example.com/in'')"
    by code_simp
  moreover have "url_netloc ''//hooks.example.com/in'' = Some ''hooks.example.com''"
    "url_hostname ''hooks.example.com'' = Some ''hooks.example.com''"
    "url_port ''hooks.example.com'' = Some None"
    by code_simp+
  ultimately show ?thesis by (simp add: resolve_safe_addrs_def public_dns_def)
qed

subsection \<open>Which requests leave the server\<close>

text \<open>
  Property C27: what an attempt to deliver an event sends is exactly determined: one signed POST
  of the stored payload to the URL of the endpoint when the endpoint is enabled, the payload is
  not archived, the event has not succeeded (or its redelivery was asked for), no older event
  of the last minute waits for its first delivery, and every address of the host is public;
  otherwise nothing. So no request is sent to a host that resolves to a private, loopback or
  link-local address when it is checked.
\<close>

theorem webhook_request_exact:
  assumes "hook_reach s" and "pg_up (hk_pg s)" and "ev \<in> set (hk_events s)" and "ev_deleted_at ev = None"
    and "ep \<in> set (hk_endpoints s)" and "ev_endpoint_id ev = ep_id ep"
  shows "snd (webhook_event_send sign at (ev_id ev) redeliver s) =
      (if due (at_now at) redeliver s ep ev \<and> resolve_safe_addrs (at_dns at) (ep_url ep) \<noteq> None \<and> \<not> at_development at
       then [\<lparr>po_url = ep_url ep,
              po_headers = delivery_headers sign at ep (ev_id ev) (the (ev_payload ev)),
              po_content = the (ev_payload ev)\<rparr>]
       else []) \<and>
    (snd (webhook_event_send sign at (ev_id ev) redeliver s) \<noteq> [] \<longrightarrow>
      (\<exists>host addrs. checked_host (ep_url ep) = Some host \<and> at_dns at host = Some addrs \<and> addrs \<noteq> [] \<and>
         (\<forall>a \<in> set addrs. \<not> refused_address a)))"
proof -
  have keyed: "hooks_keyed s" using hook_reach_ok [OF assms(1)] by (simp add: hooks_ok_def)
  have posts: "snd (webhook_event_send sign at (ev_id ev) redeliver s) =
      (if due (at_now at) redeliver s ep ev \<and> resolve_safe_addrs (at_dns at) (ep_url ep) \<noteq> None \<and> \<not> at_development at
       then [\<lparr>po_url = ep_url ep,
              po_headers = delivery_headers sign at ep (ev_id ev) (the (ev_payload ev)),
              po_content = the (ev_payload ev)\<rparr>]
       else [])"
    using send_attempt_due [OF keyed assms(2-6)] send_attempt_not_due [OF keyed assms(2-6)]
    by (cases "due (at_now at) redeliver s ep ev") (simp_all add: webhook_event_send_def deliver_posts)
  moreover have "\<exists>host addrs. checked_host (ep_url ep) = Some host \<and> at_dns at host = Some addrs \<and>
      addrs \<noteq> [] \<and> (\<forall>a \<in> set addrs. \<not> refused_address a)"
    if sent: "snd (webhook_event_send sign at (ev_id ev) redeliver s) \<noteq> []"
  proof -
    obtain sa where "resolve_safe_addrs (at_dns at) (ep_url ep) = Some sa"
      using sent posts by (auto split: if_splits)
    from resolve_safe_addrs_Some [OF this] show ?thesis by blast
  qed
  ultimately show ?thesis by blast
qed

theorem webhook_request_exact_witness:
  "map po_url (snd (webhook_event_send plain_signer (sample_attempt 0 (Response 200 [] [])) (ev_id sent_event) False hooks2)) =
     [''https://hooks.example.com/in'']"
  using webhook_request_exact [OF hooks2_reach hooks2_rows(1-5), of plain_signer "sample_attempt 0 (Response 200 [] [])" False]
    hooks2_due [of False] public_dns_safe
  by (simp add: sample_attempt_def) (simp add: ada_endpoint_def)


subsection \<open>What an attempt records\<close>

lemma deliver_failing:
  assumes "failure_reply (at_reply at)" and "resolve_safe_addrs (at_dns at) (ep_url ep) \<noteq> None"
    and "\<not> at_development at"
  obtains code body error where "fst (deliver sign at ep ev payload s) = delivery_failed at ev code body error s"
  using assms by (cases "at_reply at") (auto simp: deliver_def failure_reply_def Let_def)

lemma settles_event:
  assumes "settles at ev ok s s'" and "ev \<in> set (hk_events s)"
  shows "\<exists>d. hk_deliveries s' = hk_deliveries s @ [d] \<and> dl_event_id d = ev_id ev \<and> dl_succeeded d = ok"
    and "\<exists>ev' \<in> set (hk_events s'). ev_id ev' = ev_id ev \<and> ev_succeeded ev' = Some ok"
proof -
  obtain d g where *: "hk_events s' = map (\<lambda>e. if ev_id e = ev_id ev then g e else e) (hk_events s)"
    "\<forall>e. same_event e (g e) \<and> ev_succeeded (g e) = Some ok"
    "hk_deliveries s' = hk_deliveries s @ [d]" "dl_event_id d = ev_id ev" "dl_succeeded d = ok"
    using assms(1) unfolding settles_def by blast
  show "\<exists>d. hk_deliveries s' = hk_deliveries s @ [d] \<and> dl_event_id d = ev_id ev \<and> dl_succeeded d = ok"
    using *(3-5) by blast
  have "g ev \<in> set (hk_events s')" using assms(2) *(1) by auto
  then show "\<exists>ev' \<in> set (hk_events s'). ev_id ev' = ev_id ev \<and> ev_succeeded ev' = Some ok"
    using *(2) by (auto simp: same_event_def)
qed

text \<open>
  Property C28: an attempt that the receiver refuses or does not answer leaves no trace while the
  message has retries left: the request went out, but \<open>Retry\<close> rolls the session back, so no
  delivery row, no HTTP code and no job remain. Only when the ten retries are used up is the
  failure recorded: one delivery row, the event marked failed, and the failure task queued.
\<close>

theorem retried_attempt_leaves_no_trace:
  assumes "hook_reach s" and "pg_up (hk_pg s)" and "ev \<in> set (hk_events s)" and "ev_deleted_at ev = None"
    and "ep \<in> set (hk_endpoints s)" and "ev_endpoint_id ev = ep_id ep"
    and "due (at_now at) redeliver s ep ev"
    and "failure_reply (at_reply at)" and "resolve_safe_addrs (at_dns at) (ep_url ep) \<noteq> None"
    and "\<not> at_development at"
  shows "length (snd (webhook_event_send sign at (ev_id ev) redeliver s)) = 1 \<and>
    (if at_retries at < WEBHOOK_MAX_RETRIES
     then fst (webhook_event_send sign at (ev_id ev) redeliver s) = (Inl Retry, s)
     else (\<exists>s'. fst (webhook_event_send sign at (ev_id ev) redeliver s) = (Inr (), s') \<and>
        (\<exists>d. hk_deliveries s' = hk_deliveries s @ [d] \<and> dl_event_id d = ev_id ev \<and> dl_succeeded d = False) \<and>
        (\<exists>ev' \<in> set (hk_events s'). ev_id ev' = ev_id ev \<and> ev_succeeded ev' = Some False) \<and>
        hk_jobs s' = hk_jobs s @ [Failed_Job (ev_id ev)]))"
proof -
  have keyed: "hooks_keyed s" using hook_reach_ok [OF assms(1)] by (simp add: hooks_ok_def)
  let ?payload = "the (ev_payload ev)"
  have att: "send_attempt sign at (ev_id ev) redeliver s = deliver sign at ep ev ?payload (unskip ev s)"
    by (rule send_attempt_due [OF keyed assms(2-7)])
  then have "length (snd (webhook_event_send sign at (ev_id ev) redeliver s)) = 1"
    using assms(9,10) by (simp add: webhook_event_send_def deliver_posts)
  moreover obtain code body error where
    run: "fst (deliver sign at ep ev ?payload (unskip ev s)) = delivery_failed at ev code body error (unskip ev s)"
    using deliver_failing [OF assms(8-10)] by blast
  have "fst (webhook_event_send sign at (ev_id ev) redeliver s) = (Inl Retry, s)"
    if "can_retry at"
    using that run att
    by (simp add: webhook_event_send_def in_session_def delivery_failed_def Let_def)
  moreover have "\<exists>s'. fst (webhook_event_send sign at (ev_id ev) redeliver s) = (Inr (), s') \<and>
      settles at ev False s s' \<and> hk_jobs s' = hk_jobs s @ [Failed_Job (ev_id ev)]"
    if no: "\<not> can_retry at"
  proof -
    let ?r = "delivery_failed at ev code body error (unskip ev s)"
    have r: "fst ?r = Inr ()" using delivery_failed_result no by simp
    have "fst (webhook_event_send sign at (ev_id ev) redeliver s) = ?r"
      using in_session_ok [of "\<lambda>s. fst (send_attempt sign at (ev_id ev) redeliver s)" s] att run r
      by (simp add: webhook_event_send_def)
    moreover have "settles at ev False s (snd ?r)"
      by (rule settles_unskip) (rule delivery_failed_settles(1) [OF no])
    moreover have "hk_jobs (snd ?r) = hk_jobs s @ [Failed_Job (ev_id ev)]"
      using delivery_failed_settles(2) [OF no, of ev code body error "unskip ev s"] by simp
    ultimately show ?thesis using r by (metis prod.collapse)
  qed
  ultimately show ?thesis
    using settles_event [OF _ assms(3)] by (simp add: can_retry_def) blast
qed

lemma sample_not_found: "failure_reply (Response 404 [] ''Not Found'')"
  by (simp add: failure_reply_def)

theorem retried_attempt_leaves_no_trace_witness:
  "fst (webhook_event_send plain_signer (sample_attempt 9 (Response 404 [] ''Not Found'')) (ev_id sent_event) False hooks2) =
     (Inl Retry, hooks2) \<and>
   hk_jobs (snd (fst (webhook_event_send plain_signer (sample_attempt 10 (Response 404 [] ''Not Found'')) (ev_id sent_event) False hooks2))) =
     [Send_Job ''v'' False, Failed_Job ''v'']"
proof -
  have sample: "due (at_now (sample_attempt n r)) False hooks2 ada_endpoint sent_event"
    "failure_reply (at_reply (sample_attempt n (Response 404 [] ''Not Found'')))"
    "resolve_safe_addrs (at_dns (sample_attempt n r)) (ep_url ada_endpoint) \<noteq> None"
    "\<not> at_development (sample_attempt n r)" for n r
    using hooks2_due public_dns_safe sample_not_found by (simp_all add: sample_attempt_def)
  note run = retried_attempt_leaves_no_trace [OF hooks2_reach hooks2_rows(1-5) sample, of plain_signer]
  have "fst (webhook_event_send plain_signer (sample_attempt 9 (Response 404 [] ''Not Found'')) (ev_id sent_event) False hooks2) =
     (Inl Retry, hooks2)"
    using run [of 9] by (simp add: sample_attempt_def WEBHOOK_MAX_RETRIES_def)
  moreover have "hk_jobs (snd (fst (webhook_event_send plain_signer (sample_attempt 10 (Response 404 [] ''Not Found'')) (ev_id sent_event) False hooks2))) =
     [Send_Job ''v'' False, Failed_Job ''v'']"
  proof -
    have "hk_jobs hooks2 = [Send_Job ''v'' False]" by (simp add: hooks2_def)
    moreover have "\<not> at_retries (sample_attempt 10 (Response 404 [] ''Not Found'')) < WEBHOOK_MAX_RETRIES"
      by (simp add: sample_attempt_def WEBHOOK_MAX_RETRIES_def)
    ultimately show ?thesis using run [of 10] hooks2_rows(6) by force
  qed
  ultimately show ?thesis ..
qed

text \<open>
  Property C29: the state of an event is the outcome of its last recorded delivery, in every
  reachable state: an event is pending exactly as long as no delivery row names it, and all its
  rows name its own endpoint.
\<close>

theorem event_state_is_last_delivery:
  assumes "hook_reach s" and "ev \<in> set (hk_events s)"
  shows "ev_succeeded ev = recorded_outcome (hk_deliveries s) (ev_id ev) \<and>
    (ev_succeeded ev = None \<longleftrightarrow> \<not> delivered s ev) \<and>
    (\<forall>d \<in> set (hk_deliveries s). dl_event_id d = ev_id ev \<longrightarrow> dl_endpoint_id d = ev_endpoint_id ev)"
proof -
  have "ev_succeeded ev = recorded_outcome (hk_deliveries s) (ev_id ev)"
    and "\<forall>d \<in> set (hk_deliveries s). dl_event_id d = ev_id ev \<longrightarrow> dl_endpoint_id d = ev_endpoint_id ev"
    using hook_reach_ok [OF assms(1)] assms(2) by (simp_all add: hooks_ok_def)
  then show ?thesis
    using recorded_outcome_None [of "hk_deliveries s" "ev_id ev"] by (auto simp: delivered_def list_ex_iff)
qed

theorem event_state_is_last_delivery_witness:
  "ev_succeeded sent_event = None \<and> \<not> delivered hooks2 sent_event"
proof -
  have "ev_succeeded sent_event = None" by (simp add: sent_event_def hook_event_row_def)
  with event_state_is_last_delivery [OF hooks2_reach hooks2_rows(2)] show ?thesis by simp
qed


subsection \<open>Disabling an endpoint that keeps failing\<close>

text \<open>The completed events of an endpoint, newest first, as \<open>get_recent_by_endpoint\<close> lists them.\<close>

definition completed_events :: "uuid \<Rightarrow> hooks \<Rightarrow> hook_event list" where
  "completed_events i s = sort_key (\<lambda>ev. - ev_created_at ev)
     (filter (\<lambda>ev. ev_endpoint_id ev = i \<and> ev_succeeded ev \<noteq> None) (live_events s))"

definition members_of :: "uuid \<Rightarrow> hooks \<Rightarrow> membership_row list" where
  "members_of w s = filter (\<lambda>m. m_deleted_at m = None \<and> m_workspace_id m = w) (pg_memberships (hk_pg s))"

lemma fold_mails:
  "foldl (\<lambda>s m. dispatch_job (disabled_mail s ep m) s) s ms =
   s\<lparr>hk_jobs := hk_jobs s @ map (disabled_mail s ep) ms\<rparr>"
  by (induction ms arbitrary: s) (simp_all add: dispatch_job_def disabled_mail_def)

text \<open>The state after disabling: the endpoint off, what was pending skipped, every member told.\<close>

definition disabled_state :: "hook_endpoint \<Rightarrow> hooks \<Rightarrow> hooks" where
  "disabled_state ep s = s\<lparr>
     hk_endpoints := map (\<lambda>e. if ep_id e = ep_id ep then e\<lparr>ep_enabled := False\<rparr> else e) (hk_endpoints s),
     hk_events := map (\<lambda>ev. if pending_at (ep_id ep) ev then ev\<lparr>ev_skipped := True\<rparr> else ev) (hk_events s),
     hk_jobs := hk_jobs s @ map (disabled_mail s ep) (members_of (ep_workspace_id ep) s)\<rparr>"

lemma disabled_mail_cong [simp]:
  "disabled_mail (s\<lparr>hk_endpoints := es\<rparr>) = disabled_mail s"
  "disabled_mail (s\<lparr>hk_events := evs\<rparr>) = disabled_mail s"
  by (simp_all add: disabled_mail_def fun_eq_iff)

lemma disable_endpoint_eq:
  "pg_up (hk_pg s) \<Longrightarrow> disable_endpoint ep s = (Inr (), disabled_state ep s)"
  by (simp add: disable_endpoint_def skip_pending_by_endpoint_def list_by_workspace_def fold_mails
      disabled_state_def members_of_def update_endpoint_row_def disabled_mail_cong)

lemma disabled_posts_nothing:
  assumes "hooks_keyed s" and "ev \<in> set (hk_events s)" and "ev_endpoint_id ev = ep_id ep"
    and "ep \<in> set (hk_endpoints s)" and "\<not> ep_enabled ep"
  shows "snd (webhook_event_send sign at (ev_id ev) redeliver s) = []"
proof (cases "\<exists>found. event_by_id (ev_id ev) s = Inr (Some found)")
  case True
  then obtain ev' where ev': "event_by_id (ev_id ev) s = Inr (Some ev')" by blast
  then have "ev' = ev"
    using event_by_id_Some [OF ev'] assms(1,2) by (auto simp: hooks_keyed_def distinct_map inj_on_def)
  with ev' assms(5) event_endpoint_found [OF assms(1,4,3)] show ?thesis
    by (simp add: webhook_event_send_def send_attempt_def)
next
  case False
  then show ?thesis
    by (auto simp: webhook_event_send_def send_attempt_def split: sum.splits option.splits)
qed


text \<open>A run in which the host of the endpoint resolves to nothing: every event sent fails at once.\<close>

definition refused_attempt :: "nat \<Rightarrow> attempt" where
  "refused_attempt n = \<lparr>at_now = 100, at_retries = 0, at_delivery_id = event_ids n, at_development = False,
     at_dns = (\<lambda>_. None), at_reply = Other_Exception\<rparr>"

definition failed_event :: "nat \<Rightarrow> hook_event" where
  "failed_event n = sent_event\<lparr>ev_id := event_ids n, ev_succeeded := Some False\<rparr>"

definition failed_hooks :: "nat \<Rightarrow> hooks" where
  "failed_hooks n = hooks1\<lparr>hk_events := map failed_event [0..<n],
     hk_deliveries := map (\<lambda>k. new_delivery (refused_attempt k) (failed_event k) False None (Some refused_response)) [0..<n],
     hk_jobs := map (\<lambda>k. Send_Job (event_ids k) False) [0..<n]\<rparr>"

lemma event_ids_eq [simp]: "event_ids m = event_ids n \<longleftrightarrow> m = n"
  using inj_event_ids by (simp add: inj_eq)

lemma refused_url: "resolve_safe_addrs (\<lambda>_. None) url = None"
  by (simp add: resolve_safe_addrs_def split: prod.splits option.splits)

lemma failed_hooks_step:
  assumes "hook_reach (failed_hooks n)"
  shows "hook_reach (failed_hooks (Suc n))"
proof -
  let ?ev = "sent_event\<lparr>ev_id := event_ids n\<rparr>"
  let ?s = "(failed_hooks n)\<lparr>hk_events := hk_events (failed_hooks n) @ [?ev],
    hk_jobs := hk_jobs (failed_hooks n) @ [Send_Job (event_ids n) False]\<rparr>"
  have sent: "hook_send plain_schema (\<lambda>_. ''T'') (\<lambda>k. event_ids (n + k)) 100 ''w1'' Session_Created JNull (failed_hooks n) =
      (Inr [?ev], ?s)"
    by (simp add: Let_def hook_send_def plain_schema_def get_active_for_event_def failed_hooks_def hooks1_def hooks0_def
        hook_pg_def empty_pg_def ada_endpoint_def sent_event_def dispatch_job_def hook_event_row_def)
  have fresh: "range (\<lambda>k. event_ids (n + k)) \<inter> ev_id ` set (hk_events (failed_hooks n)) = {}"
    by (auto simp: failed_hooks_def failed_event_def)
  have reach: "hook_reach ?s"
    using hook_reach.step [OF assms] hook_step.sends [OF sent _ fresh] by (simp add: inj_def)
  have keyed: "hooks_keyed ?s" using hook_reach_ok [OF reach] by (simp add: hooks_ok_def)
  have rows: "pg_up (hk_pg ?s)" "?ev \<in> set (hk_events ?s)" "ev_deleted_at ?ev = None"
    "ada_endpoint \<in> set (hk_endpoints ?s)" "ev_endpoint_id ?ev = ep_id ada_endpoint"
    "due (at_now (refused_attempt n)) False ?s ada_endpoint ?ev"
    by (simp_all add: failed_hooks_def hooks1_def hooks0_def hook_pg_def empty_pg_def sent_event_def
        hook_event_row_def ada_endpoint_def due_def waits_for_def list_ex_iff failed_event_def)
  have "map (\<lambda>e. if ev_id e = event_ids n then e\<lparr>ev_succeeded := Some False\<rparr> else e) (map failed_event [0..<n]) =
    map failed_event [0..<n]"
    by (auto simp: failed_event_def)
  then have "webhook_event_send plain_signer (refused_attempt n) (ev_id ?ev) False ?s = ((Inr (), failed_hooks (Suc n)), [])"
    unfolding webhook_event_send_def in_session_def send_attempt_due [OF keyed rows]
    by (simp add: deliver_def refused_attempt_def refused_url unskip_def sent_event_def hook_event_row_def
        failed_hooks_def update_event_def add_delivery_def new_delivery_def failed_event_def)
  moreover have "at_delivery_id (refused_attempt n) \<notin> dl_id ` set (hk_deliveries ?s)"
    by (auto simp: failed_hooks_def refused_attempt_def new_delivery_def)
  ultimately show ?thesis using hook_reach.step [OF reach hook_step.attempts] by blast
qed

lemma failed_hooks_reach: "hook_reach (failed_hooks n)"
proof (induction n)
  case 0
  have "failed_hooks 0 = hooks1" by (simp add: failed_hooks_def hooks1_def hooks0_def)
  then show ?case using hooks1_reach by simp
next
  case (Suc n)
  then show ?case by (rule failed_hooks_step)
qed

text \<open>
  Property C30: a reported failure disables the endpoint exactly when its ten most recent
  completed events have all failed and it is still enabled; then everything pending at the
  endpoint is marked skipped and every member of the workspace is mailed once, and no attempt on
  any of its events sends anything. Otherwise nothing changes.
\<close>

theorem failing_endpoint_disabled:
  assumes "hook_reach s" and "pg_up (hk_pg s)" and "ev \<in> set (hk_events s)" and "ev_deleted_at ev = None"
    and "ev_succeeded ev = Some False" and "ep \<in> set (hk_endpoints s)" and "ev_endpoint_id ev = ep_id ep"
  shows "webhook_event_failed (ev_id ev) s =
      (let recent = take WEBHOOK_FAILURE_THRESHOLD (completed_events (ep_id ep) s)
       in if ep_enabled ep \<and> length recent = WEBHOOK_FAILURE_THRESHOLD \<and> (\<forall>e \<in> set recent. ev_succeeded e = Some False)
          then (Inr (), disabled_state ep s) else (Inr (), s)) \<and>
    get_pending_by_endpoint (ep_id ep) (disabled_state ep s) = Inr [] \<and>
    (\<forall>sign at redeliver. \<forall>ev' \<in> set (hk_events (disabled_state ep s)). ev_endpoint_id ev' = ep_id ep \<longrightarrow>
       snd (webhook_event_send sign at (ev_id ev') redeliver (disabled_state ep s)) = [])"
proof -
  have ok: "hooks_ok s" by (rule hook_reach_ok [OF assms(1)])
  then have keyed: "hooks_keyed s" by (simp add: hooks_ok_def)
  let ?recent = "take WEBHOOK_FAILURE_THRESHOLD (completed_events (ep_id ep) s)"
  have recent: "get_recent_by_endpoint (ep_id ep) WEBHOOK_FAILURE_THRESHOLD s = Inr ?recent"
    using assms(2) by (simp add: get_recent_by_endpoint_def completed_events_def)
  have len: "WEBHOOK_FAILURE_THRESHOLD \<le> length ?recent \<longleftrightarrow> length ?recent = WEBHOOK_FAILURE_THRESHOLD"
    by auto
  have "on_event_failed (ev_id ev) s =
      (if ep_enabled ep \<and> length ?recent = WEBHOOK_FAILURE_THRESHOLD \<and> (\<forall>e \<in> set ?recent. ev_succeeded e = Some False)
       then (Inr (), disabled_state ep s) else (Inr (), s))"
    using event_by_id_found [OF keyed assms(2-4)] event_endpoint_found [OF keyed assms(6,7)] assms(2,5) recent
    unfolding on_event_failed_def len [symmetric]
    by (simp add: disable_endpoint_eq list_all_iff)
  then have "webhook_event_failed (ev_id ev) s =
      (if ep_enabled ep \<and> length ?recent = WEBHOOK_FAILURE_THRESHOLD \<and> (\<forall>e \<in> set ?recent. ev_succeeded e = Some False)
       then (Inr (), disabled_state ep s) else (Inr (), s))"
    by (simp add: webhook_event_failed_def in_session_def)
  moreover have "get_pending_by_endpoint (ep_id ep) (disabled_state ep s) = Inr []"
    using assms(2) by (auto simp: get_pending_by_endpoint_def disabled_state_def filter_empty_conv pending_at_def)
  moreover have "snd (webhook_event_send sign at (ev_id ev') redeliver (disabled_state ep s)) = []"
    if "ev' \<in> set (hk_events (disabled_state ep s))" "ev_endpoint_id ev' = ep_id ep" for sign at redeliver ev'
  proof -
    have "keeps_outcomes s (disabled_state ep s)"
      by (auto simp: keeps_outcomes_def disabled_state_def)
    then have keyed': "hooks_keyed (disabled_state ep s)"
      using keeps_outcomes_ok [OF _ ok] by (simp add: hooks_ok_def)
    let ?off = "ep\<lparr>ep_enabled := False\<rparr>"
    have off: "?off \<in> set (hk_endpoints (disabled_state ep s))" "ev_endpoint_id ev' = ep_id ?off" "\<not> ep_enabled ?off"
      using assms(6) that(2) by (auto simp: disabled_state_def)
    show ?thesis by (rule disabled_posts_nothing [OF keyed' that(1) off(2,1,3)])
  qed
  ultimately show ?thesis unfolding Let_def by blast
qed

theorem failing_endpoint_disabled_witness:
  "webhook_event_failed ''v'' (failed_hooks 10) = (Inr (), disabled_state ada_endpoint (failed_hooks 10)) \<and>
   webhook_event_failed ''v'' (failed_hooks 9) = (Inr (), failed_hooks 9)"
proof -
  have rows: "pg_up (hk_pg (failed_hooks n))" "ev_deleted_at (failed_event 0) = None"
    "ev_succeeded (failed_event 0) = Some False" "ada_endpoint \<in> set (hk_endpoints (failed_hooks n))"
    "ev_endpoint_id (failed_event 0) = ep_id ada_endpoint" "ev_id (failed_event 0) = ''v''" for n
    by (simp_all add: failed_hooks_def hooks1_def hooks0_def hook_pg_def empty_pg_def failed_event_def
        sent_event_def hook_event_row_def ada_endpoint_def event_ids_def)
  have first: "failed_event 0 \<in> set (hk_events (failed_hooks n))" if "0 < n" for n
    using that by (auto simp: failed_hooks_def)
  have cols: "ev_deleted_at (failed_event k) = None" "ev_endpoint_id (failed_event k) = ''e1''"
    "ev_succeeded (failed_event k) = Some False" for k
    by (simp_all add: failed_event_def sent_event_def hook_event_row_def ada_endpoint_def)
  have live: "filter (\<lambda>ev. ev_endpoint_id ev = ''e1'' \<and> ev_succeeded ev \<noteq> None) (live_events (failed_hooks n)) =
      map failed_event [0..<n]" for n
    by (simp add: live_events_def failed_hooks_def filter_map comp_def cols del: not_None_eq)
  have "length (completed_events ''e1'' (failed_hooks n)) = n"
    "\<forall>e \<in> set (completed_events ''e1'' (failed_hooks n)). ev_succeeded e = Some False" for n
    unfolding completed_events_def live by (auto simp: failed_event_def)
  moreover have "ep_id ada_endpoint = ''e1''" "ep_enabled ada_endpoint" by (simp_all add: ada_endpoint_def)
  ultimately have "webhook_event_failed ''v'' (failed_hooks n) =
      (if 10 \<le> n then (Inr (), disabled_state ada_endpoint (failed_hooks n)) else (Inr (), failed_hooks n))"
    if "0 < n" for n
    using failing_endpoint_disabled [OF failed_hooks_reach rows(1) first [OF that] rows(2-5)] rows(6)
    by (auto simp: Let_def WEBHOOK_FAILURE_THRESHOLD_def dest!: in_set_takeD)
  from this [of 10] this [of 9] show ?thesis by simp
qed


subsection \<open>Archiving ends\<close>

text \<open>
  Property C31: the archiving loop returns for every batch size but 0, whatever the tables hold:
  then exactly the payloads of the events older than the cutoff are gone and nothing else has
  changed. With a batch size of 0 it never returns.
\<close>

theorem archiving_returns:
  assumes "hook_reach s" and "pg_up (hk_pg s)"
  shows "archive_events older_than batch_size s =
    (if batch_size = 0 then None else Some (Inr (), archived older_than s))"
proof -
  have "distinct (map ev_id (hk_events s))"
    using hook_reach_ok [OF assms(1)] by (simp add: hooks_ok_def hooks_keyed_def)
  then show ?thesis
    using archive_events_returns [OF assms(2)] archive_events_endless [OF assms(2)] by simp
qed

theorem archiving_returns_witness:
  "archive_events 200 5 hooks2 = Some (Inr (), archived 200 hooks2) \<and> archive_events 200 0 hooks2 = None"
  using archiving_returns [OF hooks2_reach hooks2_rows(1)] by simp

subsection \<open>Sending and deleting\<close>

text \<open>
  An event of a workspace becomes one pending row and one delivery task for each
  live, enabled endpoint of the workspace that subscribes to its type, with the payload in the
  format of the endpoint; other rows and endpoints are untouched. Data the schema refuses
  creates nothing.
\<close>

theorem event_reaches_subscribers:
  assumes "pg_up (hk_pg s)"
  shows "\<exists>evs. hook_send schema print_time draw now w t data s =
    (case schema t data of
       None \<Rightarrow> (Inl (RequestValidationError ''data''), s)
     | Some _ \<Rightarrow> (Inr evs, s\<lparr>hk_events := hk_events s @ evs,
         hk_jobs := hk_jobs s @ map (\<lambda>ev. Send_Job (ev_id ev) False) evs\<rparr>)) \<and>
    (\<forall>data_id flds. schema t data = Some (data_id, flds) \<longrightarrow>
      map (\<lambda>ev. (ev_endpoint_id ev, ev_payload ev)) evs =
        map (\<lambda>e. (ep_id e, Some (get_payload \<lparr>hp_type = t, hp_timestamp = now, hp_printed_time = print_time now,
               hp_data_id = data_id, hp_data = flds\<rparr> (ep_format e) (hk_names s w))))
          (filter (\<lambda>e. ep_deleted_at e = None \<and> ep_enabled e \<and> t \<in> set (ep_events e) \<and> ep_workspace_id e = w)
             (hk_endpoints s))) \<and>
    (\<forall>ev \<in> set evs. ev_succeeded ev = None \<and> ev_type ev = t \<and> ev_created_at ev = now)"
proof (cases "schema t data")
  case None
  then show ?thesis by (intro exI [of _ "[]"]) (simp add: hook_send_def)
next
  case (Some d)
  obtain data_id flds where d: "d = (data_id, flds)" by fastforce
  let ?p = "\<lparr>hp_type = t, hp_timestamp = now, hp_printed_time = print_time now,
    hp_data_id = data_id, hp_data = flds\<rparr>"
  let ?es = "filter (\<lambda>e. ep_deleted_at e = None \<and> ep_enabled e \<and> t \<in> set (ep_events e) \<and> ep_workspace_id e = w)
    (hk_endpoints s)"
  have events: "create_events p name is es s =
      (map2 (hook_event_row p name) is es,
       s\<lparr>hk_events := hk_events s @ map2 (hook_event_row p name) is es,
         hk_jobs := hk_jobs s @ map (\<lambda>ev. Send_Job (ev_id ev) False) (map2 (hook_event_row p name) is es)\<rparr>)"
    for p name "is" es and s :: hooks
    by (induction p name "is" es s rule: create_events.induct)
      (auto simp: Let_def dispatch_job_def hook_event_row_def)
  have cols: "map (\<lambda>ev. (ev_endpoint_id ev, ev_payload ev)) (map2 (hook_event_row ?p name) is es) =
      map (\<lambda>e. (ep_id e, Some (get_payload ?p (ep_format e) name))) es"
    if "length is = length es" for name "is" es
    using that by (induction "is" es rule: list_induct2) (simp_all add: hook_event_row_def)
  have new: "\<forall>ev \<in> set (map2 (hook_event_row ?p name) is es).
      ev_succeeded ev = None \<and> ev_type ev = t \<and> ev_created_at ev = now" for name "is" es
    by (auto simp: hook_event_row_def)
  let ?is = "map draw [0..<length ?es]"
  define evs where "evs = map2 (hook_event_row ?p (hk_names s w)) ?is ?es"
  have "get_active_for_event t w s = Inr ?es"
    using assms by (simp add: get_active_for_event_def)
  then have "hook_send schema print_time draw now w t data s = (Inr evs, s\<lparr>hk_events := hk_events s @ evs,
      hk_jobs := hk_jobs s @ map (\<lambda>ev. Send_Job (ev_id ev) False) evs\<rparr>)"
    unfolding hook_send_def Some d option.case prod.case sum.case Let_def events evs_def by simp
  moreover have "map (\<lambda>ev. (ev_endpoint_id ev, ev_payload ev)) evs =
      map (\<lambda>e. (ep_id e, Some (get_payload ?p (ep_format e) (hk_names s w)))) ?es"
    unfolding evs_def by (rule cols) simp
  moreover have "\<forall>ev \<in> set evs. ev_succeeded ev = None \<and> ev_type ev = t \<and> ev_created_at ev = now"
    unfolding evs_def by (rule new)
  ultimately show ?thesis
    unfolding Some d option.case by (intro exI [of _ evs]) simp
qed

theorem event_reaches_subscribers_witness:
  "\<exists>evs. hook_send plain_schema (\<lambda>_. ''T'') event_ids 100 ''w1'' Session_Created JNull hooks1 =
    (Inr evs, hooks1\<lparr>hk_events := hk_events hooks1 @ evs,
      hk_jobs := hk_jobs hooks1 @ map (\<lambda>ev. Send_Job (ev_id ev) False) evs\<rparr>) \<and> map ev_endpoint_id evs = [''e1'']"
proof -
  have up: "pg_up (hk_pg hooks1)" by (simp add: hooks1_def hooks0_def hook_pg_def empty_pg_def)
  have active: "filter (\<lambda>e. ep_deleted_at e = None \<and> ep_enabled e \<and> Session_Created \<in> set (ep_events e) \<and>
      ep_workspace_id e = ''w1'') (hk_endpoints hooks1) = [ada_endpoint]"
    by (simp add: hooks1_def ada_endpoint_def)
  have schema: "plain_schema Session_Created JNull = Some (''x1'', [(''id'', JStr ''x1'')])"
    by (simp add: plain_schema_def)
  note sent = event_reaches_subscribers [OF up, of plain_schema "\<lambda>_. ''T''" event_ids 100 "''w1''" Session_Created JNull,
      unfolded active schema option.case]
  from sent show ?thesis
  proof (elim exE conjE)
    fix evs
    assume run: "hook_send plain_schema (\<lambda>_. ''T'') event_ids 100 ''w1'' Session_Created JNull hooks1 =
      (Inr evs, hooks1\<lparr>hk_events := hk_events hooks1 @ evs,
        hk_jobs := hk_jobs hooks1 @ map (\<lambda>ev. Send_Job (ev_id ev) False) evs\<rparr>)"
      and cols: "\<forall>data_id flds. Some (''x1'', [(''id'', JStr ''x1'')]) = Some (data_id, flds) \<longrightarrow>
        map (\<lambda>ev. (ev_endpoint_id ev, ev_payload ev)) evs = map (\<lambda>e. (ep_id e,
          Some (get_payload \<lparr>hp_type = Session_Created, hp_timestamp = 100, hp_printed_time = ''T'',
             hp_data_id = data_id, hp_data = flds\<rparr> (ep_format e) (hk_names hooks1 ''w1'')))) [ada_endpoint]"
    from cols [rule_format, OF refl] have "map (\<lambda>ev. (ev_endpoint_id ev, ev_payload ev)) evs = map (\<lambda>e. (ep_id e,
          Some (get_payload \<lparr>hp_type = Session_Created, hp_timestamp = 100, hp_printed_time = ''T'',
             hp_data_id = ''x1'', hp_data = [(''id'', JStr ''x1'')]\<rparr> (ep_format e) (hk_names hooks1 ''w1'')))) [ada_endpoint]" .
    from arg_cong [OF this, of "map fst"] have ids: "map ev_endpoint_id evs = [''e1'']"
      by (simp add: comp_def ada_endpoint_def)
    show ?thesis by (intro exI [of _ evs] conjI run ids)
  qed
qed

text \<open>
  Deleting an endpoint stops new events but not the ones already created: every
  attempt on an event of the deleted endpoint sends what it sent before. No subject finds the
  endpoint any more, so nobody can switch it off either.
\<close>

theorem deleted_endpoint_still_served:
  assumes "hook_reach s" and "pg_up (hk_pg s)" and "ep \<in> set (hk_endpoints s)"
    and "ep_deleted_at ep = None" and "endpoint_readable auth (hk_pg s) ep"
  shows "\<exists>s'. delete_webhook_endpoint now auth (ep_id ep) s = (Inr (), s') \<and>
    (\<forall>ev \<in> set (hk_events s). ev_deleted_at ev = None \<and> ev_endpoint_id ev = ep_id ep \<longrightarrow>
       (\<forall>sign at redeliver. snd (webhook_event_send sign at (ev_id ev) redeliver s') =
          snd (webhook_event_send sign at (ev_id ev) redeliver s))) \<and>
    (\<forall>auth'. get_endpoint auth' (ep_id ep) s' = Inr None)"
proof -
  have keyed: "hooks_keyed s" using hook_reach_ok [OF assms(1)] by (simp add: hooks_ok_def)
  let ?gone = "ep\<lparr>ep_deleted_at := Some now\<rparr>"
  let ?s = "delete_endpoint now ep s"
  have find: "filter (\<lambda>e. ep_id e = ep_id ep) (hk_endpoints s) = [ep]"
    using filter_id_unique [of ep_id "hk_endpoints s" ep] keyed assms(3) by (simp add: hooks_keyed_def)
  have "filter (\<lambda>e. ep_id e = ep_id ep) (readable_endpoints auth s) =
      filter (endpoint_readable auth (hk_pg s)) (filter (\<lambda>e. ep_deleted_at e = None) (filter (\<lambda>e. ep_id e = ep_id ep) (hk_endpoints s)))"
    by (simp add: readable_endpoints_def live_endpoints_def conj_ac)
  then have "get_endpoint auth (ep_id ep) s = Inr (Some ep)"
    using assms(2,4,5) unfolding find
    by (simp add: get_endpoint_def select_one_def get_one_or_none_def run_select_def)
  then have deleted: "delete_webhook_endpoint now auth (ep_id ep) s = (Inr (), ?s)"
    by (simp add: delete_webhook_endpoint_def endpoint_route_def)
  have keyed': "hooks_keyed ?s"
    using keeps_outcomes_ok [OF update_endpoint_row_keeps hook_reach_ok [OF assms(1)]]
    by (simp add: delete_endpoint_def hooks_ok_def)
  have rows: "pg_up (hk_pg ?s)" "hk_events ?s = hk_events s" "?gone \<in> set (hk_endpoints ?s)" "ep_id ?gone = ep_id ep"
    "hk_deliveries ?s = hk_deliveries s"
    using assms(2,3) by (auto simp: delete_endpoint_def update_endpoint_row_def)
  have due: "due now' redeliver ?s ?gone ev = due now' redeliver s ep ev" for now' redeliver ev
    unfolding due_def waits_for_def delivered_def rows(2,5) by simp
  have same: "snd (webhook_event_send sign at (ev_id ev) redeliver ?s) = snd (webhook_event_send sign at (ev_id ev) redeliver s)"
    if "ev \<in> set (hk_events s)" "ev_deleted_at ev = None" "ev_endpoint_id ev = ep_id ep" for sign at redeliver ev
  proof (cases "due (at_now at) redeliver s ep ev")
    case True
    then have "send_attempt sign at (ev_id ev) redeliver ?s = deliver sign at ?gone ev (the (ev_payload ev)) (unskip ev ?s)"
      using send_attempt_due [OF keyed' rows(1) _ _ rows(3)] that rows(2,4) due by simp
    moreover have "send_attempt sign at (ev_id ev) redeliver s = deliver sign at ep ev (the (ev_payload ev)) (unskip ev s)"
      using send_attempt_due [OF keyed assms(2) that(1,2) assms(3) that(3) True] .
    ultimately show ?thesis by (simp add: webhook_event_send_def deliver_posts delivery_headers_def)
  next
    case False
    then show ?thesis
      using send_attempt_not_due [OF keyed' rows(1) _ _ rows(3)] that rows(2,4) due
        send_attempt_not_due [OF keyed assms(2) that(1,2) assms(3) that(3)]
      by (simp add: webhook_event_send_def)
  qed
  have "filter (\<lambda>e. ep_id e = ep_id ep) (readable_endpoints auth' ?s) = []" for auth'
    by (auto simp: readable_endpoints_def live_endpoints_def delete_endpoint_def update_endpoint_row_def filter_empty_conv)
  then have "get_endpoint auth' (ep_id ep) ?s = Inr None" for auth'
    using rows(1) by (simp add: get_endpoint_def select_one_def get_one_or_none_def run_select_def)
  with deleted same show ?thesis by blast
qed

theorem deleted_endpoint_still_served_witness:
  "\<exists>s'. delete_webhook_endpoint 101 (User ''ada'') ''e1'' hooks2 = (Inr (), s') \<and>
    map po_url (snd (webhook_event_send plain_signer (sample_attempt 0 (Response 200 [] [])) ''v'' False s')) =
      [''https://hooks.example.com/in'']"
proof -
  have readable: "endpoint_readable (User ''ada'') (hk_pg hooks2) ada_endpoint" "ep_deleted_at ada_endpoint = None"
    "ep_id ada_endpoint = ''e1''"
    by (simp_all add: endpoint_readable_def hooks2_def hooks1_def hooks0_def hook_pg_def empty_pg_def
        member_of_def ada_endpoint_def)
  have keyed: "hooks_keyed hooks2" using hook_reach_ok [OF hooks2_reach] by (simp add: hooks_ok_def)
  have "due (at_now (sample_attempt 0 (Response 200 [] []))) False hooks2 ada_endpoint sent_event"
    using hooks2_due by (simp add: sample_attempt_def)
  from send_attempt_due [OF keyed hooks2_rows(1-5) this, of plain_signer]
  have "map po_url (snd (webhook_event_send plain_signer (sample_attempt 0 (Response 200 [] [])) ''v'' False hooks2)) =
      [''https://hooks.example.com/in'']"
    using public_dns_safe hooks2_rows(6)
    by (simp add: webhook_event_send_def deliver_posts) (simp add: sample_attempt_def ada_endpoint_def)
  then show ?thesis
    using deleted_endpoint_still_served [OF hooks2_reach hooks2_rows(1,4) readable(2,1), of 101] hooks2_rows readable(3)
    by metis
qed

text \<open>
  A URL that resolves to a refused address, or not at all, fails the event for good at the first
  attempt, without the task that counts failures: such an endpoint is never disabled by it.
\<close>

lemma refused_url_not_counted:
  assumes "hook_reach s" and "pg_up (hk_pg s)" and "ev \<in> set (hk_events s)" and "ev_deleted_at ev = None"
    and "ep \<in> set (hk_endpoints s)" and "ev_endpoint_id ev = ep_id ep"
    and "due (at_now at) redeliver s ep ev" and "resolve_safe_addrs (at_dns at) (ep_url ep) = None"
  shows "\<exists>s'. webhook_event_send sign at (ev_id ev) redeliver s = ((Inr (), s'), []) \<and>
    settles at ev False s s' \<and> hk_jobs s' = hk_jobs s"
proof -
  have keyed: "hooks_keyed s" using hook_reach_ok [OF assms(1)] by (simp add: hooks_ok_def)
  let ?s = "add_delivery (new_delivery at ev False None (Some refused_response))
    (update_event (ev_id ev) (\<lambda>e. e\<lparr>ev_succeeded := Some False\<rparr>) (unskip ev s))"
  have "webhook_event_send sign at (ev_id ev) redeliver s = ((Inr (), ?s), [])"
    unfolding webhook_event_send_def in_session_def send_attempt_due [OF keyed assms(2-7)]
    using assms(8) by (simp add: deliver_def)
  moreover have "settles at ev False s ?s"
    by (rule settles_unskip) (rule settlesI, simp add: same_event_def)
  ultimately show ?thesis by simp
qed

end
