(* ===== verification/Login.thy ===== *)
theory Login
  imports Pg_Tables Tokens Webhook_Addresses Rate_Limit
begin

section \<open>Signing in: login codes and browser sessions\<close>

text \<open>
  Password-less sign-in (\<open>identity/login_code\<close>) and the sessions behind the cookie
  (\<open>identity/auth/actions.py\<close>, \<open>identity/auth/queries.py\<close>), with the lookups and the creation
  of users they use (\<open>platform/user\<close>). Times are seconds; the random code, the entropy of a
  token and the ids are drawn by the caller, BLAKE2b is a parameter. A unique constraint that
  fails and an unreachable database are \<open>SQLAlchemyError\<close>.
\<close>

subsection \<open>Rows\<close>

record user_row =
  us_id :: uuid
  us_email :: string
  us_email_verified :: bool
  us_blocked_at :: "int option"
  us_deleted_at :: "int option"

record login_code =
  lc_id :: uuid
  lc_code_hash :: string
  lc_email :: string
  lc_user_id :: "uuid option"
  lc_expires_at :: int

record user_session =
  se_id :: uuid
  se_user_id :: uuid
  se_token :: string
  se_user_agent :: string
  se_scopes :: "string list"
  se_expires_at :: int
  se_created_at :: int
  se_is_impersonation :: bool

datatype auth_job =
    Login_Mail (login_to: string) (mailed_code: string) (login_minutes: int)
  | After_Signup uuid

record auth_db =
  ad_up :: bool
  ad_users :: "user_row list"
  ad_codes :: "login_code list"
  ad_sessions :: "user_session list"
  ad_jobs :: "auth_job list"

datatype auth_error = Auth_Raised py_error | LoginCodeInvalidOrExpired

text \<open>The settings and the hash function.\<close>

record auth_env =
  ae_hash :: blake2b
  ae_secret :: string
  ae_test_env :: bool
  ae_review_email :: "string option"
  ae_review_code :: "string option"
  ae_frontend_url :: string
  ae_url_allowed :: "string \<Rightarrow> bool"

definition LOGIN_CODE_TTL_SECONDS :: int where "LOGIN_CODE_TTL_SECONDS = 60 * 10"

definition LOGIN_CODE_LENGTH :: nat where "LOGIN_CODE_LENGTH = 6"

definition USER_SESSION_TTL :: int where "USER_SESSION_TTL = 31 * 86400"

definition USER_SESSION_MAX_PER_USER :: nat where "USER_SESSION_MAX_PER_USER = 10"

definition USER_SESSION_TOKEN_PREFIX :: string where "USER_SESSION_TOKEN_PREFIX = ''rapidly_us_''"

definition DEFAULT_LOGIN_SCOPES :: "string list" where
  "DEFAULT_LOGIN_SCOPES = [''web:read'', ''web:write'']"

definition CODE_ALPHABET :: string where
  "CODE_ALPHABET = ''ABCDEFGHIJKLMNOPQRSTUVWXYZ0123456789''"

definition can_authenticate :: "user_row \<Rightarrow> bool" where
  "can_authenticate u = (us_deleted_at u = None \<and> us_blocked_at u = None)"

definition auth_select :: "auth_db \<Rightarrow> 'a list \<Rightarrow> auth_error + 'a option" where
  "auth_select db rows = (if ad_up db then map_sum Auth_Raised id (at_most_one rows)
     else Inl (Auth_Raised SQLAlchemyError))"

subsection \<open>Users\<close>

text \<open>\<open>UserRepository.get_by_email\<close> with its defaults: neither deleted nor blocked users.\<close>

definition get_by_email :: "string \<Rightarrow> auth_db \<Rightarrow> auth_error + user_row option" where
  "get_by_email email db = auth_select db
     (filter (\<lambda>u. us_deleted_at u = None \<and> lower (us_email u) = lower email \<and> us_blocked_at u = None) (ad_users db))"

text \<open>The index on the lower-case address is unique over all rows, blocked and deleted ones too.\<close>

definition create_by_email :: "uuid \<Rightarrow> string \<Rightarrow> auth_db \<Rightarrow> (auth_error + user_row) \<times> auth_db" where
  "create_by_email new_id email db =
     (if \<not> ad_up db \<or> list_ex (\<lambda>u. lower (us_email u) = lower email) (ad_users db)
      then (Inl (Auth_Raised SQLAlchemyError), db)
      else (let u = \<lparr>us_id = new_id, us_email = email, us_email_verified = False,
                     us_blocked_at = None, us_deleted_at = None\<rparr>
            in (Inr u, db\<lparr>ad_users := ad_users db @ [u], ad_jobs := ad_jobs db @ [After_Signup new_id]\<rparr>)))"

definition get_by_email_or_create :: "uuid \<Rightarrow> string \<Rightarrow> auth_db \<Rightarrow> (auth_error + user_row \<times> bool) \<times> auth_db" where
  "get_by_email_or_create new_id email db = (case get_by_email email db of
       Inl e \<Rightarrow> (Inl e, db)
     | Inr (Some u) \<Rightarrow> (Inr (u, False), db)
     | Inr None \<Rightarrow> (case create_by_email new_id email db of
           (Inl e, db1) \<Rightarrow> (Inl e, db1)
         | (Inr u, db1) \<Rightarrow> (Inr (u, True), db1)))"

subsection \<open>Login codes\<close>

text \<open>\<open>pick k\<close> is the position of the k-th character that \<open>secrets.choice\<close> draws.\<close>

definition generate_code :: "(nat \<Rightarrow> nat) \<Rightarrow> string" where
  "generate_code pick = map (\<lambda>k. CODE_ALPHABET ! pick k) [0..<LOGIN_CODE_LENGTH]"

definition code_hash :: "auth_env \<Rightarrow> string \<Rightarrow> string" where
  "code_hash env code = get_token_hash (ae_hash env) (ae_secret env) code"

definition login_request ::
  "auth_env \<Rightarrow> int \<Rightarrow> uuid \<Rightarrow> (nat \<Rightarrow> nat) \<Rightarrow> string \<Rightarrow> auth_db \<Rightarrow> (auth_error + login_code \<times> string) \<times> auth_db" where
  "login_request env now new_id pick email db = (case get_by_email email db of
       Inl e \<Rightarrow> (Inl e, db)
     | Inr existing \<Rightarrow>
         (let code = generate_code pick;
              row = \<lparr>lc_id = new_id, lc_code_hash = code_hash env code, lc_email = email,
                     lc_user_id = map_option us_id existing, lc_expires_at = now + LOGIN_CODE_TTL_SECONDS\<rparr>
          in if list_ex (\<lambda>c. lc_code_hash c = lc_code_hash row) (ad_codes db)
             then (Inl (Auth_Raised SQLAlchemyError), db)
             else (Inr (row, code), db\<lparr>ad_codes := ad_codes db @ [row]\<rparr>)))"

definition login_send :: "int \<Rightarrow> login_code \<Rightarrow> string \<Rightarrow> auth_db \<Rightarrow> auth_db" where
  "login_send now row code db = db\<lparr>ad_jobs := ad_jobs db @
     [Login_Mail (lc_email row) code (- ((now - lc_expires_at row) div 60))]\<rparr>"

definition get_valid_by_hash_and_email :: "int \<Rightarrow> string \<Rightarrow> string \<Rightarrow> auth_db \<Rightarrow> auth_error + login_code option" where
  "get_valid_by_hash_and_email now h email db = auth_select db
     (filter (\<lambda>c. lc_code_hash c = h \<and> lc_email c = email \<and> now < lc_expires_at c) (ad_codes db))"

text \<open>The account for the review of the mobile apps: development and test servers only.\<close>

definition app_review_bypass ::
  "auth_env \<Rightarrow> uuid \<Rightarrow> string \<Rightarrow> string \<Rightarrow> auth_db \<Rightarrow> (auth_error + (user_row \<times> bool) option) \<times> auth_db" where
  "app_review_bypass env new_id code email db =
     (if \<not> ae_test_env env \<or> \<not> truthy (ae_review_email env) \<or> \<not> truthy (ae_review_code env) \<or>
         lower email \<noteq> lower (the (ae_review_email env))
      then (Inr None, db)
      else if \<not> is_ascii code \<or> \<not> is_ascii (the (ae_review_code env))
      then (Inl (Auth_Raised TypeError), db)
      else if code \<noteq> the (ae_review_code env) then (Inr None, db)
      else (case get_by_email_or_create new_id email db of
              (Inl e, db1) \<Rightarrow> (Inl e, db1)
            | (Inr r, db1) \<Rightarrow> (Inr (Some r), db1)))"

definition update_user :: "uuid \<Rightarrow> (user_row \<Rightarrow> user_row) \<Rightarrow> auth_db \<Rightarrow> auth_db" where
  "update_user i g db = db\<lparr>ad_users := map (\<lambda>u. if us_id u = i then g u else u) (ad_users db)\<rparr>"

text \<open>The user of the code is the eagerly loaded row, blocked or not.\<close>

definition resolve_user :: "uuid \<Rightarrow> login_code \<Rightarrow> auth_db \<Rightarrow> (auth_error + user_row \<times> bool) \<times> auth_db" where
  "resolve_user new_id c db =
     (let found = (case lc_user_id c of None \<Rightarrow> None | Some i \<Rightarrow> find (\<lambda>u. us_id u = i) (ad_users db))
      in (case (case found of
                  Some u \<Rightarrow> (Inr (u, False), db)
                | None \<Rightarrow> get_by_email_or_create new_id (lc_email c) db) of
            (Inl e, db1) \<Rightarrow> (Inl e, db1)
          | (Inr (u, is_signup), db1) \<Rightarrow>
              if us_email_verified u then (Inr (u, is_signup), db1)
              else (Inr (u\<lparr>us_email_verified := True\<rparr>, True),
                    update_user (us_id u) (\<lambda>r. r\<lparr>us_email_verified := True\<rparr>) db1)))"

definition delete_code :: "login_code \<Rightarrow> auth_db \<Rightarrow> auth_db" where
  "delete_code c db = db\<lparr>ad_codes := filter (\<lambda>r. lc_id r \<noteq> lc_id c) (ad_codes db)\<rparr>"

definition login_authenticate ::
  "auth_env \<Rightarrow> int \<Rightarrow> uuid \<Rightarrow> string \<Rightarrow> string \<Rightarrow> auth_db \<Rightarrow> (auth_error + user_row \<times> bool) \<times> auth_db" where
  "login_authenticate env now new_id code email db = (case app_review_bypass env new_id code email db of
       (Inl e, db1) \<Rightarrow> (Inl e, db1)
     | (Inr (Some r), db1) \<Rightarrow> (Inr r, db1)
     | (Inr None, db1) \<Rightarrow> (case get_valid_by_hash_and_email now (code_hash env code) email db1 of
           Inl e \<Rightarrow> (Inl e, db1)
         | Inr None \<Rightarrow> (Inl LoginCodeInvalidOrExpired, db1)
         | Inr (Some c) \<Rightarrow> (case resolve_user new_id c db1 of
               (Inl e, db2) \<Rightarrow> (Inl e, db2)
             | (Inr r, db2) \<Rightarrow> (Inr r, delete_code c db2))))"

definition delete_expired_codes :: "int \<Rightarrow> auth_db \<Rightarrow> auth_db" where
  "delete_expired_codes now db = db\<lparr>ad_codes := filter (\<lambda>c. \<not> lc_expires_at c < now) (ad_codes db)\<rparr>"

subsection \<open>Browser sessions\<close>

definition session_active :: "int \<Rightarrow> uuid \<Rightarrow> user_session \<Rightarrow> bool" where
  "session_active now i x = (se_user_id x = i \<and> now < se_expires_at x)"

definition get_by_token :: "auth_env \<Rightarrow> int \<Rightarrow> bool \<Rightarrow> string \<Rightarrow> auth_db \<Rightarrow> auth_error + user_session option" where
  "get_by_token env now include_expired token db = auth_select db
     (filter (\<lambda>x. se_token x = code_hash env token \<and> (include_expired \<or> now < se_expires_at x)) (ad_sessions db))"

definition count_active_for_user :: "int \<Rightarrow> uuid \<Rightarrow> auth_db \<Rightarrow> nat" where
  "count_active_for_user now i db = length (filter (session_active now i) (ad_sessions db))"

definition evict_oldest_for_user :: "int \<Rightarrow> uuid \<Rightarrow> nat \<Rightarrow> auth_db \<Rightarrow> auth_db" where
  "evict_oldest_for_user now i keep db =
     (let keep_ids = map se_id (take keep (sort_key (\<lambda>x. - se_created_at x)
            (filter (session_active now i) (ad_sessions db))))
      in db\<lparr>ad_sessions := filter (\<lambda>x. \<not> (se_user_id x = i \<and> se_id x \<notin> set keep_ids \<and> now < se_expires_at x))
           (ad_sessions db)\<rparr>)"

text \<open>
  The back office opens sessions here too, with a shorter life. The statements flush in this
  order: the row, the count of the live rows, and the eviction when they are more than ten.
\<close>

definition create_user_session ::
  "auth_env \<Rightarrow> int \<Rightarrow> uuid \<Rightarrow> nat list \<Rightarrow> user_row \<Rightarrow> string \<Rightarrow> string list \<Rightarrow> int \<Rightarrow> bool \<Rightarrow> auth_db \<Rightarrow>
     (auth_error + string \<times> user_session) \<times> auth_db" where
  "create_user_session env now new_id entropy u user_agent scopes expire_in is_impersonation db =
     (let (token, token_hash) = generate_token_hash_pair (ae_hash env) (ae_secret env) USER_SESSION_TOKEN_PREFIX entropy;
          x = \<lparr>se_id = new_id, se_user_id = us_id u, se_token = token_hash, se_user_agent = user_agent,
               se_scopes = scopes, se_expires_at = now + expire_in, se_created_at = now,
               se_is_impersonation = is_impersonation\<rparr>
      in if \<not> ad_up db \<or> list_ex (\<lambda>y. se_token y = token_hash) (ad_sessions db)
         then (Inl (Auth_Raised SQLAlchemyError), db)
         else (let db1 = db\<lparr>ad_sessions := ad_sessions db @ [x]\<rparr>
               in (Inr (token, x),
                   if USER_SESSION_MAX_PER_USER < count_active_for_user now (us_id u) db1
                   then evict_oldest_for_user now (us_id u) USER_SESSION_MAX_PER_USER db1 else db1)))"

text \<open>The cookie is refused unless it is non-empty ASCII; then the session and its user decide.\<close>

definition session_authenticate :: "auth_env \<Rightarrow> int \<Rightarrow> string option \<Rightarrow> auth_db \<Rightarrow> auth_error + user_session option" where
  "session_authenticate env now cookie db =
     (if \<not> truthy cookie \<or> \<not> is_ascii (the cookie) then Inr None
      else bind_sum (get_by_token env now False (the cookie) db) (\<lambda>found. case found of
             None \<Rightarrow> Inr None
           | Some x \<Rightarrow> (case find (\<lambda>u. us_id u = se_user_id x) (ad_users db) of
                 Some u \<Rightarrow> if can_authenticate u then Inr (Some x) else Inr None
               | None \<Rightarrow> Inr None)))"

definition delete_session :: "user_session \<Rightarrow> auth_db \<Rightarrow> auth_db" where
  "delete_session x db = db\<lparr>ad_sessions := filter (\<lambda>y. se_id y \<noteq> se_id x) (ad_sessions db)\<rparr>"

text \<open>\<open>/auth/logout\<close>: the session of the cookie is deleted and the cookie emptied.\<close>

definition logout :: "auth_env \<Rightarrow> int \<Rightarrow> string option \<Rightarrow> auth_db \<Rightarrow> (auth_error + unit) \<times> auth_db" where
  "logout env now cookie db = (case session_authenticate env now cookie db of
       Inl e \<Rightarrow> (Inl e, db)
     | Inr None \<Rightarrow> (Inr (), db)
     | Inr (Some x) \<Rightarrow> (Inr (), delete_session x db))"

definition delete_expired_sessions :: "int \<Rightarrow> auth_db \<Rightarrow> auth_db" where
  "delete_expired_sessions now db = db\<lparr>ad_sessions := filter (\<lambda>x. \<not> se_expires_at x < now) (ad_sessions db)\<rparr>"

definition revoke_leaked :: "auth_env \<Rightarrow> int \<Rightarrow> string \<Rightarrow> auth_db \<Rightarrow> (auth_error + bool) \<times> auth_db" where
  "revoke_leaked env now token db = (case get_by_token env now True token db of
       Inl e \<Rightarrow> (Inl e, db)
     | Inr None \<Rightarrow> (Inr False, db)
     | Inr (Some x) \<Rightarrow> (Inr True, delete_session x db))"

subsection \<open>The routes\<close>

text \<open>
  \<open>get_safe_return_url\<close>: \<open>ae_url_allowed\<close> is \<open>url_has_allowed_host_and_scheme\<close> of the library
  for the allowed hosts; a URL without a host gets the origin of the front end.
\<close>

definition get_safe_return_url :: "auth_env \<Rightarrow> string option \<Rightarrow> string" where
  "get_safe_return_url env return_to = (case return_to of
       None \<Rightarrow> ae_frontend_url env @ ''/''
     | Some url \<Rightarrow>
         if \<not> ae_url_allowed env url then ae_frontend_url env @ ''/''
         else if url_netloc (snd (split_scheme (clean_url url))) = Some [] then ae_frontend_url env @ url
         else url)"

datatype login_reply =
    Already_Signed_In string
  | Login_Refused
  | Signed_In (reply_url: string) (reply_cookie: string) (reply_expires: int)

definition get_login_response ::
  "auth_env \<Rightarrow> int \<Rightarrow> uuid \<Rightarrow> nat list \<Rightarrow> user_row \<Rightarrow> string \<Rightarrow> string option \<Rightarrow> auth_db \<Rightarrow>
     (auth_error + login_reply) \<times> auth_db" where
  "get_login_response env now new_id entropy u user_agent return_to db =
     (case create_user_session env now new_id entropy u user_agent DEFAULT_LOGIN_SCOPES USER_SESSION_TTL False db of
        (Inl e, db1) \<Rightarrow> (Inl e, db1)
      | (Inr (token, x), db1) \<Rightarrow> (Inr (Signed_In (get_safe_return_url env return_to) token (se_expires_at x)), db1))"

text \<open>
  \<open>POST /login-code/request\<close> and \<open>POST /login-code/authenticate\<close>: the limiter of \<open>Rate_Limit\<close>
  first, then the service; the database transaction of a request that raises is rolled back.
\<close>

definition request_login_code ::
  "'s redis \<Rightarrow> crypto \<Rightarrow> auth_env \<Rightarrow> bool \<Rightarrow> string \<Rightarrow> int \<Rightarrow> uuid \<Rightarrow> (nat \<Rightarrow> nat) \<Rightarrow> string \<Rightarrow> 's \<Rightarrow> auth_db \<Rightarrow>
     (auth_error + unit) \<times> 's \<times> auth_db" where
  "request_login_code R C env redis_up ip now new_id pick email s db =
     (case check_otp_rate_limit R C redis_up ip ''login_request'' s of
        (Inl e, s1) \<Rightarrow> (Inl (Auth_Raised e), s1, db)
      | (Inr _, s1) \<Rightarrow> (case login_request env now new_id pick email db of
            (Inl e, _) \<Rightarrow> (Inl e, s1, db)
          | (Inr (row, code), db1) \<Rightarrow> (Inr (), s1, login_send now row code db1)))"

definition authenticate_login_code ::
  "'s redis \<Rightarrow> crypto \<Rightarrow> auth_env \<Rightarrow> bool \<Rightarrow> string \<Rightarrow> int \<Rightarrow> uuid \<Rightarrow> uuid \<Rightarrow> nat list \<Rightarrow> subject \<Rightarrow> string \<Rightarrow> string \<Rightarrow>
     string \<Rightarrow> string option \<Rightarrow> 's \<Rightarrow> auth_db \<Rightarrow> (auth_error + login_reply) \<times> 's \<times> auth_db" where
  "authenticate_login_code R C env redis_up ip now new_user new_session entropy auth code email user_agent return_to s db =
     (let safe_return_to = get_safe_return_url env return_to
      in if is_user_principal auth then (Inr (Already_Signed_In safe_return_to), s, db)
      else (case check_otp_rate_limit R C redis_up ip ''login'' s of
        (Inl e, s1) \<Rightarrow> (Inl (Auth_Raised e), s1, db)
      | (Inr _, s1) \<Rightarrow> (case login_authenticate env now new_user code email db of
            (Inl LoginCodeInvalidOrExpired, db1) \<Rightarrow> (Inr Login_Refused, s1, db1)
          | (Inl e, _) \<Rightarrow> (Inl e, s1, db)
          | (Inr (u, is_signup), db1) \<Rightarrow>
              (case get_login_response env now new_session entropy u user_agent (Some safe_return_to) db1 of
                 (Inl e, _) \<Rightarrow> (Inl e, s1, db)
               | (Inr reply, db2) \<Rightarrow> (Inr reply, s1, db2)))))"

end
