(* ===== verification/Login_Properties.thy ===== *)
theory Login_Properties
  imports Login
begin

section \<open>What signing in guarantees\<close>

text \<open>
  The reachable states of the login codes and browser sessions, and what holds of them: a code
  works once, for the address it was sent to and for ten minutes; a user has at most ten active
  sessions; the cookie of a new session opens exactly it.
\<close>

subsection \<open>Steps\<close>

inductive login_step :: "auth_env \<Rightarrow> int \<Rightarrow> auth_db \<Rightarrow> auth_db \<Rightarrow> bool" for env now where
  requests: "login_request env now i pick email db = (r, db') \<Longrightarrow> i \<notin> lc_id ` set (ad_codes db) \<Longrightarrow> login_step env now db db'"
| mails: "login_step env now db (login_send now row code db)"
| authenticates: "login_authenticate env now i code email db = (r, db') \<Longrightarrow> login_step env now db db'"
| opens: "create_user_session env now i entropy u agent scopes expire_in imp db = (r, db') \<Longrightarrow>
    i \<notin> se_id ` set (ad_sessions db) \<Longrightarrow> login_step env now db db'"
| closes: "logout env now cookie db = (r, db') \<Longrightarrow> login_step env now db db'"
| revokes: "revoke_leaked env now token db = (r, db') \<Longrightarrow> login_step env now db db'"
| prunes_codes: "login_step env now db (delete_expired_codes now db)"
| prunes_sessions: "login_step env now db (delete_expired_sessions now db)"
| elsewhere: "ad_codes db' = ad_codes db \<Longrightarrow> ad_sessions db' = ad_sessions db \<Longrightarrow> login_step env now db db'"

text \<open>The clock does not go back between the steps of a run.\<close>

inductive login_reach :: "auth_env \<Rightarrow> int \<Rightarrow> auth_db \<Rightarrow> bool" for env where
  start: "ad_codes db = [] \<Longrightarrow> ad_sessions db = [] \<Longrightarrow> login_reach env now db"
| step: "login_reach env t db \<Longrightarrow> t \<le> now \<Longrightarrow> login_step env now db db' \<Longrightarrow> login_reach env now db'"
| wait: "login_reach env t db \<Longrightarrow> t \<le> now \<Longrightarrow> login_reach env now db"

subsection \<open>What each operation does to codes and sessions\<close>

definition same_logins :: "auth_db \<Rightarrow> auth_db \<Rightarrow> bool" where
  "same_logins db db' = (ad_codes db' = ad_codes db \<and> ad_sessions db' = ad_sessions db \<and> ad_up db' = ad_up db)"

lemma same_logins_refl [simp]: "same_logins db db"
  by (simp add: same_logins_def)

lemma update_user_same: "same_logins db (update_user i g db') = same_logins db db'"
  by (simp add: same_logins_def update_user_def)

lemma get_or_create_same: "get_by_email_or_create i email db = (r, db') \<Longrightarrow> same_logins db db'"
  by (auto simp: get_by_email_or_create_def create_by_email_def Let_def same_logins_def
      split: sum.splits option.splits if_splits prod.splits)

lemma bypass_same: "app_review_bypass env i code email db = (r, db') \<Longrightarrow> same_logins db db'"
  by (auto simp: app_review_bypass_def dest: get_or_create_same split: if_splits sum.splits prod.splits)

lemma resolve_user_same: "resolve_user i c db = (r, db') \<Longrightarrow> same_logins db db'"
  by (auto simp: resolve_user_def Let_def update_user_same dest: get_or_create_same
      split: if_splits sum.splits prod.splits option.splits)

lemma delete_code_frames [simp]:
  "ad_sessions (delete_code c db) = ad_sessions db" "ad_up (delete_code c db) = ad_up db"
  "ad_codes (delete_code c db) = filter (\<lambda>r. lc_id r \<noteq> lc_id c) (ad_codes db)"
  by (simp_all add: delete_code_def)

lemma bypass_off: "\<not> ae_test_env env \<Longrightarrow> app_review_bypass env i code email db = (Inr None, db)"
  by (simp add: app_review_bypass_def)

text \<open>
  Without the review account, signing in needs a live code of that hash and address; the code is
  removed, and nothing else of the codes and sessions changes. Otherwise both stay.
\<close>

lemma login_authenticate_cases:
  assumes "login_authenticate env now i code email db = (r, db')"
  obtains (kept) "same_logins db db'"
  | (used) c where "c \<in> set (ad_codes db)" "lc_code_hash c = code_hash env code" "lc_email c = email"
      "now < lc_expires_at c" "ad_codes db' = filter (\<lambda>x. lc_id x \<noteq> lc_id c) (ad_codes db)"
      "ad_sessions db' = ad_sessions db" "ad_up db' = ad_up db"
proof -
  obtain q db1 where b: "app_review_bypass env i code email db = (q, db1)" by fastforce
  note s1 = bypass_same [OF b]
  show ?thesis
  proof (cases "\<exists>c. q = Inr None \<and> get_valid_by_hash_and_email now (code_hash env code) email db1 = Inr (Some c)")
    case False
    then have "db' = db1"
      using assms b by (auto simp: login_authenticate_def split: sum.splits option.splits)
    with s1 show ?thesis using kept by simp
  next
    case True
    then obtain c where c: "q = Inr None" "get_valid_by_hash_and_email now (code_hash env code) email db1 = Inr (Some c)"
      by blast
    have "at_most_one rows = Inr (Some c) \<Longrightarrow> c \<in> set rows" for rows :: "login_code list"
      by (cases rows rule: at_most_one.cases) auto
    with c(2) have row: "c \<in> set (ad_codes db1)" "lc_code_hash c = code_hash env code" "lc_email c = email"
      "now < lc_expires_at c"
      by (fastforce simp: get_valid_by_hash_and_email_def auth_select_def map_sum_def split: if_splits sum.splits)+
    obtain p db2 where p: "resolve_user i c db1 = (p, db2)" by fastforce
    note s2 = resolve_user_same [OF p]
    show ?thesis
    proof (cases p)
      case (Inl e)
      with assms b c p have "db' = db2" by (simp add: login_authenticate_def)
      with s1 s2 show ?thesis using kept by (simp add: same_logins_def)
    next
      case (Inr u)
      with assms b c p have "db' = delete_code c db2" by (simp add: login_authenticate_def)
      with s1 s2 row show ?thesis using used [of c] by (simp add: same_logins_def)
    qed
  qed
qed

subsection \<open>The invariant\<close>

text \<open>
  Primary keys and hashes are unique; no code outlives ten minutes from now, no session 31 days;
  nobody has more than ten active sessions.
\<close>

definition login_ok :: "int \<Rightarrow> auth_db \<Rightarrow> bool" where
  "login_ok now db = (distinct (map lc_id (ad_codes db)) \<and> distinct (map lc_code_hash (ad_codes db)) \<and>
     (\<forall>c \<in> set (ad_codes db). lc_expires_at c \<le> now + LOGIN_CODE_TTL_SECONDS) \<and>
     distinct (map se_id (ad_sessions db)) \<and> distinct (map se_token (ad_sessions db)) \<and>
     (\<forall>x \<in> set (ad_sessions db). se_created_at x \<le> now) \<and>
     (\<forall>i. count_active_for_user now i db \<le> USER_SESSION_MAX_PER_USER))"

lemma length_filter_mono:
  "(\<And>x. x \<in> set xs \<Longrightarrow> P x \<Longrightarrow> Q x) \<Longrightarrow> length (filter P xs) \<le> length (filter Q xs)"
  by (induction xs) auto

lemma count_active_mono:
  assumes "t \<le> now"
  shows "count_active_for_user now i db \<le> count_active_for_user t i db"
  unfolding count_active_for_user_def
  by (rule length_filter_mono) (use assms in \<open>auto simp: session_active_def\<close>)

lemma count_active_filter:
  "count_active_for_user now i (db\<lparr>ad_sessions := filter P (ad_sessions db)\<rparr>) \<le> count_active_for_user now i db"
  unfolding count_active_for_user_def by (simp, rule length_filter_mono) simp

lemma login_ok_later: "login_ok t db \<Longrightarrow> t \<le> now \<Longrightarrow> login_ok now db"
  unfolding login_ok_def using count_active_mono by (meson add_right_mono order_trans)

lemma login_ok_fewer:
  assumes "login_ok now db" and "ad_codes db' = filter P (ad_codes db)" and "ad_sessions db' = filter Q (ad_sessions db)"
  shows "login_ok now db'"
proof -
  have "count_active_for_user now i db' \<le> count_active_for_user now i db" for i
    unfolding count_active_for_user_def assms(3) filter_filter by (rule length_filter_mono) simp
  then have "count_active_for_user now i db' \<le> USER_SESSION_MAX_PER_USER" for i
    using assms(1) unfolding login_ok_def by (meson order_trans)
  then show ?thesis
    using assms unfolding login_ok_def by (auto simp: distinct_map_filter)
qed

lemma login_ok_same: "login_ok now db \<Longrightarrow> same_logins db db' \<Longrightarrow> login_ok now db'"
  using login_ok_fewer [of now db db' "\<lambda>_. True" "\<lambda>_. True"] by (simp add: same_logins_def)

text \<open>Eviction leaves at most the number to keep, and those are the newest.\<close>

definition newest_sessions :: "int \<Rightarrow> uuid \<Rightarrow> nat \<Rightarrow> auth_db \<Rightarrow> user_session list" where
  "newest_sessions now i keep db = take keep (sort_key (\<lambda>x. - se_created_at x)
     (filter (session_active now i) (ad_sessions db)))"

lemma evict_sessions:
  "ad_sessions (evict_oldest_for_user now i keep db) =
     filter (\<lambda>x. session_active now i x \<longrightarrow> se_id x \<in> se_id ` set (newest_sessions now i keep db)) (ad_sessions db)"
  "ad_codes (evict_oldest_for_user now i keep db) = ad_codes db"
  "ad_up (evict_oldest_for_user now i keep db) = ad_up db"
  by (auto simp: evict_oldest_for_user_def newest_sessions_def Let_def session_active_def intro!: filter_cong)

lemma evict_count:
  assumes "distinct (map se_id (ad_sessions db))"
  shows "count_active_for_user now i (evict_oldest_for_user now i keep db) \<le> keep"
proof -
  let ?left = "filter (session_active now i) (ad_sessions (evict_oldest_for_user now i keep db))"
  let ?keep = "newest_sessions now i keep db"
  have "distinct (map se_id ?left)"
    using assms by (simp add: evict_sessions distinct_map_filter)
  then have "length ?left = card (se_id ` set ?left)"
    by (metis distinct_card length_map list.set_map)
  also have "\<dots> \<le> card (se_id ` set ?keep)"
    by (rule card_mono) (auto simp: evict_sessions)
  also have "\<dots> \<le> length ?keep"
    by (metis card_length length_map list.set_map)
  also have "\<dots> \<le> keep" by (simp add: newest_sessions_def)
  finally show ?thesis by (simp add: count_active_for_user_def)
qed

lemma create_session_cases:
  assumes "create_user_session env now i entropy u agent scopes expire_in imp db = (r, db')"
  obtains (refused) e where "r = Inl e" "db' = db"
  | (opened) x token where "r = Inr (token, x)" "se_id x = i" "se_user_id x = us_id u"
      "token = generate_token (ae_hash env) USER_SESSION_TOKEN_PREFIX entropy"
      "se_token x = code_hash env token" "se_expires_at x = now + expire_in" "se_created_at x = now"
      "se_token x \<notin> se_token ` set (ad_sessions db)" "ad_up db"
      "db' = (let db1 = db\<lparr>ad_sessions := ad_sessions db @ [x]\<rparr>
              in if USER_SESSION_MAX_PER_USER < count_active_for_user now (us_id u) db1
                 then evict_oldest_for_user now (us_id u) USER_SESSION_MAX_PER_USER db1 else db1)"
proof -
  let ?token = "generate_token (ae_hash env) USER_SESSION_TOKEN_PREFIX entropy"
  let ?x = "\<lparr>se_id = i, se_user_id = us_id u, se_token = code_hash env ?token, se_user_agent = agent,
    se_scopes = scopes, se_expires_at = now + expire_in, se_created_at = now, se_is_impersonation = imp\<rparr>"
  have pair: "generate_token_hash_pair (ae_hash env) (ae_secret env) USER_SESSION_TOKEN_PREFIX entropy =
      (?token, code_hash env ?token)"
    by (simp add: Let_def generate_token_hash_pair_def code_hash_def)
  show ?thesis
  proof (cases "\<not> ad_up db \<or> list_ex (\<lambda>y. se_token y = code_hash env ?token) (ad_sessions db)")
    case True
    then have "(r, db') = (Inl (Auth_Raised SQLAlchemyError), db)"
      unfolding assms [symmetric] create_user_session_def pair Let_def prod.case by (simp only: if_True)
    then show ?thesis by (intro refused) simp_all
  next
    case False
    then have "(r, db') = (Inr (?token, ?x), let db1 = db\<lparr>ad_sessions := ad_sessions db @ [?x]\<rparr>
              in if USER_SESSION_MAX_PER_USER < count_active_for_user now (us_id u) db1
                 then evict_oldest_for_user now (us_id u) USER_SESSION_MAX_PER_USER db1 else db1)"
      unfolding assms [symmetric] create_user_session_def pair Let_def prod.case by (simp only: if_False)
    moreover have "code_hash env ?token \<notin> se_token ` set (ad_sessions db)" "ad_up db"
      using False by (auto simp: list_ex_iff)
    ultimately show ?thesis by (intro opened [of ?token ?x]) simp_all
  qed
qed

lemma create_session_ok:
  assumes "create_user_session env now i entropy u agent scopes expire_in imp db = (r, db')" and "login_ok now db"
    and "i \<notin> se_id ` set (ad_sessions db)"
  shows "login_ok now db'"
  using assms(1)
proof (cases rule: create_session_cases)
  case refused
  with assms(2) show ?thesis by simp
next
  case (opened x token)
  let ?db = "db\<lparr>ad_sessions := ad_sessions db @ [x]\<rparr>"
  have ids: "distinct (map se_id (ad_sessions ?db))"
    using assms(2,3) opened(2) by (auto simp: login_ok_def)
  have rest: "distinct (map se_token (ad_sessions ?db))" "\<forall>y \<in> set (ad_sessions ?db). se_created_at y \<le> now"
    using assms(2) opened(7,8) by (auto simp: login_ok_def)
  have others: "count_active_for_user now j ?db \<le> USER_SESSION_MAX_PER_USER" if "j \<noteq> us_id u" for j
    using assms(2) that opened(3) by (simp add: login_ok_def count_active_for_user_def session_active_def)
  show ?thesis
  proof (cases "USER_SESSION_MAX_PER_USER < count_active_for_user now (us_id u) ?db")
    case True
    with opened(10) have db': "db' = evict_oldest_for_user now (us_id u) USER_SESSION_MAX_PER_USER ?db" by simp
    have "count_active_for_user now j db' \<le> USER_SESSION_MAX_PER_USER" for j
    proof (cases "j = us_id u")
      case True
      then show ?thesis using evict_count [OF ids] db' by simp
    next
      case False
      have "count_active_for_user now j db' \<le> count_active_for_user now j ?db"
        unfolding count_active_for_user_def db' evict_sessions filter_filter by (rule length_filter_mono) simp
      then show ?thesis using others [OF False] by simp
    qed
    moreover obtain Q where Q: "ad_sessions db' = filter Q (ad_sessions ?db)"
      unfolding db' evict_sessions by blast
    moreover have "distinct (map se_id (ad_sessions db'))" "distinct (map se_token (ad_sessions db'))"
      unfolding Q using ids rest(1) by (auto intro: distinct_map_filter)
    moreover have "\<forall>y \<in> set (ad_sessions db'). se_created_at y \<le> now"
      unfolding Q using rest(2) by (meson filter_is_subset subsetD)
    moreover have "ad_codes db' = ad_codes db" unfolding db' evict_sessions by simp
    ultimately show ?thesis using assms(2) by (simp add: login_ok_def)
  next
    case False
    with opened(10) have "db' = ?db" by simp
    moreover have "count_active_for_user now j ?db \<le> USER_SESSION_MAX_PER_USER" for j
      using False others by (cases "j = us_id u") simp_all
    ultimately show ?thesis using assms(2) ids rest by (simp add: login_ok_def)
  qed
qed

lemma login_request_cases:
  assumes "login_request env now i pick email db = (r, db')"
  obtains (refused) "db' = db"
  | (issued) c where "lc_id c = i" "lc_code_hash c = code_hash env (generate_code pick)" "lc_email c = email"
      "lc_expires_at c = now + LOGIN_CODE_TTL_SECONDS" "db' = db\<lparr>ad_codes := ad_codes db @ [c]\<rparr>"
      "lc_code_hash c \<notin> lc_code_hash ` set (ad_codes db)" "r = Inr (c, generate_code pick)"
proof (cases "\<exists>existing. get_by_email email db = Inr existing \<and>
    \<not> list_ex (\<lambda>c. lc_code_hash c = code_hash env (generate_code pick)) (ad_codes db)")
  case False
  then have "db' = db" using assms by (auto simp: login_request_def Let_def split: sum.splits if_splits)
  then show ?thesis by (rule refused)
next
  case True
  then obtain existing where e: "get_by_email email db = Inr existing"
    "\<not> list_ex (\<lambda>c. lc_code_hash c = code_hash env (generate_code pick)) (ad_codes db)" by blast
  let ?c = "\<lparr>lc_id = i, lc_code_hash = code_hash env (generate_code pick), lc_email = email,
    lc_user_id = map_option us_id existing, lc_expires_at = now + LOGIN_CODE_TTL_SECONDS\<rparr>"
  have fresh: "code_hash env (generate_code pick) \<notin> lc_code_hash ` set (ad_codes db)"
    using e(2) by (auto simp: list_ex_iff)
  have eq: "(r, db') = (Inr (?c, generate_code pick), db\<lparr>ad_codes := ad_codes db @ [?c]\<rparr>)"
    unfolding assms [symmetric] login_request_def Let_def e(1) using e(2) by simp
  then have r: "r = Inr (?c, generate_code pick)" and db': "db' = db\<lparr>ad_codes := ad_codes db @ [?c]\<rparr>"
    by (blast elim: Pair_inject)+
  show ?thesis
    by (rule issued [OF _ _ _ _ db' _ r]) (simp_all only: login_code.select_convs fresh not_False_eq_True)
qed

lemma login_step_ok:
  assumes "login_step env now db db'" and "login_ok now db"
  shows "login_ok now db'"
  using assms(1)
proof cases
  case (requests i pick email r)
  from requests(1) show ?thesis
  proof (cases rule: login_request_cases)
    case refused
    with assms(2) show ?thesis by simp
  next
    case (issued c)
    then show ?thesis
      using assms(2) requests(2) by (simp add: login_ok_def count_active_for_user_def LOGIN_CODE_TTL_SECONDS_def)
  qed
next
  case mails
  then show ?thesis using login_ok_same [OF assms(2)] by (simp add: login_send_def same_logins_def)
next
  case (authenticates i code email r)
  then show ?thesis
  proof (cases rule: login_authenticate_cases)
    case kept
    then show ?thesis using login_ok_same assms(2) by blast
  next
    case (used c)
    then show ?thesis using login_ok_fewer [OF assms(2), of db' _ "\<lambda>_. True"] by simp
  qed
next
  case opens
  then show ?thesis using create_session_ok assms(2) by blast
next
  case closes
  then show ?thesis
    using login_ok_fewer [OF assms(2), of _ "\<lambda>_. True"] login_ok_same [OF assms(2), of db]
    by (auto simp: logout_def delete_session_def split: sum.splits option.splits)
next
  case revokes
  then show ?thesis
    using login_ok_fewer [OF assms(2), of _ "\<lambda>_. True"] login_ok_same [OF assms(2), of db]
    by (auto simp: revoke_leaked_def delete_session_def split: sum.splits option.splits)
next
  case prunes_codes
  then show ?thesis using login_ok_fewer [OF assms(2), of db' _ "\<lambda>_. True"] by (simp add: delete_expired_codes_def)
next
  case prunes_sessions
  then show ?thesis using login_ok_fewer [OF assms(2), of db' "\<lambda>_. True"] by (simp add: delete_expired_sessions_def)
next
  case elsewhere
  then show ?thesis using login_ok_fewer [OF assms(2), of db' "\<lambda>_. True" "\<lambda>_. True"] by simp
qed

lemma login_reach_ok: "login_reach env now db \<Longrightarrow> login_ok now db"
proof (induction rule: login_reach.induct)
  case (start db now)
  then show ?case by (simp add: login_ok_def count_active_for_user_def)
next
  case (step t db now db')
  then show ?case using login_step_ok login_ok_later by blast
next
  case (wait t db now)
  then show ?case using login_ok_later by blast
qed

subsection \<open>The code works once\<close>

text \<open>What happens after: any steps as long as no new code has the hash \<open>h\<close>.\<close>

inductive later_without :: "auth_env \<Rightarrow> string \<Rightarrow> auth_db \<Rightarrow> auth_db \<Rightarrow> bool" for env h where
  now: "later_without env h db db"
| after: "later_without env h db db1 \<Longrightarrow> login_step env t db1 db2 \<Longrightarrow>
    (\<And>c. c \<in> set (ad_codes db2) \<Longrightarrow> lc_code_hash c = h \<Longrightarrow> c \<in> set (ad_codes db1)) \<Longrightarrow>
    later_without env h db db2"

lemma later_without_hash:
  "later_without env h db db2 \<Longrightarrow> h \<notin> lc_code_hash ` set (ad_codes db) \<Longrightarrow> h \<notin> lc_code_hash ` set (ad_codes db2)"
proof (induction rule: later_without.induct)
  case now
  then show ?case .
next
  case (after db1 t db2)
  from after.IH [OF after.prems] after.hyps(3) show ?case by blast
qed

lemma not_in_imageD: "h \<notin> f ` A \<Longrightarrow> x \<in> A \<Longrightarrow> f x \<noteq> h"
  by blast

lemma authenticate_unknown:
  assumes "\<not> ae_test_env env" and "ad_up db" and "code_hash env code \<notin> lc_code_hash ` set (ad_codes db)"
  shows "login_authenticate env now i code email db = (Inl LoginCodeInvalidOrExpired, db)"
proof -
  have "filter (\<lambda>c. lc_code_hash c = code_hash env code \<and> lc_email c = email \<and> now < lc_expires_at c) (ad_codes db) = []"
    using not_in_imageD [OF assms(3)] by (auto simp: filter_empty_conv)
  then show ?thesis
    using assms(1,2) by (simp add: login_authenticate_def bypass_off get_valid_by_hash_and_email_def auth_select_def)
qed

lemma authenticate_uses_row:
  assumes "\<not> ae_test_env env" and "login_authenticate env now i code email db = (Inr r, db')"
  obtains c where "c \<in> set (ad_codes db)" "lc_code_hash c = code_hash env code" "lc_email c = email"
      "now < lc_expires_at c" "ad_codes db' = filter (\<lambda>x. lc_id x \<noteq> lc_id c) (ad_codes db)"
proof -
  obtain c where c: "get_valid_by_hash_and_email now (code_hash env code) email db = Inr (Some c)"
    using assms by (auto simp: login_authenticate_def bypass_off split: sum.splits option.splits)
  obtain p db2 where p: "resolve_user i c db = (p, db2)" by fastforce
  with assms c have db': "db' = delete_code c db2"
    by (auto simp: login_authenticate_def bypass_off split: sum.splits)
  have "at_most_one rows = Inr (Some c) \<Longrightarrow> c \<in> set rows" for rows :: "login_code list"
    by (cases rows rule: at_most_one.cases) auto
  with c have "c \<in> set (ad_codes db) \<and> lc_code_hash c = code_hash env code \<and> lc_email c = email \<and> now < lc_expires_at c"
    by (fastforce simp: get_valid_by_hash_and_email_def auth_select_def map_sum_def split: if_splits sum.splits)
  with db' resolve_user_same [OF p] show ?thesis
    by (intro that [of c]) (simp_all add: same_logins_def)
qed

lemma other_rows_other_hash:
  assumes "distinct (map lc_id cs)" "distinct (map lc_code_hash cs)" "c \<in> set cs"
  shows "lc_code_hash c \<notin> lc_code_hash ` set (filter (\<lambda>x. lc_id x \<noteq> lc_id c) cs)"
proof
  assume "lc_code_hash c \<in> lc_code_hash ` set (filter (\<lambda>x. lc_id x \<noteq> lc_id c) cs)"
  then obtain d where d: "d \<in> set cs" "lc_id d \<noteq> lc_id c" "lc_code_hash d = lc_code_hash c" by auto
  from assms(2,3) d(1,3) have "d = c" by (auto simp: distinct_map dest: inj_onD)
  with d(2) show False by simp
qed

text \<open>
  Property C25: outside development and test servers a login code is good once, for ten minutes
  and for one address. Whenever signing in with a code succeeds in a reachable state, a stored
  code has its hash, was issued for that very address, has not expired and expires within ten
  minutes; and from then on, whatever happens, the same code is refused at any time and for any
  address, until that code is issued anew.
\<close>

theorem login_code_single_use:
  assumes "login_reach env t db" and "t \<le> now" and "\<not> ae_test_env env"
    and "login_authenticate env now i code email db = (Inr r, db')"
    and "later_without env (code_hash env code) db' db2" and "ad_up db2"
  shows "(\<exists>c \<in> set (ad_codes db). lc_code_hash c = code_hash env code \<and> lc_email c = email \<and>
      now < lc_expires_at c \<and> lc_expires_at c \<le> now + 600) \<and>
    login_authenticate env now2 i2 code email2 db2 = (Inl LoginCodeInvalidOrExpired, db2)"
proof -
  have ok: "login_ok now db" by (rule login_ok_later [OF login_reach_ok [OF assms(1)] assms(2)])
  from assms(3,4) obtain c where c: "c \<in> set (ad_codes db)" "lc_code_hash c = code_hash env code" "lc_email c = email"
    "now < lc_expires_at c" "ad_codes db' = filter (\<lambda>x. lc_id x \<noteq> lc_id c) (ad_codes db)"
    by (rule authenticate_uses_row)
  have "code_hash env code \<notin> lc_code_hash ` set (ad_codes db')"
    using other_rows_other_hash [OF _ _ c(1)] ok c(2,5) by (simp add: login_ok_def)
  then have "code_hash env code \<notin> lc_code_hash ` set (ad_codes db2)"
    by (rule later_without_hash [OF assms(5)])
  moreover have "lc_expires_at c \<le> now + 600"
    using ok c(1) by (auto simp: login_ok_def LOGIN_CODE_TTL_SECONDS_def)
  ultimately show ?thesis
    using authenticate_unknown [OF assms(3,6)] c by blast
qed

subsection \<open>Blocked users\<close>

lemma resolve_blocked:
  assumes "ad_up db" and "v \<in> set (ad_users db)" "us_blocked_at v \<noteq> None" "lower (us_email v) = lower email"
    and "distinct (map (\<lambda>u. lower (us_email u)) (ad_users db))"
  shows "get_by_email email db = Inr None"
    and "create_by_email i email db = (Inl (Auth_Raised SQLAlchemyError), db)"
proof -
  have "u = v" if "u \<in> set (ad_users db)" "lower (us_email u) = lower email" for u
  proof -
    have "inj_on (\<lambda>u. lower (us_email u)) (set (ad_users db))"
      using assms(5) by (simp add: distinct_map)
    then show ?thesis by (rule inj_onD) (simp_all add: assms(2,4) that)
  qed
  then have "filter (\<lambda>u. us_deleted_at u = None \<and> lower (us_email u) = lower email \<and> us_blocked_at u = None) (ad_users db) = []"
    using assms(3) by (auto simp: filter_empty_conv)
  then show "get_by_email email db = Inr None"
    using assms(1) by (simp add: get_by_email_def auth_select_def)
  show "create_by_email i email db = (Inl (Auth_Raised SQLAlchemyError), db)"
    using assms(2,4) by (auto simp: create_by_email_def list_ex_iff)
qed

lemma login_request_new:
  assumes "get_by_email email db = Inr None" "code_hash env (generate_code pick) \<notin> lc_code_hash ` set (ad_codes db)"
  shows "login_request env now i pick email db =
    (let c = \<lparr>lc_id = i, lc_code_hash = code_hash env (generate_code pick), lc_email = email, lc_user_id = None,
              lc_expires_at = now + LOGIN_CODE_TTL_SECONDS\<rparr>
     in (Inr (c, generate_code pick), db\<lparr>ad_codes := ad_codes db @ [c]\<rparr>))"
proof -
  have "\<not> list_ex (\<lambda>c. lc_code_hash c = code_hash env (generate_code pick)) (ad_codes db)"
    using not_in_imageD [OF assms(2)] by (auto simp: list_ex_iff)
  then show ?thesis using assms(1) by (simp add: login_request_def Let_def)
qed

text \<open>
  a blocked user is mailed a code, and that code fails with a database error. When
  the only account with the address is blocked, the request issues a code bound to no user; when
  it comes back in time, the search for the account finds none, the creation of a new one violates
  the unique index on the address, and the request ends in an \<open>SQLAlchemyError\<close>, not in the
  answer for a wrong code. The code stays.
\<close>

theorem blocked_login_fails:
  assumes "ad_up db" and "v \<in> set (ad_users db)" "us_blocked_at v \<noteq> None" "lower (us_email v) = lower email"
    and "distinct (map (\<lambda>u. lower (us_email u)) (ad_users db))" and "\<not> ae_test_env env"
    and "code_hash env (generate_code pick) \<notin> lc_code_hash ` set (ad_codes db)"
    and "now2 < now + 600"
  shows "\<exists>c db1. login_request env now i pick email db = (Inr (c, generate_code pick), db1) \<and> lc_user_id c = None \<and>
    login_authenticate env now2 i2 (generate_code pick) email db1 = (Inl (Auth_Raised SQLAlchemyError), db1)"
proof -
  let ?c = "\<lparr>lc_id = i, lc_code_hash = code_hash env (generate_code pick), lc_email = email, lc_user_id = None,
              lc_expires_at = now + LOGIN_CODE_TTL_SECONDS\<rparr>"
  let ?db = "db\<lparr>ad_codes := ad_codes db @ [?c]\<rparr>"
  note blocked = resolve_blocked [OF assms(1-5)]
  have "filter (\<lambda>c. lc_code_hash c = code_hash env (generate_code pick) \<and> lc_email c = email \<and> now2 < lc_expires_at c)
      (ad_codes ?db) = [?c]"
    using not_in_imageD [OF assms(7)] assms(8) by (auto simp: filter_empty_conv LOGIN_CODE_TTL_SECONDS_def)
  then have found: "get_valid_by_hash_and_email now2 (code_hash env (generate_code pick)) email ?db = Inr (Some ?c)"
    unfolding get_valid_by_hash_and_email_def auth_select_def using assms(1) by simp
  have "get_by_email email ?db = Inr None" "create_by_email i2 email ?db = (Inl (Auth_Raised SQLAlchemyError), ?db)"
    using resolve_blocked [of ?db v email] assms(1-5) by simp_all
  then have "resolve_user i2 ?c ?db = (Inl (Auth_Raised SQLAlchemyError), ?db)"
    by (simp add: resolve_user_def get_by_email_or_create_def)
  then have "login_authenticate env now2 i2 (generate_code pick) email ?db = (Inl (Auth_Raised SQLAlchemyError), ?db)"
    by (simp add: login_authenticate_def bypass_off [OF assms(6)] found)
  moreover have "login_request env now i pick email db = (Inr (?c, generate_code pick), ?db)"
    using login_request_new [OF blocked(1) assms(7)] by (simp add: Let_def)
  moreover have "lc_user_id ?c = None" by simp
  ultimately show ?thesis by blast
qed

subsection \<open>Sessions\<close>

lemma take_sorted_le:
  assumes "sorted_wrt R ys" "y \<in> set ys" "y \<notin> set (take k ys)" "z \<in> set (take k ys)"
  shows "R z y"
proof -
  have "sorted_wrt R (take k ys @ drop k ys)" using assms(1) by simp
  then have "\<forall>a \<in> set (take k ys). \<forall>b \<in> set (drop k ys). R a b"
    unfolding sorted_wrt_append by blast
  moreover have "y \<in> set (drop k ys)"
    using assms(2,3) by (metis Un_iff append_take_drop_id set_append)
  ultimately show ?thesis using assms(4) by blast
qed

text \<open>An evicted session is an active one of that user, created no later than those that stay.\<close>

lemma evicted_oldest:
  assumes "distinct (map se_id (ad_sessions db))" and "y \<in> set (ad_sessions db)"
    and "y \<notin> set (ad_sessions (evict_oldest_for_user now i keep db))"
    and "z \<in> set (ad_sessions (evict_oldest_for_user now i keep db))" "session_active now i z"
  shows "session_active now i y \<and> se_created_at y \<le> se_created_at z"
proof -
  let ?act = "filter (session_active now i) (ad_sessions db)"
  let ?ys = "sort_key (\<lambda>x. - se_created_at x) ?act"
  have y: "session_active now i y" "se_id y \<notin> se_id ` set (newest_sessions now i keep db)"
    using assms(2,3) by (auto simp: evict_sessions)
  have z: "z \<in> set (ad_sessions db)" "se_id z \<in> se_id ` set (newest_sessions now i keep db)"
    using assms(4,5) by (auto simp: evict_sessions)
  have sub: "set (newest_sessions now i keep db) \<subseteq> set (ad_sessions db)"
    unfolding newest_sessions_def by (rule order_trans [OF set_take_subset]) auto
  obtain w where w: "w \<in> set (newest_sessions now i keep db)" "se_id w = se_id z" using z(2) by auto
  have "inj_on se_id (set (ad_sessions db))" using assms(1) by (simp add: distinct_map)
  then have "w = z" by (rule inj_onD) (use w z(1) sub in auto)
  with w(1) have zin: "z \<in> set (take keep ?ys)" by (simp add: newest_sessions_def)
  have "y \<notin> set (newest_sessions now i keep db)" using y(2) by blast
  then have yout: "y \<notin> set (take keep ?ys)" by (simp add: newest_sessions_def)
  have "sorted_wrt (\<lambda>a b. - se_created_at a \<le> - se_created_at b) ?ys"
    using sorted_sort_key [of "\<lambda>x. - se_created_at x" ?act] by (simp add: sorted_map)
  from take_sorted_le [OF this _ yout zin] y(1) assms(2)
  have "- se_created_at z \<le> - se_created_at y" by simp
  then show ?thesis using y(1) by simp
qed

text \<open>
  Property C26: a user has at most ten active sessions, and making room takes the oldest. After a
  session is opened in a reachable state nobody has more than ten active ones, and every session
  that disappeared was an active one of this user, created no later than each active session the
  user still has.
\<close>

theorem sessions_bounded:
  assumes "login_reach env t db" and "t \<le> now" and "i \<notin> se_id ` set (ad_sessions db)"
    and "create_user_session env now i entropy u agent scopes expire_in imp db = (r, db')"
  shows "count_active_for_user now j db' \<le> 10 \<and>
    (\<forall>y \<in> set (ad_sessions db) - set (ad_sessions db'). \<forall>z \<in> set (ad_sessions db').
       session_active now (us_id u) z \<longrightarrow> session_active now (us_id u) y \<and> se_created_at y \<le> se_created_at z)"
proof -
  have ok: "login_ok now db" by (rule login_ok_later [OF login_reach_ok [OF assms(1)] assms(2)])
  have "login_ok now db'" by (rule create_session_ok [OF assms(4) ok assms(3)])
  then have bound: "count_active_for_user now j db' \<le> 10"
    by (simp add: login_ok_def USER_SESSION_MAX_PER_USER_def)
  have "session_active now (us_id u) y \<and> se_created_at y \<le> se_created_at z"
    if y: "y \<in> set (ad_sessions db)" "y \<notin> set (ad_sessions db')"
      and z: "z \<in> set (ad_sessions db')" "session_active now (us_id u) z" for y z
    using assms(4)
  proof (cases rule: create_session_cases)
    case refused
    with y show ?thesis by simp
  next
    case (opened x token)
    let ?db = "db\<lparr>ad_sessions := ad_sessions db @ [x]\<rparr>"
    have ids: "distinct (map se_id (ad_sessions ?db))"
      using ok assms(3) opened(2) by (auto simp: login_ok_def)
    have yin: "y \<in> set (ad_sessions ?db)" using y(1) by simp
    show ?thesis
    proof (cases "USER_SESSION_MAX_PER_USER < count_active_for_user now (us_id u) ?db")
      case True
      with opened(10) have "db' = evict_oldest_for_user now (us_id u) USER_SESSION_MAX_PER_USER ?db" by simp
      with evicted_oldest [OF ids yin] y(2) z show ?thesis by simp
    next
      case False
      with opened(10) yin y(2) show ?thesis by simp
    qed
  qed
  with bound show ?thesis by blast
qed

lemma b64_char_ascii: "n < 64 \<Longrightarrow> (of_char (b64_char ''-_'' n) :: nat) < 128"
  by (cases "n = 62"; cases "n = 63") (auto simp: b64_char_def)

lemma generate_token_ascii:
  assumes "is_ascii prefix" "\<forall>b \<in> set entropy. b < 256" "\<forall>b \<in> set (integrity_tag h entropy). b < 256"
  shows "is_ascii (generate_token h prefix entropy)"
proof -
  have "\<forall>n \<in> set (sextets (entropy @ integrity_tag h entropy)). n < 64"
    by (rule sextets_bound) (use assms in auto)
  then have "\<forall>c \<in> b64_char ''-_'' ` set (sextets (entropy @ integrity_tag h entropy)). (of_char c :: nat) < 128"
    using b64_char_ascii by blast
  then show ?thesis
    using assms(1) by (simp add: generate_token_def urlsafe_unpadded_def is_ascii_def list_all_iff ball_Un)
qed

lemma filter_unique_key:
  assumes "distinct (map f xs)" "x \<in> set xs" "P x"
  shows "filter (\<lambda>y. f y = f x \<and> P y) xs = [x]"
  using assms
proof (induction xs)
  case (Cons a xs)
  show ?case
  proof (cases "a = x")
    case True
    with Cons.prems(1) have "filter (\<lambda>y. f y = f x \<and> P y) xs = []"
      by (auto simp: filter_empty_conv dest: not_in_imageD)
    with True Cons.prems(3) show ?thesis by simp
  next
    case False
    with Cons.prems(2) have "x \<in> set xs" by simp
    moreover from this Cons.prems(1) have "f a \<noteq> f x" by auto
    ultimately show ?thesis using Cons by simp
  qed
qed simp

text \<open>
  the cookie of a new session opens exactly that session. When every session of a
  reachable state is older than the new one, then after opening it the token put into the cookie
  authenticates as this very session until it expires, for an account that is neither blocked
  nor deleted: neither the eviction nor another session gets in the way.
\<close>

theorem session_cookie_roundtrip:
  assumes "login_reach env t db" and "t \<le> now" and "i \<notin> se_id ` set (ad_sessions db)"
    and "\<forall>y \<in> set (ad_sessions db). se_created_at y < now"
    and "create_user_session env now i entropy u agent scopes expire_in imp db = (Inr (token, x), db')"
    and "now \<le> later" "later < now + expire_in"
    and "find (\<lambda>v. us_id v = us_id u) (ad_users db) = Some v" "can_authenticate v"
    and "\<forall>b \<in> set entropy. b < 256" "\<forall>b \<in> set (integrity_tag (ae_hash env) entropy). b < 256"
  shows "session_authenticate env later (Some token) db' = Inr (Some x)"
  using assms(5)
proof (cases rule: create_session_cases)
  case refused
  then show ?thesis by simp
next
  case (opened x' token')
  from opened(1) have [simp]: "x' = x" "token' = token" by simp_all
  let ?db = "db\<lparr>ad_sessions := ad_sessions db @ [x]\<rparr>"
  let ?full = "USER_SESSION_MAX_PER_USER < count_active_for_user now (us_id u) ?db"
  have ok: "login_ok now db" by (rule login_ok_later [OF login_reach_ok [OF assms(1)] assms(2)])
  have ids: "distinct (map se_id (ad_sessions ?db))"
    using ok assms(3) opened(2) by (auto simp: login_ok_def)
  have toks: "distinct (map se_token (ad_sessions db'))"
    using create_session_ok [OF assms(5) ok assms(3)] by (simp add: login_ok_def)
  have act: "session_active now (us_id u) x"
    using opened(3,6) assms(6,7) by (simp add: session_active_def)
  have users: "ad_users db' = ad_users db" "ad_up db'"
    using opened(9,10) by (simp_all add: evict_oldest_for_user_def Let_def)
  have xin: "x \<in> set (ad_sessions db')"
  proof (rule ccontr)
    assume gone: "x \<notin> set (ad_sessions db')"
    have db'_eq: "db' = (if ?full then evict_oldest_for_user now (us_id u) USER_SESSION_MAX_PER_USER ?db else ?db)"
      using opened(10) by (simp add: Let_def)
    have full: ?full
      using gone unfolding db'_eq by (cases ?full) simp_all
    with db'_eq have db': "db' = evict_oldest_for_user now (us_id u) USER_SESSION_MAX_PER_USER ?db" by simp
    have "length (newest_sessions now (us_id u) USER_SESSION_MAX_PER_USER ?db) = USER_SESSION_MAX_PER_USER"
      using full unfolding newest_sessions_def count_active_for_user_def length_take length_sort by simp
    then have "newest_sessions now (us_id u) USER_SESSION_MAX_PER_USER ?db \<noteq> []"
      by (auto simp: USER_SESSION_MAX_PER_USER_def)
    then obtain z where z: "z \<in> set (newest_sessions now (us_id u) USER_SESSION_MAX_PER_USER ?db)"
      by (meson list.set_sel(1))
    then have "z \<in> set (sort_key (\<lambda>y. - se_created_at y) (filter (session_active now (us_id u)) (ad_sessions ?db)))"
      unfolding newest_sessions_def by (rule in_set_takeD)
    then have zdb: "z \<in> set (ad_sessions ?db)" "session_active now (us_id u) z"
      unfolding set_sort set_filter by blast+
    with z have zin: "z \<in> set (ad_sessions db')" unfolding db' evict_sessions set_filter by blast
    have "x \<in> set (ad_sessions ?db)" by simp
    from evicted_oldest [OF ids this, of now "us_id u" USER_SESSION_MAX_PER_USER z] gone zin zdb(2)
    have "se_created_at x \<le> se_created_at z" unfolding db' by simp
    moreover have "z \<in> set (ad_sessions db)" using zdb(1) zin gone by auto
    ultimately show False using assms(4) opened(7) by fastforce
  qed
  have "filter (\<lambda>y. se_token y = se_token x \<and> later < se_expires_at y) (ad_sessions db') = [x]"
    by (rule filter_unique_key [OF toks xin]) (use opened(6) assms(7) in simp)
  then have "get_by_token env later False token db' = Inr (Some x)"
    using opened(5) users by (simp add: get_by_token_def auth_select_def)
  moreover have "is_ascii token"
    using generate_token_ascii [OF _ assms(10,11), of USER_SESSION_TOKEN_PREFIX] opened(4)
    by (simp add: is_ascii_def USER_SESSION_TOKEN_PREFIX_def)
  moreover have "truthy (Some token)"
    using opened(4) by (simp add: truthy_def generate_token_def USER_SESSION_TOKEN_PREFIX_def)
  ultimately show ?thesis
    using assms(8,9) opened(3) users by (simp add: session_authenticate_def)
qed

subsection \<open>Concrete runs\<close>

text \<open>A hash that keeps the data, and a store that has seen no login yet.\<close>

definition sample_env :: auth_env where
  "sample_env = \<lparr>ae_hash = (\<lambda>key size data. if size = 4 then [1, 2, 3, 4] else data), ae_secret = ''s'',
     ae_test_env = False, ae_review_email = None, ae_review_code = None,
     ae_frontend_url = ''https://rapidly.tech'', ae_url_allowed = (\<lambda>u. True)\<rparr>"

definition sample_user :: user_row where
  "sample_user = \<lparr>us_id = ''u7'', us_email = ''ann@x.io'', us_email_verified = True, us_blocked_at = None, us_deleted_at = None\<rparr>"

definition sample_db :: auth_db where
  "sample_db = \<lparr>ad_up = True, ad_users = [sample_user], ad_codes = [], ad_sessions = [], ad_jobs = []\<rparr>"

definition sample_pick :: "nat \<Rightarrow> nat" where "sample_pick k = k + 8"

definition requested_db :: auth_db where
  "requested_db = snd (login_request sample_env 100 ''i1'' sample_pick ''ann@x.io'' sample_db)"

lemma sample_reach: "login_reach sample_env t sample_db"
  by (rule login_reach.start) (simp_all add: sample_db_def)

lemma requested_reach: "login_reach sample_env 100 requested_db"
proof (rule login_reach.step [OF sample_reach order_refl [of 100]])
  show "login_step sample_env 100 sample_db requested_db"
    unfolding requested_db_def
    by (rule login_step.requests [of _ _ "''i1''" sample_pick "''ann@x.io''", OF prod.collapse [symmetric]])
      (simp add: sample_db_def)
qed

theorem login_code_single_use_witness:
  "\<exists>r db'. login_authenticate sample_env 130 ''i2'' ''IJKLMN'' ''ann@x.io'' requested_db = (Inr r, db') \<and>
     login_authenticate sample_env 131 ''i3'' ''IJKLMN'' ''bob@x.io'' db' = (Inl LoginCodeInvalidOrExpired, db')"
proof -
  let ?res = "login_authenticate sample_env 130 ''i2'' ''IJKLMN'' ''ann@x.io'' requested_db"
  have "case fst ?res of Inl _ \<Rightarrow> False | Inr _ \<Rightarrow> ad_up (snd ?res)"
    by code_simp
  then obtain r where r: "fst ?res = Inr r" and up: "ad_up (snd ?res)"
    by (cases "fst ?res") auto
  from r have eq: "?res = (Inr r, snd ?res)" by (metis prod.collapse)
  have "\<not> ae_test_env sample_env" by (simp add: sample_env_def)
  from login_code_single_use [OF requested_reach _ this eq later_without.now up, of 131 "''i3''" "''bob@x.io''"]
  have "login_authenticate sample_env 131 ''i3'' ''IJKLMN'' ''bob@x.io'' (snd ?res) = (Inl LoginCodeInvalidOrExpired, snd ?res)"
    by simp
  with eq show ?thesis by blast
qed

definition blocked_db :: auth_db where
  "blocked_db = sample_db\<lparr>ad_users := [sample_user\<lparr>us_blocked_at := Some 50\<rparr>]\<rparr>"

theorem blocked_login_fails_witness:
  "\<exists>c db1. login_request sample_env 100 ''i1'' sample_pick ''Ann@x.io'' blocked_db = (Inr (c, generate_code sample_pick), db1) \<and>
    lc_user_id c = None \<and>
    login_authenticate sample_env 130 ''i2'' (generate_code sample_pick) ''Ann@x.io'' db1 = (Inl (Auth_Raised SQLAlchemyError), db1)"
proof (rule blocked_login_fails [of _ "sample_user\<lparr>us_blocked_at := Some 50\<rparr>"])
  show "lower (us_email (sample_user\<lparr>us_blocked_at := Some 50\<rparr>)) = lower ''Ann@x.io''" by code_simp
qed (simp_all add: blocked_db_def sample_db_def sample_env_def)

definition opened_db :: auth_db where
  "opened_db = snd (create_user_session sample_env 100 ''i1'' [1, 2, 3] sample_user ''ua'' DEFAULT_LOGIN_SCOPES 1000 False sample_db)"

theorem sessions_bounded_witness:
  "count_active_for_user 100 ''u7'' opened_db \<le> 10"
proof -
  let ?res = "create_user_session sample_env 100 ''i1'' [1, 2, 3] sample_user ''ua'' DEFAULT_LOGIN_SCOPES 1000 False sample_db"
  have "?res = (fst ?res, opened_db)" by (simp add: opened_db_def)
  from sessions_bounded [OF sample_reach order_refl _ this] show ?thesis
    by (simp add: sample_db_def)
qed

theorem session_cookie_roundtrip_witness:
  "\<exists>token x. fst (create_user_session sample_env 100 ''i1'' [1, 2, 3] sample_user ''ua'' DEFAULT_LOGIN_SCOPES 1000 False sample_db) =
       Inr (token, x) \<and> session_authenticate sample_env 500 (Some token) opened_db = Inr (Some x)"
proof -
  let ?res = "create_user_session sample_env 100 ''i1'' [1, 2, 3] sample_user ''ua'' DEFAULT_LOGIN_SCOPES 1000 False sample_db"
  have "case fst ?res of Inl _ \<Rightarrow> False | Inr _ \<Rightarrow> True" by code_simp
  then obtain token x where tx: "fst ?res = Inr (token, x)" by (cases "fst ?res") auto
  then have eq: "?res = (Inr (token, x), opened_db)" unfolding opened_db_def by (metis prod.collapse)
  have "session_authenticate sample_env 500 (Some token) opened_db = Inr (Some x)"
  proof (rule session_cookie_roundtrip [OF sample_reach order_refl _ _ eq])
    show "find (\<lambda>v. us_id v = us_id sample_user) (ad_users sample_db) = Some sample_user"
      by (simp add: sample_db_def)
  qed (simp_all add: sample_db_def sample_env_def sample_user_def can_authenticate_def integrity_tag_def TAG_SIZE_def)
  with tx show ?thesis by blast
qed

end
