(* ===== verification/Job_Queue.thy ===== *)
theory Job_Queue
  imports Redis_Server
begin

section \<open>The job queue: collecting, debouncing and pushing jobs\<close>

text \<open>
  The job queue manager of a request or task (\<open>worker/_enqueue.py\<close>) and the debouncing of tasks
  (\<open>worker/_debounce.py\<close>). The Dramatiq broker is a record of what the code asks of it: the
  registered actors with the options the code reads, and the name of a delayed queue. Ids drawn by the broker and by \<open>uuid4\<close> are numbered by the caller;
  the clock stands still while one batch is flushed. Redis is the server of \<open>Redis_Server\<close> for the
  debounce hashes; the pushes are the list of commands sent, with the first one that fails.
  Exceptions without a constructor of their own are a \<open>RuntimeError\<close> with their name.
\<close>

subsection \<open>Jobs and messages\<close>

record queued_job =
  qj_actor :: string
  qj_args :: "json list"
  qj_kwargs :: "(string \<times> json) list"
  qj_delay :: "int option"

record job_manager =
  pending_jobs :: "queued_job list"
  pending_events :: "string list"

record actor_def =
  ac_queue :: string
  ac_debounce :: "(json list \<Rightarrow> (string \<times> json) list \<Rightarrow> py_error + string option) option"
  ac_min_threshold :: "int option"
  ac_max_threshold :: "int option"

record broker =
  get_actor :: "string \<Rightarrow> actor_def option"
  dq_name :: "string \<Rightarrow> string"

text \<open>A message with the options that flushing and debouncing set.\<close>

record job_message =
  jm_id :: string
  jm_actor :: string
  jm_queue :: string
  jm_args :: "json list"
  jm_kwargs :: "(string \<times> json) list"
  jm_redis_id :: string
  jm_debounce_key :: "string option"
  jm_eta :: "int option"
  jm_enqueue_timestamp :: "int option"
  jm_max_execution :: bool
  jm_max_threshold :: "int option"

definition FLUSH_BATCH_SIZE :: nat where "FLUSH_BATCH_SIZE = 50"

definition DEBOUNCE_KEY_TTL :: int where "DEBOUNCE_KEY_TTL = 3600"

definition DEBOUNCE_KEY_PREFIX :: string where "DEBOUNCE_KEY_PREFIX = ''debounce:''"

definition DEBOUNCE_MIN_THRESHOLD :: int where "DEBOUNCE_MIN_THRESHOLD = 15"

definition DEBOUNCE_MAX_THRESHOLD :: int where "DEBOUNCE_MAX_THRESHOLD = 15 * 60"

subsection \<open>The manager\<close>

definition empty_manager :: job_manager where
  "empty_manager = \<lparr>pending_jobs = [], pending_events = []\<rparr>"

definition manager_dispatch ::
  "string \<Rightarrow> json list \<Rightarrow> (string \<times> json) list \<Rightarrow> int option \<Rightarrow> job_manager \<Rightarrow> job_manager" where
  "manager_dispatch name args kwargs delay mgr = mgr\<lparr>pending_jobs := pending_jobs mgr @
     [\<lparr>qj_actor = name, qj_args = args, qj_kwargs = kwargs, qj_delay = delay\<rparr>]\<rparr>"

definition manager_enqueue_events :: "string list \<Rightarrow> job_manager \<Rightarrow> job_manager" where
  "manager_enqueue_events ids mgr = mgr\<lparr>pending_events := pending_events mgr @ ids\<rparr>"

text \<open>The context variable: no manager is an error.\<close>

definition current_manager :: "job_manager option \<Rightarrow> py_error + job_manager" where
  "current_manager ctx = (case ctx of
       None \<Rightarrow> Inl (RuntimeError ''JobQueueManager not initialized'')
     | Some mgr \<Rightarrow> Inr mgr)"

definition dispatch_task ::
  "string \<Rightarrow> json list \<Rightarrow> (string \<times> json) list \<Rightarrow> int option \<Rightarrow> job_manager option \<Rightarrow>
     (py_error + unit) \<times> job_manager option" where
  "dispatch_task name args kwargs delay ctx = (case current_manager ctx of
       Inl e \<Rightarrow> (Inl e, ctx)
     | Inr mgr \<Rightarrow> (Inr (), Some (manager_dispatch name args kwargs delay mgr)))"

definition enqueue_events :: "string list \<Rightarrow> job_manager option \<Rightarrow> (py_error + unit) \<times> job_manager option" where
  "enqueue_events ids ctx = (case current_manager ctx of
       Inl e \<Rightarrow> (Inl e, ctx)
     | Inr mgr \<Rightarrow> (Inr (), Some (manager_enqueue_events ids mgr)))"

subsection \<open>Debouncing at dispatch\<close>

definition HSETNX :: "'s redis \<Rightarrow> string \<Rightarrow> string \<Rightarrow> payload \<Rightarrow> 's \<Rightarrow> 's" where
  "HSETNX R k f v s = (if HEXISTS R k f s then s else HSET R k f v s)"

text \<open>The four commands are one transaction. \<open>now\<close> is in seconds, the delay in milliseconds.\<close>

definition set_debounce_key ::
  "'s redis \<Rightarrow> int \<Rightarrow> actor_def \<Rightarrow> string \<Rightarrow> json list \<Rightarrow> (string \<times> json) list \<Rightarrow> 's \<Rightarrow>
     (py_error + (string \<times> int) option) \<times> 's" where
  "set_debounce_key R now a message_id args kwargs s = (case ac_debounce a of
       None \<Rightarrow> (Inr None, s)
     | Some factory \<Rightarrow> (case factory args kwargs of
           Inl e \<Rightarrow> (Inl e, s)
         | Inr None \<Rightarrow> (Inr None, s)
         | Inr (Some key_value) \<Rightarrow>
             (let full_key = DEBOUNCE_KEY_PREFIX @ key_value;
                  delay_ms = (case ac_min_threshold a of None \<Rightarrow> DEBOUNCE_MIN_THRESHOLD | Some t \<Rightarrow> t) * 1000;
                  s1 = HSETNX R full_key ''enqueue_timestamp'' (Number now) s;
                  s2 = HSET R full_key ''message_id'' (Text message_id) s1;
                  s3 = HSET R full_key ''executed'' (Number 0) s2;
                  s4 = EXPIRE R full_key DEBOUNCE_KEY_TTL s3
              in (Inr (Some (full_key, delay_ms)), s4))))"

subsection \<open>Flushing\<close>

definition build_message ::
  "'s redis \<Rightarrow> broker \<Rightarrow> int \<Rightarrow> string \<Rightarrow> string \<Rightarrow> queued_job \<Rightarrow> 's \<Rightarrow>
     (py_error + job_message) \<times> 's" where
  "build_message R B now_ms message_id rid j s = (case get_actor B (qj_actor j) of
       None \<Rightarrow> (Inl (RuntimeError ''ActorNotFound''), s)
     | Some a \<Rightarrow>
         (let msg = \<lparr>jm_id = message_id, jm_actor = qj_actor j, jm_queue = ac_queue a, jm_args = qj_args j,
                     jm_kwargs = qj_kwargs j, jm_redis_id = rid, jm_debounce_key = None, jm_eta = None,
                     jm_enqueue_timestamp = None, jm_max_execution = False, jm_max_threshold = None\<rparr>
          in (case set_debounce_key R (now_ms div 1000) a message_id (qj_args j) (qj_kwargs j) s of
                (Inl e, s1) \<Rightarrow> (Inl e, s1)
              | (Inr debounce, s1) \<Rightarrow>
                  (let msg1 = (case debounce of None \<Rightarrow> msg | Some (dkey, _) \<Rightarrow> msg\<lparr>jm_debounce_key := Some dkey\<rparr>);
                       delay = (case debounce of
                           None \<Rightarrow> qj_delay j
                         | Some (_, ddelay) \<Rightarrow> Some (case qj_delay j of None \<Rightarrow> ddelay | Some d \<Rightarrow> max d ddelay))
                   in (Inr (case delay of
                         None \<Rightarrow> msg1
                       | Some d \<Rightarrow> if 0 < d then msg1\<lparr>jm_queue := dq_name B (jm_queue msg1), jm_eta := Some (now_ms + d)\<rparr>
                                   else msg1), s1)))))"

text \<open>The messages in order of dispatch; the first failure ends the flush.\<close>

fun build_messages ::
  "'s redis \<Rightarrow> broker \<Rightarrow> int \<Rightarrow> (nat \<Rightarrow> string) \<Rightarrow> (nat \<Rightarrow> string) \<Rightarrow> nat \<Rightarrow> queued_job list \<Rightarrow> 's \<Rightarrow>
     (py_error + job_message list) \<times> 's" where
  "build_messages R B now_ms mids rids n [] s = (Inr [], s)"
| "build_messages R B now_ms mids rids n (j # js) s =
     (case build_message R B now_ms (mids n) (rids n) j s of
        (Inl e, s1) \<Rightarrow> (Inl e, s1)
      | (Inr m, s1) \<Rightarrow> (case build_messages R B now_ms mids rids (Suc n) js s1 of
            (Inl e, s2) \<Rightarrow> (Inl e, s2)
          | (Inr ms, s2) \<Rightarrow> (Inr (m # ms), s2)))"

text \<open>\<open>per_queue\<close>, a dict in the order in which the queues first appear.\<close>

fun add_to_queue :: "job_message \<Rightarrow> (string \<times> job_message list) list \<Rightarrow> (string \<times> job_message list) list" where
  "add_to_queue m [] = [(jm_queue m, [m])]"
| "add_to_queue m ((q, ms) # rest) =
     (if q = jm_queue m then (q, ms @ [m]) # rest else (q, ms) # add_to_queue m rest)"

definition per_queue :: "job_message list \<Rightarrow> (string \<times> job_message list) list" where
  "per_queue ms = fold add_to_queue ms []"

text \<open>\<open>itertools.batched\<close>.\<close>

function batched :: "nat \<Rightarrow> 'a list \<Rightarrow> 'a list list" where
  "batched n xs = (if n = 0 \<or> xs = [] then [] else take n xs # batched n (drop n xs))"
  by pat_completeness auto
termination by (relation "measure (\<lambda>(n, xs). length xs)") auto

declare batched.simps [simp del]

datatype push_command =
    Push_HSET string "(string \<times> job_message) list"
  | Push_RPUSH string "string list"

definition push_batch :: "string \<Rightarrow> job_message list \<Rightarrow> push_command list" where
  "push_batch q batch =
     [Push_HSET (''dramatiq:'' @ q @ ''.msgs'') (map (\<lambda>m. (jm_redis_id m, m)) batch),
      Push_RPUSH (''dramatiq:'' @ q) (map jm_redis_id batch)]"

definition push_commands :: "job_message list \<Rightarrow> push_command list" where
  "push_commands ms = concat (map (\<lambda>(q, xs). concat (map (push_batch q) (batched FLUSH_BATCH_SIZE xs))) (per_queue ms))"

text \<open>
  \<open>flush\<close>: the result, the manager after it, the commands Redis executed and the debounce
  hashes. \<open>fails_at\<close> is the position of the first command that Redis refuses.
\<close>

definition ingest_events :: "job_manager \<Rightarrow> job_manager" where
  "ingest_events mgr = (if pending_events mgr \<noteq> []
     then manager_dispatch ''event.ingested'' [JList (map JStr (pending_events mgr))] [] None mgr else mgr)"

definition flush ::
  "'s redis \<Rightarrow> broker \<Rightarrow> int \<Rightarrow> (nat \<Rightarrow> string) \<Rightarrow> (nat \<Rightarrow> string) \<Rightarrow> nat option \<Rightarrow> job_manager \<Rightarrow> 's \<Rightarrow>
     (py_error + unit) \<times> job_manager \<times> push_command list \<times> 's" where
  "flush R B now_ms mids rids fails_at mgr s =
     (let mgr1 = ingest_events mgr
      in if pending_jobs mgr1 = [] then (Inr (), empty_manager, [], s)
      else (case build_messages R B now_ms mids rids 0 (pending_jobs mgr1) s of
              (Inl e, s1) \<Rightarrow> (Inl e, mgr1, [], s1)
            | (Inr ms, s1) \<Rightarrow>
                (let cmds = push_commands ms
                 in case fails_at of
                      Some k \<Rightarrow> if k < length cmds then (Inl (RuntimeError ''RedisError''), mgr1, take k cmds, s1)
                                else (Inr (), empty_manager, cmds, s1)
                    | None \<Rightarrow> (Inr (), empty_manager, cmds, s1))))"

text \<open>
  \<open>JobQueueManager.open\<close> around a body: jobs of a body that raises are dropped. Closing reads
  the variable again, which a manager opened and closed inside the body has set to \<open>None\<close>; the
  body's second component is the variable then.
\<close>

definition open_manager ::
  "'s redis \<Rightarrow> broker \<Rightarrow> int \<Rightarrow> (nat \<Rightarrow> string) \<Rightarrow> (nat \<Rightarrow> string) \<Rightarrow> nat option \<Rightarrow>
     (job_manager option \<Rightarrow> (py_error + 'a) \<times> job_manager option) \<Rightarrow> 's \<Rightarrow>
     (py_error + 'a) \<times> push_command list \<times> 's" where
  "open_manager R B now_ms mids rids fails_at body s = (case body (Some empty_manager) of
       (Inl e, ctx) \<Rightarrow> (case current_manager ctx of Inl e2 \<Rightarrow> (Inl e2, [], s) | Inr _ \<Rightarrow> (Inl e, [], s))
     | (Inr x, Some mgr) \<Rightarrow> (case flush R B now_ms mids rids fails_at mgr s of
           (Inl e, _, cmds, s1) \<Rightarrow> (Inl e, cmds, s1)
         | (Inr _, _, cmds, s1) \<Rightarrow> (Inr x, cmds, s1))
     | (Inr x, None) \<Rightarrow> (Inl (RuntimeError ''JobQueueManager not initialized''), [], s))"

subsection \<open>Debouncing in the worker\<close>

datatype before_result =
    Proceed job_message
  | Skip_Message job_message
  | Before_Raises py_error

text \<open>\<open>int(...)\<close> of a field of the hash.\<close>

definition hash_int :: "payload option \<Rightarrow> int option" where
  "hash_int p = (case p of Some (Number n) \<Rightarrow> Some n | _ \<Rightarrow> None)"

definition max_threshold :: "actor_def \<Rightarrow> job_message \<Rightarrow> int" where
  "max_threshold a m = (case jm_max_threshold m of
       Some t \<Rightarrow> t
     | None \<Rightarrow> (case ac_max_threshold a of Some t \<Rightarrow> t | None \<Rightarrow> DEBOUNCE_MAX_THRESHOLD))"

definition before_process_message :: "'s redis \<Rightarrow> int \<Rightarrow> actor_def \<Rightarrow> job_message \<Rightarrow> 's \<Rightarrow> before_result" where
  "before_process_message R now a m s = (case jm_debounce_key m of
       None \<Rightarrow> Proceed m
     | Some k \<Rightarrow>
         if HGETALL R k s = [] then Proceed m
         else (case (if HEXISTS R k ''executed'' s then hash_int (HGET R k ''executed'' s) else Some 0) of
             None \<Rightarrow> Before_Raises (ValueError ''executed'')
           | Some executed \<Rightarrow>
               if executed \<noteq> 0 then Skip_Message m
               else (case HGET R k ''message_id'' s of
                   None \<Rightarrow> Before_Raises (KeyError ''message_id'')
                 | Some owner \<Rightarrow>
                     if \<not> HEXISTS R k ''enqueue_timestamp'' s then Before_Raises (KeyError ''enqueue_timestamp'')
                     else (case hash_int (HGET R k ''enqueue_timestamp'' s) of
                         None \<Rightarrow> Before_Raises (ValueError ''enqueue_timestamp'')
                       | Some enqueue_ts \<Rightarrow>
                           (let m1 = m\<lparr>jm_enqueue_timestamp := Some enqueue_ts\<rparr>
                            in if owner = Text (jm_id m) then Proceed m1
                               else if enqueue_ts + max_threshold a m < now then Proceed (m1\<lparr>jm_max_execution := True\<rparr>)
                               else Skip_Message m1)))))"

definition after_skip_message :: "job_message \<Rightarrow> job_message" where
  "after_skip_message m = m\<lparr>jm_enqueue_timestamp := None, jm_max_execution := False\<rparr>"

text \<open>A missing timestamp option is a \<open>KeyError\<close> of \<open>pop\<close>; the writes are one transaction.\<close>

definition after_process_message ::
  "'s redis \<Rightarrow> int \<Rightarrow> bool \<Rightarrow> job_message \<Rightarrow> 's \<Rightarrow> (py_error + job_message) \<times> 's" where
  "after_process_message R now failed m s = (case jm_debounce_key m of
       None \<Rightarrow> (Inr m, s)
     | Some k \<Rightarrow>
         if jm_enqueue_timestamp m = None then (Inl (KeyError ''debounce_enqueue_timestamp''), s)
         else (Inr (after_skip_message m),
               if jm_max_execution m then
                 EXPIRE R k DEBOUNCE_KEY_TTL (HSET R k ''enqueue_timestamp'' (Number now) s)
               else if \<not> failed then
                 HDEL R k ''enqueue_timestamp'' (HSET R k ''executed'' (Number 1) s)
               else s))"

subsection \<open>Spreading bulk jobs\<close>

text \<open>\<open>ms or None\<close>.\<close>

definition delay_or_none :: "int \<Rightarrow> int option" where
  "delay_or_none ms = (if ms = 0 then None else Some ms)"

definition linear_delay :: "int \<Rightarrow> int \<Rightarrow> int option" where
  "linear_delay per_item_ms index = delay_or_none (index * per_item_ms)"

text \<open>
  The calculator: \<open>//\<close> and \<open>%\<close> round down as \<open>div\<close> and \<open>mod\<close> do; a division by zero raises, when
  the calculator is made or when it is asked.
\<close>

definition make_bulk_job_delay_calculator ::
  "int \<Rightarrow> int \<Rightarrow> int \<Rightarrow> int \<Rightarrow> bool \<Rightarrow> py_error + (int \<Rightarrow> py_error + int option)" where
  "make_bulk_job_delay_calculator total_count target_delay_ms min_delay_ms max_spread_ms allow_spill =
     (if total_count * target_delay_ms \<le> max_spread_ms then Inr (Inr \<circ> linear_delay target_delay_ms)
      else if total_count = 0 then Inl (RuntimeError ''ZeroDivisionError'')
      else (let compressed = max_spread_ms div total_count
            in if min_delay_ms \<le> compressed then Inr (Inr \<circ> linear_delay compressed)
            else if allow_spill then Inr (Inr \<circ> linear_delay min_delay_ms)
            else if min_delay_ms = 0 then Inl (RuntimeError ''ZeroDivisionError'')
            else (let num_slots = max_spread_ms div min_delay_ms + 1
                  in if num_slots = 0 then Inl (RuntimeError ''ZeroDivisionError'')
                  else (let base_size = total_count div num_slots;
                            overflow_size = base_size + 1;
                            overflow_count = total_count mod num_slots;
                            overflow_boundary = overflow_count * overflow_size
                        in Inr (\<lambda>index.
                             if index < overflow_boundary
                             then (if overflow_size = 0 then Inl (RuntimeError ''ZeroDivisionError'')
                                   else Inr (delay_or_none (index div overflow_size * min_delay_ms)))
                             else if base_size = 0 then Inl (RuntimeError ''ZeroDivisionError'')
                             else Inr (delay_or_none
                                    ((overflow_count + (index - overflow_boundary) div base_size) * min_delay_ms)))))))"

end
