(* ===== verification/Job_Properties.thy ===== *)
theory Job_Properties
  imports Job_Queue "HOL-Library.Sublist"
begin

section \<open>What the job queue guarantees\<close>

text \<open>
  Bulk jobs stay within the spread; a flush pushes every job once, in order; the last of a burst
  of debounced jobs is not skipped, unless one of them was running when it was dispatched.
\<close>

subsection \<open>Bulk delays\<close>

definition delay_ms :: "int option \<Rightarrow> int" where
  "delay_ms d = (case d of None \<Rightarrow> 0 | Some ms \<Rightarrow> ms)"

lemma delay_ms_or_none [simp]: "delay_ms (delay_or_none ms) = ms"
  by (simp add: delay_ms_def delay_or_none_def)

text \<open>What is promised of a calculator: it answers, from 0 upwards, within the spread.\<close>

definition spreads :: "int \<Rightarrow> int \<Rightarrow> (int \<Rightarrow> py_error + int option) \<Rightarrow> bool" where
  "spreads items bound calc = (\<exists>f. (\<forall>i. 0 \<le> i \<and> i < items \<longrightarrow> (\<exists>d. calc i = Inr d \<and> delay_ms d = f i)) \<and>
     (0 < items \<longrightarrow> f 0 = 0) \<and> (\<forall>i j. 0 \<le> i \<and> i \<le> j \<and> j < items \<longrightarrow> 0 \<le> f i \<and> f i \<le> f j \<and> f j \<le> bound))"

lemma spreads_linear:
  assumes "0 \<le> step" and "\<And>i. 0 \<le> i \<Longrightarrow> i < items \<Longrightarrow> i * step \<le> bound"
  shows "spreads items bound (Inr \<circ> linear_delay step)"
  unfolding spreads_def
proof (intro exI [of _ "\<lambda>i. i * step"] conjI allI impI)
  show "\<exists>d. (Inr \<circ> linear_delay step) i = (Inr d :: py_error + int option) \<and> delay_ms d = i * step" for i
    by (simp add: linear_delay_def)
qed (use assms in \<open>auto simp: mult_right_mono\<close>)

lemma int_div_less:
  assumes "0 < (q::int)"
  shows "(i div q < n) = (i < n * q)"
proof (rule iffI)
  assume "i div q < n"
  then have "(i div q + 1) * q \<le> n * q" by (intro mult_right_mono) (use assms in auto)
  moreover have "i < (i div q + 1) * q"
    using div_mult_mod_eq [of i q] pos_mod_bound [OF assms, of i] unfolding distrib_right by linarith
  ultimately show "i < n * q" by simp
next
  assume i: "i < n * q"
  have "i div q * q \<le> i" using div_mult_mod_eq [of i q] pos_mod_sign [OF assms, of i] by linarith
  with i have "i div q * q < n * q" by simp
  then show "i div q < n" using assms by simp
qed

definition slot_of :: "int \<Rightarrow> int \<Rightarrow> int \<Rightarrow> int" where
  "slot_of base ov i = (if i < ov * (base + 1) then i div (base + 1) else ov + (i - ov * (base + 1)) div base)"

lemma slot_nonneg: "0 < base \<Longrightarrow> 0 \<le> ov \<Longrightarrow> 0 \<le> i \<Longrightarrow> 0 \<le> slot_of base ov i"
  by (auto simp: slot_of_def intro!: add_nonneg_nonneg pos_imp_zdiv_nonneg_iff [THEN iffD2])

lemma slot_mono:
  assumes "0 < base" "0 \<le> i" "i \<le> j"
  shows "slot_of base ov i \<le> slot_of base ov j"
proof (cases "i < ov * (base + 1)")
  case i: True
  show ?thesis
  proof (cases "j < ov * (base + 1)")
    case True
    with i assms show ?thesis by (simp add: slot_of_def zdiv_mono1)
  next
    case False
    have "i div (base + 1) < ov" using i assms(1) by (simp add: int_div_less)
    moreover have "0 \<le> (j - ov * (base + 1)) div base" using False assms(1) by (simp add: pos_imp_zdiv_nonneg_iff)
    ultimately show ?thesis using i False by (simp add: slot_of_def)
  qed
next
  case False
  with assms show ?thesis by (simp add: slot_of_def zdiv_mono1)
qed

lemma slot_less:
  assumes "0 < base" "0 \<le> ov" "ov < slots" "i < base * slots + ov"
  shows "slot_of base ov i < slots"
proof (cases "i < ov * (base + 1)")
  case True
  then have "i div (base + 1) < ov" using assms(1) by (simp add: int_div_less)
  with True assms(3) show ?thesis by (simp add: slot_of_def)
next
  case False
  have "i - ov * (base + 1) < (slots - ov) * base"
    using assms(4) by (simp add: algebra_simps)
  then have "(i - ov * (base + 1)) div base < slots - ov"
    using assms(1) by (simp add: int_div_less)
  with False show ?thesis by (simp add: slot_of_def)
qed

lemma spreads_slots:
  assumes "0 < base" "0 \<le> ov" "ov < slots" "items = base * slots + ov" "0 < step" "(slots - 1) * step \<le> bound"
  shows "spreads items bound (\<lambda>i. Inr (delay_or_none (slot_of base ov i * step)))"
  unfolding spreads_def
proof (intro exI [of _ "\<lambda>i. slot_of base ov i * step"] conjI allI impI)
  fix i assume "0 \<le> i \<and> i < items"
  show "\<exists>d. Inr (delay_or_none (slot_of base ov i * step)) = (Inr d :: py_error + int option) \<and>
      delay_ms d = slot_of base ov i * step"
    by simp
next
  show "slot_of base ov 0 * step = 0"
    using assms(1,2) mult_pos_pos [of ov "base + 1"] by (cases "ov = 0") (auto simp: slot_of_def)
next
  fix i j assume "0 \<le> i \<and> i \<le> j \<and> j < items"
  then have ij: "0 \<le> i" "i \<le> j" "j < items" by simp_all
  show "0 \<le> slot_of base ov i * step"
    using slot_nonneg [OF assms(1,2) ij(1)] assms(5) by simp
  show "slot_of base ov i * step \<le> slot_of base ov j * step"
    using slot_mono [OF assms(1) ij(1,2), of ov] assms(5) by (simp add: mult_right_mono)
  have "slot_of base ov j \<le> slots - 1"
    using slot_less [OF assms(1-3)] ij(3) assms(4) by fastforce
  then have "slot_of base ov j * step \<le> (slots - 1) * step"
    using assms(5) by (intro mult_right_mono) auto
  with assms(6) show "slot_of base ov j * step \<le> bound" by simp
qed

text \<open>Batching is only reached with at least as many items as slots, so nothing is divided by zero.\<close>

lemma batching_parts:
  assumes "0 \<le> (items::int)" "0 < step" "0 \<le> bound" "items \<noteq> 0" "bound div items < step"
  shows "0 < items div (bound div step + 1)"
proof -
  have pos: "0 < items" using assms(1,4) by (simp add: less_le)
  from assms(5) have "bound < step * items" using int_div_less [OF pos] by simp
  then have "bound div step < items" using int_div_less [OF assms(2)] by (simp add: mult.commute)
  then show ?thesis using assms(2,3) by (simp add: pos_imp_zdiv_pos_iff pos_imp_zdiv_nonneg_iff add_nonneg_pos)
qed

text \<open>
  The delays of bulk jobs. For positive steps the calculator is made and answers for
  every item without an error: the first job is not delayed, delays do not decrease, and the last
  one is within the maximal spread; only where spilling is allowed, and the items at the minimal
  distance do not fit, it is within their number times that distance.
\<close>

theorem bulk_delays_spread:
  assumes "0 \<le> items" "0 < target" "0 < step" "0 \<le> spread"
  shows "\<exists>calc. make_bulk_job_delay_calculator items target step spread spill = Inr calc \<and>
    spreads items (if spill \<and> spread < items * target \<and> spread div items < step then items * step else spread) calc"
proof -
  consider (fits) "items * target \<le> spread" | (squeezed) "spread < items * target" "step \<le> spread div items"
    | (over) "spread < items * target" "spread div items < step" by linarith
  then show ?thesis
  proof cases
    case fits
    have "i * target \<le> spread" if "i < items" for i
      using fits mult_right_mono [of i items target] that assms(2) by linarith
    then show ?thesis
      using fits spreads_linear [of target items spread] assms(2)
      by (simp add: make_bulk_job_delay_calculator_def)
  next
    case squeezed
    then have ne: "items \<noteq> 0" using assms(4) by auto
    have "i * (spread div items) \<le> spread" if "0 \<le> i" "i < items" for i
    proof -
      have "i * (spread div items) \<le> items * (spread div items)"
        using that squeezed(2) assms(3) by (intro mult_right_mono) auto
      also have "\<dots> \<le> spread"
        using ne assms(1) mult_div_mod_eq [of items spread] pos_mod_sign [of items spread] by linarith
      finally show ?thesis .
    qed
    then show ?thesis
      using squeezed ne spreads_linear [of "spread div items" items spread] assms(3)
      by (simp add: make_bulk_job_delay_calculator_def Let_def)
  next
    case over
    then have ne: "items \<noteq> 0" using assms(4) by auto
    show ?thesis
    proof (cases spill)
      case True
      have "i * step \<le> items * step" if "i < items" for i
        using that assms(3) by (intro mult_right_mono) auto
      then show ?thesis
        using True over ne spreads_linear [of step items "items * step"] assms(3)
        by (simp add: make_bulk_job_delay_calculator_def Let_def)
    next
      case False
      let ?slots = "spread div step + 1"
      let ?base = "items div ?slots"
      let ?ov = "items mod ?slots"
      have slots: "0 < ?slots" using assms(3,4) by (simp add: pos_imp_zdiv_nonneg_iff add_nonneg_pos)
      have base: "0 < ?base" by (rule batching_parts [OF assms(1,3,4) ne over(2)])
      have ov: "0 \<le> ?ov" "?ov < ?slots" using pos_mod_sign [OF slots] pos_mod_bound [OF slots] by blast+
      have parts: "items = ?base * ?slots + ?ov" by (rule div_mult_mod_eq [symmetric])
      have last_slot: "(?slots - 1) * step \<le> spread"
        unfolding add_diff_cancel_right'
        using div_mult_mod_eq [of spread step] pos_mod_sign [OF assms(3), of spread] by linarith
      have made: "make_bulk_job_delay_calculator items target step spread spill =
          Inr (\<lambda>i. Inr (delay_or_none (slot_of ?base ?ov i * step)))"
        using False over ne slots base assms(3)
        by (auto simp: make_bulk_job_delay_calculator_def Let_def slot_of_def fun_eq_iff)
      have "spreads items spread (\<lambda>i. Inr (delay_or_none (slot_of ?base ?ov i * step)))"
        by (rule spreads_slots [OF base ov parts assms(3) last_slot])
      with made False show ?thesis by simp
    qed
  qed
qed

theorem bulk_delays_spread_witness:
  "\<exists>calc. make_bulk_job_delay_calculator 10000 200 50 300000 False = Inr calc \<and> spreads 10000 300000 calc"
  using bulk_delays_spread [of 10000 200 50 300000 False] by simp

subsection \<open>Flushing\<close>

lemma batched_concat: "0 < n \<Longrightarrow> concat (batched n xs) = xs"
proof (induction n xs rule: batched.induct)
  case (1 n xs)
  then show ?case by (subst batched.simps) auto
qed

lemma batched_sizes: "b \<in> set (batched n xs) \<Longrightarrow> b \<noteq> [] \<and> length b \<le> n"
proof (induction n xs rule: batched.induct)
  case (1 n xs)
  from 1(2) show ?case
    by (subst (asm) batched.simps) (use 1(1) in \<open>auto split: if_splits\<close>)
qed

text \<open>The messages of one queue, in a dict of queues and in the list of messages.\<close>

definition queue_part :: "string \<Rightarrow> (string \<times> job_message list) list \<Rightarrow> job_message list" where
  "queue_part q pq = concat (map snd (filter (\<lambda>e. fst e = q) pq))"

definition queue_ids :: "string \<Rightarrow> job_message list \<Rightarrow> string list" where
  "queue_ids q ms = map jm_redis_id (filter (\<lambda>m. jm_queue m = q) ms)"

lemma queue_part_simps [simp]:
  "queue_part q [] = []"
  "queue_part q ((k, ms) # pq) = (if k = q then ms else []) @ queue_part q pq"
  by (simp_all add: queue_part_def)

lemma queue_part_absent: "q \<notin> fst ` set pq \<Longrightarrow> queue_part q pq = []"
  by (induction pq) (auto simp: queue_part_def)

lemma add_to_queue_keys: "fst ` set (add_to_queue m pq) = insert (jm_queue m) (fst ` set pq)"
  by (induction m pq rule: add_to_queue.induct) auto

lemma add_to_queue_distinct: "distinct (map fst pq) \<Longrightarrow> distinct (map fst (add_to_queue m pq))"
proof (induction m pq rule: add_to_queue.induct)
  case (2 m q ms rest)
  then show ?case using add_to_queue_keys [of m rest] by auto
qed simp

lemma add_to_queue_part:
  "distinct (map fst pq) \<Longrightarrow>
     queue_part q (add_to_queue m pq) = queue_part q pq @ (if jm_queue m = q then [m] else [])"
proof (induction m pq rule: add_to_queue.induct)
  case (2 m q' ms rest)
  then show ?case using queue_part_absent [of q' rest] by (cases "q' = jm_queue m"; cases "q' = q") simp_all
qed simp

lemma per_queue_fold:
  "distinct (map fst pq) \<Longrightarrow> distinct (map fst (fold add_to_queue ms pq)) \<and>
     queue_part q (fold add_to_queue ms pq) = queue_part q pq @ filter (\<lambda>m. jm_queue m = q) ms"
  by (induction ms arbitrary: pq) (simp_all add: add_to_queue_distinct add_to_queue_part)

lemma per_queue_part: "queue_part q (per_queue ms) = filter (\<lambda>m. jm_queue m = q) ms"
  using per_queue_fold [of "[]" ms q] by (simp add: per_queue_def queue_part_def)

text \<open>
  What reaches the list of a queue, and the shape of the commands: each batch of ids follows the
  write of its payloads, and has one to fifty ids.
\<close>

fun rpushed :: "string \<Rightarrow> push_command list \<Rightarrow> string list" where
  "rpushed q [] = []"
| "rpushed q (Push_RPUSH k ids # cs) = (if k = ''dramatiq:'' @ q then ids else []) @ rpushed q cs"
| "rpushed q (Push_HSET k ms # cs) = rpushed q cs"

fun payloads_first :: "push_command list \<Rightarrow> bool" where
  "payloads_first [] = True"
| "payloads_first [Push_HSET k ms] = True"
| "payloads_first (Push_HSET k ms # Push_RPUSH k' ids # cs) =
     (k = k' @ ''.msgs'' \<and> map fst ms = ids \<and> ids \<noteq> [] \<and> length ids \<le> 50 \<and> payloads_first cs)"
| "payloads_first _ = False"

lemma rpushed_append: "rpushed q (xs @ ys) = rpushed q xs @ rpushed q ys"
  by (induction q xs rule: rpushed.induct) simp_all

lemma payloads_first_take: "payloads_first cs \<Longrightarrow> payloads_first (take n cs)"
proof (induction cs arbitrary: n rule: payloads_first.induct)
  case (3 k ms k' ids cs)
  then show ?case by (cases n; cases "n - 1") simp_all
qed (simp_all add: take_Cons split: nat.split)

lemma rpushed_batches:
  "rpushed q (concat (map (push_batch q') bs)) = (if q' = q then map jm_redis_id (concat bs) else [])"
  by (induction bs) (simp_all add: push_batch_def rpushed_append)

lemma payloads_first_batches:
  "\<forall>b \<in> set bs. b \<noteq> [] \<and> length b \<le> 50 \<Longrightarrow> payloads_first cs \<Longrightarrow>
     payloads_first (concat (map (push_batch q) bs) @ cs)"
  by (induction bs) (simp_all add: push_batch_def comp_def)

lemma rpushed_commands: "rpushed q (push_commands ms) = queue_ids q ms"
proof -
  have "rpushed q (concat (map (\<lambda>(q, xs). concat (map (push_batch q) (batched FLUSH_BATCH_SIZE xs))) pq)) =
      map jm_redis_id (queue_part q pq)" for pq
    by (induction pq) (auto simp: rpushed_append rpushed_batches batched_concat FLUSH_BATCH_SIZE_def)
  then show ?thesis by (simp add: push_commands_def per_queue_part queue_ids_def)
qed

lemma payloads_first_commands: "payloads_first (push_commands ms)"
proof -
  have "payloads_first (concat (map (\<lambda>(q, xs). concat (map (push_batch q) (batched FLUSH_BATCH_SIZE xs))) pq))" for pq
  proof (induction pq)
    case (Cons p pq)
    then show ?case
      using batched_sizes [of _ FLUSH_BATCH_SIZE "snd p"]
      by (auto simp: case_prod_beta FLUSH_BATCH_SIZE_def intro!: payloads_first_batches)
  qed simp
  then show ?thesis by (simp add: push_commands_def)
qed

text \<open>A message carries the call of its job.\<close>

definition carries :: "queued_job \<Rightarrow> job_message \<Rightarrow> bool" where
  "carries j m = (jm_actor m = qj_actor j \<and> jm_args m = qj_args j \<and> jm_kwargs m = qj_kwargs j)"

lemma build_message_carries: "build_message R B now_ms mid rid j s = (Inr m, s') \<Longrightarrow> carries j m"
  by (auto simp: build_message_def carries_def Let_def split: option.splits prod.splits sum.splits if_splits)

lemma build_messages_carry:
  "build_messages R B now_ms mids rids n js s = (Inr ms, s') \<Longrightarrow> list_all2 carries js ms"
  by (induction js arbitrary: n s ms) (auto dest: build_message_carries split: prod.splits sum.splits)


subsection \<open>Debouncing\<close>

text \<open>The hash of a debounce key and its remaining time.\<close>

definition owned_hash :: "string \<Rightarrow> int \<Rightarrow> nat \<Rightarrow> cell \<Rightarrow> bool" where
  "owned_hash i e t c = (\<exists>h e' t'. c = Some (RHash h, Some t') \<and> t \<le> t' \<and>
     h ''message_id'' = Some (Text i) \<and> h ''executed'' = Some (Number 0) \<and>
     h ''enqueue_timestamp'' = Some (Number e') \<and> e \<le> e')"

text \<open>What a max-threshold run leaves under a key that had expired meanwhile.\<close>

definition bumped_hash :: "cell \<Rightarrow> bool" where
  "bumped_hash c = (\<exists>t e. c = Some (RHash [''enqueue_timestamp'' \<mapsto> Number e], Some t))"

lemma bumped_hashI: "bumped_hash (Some (RHash [''enqueue_timestamp'' \<mapsto> Number e], Some t))"
  unfolding bumped_hash_def by blast

context redis_server
begin

lemma HGETALL_empty: "(HGETALL R k s = []) = (\<forall>f. cell_hash (look R s k) f = None)"
proof -
  have "HGETALL R k s = [] \<longleftrightarrow> (\<forall>f \<in> set (HKEYS R k s). HGET R k f s = None)"
    by (auto simp: HGETALL_def List.map_filter_def filter_empty_conv)
  also have "\<dots> \<longleftrightarrow> (\<forall>f. cell_hash (look R s k) f = None)"
    by (auto simp: HKEYS_fields HGET_def)
  finally show ?thesis .
qed

lemma look_HSETNX:
  "is_hash (look R s k) \<Longrightarrow> look R (HSETNX R k f v s) k' =
     (if k' = k \<and> cell_hash (look R s k) f = None
      then Some (RHash ((cell_hash (look R s k))(f \<mapsto> v)), cell_ttl (look R s k)) else look R s k')"
  by (simp add: HSETNX_def HEXISTS_def HGET_def)

lemma is_hash_cases:
  assumes "is_hash c"
  obtains "c = None" | h t where "c = Some (RHash h, t)"
  using assms by (cases c rule: is_hash.cases) auto

text \<open>A dispatch makes the message the owner, not executed, for an hour, and keeps a timestamp.\<close>

lemma look_set_debounce_key:
  assumes "set_debounce_key R now a i args kwargs s = (Inr (Some (k, d)), s')" and "is_hash (look R s k)"
  shows "look R s' k = Some (RHash ((cell_hash (look R s k))(
      ''enqueue_timestamp'' \<mapsto> (case cell_hash (look R s k) ''enqueue_timestamp'' of None \<Rightarrow> Number now | Some e \<Rightarrow> e),
      ''message_id'' \<mapsto> Text i, ''executed'' \<mapsto> Number 0)), Some 3600)"
    and "k' \<noteq> k \<Longrightarrow> look R s' k' = look R s k'"
proof -
  let ?s1 = "HSETNX R k ''enqueue_timestamp'' (Number now) s"
  let ?s2 = "HSET R k ''message_id'' (Text i) ?s1"
  let ?s3 = "HSET R k ''executed'' (Number 0) ?s2"
  have s': "s' = EXPIRE R k 3600 ?s3"
    using assms(1) by (auto simp: set_debounce_key_def Let_def DEBOUNCE_KEY_TTL_def split: option.splits sum.splits)
  have h1: "is_hash (look R ?s1 k)" using assms(2) by (auto simp: look_HSETNX)
  then have h2: "is_hash (look R ?s2 k)" by simp
  have c1: "cell_hash (look R ?s1 k) = (cell_hash (look R s k))(''enqueue_timestamp'' \<mapsto>
      (case cell_hash (look R s k) ''enqueue_timestamp'' of None \<Rightarrow> Number now | Some e \<Rightarrow> e))"
    using assms(2) by (auto simp: look_HSETNX fun_eq_iff split: option.splits)
  show "look R s' k = Some (RHash ((cell_hash (look R s k))(
      ''enqueue_timestamp'' \<mapsto> (case cell_hash (look R s k) ''enqueue_timestamp'' of None \<Rightarrow> Number now | Some e \<Rightarrow> e),
      ''message_id'' \<mapsto> Text i, ''executed'' \<mapsto> Number 0)), Some 3600)"
    using h1 h2 by (simp add: s' c1)
  show "k' \<noteq> k \<Longrightarrow> look R s' k' = look R s k'"
    using h1 h2 assms(2) by (simp add: s' look_HSETNX)
qed

lemma set_debounce_key_none:
  "set_debounce_key R now a i args kwargs s = (r, s') \<Longrightarrow> \<forall>k d. r \<noteq> Inr (Some (k, d)) \<Longrightarrow> s' = s"
  by (auto simp: set_debounce_key_def Let_def split: option.splits sum.splits)

lemma before_none: "look R s k = None \<Longrightarrow> jm_debounce_key m = Some k \<Longrightarrow> before_process_message R now a m s = Proceed m"
  by (simp add: before_process_message_def HGETALL_empty)

lemma before_owned:
  assumes "owned_hash i e t (look R s k)" and "jm_debounce_key m = Some k"
  shows "jm_id m = i \<Longrightarrow> \<exists>m'. before_process_message R now a m s = Proceed m'"
    and "jm_id m \<noteq> i \<Longrightarrow> now \<le> e + max_threshold a m \<Longrightarrow> \<exists>m'. before_process_message R now a m s = Skip_Message m'"
proof -
  from assms(1) obtain h e' t' where h: "look R s k = Some (RHash h, Some t')"
    "h ''message_id'' = Some (Text i)" "h ''executed'' = Some (Number 0)"
    "h ''enqueue_timestamp'' = Some (Number e')" "e \<le> e'" by (auto simp: owned_hash_def)
  then have "HGETALL R k s \<noteq> []" unfolding HGETALL_empty by auto
  with h assms(2) show "jm_id m = i \<Longrightarrow> \<exists>m'. before_process_message R now a m s = Proceed m'"
    and "jm_id m \<noteq> i \<Longrightarrow> now \<le> e + max_threshold a m \<Longrightarrow> \<exists>m'. before_process_message R now a m s = Skip_Message m'"
    by (simp_all add: before_process_message_def HEXISTS_def HGET_def hash_int_def Let_def)
qed

lemma before_bumped:
  assumes "bumped_hash (look R s k)" and "jm_debounce_key m = Some k"
  shows "before_process_message R now a m s = Before_Raises (KeyError ''message_id'')"
proof -
  from assms(1) obtain t e where h: "look R s k = Some (RHash [''enqueue_timestamp'' \<mapsto> Number e], Some t)"
    by (auto simp: bumped_hash_def)
  then have "HGETALL R k s \<noteq> []" unfolding HGETALL_empty by auto
  with h assms(2) show ?thesis
    by (simp add: before_process_message_def HEXISTS_def HGET_def)
qed

end

text \<open>
  What may happen to a key between the last dispatch for it and the turn of that message: time
  passes, messages of the key fail or complete as max-threshold runs, and commands work on other keys.
\<close>

inductive quiet_step :: "'s redis \<Rightarrow> string \<Rightarrow> int \<times> 's \<Rightarrow> int \<times> 's \<Rightarrow> bool" for R k where
  passes: "quiet_step R k (now, s) (now + int d, elapse R d s)"
| finishes: "after_process_message R now failed m s = (r, s') \<Longrightarrow> jm_debounce_key m = Some k \<Longrightarrow>
    failed \<or> jm_max_execution m \<Longrightarrow> quiet_step R k (now, s) (now, s')"
| elsewhere: "look R s' k = look R s k \<Longrightarrow> quiet_step R k (now, s) (now, s')"

definition still_owned :: "string \<Rightarrow> int \<Rightarrow> int \<Rightarrow> int \<Rightarrow> cell \<Rightarrow> bool" where
  "still_owned i e t0 now c = (t0 \<le> now \<and>
     (owned_hash i e (nat (t0 + 3600 - now)) c \<or> t0 + 3600 \<le> now \<and> (c = None \<or> bumped_hash c)))"

context redis_server
begin

lemma still_owned_passes:
  assumes "still_owned i e t0 now c"
  shows "still_owned i e t0 (now + int d) (age d c)"
proof -
  have t0: "t0 \<le> now + int d" using assms by (simp add: still_owned_def)
  consider (owned) "owned_hash i e (nat (t0 + 3600 - now)) c" | (gone) "t0 + 3600 \<le> now" "c = None \<or> bumped_hash c"
    using assms by (auto simp: still_owned_def)
  then show ?thesis
  proof cases
    case owned
    then obtain h e' t' where h: "c = Some (RHash h, Some t')" "nat (t0 + 3600 - now) \<le> t'"
      "h ''message_id'' = Some (Text i)" "h ''executed'' = Some (Number 0)"
      "h ''enqueue_timestamp'' = Some (Number e')" "e \<le> e'" by (auto simp: owned_hash_def)
    show ?thesis
    proof (cases "t' \<le> d")
      case True
      with h(1,2) have "age d c = None" "t0 + 3600 \<le> now + int d" by auto
      with t0 show ?thesis by (simp add: still_owned_def)
    next
      case False
      with h(1,2) have "age d c = Some (RHash h, Some (t' - d))" "nat (t0 + 3600 - (now + int d)) \<le> t' - d" by auto
      with h t0 show ?thesis by (auto simp: still_owned_def owned_hash_def)
    qed
  next
    case gone
    have "age d c = None \<or> bumped_hash (age d c)"
    proof (cases "c = None")
      case False
      with gone(2) obtain t e where "c = Some (RHash [''enqueue_timestamp'' \<mapsto> Number e], Some t)"
        by (auto simp: bumped_hash_def)
      then show ?thesis by (cases "t \<le> d") (simp_all add: bumped_hashI)
    qed simp
    with gone(1) t0 show ?thesis by (auto simp: still_owned_def)
  qed
qed

lemma still_owned_bump:
  assumes "still_owned i e t0 now (look R s k)" and "e \<le> t0"
  shows "still_owned i e t0 now (look R (EXPIRE R k 3600 (HSET R k ''enqueue_timestamp'' (Number now) s)) k)"
proof -
  have t0: "t0 \<le> now" using assms(1) by (simp add: still_owned_def)
  have ishash: "is_hash (look R s k)"
    using assms(1) by (auto simp: still_owned_def owned_hash_def bumped_hash_def)
  then have eq: "look R (EXPIRE R k 3600 (HSET R k ''enqueue_timestamp'' (Number now) s)) k =
      Some (RHash ((cell_hash (look R s k))(''enqueue_timestamp'' \<mapsto> Number now)), Some 3600)"
    by simp
  consider (owned) "owned_hash i e (nat (t0 + 3600 - now)) (look R s k)"
    | (gone) "t0 + 3600 \<le> now" "look R s k = None \<or> bumped_hash (look R s k)"
    using assms(1) by (auto simp: still_owned_def)
  then show ?thesis
  proof cases
    case owned
    with t0 assms(2) show ?thesis unfolding eq by (auto simp: still_owned_def owned_hash_def)
  next
    case gone
    have "(cell_hash (look R s k))(''enqueue_timestamp'' \<mapsto> Number now) = [''enqueue_timestamp'' \<mapsto> Number now]"
      using gone(2) by (auto simp: bumped_hash_def)
    then have "bumped_hash (look R (EXPIRE R k 3600 (HSET R k ''enqueue_timestamp'' (Number now) s)) k)"
      unfolding eq by (simp add: bumped_hashI)
    with t0 gone(1) show ?thesis by (simp add: still_owned_def)
  qed
qed

lemma still_owned_run:
  assumes "(quiet_step R k)\<^sup>*\<^sup>* (t0, s0) (now, s)" and "still_owned i e t0 t0 (look R s0 k)" and "e \<le> t0"
  shows "still_owned i e t0 now (look R s k)"
  using assms(1)
proof (induction "(now, s)" arbitrary: now s rule: rtranclp_induct)
  case base
  with assms(2) show ?case by simp
next
  case (step x)
  obtain now1 s1 where x: "x = (now1, s1)" by fastforce
  with step have own: "still_owned i e t0 now1 (look R s1 k)" by simp
  from step(2) show ?case unfolding x
  proof cases
    case (passes d)
    then show ?thesis using still_owned_passes [OF own] by simp
  next
    case (finishes failed m r)
    then have "s = s1 \<or> s = EXPIRE R k 3600 (HSET R k ''enqueue_timestamp'' (Number now1) s1)"
      by (auto simp: after_process_message_def DEBOUNCE_KEY_TTL_def split: if_splits)
    with finishes own show ?thesis using still_owned_bump [OF own assms(3)] by auto
  next
    case elsewhere
    with own show ?thesis by simp
  qed
qed

text \<open>After a dispatch the message owns the key.\<close>

lemma dispatched_owns:
  assumes "set_debounce_key R t0 a i args kwargs s = (Inr (Some (k, d)), s0)" and "is_hash (look R s k)"
    and "hash_int (HGET R k ''enqueue_timestamp'' s0) = Some e"
  shows "still_owned i e t0 t0 (look R s0 k)"
proof -
  note l = look_set_debounce_key(1) [OF assms(1,2)]
  from l assms(3) have "(case cell_hash (look R s k) ''enqueue_timestamp'' of None \<Rightarrow> Number t0 | Some e \<Rightarrow> e) = Number e"
    by (simp add: HGET_def hash_int_def split: payload.splits)
  with l show ?thesis by (simp add: still_owned_def owned_hash_def)
qed

lemma not_skipped:
  assumes "still_owned i e t0 now (look R s k)" and "jm_debounce_key m = Some k"
  shows "jm_id m = i \<Longrightarrow> before_process_message R now a m s \<noteq> Skip_Message m'"
    and "jm_id m \<noteq> i \<Longrightarrow> now < t0 + 3600 \<Longrightarrow> now \<le> e + max_threshold a m \<Longrightarrow>
      \<exists>m'. before_process_message R now a m s = Skip_Message m'"
proof -
  consider (owned) "owned_hash i e (nat (t0 + 3600 - now)) (look R s k)"
    | (expired) "look R s k = None" | (bumped) "bumped_hash (look R s k)"
    using assms(1) by (auto simp: still_owned_def)
  then show "jm_id m = i \<Longrightarrow> before_process_message R now a m s \<noteq> Skip_Message m'"
  proof cases
    case owned
    assume "jm_id m = i"
    with before_owned(1) [OF owned assms(2)] obtain m2 where "before_process_message R now a m s = Proceed m2" by blast
    then show ?thesis by simp
  next
    case expired
    then show ?thesis using before_none assms(2) by simp
  next
    case bumped
    then show ?thesis using before_bumped assms(2) by simp
  qed
next
  assume "jm_id m \<noteq> i" "now < t0 + 3600" "now \<le> e + max_threshold a m"
  moreover from this(2) assms(1) have "owned_hash i e (nat (t0 + 3600 - now)) (look R s k)"
    by (simp add: still_owned_def)
  ultimately show "\<exists>m'. before_process_message R now a m s = Skip_Message m'"
    using before_owned(2) [OF _ assms(2)] by blast
qed

end

text \<open>
  Property C32: debouncing runs the last of a burst, and only it. Once a message is dispatched
  under a key, and as long as no newer one is dispatched under it and none of its messages
  succeeds, the worker never skips that message, however late it takes it. Every other message of
  the key is skipped within the hour, up to the maximal threshold after the first dispatch of the
  burst.
\<close>

theorem debounce_runs_last:
  assumes "redis_server R" and "is_hash (look R s k)"
    and "set_debounce_key R t0 a i args kwargs s = (Inr (Some (k, d)), s0)"
    and "hash_int (HGET R k ''enqueue_timestamp'' s0) = Some e" "e \<le> t0"
    and "(quiet_step R k)\<^sup>*\<^sup>* (t0, s0) (now, s1)" and "jm_debounce_key m = Some k"
  shows "if jm_id m = i then \<forall>m'. before_process_message R now b m s1 \<noteq> Skip_Message m'
    else now < t0 + 3600 \<and> now \<le> e + max_threshold b m \<longrightarrow> (\<exists>m'. before_process_message R now b m s1 = Skip_Message m')"
proof -
  note own = redis_server.still_owned_run [OF assms(1,6) redis_server.dispatched_owns [OF assms(1,3,2,4)] assms(5)]
  show ?thesis
    using redis_server.not_skipped [OF assms(1) own assms(7)] by simp
qed

context redis_server
begin

lemma proceed_keeps_key: "before_process_message R now b n s = Proceed n1 \<Longrightarrow> jm_debounce_key n1 = jm_debounce_key n"
  by (auto simp: before_process_message_def Let_def split: option.splits if_splits)

lemma executed_skips:
  assumes "look R s k = Some (RHash h, t)" "h ''executed'' = Some (Number 1)" "jm_debounce_key m = Some k"
  shows "before_process_message R now b m s = Skip_Message m"
proof -
  have "HGETALL R k s \<noteq> []" unfolding HGETALL_empty using assms(1,2) by auto
  with assms show ?thesis by (simp add: before_process_message_def HEXISTS_def HGET_def hash_int_def)
qed

lemma lost_dispatch:
  assumes "is_hash (look R s k)"
    and "before_process_message R t1 b n s = Proceed n1" "jm_debounce_key n = Some k"
    and "jm_enqueue_timestamp n1 \<noteq> None" "\<not> jm_max_execution n1"
    and "set_debounce_key R t2 a i args kwargs s = (Inr (Some (k, d)), s0)"
    and "after_process_message R t3 False n1 (elapse R d1 s0) = (r, s1)"
    and "d1 + d2 < 3600" and "jm_debounce_key m = Some k"
  shows "before_process_message R t4 c m (elapse R d2 s1) = Skip_Message m"
proof -
  obtain h where h: "look R s0 k = Some (RHash h, Some 3600)"
    using look_set_debounce_key(1) [OF assms(6,1)] by blast
  let ?s = "elapse R d1 s0"
  let ?s' = "HSET R k ''executed'' (Number 1) ?s"
  have l: "look R ?s k = Some (RHash h, Some (3600 - d1))" using h assms(8) by simp
  have key: "jm_debounce_key n1 = Some k" using proceed_keeps_key [OF assms(2)] assms(3) by simp
  have s1: "s1 = HDEL R k ''enqueue_timestamp'' ?s'"
    using assms(4,5,7) by (auto simp: after_process_message_def key)
  have l': "look R ?s' k = Some (RHash (h(''executed'' \<mapsto> Number 1)), Some (3600 - d1))" using l by simp
  let ?h = "(h(''executed'' \<mapsto> Number 1))(''enqueue_timestamp'' := None)"
  have ex: "?h ''executed'' = Some (Number 1)" by simp
  then have "?h \<noteq> Map.empty" by (metis option.distinct(1))
  then have "look R s1 k = Some (RHash ?h, Some (3600 - d1))"
    unfolding s1 using look_HDEL [of ?s' k "''enqueue_timestamp''" k] l' by simp
  then have "look R (elapse R d2 s1) k = Some (RHash ?h, Some (3600 - d1 - d2))" using assms(8) by simp
  from executed_skips [OF this _ assms(9)] ex show ?thesis by simp
qed

end

text \<open>
  a job dispatched while another one of its key runs is lost. When the worker runs a
  message of the key, a new message is dispatched under it, and the running one then succeeds,
  the key counts as executed: within the hour the worker skips the new message, and every other
  one of the key, although nothing has run since its dispatch.
\<close>

theorem dispatch_during_run_lost:
  assumes "redis_server R" and "is_hash (look R s k)"
    and "before_process_message R t1 b n s = Proceed n1" "jm_debounce_key n = Some k"
    and "jm_enqueue_timestamp n1 \<noteq> None" "\<not> jm_max_execution n1"
    and "set_debounce_key R t2 a i args kwargs s = (Inr (Some (k, d)), s0)"
    and "after_process_message R t3 False n1 (elapse R d1 s0) = (r, s1)"
    and "d1 + d2 < 3600" and "jm_debounce_key m = Some k"
  shows "before_process_message R t4 c m (elapse R d2 s1) = Skip_Message m"
  by (rule redis_server.lost_dispatch [OF assms])

subsection \<open>Concrete runs\<close>

definition usage_actor :: actor_def where
  "usage_actor = \<lparr>ac_queue = ''low_priority'',
     ac_debounce = Some (\<lambda>args kwargs. Inr (Some ''usage:t1'')), ac_min_threshold = None, ac_max_threshold = None\<rparr>"

definition plain_actor :: actor_def where
  "plain_actor = \<lparr>ac_queue = ''webhooks'', ac_debounce = None, ac_min_threshold = None, ac_max_threshold = None\<rparr>"

definition sample_broker :: broker where
  "sample_broker = \<lparr>get_actor = (\<lambda>a. if a = ''usage'' then Some usage_actor else Some plain_actor),
     dq_name = (\<lambda>q. q @ ''.DQ'')\<rparr>"

definition usage_message :: "string \<Rightarrow> job_message" where
  "usage_message i = \<lparr>jm_id = i, jm_actor = ''usage'', jm_queue = ''low_priority'', jm_args = [], jm_kwargs = [],
     jm_redis_id = i, jm_debounce_key = Some ''debounce:usage:t1'', jm_eta = None, jm_enqueue_timestamp = None,
     jm_max_execution = False, jm_max_threshold = None\<rparr>"

definition dispatched_store :: "string \<Rightarrow> int \<Rightarrow> store \<Rightarrow> store" where
  "dispatched_store i now s = snd (set_debounce_key ref_redis now usage_actor i [] [] s)"

lemma usage_dispatch:
  "set_debounce_key ref_redis now usage_actor i [] [] s = (Inr (Some (''debounce:usage:t1'', 15000)), dispatched_store i now s)"
  by (simp add: dispatched_store_def set_debounce_key_def usage_actor_def Let_def DEBOUNCE_KEY_PREFIX_def DEBOUNCE_MIN_THRESHOLD_def)

lemmas usage_look = reference.look_set_debounce_key(1) [OF usage_dispatch]

lemma empty_look: "look ref_redis empty_store k = None"
  by (simp add: ref_redis_def ref_look_def live_def empty_store_def)

lemma first_look:
  "look ref_redis (dispatched_store i now empty_store) ''debounce:usage:t1'' =
     Some (RHash [''enqueue_timestamp'' \<mapsto> Number now, ''message_id'' \<mapsto> Text i, ''executed'' \<mapsto> Number 0], Some 3600)"
  by (simp add: usage_look empty_look)

definition sample_manager :: job_manager where
  "sample_manager = \<lparr>pending_jobs =
     [\<lparr>qj_actor = ''usage'', qj_args = [], qj_kwargs = [], qj_delay = None\<rparr>,
      \<lparr>qj_actor = ''send'', qj_args = [JInt 1], qj_kwargs = [], qj_delay = None\<rparr>], pending_events = [''e1'']\<rparr>"


theorem debounce_runs_last_witness:
  "\<exists>m'. before_process_message ref_redis 102 usage_actor (usage_message ''m1'')
     (dispatched_store ''m2'' 102 (dispatched_store ''m1'' 100 empty_store)) = Skip_Message m'"
proof -
  let ?s = "dispatched_store ''m1'' 100 empty_store"
  have h: "is_hash (look ref_redis ?s ''debounce:usage:t1'')" by (simp add: first_look)
  have e: "hash_int (HGET ref_redis ''debounce:usage:t1'' ''enqueue_timestamp'' (dispatched_store ''m2'' 102 ?s)) = Some 100"
    by (simp add: HGET_def usage_look first_look hash_int_def)
  have "(quiet_step ref_redis ''debounce:usage:t1'')\<^sup>*\<^sup>* (102, dispatched_store ''m2'' 102 ?s) (102, dispatched_store ''m2'' 102 ?s)"
    by simp
  from debounce_runs_last [OF reference_server h usage_dispatch e _ this, of "usage_message ''m1''" usage_actor]
  show ?thesis by (simp add: usage_message_def max_threshold_def usage_actor_def DEBOUNCE_MAX_THRESHOLD_def)
qed

text \<open>\<open>m1\<close> runs from 115 to 118; \<open>m2\<close>, dispatched at 116, is skipped.\<close>

theorem dispatch_during_run_lost_witness:
  "let s0 = dispatched_store ''m1'' 100 empty_store;
       s1 = dispatched_store ''m2'' 116 s0
   in \<exists>n1 s2. before_process_message ref_redis 115 usage_actor (usage_message ''m1'') s0 = Proceed n1 \<and>
        after_process_message ref_redis 118 False n1 (elapse ref_redis 2 s1) = (Inr (usage_message ''m1''), s2) \<and>
        before_process_message ref_redis 131 usage_actor (usage_message ''m2'') (elapse ref_redis 13 s2) =
          Skip_Message (usage_message ''m2'')"
proof -
  let ?s0 = "dispatched_store ''m1'' 100 empty_store"
  let ?s1 = "dispatched_store ''m2'' 116 ?s0"
  let ?n1 = "(usage_message ''m1'')\<lparr>jm_enqueue_timestamp := Some 100\<rparr>"
  let ?fin = "after_process_message ref_redis 118 False ?n1 (elapse ref_redis 2 ?s1)"
  have h: "is_hash (look ref_redis ?s0 ''debounce:usage:t1'')" by (simp add: first_look)
  have p: "before_process_message ref_redis 115 usage_actor (usage_message ''m1'') ?s0 = Proceed ?n1" by code_simp
  have f: "?fin = (Inr (usage_message ''m1''), snd ?fin)"
    by (simp add: after_process_message_def after_skip_message_def usage_message_def)
  have "before_process_message ref_redis 131 usage_actor (usage_message ''m2'') (elapse ref_redis 13 (snd ?fin)) =
      Skip_Message (usage_message ''m2'')"
    by (rule dispatch_during_run_lost [OF reference_server h p _ _ _ usage_dispatch f])
      (simp_all add: usage_message_def)
  with p f show ?thesis unfolding Let_def by blast
qed

end
