(* ===== verification/Projects.thy ===== *)
theory Projects
  imports Pg_Tables
begin

section \<open>Projects, states, labels, work items and comments\<close>

text \<open>
  The services of the package \<open>projects\<close> over their tables. Plain columns are kept by name, as the
  update dictionaries name them; the keys that queries and constraints look at are fields. An
  exception rolls the transaction back, so an operation answers an error or a value with the new
  tables. Ids and the clock are drawn by the caller; the database is reachable.
\<close>

subsection \<open>Rows\<close>

type_synonym columns = "string \<Rightarrow> json"

datatype member_role = Role_Guest | Role_Member | Role_Admin

record project_row =
  pj_id :: uuid
  pj_workspace_id :: uuid
  pj_owner_id :: uuid
  pj_identifier :: string
  pj_slug :: string
  pj_cols :: columns
  pj_archived_at :: "int option"
  pj_deleted_at :: "int option"

record project_member =
  pm_project_id :: uuid
  pm_user_id :: uuid
  pm_role :: member_role
  pm_deleted_at :: "int option"

record state_row =
  st_id :: uuid
  st_project_id :: uuid
  st_cols :: columns
  st_deleted_at :: "int option"

record label_row =
  lb_id :: uuid
  lb_project_id :: uuid
  lb_cols :: columns
  lb_deleted_at :: "int option"

record item_row =
  wi_id :: uuid
  wi_project_id :: uuid
  wi_sequence_number :: int
  wi_cols :: columns
  wi_archived_at :: "int option"
  wi_deleted_at :: "int option"

text \<open>Assignees and labels of work items: the same shape of association row.\<close>

record edge_row =
  ed_item :: uuid
  ed_target :: uuid
  ed_deleted_at :: "int option"

datatype activity_verb = Verb_Created | Verb_State_Changed | Verb_Priority_Changed | Verb_Comment_Added

record activity_row =
  av_item :: uuid
  av_actor :: "uuid option"
  av_verb :: activity_verb
  av_field :: "string option"
  av_old_value :: "string option"
  av_new_value :: "string option"
  av_comment_id :: "uuid option"

record comment_row =
  cm_id :: uuid
  cm_item :: uuid
  cm_actor_id :: uuid
  cm_cols :: columns
  cm_deleted_at :: "int option"

record projects_db =
  pd_users :: "uuid list"
  pd_workspaces :: "workspace_row list"
  pd_memberships :: "membership_row list"
  pd_projects :: "project_row list"
  pd_members :: "project_member list"
  pd_states :: "state_row list"
  pd_labels :: "label_row list"
  pd_items :: "item_row list"
  pd_assignees :: "edge_row list"
  pd_item_labels :: "edge_row list"
  pd_activities :: "activity_row list"
  pd_comments :: "comment_row list"

datatype project_error =
    Project_Raised py_error
  | NotPermitted string
  | ResourceNotFound string
  | ResourceAlreadyExists string
  | BadRequest string

type_synonym 'a project_result = "project_error + 'a \<times> projects_db"

text \<open>The columns written by an update dictionary; a required column set to null fails at the flush.\<close>

definition apply_columns :: "(string \<times> json) list \<Rightarrow> columns \<Rightarrow> columns" where
  "apply_columns upd cols = foldl (\<lambda>c (k, v). c(k := v)) cols upd"

definition nulls_required :: "string list \<Rightarrow> (string \<times> json) list \<Rightarrow> bool" where
  "nulls_required required upd = list_ex (\<lambda>(k, v). k \<in> set required \<and> v = JNull) upd"

definition no_columns :: columns where "no_columns = (\<lambda>_. JNull)"

definition db_failure :: "project_error + 'a" where
  "db_failure = Inl (Project_Raised SQLAlchemyError)"

subsection \<open>Access\<close>

definition workspaces_of :: "uuid \<Rightarrow> projects_db \<Rightarrow> uuid set" where
  "workspaces_of u db = set (map m_workspace_id
     (filter (\<lambda>m. m_user_id m = u \<and> m_deleted_at m = None) (pd_memberships db)))"

text \<open>The filter of the readable statements: the workspace of the project.\<close>

fun project_visible :: "subject \<Rightarrow> projects_db \<Rightarrow> project_row \<Rightarrow> bool" where
  "project_visible (User u) db p = (pj_workspace_id p \<in> workspaces_of u db)"
| "project_visible (Workspace w) db p = (pj_workspace_id p = w)"
| "project_visible _ db p = True"

definition project_get :: "subject \<Rightarrow> uuid \<Rightarrow> projects_db \<Rightarrow> project_row option" where
  "project_get auth i db = find (\<lambda>p. pj_id p = i \<and> pj_deleted_at p = None \<and> project_visible auth db p) (pd_projects db)"

text \<open>The other statements join the project without asking whether it is deleted.\<close>

definition joins_visible :: "subject \<Rightarrow> projects_db \<Rightarrow> uuid \<Rightarrow> bool" where
  "joins_visible auth db i = list_ex (\<lambda>p. pj_id p = i \<and> project_visible auth db p) (pd_projects db)"

fun role_rank :: "member_role \<Rightarrow> nat" where
  "role_rank Role_Guest = 0" | "role_rank Role_Member = 1" | "role_rank Role_Admin = 2"

definition role_satisfies :: "member_role \<Rightarrow> member_role \<Rightarrow> bool" where
  "role_satisfies r m = (role_rank m \<le> role_rank r)"

definition get_member_role :: "uuid \<Rightarrow> uuid \<Rightarrow> projects_db \<Rightarrow> member_role option" where
  "get_member_role pid u db = map_option pm_role
     (find (\<lambda>m. pm_project_id m = pid \<and> pm_user_id m = u \<and> pm_deleted_at m = None) (pd_members db))"

fun require_role :: "subject \<Rightarrow> project_row \<Rightarrow> member_role \<Rightarrow> projects_db \<Rightarrow> project_error + unit" where
  "require_role (Workspace w) p minimum db =
     (if w \<noteq> pj_workspace_id p then Inl (NotPermitted ''Workspace mismatch.'') else Inr ())"
| "require_role (User u) p minimum db = (case get_member_role (pj_id p) u db of
       None \<Rightarrow> Inl (NotPermitted ''You are not a member of this project.'')
     | Some r \<Rightarrow> if role_satisfies r minimum then Inr () else Inl (NotPermitted ''project role''))"
| "require_role _ p minimum db = Inl (NotPermitted ''Unsupported auth subject.'')"

definition ensure_role :: "subject \<Rightarrow> uuid \<Rightarrow> member_role \<Rightarrow> projects_db \<Rightarrow> project_error + project_row" where
  "ensure_role auth pid minimum db = (case project_get auth pid db of
       None \<Rightarrow> Inl (ResourceNotFound ''Project not found.'')
     | Some p \<Rightarrow> bind_sum (require_role auth p minimum db) (\<lambda>_. Inr p))"

definition ensure_member :: "subject \<Rightarrow> uuid \<Rightarrow> projects_db \<Rightarrow> project_error + project_row" where
  "ensure_member auth pid db = ensure_role auth pid Role_Member db"

subsection \<open>Projects\<close>

record project_create =
  pc_identifier :: string
  pc_slug :: string
  pc_cols :: columns

definition PROJECT_REQUIRED :: "string list" where
  "PROJECT_REQUIRED = [''name'', ''visibility'', ''is_cycles_enabled'', ''is_modules_enabled'', ''is_views_enabled'',
     ''is_pages_enabled'', ''is_intake_enabled'']"

text \<open>Unique constraints cover deleted rows too; the owner is a user by its foreign key.\<close>

definition insert_project :: "project_row \<Rightarrow> projects_db \<Rightarrow> unit project_result" where
  "insert_project p db =
     (if list_ex (\<lambda>q. pj_workspace_id q = pj_workspace_id p \<and> (pj_identifier q = pj_identifier p \<or> pj_slug q = pj_slug p))
           (pd_projects db) \<or> pj_owner_id p \<notin> set (pd_users db)
      then db_failure else Inr ((), db\<lparr>pd_projects := pd_projects db @ [p]\<rparr>))"

definition insert_member :: "project_member \<Rightarrow> projects_db \<Rightarrow> unit project_result" where
  "insert_member m db =
     (if list_ex (\<lambda>q. pm_project_id q = pm_project_id m \<and> pm_user_id q = pm_user_id m) (pd_members db)
      then db_failure else Inr ((), db\<lparr>pd_members := pd_members db @ [m]\<rparr>))"

definition live_project :: "uuid \<Rightarrow> (project_row \<Rightarrow> bool) \<Rightarrow> projects_db \<Rightarrow> bool" where
  "live_project w P db = list_ex (\<lambda>p. pj_workspace_id p = w \<and> P p \<and> pj_deleted_at p = None) (pd_projects db)"

fun project_owner :: "subject \<Rightarrow> uuid \<Rightarrow> projects_db \<Rightarrow> project_error + uuid" where
  "project_owner (User u) w db =
     (if list_ex (\<lambda>r. w_id r = w \<and> w_deleted_at r = None) (pd_workspaces db) \<and> w \<in> workspaces_of u db
      then Inr u else Inl (ResourceNotFound ''Workspace not found.''))"
| "project_owner (Workspace v) w db = (if v \<noteq> w then Inl (NotPermitted ''Workspace mismatch.'') else Inr v)"
| "project_owner _ w db = Inl (NotPermitted ''Unsupported auth subject.'')"

definition project_create_action ::
  "subject \<Rightarrow> uuid \<Rightarrow> project_create \<Rightarrow> uuid \<Rightarrow> projects_db \<Rightarrow> project_row project_result" where
  "project_create_action auth w data new_id db = bind_sum (project_owner auth w db) (\<lambda>owner.
     if live_project w (\<lambda>p. pj_identifier p = pc_identifier data) db
     then Inl (ResourceAlreadyExists ''identifier'')
     else if live_project w (\<lambda>p. pj_slug p = pc_slug data) db
     then Inl (ResourceAlreadyExists ''slug'')
     else (let p = \<lparr>pj_id = new_id, pj_workspace_id = w, pj_owner_id = owner, pj_identifier = pc_identifier data,
                   pj_slug = pc_slug data, pj_cols = pc_cols data, pj_archived_at = None, pj_deleted_at = None\<rparr>
           in bind_sum (insert_project p db) (\<lambda>(_, db1). case auth of
                User u \<Rightarrow> bind_sum (insert_member \<lparr>pm_project_id = new_id, pm_user_id = u,
                    pm_role = Role_Admin, pm_deleted_at = None\<rparr> db1) (\<lambda>(_, db2). Inr (p, db2))
              | _ \<Rightarrow> Inr (p, db1))))"

definition change_project :: "uuid \<Rightarrow> (project_row \<Rightarrow> project_row) \<Rightarrow> projects_db \<Rightarrow> projects_db" where
  "change_project i g db = db\<lparr>pd_projects := map (\<lambda>p. if pj_id p = i then g p else p) (pd_projects db)\<rparr>"

definition project_update_action ::
  "subject \<Rightarrow> project_row \<Rightarrow> (string \<times> json) list \<Rightarrow> projects_db \<Rightarrow> unit project_result" where
  "project_update_action auth p upd db = bind_sum (require_role auth p Role_Member db) (\<lambda>_.
     if nulls_required PROJECT_REQUIRED upd then db_failure
     else Inr ((), change_project (pj_id p) (\<lambda>q. q\<lparr>pj_cols := apply_columns upd (pj_cols q)\<rparr>) db))"

definition project_archive_action :: "int \<Rightarrow> subject \<Rightarrow> project_row \<Rightarrow> projects_db \<Rightarrow> unit project_result" where
  "project_archive_action now auth p db = bind_sum (require_role auth p Role_Admin db) (\<lambda>_.
     Inr ((), change_project (pj_id p) (\<lambda>q. q\<lparr>pj_archived_at := Some now\<rparr>) db))"

definition project_unarchive_action :: "subject \<Rightarrow> project_row \<Rightarrow> projects_db \<Rightarrow> unit project_result" where
  "project_unarchive_action auth p db = bind_sum (require_role auth p Role_Admin db) (\<lambda>_.
     Inr ((), change_project (pj_id p) (\<lambda>q. q\<lparr>pj_archived_at := None\<rparr>) db))"

definition project_delete_action :: "int \<Rightarrow> subject \<Rightarrow> project_row \<Rightarrow> projects_db \<Rightarrow> unit project_result" where
  "project_delete_action now auth p db = bind_sum (require_role auth p Role_Admin db) (\<lambda>_.
     Inr ((), change_project (pj_id p) (\<lambda>q. q\<lparr>pj_deleted_at := Some now\<rparr>) db))"

subsection \<open>States and labels\<close>

definition state_get :: "subject \<Rightarrow> uuid \<Rightarrow> projects_db \<Rightarrow> state_row option" where
  "state_get auth i db = find (\<lambda>x. st_id x = i \<and> st_deleted_at x = None \<and> joins_visible auth db (st_project_id x)) (pd_states db)"

text \<open>\<open>ok\<close> of a flush: no other row of the project has the name.\<close>

definition state_name_taken :: "(state_row \<Rightarrow> bool) \<Rightarrow> uuid \<Rightarrow> json \<Rightarrow> projects_db \<Rightarrow> bool" where
  "state_name_taken P pid n db = list_ex (\<lambda>x. P x \<and> st_project_id x = pid \<and> st_cols x ''name'' = n) (pd_states db)"

definition state_create_action ::
  "subject \<Rightarrow> uuid \<Rightarrow> columns \<Rightarrow> uuid \<Rightarrow> projects_db \<Rightarrow> state_row project_result" where
  "state_create_action auth pid cols new_id db = bind_sum (ensure_member auth pid db) (\<lambda>p.
     if state_name_taken (\<lambda>x. st_deleted_at x = None) pid (cols ''name'') db
     then Inl (ResourceAlreadyExists ''state'')
     else if state_name_taken (\<lambda>x. True) pid (cols ''name'') db then db_failure
     else (let x = \<lparr>st_id = new_id, st_project_id = pid, st_cols = cols, st_deleted_at = None\<rparr>
           in Inr (x, db\<lparr>pd_states := pd_states db @ [x]\<rparr>)))"

definition change_state :: "uuid \<Rightarrow> (state_row \<Rightarrow> state_row) \<Rightarrow> projects_db \<Rightarrow> projects_db" where
  "change_state i g db = db\<lparr>pd_states := map (\<lambda>x. if st_id x = i then g x else x) (pd_states db)\<rparr>"

definition state_update_action ::
  "subject \<Rightarrow> state_row \<Rightarrow> (string \<times> json) list \<Rightarrow> projects_db \<Rightarrow> unit project_result" where
  "state_update_action auth x upd db = bind_sum (ensure_member auth (st_project_id x) db) (\<lambda>_.
     if nulls_required [''name'', ''color'', ''group'', ''sequence'', ''is_default''] upd \<or>
        state_name_taken (\<lambda>y. st_id y \<noteq> st_id x) (st_project_id x) (apply_columns upd (st_cols x) ''name'') db
     then db_failure
     else Inr ((), change_state (st_id x) (\<lambda>y. y\<lparr>st_cols := apply_columns upd (st_cols y)\<rparr>) db))"

definition state_delete_action :: "int \<Rightarrow> subject \<Rightarrow> state_row \<Rightarrow> projects_db \<Rightarrow> unit project_result" where
  "state_delete_action now auth x db = bind_sum (ensure_member auth (st_project_id x) db) (\<lambda>_.
     Inr ((), change_state (st_id x) (\<lambda>y. y\<lparr>st_deleted_at := Some now\<rparr>) db))"

definition label_get :: "subject \<Rightarrow> uuid \<Rightarrow> projects_db \<Rightarrow> label_row option" where
  "label_get auth i db = find (\<lambda>x. lb_id x = i \<and> lb_deleted_at x = None \<and> joins_visible auth db (lb_project_id x)) (pd_labels db)"

definition label_name_taken :: "(label_row \<Rightarrow> bool) \<Rightarrow> uuid \<Rightarrow> json \<Rightarrow> projects_db \<Rightarrow> bool" where
  "label_name_taken P pid n db = list_ex (\<lambda>x. P x \<and> lb_project_id x = pid \<and> lb_cols x ''name'' = n) (pd_labels db)"

definition verify_parent_label :: "subject \<Rightarrow> uuid \<Rightarrow> json \<Rightarrow> projects_db \<Rightarrow> project_error + unit" where
  "verify_parent_label auth pid parent db = (case parent of
       JStr i \<Rightarrow> (case label_get auth i db of
           None \<Rightarrow> Inl (ResourceNotFound ''Parent label not found.'')
         | Some l \<Rightarrow> if lb_project_id l \<noteq> pid then Inl (BadRequest ''Parent label belongs to a different project.'')
                     else Inr ())
     | _ \<Rightarrow> Inr ())"

definition label_create_action ::
  "subject \<Rightarrow> uuid \<Rightarrow> columns \<Rightarrow> uuid \<Rightarrow> projects_db \<Rightarrow> label_row project_result" where
  "label_create_action auth pid cols new_id db = bind_sum (ensure_member auth pid db) (\<lambda>p.
     bind_sum (verify_parent_label auth pid (cols ''parent_id'') db) (\<lambda>_.
       if label_name_taken (\<lambda>x. lb_deleted_at x = None) pid (cols ''name'') db
       then Inl (ResourceAlreadyExists ''label'')
       else if label_name_taken (\<lambda>x. True) pid (cols ''name'') db then db_failure
       else (let x = \<lparr>lb_id = new_id, lb_project_id = pid, lb_cols = cols, lb_deleted_at = None\<rparr>
             in Inr (x, db\<lparr>pd_labels := pd_labels db @ [x]\<rparr>))))"

definition change_label :: "uuid \<Rightarrow> (label_row \<Rightarrow> label_row) \<Rightarrow> projects_db \<Rightarrow> projects_db" where
  "change_label i g db = db\<lparr>pd_labels := map (\<lambda>x. if lb_id x = i then g x else x) (pd_labels db)\<rparr>"

text \<open>An update does not look at the new parent: only its foreign key has to exist.\<close>

definition missing_label :: "json \<Rightarrow> projects_db \<Rightarrow> bool" where
  "missing_label parent db = (case parent of JStr i \<Rightarrow> i \<notin> set (map lb_id (pd_labels db)) | _ \<Rightarrow> False)"

definition label_update_action ::
  "subject \<Rightarrow> label_row \<Rightarrow> (string \<times> json) list \<Rightarrow> projects_db \<Rightarrow> unit project_result" where
  "label_update_action auth x upd db = bind_sum (ensure_member auth (lb_project_id x) db) (\<lambda>_.
     if nulls_required [''name'', ''color''] upd \<or>
        label_name_taken (\<lambda>y. lb_id y \<noteq> lb_id x) (lb_project_id x) (apply_columns upd (lb_cols x) ''name'') db \<or>
        missing_label (apply_columns upd (lb_cols x) ''parent_id'') db
     then db_failure
     else Inr ((), change_label (lb_id x) (\<lambda>y. y\<lparr>lb_cols := apply_columns upd (lb_cols y)\<rparr>) db))"

definition label_delete_action :: "int \<Rightarrow> subject \<Rightarrow> label_row \<Rightarrow> projects_db \<Rightarrow> unit project_result" where
  "label_delete_action now auth x db = bind_sum (ensure_member auth (lb_project_id x) db) (\<lambda>_.
     Inr ((), change_label (lb_id x) (\<lambda>y. y\<lparr>lb_deleted_at := Some now\<rparr>) db))"

end
