(* ===== verification/Work_Items.thy ===== *)
theory Work_Items
  imports Projects
begin

section \<open>Work items, their assignees and labels, comments, and the routes of the package\<close>

text \<open>
  \<open>projects/work_item\<close>, \<open>projects/activity\<close> and \<open>projects/comment\<close> over the tables of \<open>Projects\<close>, and
  the writing routes of the package, which look the row up first.
\<close>

subsection \<open>Activities\<close>

text \<open>\<open>_stringify\<close>: text of at most 512 characters.\<close>

definition stringify :: "json \<Rightarrow> string option" where
  "stringify v = (case v of JStr s \<Rightarrow> Some (take 512 s) | _ \<Rightarrow> None)"

definition emit_activity ::
  "uuid \<Rightarrow> subject \<Rightarrow> activity_verb \<Rightarrow> string option \<Rightarrow> json \<Rightarrow> json \<Rightarrow> uuid option \<Rightarrow> projects_db \<Rightarrow> projects_db" where
  "emit_activity item actor verb field old new comment db = db\<lparr>pd_activities := pd_activities db @
     [\<lparr>av_item = item, av_actor = (case actor of User u \<Rightarrow> Some u | _ \<Rightarrow> None), av_verb = verb, av_field = field,
       av_old_value = stringify old, av_new_value = stringify new, av_comment_id = comment\<rparr>]\<rparr>"

subsection \<open>Reading\<close>

definition item_get :: "subject \<Rightarrow> uuid \<Rightarrow> projects_db \<Rightarrow> item_row option" where
  "item_get auth i db = find (\<lambda>x. wi_id x = i \<and> wi_deleted_at x = None \<and> joins_visible auth db (wi_project_id x)) (pd_items db)"

definition live_targets :: "uuid \<Rightarrow> edge_row list \<Rightarrow> uuid list" where
  "live_targets i es = map ed_target (filter (\<lambda>e. ed_item e = i \<and> ed_deleted_at e = None) es)"

definition get_assignee_ids :: "uuid \<Rightarrow> projects_db \<Rightarrow> uuid list" where
  "get_assignee_ids i db = live_targets i (pd_assignees db)"

definition get_label_ids :: "uuid \<Rightarrow> projects_db \<Rightarrow> uuid list" where
  "get_label_ids i db = live_targets i (pd_item_labels db)"

text \<open>The filters of \<open>list_items\<close>; sorting and pages are those of every listing.\<close>

definition item_list_filter ::
  "subject \<Rightarrow> uuid list option \<Rightarrow> uuid list option \<Rightarrow> uuid option \<Rightarrow> bool \<Rightarrow> bool \<Rightarrow> projects_db \<Rightarrow> item_row list" where
  "item_list_filter auth project_ids state_ids parent_id include_archived include_drafts db =
     filter (\<lambda>x. wi_deleted_at x = None \<and> joins_visible auth db (wi_project_id x) \<and>
       (case project_ids of None \<Rightarrow> True | Some ps \<Rightarrow> wi_project_id x \<in> set ps) \<and>
       (case state_ids of None \<Rightarrow> True | Some ss \<Rightarrow> wi_cols x ''state_id'' \<in> set (map JStr ss)) \<and>
       (case parent_id of None \<Rightarrow> True | Some i \<Rightarrow> wi_cols x ''parent_id'' = JStr i) \<and>
       (include_archived \<or> wi_archived_at x = None) \<and>
       (include_drafts \<or> wi_cols x ''is_draft'' = JBool False)) (pd_items db)"

text \<open>\<open>MAX(sequence_number) + 1\<close> over all items of the project, deleted ones too.\<close>

definition next_sequence_number :: "uuid \<Rightarrow> projects_db \<Rightarrow> int" where
  "next_sequence_number pid db = foldl max 0
     (map wi_sequence_number (filter (\<lambda>x. wi_project_id x = pid) (pd_items db))) + 1"

subsection \<open>Checks\<close>

definition verify_state :: "uuid \<Rightarrow> uuid \<Rightarrow> projects_db \<Rightarrow> project_error + unit" where
  "verify_state pid i db =
     (if list_ex (\<lambda>x. st_id x = i \<and> st_project_id x = pid \<and> st_deleted_at x = None) (pd_states db)
      then Inr () else Inl (BadRequest ''State does not belong to this project.''))"

definition verify_parent :: "uuid \<Rightarrow> uuid \<Rightarrow> projects_db \<Rightarrow> project_error + unit" where
  "verify_parent pid i db =
     (if list_ex (\<lambda>x. wi_id x = i \<and> wi_project_id x = pid \<and> wi_deleted_at x = None) (pd_items db)
      then Inr () else Inl (BadRequest ''Parent work item does not belong to this project.''))"

definition verify_labels :: "uuid \<Rightarrow> uuid list \<Rightarrow> projects_db \<Rightarrow> project_error + unit" where
  "verify_labels pid ids db =
     (if list_all (\<lambda>i. list_ex (\<lambda>x. lb_id x = i \<and> lb_project_id x = pid \<and> lb_deleted_at x = None) (pd_labels db)) ids
      then Inr () else Inl (BadRequest ''One or more labels do not belong to this project.''))"

definition verify_assignees :: "uuid \<Rightarrow> uuid list \<Rightarrow> projects_db \<Rightarrow> project_error + unit" where
  "verify_assignees w ids db = (if list_all (\<lambda>i. w \<in> workspaces_of i db) ids
      then Inr () else Inl (BadRequest ''One or more assignees are not workspace members.''))"

subsection \<open>Reconciling assignees and labels\<close>

text \<open>The unique constraint on item and target covers deleted rows too.\<close>

definition insert_edges :: "uuid \<Rightarrow> uuid list \<Rightarrow> edge_row list \<Rightarrow> project_error + edge_row list" where
  "insert_edges i ts es =
     (if list_ex (\<lambda>e. ed_item e = i \<and> ed_target e \<in> set ts) es then db_failure
      else Inr (es @ map (\<lambda>t. \<lparr>ed_item = i, ed_target = t, ed_deleted_at = None\<rparr>) ts))"

definition reconcile :: "int \<Rightarrow> uuid \<Rightarrow> uuid list \<Rightarrow> edge_row list \<Rightarrow> project_error + edge_row list" where
  "reconcile now i targets es =
     (let existing = live_targets i es
      in insert_edges i (filter (\<lambda>t. t \<notin> set existing) (remdups targets))
           (map (\<lambda>e. if ed_item e = i \<and> ed_deleted_at e = None \<and> ed_target e \<notin> set targets
                     then e\<lparr>ed_deleted_at := Some now\<rparr> else e) es))"

definition reconcile_assignees :: "int \<Rightarrow> uuid \<Rightarrow> uuid list \<Rightarrow> projects_db \<Rightarrow> unit project_result" where
  "reconcile_assignees now i targets db = bind_sum (reconcile now i targets (pd_assignees db))
     (\<lambda>es. Inr ((), db\<lparr>pd_assignees := es\<rparr>))"

definition reconcile_labels :: "int \<Rightarrow> uuid \<Rightarrow> uuid list \<Rightarrow> projects_db \<Rightarrow> unit project_result" where
  "reconcile_labels now i targets db = bind_sum (reconcile now i targets (pd_item_labels db))
     (\<lambda>es. Inr ((), db\<lparr>pd_item_labels := es\<rparr>))"

subsection \<open>Creating\<close>

record item_create =
  wc_project_id :: uuid
  wc_state_id :: uuid
  wc_parent_id :: "uuid option"
  wc_label_ids :: "uuid list"
  wc_assignee_ids :: "uuid list"
  wc_data :: columns

text \<open>
  The attributes of the class \<open>WorkItem\<close>, and the constructor of a declarative class: a keyword
  that is no attribute of the class is a \<open>TypeError\<close>.
\<close>

definition WORK_ITEM_ATTRIBUTES :: "string list" where
  "WORK_ITEM_ATTRIBUTES = [''id'', ''created_at'', ''modified_at'', ''deleted_at'', ''project_id'', ''sequence_number'',
     ''name'', ''description_json'', ''description_html'', ''description_binary'', ''priority'', ''state_id'',
     ''parent_id'', ''start_date'', ''target_date'', ''completed_at'', ''sort_order'', ''is_draft'', ''archived_at'',
     ''project'', ''state'']"

definition new_work_item :: "(string \<times> json) list \<Rightarrow> project_error + columns" where
  "new_work_item kwargs = (if list_all (\<lambda>(k, v). k \<in> set WORK_ITEM_ATTRIBUTES) kwargs
     then Inr (apply_columns kwargs no_columns) else Inl (Project_Raised TypeError))"

definition item_kwargs :: "project_row \<Rightarrow> int \<Rightarrow> item_create \<Rightarrow> (string \<times> json) list" where
  "item_kwargs p sequence data = [(''project_id'', JStr (pj_id p)), (''sequence_number'', JInt sequence),
     (''name'', wc_data data ''name''), (''description_json'', wc_data data ''description_json''),
     (''description_html'', wc_data data ''description_html''), (''priority'', wc_data data ''priority''),
     (''state_id'', JStr (wc_state_id data)), (''estimate_point_id'', wc_data data ''estimate_point_id''),
     (''parent_id'', case wc_parent_id data of None \<Rightarrow> JNull | Some i \<Rightarrow> JStr i),
     (''start_date'', wc_data data ''start_date''), (''target_date'', wc_data data ''target_date''),
     (''sort_order'', if wc_data data ''sort_order'' \<noteq> JNull then wc_data data ''sort_order'' else JFloat ''65535.0''),
     (''is_draft'', wc_data data ''is_draft'')]"

definition insert_item :: "item_row \<Rightarrow> projects_db \<Rightarrow> unit project_result" where
  "insert_item x db =
     (if list_ex (\<lambda>y. wi_project_id y = wi_project_id x \<and> wi_sequence_number y = wi_sequence_number x) (pd_items db)
      then db_failure else Inr ((), db\<lparr>pd_items := pd_items db @ [x]\<rparr>))"

definition item_checks :: "project_row \<Rightarrow> item_create \<Rightarrow> projects_db \<Rightarrow> project_error + unit" where
  "item_checks p data db =
     bind_sum (verify_state (pj_id p) (wc_state_id data) db) (\<lambda>_.
     bind_sum (case wc_parent_id data of None \<Rightarrow> Inr () | Some i \<Rightarrow> verify_parent (pj_id p) i db) (\<lambda>_.
     bind_sum (if wc_label_ids data \<noteq> [] then verify_labels (pj_id p) (wc_label_ids data) db else Inr ()) (\<lambda>_.
     if wc_assignee_ids data \<noteq> [] then verify_assignees (pj_workspace_id p) (wc_assignee_ids data) db else Inr ())))"

definition item_create_action :: "subject \<Rightarrow> item_create \<Rightarrow> uuid \<Rightarrow> projects_db \<Rightarrow> item_row project_result" where
  "item_create_action auth data new_id db =
     bind_sum (ensure_member auth (wc_project_id data) db) (\<lambda>p.
     bind_sum (item_checks p data db) (\<lambda>_.
       let sequence = next_sequence_number (pj_id p) db
       in bind_sum (new_work_item (item_kwargs p sequence data)) (\<lambda>cols.
          let x = \<lparr>wi_id = new_id, wi_project_id = pj_id p, wi_sequence_number = sequence, wi_cols = cols,
                   wi_archived_at = None, wi_deleted_at = None\<rparr>
          in bind_sum (insert_item x db) (\<lambda>(_, db1).
             bind_sum (insert_edges new_id (remdups (wc_assignee_ids data)) (pd_assignees db1)) (\<lambda>as.
             bind_sum (insert_edges new_id (remdups (wc_label_ids data)) (pd_item_labels db1)) (\<lambda>ls.
               Inr (x, emit_activity new_id auth Verb_Created None JNull JNull None
                 (db1\<lparr>pd_assignees := as, pd_item_labels := ls\<rparr>))))))))"

subsection \<open>Updating and deleting\<close>

text \<open>The fields that were set, without assignees and labels; the key \<open>estimate_point_id\<close> is no column.\<close>

record item_update =
  wu_fields :: "(string \<times> json) list"
  wu_assignee_ids :: "uuid list option"
  wu_label_ids :: "uuid list option"

definition field_value :: "string \<Rightarrow> (string \<times> json) list \<Rightarrow> json" where
  "field_value k upd = (case map_of upd k of None \<Rightarrow> JNull | Some v \<Rightarrow> v)"

definition change_item :: "uuid \<Rightarrow> (item_row \<Rightarrow> item_row) \<Rightarrow> projects_db \<Rightarrow> projects_db" where
  "change_item i g db = db\<lparr>pd_items := map (\<lambda>x. if wi_id x = i then g x else x) (pd_items db)\<rparr>"

definition ITEM_REQUIRED :: "string list" where
  "ITEM_REQUIRED = [''name'', ''priority'', ''state_id'', ''sort_order'', ''is_draft'']"

definition write_fields :: "item_row \<Rightarrow> (string \<times> json) list \<Rightarrow> projects_db \<Rightarrow> unit project_result" where
  "write_fields x upd db = (if nulls_required ITEM_REQUIRED upd then db_failure
     else Inr ((), change_item (wi_id x) (\<lambda>y. y\<lparr>wi_cols :=
       apply_columns (filter (\<lambda>(k, v). k \<in> set WORK_ITEM_ATTRIBUTES) upd) (wi_cols y)\<rparr>) db))"

definition update_checks :: "project_row \<Rightarrow> item_row \<Rightarrow> item_update \<Rightarrow> projects_db \<Rightarrow> project_error + unit" where
  "update_checks p x data db =
     bind_sum (case field_value ''state_id'' (wu_fields data) of
         JStr i \<Rightarrow> verify_state (pj_id p) i db | _ \<Rightarrow> Inr ()) (\<lambda>_.
       case field_value ''parent_id'' (wu_fields data) of
         JStr i \<Rightarrow> if i = wi_id x then Inl (BadRequest ''A work item cannot be its own parent.'')
                   else verify_parent (pj_id p) i db
       | _ \<Rightarrow> Inr ())"

text \<open>A set, non-null field that differs from the old value leaves an activity.\<close>

definition emit_change ::
  "subject \<Rightarrow> uuid \<Rightarrow> activity_verb \<Rightarrow> string \<Rightarrow> json \<Rightarrow> json \<Rightarrow> projects_db \<Rightarrow> projects_db" where
  "emit_change auth i verb field old new db =
     (if new \<noteq> JNull \<and> new \<noteq> old then emit_activity i auth verb (Some field) old new None db else db)"

definition update_fields :: "item_row \<Rightarrow> item_update \<Rightarrow> projects_db \<Rightarrow> unit project_result" where
  "update_fields x data db = (if wu_fields data \<noteq> [] then write_fields x (wu_fields data) db else Inr ((), db))"

definition update_assignees :: "int \<Rightarrow> project_row \<Rightarrow> item_row \<Rightarrow> item_update \<Rightarrow> projects_db \<Rightarrow> unit project_result" where
  "update_assignees now p x data db = (case wu_assignee_ids data of
       None \<Rightarrow> Inr ((), db)
     | Some us \<Rightarrow> bind_sum (if us \<noteq> [] then verify_assignees (pj_workspace_id p) us db else Inr ())
         (\<lambda>_. reconcile_assignees now (wi_id x) us db))"

definition update_labels :: "int \<Rightarrow> project_row \<Rightarrow> item_row \<Rightarrow> item_update \<Rightarrow> projects_db \<Rightarrow> unit project_result" where
  "update_labels now p x data db = (case wu_label_ids data of
       None \<Rightarrow> Inr ((), db)
     | Some ls \<Rightarrow> bind_sum (if ls \<noteq> [] then verify_labels (pj_id p) ls db else Inr ())
         (\<lambda>_. reconcile_labels now (wi_id x) ls db))"

definition item_update_action :: "int \<Rightarrow> subject \<Rightarrow> item_row \<Rightarrow> item_update \<Rightarrow> projects_db \<Rightarrow> unit project_result" where
  "item_update_action now auth x data db =
     bind_sum (ensure_member auth (wi_project_id x) db) (\<lambda>p.
     bind_sum (update_checks p x data db) (\<lambda>_.
     bind_sum (update_fields x data db) (\<lambda>(_, db1).
     bind_sum (update_assignees now p x data db1) (\<lambda>(_, db2).
     bind_sum (update_labels now p x data db2) (\<lambda>(_, db3).
       Inr ((), emit_change auth (wi_id x) Verb_Priority_Changed ''priority'' (wi_cols x ''priority'')
           (field_value ''priority'' (wu_fields data))
         (emit_change auth (wi_id x) Verb_State_Changed ''state_id'' (wi_cols x ''state_id'')
           (field_value ''state_id'' (wu_fields data)) db3)))))))"

definition item_delete_action :: "int \<Rightarrow> subject \<Rightarrow> item_row \<Rightarrow> projects_db \<Rightarrow> unit project_result" where
  "item_delete_action now auth x db = bind_sum (ensure_member auth (wi_project_id x) db) (\<lambda>_.
     Inr ((), change_item (wi_id x) (\<lambda>y. y\<lparr>wi_deleted_at := Some now\<rparr>) db))"

subsection \<open>Comments\<close>

definition comment_get :: "subject \<Rightarrow> uuid \<Rightarrow> projects_db \<Rightarrow> comment_row option" where
  "comment_get auth i db = find (\<lambda>c. cm_id c = i \<and> cm_deleted_at c = None \<and>
     list_ex (\<lambda>x. wi_id x = cm_item c \<and> joins_visible auth db (wi_project_id x)) (pd_items db)) (pd_comments db)"

definition ensure_item_role ::
  "subject \<Rightarrow> uuid \<Rightarrow> member_role \<Rightarrow> projects_db \<Rightarrow> project_error + project_row" where
  "ensure_item_role auth i minimum db = (case item_get auth i db of
       None \<Rightarrow> Inl (ResourceNotFound ''Work item not found.'')
     | Some x \<Rightarrow> ensure_role auth (wi_project_id x) minimum db)"

fun resolve_actor_id :: "subject \<Rightarrow> uuid \<Rightarrow> uuid" where
  "resolve_actor_id (User u) owner = u"
| "resolve_actor_id _ owner = owner"

definition comment_create_action ::
  "subject \<Rightarrow> uuid \<Rightarrow> columns \<Rightarrow> uuid \<Rightarrow> projects_db \<Rightarrow> comment_row project_result" where
  "comment_create_action auth item cols new_id db = bind_sum (ensure_item_role auth item Role_Member db) (\<lambda>p.
     let c = \<lparr>cm_id = new_id, cm_item = item, cm_actor_id = resolve_actor_id auth (pj_owner_id p), cm_cols = cols,
              cm_deleted_at = None\<rparr>
     in if cm_actor_id c \<notin> set (pd_users db) then db_failure
        else Inr (c, emit_activity item auth Verb_Comment_Added None JNull JNull (Some new_id)
               (db\<lparr>pd_comments := pd_comments db @ [c]\<rparr>)))"

fun require_author_or_admin :: "subject \<Rightarrow> comment_row \<Rightarrow> projects_db \<Rightarrow> project_error + unit" where
  "require_author_or_admin (Workspace w) c db =
     bind_sum (ensure_item_role (Workspace w) (cm_item c) Role_Admin db) (\<lambda>_. Inr ())"
| "require_author_or_admin (User u) c db = (if u = cm_actor_id c then Inr ()
     else bind_sum (ensure_item_role (User u) (cm_item c) Role_Admin db) (\<lambda>_. Inr ()))"
| "require_author_or_admin _ c db = Inl (NotPermitted ''Unsupported auth subject.'')"

definition change_comment :: "uuid \<Rightarrow> (comment_row \<Rightarrow> comment_row) \<Rightarrow> projects_db \<Rightarrow> projects_db" where
  "change_comment i g db = db\<lparr>pd_comments := map (\<lambda>c. if cm_id c = i then g c else c) (pd_comments db)\<rparr>"

definition comment_update_action ::
  "subject \<Rightarrow> comment_row \<Rightarrow> (string \<times> json) list \<Rightarrow> projects_db \<Rightarrow> unit project_result" where
  "comment_update_action auth c upd db = bind_sum (require_author_or_admin auth c db) (\<lambda>_.
     if nulls_required [''body_html''] upd then db_failure
     else Inr ((), change_comment (cm_id c) (\<lambda>d. d\<lparr>cm_cols := apply_columns upd (cm_cols d)\<rparr>) db))"

definition comment_delete_action :: "int \<Rightarrow> subject \<Rightarrow> comment_row \<Rightarrow> projects_db \<Rightarrow> unit project_result" where
  "comment_delete_action now auth c db = bind_sum (require_author_or_admin auth c db) (\<lambda>_.
     Inr ((), change_comment (cm_id c) (\<lambda>d. d\<lparr>cm_deleted_at := Some now\<rparr>) db))"

subsection \<open>The writing routes\<close>

datatype project_request =
    Create_Project uuid project_create uuid
  | Update_Project uuid "(string \<times> json) list"
  | Archive_Project uuid
  | Unarchive_Project uuid
  | Delete_Project uuid
  | Create_State uuid columns uuid
  | Update_State uuid "(string \<times> json) list"
  | Delete_State uuid
  | Create_Label uuid columns uuid
  | Update_Label uuid "(string \<times> json) list"
  | Delete_Label uuid
  | Create_Item item_create uuid
  | Update_Item uuid item_update
  | Delete_Item uuid
  | Create_Comment uuid columns uuid
  | Update_Comment uuid "(string \<times> json) list"
  | Delete_Comment uuid

text \<open>A route that changes a row looks it up among the readable ones: 404 when it is not there.\<close>

definition route_found :: "'a option \<Rightarrow> ('a \<Rightarrow> unit project_result) \<Rightarrow> unit project_result" where
  "route_found row act = (case row of None \<Rightarrow> Inl (ResourceNotFound ''Not found'') | Some x \<Rightarrow> act x)"

definition route_made :: "'a project_result \<Rightarrow> unit project_result" where
  "route_made r = bind_sum r (\<lambda>(_, db). Inr ((), db))"

fun project_route :: "int \<Rightarrow> subject \<Rightarrow> project_request \<Rightarrow> projects_db \<Rightarrow> unit project_result" where
  "project_route now auth (Create_Project w data i) db = route_made (project_create_action auth w data i db)"
| "project_route now auth (Update_Project i upd) db = route_found (project_get auth i db) (\<lambda>p. project_update_action auth p upd db)"
| "project_route now auth (Archive_Project i) db = route_found (project_get auth i db) (\<lambda>p. project_archive_action now auth p db)"
| "project_route now auth (Unarchive_Project i) db = route_found (project_get auth i db) (\<lambda>p. project_unarchive_action auth p db)"
| "project_route now auth (Delete_Project i) db = route_found (project_get auth i db) (\<lambda>p. project_delete_action now auth p db)"
| "project_route now auth (Create_State pid cols i) db = route_made (state_create_action auth pid cols i db)"
| "project_route now auth (Update_State i upd) db = route_found (state_get auth i db) (\<lambda>x. state_update_action auth x upd db)"
| "project_route now auth (Delete_State i) db = route_found (state_get auth i db) (\<lambda>x. state_delete_action now auth x db)"
| "project_route now auth (Create_Label pid cols i) db = route_made (label_create_action auth pid cols i db)"
| "project_route now auth (Update_Label i upd) db = route_found (label_get auth i db) (\<lambda>x. label_update_action auth x upd db)"
| "project_route now auth (Delete_Label i) db = route_found (label_get auth i db) (\<lambda>x. label_delete_action now auth x db)"
| "project_route now auth (Create_Item data i) db = route_made (item_create_action auth data i db)"
| "project_route now auth (Update_Item i data) db = route_found (item_get auth i db) (\<lambda>x. item_update_action now auth x data db)"
| "project_route now auth (Delete_Item i) db = route_found (item_get auth i db) (\<lambda>x. item_delete_action now auth x db)"
| "project_route now auth (Create_Comment item cols i) db = route_made (comment_create_action auth item cols i db)"
| "project_route now auth (Update_Comment i upd) db = route_found (comment_get auth i db) (\<lambda>c. comment_update_action auth c upd db)"
| "project_route now auth (Delete_Comment i) db = route_found (comment_get auth i db) (\<lambda>c. comment_delete_action now auth c db)"

end
