(* ===== verification/Project_Properties.thy ===== *)
theory Project_Properties
  imports Work_Items
begin

section \<open>What the project services guarantee\<close>

text \<open>
  Who can change a project, what a creation needs, what an update makes of assignees and labels,
  and why no work item is ever created.
\<close>

subsection \<open>Results\<close>

lemma db_failure_neq [simp]: "db_failure \<noteq> Inr x" "isl db_failure"
  by (simp_all add: db_failure_def)

lemma find_Some: "find P xs = Some x \<Longrightarrow> x \<in> set xs \<and> P x"
  by (induction xs) (auto split: if_splits)

lemma find_last: "\<forall>x \<in> set xs. \<not> P x \<Longrightarrow> P y \<Longrightarrow> find P (xs @ [y]) = Some y"
  by (induction xs) auto

subsection \<open>Creating work items\<close>

lemma estimate_point_refused: "new_work_item (item_kwargs p n data) = Inl (Project_Raised TypeError)"
  by (simp add: new_work_item_def item_kwargs_def WORK_ITEM_ATTRIBUTES_def)

text \<open>
  no work item is ever created. Whoever asks, with whatever data, the request fails:
  with the error of the access check or of the checks of state, parent, labels and assignees,
  and when all of them pass with a \<open>TypeError\<close>, because the constructor is given
  \<open>estimate_point_id\<close>, a column the class no longer has.
\<close>

theorem work_item_creation_fails:
  "item_create_action auth data i db =
    (case ensure_member auth (wc_project_id data) db of
       Inl e \<Rightarrow> Inl e
     | Inr p \<Rightarrow> (case item_checks p data db of Inl e \<Rightarrow> Inl e | Inr _ \<Rightarrow> Inl (Project_Raised TypeError)))"
  by (simp add: item_create_action_def bind_sum_def estimate_point_refused Let_def split: sum.splits)

subsection \<open>Creating projects\<close>

definition same_key :: "uuid \<Rightarrow> project_create \<Rightarrow> project_row \<Rightarrow> bool" where
  "same_key w data q = (pj_workspace_id q = w \<and> (pj_identifier q = pc_identifier data \<or> pj_slug q = pc_slug data))"

lemma live_project_same:
  assumes "\<forall>q \<in> set (pd_projects db). \<not> same_key w data q"
  shows "\<not> live_project w (\<lambda>p. pj_identifier p = pc_identifier data) db"
    and "\<not> live_project w (\<lambda>p. pj_slug p = pc_slug data) db"
  using assms by (auto simp: live_project_def list_ex_iff same_key_def)

lemma create_needs:
  assumes "project_create_action auth w data i db = Inr r"
  shows "\<forall>q \<in> set (pd_projects db). \<not> same_key w data q" and "\<exists>o'. project_owner auth w db = Inr o' \<and> o' \<in> set (pd_users db)"
  using assms
  by (auto simp: project_create_action_def bind_sum_Inr_iff Let_def insert_project_def list_ex_iff same_key_def
      split: if_splits)

lemma create_user:
  assumes "project_owner (User u) w db = Inr u" "\<forall>q \<in> set (pd_projects db). \<not> same_key w data q" "u \<in> set (pd_users db)"
    and "\<forall>m \<in> set (pd_members db). pm_project_id m \<noteq> i"
  shows "\<exists>p db'. project_create_action (User u) w data i db = Inr (p, db') \<and> pj_id p = i \<and>
    pd_projects db' = pd_projects db @ [p] \<and> get_member_role i u db' = Some Role_Admin"
proof -
  let ?p = "\<lparr>pj_id = i, pj_workspace_id = w, pj_owner_id = u, pj_identifier = pc_identifier data,
                   pj_slug = pc_slug data, pj_cols = pc_cols data, pj_archived_at = None, pj_deleted_at = None\<rparr>"
  let ?m = "\<lparr>pm_project_id = i, pm_user_id = u, pm_role = Role_Admin, pm_deleted_at = None\<rparr>"
  let ?db1 = "db\<lparr>pd_projects := pd_projects db @ [?p]\<rparr>"
  let ?db2 = "?db1\<lparr>pd_members := pd_members ?db1 @ [?m]\<rparr>"
  have ins: "insert_project ?p db = Inr ((), ?db1)"
    using assms(2,3) by (auto simp: insert_project_def list_ex_iff same_key_def)
  have mem: "insert_member ?m ?db1 = Inr ((), ?db2)"
    using assms(4) by (auto simp: insert_member_def list_ex_iff)
  have "project_create_action (User u) w data i db = Inr (?p, ?db2)"
    unfolding project_create_action_def Let_def assms(1) using live_project_same [OF assms(2)]
    by (simp only: bind_sum_def ins mem if_False sum.case prod.case subject.case)
  moreover have "find (\<lambda>m. pm_project_id m = i \<and> pm_user_id m = u \<and> pm_deleted_at m = None) (pd_members db @ [?m]) = Some ?m"
    by (rule find_last) (use assms(4) in auto)
  then have "get_member_role i u ?db2 = Some Role_Admin" by (simp add: get_member_role_def)
  ultimately show ?thesis by (intro exI [of _ ?p] exI [of _ ?db2]) simp
qed

text \<open>
  What creating a project needs. A member of the workspace succeeds exactly when no
  project of it, deleted or not, has the identifier or the slug, and is then an administrator of
  the new project. The token of a workspace, which would own the project, never succeeds: the
  owner has to be a user.
\<close>

theorem project_creation_exact:
  assumes "\<forall>m \<in> set (pd_members db). pm_project_id m \<noteq> i" and "u \<in> set (pd_users db)" "v \<notin> set (pd_users db)"
  shows "isl (project_create_action (Workspace v) w data i db) \<and>
    (if project_owner (User u) w db = Inr u \<and> (\<forall>q \<in> set (pd_projects db). \<not> same_key w data q)
     then \<exists>p db'. project_create_action (User u) w data i db = Inr (p, db') \<and> pj_id p = i \<and>
       pd_projects db' = pd_projects db @ [p] \<and> get_member_role i u db' = Some Role_Admin
     else isl (project_create_action (User u) w data i db))"
proof -
  have "isl (project_create_action (Workspace v) w data i db)"
  proof (rule ccontr)
    assume "\<not> isl (project_create_action (Workspace v) w data i db)"
    then obtain r where "project_create_action (Workspace v) w data i db = Inr r"
      by (cases "project_create_action (Workspace v) w data i db") auto
    from create_needs(2) [OF this] assms(3) show False by (auto split: if_splits)
  qed
  moreover have "isl (project_create_action (User u) w data i db)"
    if no: "\<not> (project_owner (User u) w db = Inr u \<and> (\<forall>q \<in> set (pd_projects db). \<not> same_key w data q))"
  proof (rule ccontr)
    assume "\<not> isl (project_create_action (User u) w data i db)"
    then obtain r where "project_create_action (User u) w data i db = Inr r"
      by (cases "project_create_action (User u) w data i db") auto
    from create_needs [OF this] no show False by (auto split: if_splits)
  qed
  ultimately show ?thesis using create_user assms(1,2) by simp
qed

subsection \<open>Who can change a project\<close>

text \<open>Everything that belongs to a project, but for activities and comments.\<close>

definition item_ids :: "uuid \<Rightarrow> projects_db \<Rightarrow> uuid set" where
  "item_ids pid db = set (map wi_id (filter (\<lambda>x. wi_project_id x = pid) (pd_items db)))"

definition project_part :: "uuid \<Rightarrow> projects_db \<Rightarrow>
    project_row list \<times> state_row list \<times> label_row list \<times> item_row list \<times> edge_row list \<times> edge_row list" where
  "project_part pid db =
     (filter (\<lambda>p. pj_id p = pid) (pd_projects db), filter (\<lambda>x. st_project_id x = pid) (pd_states db),
      filter (\<lambda>x. lb_project_id x = pid) (pd_labels db), filter (\<lambda>x. wi_project_id x = pid) (pd_items db),
      filter (\<lambda>e. ed_item e \<in> item_ids pid db) (pd_assignees db),
      filter (\<lambda>e. ed_item e \<in> item_ids pid db) (pd_item_labels db))"

text \<open>What a user needs to change a project: it is live, in a workspace of the user, who is no guest of it.\<close>

definition may_write :: "uuid \<Rightarrow> uuid \<Rightarrow> projects_db \<Rightarrow> bool" where
  "may_write u pid db = (\<exists>p \<in> set (pd_projects db). pj_id p = pid \<and> pj_deleted_at p = None \<and>
     pj_workspace_id p \<in> workspaces_of u db \<and> (\<exists>r. get_member_role pid u db = Some r \<and> r \<noteq> Role_Guest))"

lemma role_floor:
  assumes "require_role (User u) p m db = Inr ()" "m \<noteq> Role_Guest"
  shows "\<exists>r. get_member_role (pj_id p) u db = Some r \<and> r \<noteq> Role_Guest"
proof -
  obtain r where "get_member_role (pj_id p) u db = Some r" "role_satisfies r m"
    using assms(1) by (auto split: option.splits if_splits)
  moreover from this(2) assms(2) have "r \<noteq> Role_Guest" by (cases m; cases r) (simp_all add: role_satisfies_def)
  ultimately show ?thesis by blast
qed

lemma project_get_props:
  assumes "project_get (User u) i db = Some p"
  shows "p \<in> set (pd_projects db)" "pj_id p = i" "pj_deleted_at p = None" "pj_workspace_id p \<in> workspaces_of u db"
  using find_Some [OF assms [unfolded project_get_def]] by auto

lemma got_may_write:
  assumes "project_get (User u) i db = Some p" "require_role (User u) p m db = Inr ()" "m \<noteq> Role_Guest"
  shows "may_write u i db"
  using project_get_props [OF assms(1)] role_floor [OF assms(2,3)] unfolding may_write_def by blast

lemma ensured_may_write: "ensure_member (User u) pid db = Inr p \<Longrightarrow> may_write u pid db"
  by (auto simp: ensure_member_def ensure_role_def bind_sum_Inr_iff intro: got_may_write split: option.splits)

lemma filter_map_key:
  assumes "\<And>x. x \<in> set xs \<Longrightarrow> c x \<Longrightarrow> k (g x) = k x"
    and "\<And>x. x \<in> set xs \<Longrightarrow> c x \<Longrightarrow> k x \<noteq> i"
  shows "filter (\<lambda>x. k x = i) (map (\<lambda>x. if c x then g x else x) xs) = filter (\<lambda>x. k x = i) xs"
  using assms by (induction xs) auto

text \<open>The parts of other projects stay when rows of one project change.\<close>

lemma part_projects:
  "pid \<noteq> i \<Longrightarrow> (\<And>p. pj_id (g p) = pj_id p) \<Longrightarrow> project_part pid (change_project i g db) = project_part pid db"
  by (simp add: project_part_def change_project_def item_ids_def filter_map_key)

lemma part_states:
  assumes "\<And>x. st_project_id (g x) = st_project_id x" "\<forall>x \<in> set (pd_states db). st_id x = i \<longrightarrow> st_project_id x \<noteq> pid"
  shows "project_part pid (change_state i g db) = project_part pid db"
  using assms by (simp add: project_part_def change_state_def item_ids_def filter_map_key)

lemma part_labels:
  assumes "\<And>x. lb_project_id (g x) = lb_project_id x" "\<forall>x \<in> set (pd_labels db). lb_id x = i \<longrightarrow> lb_project_id x \<noteq> pid"
  shows "project_part pid (change_label i g db) = project_part pid db"
  using assms by (simp add: project_part_def change_label_def item_ids_def filter_map_key)

lemma change_item_ids:
  assumes "\<And>x. wi_project_id (g x) = wi_project_id x" "\<And>x. wi_id (g x) = wi_id x"
  shows "item_ids pid (change_item i g db) = item_ids pid db"
proof -
  have "map wi_id (filter (\<lambda>x. wi_project_id x = pid) (map (\<lambda>x. if wi_id x = i then g x else x) xs)) =
      map wi_id (filter (\<lambda>x. wi_project_id x = pid) xs)" for xs
    by (induction xs) (simp_all add: assms)
  then show ?thesis unfolding item_ids_def change_item_def by simp
qed

lemma part_items:
  assumes "\<And>x. wi_project_id (g x) = wi_project_id x" "\<And>x. wi_id (g x) = wi_id x"
    and "\<forall>x \<in> set (pd_items db). wi_id x = i \<longrightarrow> wi_project_id x \<noteq> pid"
  shows "project_part pid (change_item i g db) = project_part pid db"
proof -
  have "filter (\<lambda>x. wi_project_id x = pid) (pd_items (change_item i g db)) = filter (\<lambda>x. wi_project_id x = pid) (pd_items db)"
    unfolding change_item_def using assms(1,3) by (simp add: filter_map_key)
  then show ?thesis
    using change_item_ids [of g pid i db] assms(1,2) by (simp add: project_part_def) (simp add: change_item_def)
qed

lemma reconcile_others:
  assumes "reconcile now i ts es = Inr es'" "i \<notin> I"
  shows "filter (\<lambda>e. ed_item e \<in> I) es' = filter (\<lambda>e. ed_item e \<in> I) es"
proof -
  let ?del = "\<lambda>e. if ed_item e = i \<and> ed_deleted_at e = None \<and> ed_target e \<notin> set ts then e\<lparr>ed_deleted_at := Some now\<rparr> else e"
  obtain new where es': "es' = map ?del es @ map (\<lambda>t. \<lparr>ed_item = i, ed_target = t, ed_deleted_at = None\<rparr>) new"
    using assms(1) by (auto simp: reconcile_def Let_def insert_edges_def split: if_splits)
  have "filter (\<lambda>e. ed_item e \<in> I) (map ?del es) = filter (\<lambda>e. ed_item e \<in> I) es"
    using assms(2) by (induction es) auto
  moreover have "filter (\<lambda>e. ed_item e \<in> I) (map (\<lambda>t. \<lparr>ed_item = i, ed_target = t, ed_deleted_at = None\<rparr>) new) = []"
    using assms(2) by (induction new) auto
  ultimately show ?thesis unfolding es' by simp
qed

lemma part_activities [simp]: "project_part pid (emit_activity i a v f old new c db) = project_part pid db"
  by (simp add: project_part_def item_ids_def emit_activity_def)

lemma part_changes [simp]: "project_part pid (emit_change a i v f old new db) = project_part pid db"
  by (simp add: emit_change_def)

lemma part_comments [simp]:
  "project_part pid (db\<lparr>pd_comments := cs\<rparr>) = project_part pid db"
  "project_part pid (change_comment i g db) = project_part pid db"
  by (simp_all add: project_part_def item_ids_def change_comment_def)

lemma part_item_ids: "project_part pid db = project_part pid db' \<Longrightarrow> item_ids pid db = item_ids pid db'"
  by (simp add: project_part_def item_ids_def)

lemma reconcile_part:
  assumes "i \<notin> item_ids pid db"
  shows "reconcile_assignees now i ts db = Inr ((), db') \<Longrightarrow> project_part pid db' = project_part pid db"
    and "reconcile_labels now i ts db = Inr ((), db') \<Longrightarrow> project_part pid db' = project_part pid db"
  using reconcile_others [OF _ assms]
  by (auto simp: reconcile_assignees_def reconcile_labels_def bind_sum_Inr_iff project_part_def item_ids_def)

lemma write_fields_part:
  assumes "write_fields x upd db = Inr ((), db')" "\<forall>y \<in> set (pd_items db). wi_id y = wi_id x \<longrightarrow> wi_project_id y \<noteq> pid"
  shows "project_part pid db' = project_part pid db"
  using assms part_items [of "\<lambda>y. y\<lparr>wi_cols := apply_columns (filter (\<lambda>(k, v). k \<in> set WORK_ITEM_ATTRIBUTES) upd) (wi_cols y)\<rparr>" db "wi_id x" pid]
  by (auto simp: write_fields_def split: if_splits)

lemma item_update_part:
  assumes "item_update_action now auth x data db = Inr ((), db')"
    and "\<forall>y \<in> set (pd_items db). wi_id y = wi_id x \<longrightarrow> wi_project_id y \<noteq> pid"
  shows "project_part pid db' = project_part pid db"
proof -
  have out: "wi_id x \<notin> item_ids pid db" using assms(2) by (auto simp: item_ids_def)
  obtain p db1 db2 db3 where 1: "update_fields x data db = Inr ((), db1)"
    and 2: "update_assignees now p x data db1 = Inr ((), db2)" and 3: "update_labels now p x data db2 = Inr ((), db3)"
    and 4: "project_part pid db' = project_part pid db3"
    using assms(1) by (auto simp: item_update_action_def bind_sum_Inr_iff)
  have s1: "project_part pid db1 = project_part pid db"
    using 1 write_fields_part [OF _ assms(2)] by (auto simp: update_fields_def split: if_splits)
  have "wi_id x \<notin> item_ids pid db1" using part_item_ids [OF s1] out by simp
  with 2 have s2: "project_part pid db2 = project_part pid db1"
    using reconcile_part(1) by (auto simp: update_assignees_def bind_sum_Inr_iff split: option.splits)
  have "wi_id x \<notin> item_ids pid db2" using part_item_ids [OF s2] part_item_ids [OF s1] out by simp
  with 3 have "project_part pid db3 = project_part pid db2"
    using reconcile_part(2) by (auto simp: update_labels_def bind_sum_Inr_iff split: option.splits)
  with 4 s1 s2 show ?thesis by simp
qed

text \<open>Primary keys.\<close>

definition keys_unique :: "projects_db \<Rightarrow> bool" where
  "keys_unique db = (distinct (map st_id (pd_states db)) \<and> distinct (map lb_id (pd_labels db)) \<and> distinct (map wi_id (pd_items db)))"

lemma same_key_same_row: "distinct (map k xs) \<Longrightarrow> x \<in> set xs \<Longrightarrow> y \<in> set xs \<Longrightarrow> k x = k y \<Longrightarrow> x = y"
  unfolding distinct_map by (blast dest: inj_onD)

lemma project_actions_part:
  assumes "pid \<noteq> pj_id p"
  shows "project_update_action auth p upd db = Inr ((), db') \<Longrightarrow> project_part pid db' = project_part pid db"
    and "project_archive_action now auth p db = Inr ((), db') \<Longrightarrow> project_part pid db' = project_part pid db"
    and "project_unarchive_action auth p db = Inr ((), db') \<Longrightarrow> project_part pid db' = project_part pid db"
    and "project_delete_action now auth p db = Inr ((), db') \<Longrightarrow> project_part pid db' = project_part pid db"
  by (auto simp: project_update_action_def project_archive_action_def project_unarchive_action_def
      project_delete_action_def bind_sum_Inr_iff part_projects [OF assms] split: if_splits)

lemma project_actions_may:
  assumes "project_get (User u) i db = Some p"
  shows "project_update_action (User u) p upd db = Inr r \<Longrightarrow> may_write u i db"
    and "project_archive_action now (User u) p db = Inr r \<Longrightarrow> may_write u i db"
    and "project_unarchive_action (User u) p db = Inr r \<Longrightarrow> may_write u i db"
    and "project_delete_action now (User u) p db = Inr r \<Longrightarrow> may_write u i db"
  by (auto simp: project_update_action_def project_archive_action_def project_unarchive_action_def
      project_delete_action_def bind_sum_Inr_iff intro: got_may_write [OF assms])

lemma create_project_part:
  assumes "project_create_action auth w data i db = Inr (p, db')" "pid \<noteq> i"
  shows "project_part pid db' = project_part pid db"
  using assms
  by (auto simp: project_create_action_def bind_sum_Inr_iff Let_def insert_project_def insert_member_def
      project_part_def item_ids_def split: if_splits subject.splits)

text \<open>Per kind of row: a successful change leaves the other projects alone, and needs the right to write.\<close>

lemma state_actions:
  assumes "state_get auth i db = Some x" "keys_unique db"
  shows "state_update_action auth x upd db = Inr ((), db') \<Longrightarrow>
      (\<exists>p. ensure_member auth (st_project_id x) db = Inr p) \<and> (pid \<noteq> st_project_id x \<longrightarrow> project_part pid db' = project_part pid db)"
    and "state_delete_action now auth x db = Inr ((), db') \<Longrightarrow>
      (\<exists>p. ensure_member auth (st_project_id x) db = Inr p) \<and> (pid \<noteq> st_project_id x \<longrightarrow> project_part pid db' = project_part pid db)"
proof -
  have "x \<in> set (pd_states db)" using find_Some [OF assms(1) [unfolded state_get_def]] by simp
  then have same: "\<forall>y \<in> set (pd_states db). st_id y = st_id x \<longrightarrow> st_project_id y \<noteq> pid" if "pid \<noteq> st_project_id x"
    using assms(2) same_key_same_row [of st_id "pd_states db"] that unfolding keys_unique_def by blast
  show "state_update_action auth x upd db = Inr ((), db') \<Longrightarrow>
      (\<exists>p. ensure_member auth (st_project_id x) db = Inr p) \<and> (pid \<noteq> st_project_id x \<longrightarrow> project_part pid db' = project_part pid db)"
    by (auto simp: state_update_action_def bind_sum_Inr_iff intro: part_states [OF _ same] split: if_splits)
  show "state_delete_action now auth x db = Inr ((), db') \<Longrightarrow>
      (\<exists>p. ensure_member auth (st_project_id x) db = Inr p) \<and> (pid \<noteq> st_project_id x \<longrightarrow> project_part pid db' = project_part pid db)"
    by (auto simp: state_delete_action_def bind_sum_Inr_iff intro: part_states [OF _ same])
qed

lemma label_actions:
  assumes "label_get auth i db = Some x" "keys_unique db"
  shows "label_update_action auth x upd db = Inr ((), db') \<Longrightarrow>
      (\<exists>p. ensure_member auth (lb_project_id x) db = Inr p) \<and> (pid \<noteq> lb_project_id x \<longrightarrow> project_part pid db' = project_part pid db)"
    and "label_delete_action now auth x db = Inr ((), db') \<Longrightarrow>
      (\<exists>p. ensure_member auth (lb_project_id x) db = Inr p) \<and> (pid \<noteq> lb_project_id x \<longrightarrow> project_part pid db' = project_part pid db)"
proof -
  have "x \<in> set (pd_labels db)" using find_Some [OF assms(1) [unfolded label_get_def]] by simp
  then have same: "\<forall>y \<in> set (pd_labels db). lb_id y = lb_id x \<longrightarrow> lb_project_id y \<noteq> pid" if "pid \<noteq> lb_project_id x"
    using assms(2) same_key_same_row [of lb_id "pd_labels db"] that unfolding keys_unique_def by blast
  show "label_update_action auth x upd db = Inr ((), db') \<Longrightarrow>
      (\<exists>p. ensure_member auth (lb_project_id x) db = Inr p) \<and> (pid \<noteq> lb_project_id x \<longrightarrow> project_part pid db' = project_part pid db)"
    by (auto simp: label_update_action_def bind_sum_Inr_iff intro: part_labels [OF _ same] split: if_splits)
  show "label_delete_action now auth x db = Inr ((), db') \<Longrightarrow>
      (\<exists>p. ensure_member auth (lb_project_id x) db = Inr p) \<and> (pid \<noteq> lb_project_id x \<longrightarrow> project_part pid db' = project_part pid db)"
    by (auto simp: label_delete_action_def bind_sum_Inr_iff intro: part_labels [OF _ same])
qed

lemma item_actions:
  assumes "item_get auth i db = Some x" "keys_unique db"
  shows "item_update_action now auth x data db = Inr ((), db') \<Longrightarrow>
      (\<exists>p. ensure_member auth (wi_project_id x) db = Inr p) \<and> (pid \<noteq> wi_project_id x \<longrightarrow> project_part pid db' = project_part pid db)"
    and "item_delete_action now auth x db = Inr ((), db') \<Longrightarrow>
      (\<exists>p. ensure_member auth (wi_project_id x) db = Inr p) \<and> (pid \<noteq> wi_project_id x \<longrightarrow> project_part pid db' = project_part pid db)"
proof -
  have "x \<in> set (pd_items db)" using find_Some [OF assms(1) [unfolded item_get_def]] by simp
  then have same: "\<forall>y \<in> set (pd_items db). wi_id y = wi_id x \<longrightarrow> wi_project_id y \<noteq> pid" if "pid \<noteq> wi_project_id x"
    using assms(2) same_key_same_row [of wi_id "pd_items db"] that unfolding keys_unique_def by blast
  show "(\<exists>p. ensure_member auth (wi_project_id x) db = Inr p) \<and> (pid \<noteq> wi_project_id x \<longrightarrow> project_part pid db' = project_part pid db)"
    if upd: "item_update_action now auth x data db = Inr ((), db')"
    using item_update_part [OF upd same] upd by (auto simp: item_update_action_def bind_sum_Inr_iff)
  show "item_delete_action now auth x db = Inr ((), db') \<Longrightarrow>
      (\<exists>p. ensure_member auth (wi_project_id x) db = Inr p) \<and> (pid \<noteq> wi_project_id x \<longrightarrow> project_part pid db' = project_part pid db)"
    by (auto simp: item_delete_action_def bind_sum_Inr_iff intro: part_items [OF _ _ same])
qed

lemma creations:
  shows "state_create_action auth q cols i db = Inr (x, db') \<Longrightarrow>
      (\<exists>p. ensure_member auth q db = Inr p) \<and> (pid \<noteq> q \<longrightarrow> project_part pid db' = project_part pid db)"
    and "label_create_action auth q cols i db = Inr (y, db') \<Longrightarrow>
      (\<exists>p. ensure_member auth q db = Inr p) \<and> (pid \<noteq> q \<longrightarrow> project_part pid db' = project_part pid db)"
    and "item_create_action auth data i db = Inr r \<Longrightarrow> False"
    and "comment_create_action auth item cols i db = Inr (c, db') \<Longrightarrow> project_part pid db' = project_part pid db"
    and "comment_update_action auth d upd db = Inr ((), db') \<Longrightarrow> project_part pid db' = project_part pid db"
    and "comment_delete_action now auth d db = Inr ((), db') \<Longrightarrow> project_part pid db' = project_part pid db"
  by (auto simp: state_create_action_def label_create_action_def item_create_action_def estimate_point_refused
      comment_create_action_def comment_update_action_def comment_delete_action_def
      bind_sum_Inr_iff Let_def project_part_def item_ids_def emit_activity_def change_comment_def split: if_splits)

lemma route_found_Inr: "route_found row act = Inr r \<longleftrightarrow> (\<exists>x. row = Some x \<and> act x = Inr r)"
  by (cases row) (simp_all add: route_found_def)

lemma route_made_Inr: "route_made r = Inr ((), db') \<longleftrightarrow> (\<exists>x. r = Inr (x, db'))"
  by (auto simp: route_made_def bind_sum_Inr_iff)

definition harmless :: "uuid \<Rightarrow> uuid \<Rightarrow> projects_db \<Rightarrow> projects_db \<Rightarrow> bool" where
  "harmless u pid db db' = (may_write u pid db \<or> project_part pid db' = project_part pid db)"

lemma harmless_project:
  assumes "project_get (User u) i db = Some p" "may_write u i db" "pid \<noteq> pj_id p \<Longrightarrow> project_part pid db' = project_part pid db"
  shows "harmless u pid db db'"
  using assms project_get_props(2) [OF assms(1)] by (auto simp: harmless_def)

lemma harmless_row:
  "(\<exists>p. ensure_member (User u) q db = Inr p) \<and> (pid \<noteq> q \<longrightarrow> project_part pid db' = project_part pid db) \<Longrightarrow> harmless u pid db db'"
  using ensured_may_write by (auto simp: harmless_def)

lemma project_requests:
  assumes "project_get (User u) i db = Some p"
  shows "project_update_action (User u) p upd db = Inr ((), db') \<Longrightarrow> harmless u pid db db'"
    and "project_archive_action now (User u) p db = Inr ((), db') \<Longrightarrow> harmless u pid db db'"
    and "project_unarchive_action (User u) p db = Inr ((), db') \<Longrightarrow> harmless u pid db db'"
    and "project_delete_action now (User u) p db = Inr ((), db') \<Longrightarrow> harmless u pid db db'"
proof -
  show "harmless u pid db db'" if "project_update_action (User u) p upd db = Inr ((), db')"
    by (rule harmless_project [OF assms project_actions_may(1) [OF assms that]]) (rule project_actions_part(1) [OF _ that])
  show "harmless u pid db db'" if "project_archive_action now (User u) p db = Inr ((), db')"
    by (rule harmless_project [OF assms project_actions_may(2) [OF assms that]]) (rule project_actions_part(2) [OF _ that])
  show "harmless u pid db db'" if "project_unarchive_action (User u) p db = Inr ((), db')"
    by (rule harmless_project [OF assms project_actions_may(3) [OF assms that]]) (rule project_actions_part(3) [OF _ that])
  show "harmless u pid db db'" if "project_delete_action now (User u) p db = Inr ((), db')"
    by (rule harmless_project [OF assms project_actions_may(4) [OF assms that]]) (rule project_actions_part(4) [OF _ that])
qed

lemma row_requests:
  assumes "keys_unique db"
  shows "state_get (User u) i db = Some x \<Longrightarrow> state_update_action (User u) x upd db = Inr ((), db') \<Longrightarrow> harmless u pid db db'"
    and "state_get (User u) i db = Some x \<Longrightarrow> state_delete_action now (User u) x db = Inr ((), db') \<Longrightarrow> harmless u pid db db'"
    and "label_get (User u) i db = Some y \<Longrightarrow> label_update_action (User u) y upd db = Inr ((), db') \<Longrightarrow> harmless u pid db db'"
    and "label_get (User u) i db = Some y \<Longrightarrow> label_delete_action now (User u) y db = Inr ((), db') \<Longrightarrow> harmless u pid db db'"
    and "item_get (User u) i db = Some z \<Longrightarrow> item_update_action now (User u) z data db = Inr ((), db') \<Longrightarrow> harmless u pid db db'"
    and "item_get (User u) i db = Some z \<Longrightarrow> item_delete_action now (User u) z db = Inr ((), db') \<Longrightarrow> harmless u pid db db'"
proof -
  show "harmless u pid db db'" if "state_get (User u) i db = Some x" "state_update_action (User u) x upd db = Inr ((), db')"
    by (rule harmless_row [OF state_actions(1) [OF that(1) assms that(2)]])
  show "harmless u pid db db'" if "state_get (User u) i db = Some x" "state_delete_action now (User u) x db = Inr ((), db')"
    by (rule harmless_row [OF state_actions(2) [OF that(1) assms that(2)]])
  show "harmless u pid db db'" if "label_get (User u) i db = Some y" "label_update_action (User u) y upd db = Inr ((), db')"
    by (rule harmless_row [OF label_actions(1) [OF that(1) assms that(2)]])
  show "harmless u pid db db'" if "label_get (User u) i db = Some y" "label_delete_action now (User u) y db = Inr ((), db')"
    by (rule harmless_row [OF label_actions(2) [OF that(1) assms that(2)]])
  show "harmless u pid db db'" if "item_get (User u) i db = Some z" "item_update_action now (User u) z data db = Inr ((), db')"
    by (rule harmless_row [OF item_actions(1) [OF that(1) assms that(2)]])
  show "harmless u pid db db'" if "item_get (User u) i db = Some z" "item_delete_action now (User u) z db = Inr ((), db')"
    by (rule harmless_row [OF item_actions(2) [OF that(1) assms that(2)]])
qed

lemma creation_requests:
  shows "project_create_action auth w pc i db = Inr (p, db') \<Longrightarrow> i \<noteq> pid \<Longrightarrow> harmless u pid db db'"
    and "state_create_action (User u) q cols i db = Inr (x, db') \<Longrightarrow> harmless u pid db db'"
    and "label_create_action (User u) q cols i db = Inr (y, db') \<Longrightarrow> harmless u pid db db'"
    and "item_create_action auth data i db = Inr (z, db') \<Longrightarrow> harmless u pid db db'"
    and "comment_create_action auth item cols i db = Inr (c, db') \<Longrightarrow> harmless u pid db db'"
    and "comment_update_action auth d upd db = Inr ((), db') \<Longrightarrow> harmless u pid db db'"
    and "comment_delete_action now auth d db = Inr ((), db') \<Longrightarrow> harmless u pid db db'"
proof -
  show "harmless u pid db db'" if "project_create_action auth w pc i db = Inr (p, db')" "i \<noteq> pid"
    using create_project_part [OF that(1), of pid] that(2) by (simp add: harmless_def)
  show "harmless u pid db db'" if "state_create_action (User u) q cols i db = Inr (x, db')"
    by (rule harmless_row [OF creations(1) [OF that]])
  show "harmless u pid db db'" if "label_create_action (User u) q cols i db = Inr (y, db')"
    by (rule harmless_row [OF creations(2) [OF that]])
  show "harmless u pid db db'" if "item_create_action auth data i db = Inr (z, db')"
    using creations(3) [OF that] by blast
  show "harmless u pid db db'" if "comment_create_action auth item cols i db = Inr (c, db')"
    using creations(4) [OF that, of pid] by (simp add: harmless_def)
  show "harmless u pid db db'" if "comment_update_action auth d upd db = Inr ((), db')"
    using creations(5) [OF that, of pid] by (simp add: harmless_def)
  show "harmless u pid db db'" if "comment_delete_action now auth d db = Inr ((), db')"
    using creations(6) [OF that, of pid] by (simp add: harmless_def)
qed


subsection \<open>Assignees and labels\<close>

definition was_removed :: "uuid \<Rightarrow> uuid \<Rightarrow> edge_row list \<Rightarrow> bool" where
  "was_removed i t es = (t \<notin> set (live_targets i es) \<and> (\<exists>e \<in> set es. ed_item e = i \<and> ed_target e = t))"

text \<open>What a reconciliation does: it fails when a target to add has a row, else the targets are the live ones.\<close>

lemma live_after_removal:
  "live_targets i (map (\<lambda>e. if ed_item e = i \<and> ed_deleted_at e = None \<and> ed_target e \<notin> T
     then e\<lparr>ed_deleted_at := Some now\<rparr> else e) es) = filter (\<lambda>t. t \<in> T) (live_targets i es)"
  by (induction es) (auto simp: live_targets_def)

lemma live_new:
  "live_targets i (map (\<lambda>t. \<lparr>ed_item = i, ed_target = t, ed_deleted_at = None\<rparr>) ts) = ts"
  by (induction ts) (auto simp: live_targets_def)

lemma reconcile_live:
  assumes "reconcile now i ts es = Inr es'" "distinct (live_targets i es)"
  shows "set (live_targets i es') = set ts" and "distinct (live_targets i es')"
    and "\<forall>t \<in> set ts. \<not> was_removed i t es"
proof -
  let ?del = "\<lambda>e. if ed_item e = i \<and> ed_deleted_at e = None \<and> ed_target e \<notin> set ts then e\<lparr>ed_deleted_at := Some now\<rparr> else e"
  let ?new = "filter (\<lambda>t. t \<notin> set (live_targets i es)) (remdups ts)"
  have es': "es' = map ?del es @ map (\<lambda>t. \<lparr>ed_item = i, ed_target = t, ed_deleted_at = None\<rparr>) ?new"
    and free: "\<not> list_ex (\<lambda>e. ed_item e = i \<and> ed_target e \<in> set ?new) (map ?del es)"
    using assms(1) by (auto simp: reconcile_def Let_def insert_edges_def split: if_splits)
  have live: "live_targets i es' = filter (\<lambda>t. t \<in> set ts) (live_targets i es) @ ?new"
    unfolding es' using live_after_removal [of i "set ts" now es] live_new [of i ?new]
    by (simp add: live_targets_def)
  show "set (live_targets i es') = set ts" unfolding live by auto
  show "distinct (live_targets i es')" unfolding live using assms(2) by auto
  show "\<forall>t \<in> set ts. \<not> was_removed i t es"
  proof (intro ballI notI)
    fix t assume t: "t \<in> set ts" "was_removed i t es"
    then obtain e where e: "e \<in> set es" "ed_item e = i" "ed_target e = t" "t \<notin> set (live_targets i es)"
      by (auto simp: was_removed_def)
    then have "?del e \<in> set (map ?del es)" "ed_item (?del e) = i" "ed_target (?del e) \<in> set ?new"
      using t(1) by auto
    with free show False unfolding list_ex_iff by blast
  qed
qed

text \<open>The tables of associations along an update.\<close>

lemma update_edges:
  assumes "item_update_action now auth x data db = Inr ((), db')"
  shows "(case wu_assignee_ids data of None \<Rightarrow> pd_assignees db' = pd_assignees db
      | Some us \<Rightarrow> reconcile now (wi_id x) us (pd_assignees db) = Inr (pd_assignees db'))"
    and "(case wu_label_ids data of None \<Rightarrow> pd_item_labels db' = pd_item_labels db
      | Some ls \<Rightarrow> reconcile now (wi_id x) ls (pd_item_labels db) = Inr (pd_item_labels db'))"
proof -
  obtain p db1 db2 db3 where 1: "update_fields x data db = Inr ((), db1)"
    and 2: "update_assignees now p x data db1 = Inr ((), db2)" and 3: "update_labels now p x data db2 = Inr ((), db3)"
    and 4: "pd_assignees db' = pd_assignees db3" "pd_item_labels db' = pd_item_labels db3"
    using assms by (auto simp: item_update_action_def bind_sum_Inr_iff emit_change_def emit_activity_def)
  from 1 have f: "pd_assignees db1 = pd_assignees db" "pd_item_labels db1 = pd_item_labels db"
    by (auto simp: update_fields_def write_fields_def change_item_def split: if_splits)
  have a: "pd_item_labels db2 = pd_item_labels db1" and l: "pd_assignees db3 = pd_assignees db2"
    using 2 3 by (auto simp: update_assignees_def update_labels_def bind_sum_Inr_iff reconcile_assignees_def
        reconcile_labels_def split: option.splits)
  show "(case wu_assignee_ids data of None \<Rightarrow> pd_assignees db' = pd_assignees db
      | Some us \<Rightarrow> reconcile now (wi_id x) us (pd_assignees db) = Inr (pd_assignees db'))"
    using 2 unfolding 4 l f(1) [symmetric]
    by (auto simp: update_assignees_def bind_sum_Inr_iff reconcile_assignees_def split: option.splits)
  show "(case wu_label_ids data of None \<Rightarrow> pd_item_labels db' = pd_item_labels db
      | Some ls \<Rightarrow> reconcile now (wi_id x) ls (pd_item_labels db) = Inr (pd_item_labels db'))"
    using 3 unfolding 4 f(2) [symmetric] a [symmetric]
    by (auto simp: update_labels_def bind_sum_Inr_iff reconcile_labels_def split: option.splits)
qed

text \<open>
  Property C35: what an update makes of the assignees. When an update of a work item that names
  assignees succeeds, exactly those are assigned, each once, and the assignees of other items are
  as before. It cannot succeed when it brings back somebody who was assigned before and removed:
  the row of the removed assignment still occupies the unique key.
\<close>

theorem assignees_reconciled:
  assumes "item_update_action now auth x data db = Inr ((), db')" "wu_assignee_ids data = Some us"
    and "distinct (get_assignee_ids (wi_id x) db)"
  shows "set (get_assignee_ids (wi_id x) db') = set us \<and> distinct (get_assignee_ids (wi_id x) db') \<and>
    (\<forall>j. j \<noteq> wi_id x \<longrightarrow> get_assignee_ids j db' = get_assignee_ids j db) \<and>
    (\<forall>u \<in> set us. \<not> was_removed (wi_id x) u (pd_assignees db))"
proof -
  have r: "reconcile now (wi_id x) us (pd_assignees db) = Inr (pd_assignees db')"
    using update_edges(1) [OF assms(1)] assms(2) by simp
  have "get_assignee_ids j db' = get_assignee_ids j db" if "j \<noteq> wi_id x" for j
  proof -
    have "filter (\<lambda>e. ed_item e \<in> {j}) (pd_assignees db') = filter (\<lambda>e. ed_item e \<in> {j}) (pd_assignees db)"
      by (rule reconcile_others [OF r]) (use that in simp)
    then have eq: "filter (\<lambda>e. ed_item e = j) (pd_assignees db') = filter (\<lambda>e. ed_item e = j) (pd_assignees db)"
      by simp
    have two: "filter (\<lambda>e. ed_item e = j \<and> ed_deleted_at e = None) es =
        filter (\<lambda>e. ed_deleted_at e = None) (filter (\<lambda>e. ed_item e = j) es)" for es
      by (simp add: conj_commute)
    show ?thesis unfolding get_assignee_ids_def live_targets_def two eq by (rule refl)
  qed
  then show ?thesis
    using reconcile_live [OF r] assms(3) by (simp add: get_assignee_ids_def)
qed

subsection \<open>Concrete runs\<close>

definition sample_project :: project_row where
  "sample_project = \<lparr>pj_id = ''p1'', pj_workspace_id = ''w1'', pj_owner_id = ''ann'', pj_identifier = ''RAP'', pj_slug = ''rap'',
     pj_cols = no_columns, pj_archived_at = None, pj_deleted_at = None\<rparr>"

definition sample_item :: item_row where
  "sample_item = \<lparr>wi_id = ''i1'', wi_project_id = ''p1'', wi_sequence_number = 1, wi_cols = no_columns,
     wi_archived_at = None, wi_deleted_at = None\<rparr>"

definition sample_projects :: projects_db where
  "sample_projects = \<lparr>pd_users = [''ann'', ''bob''], pd_workspaces = [],
     pd_memberships = [\<lparr>m_user_id = ''ann'', m_workspace_id = ''w1'', m_deleted_at = None\<rparr>,
       \<lparr>m_user_id = ''bob'', m_workspace_id = ''w1'', m_deleted_at = None\<rparr>],
     pd_projects = [sample_project],
     pd_members = [\<lparr>pm_project_id = ''p1'', pm_user_id = ''ann'', pm_role = Role_Member, pm_deleted_at = None\<rparr>],
     pd_states = [], pd_labels = [], pd_items = [sample_item],
     pd_assignees = [\<lparr>ed_item = ''i1'', ed_target = ''ann'', ed_deleted_at = None\<rparr>],
     pd_item_labels = [], pd_activities = [], pd_comments = []\<rparr>"

definition sample_update :: item_update where
  "sample_update = \<lparr>wu_fields = [], wu_assignee_ids = Some [''bob''], wu_label_ids = None\<rparr>"

definition updated_projects :: projects_db where
  "updated_projects = sample_projects\<lparr>pd_assignees := [\<lparr>ed_item = ''i1'', ed_target = ''ann'', ed_deleted_at = Some 9\<rparr>,
     \<lparr>ed_item = ''i1'', ed_target = ''bob'', ed_deleted_at = None\<rparr>]\<rparr>"

lemma sample_updated:
  "item_update_action 9 (User ''ann'') sample_item sample_update sample_projects = Inr ((), updated_projects)"
  by (simp del: list.set_map set_filter add: item_update_action_def ensure_member_def ensure_role_def project_get_def get_member_role_def
      role_satisfies_def workspaces_of_def sample_projects_def sample_project_def sample_item_def sample_update_def
      update_checks_def field_value_def update_fields_def update_assignees_def update_labels_def verify_assignees_def
      reconcile_assignees_def reconcile_def insert_edges_def live_targets_def emit_change_def Let_def updated_projects_def)

theorem assignees_reconciled_witness:
  "\<exists>db'. item_update_action 9 (User ''ann'') sample_item sample_update sample_projects = Inr ((), db') \<and>
     set (get_assignee_ids ''i1'' db') = {''bob''}"
proof -
  have us: "wu_assignee_ids sample_update = Some [''bob'']" and i: "wi_id sample_item = ''i1''"
    by (simp_all add: sample_update_def sample_item_def)
  have "distinct (get_assignee_ids (wi_id sample_item) sample_projects)"
    by (simp add: i get_assignee_ids_def live_targets_def sample_projects_def)
  from assignees_reconciled [OF sample_updated us this]
  have "set (get_assignee_ids ''i1'' updated_projects) = {''bob''}" unfolding i by simp
  with sample_updated show ?thesis by blast
qed


theorem project_creation_exact_witness:
  "isl (project_create_action (Workspace ''w1'') ''w1'' \<lparr>pc_identifier = ''NEW'', pc_slug = ''new'', pc_cols = no_columns\<rparr> ''p2'' sample_projects)"
  using project_creation_exact [of sample_projects "''p2''" "''ann''" "''w1''" "''w1''"
      "\<lparr>pc_identifier = ''NEW'', pc_slug = ''new'', pc_cols = no_columns\<rparr>"]
  by (simp add: sample_projects_def)

end
