(* ===== verification/Customers.thy ===== *)
theory Customers
  imports Pg_Tables Tokens
begin

section \<open>Customers of a workspace\<close>

text \<open>
  The package \<open>customers/customer\<close>: creation, update, deletion and anonymisation of customers,
  with the tables that its neighbours \<open>identity/member\<close> and \<open>customers/customer_session\<close> keep. An
  operation answers an error, which rolls the transaction back, or a value with the new tables.
  Ids and the clock are drawn by the caller; the database is reachable. Request bodies are those
  that the schemas let through; addresses are valid and ASCII.
\<close>

subsection \<open>Rows\<close>

datatype customer_type = Individual | Team

record customer =
  cu_id :: uuid
  cu_workspace_id :: uuid
  cu_type :: "customer_type option"
  cu_external_id :: "string option"
  cu_email :: string
  cu_email_verified :: bool
  cu_name :: "string option"
  cu_billing_name :: "string option"
  cu_billing_address :: json
  cu_oauth_accounts :: "(string \<times> json) list"
  cu_user_metadata :: "(string \<times> json) list"
  cu_deleted_at :: "int option"

datatype team_role = Owner | Billing_Manager | Plain_Member

record member =
  mb_id :: uuid
  mb_customer_id :: uuid
  mb_workspace_id :: uuid
  mb_email :: string
  mb_name :: "string option"
  mb_external_id :: "string option"
  mb_role :: team_role
  mb_created_at :: int
  mb_deleted_at :: "int option"

text \<open>A row of \<open>customer_sessions\<close> or of \<open>member_sessions\<close>: \<open>ps_owner\<close> is the customer or the member.\<close>

record portal_session =
  ps_id :: uuid
  ps_owner :: uuid
  ps_token :: string
  ps_return_url :: "string option"
  ps_expires_at :: int
  ps_deleted_at :: "int option"

datatype customer_event = Customer_Created | Customer_Updated | Customer_Deleted

datatype portal_job =
    Webhook_Task customer_event uuid
  | Event_Task customer_event uuid

text \<open>\<open>po_features w f\<close> is \<open>feature_settings.get(f, False)\<close> of the workspace \<open>w\<close>.\<close>

record portal =
  po_workspaces :: "(uuid \<times> int option) list"
  po_features :: "uuid \<Rightarrow> string \<Rightarrow> bool"
  po_memberships :: "membership_row list"
  po_customers :: "customer list"
  po_members :: "member list"
  po_customer_sessions :: "portal_session list"
  po_member_sessions :: "portal_session list"
  po_jobs :: "portal_job list"

datatype portal_error =
    Portal_Raised py_error
  | Invalid_Fields "(string \<times> string) list"
  | Portal_Forbidden string
  | Portal_Not_Found string

type_synonym 'a portal_result = "portal_error + 'a \<times> portal"

text \<open>
  The settings and library functions. \<open>pe_json_tracked\<close>: whether the session notices a change
  inside a JSON value that is assigned to its own column; the documentation of SQLAlchemy says it
  does not for a plain \<open>JSONB\<close> column. \<open>pe_tie\<close> is the order in which the database returns rows
  that compare equal.
\<close>

record portal_env =
  pe_sha256 :: "string \<Rightarrow> string"
  pe_isoformat :: "int \<Rightarrow> string"
  pe_json_tracked :: bool
  pe_tie :: "uuid \<Rightarrow> nat"
  pe_blake2b :: blake2b
  pe_secret :: string

definition db_error :: "portal_error + 'a" where
  "db_error = Inl (Portal_Raised SQLAlchemyError)"

definition select_portal :: "'a list \<Rightarrow> portal_error + 'a option" where
  "select_portal rows = map_sum Portal_Raised id (at_most_one rows)"

subsection \<open>Short ids\<close>

definition CUSTOMER_EPOCH :: int where "CUSTOMER_EPOCH = 1672531200000"

text \<open>The trigger function: milliseconds since 2023 above ten bits of a sequence.\<close>

definition generate_customer_short_id :: "int \<Rightarrow> int \<Rightarrow> int" where
  "generate_customer_short_id now_millis nextval =
     (let seq_id = nextval mod 1024; result = push_bit 10 (now_millis - CUSTOMER_EPOCH) in or result seq_id)"

definition SHORT_ID_WIDTH :: nat where "SHORT_ID_WIDTH = 8"

definition base26_char :: "int \<Rightarrow> char" where
  "base26_char d = char_of (65 + nat d)"

function base26_chars :: "int \<Rightarrow> string" where
  "base26_chars remaining =
     (if 0 < remaining then base26_char (remaining mod 26) # base26_chars (remaining div 26) else [])"
  by auto
termination by (relation "measure nat") auto

declare base26_chars.simps [simp del]

definition short_id_to_base26 :: "int \<Rightarrow> string" where
  "short_id_to_base26 n = (let s = rev (base26_chars n) in replicate (SHORT_ID_WIDTH - length s) (CHR ''A'') @ s)"

subsection \<open>Access\<close>

definition member_workspaces :: "uuid \<Rightarrow> portal \<Rightarrow> uuid set" where
  "member_workspaces u db = set (map m_workspace_id
     (filter (\<lambda>m. m_user_id m = u \<and> m_deleted_at m = None) (po_memberships db)))"

text \<open>The filter of the readable statements on the workspace of a row.\<close>

fun workspace_readable :: "subject \<Rightarrow> portal \<Rightarrow> uuid \<Rightarrow> bool" where
  "workspace_readable (User u) db w = (w \<in> member_workspaces u db)"
| "workspace_readable (Workspace v) db w = (w = v)"
| "workspace_readable _ db w = True"

text \<open>The dependency of the routes lets users and workspaces in.\<close>

fun portal_principal :: "subject \<Rightarrow> portal_error + unit" where
  "portal_principal (User u) = Inr ()"
| "portal_principal (Workspace w) = Inr ()"
| "portal_principal _ = Inl (Portal_Raised (HTTPException 401 ''Unauthorized''))"

text \<open>A user names a workspace of its own, deleted or not; a workspace token names none.\<close>

fun payload_workspace :: "subject \<Rightarrow> uuid option \<Rightarrow> portal \<Rightarrow> portal_error + uuid" where
  "payload_workspace (Workspace v) None db = Inr v"
| "payload_workspace (Workspace v) (Some w) db = Inl (Invalid_Fields [(''workspace_id'', ''disallowed'')])"
| "payload_workspace (User u) None db = Inl (Invalid_Fields [(''workspace_id'', ''required'')])"
| "payload_workspace (User u) (Some w) db =
     (if w \<in> set (map fst (po_workspaces db)) \<and> w \<in> member_workspaces u db then Inr w
      else Inl (Invalid_Fields [(''workspace_id'', ''not found'')]))"
| "payload_workspace _ wid db = Inl (Portal_Raised TypeError)"

subsection \<open>Reads\<close>

definition customer_live :: "customer \<Rightarrow> bool" where
  "customer_live c = (cu_deleted_at c = None)"

definition customer_get :: "subject \<Rightarrow> uuid \<Rightarrow> portal \<Rightarrow> portal_error + customer option" where
  "customer_get auth i db = select_portal (filter (\<lambda>c. customer_live c \<and>
     workspace_readable auth db (cu_workspace_id c) \<and> cu_id c = i) (po_customers db))"

definition customer_get_external :: "subject \<Rightarrow> string \<Rightarrow> portal \<Rightarrow> portal_error + customer option" where
  "customer_get_external auth external_id db = select_portal (filter (\<lambda>c. customer_live c \<and>
     workspace_readable auth db (cu_workspace_id c) \<and> cu_external_id c = Some external_id) (po_customers db))"

definition get_by_email_and_workspace :: "string \<Rightarrow> uuid \<Rightarrow> portal \<Rightarrow> portal_error + customer option" where
  "get_by_email_and_workspace email w db = select_portal (filter (\<lambda>c. customer_live c \<and>
     lower (cu_email c) = lower email \<and> cu_workspace_id c = w) (po_customers db))"

definition get_by_external_id_and_workspace :: "string \<Rightarrow> uuid \<Rightarrow> portal \<Rightarrow> portal_error + customer option" where
  "get_by_external_id_and_workspace external_id w db = select_portal (filter (\<lambda>c. customer_live c \<and>
     cu_external_id c = Some external_id \<and> cu_workspace_id c = w) (po_customers db))"

subsection \<open>Constraints\<close>

text \<open>
  The constraint that the row \<open>c\<close> breaks among the other \<open>rows\<close>: an external id is unique in its
  workspace over all rows, an address over the live ones.
\<close>

definition customer_violation :: "customer \<Rightarrow> customer list \<Rightarrow> string option" where
  "customer_violation c rows =
     (if list_ex (\<lambda>r. cu_workspace_id r = cu_workspace_id c \<and> cu_external_id c \<noteq> None \<and>
           cu_external_id r = cu_external_id c) rows
      then Some ''customers_workspace_id_external_id_key''
      else if customer_live c \<and> list_ex (\<lambda>r. customer_live r \<and> cu_workspace_id r = cu_workspace_id c \<and>
           lower (cu_email r) = lower (cu_email c)) rows
      then Some ''ix_customers_workspace_id_email_case_insensitive''
      else if list_ex (\<lambda>r. cu_id r = cu_id c) rows then Some ''customers_pkey'' else None)"

definition other_customers :: "uuid \<Rightarrow> portal \<Rightarrow> customer list" where
  "other_customers i db = filter (\<lambda>r. cu_id r \<noteq> i) (po_customers db)"

definition add_job :: "portal_job \<Rightarrow> portal \<Rightarrow> portal" where
  "add_job j db = db\<lparr>po_jobs := po_jobs db @ [j]\<rparr>"

definition dispatch_lifecycle :: "customer_event \<Rightarrow> uuid \<Rightarrow> portal \<Rightarrow> portal" where
  "dispatch_lifecycle e i db = add_job (Event_Task e i) (add_job (Webhook_Task e i) db)"

text \<open>The flush of a changed row.\<close>

definition write_customer :: "customer \<Rightarrow> portal \<Rightarrow> unit portal_result" where
  "write_customer c db =
     (if customer_violation c (other_customers (cu_id c) db) \<noteq> None then db_error
      else Inr ((), db\<lparr>po_customers := map (\<lambda>r. if cu_id r = cu_id c then c else r) (po_customers db)\<rparr>))"

text \<open>\<open>CustomerRepository.update\<close>: the webhook always, the event unless the row is deleted.\<close>

definition update_dispatch :: "customer \<Rightarrow> portal \<Rightarrow> portal" where
  "update_dispatch c db =
     (let db1 = add_job (Webhook_Task Customer_Updated (cu_id c)) db
      in if customer_live c then add_job (Event_Task Customer_Updated (cu_id c)) db1 else db1)"

definition customer_repo_update :: "customer \<Rightarrow> portal \<Rightarrow> unit portal_result" where
  "customer_repo_update c db = bind_sum (write_customer c db) (\<lambda>(_, db1). Inr ((), update_dispatch c db1))"

text \<open>
  \<open>CustomerRepository.soft_delete\<close>: the update, then the external id is moved into the metadata,
  a value changed in place; the transaction writes the row once.
\<close>

definition archive_external_id :: "portal_env \<Rightarrow> customer \<Rightarrow> customer" where
  "archive_external_id env c =
     (if \<not> truthy (cu_external_id c) then c
      else c\<lparr>cu_user_metadata := (if pe_json_tracked env
               then AList.update ''__external_id'' (JStr (the (cu_external_id c))) (cu_user_metadata c)
               else cu_user_metadata c),
             cu_external_id := None\<rparr>)"

definition customer_soft_delete :: "portal_env \<Rightarrow> int \<Rightarrow> customer \<Rightarrow> portal \<Rightarrow> unit portal_result" where
  "customer_soft_delete env now c db =
     (let c1 = c\<lparr>cu_deleted_at := Some now\<rparr>
      in bind_sum (write_customer (archive_external_id env c1) db) (\<lambda>(_, db1).
           Inr ((), dispatch_lifecycle Customer_Deleted (cu_id c) (update_dispatch c1 db1))))"

subsection \<open>Update\<close>

text \<open>\<open>empty_str_to_none\<close>.\<close>

definition empty_str_to_none :: "string option \<Rightarrow> string option" where
  "empty_str_to_none v = (case v of None \<Rightarrow> None | Some s \<Rightarrow> if strip s = [] then None else Some (strip s))"

text \<open>
  \<open>CustomerUpdate\<close>, and \<open>CustomerUpdateExternalID\<close> (\<open>cg_full\<close> false), which has neither external id
  nor type. \<open>None\<close> is a field that the body does not set, \<open>Some None\<close> an explicit null.
\<close>

record customer_changes =
  cg_full :: bool
  cg_email :: "string option"
  cg_name :: "string option option"
  cg_billing_address :: "json option"
  cg_metadata :: "(string \<times> json) list option"
  cg_external_id :: "string option option"
  cg_type :: "customer_type option option"

definition set_field :: "'a option \<Rightarrow> 'a \<Rightarrow> 'a" where
  "set_field new old = (case new of None \<Rightarrow> old | Some v \<Rightarrow> v)"

definition email_changes :: "customer \<Rightarrow> customer_changes \<Rightarrow> bool" where
  "email_changes c g = (case cg_email g of None \<Rightarrow> False | Some e \<Rightarrow> lower (cu_email c) \<noteq> lower e)"

definition new_external_id :: "customer_changes \<Rightarrow> string option option" where
  "new_external_id g = (if cg_full g then map_option empty_str_to_none (cg_external_id g) else None)"

text \<open>The row after the address has been assigned; the lookup of an external id flushes it first.\<close>

definition with_email :: "customer \<Rightarrow> customer_changes \<Rightarrow> customer" where
  "with_email c g = (if email_changes c g then c\<lparr>cu_email := the (cg_email g), cu_email_verified := False\<rparr> else c)"

definition external_id_errors :: "customer \<Rightarrow> customer_changes \<Rightarrow> portal \<Rightarrow> portal_error + (string \<times> string) list" where
  "external_id_errors c g db = (case new_external_id g of
       None \<Rightarrow> Inr []
     | Some new \<Rightarrow>
         if cu_external_id c = new then Inr []
         else if cu_external_id c \<noteq> None then Inr [(''external_id'', ''cannot be updated'')]
         else (case new of None \<Rightarrow> Inr []
           | Some v \<Rightarrow>
               if email_changes c g \<and> customer_violation (with_email c g) (other_customers (cu_id c) db) \<noteq> None
               then db_error
               else bind_sum (get_by_external_id_and_workspace v (cu_workspace_id c) db) (\<lambda>found.
                 Inr (if found \<noteq> None then [(''external_id'', ''already exists'')] else []))))"

definition email_errors :: "customer \<Rightarrow> customer_changes \<Rightarrow> portal \<Rightarrow> portal_error + (string \<times> string) list" where
  "email_errors c g db =
     (if email_changes c g
      then bind_sum (get_by_email_and_workspace (the (cg_email g)) (cu_workspace_id c) db) (\<lambda>found.
             Inr (if found \<noteq> None then [(''email'', ''already exists'')] else []))
      else Inr [])"

definition current_type :: "customer \<Rightarrow> customer_type" where
  "current_type c = (case cu_type c of None \<Rightarrow> Individual | Some t \<Rightarrow> t)"

definition type_errors :: "customer \<Rightarrow> customer_changes \<Rightarrow> (string \<times> string) list" where
  "type_errors c g =
     (if cg_full g \<and> current_type c = Team \<and> cg_type g = Some (Some Individual)
      then [(''type'', ''cannot be downgraded'')] else [])"

definition with_changes :: "customer \<Rightarrow> customer_changes \<Rightarrow> customer" where
  "with_changes c g = (with_email c g)\<lparr>
     cu_name := set_field (map_option empty_str_to_none (cg_name g)) (cu_name c),
     cu_billing_address := set_field (cg_billing_address g) (cu_billing_address c),
     cu_user_metadata := set_field (cg_metadata g) (cu_user_metadata c),
     cu_external_id := set_field (new_external_id g) (cu_external_id c),
     cu_type := (if cg_full g then set_field (cg_type g) (cu_type c) else cu_type c)\<rparr>"

definition customer_update :: "customer \<Rightarrow> customer_changes \<Rightarrow> portal \<Rightarrow> customer portal_result" where
  "customer_update c g db =
     bind_sum (email_errors c g db) (\<lambda>errs1.
     bind_sum (external_id_errors c g db) (\<lambda>errs2.
       let errs = errs1 @ errs2 @ type_errors c g
       in if errs \<noteq> [] then Inl (Invalid_Fields errs)
          else bind_sum (customer_repo_update (with_changes c g) db) (\<lambda>(_, db1). Inr (with_changes c g, db1))))"

subsection \<open>Deletion\<close>

definition ANONYMIZED_EMAIL_DOMAIN :: string where "ANONYMIZED_EMAIL_DOMAIN = ''redacted.invalid''"

definition ends_with :: "string \<Rightarrow> string \<Rightarrow> bool" where
  "ends_with s suffix = (length suffix \<le> length s \<and> drop (length s - length suffix) s = suffix)"

text \<open>The assertion \<open>"@" in email\<close> is the \<open>RuntimeError\<close> here.\<close>

definition anonymize_email :: "portal_env \<Rightarrow> string \<Rightarrow> portal_error + string" where
  "anonymize_email env email =
     (if CHR ''@'' \<in> set email then Inr (pe_sha256 env email @ ''@'' @ ANONYMIZED_EMAIL_DOMAIN)
      else Inl (Portal_Raised (RuntimeError ''AssertionError'')))"

definition anonymize_text :: "portal_env \<Rightarrow> string option \<Rightarrow> string option" where
  "anonymize_text env v = (if truthy v then map_option (pe_sha256 env) v else v)"

definition anonymize_customer :: "portal_env \<Rightarrow> int \<Rightarrow> customer \<Rightarrow> portal \<Rightarrow> unit portal_result" where
  "anonymize_customer env now c db =
     (if ends_with (cu_email c) (''@'' @ ANONYMIZED_EMAIL_DOMAIN) then Inr ((), db)
      else bind_sum (anonymize_email env (cu_email c)) (\<lambda>email.
        customer_repo_update (c\<lparr>cu_email := email, cu_email_verified := False,
          cu_name := anonymize_text env (cu_name c), cu_billing_name := anonymize_text env (cu_billing_name c),
          cu_billing_address := JNull, cu_oauth_accounts := [], cu_deleted_at := Some now,
          cu_user_metadata := AList.update ''__anonymized_at'' (JStr (pe_isoformat env now)) (cu_user_metadata c)\<rparr>) db))"

definition customer_delete :: "portal_env \<Rightarrow> int \<Rightarrow> bool \<Rightarrow> customer \<Rightarrow> portal \<Rightarrow> unit portal_result" where
  "customer_delete env now anonymize c db =
     (if anonymize then anonymize_customer env now c db else customer_soft_delete env now c db)"

end
