(* ===== verification/Members.thy ===== *)
theory Members
  imports Customers "HOL-Library.Product_Lexorder"
begin

section \<open>Members of a customer\<close>

text \<open>
  The package \<open>identity/member\<close>: creation, roles and deletion of the members of a customer, and the
  repair job that merges members whose addresses differ in case only.
\<close>

subsection \<open>Reads\<close>

definition member_live :: "member \<Rightarrow> bool" where
  "member_live m = (mb_deleted_at m = None)"

definition list_by_customer :: "uuid \<Rightarrow> portal \<Rightarrow> member list" where
  "list_by_customer cid db = filter (\<lambda>m. mb_customer_id m = cid \<and> member_live m) (po_members db)"

definition list_by_customers :: "uuid list \<Rightarrow> portal \<Rightarrow> member list" where
  "list_by_customers cids db = filter (\<lambda>m. mb_customer_id m \<in> set cids \<and> member_live m) (po_members db)"

definition get_by_customer_and_email :: "uuid \<Rightarrow> string \<Rightarrow> portal \<Rightarrow> portal_error + member option" where
  "get_by_customer_and_email cid email db = select_portal (filter (\<lambda>m. mb_email m = email) (list_by_customer cid db))"

definition get_by_customer_id_and_external_id :: "uuid \<Rightarrow> string \<Rightarrow> portal \<Rightarrow> portal_error + member option" where
  "get_by_customer_id_and_external_id cid x db =
     select_portal (filter (\<lambda>m. mb_external_id m = Some x) (list_by_customer cid db))"

definition get_by_id_and_customer_id :: "uuid \<Rightarrow> uuid \<Rightarrow> portal \<Rightarrow> portal_error + member option" where
  "get_by_id_and_customer_id i cid db = select_portal (filter (\<lambda>m. mb_id m = i) (list_by_customer cid db))"

definition get_owner_by_customer_id :: "uuid \<Rightarrow> portal \<Rightarrow> portal_error + member option" where
  "get_owner_by_customer_id cid db = select_portal (filter (\<lambda>m. mb_role m = Owner) (list_by_customer cid db))"

definition member_get :: "subject \<Rightarrow> uuid \<Rightarrow> portal \<Rightarrow> portal_error + member option" where
  "member_get auth i db = select_portal (filter (\<lambda>m. member_live m \<and>
     workspace_readable auth db (mb_workspace_id m) \<and> mb_id m = i) (po_members db))"

subsection \<open>Writes\<close>

text \<open>Both unique constraints of the table cover deleted rows.\<close>

definition member_violation :: "member \<Rightarrow> member list \<Rightarrow> bool" where
  "member_violation m rows = list_ex (\<lambda>r. mb_id r = mb_id m \<or> mb_customer_id r = mb_customer_id m \<and>
     (mb_email r = mb_email m \<or> mb_external_id m \<noteq> None \<and> mb_external_id r = mb_external_id m)) rows"

definition insert_team_member :: "member \<Rightarrow> portal \<Rightarrow> member portal_result" where
  "insert_team_member m db =
     (if member_violation m (po_members db) then db_error
      else Inr (m, db\<lparr>po_members := po_members db @ [m]\<rparr>))"

text \<open>\<open>_create_with_conflict_guard\<close>: after a conflict the live row with the address is answered.\<close>

definition create_with_conflict_guard :: "member \<Rightarrow> portal \<Rightarrow> member portal_result" where
  "create_with_conflict_guard m db = (case insert_team_member m db of
       Inr r \<Rightarrow> Inr r
     | Inl e \<Rightarrow> bind_sum (get_by_customer_and_email (mb_customer_id m) (mb_email m) db) (\<lambda>found.
         case found of Some x \<Rightarrow> Inr (x, db) | None \<Rightarrow> Inl e))"

definition change_member :: "uuid \<Rightarrow> (member \<Rightarrow> member) \<Rightarrow> portal \<Rightarrow> portal" where
  "change_member i g db = db\<lparr>po_members := map (\<lambda>m. if mb_id m = i then g m else m) (po_members db)\<rparr>"

definition soft_delete_member :: "int \<Rightarrow> uuid \<Rightarrow> portal \<Rightarrow> portal" where
  "soft_delete_member now i db = change_member i (\<lambda>m. m\<lparr>mb_deleted_at := Some now\<rparr>) db"

definition owner_count :: "member list \<Rightarrow> nat" where
  "owner_count ms = length (filter (\<lambda>m. mb_role m = Owner) ms)"

definition member_delete :: "int \<Rightarrow> member \<Rightarrow> portal \<Rightarrow> unit portal_result" where
  "member_delete now m db =
     (if mb_role m = Owner \<and> owner_count (list_by_customer (mb_customer_id m) db) \<le> 1
      then Inl (Invalid_Fields [('''', ''Cannot remove the only owner'')])
      else Inr ((), soft_delete_member now (mb_id m) db))"

definition guard_role_transition :: "member \<Rightarrow> team_role \<Rightarrow> member list \<Rightarrow> portal_error + unit" where
  "guard_role_transition m target peers =
     (let owners = owner_count peers;
          losing = mb_role m = Owner \<and> target \<noteq> Owner;
          gaining = target = Owner \<and> mb_role m \<noteq> Owner
      in if losing \<and> owners \<le> 1 \<or> gaining \<and> 1 \<le> owners
         then Inl (Invalid_Fields [(''role'', ''Customer must have exactly one owner.'')]) else Inr ())"

definition member_update :: "member \<Rightarrow> string option \<Rightarrow> team_role option \<Rightarrow> portal \<Rightarrow> unit portal_result" where
  "member_update m name role db =
     bind_sum (case role of None \<Rightarrow> Inr ()
                 | Some r \<Rightarrow> if mb_role m = r then Inr ()
                            else guard_role_transition m r (list_by_customer (mb_customer_id m) db)) (\<lambda>_.
       Inr ((), if name = None \<and> role = None then db
                else change_member (mb_id m) (\<lambda>x. x\<lparr>
                  mb_name := (case name of None \<Rightarrow> mb_name x | Some n \<Rightarrow> Some n),
                  mb_role := set_field role (mb_role x)\<rparr>) db))"

text \<open>No route calls the transfer.\<close>

definition transfer_ownership :: "member \<Rightarrow> member \<Rightarrow> portal \<Rightarrow> portal" where
  "transfer_ownership current_owner new_owner db =
     change_member (mb_id current_owner) (\<lambda>x. x\<lparr>mb_role := Billing_Manager\<rparr>)
       (change_member (mb_id new_owner) (\<lambda>x. x\<lparr>mb_role := Owner\<rparr>) db)"

text \<open>\<open>x or y\<close> on optional strings.\<close>

definition or_else :: "string option \<Rightarrow> string option \<Rightarrow> string option" where
  "or_else x y = (if truthy x then x else y)"

definition MEMBER_FLAG :: string where "MEMBER_FLAG = ''member_model_enabled''"

definition create_owner_member ::
  "int \<Rightarrow> uuid \<Rightarrow> customer \<Rightarrow> uuid \<Rightarrow> string option \<Rightarrow> string option \<Rightarrow> string option \<Rightarrow> portal \<Rightarrow> unit portal_result" where
  "create_owner_member now new_id c w owner_email owner_name owner_external_id db =
     (if \<not> po_features db w MEMBER_FLAG then Inr ((), db)
      else (let email = str_or owner_email (cu_email c);
                m = \<lparr>mb_id = new_id, mb_customer_id = cu_id c, mb_workspace_id = w, mb_email = email,
                     mb_name = or_else owner_name (cu_name c),
                     mb_external_id = or_else owner_external_id (cu_external_id c),
                     mb_role = Owner, mb_created_at = now, mb_deleted_at = None\<rparr>
            in bind_sum (get_by_customer_and_email (cu_id c) email db) (\<lambda>existing. case existing of
                 Some x \<Rightarrow> Inr ((), db)
               | None \<Rightarrow> bind_sum (create_with_conflict_guard m db) (\<lambda>(_, db1). Inr ((), db1)))))"

definition guard_individual_limit :: "customer \<Rightarrow> portal \<Rightarrow> portal_error + unit" where
  "guard_individual_limit c db =
     (if current_type c = Individual \<and> 1 \<le> length (list_by_customer (cu_id c) db)
      then Inl (Portal_Forbidden ''Individual customers can only have one member.'') else Inr ())"

text \<open>\<open>MemberCreate\<close>: the names that the schema has stripped.\<close>

record member_create =
  mc_customer_id :: uuid
  mc_email :: string
  mc_name :: "string option"
  mc_external_id :: "string option"
  mc_role :: team_role

definition member_create_action :: "int \<Rightarrow> uuid \<Rightarrow> subject \<Rightarrow> member_create \<Rightarrow> portal \<Rightarrow> member portal_result" where
  "member_create_action now new_id auth d db =
     bind_sum (customer_get auth (mc_customer_id d) db) (\<lambda>found. case found of
       None \<Rightarrow> Inl (Portal_Not_Found ''Customer not found'')
     | Some c \<Rightarrow>
         if \<not> po_features db (cu_workspace_id c) MEMBER_FLAG
         then Inl (Portal_Forbidden ''Member management is not enabled for this workspace'')
         else bind_sum (guard_individual_limit c db) (\<lambda>_.
           bind_sum (get_by_customer_and_email (cu_id c) (mc_email d) db) (\<lambda>existing. case existing of
             Some x \<Rightarrow> Inr (x, db)
           | None \<Rightarrow> create_with_conflict_guard
               \<lparr>mb_id = new_id, mb_customer_id = mc_customer_id d, mb_workspace_id = cu_workspace_id c,
                mb_email = mc_email d, mb_name = empty_str_to_none (mc_name d),
                mb_external_id = empty_str_to_none (mc_external_id d), mb_role = mc_role d,
                mb_created_at = now, mb_deleted_at = None\<rparr> db)))"

text \<open>\<open>add_to_customer\<close>: not called by a route either; a conflict is not caught.\<close>

definition add_to_customer :: "int \<Rightarrow> uuid \<Rightarrow> customer \<Rightarrow> string \<Rightarrow> string option \<Rightarrow> team_role \<Rightarrow> portal \<Rightarrow> member portal_result" where
  "add_to_customer now new_id c email name role db =
     bind_sum (get_by_customer_and_email (cu_id c) email db) (\<lambda>existing. case existing of
       Some x \<Rightarrow> Inr (x, db)
     | None \<Rightarrow> insert_team_member \<lparr>mb_id = new_id, mb_customer_id = cu_id c, mb_workspace_id = cu_workspace_id c,
         mb_email = email, mb_name = name, mb_external_id = None, mb_role = role,
         mb_created_at = now, mb_deleted_at = None\<rparr> db)"

subsection \<open>Merging members whose addresses differ in case\<close>

type_synonym member_group = "uuid \<times> string"

definition group_of :: "member \<Rightarrow> member_group" where
  "group_of m = (mb_customer_id m, lower (mb_email m))"

definition group_rows :: "member_group \<Rightarrow> portal \<Rightarrow> member list" where
  "group_rows k db = filter (\<lambda>m. member_live m \<and> group_of m = k) (po_members db)"

text \<open>Ordered by count, the largest first, and by customer.\<close>

definition find_duplicates :: "portal \<Rightarrow> (member_group \<times> nat) list" where
  "find_duplicates db =
     (let groups = remdups (map group_of (filter member_live (po_members db)));
          counted = map (\<lambda>k. (k, length (group_rows k db))) groups
      in sort_key (\<lambda>(k, n). (- int n, fst k)) (filter (\<lambda>(k, n). 1 < n) counted))"

fun role_priority :: "team_role \<Rightarrow> nat" where
  "role_priority Owner = 0" | "role_priority Billing_Manager = 1" | "role_priority Plain_Member = 2"

definition dedupe_rank :: "portal_env \<Rightarrow> member \<Rightarrow> nat \<times> int \<times> nat" where
  "dedupe_rank env m = (role_priority (mb_role m), mb_created_at m, pe_tie env (mb_id m))"

definition list_duplicates_for_dedupe :: "portal_env \<Rightarrow> member_group \<Rightarrow> portal \<Rightarrow> member list" where
  "list_duplicates_for_dedupe env k db = sort_key (dedupe_rank env) (group_rows k db)"

definition dedupe_group :: "portal_env \<Rightarrow> int \<Rightarrow> member_group \<Rightarrow> nat \<times> portal \<Rightarrow> nat \<times> portal" where
  "dedupe_group env now k acc =
     (let (total, db) = acc; members = list_duplicates_for_dedupe env k db
      in if length members < 2 then (total, db)
         else foldl (\<lambda>(n, d) loser. (n + 1, soft_delete_member now (mb_id loser) d)) (total, db) (tl members))"

definition auto_dedupe :: "portal_env \<Rightarrow> int \<Rightarrow> portal \<Rightarrow> nat \<times> portal" where
  "auto_dedupe env now db = foldl (\<lambda>acc (k, n). dedupe_group env now k acc) (0, db) (find_duplicates db)"

end
