(* ===== verification/Customer_Portal.thy ===== *)
theory Customer_Portal
  imports Members
begin

section \<open>Creating customers, portal sessions, and the routes\<close>

text \<open>
  Creation of customers with their first member, the bearer sessions of the customer portal
  (\<open>customers/customer_session\<close>, \<open>identity/member_session\<close>), how the authentication middleware
  resolves their tokens, and the routes and jobs as steps of one state.
\<close>

subsection \<open>Creation\<close>

record owner_create =
  oc_email :: "string option"
  oc_name :: "string option"
  oc_external_id :: "string option"

record customer_create =
  cc_workspace_id :: "uuid option"
  cc_external_id :: "string option"
  cc_email :: string
  cc_name :: "string option"
  cc_billing_address :: json
  cc_type :: "customer_type option"
  cc_metadata :: "(string \<times> json) list"
  cc_owner :: "owner_create option"

definition new_customer :: "uuid \<Rightarrow> uuid \<Rightarrow> customer_create \<Rightarrow> customer" where
  "new_customer new_id w d = \<lparr>cu_id = new_id, cu_workspace_id = w, cu_type = cc_type d,
     cu_external_id = empty_str_to_none (cc_external_id d), cu_email = cc_email d, cu_email_verified = False,
     cu_name = empty_str_to_none (cc_name d), cu_billing_name = None, cu_billing_address = cc_billing_address d,
     cu_oauth_accounts = [], cu_user_metadata = cc_metadata d, cu_deleted_at = None\<rparr>"

definition creation_errors :: "customer_create \<Rightarrow> uuid \<Rightarrow> portal \<Rightarrow> portal_error + (string \<times> string) list" where
  "creation_errors d w db =
     bind_sum (get_by_email_and_workspace (cc_email d) w db) (\<lambda>e.
     bind_sum (case empty_str_to_none (cc_external_id d) of None \<Rightarrow> Inr None
               | Some x \<Rightarrow> get_by_external_id_and_workspace x w db) (\<lambda>x.
       Inr ((if e \<noteq> None then [(''email'', ''already exists'')] else []) @
            (if x \<noteq> None then [(''external_id'', ''already exists'')] else []))))"

text \<open>A constraint that fails at the flush is told by its name.\<close>

definition integrity_error :: "string \<Rightarrow> portal_error" where
  "integrity_error constraint =
     (if contains ''external_id'' constraint then Invalid_Fields [(''external_id'', ''already exists'')]
      else if contains ''email'' constraint then Invalid_Fields [(''email'', ''already exists'')]
      else Portal_Raised SQLAlchemyError)"

definition customer_create_action ::
  "int \<Rightarrow> uuid \<Rightarrow> uuid \<Rightarrow> subject \<Rightarrow> customer_create \<Rightarrow> portal \<Rightarrow> customer portal_result" where
  "customer_create_action now new_id new_member auth d db =
     bind_sum (payload_workspace auth (cc_workspace_id d) db) (\<lambda>w.
     bind_sum (creation_errors d w db) (\<lambda>errs.
       if errs \<noteq> [] then Inl (Invalid_Fields errs)
       else (let c = new_customer new_id w d
             in case customer_violation c (po_customers db) of
                  Some constraint \<Rightarrow> Inl (integrity_error constraint)
                | None \<Rightarrow>
                    bind_sum (create_owner_member now new_member c w
                        (case cc_owner d of None \<Rightarrow> None | Some ow \<Rightarrow> oc_email ow)
                        (case cc_owner d of None \<Rightarrow> None | Some ow \<Rightarrow> empty_str_to_none (oc_name ow))
                        (case cc_owner d of None \<Rightarrow> None | Some ow \<Rightarrow> empty_str_to_none (oc_external_id ow))
                        (db\<lparr>po_customers := po_customers db @ [c]\<rparr>)) (\<lambda>(_, db1).
                      Inr (c, dispatch_lifecycle Customer_Created new_id db1)))))"

text \<open>The buyer of a checkout: the type is the default of the column, and no member is made.\<close>

definition get_or_create_by_email ::
  "uuid \<Rightarrow> string \<Rightarrow> uuid \<Rightarrow> string option \<Rightarrow> portal \<Rightarrow> customer portal_result" where
  "get_or_create_by_email new_id email w name db =
     bind_sum (get_by_email_and_workspace email w db) (\<lambda>existing. case existing of
       Some c \<Rightarrow> Inr (c, db)
     | None \<Rightarrow>
         if (w, None) \<notin> set (po_workspaces db) then Inl (Portal_Raised (ValueError w))
         else (let c = \<lparr>cu_id = new_id, cu_workspace_id = w, cu_type = Some Individual, cu_external_id = None,
                   cu_email = email, cu_email_verified = False, cu_name = name, cu_billing_name = None,
                   cu_billing_address = JNull, cu_oauth_accounts = [], cu_user_metadata = [], cu_deleted_at = None\<rparr>
               in if customer_violation c (po_customers db) \<noteq> None
                  then bind_sum (get_by_email_and_workspace email w db) (\<lambda>again. case again of
                         Some c' \<Rightarrow> Inr (c', db) | None \<Rightarrow> db_error)
                  else Inr (c, dispatch_lifecycle Customer_Created new_id
                              (db\<lparr>po_customers := po_customers db @ [c]\<rparr>))))"

subsection \<open>Portal sessions\<close>

definition CUSTOMER_SESSION_TTL :: int where "CUSTOMER_SESSION_TTL = 3600"

definition CUSTOMER_SESSION_TOKEN_PREFIX :: string where "CUSTOMER_SESSION_TOKEN_PREFIX = ''rapidly_cst_''"

definition MEMBER_SESSION_TOKEN_PREFIX :: string where "MEMBER_SESSION_TOKEN_PREFIX = ''rapidly_mst_''"

definition portal_hash :: "portal_env \<Rightarrow> string \<Rightarrow> string" where
  "portal_hash env token = get_token_hash (pe_blake2b env) (pe_secret env) token"

definition new_portal_session ::
  "portal_env \<Rightarrow> int \<Rightarrow> uuid \<Rightarrow> string \<Rightarrow> nat list \<Rightarrow> uuid \<Rightarrow> string option \<Rightarrow> string \<times> portal_session" where
  "new_portal_session env now new_id prefix entropy owner_id return_url =
     (let (token, token_hash) = generate_token_hash_pair (pe_blake2b env) (pe_secret env) prefix entropy
      in (token, \<lparr>ps_id = new_id, ps_owner = owner_id, ps_token = token_hash, ps_return_url = return_url,
            ps_expires_at = now + CUSTOMER_SESSION_TTL, ps_deleted_at = None\<rparr>))"

definition session_taken :: "portal_session \<Rightarrow> portal_session list \<Rightarrow> bool" where
  "session_taken x rows = list_ex (\<lambda>y. ps_token y = ps_token x \<or> ps_id y = ps_id x) rows"

definition create_customer_session ::
  "portal_env \<Rightarrow> int \<Rightarrow> uuid \<Rightarrow> nat list \<Rightarrow> uuid \<Rightarrow> string option \<Rightarrow> portal \<Rightarrow> string portal_result" where
  "create_customer_session env now new_id entropy cid return_url db =
     (let (token, x) = new_portal_session env now new_id CUSTOMER_SESSION_TOKEN_PREFIX entropy cid return_url
      in if session_taken x (po_customer_sessions db) then db_error
         else Inr (token, db\<lparr>po_customer_sessions := po_customer_sessions db @ [x]\<rparr>))"

definition create_member_session ::
  "portal_env \<Rightarrow> int \<Rightarrow> uuid \<Rightarrow> nat list \<Rightarrow> uuid \<Rightarrow> string option \<Rightarrow> portal \<Rightarrow> string portal_result" where
  "create_member_session env now new_id entropy mid return_url db =
     (let (token, x) = new_portal_session env now new_id MEMBER_SESSION_TOKEN_PREFIX entropy mid return_url
      in if session_taken x (po_member_sessions db) then db_error
         else Inr (token, db\<lparr>po_member_sessions := po_member_sessions db @ [x]\<rparr>))"

datatype customer_ref = By_Id uuid | By_External_Id string

fun find_customer :: "subject \<Rightarrow> customer_ref \<Rightarrow> portal \<Rightarrow> portal_error + customer option" where
  "find_customer auth (By_Id i) db = customer_get auth i db"
| "find_customer auth (By_External_Id x) db = customer_get_external auth x db"

record portal_session_request =
  sr_customer :: customer_ref
  sr_member_id :: "uuid option"
  sr_external_member_id :: "string option"
  sr_return_url :: "string option"

definition missing_member :: "string \<Rightarrow> portal_error" where
  "missing_member field = Invalid_Fields [(field, ''Member does not exist.'')]"

text \<open>The member of a session in a workspace with members: named, or the owner, made when missing.\<close>

definition session_member ::
  "int \<Rightarrow> uuid \<Rightarrow> portal_session_request \<Rightarrow> customer \<Rightarrow> portal \<Rightarrow> member portal_result" where
  "session_member now new_member r c db = (case sr_member_id r of
       Some i \<Rightarrow> bind_sum (get_by_id_and_customer_id i (cu_id c) db) (\<lambda>found. case found of
           None \<Rightarrow> Inl (missing_member ''member_id'') | Some m \<Rightarrow> Inr (m, db))
     | None \<Rightarrow> (case sr_external_member_id r of
         Some x \<Rightarrow> bind_sum (get_by_customer_id_and_external_id (cu_id c) x db) (\<lambda>found. case found of
           None \<Rightarrow> Inl (missing_member ''external_member_id'') | Some m \<Rightarrow> Inr (m, db))
       | None \<Rightarrow>
           if cu_type c = Some Team then Inl (Invalid_Fields [(''member_id'', ''required for team customers'')])
           else bind_sum (get_owner_by_customer_id (cu_id c) db) (\<lambda>found. case found of
             Some m \<Rightarrow> Inr (m, db)
           | None \<Rightarrow> insert_team_member \<lparr>mb_id = new_member, mb_customer_id = cu_id c,
               mb_workspace_id = cu_workspace_id c, mb_email = cu_email c,
               mb_name = Some (str_or (cu_name c) (cu_email c)), mb_external_id = None, mb_role = Owner,
               mb_created_at = now, mb_deleted_at = None\<rparr> db)))"

definition ref_field :: "customer_ref \<Rightarrow> string" where
  "ref_field r = (case r of By_Id _ \<Rightarrow> ''customer_id'' | By_External_Id _ \<Rightarrow> ''external_customer_id'')"

definition customer_session_create ::
  "portal_env \<Rightarrow> int \<Rightarrow> uuid \<Rightarrow> uuid \<Rightarrow> nat list \<Rightarrow> subject \<Rightarrow> portal_session_request \<Rightarrow> portal \<Rightarrow> string portal_result" where
  "customer_session_create env now new_id new_member entropy auth r db =
     bind_sum (find_customer auth (sr_customer r) db) (\<lambda>found. case found of
       None \<Rightarrow> Inl (Invalid_Fields [(ref_field (sr_customer r), ''Customer does not exist.'')])
     | Some c \<Rightarrow>
         if po_features db (cu_workspace_id c) MEMBER_FLAG
         then bind_sum (session_member now new_member r c db) (\<lambda>(m, db1).
                create_member_session env now new_id entropy (mb_id m) (sr_return_url r) db1)
         else create_customer_session env now new_id entropy (cu_id c) (sr_return_url r) db)"

definition MEMBER_SESSION_FLAGS :: "string list" where
  "MEMBER_SESSION_FLAGS = [MEMBER_FLAG, ''seat_based_pricing_enabled'']"

definition member_session_create ::
  "portal_env \<Rightarrow> int \<Rightarrow> uuid \<Rightarrow> nat list \<Rightarrow> subject \<Rightarrow> uuid \<Rightarrow> string option \<Rightarrow> portal \<Rightarrow> string portal_result" where
  "member_session_create env now new_id entropy auth mid return_url db =
     bind_sum (member_get auth mid db) (\<lambda>found. case found of
       None \<Rightarrow> Inl (missing_member ''member_id'')
     | Some m \<Rightarrow> (case find (\<lambda>c. cu_id c = mb_customer_id m) (po_customers db) of
           None \<Rightarrow> Inl (Portal_Raised TypeError)
         | Some c \<Rightarrow>
             if list_ex (\<lambda>f. \<not> po_features db (cu_workspace_id c) f) MEMBER_SESSION_FLAGS
             then Inl (Portal_Forbidden ''Member sessions require flags'')
             else create_member_session env now new_id entropy mid return_url db))"

subsection \<open>Tokens\<close>

text \<open>The joins: the customer of a session has to be live; of a member session, only the member.\<close>

definition session_valid :: "portal_env \<Rightarrow> int \<Rightarrow> string \<Rightarrow> portal_session \<Rightarrow> bool" where
  "session_valid env now token x =
     (ps_token x = portal_hash env token \<and> ps_deleted_at x = None \<and> now < ps_expires_at x)"

definition customer_session_by_token :: "portal_env \<Rightarrow> int \<Rightarrow> string \<Rightarrow> portal \<Rightarrow> portal_error + portal_session option" where
  "customer_session_by_token env now token db = select_portal (filter (\<lambda>x. session_valid env now token x \<and>
     list_ex (\<lambda>c. cu_id c = ps_owner x \<and> customer_live c) (po_customers db)) (po_customer_sessions db))"

definition member_session_by_token :: "portal_env \<Rightarrow> int \<Rightarrow> string \<Rightarrow> portal \<Rightarrow> portal_error + portal_session option" where
  "member_session_by_token env now token db = select_portal (filter (\<lambda>x. session_valid env now token x \<and>
     list_ex (\<lambda>m. mb_id m = ps_owner x \<and> member_live m) (po_members db)) (po_member_sessions db))"

definition starts_with :: "string \<Rightarrow> string \<Rightarrow> bool" where
  "starts_with s prefix = (take (length prefix) s = prefix)"

definition invalid_token :: portal_error where
  "invalid_token = Portal_Raised (HTTPException 401 ''invalid_token'')"

text \<open>\<open>_resolve_from_token\<close> on the two prefixes of the portal; \<open>None\<close> is left to the other stores.\<close>

definition resolve_portal_token :: "portal_env \<Rightarrow> int \<Rightarrow> string \<Rightarrow> portal \<Rightarrow> (portal_error + subject) option" where
  "resolve_portal_token env now token db =
     (if starts_with token MEMBER_SESSION_TOKEN_PREFIX
      then Some (bind_sum (member_session_by_token env now token db) (\<lambda>found. case found of
             None \<Rightarrow> Inl invalid_token | Some x \<Rightarrow> Inr (Member (ps_owner x))))
      else if starts_with token CUSTOMER_SESSION_TOKEN_PREFIX
      then Some (bind_sum (customer_session_by_token env now token db) (\<lambda>found. case found of
             None \<Rightarrow> Inl invalid_token | Some x \<Rightarrow> Inr (Customer (ps_owner x))))
      else None)"

definition revoke_leaked_session :: "portal_env \<Rightarrow> int \<Rightarrow> string \<Rightarrow> portal \<Rightarrow> bool portal_result" where
  "revoke_leaked_session env now token db =
     bind_sum (customer_session_by_token env now token db) (\<lambda>found. case found of
       None \<Rightarrow> Inr (False, db)
     | Some x \<Rightarrow> Inr (True, db\<lparr>po_customer_sessions := filter (\<lambda>y. ps_id y \<noteq> ps_id x) (po_customer_sessions db)\<rparr>))"

definition not_expired :: "int \<Rightarrow> portal_session list \<Rightarrow> portal_session list" where
  "not_expired now rows = filter (\<lambda>x. \<not> ps_expires_at x < now) rows"

definition delete_expired_customer_sessions :: "int \<Rightarrow> portal \<Rightarrow> portal" where
  "delete_expired_customer_sessions now db =
     db\<lparr>po_customer_sessions := not_expired now (po_customer_sessions db)\<rparr>"

definition delete_expired_member_sessions :: "int \<Rightarrow> portal \<Rightarrow> portal" where
  "delete_expired_member_sessions now db = db\<lparr>po_member_sessions := not_expired now (po_member_sessions db)\<rparr>"

subsection \<open>Routes and jobs\<close>

text \<open>
  Ids that a step draws and the entropy of its token are part of it. \<open>Dedupe\<close>, \<open>Expire_Sessions\<close>,
  \<open>Expire_Member_Sessions\<close> and \<open>Revoke\<close> are jobs, \<open>Buyer\<close> the checkout, \<open>Portal_Link\<close> and \<open>Set_Feature\<close> the back office.
\<close>

datatype portal_op =
    Create_Customer subject customer_create uuid uuid
  | Update_Customer subject customer_ref customer_changes
  | Delete_Customer subject customer_ref bool
  | Buyer uuid string uuid "string option"
  | Create_Member subject member_create uuid
  | Update_Member subject uuid "string option" "team_role option"
  | Delete_Member subject uuid
  | Dedupe
  | Open_Session subject portal_session_request uuid uuid "nat list"
  | Open_Member_Session subject uuid "string option" uuid "nat list"
  | Portal_Link uuid uuid "nat list"
  | Revoke string
  | Expire_Sessions
  | Expire_Member_Sessions
  | Set_Feature uuid string bool

text \<open>A missing row is the 404 of the route; the rest of the step goes on with the row.\<close>

definition with_found :: "portal_error + 'a option \<Rightarrow> ('a \<Rightarrow> 'b portal_result) \<Rightarrow> portal_error + portal" where
  "with_found r f = bind_sum r (\<lambda>found. case found of
       None \<Rightarrow> Inl (Portal_Not_Found '''') | Some x \<Rightarrow> bind_sum (f x) (\<lambda>(_, db). Inr db))"

definition after :: "'b portal_result \<Rightarrow> portal_error + portal" where
  "after r = bind_sum r (\<lambda>(_, db). Inr db)"

fun ref_changes :: "customer_ref \<Rightarrow> customer_changes \<Rightarrow> customer_changes" where
  "ref_changes (By_Id _) g = g\<lparr>cg_full := True\<rparr>"
| "ref_changes (By_External_Id _) g = g\<lparr>cg_full := False\<rparr>"

fun op_subject :: "portal_op \<Rightarrow> subject option" where
  "op_subject (Create_Customer auth _ _ _) = Some auth"
| "op_subject (Update_Customer auth _ _) = Some auth"
| "op_subject (Delete_Customer auth _ _) = Some auth"
| "op_subject (Create_Member auth _ _) = Some auth"
| "op_subject (Update_Member auth _ _ _) = Some auth"
| "op_subject (Delete_Member auth _) = Some auth"
| "op_subject (Open_Session auth _ _ _ _) = Some auth"
| "op_subject (Open_Member_Session auth _ _ _ _) = Some auth"
| "op_subject _ = None"

fun portal_action :: "portal_env \<Rightarrow> int \<Rightarrow> portal_op \<Rightarrow> portal \<Rightarrow> portal_error + portal" where
  "portal_action env now (Create_Customer auth d i mi) db = after (customer_create_action now i mi auth d db)"
| "portal_action env now (Update_Customer auth ref g) db =
     with_found (find_customer auth ref db) (\<lambda>c. customer_update c (ref_changes ref g) db)"
| "portal_action env now (Delete_Customer auth ref anonymize) db =
     with_found (find_customer auth ref db) (\<lambda>c. customer_delete env now anonymize c db)"
| "portal_action env now (Buyer i email w name) db = after (get_or_create_by_email i email w name db)"
| "portal_action env now (Create_Member auth d i) db = after (member_create_action now i auth d db)"
| "portal_action env now (Update_Member auth i name role) db =
     with_found (member_get auth i db) (\<lambda>m. member_update m (empty_str_to_none name) role db)"
| "portal_action env now (Delete_Member auth i) db =
     with_found (member_get auth i db) (\<lambda>m. member_delete now m db)"
| "portal_action env now Dedupe db = Inr (snd (auto_dedupe env now db))"
| "portal_action env now (Open_Session auth r i mi entropy) db =
     after (customer_session_create env now i mi entropy auth r db)"
| "portal_action env now (Open_Member_Session auth m ret i entropy) db =
     after (member_session_create env now i entropy auth m ret db)"
| "portal_action env now (Portal_Link c i entropy) db =
     with_found (customer_get Anonymous c db) (\<lambda>x. create_customer_session env now i entropy (cu_id x) None db)"
| "portal_action env now (Revoke token) db = after (revoke_leaked_session env now token db)"
| "portal_action env now Expire_Sessions db = Inr (delete_expired_customer_sessions now db)"
| "portal_action env now Expire_Member_Sessions db = Inr (delete_expired_member_sessions now db)"
| "portal_action env now (Set_Feature w f b) db =
     Inr (db\<lparr>po_features := (po_features db)(w := (po_features db w)(f := b))\<rparr>)"

definition portal_step :: "portal_env \<Rightarrow> int \<Rightarrow> portal_op \<Rightarrow> portal \<Rightarrow> portal" where
  "portal_step env now op db =
     (case bind_sum (case op_subject op of None \<Rightarrow> Inr () | Some auth \<Rightarrow> portal_principal auth)
             (\<lambda>_. portal_action env now op db) of
        Inl e \<Rightarrow> db | Inr db1 \<Rightarrow> db1)"

fun portal_run :: "portal_env \<Rightarrow> (int \<times> portal_op) list \<Rightarrow> portal \<Rightarrow> portal" where
  "portal_run env [] db = db"
| "portal_run env ((now, op) # ops) db = portal_run env ops (portal_step env now op db)"

end
