(* ===== verification/Portal_Facts.thy ===== *)
theory Portal_Facts
  imports Customer_Portal
begin

section \<open>What the steps of the customer portal change\<close>

text \<open>
  For each operation the tables it leaves alone and the shape of its change, collected in
  \<open>portal_effects\<close>, and the invariant of the tables that follows.
\<close>

named_theorems portal_effects \<open>the shape of the change of an operation\<close>

subsection \<open>Members\<close>

definition member_added :: "portal \<Rightarrow> portal \<Rightarrow> bool" where
  "member_added db db' = (db' = db \<or>
     (\<exists>m. \<not> member_violation m (po_members db) \<and> db' = db\<lparr>po_members := po_members db @ [m]\<rparr>))"

lemma member_added_refl [simp]: "member_added db db"
  by (simp add: member_added_def)

lemma select_portal_Some: "select_portal xs = Inr (Some x) \<Longrightarrow> x \<in> set xs"
  by (cases xs rule: at_most_one.cases) (auto simp: select_portal_def)

lemma select_portal_single [simp]: "select_portal [] = Inr None" "select_portal [x] = Inr (Some x)"
  by (simp_all add: select_portal_def)

lemma insert_team_member_added [portal_effects]:
  "insert_team_member m db = Inr (x, db') \<Longrightarrow> member_added db db'"
  by (auto simp: insert_team_member_def member_added_def db_error_def split: if_splits)

lemma create_with_conflict_guard_added [portal_effects]:
  assumes "create_with_conflict_guard m db = Inr (x, db')"
  shows "member_added db db'"
proof (cases "insert_team_member m db")
  case (Inl e)
  with assms have "db' = db"
    by (auto simp: create_with_conflict_guard_def bind_sum_Inr_iff split: option.splits)
  then show ?thesis by (simp add: member_added_def)
next
  case (Inr r)
  with assms have "insert_team_member m db = Inr (x, db')" by (simp add: create_with_conflict_guard_def)
  then show ?thesis by (rule insert_team_member_added)
qed

lemma create_owner_member_added [portal_effects]:
  assumes "create_owner_member now i c w e n x db = Inr (u, db')"
  shows "member_added db db'"
  using assms
  by (auto simp: create_owner_member_def Let_def bind_sum_Inr_iff
      split: if_splits option.splits intro: create_with_conflict_guard_added)

lemma member_create_action_added [portal_effects]:
  assumes "member_create_action now i auth d db = Inr (u, db')"
  shows "member_added db db'"
  using assms
  by (auto simp: member_create_action_def bind_sum_Inr_iff
      split: if_splits option.splits intro: create_with_conflict_guard_added)

lemma session_member_added [portal_effects]:
  assumes "session_member now i r c db = Inr (m, db')"
  shows "member_added db db'"
  using assms
  by (auto simp: session_member_def bind_sum_Inr_iff
      split: if_splits option.splits intro: insert_team_member_added)

subsection \<open>Customers\<close>

definition customers_change :: "customer list \<Rightarrow> customer list \<Rightarrow> bool" where
  "customers_change rows rows' = (rows' = rows \<or>
     (\<exists>c. customer_violation c rows = None \<and> rows' = rows @ [c]) \<or>
     (\<exists>c old. old \<in> set rows \<and> customer_live old \<and> cu_id old = cu_id c \<and> cu_workspace_id old = cu_workspace_id c \<and>
        customer_violation c (filter (\<lambda>r. cu_id r \<noteq> cu_id c) rows) = None \<and>
        rows' = map (\<lambda>r. if cu_id r = cu_id c then c else r) rows))"

lemma customers_change_refl [simp]: "customers_change rows rows"
  by (simp add: customers_change_def)

lemma jobs_only [simp]:
  "po_customers (add_job j db) = po_customers db"
  "po_members (add_job j db) = po_members db"
  "po_customer_sessions (add_job j db) = po_customer_sessions db"
  "po_member_sessions (add_job j db) = po_member_sessions db"
  "po_customers (dispatch_lifecycle e i db) = po_customers db"
  "po_members (dispatch_lifecycle e i db) = po_members db"
  "po_customer_sessions (dispatch_lifecycle e i db) = po_customer_sessions db"
  "po_member_sessions (dispatch_lifecycle e i db) = po_member_sessions db"
  "po_customers (update_dispatch c db) = po_customers db"
  "po_members (update_dispatch c db) = po_members db"
  "po_customer_sessions (update_dispatch c db) = po_customer_sessions db"
  "po_member_sessions (update_dispatch c db) = po_member_sessions db"
  by (simp_all add: add_job_def dispatch_lifecycle_def update_dispatch_def Let_def)

text \<open>The rest of the tables when customers are written.\<close>

definition customers_only :: "portal \<Rightarrow> portal \<Rightarrow> bool" where
  "customers_only db db' = (po_members db' = po_members db \<and>
     po_customer_sessions db' = po_customer_sessions db \<and> po_member_sessions db' = po_member_sessions db)"

lemma write_customer_change:
  assumes "write_customer c db = Inr (u, db')" and "old \<in> set (po_customers db)" and "customer_live old"
    and "cu_id old = cu_id c" and "cu_workspace_id old = cu_workspace_id c"
  shows "customers_change (po_customers db) (po_customers db') \<and> customers_only db db'"
proof -
  have "customer_violation c (filter (\<lambda>r. cu_id r \<noteq> cu_id c) (po_customers db)) = None"
    and "db' = db\<lparr>po_customers := map (\<lambda>r. if cu_id r = cu_id c then c else r) (po_customers db)\<rparr>"
    using assms(1) by (auto simp: write_customer_def other_customers_def db_error_def split: if_splits)
  with assms(2-5) show ?thesis by (auto simp: customers_change_def customers_only_def)
qed

lemma customer_repo_update_change:
  assumes "customer_repo_update c db = Inr (u, db')" and "old \<in> set (po_customers db)" and "customer_live old"
    and "cu_id old = cu_id c" and "cu_workspace_id old = cu_workspace_id c"
  shows "customers_change (po_customers db) (po_customers db') \<and> customers_only db db'"
proof -
  obtain v db1 where w: "write_customer c db = Inr (v, db1)" and db': "db' = update_dispatch c db1"
    using assms(1) by (auto simp: customer_repo_update_def bind_sum_Inr_iff)
  show ?thesis using write_customer_change [OF w assms(2-5)] by (simp add: db' customers_only_def)
qed

lemma with_changes_key [simp]:
  "cu_id (with_changes c g) = cu_id c" "cu_workspace_id (with_changes c g) = cu_workspace_id c"
  "cu_deleted_at (with_changes c g) = cu_deleted_at c"
  by (simp_all add: with_changes_def with_email_def)

lemma archive_external_id_key [simp]:
  "cu_id (archive_external_id env c) = cu_id c"
  "cu_workspace_id (archive_external_id env c) = cu_workspace_id c"
  "cu_deleted_at (archive_external_id env c) = cu_deleted_at c"
  by (simp_all add: archive_external_id_def)

lemma customer_update_change:
  assumes "customer_update c g db = Inr (x, db')" and "c \<in> set (po_customers db)" and "customer_live c"
  shows "customers_change (po_customers db) (po_customers db') \<and> customers_only db db'"
proof -
  have "customer_repo_update (with_changes c g) db = Inr ((), db')"
    using assms(1) by (auto simp: customer_update_def bind_sum_Inr_iff Let_def split: if_splits)
  from customer_repo_update_change [OF this assms(2,3)] show ?thesis by simp
qed

lemma customer_delete_change:
  assumes "customer_delete env now anonymize c db = Inr (x, db')" and "c \<in> set (po_customers db)" and "customer_live c"
  shows "customers_change (po_customers db) (po_customers db') \<and> customers_only db db'"
proof (cases anonymize)
  case True
  show ?thesis
  proof (cases "ends_with (cu_email c) (''@'' @ ANONYMIZED_EMAIL_DOMAIN)")
    case True
    with \<open>anonymize\<close> assms(1) show ?thesis by (simp add: customer_delete_def anonymize_customer_def customers_only_def)
  next
    case False
    with True assms(1) obtain c' where "customer_repo_update c' db = Inr ((), db')"
      and "cu_id c' = cu_id c" and "cu_workspace_id c' = cu_workspace_id c"
      by (auto simp: customer_delete_def anonymize_customer_def bind_sum_Inr_iff)
    then show ?thesis using customer_repo_update_change [of c' db "()" db' c] assms(2,3) by simp
  qed
next
  case False
  define c1 where "c1 = c\<lparr>cu_deleted_at := Some now\<rparr>"
  obtain u db1 where w: "write_customer (archive_external_id env c1) db = Inr (u, db1)"
    and db': "db' = dispatch_lifecycle Customer_Deleted (cu_id c) (update_dispatch c1 db1)"
    using False assms(1)
    by (auto simp: customer_delete_def customer_soft_delete_def Let_def bind_sum_Inr_iff c1_def)
  have "cu_id c = cu_id (archive_external_id env c1)" "cu_workspace_id c = cu_workspace_id (archive_external_id env c1)"
    by (simp_all add: c1_def)
  from write_customer_change [OF w assms(2,3) this] show ?thesis by (simp add: db' customers_only_def)
qed

lemma found_customer:
  assumes "find_customer auth ref db = Inr (Some c)"
  shows "c \<in> set (po_customers db)" and "customer_live c"
  using assms
  by (cases ref; auto simp: customer_get_def customer_get_external_def dest!: select_portal_Some)+

lemma get_or_create_by_email_change:
  assumes "get_or_create_by_email i email w name db = Inr (c, db')"
  shows "customers_change (po_customers db) (po_customers db') \<and> customers_only db db'"
  using assms
  by (fastforce simp: get_or_create_by_email_def Let_def bind_sum_Inr_iff db_error_def customers_only_def
      customers_change_def split: if_splits option.splits)

lemma customer_create_change:
  assumes "customer_create_action now i mi auth d db = Inr (c, db')"
  shows "\<exists>db1 c'. customer_violation c' (po_customers db) = None \<and>
      member_added (db\<lparr>po_customers := po_customers db @ [c']\<rparr>) db1 \<and>
      po_customers db' = po_customers db @ [c'] \<and> po_members db' = po_members db1 \<and>
      po_customer_sessions db' = po_customer_sessions db \<and> po_member_sessions db' = po_member_sessions db"
proof -
  obtain w db1 e n x u where v: "customer_violation (new_customer i w d) (po_customers db) = None"
    and m: "create_owner_member now mi (new_customer i w d) w e n x
        (db\<lparr>po_customers := po_customers db @ [new_customer i w d]\<rparr>) = Inr (u, db1)"
    and db': "db' = dispatch_lifecycle Customer_Created i db1"
    using assms by (auto simp: customer_create_action_def bind_sum_Inr_iff Let_def split: if_splits option.splits)
  note added = create_owner_member_added [OF m]
  moreover from added have "po_customers db1 = po_customers db @ [new_customer i w d]"
    "po_customer_sessions db1 = po_customer_sessions db" "po_member_sessions db1 = po_member_sessions db"
    by (auto simp: member_added_def)
  ultimately show ?thesis using v db' by (intro exI [of _ db1] exI [of _ "new_customer i w d"]) simp
qed

subsection \<open>Sessions\<close>

text \<open>A session goes only when it has expired or when its token is revoked.\<close>

definition sessions_change :: "portal_env \<Rightarrow> int \<Rightarrow> portal_op \<Rightarrow> portal_session list \<Rightarrow> portal_session list \<Rightarrow> bool" where
  "sessions_change env now op rows rows' = (rows' = rows \<or>
     (\<exists>x. \<not> session_taken x rows \<and> rows' = rows @ [x]) \<or>
     (\<exists>P. rows' = filter P rows \<and> (\<forall>x \<in> set rows. P x \<or> ps_expires_at x < now \<or>
        (\<exists>tok y. op = Revoke tok \<and> y \<in> set rows \<and> ps_id y = ps_id x \<and> ps_token y = portal_hash env tok))))"

lemma sessions_change_refl [simp]: "sessions_change env now op rows rows"
  by (simp add: sessions_change_def)

lemma create_customer_session_change:
  assumes "create_customer_session env now i entropy cid ret db = Inr (t, db')"
  shows "sessions_change env now' op (po_customer_sessions db) (po_customer_sessions db')"
    and "po_customers db' = po_customers db" and "po_members db' = po_members db"
    and "po_member_sessions db' = po_member_sessions db"
  using assms by (auto simp: create_customer_session_def db_error_def sessions_change_def split: prod.splits if_splits)

lemma create_member_session_change:
  assumes "create_member_session env now i entropy mid ret db = Inr (t, db')"
  shows "sessions_change env now' op (po_member_sessions db) (po_member_sessions db')"
    and "po_customers db' = po_customers db" and "po_members db' = po_members db"
    and "po_customer_sessions db' = po_customer_sessions db"
  using assms by (auto simp: create_member_session_def db_error_def sessions_change_def split: prod.splits if_splits)

lemma revoke_change:
  assumes "revoke_leaked_session env now tok db = Inr (b, db')"
  shows "sessions_change env now (Revoke tok) (po_customer_sessions db) (po_customer_sessions db')"
    and "po_customers db' = po_customers db" and "po_members db' = po_members db"
    and "po_member_sessions db' = po_member_sessions db"
proof -
  have "db' = db \<or> (\<exists>x \<in> set (po_customer_sessions db). ps_token x = portal_hash env tok \<and>
      db' = db\<lparr>po_customer_sessions := filter (\<lambda>y. ps_id y \<noteq> ps_id x) (po_customer_sessions db)\<rparr>)"
    using assms
    by (fastforce simp: revoke_leaked_session_def bind_sum_Inr_iff customer_session_by_token_def session_valid_def
        split: option.splits dest!: select_portal_Some)
  then show "sessions_change env now (Revoke tok) (po_customer_sessions db) (po_customer_sessions db')"
    and "po_customers db' = po_customers db" and "po_members db' = po_members db"
    and "po_member_sessions db' = po_member_sessions db"
    unfolding sessions_change_def by auto
qed

lemma not_expired_change: "sessions_change env now op rows (not_expired now rows)"
  unfolding sessions_change_def not_expired_def by blast

subsection \<open>One step\<close>

text \<open>Rows of members are rewritten by three steps only; the others add at most one row.\<close>

fun rewrites_members :: "portal_op \<Rightarrow> bool" where
  "rewrites_members (Update_Member _ _ _ _) = True"
| "rewrites_members (Delete_Member _ _) = True"
| "rewrites_members Dedupe = True"
| "rewrites_members _ = False"

definition members_change :: "portal_op \<Rightarrow> member list \<Rightarrow> member list \<Rightarrow> bool" where
  "members_change op rows rows' = (rows' = rows \<or>
     (\<exists>m. \<not> member_violation m rows \<and> rows' = rows @ [m]) \<or>
     (rewrites_members op \<and> (\<exists>h. rows' = map h rows \<and> (\<forall>m. mb_id (h m) = mb_id m \<and> mb_customer_id (h m) = mb_customer_id m \<and>
        mb_email (h m) = mb_email m \<and> mb_created_at (h m) = mb_created_at m \<and>
        (mb_deleted_at m \<noteq> None \<longrightarrow> mb_deleted_at (h m) \<noteq> None)))))"

lemma members_change_refl [simp]: "members_change op rows rows"
  by (simp add: members_change_def)

lemma member_added_change: "member_added db db' \<Longrightarrow> members_change op (po_members db) (po_members db')"
  by (auto simp: member_added_def members_change_def)

lemma member_added_rest:
  "member_added db db' \<Longrightarrow> po_customers db' = po_customers db \<and>
     po_customer_sessions db' = po_customer_sessions db \<and> po_member_sessions db' = po_member_sessions db"
  by (auto simp: member_added_def)

text \<open>\<open>soft_delete_member\<close> over a list of members: the losers of the repair job.\<close>

definition delete_members :: "int \<Rightarrow> uuid set \<Rightarrow> portal \<Rightarrow> portal" where
  "delete_members now ids db =
     db\<lparr>po_members := map (\<lambda>m. if mb_id m \<in> ids then m\<lparr>mb_deleted_at := Some now\<rparr> else m) (po_members db)\<rparr>"

lemma delete_members_none [simp]: "delete_members now {} db = db"
  by (simp add: delete_members_def)

lemma soft_delete_member_delete: "soft_delete_member now i db = delete_members now {i} db"
  by (simp add: soft_delete_member_def change_member_def delete_members_def)

lemma delete_members_twice: "delete_members now B (delete_members now A db) = delete_members now (A \<union> B) db"
  by (cases db) (auto simp: delete_members_def)

lemma delete_members_change: "rewrites_members op \<Longrightarrow> members_change op (po_members db) (po_members (delete_members now ids db))"
  unfolding members_change_def delete_members_def
  by (intro disjI2 conjI, assumption, rule exI [of _ "\<lambda>m. if mb_id m \<in> ids then m\<lparr>mb_deleted_at := Some now\<rparr> else m"]) auto

lemma delete_members_rest [simp]:
  "po_customers (delete_members now ids db) = po_customers db"
  "po_customer_sessions (delete_members now ids db) = po_customer_sessions db"
  "po_member_sessions (delete_members now ids db) = po_member_sessions db"
  by (simp_all add: delete_members_def)

lemma delete_losers:
  "foldl (\<lambda>(n, d) loser. (Suc n, soft_delete_member now (mb_id loser) d)) (k0, db) losers =
     (k0 + length losers, delete_members now (mb_id ` set losers) db)"
  by (induction losers arbitrary: k0 db)
     (simp_all add: soft_delete_member_delete delete_members_twice)

lemma dedupe_group_delete:
  "\<exists>n ids. dedupe_group env now k (k0, db) = (n, delete_members now ids db)"
proof (cases "length (list_duplicates_for_dedupe env k db) < 2")
  case True
  then show ?thesis by (auto simp: dedupe_group_def intro: exI [of _ "{}"])
next
  case False
  then show ?thesis using delete_losers by (simp add: dedupe_group_def) blast
qed

lemma dedupe_fold_delete:
  "\<exists>n ids. foldl (\<lambda>acc (k, c). dedupe_group env now k acc) (k0, db) groups = (n, delete_members now ids db)"
proof (induction groups arbitrary: k0 db)
  case Nil
  show ?case by (auto intro: exI [of _ "{}"])
next
  case (Cons g groups)
  obtain k c where g: "g = (k, c)" by (rule prod.exhaust)
  obtain n ids where d: "dedupe_group env now k (k0, db) = (n, delete_members now ids db)"
    using dedupe_group_delete by blast
  show ?case using Cons.IH [of n "delete_members now ids db"] by (auto simp: g d delete_members_twice)
qed

lemma auto_dedupe_delete: "\<exists>n ids. auto_dedupe env now db = (n, delete_members now ids db)"
  unfolding auto_dedupe_def by (rule dedupe_fold_delete)

lemma change_member_change:
  assumes "rewrites_members op" and "\<And>m. mb_id (g m) = mb_id m \<and> mb_customer_id (g m) = mb_customer_id m \<and> mb_email (g m) = mb_email m \<and>
      mb_created_at (g m) = mb_created_at m \<and> mb_deleted_at (g m) = mb_deleted_at m"
  shows "members_change op (po_members db) (po_members (change_member i g db))"
  unfolding members_change_def change_member_def
  by (intro disjI2 conjI, rule assms, rule exI [of _ "\<lambda>m. if mb_id m = i then g m else m"]) (simp add: assms)

lemma change_member_rest [simp]:
  "po_customers (change_member i g db) = po_customers db"
  "po_customer_sessions (change_member i g db) = po_customer_sessions db"
  "po_member_sessions (change_member i g db) = po_member_sessions db"
  by (simp_all add: change_member_def)

lemma member_update_cases:
  assumes "member_update m name role db = Inr (u, db')"
  shows "db' = db \<or> db' = change_member (mb_id m) (\<lambda>x. x\<lparr>
      mb_name := (case name of None \<Rightarrow> mb_name x | Some n \<Rightarrow> Some n), mb_role := set_field role (mb_role x)\<rparr>) db"
  using assms by (auto simp: member_update_def bind_sum_Inr_iff)

lemma member_delete_eq: "member_delete now m db = Inr (u, db') \<Longrightarrow> db' = delete_members now {mb_id m} db"
  by (auto simp: member_delete_def soft_delete_member_delete split: if_splits)

text \<open>Member sessions go by expiry only: the revocation of a leaked token does not look at them.\<close>

definition portal_effect :: "portal_env \<Rightarrow> int \<Rightarrow> portal_op \<Rightarrow> portal \<Rightarrow> portal \<Rightarrow> bool" where
  "portal_effect env now op db db' = (customers_change (po_customers db) (po_customers db') \<and>
     members_change op (po_members db) (po_members db') \<and>
     sessions_change env now op (po_customer_sessions db) (po_customer_sessions db') \<and>
     sessions_change env now Expire_Member_Sessions (po_member_sessions db) (po_member_sessions db'))"

lemma portal_effect_refl [simp]: "portal_effect env now op db db"
  by (simp add: portal_effect_def)

lemma customers_only_effect:
  "customers_change (po_customers db) (po_customers db') \<and> customers_only db db' \<Longrightarrow> portal_effect env now op db db'"
  by (simp add: portal_effect_def customers_only_def)

lemma member_added_effect: "member_added db db' \<Longrightarrow> portal_effect env now op db db'"
  using member_added_change member_added_rest by (simp add: portal_effect_def)

lemma delete_members_effect: "rewrites_members op \<Longrightarrow> portal_effect env now op db (delete_members now' ids db)"
  by (simp add: portal_effect_def delete_members_change)

lemma with_found_Inr:
  "with_found r f = Inr db' \<longleftrightarrow> (\<exists>x u. r = Inr (Some x) \<and> f x = Inr (u, db'))"
  by (auto simp: with_found_def bind_sum_Inr_iff split: option.splits)

lemma after_Inr: "after r = Inr db' \<longleftrightarrow> (\<exists>u. r = Inr (u, db'))"
  by (auto simp: after_def bind_sum_Inr_iff)

lemma customer_session_create_effect:
  assumes "customer_session_create env now i mi entropy auth r db = Inr (t, db')"
  shows "portal_effect env now op db db'"
proof -
  obtain c where c: "find_customer auth (sr_customer r) db = Inr (Some c)"
    using assms by (auto simp: customer_session_create_def bind_sum_Inr_iff split: option.splits)
  show ?thesis
  proof (cases "po_features db (cu_workspace_id c) MEMBER_FLAG")
    case True
    with assms c obtain m db1 where m: "session_member now mi r c db = Inr (m, db1)"
      and s: "create_member_session env now i entropy (mb_id m) (sr_return_url r) db1 = Inr (t, db')"
      by (auto simp: customer_session_create_def bind_sum_Inr_iff)
    note a = session_member_added [OF m]
    show ?thesis
      using create_member_session_change [OF s] member_added_change [OF a] member_added_rest [OF a]
      by (simp add: portal_effect_def)
  next
    case False
    with assms c have s: "create_customer_session env now i entropy (cu_id c) (sr_return_url r) db = Inr (t, db')"
      by (simp add: customer_session_create_def)
    show ?thesis using create_customer_session_change [OF s] by (simp add: portal_effect_def)
  qed
qed

lemma member_session_create_effect:
  assumes "member_session_create env now i entropy auth mid ret db = Inr (t, db')"
  shows "portal_effect env now op db db'"
proof -
  have s: "create_member_session env now i entropy mid ret db = Inr (t, db')"
    using assms by (auto simp: member_session_create_def bind_sum_Inr_iff split: option.splits if_splits)
  show ?thesis using create_member_session_change [OF s] by (simp add: portal_effect_def)
qed

lemma customer_create_effect:
  assumes "customer_create_action now i mi auth d db = Inr (c, db')"
  shows "portal_effect env now' op db db'"
proof -
  obtain db1 c' where v: "customer_violation c' (po_customers db) = None"
    and a: "member_added (db\<lparr>po_customers := po_customers db @ [c']\<rparr>) db1"
    and e: "po_customers db' = po_customers db @ [c']" "po_members db' = po_members db1"
      "po_customer_sessions db' = po_customer_sessions db" "po_member_sessions db' = po_member_sessions db"
    using customer_create_change [OF assms] by blast
  have "customers_change (po_customers db) (po_customers db')"
    unfolding customers_change_def e using v by blast
  with member_added_change [OF a] e show ?thesis by (simp add: portal_effect_def)
qed

theorem portal_step_effect: "portal_effect env now op db (portal_step env now op db)"
proof (cases "bind_sum (case op_subject op of None \<Rightarrow> Inr () | Some auth \<Rightarrow> portal_principal auth)
             (\<lambda>_. portal_action env now op db)")
  case (Inl e)
  then show ?thesis by (simp add: portal_step_def)
next
  case (Inr db')
  then have step: "portal_step env now op db = db'" and act: "portal_action env now op db = Inr db'"
    by (auto simp: portal_step_def bind_sum_Inr_iff)
  have "portal_effect env now op db db'"
  proof (cases op)
    case (Create_Customer auth d i mi)
    with act show ?thesis by (auto simp: after_Inr intro: customer_create_effect)
  next
    case (Update_Customer auth ref g)
    with act show ?thesis
      by (auto simp: with_found_Inr intro!: customers_only_effect dest: customer_update_change found_customer)
  next
    case (Delete_Customer auth ref anonymize)
    with act show ?thesis
      by (auto simp: with_found_Inr intro!: customers_only_effect dest: customer_delete_change found_customer)
  next
    case (Buyer i email w name)
    with act show ?thesis by (auto simp: after_Inr intro!: customers_only_effect dest: get_or_create_by_email_change)
  next
    case (Create_Member auth d i)
    with act show ?thesis by (auto simp: after_Inr dest!: member_create_action_added intro: member_added_effect)
  next
    case (Update_Member auth i name role)
    then obtain m where "member_update m (empty_str_to_none name) role db = Inr ((), db')"
      using act by (auto simp: with_found_Inr)
    from member_update_cases [OF this] show ?thesis
      by (auto simp: portal_effect_def Update_Member intro!: change_member_change)
  next
    case (Delete_Member auth i)
    with act show ?thesis by (auto simp: with_found_Inr delete_members_effect dest!: member_delete_eq)
  next
    case Dedupe
    with act auto_dedupe_delete [of env now db] show ?thesis by (auto simp: delete_members_effect)
  next
    case (Open_Session auth r i mi entropy)
    with act show ?thesis by (auto simp: after_Inr intro: customer_session_create_effect)
  next
    case (Open_Member_Session auth m ret i entropy)
    with act show ?thesis by (auto simp: after_Inr intro: member_session_create_effect)
  next
    case (Portal_Link c i entropy)
    with act show ?thesis by (auto simp: with_found_Inr portal_effect_def dest: create_customer_session_change)
  next
    case (Revoke tok)
    with act show ?thesis by (auto simp: after_Inr portal_effect_def dest: revoke_change)
  next
    case Expire_Sessions
    with act show ?thesis by (auto simp: portal_effect_def delete_expired_customer_sessions_def not_expired_change)
  next
    case Expire_Member_Sessions
    with act show ?thesis by (auto simp: portal_effect_def delete_expired_member_sessions_def not_expired_change)
  next
    case (Set_Feature w f b)
    with act show ?thesis by (auto simp: portal_effect_def)
  qed
  then show ?thesis by (simp add: step)
qed

end
