(* ===== verification/Portal_Properties.thy ===== *)
theory Portal_Properties
  imports Portal_Facts "HOL-Library.Multiset"
begin

section \<open>What the customer portal guarantees\<close>

text \<open>
  The invariant of its tables over every run, the owners of a customer, the merging of members,
  what deletion does to external ids, and the life of a portal session.
\<close>

subsection \<open>The constraints of the tables\<close>

definition members_ok :: "member list \<Rightarrow> bool" where
  "members_ok rows = (distinct (map mb_id rows) \<and>
     (\<forall>m \<in> set rows. \<forall>m' \<in> set rows. mb_id m \<noteq> mb_id m' \<longrightarrow> mb_customer_id m = mb_customer_id m' \<longrightarrow>
        mb_email m \<noteq> mb_email m'))"

definition customers_apart :: "customer \<Rightarrow> customer \<Rightarrow> bool" where
  "customers_apart c d = (cu_workspace_id c = cu_workspace_id d \<longrightarrow>
     (cu_external_id c \<noteq> None \<longrightarrow> cu_external_id c \<noteq> cu_external_id d) \<and>
     (customer_live c \<longrightarrow> customer_live d \<longrightarrow> lower (cu_email c) \<noteq> lower (cu_email d)))"

definition customers_ok :: "customer list \<Rightarrow> bool" where
  "customers_ok rows = (distinct (map cu_id rows) \<and>
     (\<forall>c \<in> set rows. \<forall>d \<in> set rows. cu_id c \<noteq> cu_id d \<longrightarrow> customers_apart c d))"

definition sessions_ok :: "portal_session list \<Rightarrow> bool" where
  "sessions_ok rows = (distinct (map ps_token rows) \<and> distinct (map ps_id rows))"

definition portal_ok :: "portal \<Rightarrow> bool" where
  "portal_ok db = (customers_ok (po_customers db) \<and> members_ok (po_members db) \<and>
     sessions_ok (po_customer_sessions db) \<and> sessions_ok (po_member_sessions db))"

lemma customers_apart_sym: "customers_apart c d = customers_apart d c"
  by (auto simp: customers_apart_def)

lemma customers_ok_id: "customers_ok rows \<Longrightarrow> c \<in> set rows \<Longrightarrow> d \<in> set rows \<Longrightarrow> cu_id c = cu_id d \<Longrightarrow> c = d"
  unfolding customers_ok_def by (metis distinct_map inj_onD)

lemma no_violation_apart:
  assumes "customer_violation c rows = None" and "d \<in> set rows"
  shows "customers_apart c d" and "cu_id d \<noteq> cu_id c"
proof -
  have "\<not> (cu_workspace_id d = cu_workspace_id c \<and> cu_external_id c \<noteq> None \<and> cu_external_id d = cu_external_id c)"
    and "\<not> (customer_live c \<and> customer_live d \<and> cu_workspace_id d = cu_workspace_id c \<and> lower (cu_email d) = lower (cu_email c))"
    and "cu_id d \<noteq> cu_id c"
    using assms by (auto simp: customer_violation_def list_ex_iff split: if_splits)
  then show "customers_apart c d" and "cu_id d \<noteq> cu_id c" by (auto simp: customers_apart_def)
qed

lemma customers_change_ok:
  assumes ok: "customers_ok rows" and "customers_change rows rows'"
  shows "customers_ok rows'"
  using assms(2) unfolding customers_change_def
proof (elim disjE exE conjE)
  assume "rows' = rows"
  with ok show ?thesis by simp
next
  fix c assume v: "customer_violation c rows = None" and rows': "rows' = rows @ [c]"
  have "cu_id c \<notin> cu_id ` set rows" using no_violation_apart(2) [OF v] by fastforce
  with ok show ?thesis
    using no_violation_apart(1) [OF v] by (auto simp: customers_ok_def rows' customers_apart_sym)
next
  fix c old
  assume v: "customer_violation c (filter (\<lambda>r. cu_id r \<noteq> cu_id c) rows) = None"
    and rows': "rows' = map (\<lambda>r. if cu_id r = cu_id c then c else r) rows"
  have ids: "map cu_id rows' = map cu_id rows" by (simp add: rows')
  have mem: "r \<in> set rows' \<Longrightarrow> r = c \<or> r \<in> set rows \<and> cu_id r \<noteq> cu_id c" for r
    by (auto simp: rows' split: if_splits)
  have apart: "customers_apart c d" if "d \<in> set rows" "cu_id d \<noteq> cu_id c" for d
    using that by (intro no_violation_apart(1) [OF v]) simp
  have "customers_apart r r'" if "r \<in> set rows'" "r' \<in> set rows'" "cu_id r \<noteq> cu_id r'" for r r'
    using mem [OF that(1)] mem [OF that(2)] that(3) ok apart apart [unfolded customers_apart_sym [of c]]
    by (auto simp: customers_ok_def)
  with ok ids show ?thesis by (simp add: customers_ok_def)
qed

lemma members_change_ok:
  assumes ok: "members_ok rows" and "members_change op rows rows'"
  shows "members_ok rows'"
  using assms(2) unfolding members_change_def
proof (elim disjE exE conjE)
  assume "rows' = rows"
  with ok show ?thesis by simp
next
  fix m assume v: "\<not> member_violation m rows" and rows': "rows' = rows @ [m]"
  have "mb_id r \<noteq> mb_id m" "mb_customer_id r = mb_customer_id m \<Longrightarrow> mb_email r \<noteq> mb_email m" if "r \<in> set rows" for r
    using v that by (auto simp: member_violation_def list_ex_iff)
  with ok show ?thesis unfolding members_ok_def rows' by (auto, metis+)
next
  fix h assume rows': "rows' = map h rows"
    and h: "\<forall>m. mb_id (h m) = mb_id m \<and> mb_customer_id (h m) = mb_customer_id m \<and> mb_email (h m) = mb_email m \<and>
        mb_created_at (h m) = mb_created_at m \<and> (mb_deleted_at m \<noteq> None \<longrightarrow> mb_deleted_at (h m) \<noteq> None)"
  have "map mb_id rows' = map mb_id rows" by (simp add: rows' h)
  moreover have "mb_email m \<noteq> mb_email m'"
    if m: "m \<in> set rows'" "m' \<in> set rows'" "mb_id m \<noteq> mb_id m'" "mb_customer_id m = mb_customer_id m'" for m m'
  proof -
    obtain a b where "a \<in> set rows" "m = h a" "b \<in> set rows" "m' = h b" using m(1,2) by (auto simp: rows')
    with m(3,4) h ok show ?thesis by (simp add: members_ok_def)
  qed
  ultimately show ?thesis using ok by (simp add: members_ok_def)
qed

lemma sessions_change_ok:
  assumes "sessions_ok rows" and "sessions_change env now op rows rows'"
  shows "sessions_ok rows'"
proof -
  have "distinct (map f (filter P xs))" if "distinct (map f xs)" for f :: "portal_session \<Rightarrow> string" and P xs
    using that by (rule distinct_map_filter)
  then have "sessions_ok (filter P rows)" for P using assms(1) by (simp add: sessions_ok_def)
  moreover have "sessions_ok (rows @ [x])" if "\<not> session_taken x rows" for x
  proof -
    have "ps_token x \<notin> ps_token ` set rows" "ps_id x \<notin> ps_id ` set rows"
      using that by (auto simp: session_taken_def list_ex_iff)
    then show ?thesis using assms(1) by (simp add: sessions_ok_def)
  qed
  ultimately show ?thesis using assms by (auto simp: sessions_change_def)
qed

lemma portal_step_ok: "portal_ok db \<Longrightarrow> portal_ok (portal_step env now op db)"
  using portal_step_effect [of env now op db]
  by (auto simp: portal_ok_def portal_effect_def intro: customers_change_ok members_change_ok sessions_change_ok)

lemma portal_run_ok: "portal_ok db \<Longrightarrow> portal_ok (portal_run env ops db)"
  by (induction env ops db rule: portal_run.induct) (simp_all add: portal_step_ok)

subsection \<open>Merging members\<close>

lemma group_rows_in: "m \<in> set (group_rows k db) \<longleftrightarrow> m \<in> set (po_members db) \<and> member_live m \<and> group_of m = k"
  by (auto simp: group_rows_def)

lemma group_rows_distinct:
  "distinct (map mb_id (po_members db)) \<Longrightarrow> distinct (map mb_id (group_rows k db))"
  unfolding group_rows_def by (rule distinct_map_filter)

lemma delete_members_group:
  assumes "ids \<inter> mb_id ` set (group_rows k db) = {}"
  shows "group_rows k (delete_members now ids db) = group_rows k db"
proof -
  have "filter (\<lambda>m. member_live m \<and> group_of m = k)
          (map (\<lambda>m. if mb_id m \<in> ids then m\<lparr>mb_deleted_at := Some now\<rparr> else m) rows) =
        filter (\<lambda>m. member_live m \<and> group_of m = k) rows"
    if "\<forall>m \<in> set rows. member_live m \<and> group_of m = k \<longrightarrow> mb_id m \<notin> ids" for rows
    using that by (induction rows) (auto simp: member_live_def group_of_def)
  moreover have "\<forall>m \<in> set (po_members db). member_live m \<and> group_of m = k \<longrightarrow> mb_id m \<notin> ids"
    using assms by (auto simp: group_rows_in)
  ultimately show ?thesis by (simp add: group_rows_def delete_members_def)
qed

text \<open>The losers of a group: every row but the first of the sorted ones.\<close>

definition losers :: "portal_env \<Rightarrow> portal \<Rightarrow> member_group \<Rightarrow> uuid set" where
  "losers env db k = mb_id ` set (tl (list_duplicates_for_dedupe env k db))"

lemma set_list_duplicates [simp]: "set (list_duplicates_for_dedupe env k db) = set (group_rows k db)"
  by (simp add: list_duplicates_for_dedupe_def)

lemma length_list_duplicates [simp]: "length (list_duplicates_for_dedupe env k db) = length (group_rows k db)"
  by (simp add: list_duplicates_for_dedupe_def)

lemma losers_group: "losers env db k \<subseteq> mb_id ` set (group_rows k db)"
  unfolding losers_def by (metis image_mono list.set_sel(2) set_list_duplicates subsetI tl_Nil)

lemma dedupe_group_eq:
  "dedupe_group env now k (n0, db) = (n0 + (length (group_rows k db) - 1), delete_members now (losers env db k) db)"
proof (cases "length (group_rows k db) < 2")
  case True
  then have "tl (list_duplicates_for_dedupe env k db) = []"
    by (metis One_nat_def Suc_1 diff_is_0_eq length_0_conv length_list_duplicates length_tl less_Suc_eq_le)
  with True show ?thesis by (simp add: dedupe_group_def losers_def)
next
  case False
  then show ?thesis by (simp add: dedupe_group_def delete_losers losers_def)
qed

lemma other_groups_apart:
  assumes "distinct (map mb_id (po_members db))" and "k \<noteq> k'"
  shows "mb_id ` set (group_rows k db) \<inter> mb_id ` set (group_rows k' db) = {}"
proof -
  have inj: "inj_on mb_id (set (po_members db))" using assms(1) by (simp add: distinct_map)
  have False if m: "m \<in> set (group_rows k db)" "m' \<in> set (group_rows k' db)" "mb_id m = mb_id m'" for m m'
  proof -
    have "m \<in> set (po_members db)" "m' \<in> set (po_members db)" "group_of m = k" "group_of m' = k'"
      using m(1,2) by (simp_all only: group_rows_in)
    with inj_onD [OF inj m(3)] assms(2) show False by simp
  qed
  then show ?thesis by blast
qed

lemma dedupe_fold_eq:
  assumes "distinct (map mb_id (po_members db))" and "distinct (map fst gs)" and "K \<inter> set (map fst gs) = {}"
  shows "foldl (\<lambda>acc (k, c). dedupe_group env now k acc) (n0, delete_members now (\<Union>k \<in> K. losers env db k) db) gs =
    (n0 + (\<Sum>k \<leftarrow> map fst gs. length (group_rows k db) - 1),
     delete_members now (\<Union>k \<in> K \<union> set (map fst gs). losers env db k) db)"
  using assms(2,3)
proof (induction gs arbitrary: n0 K)
  case Nil
  then show ?case by simp
next
  case (Cons g gs)
  obtain k c where g: "g = (k, c)" by (rule prod.exhaust)
  define A where "A = (\<Union>k \<in> K. losers env db k)"
  have "k \<notin> K" using Cons.prems(2) by (simp add: g)
  then have "losers env db k' \<inter> mb_id ` set (group_rows k db) = {}" if "k' \<in> K" for k'
    using that losers_group [of env db k'] other_groups_apart [OF assms(1), of k' k] by fast
  then have "A \<inter> mb_id ` set (group_rows k db) = {}" unfolding A_def by blast
  then have rows: "group_rows k (delete_members now A db) = group_rows k db" by (rule delete_members_group)
  then have "losers env (delete_members now A db) k = losers env db k"
    by (simp add: losers_def list_duplicates_for_dedupe_def)
  then have one: "dedupe_group env now k (n0, delete_members now A db) =
      (n0 + (length (group_rows k db) - 1), delete_members now (\<Union>k \<in> insert k K. losers env db k) db)"
    unfolding dedupe_group_eq rows delete_members_twice by (simp add: A_def Un_commute)
  have "distinct (map fst gs)" and "insert k K \<inter> set (map fst gs) = {}" using Cons.prems by (auto simp: g)
  note IH = Cons.IH [OF this, of "n0 + (length (group_rows k db) - 1)"]
  have "insert k K \<union> set (map fst gs) = K \<union> set (map fst (g # gs))" by (simp add: g)
  with IH one show ?case unfolding A_def g by (simp only: foldl.simps split_def fst_conv snd_conv list.map sum_list.Cons add.assoc)
qed

text \<open>The groups of the live members, those with one row as well: they lose nothing.\<close>

lemma groups_distinct: "distinct (map fst (find_duplicates db))"
proof -
  have "distinct (map fst (filter (\<lambda>(k, n). 1 < n) (map (\<lambda>k. (k, g k)) ks)))"
    if "distinct ks" for g :: "member_group \<Rightarrow> nat" and ks
    using that by (intro distinct_map_filter) (simp add: o_def)
  moreover have "distinct (map fst (sort_key f xs)) = distinct (map fst xs)"
    for f :: "member_group \<times> nat \<Rightarrow> int \<times> uuid" and xs
    by (rule mset_eq_imp_distinct_iff) simp
  ultimately show ?thesis by (simp add: find_duplicates_def Let_def)
qed

lemma groups_set: "set (map fst (find_duplicates db)) = {k. 1 < length (group_rows k db)}"
proof -
  have "k \<in> group_of ` set (filter member_live (po_members db))" if "1 < length (group_rows k db)" for k
  proof -
    from that obtain m where "m \<in> set (group_rows k db)" by (cases "group_rows k db") auto
    then show ?thesis by (auto simp: group_rows_in)
  qed
  moreover have "set (find_duplicates db) = (\<lambda>k. (k, length (group_rows k db))) `
      {k \<in> group_of ` set (filter member_live (po_members db)). 1 < length (group_rows k db)}"
    by (simp add: find_duplicates_def Let_def) blast
  ultimately show ?thesis by (simp add: image_image) blast
qed

lemma auto_dedupe_eq:
  assumes "distinct (map mb_id (po_members db))"
  shows "auto_dedupe env now db =
    ((\<Sum>k \<leftarrow> map fst (find_duplicates db). length (group_rows k db) - 1),
     delete_members now (\<Union>k. losers env db k) db)"
proof -
  have "losers env db k = {}" if "\<not> 1 < length (group_rows k db)" for k
  proof -
    from that have "tl (list_duplicates_for_dedupe env k db) = []"
      by (metis One_nat_def diff_is_0_eq length_0_conv length_list_duplicates length_tl not_le)
    then show ?thesis by (simp add: losers_def)
  qed
  then have "(\<Union>k. losers env db k) = (\<Union>k \<in> {k. 1 < length (group_rows k db)}. losers env db k)" by auto
  then show ?thesis
    using dedupe_fold_eq [OF assms groups_distinct, of "{}" db env now 0]
    by (simp only: Int_empty_left UN_empty delete_members_none Un_empty_left groups_set simp_thms add_0 auto_dedupe_def)
qed

text \<open>A row is redundant when its group has a row of a lower rank.\<close>

definition redundant :: "portal_env \<Rightarrow> portal \<Rightarrow> member \<Rightarrow> bool" where
  "redundant env db m = (member_live m \<and>
     (\<exists>s \<in> set (po_members db). member_live s \<and> group_of s = group_of m \<and> dedupe_rank env s < dedupe_rank env m))"

lemma tl_sorted_iff:
  assumes "distinct xs" and "sorted (map f xs)" and "inj_on f (set xs)"
  shows "x \<in> set (tl xs) \<longleftrightarrow> x \<in> set xs \<and> (\<exists>y \<in> set xs. f y < (f x :: 'b :: linorder))"
proof (cases xs)
  case Nil
  then show ?thesis by simp
next
  case (Cons y ys)
  have le: "f y \<le> f z" if "z \<in> set ys" for z using assms(2) that by (simp add: Cons)
  have "f y < f z" if "z \<in> set ys" for z
    using le [OF that] assms(1,3) that by (auto simp: Cons inj_on_def order.order_iff_strict)
  then have "x \<in> set ys \<longleftrightarrow> x \<in> set xs \<and> (\<exists>z \<in> set xs. f z < f x)"
    using le by (auto simp: Cons not_less) (meson leD)
  then show ?thesis by (simp add: Cons)
qed

lemma losers_iff:
  assumes "distinct (map mb_id (po_members db))" and "inj_on (pe_tie env) (mb_id ` set (po_members db))"
    and m: "m \<in> set (po_members db)"
  shows "mb_id m \<in> (\<Union>k. losers env db k) \<longleftrightarrow> redundant env db m"
proof -
  define xs where "xs k = list_duplicates_for_dedupe env k db" for k
  have inj: "inj_on mb_id (set (po_members db))" using assms(1) by (simp add: distinct_map)
  have sub: "set (group_rows k db) \<subseteq> set (po_members db)" for k by (auto simp: group_rows_in)
  have "distinct (xs k)" for k
    using group_rows_distinct [OF assms(1), of k] by (simp add: xs_def list_duplicates_for_dedupe_def distinct_map)
  moreover have "sorted (map (dedupe_rank env) (xs k))" for k by (simp add: xs_def list_duplicates_for_dedupe_def)
  moreover have "inj_on (dedupe_rank env) (set (xs k))" for k
  proof (rule inj_onI)
    fix a b assume "a \<in> set (xs k)" "b \<in> set (xs k)" "dedupe_rank env a = dedupe_rank env b"
    with sub [of k] have "a \<in> set (po_members db)" "b \<in> set (po_members db)" "pe_tie env (mb_id a) = pe_tie env (mb_id b)"
      by (auto simp: xs_def dedupe_rank_def)
    then have "mb_id a = mb_id b" using assms(2) by (auto dest: inj_onD)
    with inj \<open>a \<in> set (po_members db)\<close> \<open>b \<in> set (po_members db)\<close> show "a = b" by (auto dest: inj_onD)
  qed
  ultimately have tl: "x \<in> set (tl (xs k)) \<longleftrightarrow>
      x \<in> set (group_rows k db) \<and> (\<exists>y \<in> set (group_rows k db). dedupe_rank env y < dedupe_rank env x)" for x k
    using tl_sorted_iff [of "xs k" "dedupe_rank env" x] by (simp add: xs_def)
  have "mb_id m \<in> losers env db k \<longleftrightarrow> m \<in> set (tl (xs k))" for k
  proof -
    have "set (tl (xs k)) \<subseteq> set (po_members db)" using tl [of _ k] sub [of k] by blast
    then have "mb_id m \<in> mb_id ` set (tl (xs k)) \<longleftrightarrow> m \<in> set (tl (xs k))"
      using inj m by (auto dest: inj_onD)
    then show ?thesis by (simp only: losers_def xs_def)
  qed
  then show ?thesis using tl m by (auto simp: redundant_def group_rows_in)
qed

lemma auto_dedupe_rows:
  assumes "distinct (map mb_id (po_members db))" and "inj_on (pe_tie env) (mb_id ` set (po_members db))"
  shows "snd (auto_dedupe env now db) = db\<lparr>po_members :=
      map (\<lambda>m. if redundant env db m then m\<lparr>mb_deleted_at := Some now\<rparr> else m) (po_members db)\<rparr>"
  using losers_iff [OF assms] by (simp add: auto_dedupe_eq [OF assms(1)] delete_members_def)

lemma auto_dedupe_count:
  assumes "distinct (map mb_id (po_members db))" and "inj_on (pe_tie env) (mb_id ` set (po_members db))"
  shows "fst (auto_dedupe env now db) = length (filter (redundant env db) (po_members db))"
proof -
  define K where "K = set (map fst (find_duplicates db))"
  have inj: "inj_on mb_id (set (po_members db))" using assms(1) by (simp add: distinct_map)
  have card_losers: "card (losers env db k) = length (group_rows k db) - 1" for k
  proof -
    have "distinct (map mb_id (list_duplicates_for_dedupe env k db))"
      using group_rows_distinct [OF assms(1), of k]
      by (metis distinct_map distinct_sort list_duplicates_for_dedupe_def set_list_duplicates)
    then have "distinct (map mb_id (tl (list_duplicates_for_dedupe env k db)))"
      by (simp add: map_tl distinct_tl)
    from distinct_card [OF this] show ?thesis by (simp add: losers_def)
  qed
  have none: "losers env db k = {}" if "k \<notin> K" for k
  proof -
    have "\<not> 1 < length (group_rows k db)" using that groups_set [of db] unfolding K_def by blast
    then have "card (losers env db k) = 0" by (simp add: card_losers)
    then show ?thesis by (simp add: losers_def)
  qed
  have "losers env db k \<inter> losers env db k' = {}" if "k \<noteq> k'" for k k'
    using losers_group [of env db k] losers_group [of env db k'] other_groups_apart [OF assms(1) that] by blast
  then have "card (\<Union>k \<in> K. losers env db k) = (\<Sum>k \<in> K. card (losers env db k))"
    by (intro card_UN_disjoint) (simp_all add: K_def losers_def)
  also have "\<dots> = (\<Sum>k \<leftarrow> map fst (find_duplicates db). length (group_rows k db) - 1)"
    by (simp only: card_losers K_def sum_list_distinct_conv_sum_set [OF groups_distinct])
  also have "\<dots> = fst (auto_dedupe env now db)" by (simp add: auto_dedupe_eq [OF assms(1)])
  finally have "fst (auto_dedupe env now db) = card (\<Union>k \<in> K. losers env db k)" by simp
  moreover have "(\<Union>k \<in> K. losers env db k) = (\<Union>k. losers env db k)"
  proof (intro equalityI subsetI)
    fix i assume "i \<in> (\<Union>k. losers env db k)"
    then obtain k where k: "i \<in> losers env db k" by blast
    with none [of k] have "k \<in> K" by (cases "k \<in> K") auto
    with k show "i \<in> (\<Union>k \<in> K. losers env db k)" by blast
  qed blast
  moreover have "(\<Union>k. losers env db k) = mb_id ` set (filter (redundant env db) (po_members db))"
  proof -
    have "mb_id ` set (group_rows k db) \<subseteq> mb_id ` set (po_members db)" for k by (auto simp: group_rows_in)
    with losers_group [of env db] have sub: "(\<Union>k. losers env db k) \<subseteq> mb_id ` set (po_members db)" by blast
    show ?thesis
    proof (intro equalityI subsetI)
      fix i assume i: "i \<in> (\<Union>k. losers env db k)"
      with sub obtain m where m: "m \<in> set (po_members db)" "i = mb_id m" by blast
      with i losers_iff [OF assms m(1)] have "redundant env db m" by simp
      with m show "i \<in> mb_id ` set (filter (redundant env db) (po_members db))" by simp
    next
      fix i assume "i \<in> mb_id ` set (filter (redundant env db) (po_members db))"
      then obtain m where m: "m \<in> set (po_members db)" "redundant env db m" "i = mb_id m" by auto
      with losers_iff [OF assms m(1)] show "i \<in> (\<Union>k. losers env db k)" by simp
    qed
  qed
  moreover have "card (mb_id ` set (filter P (po_members db))) = length (filter P (po_members db))" for P
    using distinct_card [of "map mb_id (filter P (po_members db))"] assms(1) by (simp add: distinct_map_filter)
  ultimately show ?thesis by simp
qed

lemma live_after_dedupe:
  assumes "distinct (map mb_id (po_members db))" and "inj_on (pe_tie env) (mb_id ` set (po_members db))"
  shows "m \<in> set (po_members (snd (auto_dedupe env now db))) \<and> member_live m \<longleftrightarrow>
    m \<in> set (po_members db) \<and> member_live m \<and> \<not> redundant env db m"
  unfolding auto_dedupe_rows [OF assms] by (auto simp: member_live_def split: if_splits)

lemma rank_inj:
  assumes "distinct (map mb_id (po_members db))" and "inj_on (pe_tie env) (mb_id ` set (po_members db))"
  shows "inj_on (dedupe_rank env) (set (po_members db))"
proof (rule inj_onI)
  fix a b assume m: "a \<in> set (po_members db)" "b \<in> set (po_members db)" "dedupe_rank env a = dedupe_rank env b"
  then have "pe_tie env (mb_id a) = pe_tie env (mb_id b)" by (simp add: dedupe_rank_def)
  with assms(2) m(1,2) have "mb_id a = mb_id b" by (auto dest: inj_onD)
  with assms(1) m(1,2) show "a = b" by (auto simp: distinct_map dest: inj_onD)
qed

text \<open>Of every group exactly the row of the lowest rank stays.\<close>

lemma survivor:
  assumes ids: "distinct (map mb_id (po_members db))" and tie: "inj_on (pe_tie env) (mb_id ` set (po_members db))"
    and m: "m \<in> set (po_members db)" "member_live m"
  shows "\<exists>s \<in> set (group_rows (group_of m) db). \<not> redundant env db s \<and> dedupe_rank env s \<le> dedupe_rank env m"
proof -
  define S where "S = set (group_rows (group_of m) db)"
  have S: "finite S" "m \<in> S" using m by (simp_all add: S_def group_rows_in)
  then obtain s where s: "s \<in> S" "dedupe_rank env s = Min (dedupe_rank env ` S)"
    by (metis (no_types, lifting) Min_in empty_iff finite_imageI image_iff image_is_empty)
  have min: "dedupe_rank env s \<le> dedupe_rank env x" if "x \<in> S" for x using S(1) that by (simp add: s(2))
  have "\<not> redundant env db s"
  proof
    assume "redundant env db s"
    then obtain x where "x \<in> set (po_members db)" "member_live x" "group_of x = group_of s" "dedupe_rank env x < dedupe_rank env s"
      by (auto simp: redundant_def)
    moreover from s(1) have "group_of s = group_of m" by (simp add: S_def group_rows_in)
    ultimately have "x \<in> S" "dedupe_rank env x < dedupe_rank env s" by (simp_all add: S_def group_rows_in)
    with min show False by (meson leD)
  qed
  with s(1) min [OF S(2)] show ?thesis unfolding S_def by blast
qed

lemma not_redundant_unique:
  assumes "distinct (map mb_id (po_members db))" and "inj_on (pe_tie env) (mb_id ` set (po_members db))"
    and "a \<in> set (group_rows k db)" "b \<in> set (group_rows k db)" "\<not> redundant env db a" "\<not> redundant env db b"
  shows "a = b"
proof (rule ccontr)
  assume "a \<noteq> b"
  have mem: "a \<in> set (po_members db)" "b \<in> set (po_members db)" "member_live a" "member_live b" "group_of a = group_of b"
    using assms(3,4) by (simp_all add: group_rows_in)
  with \<open>a \<noteq> b\<close> have "dedupe_rank env a \<noteq> dedupe_rank env b" using rank_inj [OF assms(1,2)] by (auto dest: inj_onD)
  then have "dedupe_rank env a < dedupe_rank env b \<or> dedupe_rank env b < dedupe_rank env a" by (meson linorder_neqE)
  with mem assms(5,6) show False by (auto simp: redundant_def)
qed

lemma no_groups_left:
  assumes "distinct (map mb_id (po_members db))" and "inj_on (pe_tie env) (mb_id ` set (po_members db))"
  shows "find_duplicates (snd (auto_dedupe env now db)) = []"
proof -
  define db' where "db' = snd (auto_dedupe env now db)"
  have "map mb_id (po_members db') = map mb_id (po_members db)"
    by (simp add: db'_def auto_dedupe_rows [OF assms] o_def if_distrib cong: if_cong)
  then have distinct: "distinct (map mb_id (group_rows k db'))" for k
    using assms(1) group_rows_distinct [of db' k] by simp
  have same: "a = b" if "a \<in> set (group_rows k db')" "b \<in> set (group_rows k db')" for a b k
  proof -
    have "a \<in> set (group_rows k db)" "\<not> redundant env db a" "b \<in> set (group_rows k db)" "\<not> redundant env db b"
      using that live_after_dedupe [OF assms, of a now] live_after_dedupe [OF assms, of b now]
      by (auto simp: db'_def group_rows_in)
    then show ?thesis using not_redundant_unique [OF assms] by blast
  qed
  have "\<not> 1 < length (group_rows k db')" for k
  proof
    assume "1 < length (group_rows k db')"
    then obtain a b xs where ab: "group_rows k db' = a # b # xs"
      by (metis One_nat_def length_0_conv length_Cons less_numeral_extra(4) list.exhaust not_less_zero)
    have "a = b" by (rule same [of _ k]) (simp_all add: ab)
    with distinct [of k] ab show False by simp
  qed
  then have "set (map fst (find_duplicates db')) = {}" by (simp only: groups_set) blast
  then show ?thesis by (simp add: db'_def)
qed

subsection \<open>Owners\<close>

definition has_owner :: "uuid \<Rightarrow> portal \<Rightarrow> bool" where
  "has_owner cid db = (\<exists>m \<in> set (po_members db). mb_customer_id m = cid \<and> mb_role m = Owner \<and> member_live m)"

lemma second_owner:
  assumes "distinct (map mb_id (po_members db))" and "1 < owner_count (list_by_customer cid db)"
  shows "\<exists>m \<in> set (po_members db). mb_customer_id m = cid \<and> mb_role m = Owner \<and> member_live m \<and> mb_id m \<noteq> i"
proof -
  define xs where "xs = filter (\<lambda>m. mb_role m = Owner) (list_by_customer cid db)"
  have "distinct (map mb_id xs)" using assms(1) by (simp add: xs_def list_by_customer_def distinct_map_filter)
  moreover obtain a b ys where xs: "xs = a # b # ys"
    using assms(2) unfolding owner_count_def xs_def [symmetric]
    by (metis One_nat_def length_0_conv length_Cons less_numeral_extra(4) list.exhaust not_less_zero)
  ultimately have "mb_id a \<noteq> mb_id b" by simp
  then obtain m where "m \<in> set xs" "mb_id m \<noteq> i" using xs by (metis list.set_intros)
  then show ?thesis by (auto simp: xs_def list_by_customer_def)
qed

lemma found_member:
  assumes "member_get auth i db = Inr (Some m)"
  shows "m \<in> set (po_members db)" and "member_live m"
  using assms by (auto simp: member_get_def dest!: select_portal_Some)

lemma owner_change_member:
  assumes ids: "distinct (map mb_id (po_members db))" and m: "m \<in> set (po_members db)" and owner: "has_owner cid db"
    and g: "\<And>x. mb_customer_id (g x) = mb_customer_id x \<and> mb_deleted_at (g x) = mb_deleted_at x"
    and guard: "mb_role (g m) = Owner \<or> mb_role m \<noteq> Owner \<or> 1 < owner_count (list_by_customer (mb_customer_id m) db)"
  shows "has_owner cid (change_member (mb_id m) g db)"
proof -
  obtain w where w: "w \<in> set (po_members db)" "mb_customer_id w = cid" "mb_role w = Owner" "member_live w"
    using owner by (auto simp: has_owner_def)
  have inj: "inj_on mb_id (set (po_members db))" using ids by (simp add: distinct_map)
  obtain v where v: "v \<in> set (po_members (change_member (mb_id m) g db))" "mb_customer_id v = cid" "mb_role v = Owner" "member_live v"
  proof (cases "mb_id w = mb_id m")
    case False
    then have "w \<in> set (po_members (change_member (mb_id m) g db))"
      using w(1) by (auto simp: change_member_def image_iff intro!: bexI [of _ w])
    with w that show ?thesis by blast
  next
    case True
    with inj w(1) m have "w = m" by (auto dest: inj_onD)
    show ?thesis
    proof (cases "mb_role (g m) = Owner")
      case True
      have "g m \<in> set (po_members (change_member (mb_id m) g db))"
        using m by (auto simp: change_member_def image_iff intro!: bexI [of _ m])
      with True w \<open>w = m\<close> g [of m] that show ?thesis by (auto simp: member_live_def)
    next
      case False
      with guard w(3) \<open>w = m\<close> have "1 < owner_count (list_by_customer cid db)" using w(2) by simp
      from second_owner [OF ids this, of "mb_id m"] obtain v where v: "v \<in> set (po_members db)" "mb_customer_id v = cid"
        "mb_role v = Owner" "member_live v" "mb_id v \<noteq> mb_id m" by blast
      then have "v \<in> set (po_members (change_member (mb_id m) g db))"
        by (auto simp: change_member_def image_iff intro!: bexI [of _ v])
      with v that show ?thesis by blast
    qed
  qed
  then show ?thesis by (auto simp: has_owner_def)
qed

lemma owner_member_update:
  assumes ids: "distinct (map mb_id (po_members db))" and m: "m \<in> set (po_members db)" and owner: "has_owner cid db"
    and upd: "member_update m name role db = Inr (u, db')"
  shows "has_owner cid db'"
proof -
  define g where "g x = x\<lparr>mb_name := (case name of None \<Rightarrow> mb_name x | Some n \<Rightarrow> Some n), mb_role := set_field role (mb_role x)\<rparr>"
    for x :: member
  have "set_field role (mb_role m) = Owner \<or> mb_role m \<noteq> Owner \<or> 1 < owner_count (list_by_customer (mb_customer_id m) db)"
    using upd by (auto simp: member_update_def bind_sum_Inr_iff guard_role_transition_def Let_def set_field_def
        split: option.splits if_splits)
  moreover have "mb_role (g m) = set_field role (mb_role m)" by (simp add: g_def)
  moreover have "mb_customer_id (g x) = mb_customer_id x \<and> mb_deleted_at (g x) = mb_deleted_at x" for x by (simp add: g_def)
  ultimately have "has_owner cid (change_member (mb_id m) g db)"
    by (intro owner_change_member [OF ids m owner]) auto
  with owner member_update_cases [OF upd] show ?thesis by (auto simp: g_def [abs_def])
qed

lemma owner_member_delete:
  assumes ids: "distinct (map mb_id (po_members db))" and m: "m \<in> set (po_members db)" and owner: "has_owner cid db"
    and del: "member_delete now m db = Inr (u, db')"
  shows "has_owner cid db'"
proof -
  obtain w where w: "w \<in> set (po_members db)" "mb_customer_id w = cid" "mb_role w = Owner" "member_live w"
    using owner by (auto simp: has_owner_def)
  have "mb_role m \<noteq> Owner \<or> 1 < owner_count (list_by_customer (mb_customer_id m) db)"
    using del by (auto simp: member_delete_def split: if_splits)
  moreover have "w = m" if "mb_id w = mb_id m" using ids w(1) m that by (auto simp: distinct_map dest: inj_onD)
  ultimately obtain v where "v \<in> set (po_members db)" "mb_customer_id v = cid" "mb_role v = Owner" "member_live v"
      "mb_id v \<noteq> mb_id m"
    using second_owner [OF ids, of cid "mb_id m"] w by blast
  then have "v \<in> set (po_members db') \<and> mb_customer_id v = cid \<and> mb_role v = Owner \<and> member_live v"
    using member_delete_eq [OF del] by (auto simp: delete_members_def image_iff intro!: bexI [of _ v])
  then show ?thesis unfolding has_owner_def by blast
qed

text \<open>The first row of a group has the strongest role, so the merge keeps an owner too.\<close>

lemma owner_dedupe_group:
  assumes "has_owner cid db" and ids: "distinct (map mb_id (po_members db))"
  shows "has_owner cid (snd (dedupe_group env now k (n, db)))"
proof -
  obtain w where w: "w \<in> set (po_members db)" "mb_customer_id w = cid" "mb_role w = Owner" "member_live w"
    using assms by (auto simp: has_owner_def)
  have stays: "has_owner cid (delete_members now (losers env db k) db)"
    if "v \<in> set (po_members db)" "mb_customer_id v = cid" "mb_role v = Owner" "member_live v" "mb_id v \<notin> losers env db k" for v
    using that by (auto simp: has_owner_def delete_members_def image_iff intro!: bexI [of _ v])
  show ?thesis
  proof (cases "mb_id w \<in> losers env db k")
    case False
    with stays [OF w] show ?thesis by (simp add: dedupe_group_eq)
  next
    case True
    define xs where "xs = list_duplicates_for_dedupe env k db"
    have inj: "inj_on mb_id (set (po_members db))" using ids by (simp add: distinct_map)
    have sub: "set xs \<subseteq> set (po_members db)" by (auto simp: xs_def group_rows_in)
    from True obtain z where z: "z \<in> set (tl xs)" "mb_id z = mb_id w" by (auto simp: losers_def xs_def)
    then obtain s ys where xs: "xs = s # ys" by (cases xs) auto
    with z sub inj w(1) have "w \<in> set ys" by (auto dest: inj_onD)
    have "sorted (map (dedupe_rank env) xs)" by (simp add: xs_def list_duplicates_for_dedupe_def)
    with xs \<open>w \<in> set ys\<close> have "dedupe_rank env s \<le> dedupe_rank env w" by simp
    then have "role_priority (mb_role s) \<le> role_priority (mb_role w)" by (auto simp: dedupe_rank_def less_eq_prod_def)
    with w(3) have "mb_role s = Owner" by (cases "mb_role s") auto
    moreover have "s \<in> set (group_rows k db)" "w \<in> set (group_rows k db)"
      using xs \<open>w \<in> set ys\<close> set_list_duplicates [of env k db] by (auto simp: xs_def)
    then have "s \<in> set (po_members db)" "member_live s" "group_of s = group_of w" by (auto simp: group_rows_in)
    moreover have "distinct (map mb_id xs)"
      using group_rows_distinct [OF ids, of k] by (metis distinct_map distinct_sort list_duplicates_for_dedupe_def set_list_duplicates xs_def)
    with xs have "mb_id s \<notin> losers env db k" by (simp add: losers_def xs_def [symmetric])
    ultimately show ?thesis using stays [of s] w(2) by (simp add: dedupe_group_eq group_of_def)
  qed
qed

lemma delete_members_ids [simp]: "map mb_id (po_members (delete_members now ids db)) = map mb_id (po_members db)"
  by (simp add: delete_members_def o_def if_distrib cong: if_cong)

lemma owner_auto_dedupe:
  assumes "has_owner cid db" and "distinct (map mb_id (po_members db))"
  shows "has_owner cid (snd (auto_dedupe env now db))"
proof -
  have "has_owner cid (snd (foldl (\<lambda>acc (k, c). dedupe_group env now k acc) (n, db) gs))" for n gs
    using assms
  proof (induction gs arbitrary: n db)
    case Nil
    then show ?case by simp
  next
    case (Cons g gs)
    obtain k c where g: "g = (k, c)" by (rule prod.exhaust)
    have "has_owner cid (delete_members now (losers env db k) db)"
      using owner_dedupe_group [OF Cons.prems, of env now k n] by (simp add: dedupe_group_eq)
    moreover have "distinct (map mb_id (po_members (delete_members now (losers env db k) db)))"
      using Cons.prems(2) by simp
    ultimately show ?case
      using Cons.IH [of "delete_members now (losers env db k) db"] by (simp add: g dedupe_group_eq)
  qed
  then show ?thesis by (simp add: auto_dedupe_def)
qed

lemma has_owner_grows:
  "has_owner cid db \<Longrightarrow> set (po_members db) \<subseteq> set (po_members db') \<Longrightarrow> has_owner cid db'"
  by (auto simp: has_owner_def)

lemma owner_step:
  assumes ok: "portal_ok db" and owner: "has_owner cid db"
  shows "has_owner cid (portal_step env now op db)"
proof (cases "bind_sum (case op_subject op of None \<Rightarrow> Inr () | Some auth \<Rightarrow> portal_principal auth)
             (\<lambda>_. portal_action env now op db)")
  case (Inl e)
  then show ?thesis using owner by (simp add: portal_step_def)
next
  case (Inr db')
  then have step: "portal_step env now op db = db'" and act: "portal_action env now op db = Inr db'"
    by (auto simp: portal_step_def bind_sum_Inr_iff)
  have ids: "distinct (map mb_id (po_members db))" using ok by (simp add: portal_ok_def members_ok_def)
  show ?thesis
  proof (cases "rewrites_members op")
    case False
    then have "set (po_members db) \<subseteq> set (po_members db')"
      using portal_step_effect [of env now op db] by (auto simp: step portal_effect_def members_change_def)
    with owner show ?thesis unfolding step by (rule has_owner_grows)
  next
    case True
    then consider auth i name role where "op = Update_Member auth i name role"
      | auth i where "op = Delete_Member auth i" | "op = Dedupe" by (cases op) auto
    then have "has_owner cid db'"
      using act owner_member_update [OF ids _ owner] owner_member_delete [OF ids _ owner] owner_auto_dedupe [OF owner ids]
      by cases (auto simp: with_found_Inr dest!: found_member(1))
    then show ?thesis by (simp add: step)
  qed
qed

subsection \<open>A workspace with one team customer\<close>

definition demo_env :: portal_env where
  "demo_env = \<lparr>pe_sha256 = (\<lambda>s. ''f'' @ s), pe_isoformat = (\<lambda>t. dec_int t), pe_json_tracked = False,
     pe_tie = length, pe_blake2b = (\<lambda>k n d. [length k mod 256, length d mod 256]), pe_secret = ''secret''\<rparr>"

definition demo_member :: "uuid \<Rightarrow> string \<Rightarrow> team_role \<Rightarrow> int \<Rightarrow> member" where
  "demo_member i email r t = \<lparr>mb_id = i, mb_customer_id = ''c1'', mb_workspace_id = ''w1'', mb_email = email,
     mb_name = None, mb_external_id = None, mb_role = r, mb_created_at = t, mb_deleted_at = None\<rparr>"

definition demo_customer :: customer where
  "demo_customer = \<lparr>cu_id = ''c1'', cu_workspace_id = ''w1'', cu_type = Some Team, cu_external_id = Some ''x1'',
     cu_email = ''a@b.c'', cu_email_verified = False, cu_name = None, cu_billing_name = None, cu_billing_address = JNull,
     cu_oauth_accounts = [], cu_user_metadata = [], cu_deleted_at = None\<rparr>"

definition demo_portal :: portal where
  "demo_portal = \<lparr>po_workspaces = [(''w1'', None)], po_features = (\<lambda>w f. True),
     po_memberships = [\<lparr>m_user_id = ''u1'', m_workspace_id = ''w1'', m_deleted_at = None\<rparr>],
     po_customers = [demo_customer],
     po_members = [demo_member ''m1'' ''p@b.c'' Owner 20, demo_member ''m02'' ''P@b.c'' Plain_Member 10],
     po_customer_sessions = [], po_member_sessions = [], po_jobs = []\<rparr>"

lemma demo_portal_ok: "portal_ok demo_portal"
  by code_simp

subsection \<open>The properties\<close>

text \<open>
  Property C36: A customer that has an owner keeps one, whatever requests and jobs follow: neither
  deleting a member, nor changing a role, nor the merging of duplicate members removes its last
  owner.
\<close>

theorem owner_kept:
  assumes "portal_ok db" and "has_owner cid db"
  shows "has_owner cid (portal_run env ops db)"
  using assms
  by (induction env ops db rule: portal_run.induct) (simp_all add: owner_step portal_step_ok)

theorem owner_kept_witness:
  "has_owner ''c1'' (portal_run demo_env
     [(30, Delete_Member (User ''u1'') ''m1''), (31, Update_Member (User ''u1'') ''m1'' None (Some Plain_Member)),
      (32, Dedupe)] demo_portal)"
proof -
  have "has_owner ''c1'' demo_portal" by code_simp
  from owner_kept [OF demo_portal_ok this] show ?thesis .
qed

text \<open>
  Property C37: The repair job deletes exactly the live members of whom another live member of the
  same customer, with the same address up to case, has a stronger role, or the same role and an
  earlier creation; it answers their number. Of every address one member stays, with the strongest
  role of all. Running the job again deletes nothing.
\<close>

theorem dedupe_exact:
  assumes "distinct (map mb_id (po_members db))" and "inj_on (pe_tie env) (mb_id ` set (po_members db))"
  shows "auto_dedupe env now db = (length (filter (redundant env db) (po_members db)),
      db\<lparr>po_members := map (\<lambda>m. if redundant env db m then m\<lparr>mb_deleted_at := Some now\<rparr> else m) (po_members db)\<rparr>) \<and>
    (\<forall>m \<in> set (po_members db). member_live m \<longrightarrow> (\<exists>!s. s \<in> set (po_members (snd (auto_dedupe env now db))) \<and>
       member_live s \<and> group_of s = group_of m) \<and>
       (\<exists>s \<in> set (po_members (snd (auto_dedupe env now db))). member_live s \<and> group_of s = group_of m \<and>
         role_priority (mb_role s) \<le> role_priority (mb_role m))) \<and>
    auto_dedupe env now' (snd (auto_dedupe env now db)) = (0, snd (auto_dedupe env now db))"
proof (intro conjI ballI impI)
  show "auto_dedupe env now db = (length (filter (redundant env db) (po_members db)),
      db\<lparr>po_members := map (\<lambda>m. if redundant env db m then m\<lparr>mb_deleted_at := Some now\<rparr> else m) (po_members db)\<rparr>)"
    using auto_dedupe_count [OF assms] auto_dedupe_rows [OF assms] by (simp add: prod_eq_iff)
  show "auto_dedupe env now' (snd (auto_dedupe env now db)) = (0, snd (auto_dedupe env now db))"
    using no_groups_left [OF assms] by (simp add: auto_dedupe_def)
  fix m assume m: "m \<in> set (po_members db)" "member_live m"
  obtain s where s: "s \<in> set (group_rows (group_of m) db)" "\<not> redundant env db s" "dedupe_rank env s \<le> dedupe_rank env m"
    using survivor [OF assms m] by blast
  have stays: "s \<in> set (po_members (snd (auto_dedupe env now db)))" "member_live s" "group_of s = group_of m"
    using s(1,2) live_after_dedupe [OF assms, of s now] by (simp_all add: group_rows_in)
  show "\<exists>!s. s \<in> set (po_members (snd (auto_dedupe env now db))) \<and> member_live s \<and> group_of s = group_of m"
  proof (intro ex1I [of _ s] conjI stays)
    fix a assume "a \<in> set (po_members (snd (auto_dedupe env now db))) \<and> member_live a \<and> group_of a = group_of m"
    then have "a \<in> set (group_rows (group_of m) db)" "\<not> redundant env db a"
      using live_after_dedupe [OF assms, of a now] by (simp_all add: group_rows_in)
    then show "a = s" using not_redundant_unique [OF assms] s(1,2) by blast
  qed
  have "role_priority (mb_role s) \<le> role_priority (mb_role m)"
    using s(3) by (auto simp: dedupe_rank_def less_eq_prod_def)
  with stays show "\<exists>s \<in> set (po_members (snd (auto_dedupe env now db))). member_live s \<and> group_of s = group_of m \<and>
      role_priority (mb_role s) \<le> role_priority (mb_role m)" by blast
qed

theorem dedupe_exact_witness:
  "auto_dedupe demo_env 40 (snd (auto_dedupe demo_env 33 demo_portal)) = (0, snd (auto_dedupe demo_env 33 demo_portal)) \<and>
   fst (auto_dedupe demo_env 33 demo_portal) = 1"
proof -
  have ids: "distinct (map mb_id (po_members demo_portal))" by code_simp
  have tie: "inj_on (pe_tie demo_env) (mb_id ` set (po_members demo_portal))"
    by (simp add: demo_env_def demo_portal_def demo_member_def)
  have "length (filter (redundant demo_env demo_portal) (po_members demo_portal)) = 1" by code_simp
  moreover note exact = dedupe_exact [OF ids tie, of 33 40]
  ultimately have "fst (auto_dedupe demo_env 33 demo_portal) = 1" by (simp only: exact [THEN conjunct1] fst_conv)
  with exact [THEN conjunct2, THEN conjunct2] show ?thesis by (rule conjI)
qed

subsection \<open>Updates\<close>

text \<open>
  The type of a team customer after an accepted update: the check refuses \<open>individual\<close> but lets an
  explicit null through, which every reader takes for \<open>individual\<close>.
\<close>

theorem team_downgrade:
  assumes "customer_update c g db = Inr (c', db')" and "cu_type c = Some Team"
  shows "current_type c' = (if cg_full g \<and> cg_type g = Some None then Individual else Team)"
proof -
  have c': "c' = with_changes c g" and ok: "type_errors c g = []"
    using assms(1) by (auto simp: customer_update_def Let_def bind_sum_Inr_iff split: if_splits)
  have "current_type c = Team" using assms(2) by (simp add: current_type_def)
  with ok have no: "\<not> (cg_full g \<and> cg_type g = Some (Some Individual))" by (auto simp: type_errors_def)
  show ?thesis
  proof (cases "cg_type g")
    case None
    then show ?thesis by (simp add: c' with_changes_def with_email_def current_type_def set_field_def assms(2))
  next
    case (Some t)
    with no have "cg_full g \<Longrightarrow> t = None \<or> t = Some Team" by (cases t) (auto intro: customer_type.exhaust)
    with Some show ?thesis
      by (auto simp: c' with_changes_def with_email_def current_type_def set_field_def assms(2))
  qed
qed

subsection \<open>More than one owner\<close>

text \<open>
  Creating a member does not look at the owners there are, so a customer can get a second one; the
  lookup of the owner of a customer then raises, and with it the creation of a session.
\<close>

theorem second_owner_created:
  "owner_count (list_by_customer ''c1'' (portal_step demo_env 30 (Create_Member (User ''u1'')
     \<lparr>mc_customer_id = ''c1'', mc_email = ''q@b.c'', mc_name = None, mc_external_id = None, mc_role = Owner\<rparr> ''m3'')
     demo_portal)) = 2"
  by code_simp

theorem two_owners_no_session:
  assumes "1 < owner_count (list_by_customer (cu_id c) db)" and "cu_type c \<noteq> Some Team"
    and "sr_member_id r = None" and "sr_external_member_id r = None"
  shows "session_member now i r c db = db_error"
proof -
  obtain a b ms where "filter (\<lambda>m. mb_role m = Owner) (list_by_customer (cu_id c) db) = a # b # ms"
    using assms(1) unfolding owner_count_def
    by (metis One_nat_def length_0_conv length_Cons less_numeral_extra(4) list.exhaust not_less_zero)
  then have "get_owner_by_customer_id (cu_id c) db = db_error"
    by (simp add: get_owner_by_customer_id_def select_portal_def db_error_def)
  with assms(2-4) show ?thesis by (simp add: session_member_def db_error_def)
qed

end
