(* ===== verification/Customer_Lifecycle.thy ===== *)
theory Customer_Lifecycle
  imports Portal_Properties
begin

section \<open>Deletion of customers, portal sessions and short ids\<close>

text \<open>
  What is left of a deleted customer, how long a portal session lives, and the alphabetic form of
  the short ids.
\<close>

subsection \<open>Updates with a taken address\<close>

lemma filter_unique:
  assumes "distinct (map f xs)" and "x \<in> set xs" and "\<And>y. y \<in> set xs \<Longrightarrow> P y \<Longrightarrow> f y = f x"
  shows "filter P xs = (if P x then [x] else [])"
  using assms
proof (induction xs)
  case (Cons y xs)
  show ?case
  proof (cases "x = y")
    case True
    have "\<not> P z" if "z \<in> set xs" for z
    proof
      assume "P z"
      then have "f z = f y" using Cons.prems(3) [of z] True that by simp
      with Cons.prems(1) that show False by (metis distinct.simps(2) image_eqI list.map(2) set_map)
    qed
    then have "filter P xs = []" by (simp add: filter_empty_conv)
    with True show ?thesis by simp
  next
    case False
    with Cons.prems have x: "x \<in> set xs" by simp
    then have "f x \<in> f ` set xs" by (rule imageI)
    with Cons.prems(1) have "f y \<noteq> f x" by auto
    with Cons.prems(3) [of y] have "\<not> P y" by auto
    with Cons.IH [OF _ x] Cons.prems(1,3) show ?thesis by simp
  qed
qed simp

text \<open>
  An address that another live customer holds is a validation error, unless the same update also
  gives the customer its first external id: the lookup of that id writes the address first, and the
  request ends in a database error.
\<close>

theorem taken_address_outcome:
  assumes c: "customers_ok (po_customers db)" "customer_live c" and change: "email_changes c g"
    and d: "d \<in> set (po_customers db)" "customer_live d" "cu_workspace_id d = cu_workspace_id c" "cu_id d \<noteq> cu_id c"
      "lower (cu_email d) = lower (the (cg_email g))"
  shows "if cu_external_id c = None \<and> (\<exists>v. new_external_id g = Some (Some v))
    then customer_update c g db = db_error
    else \<exists>errs. customer_update c g db = Inl (Invalid_Fields errs) \<and> (''email'', ''already exists'') \<in> set errs"
proof -
  have "filter (\<lambda>r. customer_live r \<and> lower (cu_email r) = lower (the (cg_email g)) \<and>
      cu_workspace_id r = cu_workspace_id c) (po_customers db) = [d]"
  proof (subst filter_unique [of cu_id _ d])
    fix r assume "r \<in> set (po_customers db)" "customer_live r \<and> lower (cu_email r) = lower (the (cg_email g)) \<and>
      cu_workspace_id r = cu_workspace_id c"
    then show "cu_id r = cu_id d" using c(1) d by (fastforce simp: customers_ok_def customers_apart_def)
  qed (use c(1) d in \<open>simp_all add: customers_ok_def\<close>)
  then have taken: "email_errors c g db = Inr [(''email'', ''already exists'')]"
    by (simp add: email_errors_def change get_by_email_and_workspace_def)
  show ?thesis
  proof (cases "cu_external_id c = None \<and> (\<exists>v. new_external_id g = Some (Some v))")
    case True
    have "customer_violation (with_email c g) (other_customers (cu_id c) db) \<noteq> None"
      using c(2) d change
      by (auto simp: customer_violation_def with_email_def other_customers_def list_ex_iff customer_live_def)
    with True taken change have "customer_update c g db = db_error"
      by (auto simp: customer_update_def external_id_errors_def db_error_def)
    with True show ?thesis by simp
  next
    case False
    then have "\<exists>errs. external_id_errors c g db = Inr errs"
      by (cases "new_external_id g"; cases "the (new_external_id g)"; cases "cu_external_id c")
         (auto simp: external_id_errors_def)
    then obtain errs where "external_id_errors c g db = Inr errs" by blast
    with False taken show ?thesis by (auto simp: customer_update_def Let_def)
  qed
qed

subsection \<open>Deleted customers\<close>

lemma dead_customer_stays:
  assumes ok: "customers_ok rows" and change: "customers_change rows rows'" and c: "c \<in> set rows" "\<not> customer_live c"
  shows "c \<in> set rows'"
  using change unfolding customers_change_def
proof (elim disjE exE conjE)
  fix d old
  assume old: "old \<in> set rows" "customer_live old" "cu_id old = cu_id d"
    and rows': "rows' = map (\<lambda>r. if cu_id r = cu_id d then d else r) rows"
  have "cu_id c \<noteq> cu_id d"
  proof
    assume "cu_id c = cu_id d"
    with old(3) customers_ok_id [OF ok c(1) old(1)] have "c = old" by simp
    with c(2) old(2) show False by simp
  qed
  with c(1) show ?thesis by (auto simp: rows' image_iff intro!: bexI [of _ c])
qed (use c in auto)

lemma dead_customer_run:
  assumes "portal_ok db" and "c \<in> set (po_customers db)" and "\<not> customer_live c"
  shows "c \<in> set (po_customers (portal_run env ops db))"
  using assms
proof (induction env ops db rule: portal_run.induct)
  case (2 env now op ops db)
  have "c \<in> set (po_customers (portal_step env now op db))"
    using portal_step_effect [of env now op db] 2(2-4)
    by (auto simp: portal_effect_def portal_ok_def intro: dead_customer_stays)
  with 2 show ?case by (simp add: portal_step_ok)
qed simp

lemma reserved_external_id:
  assumes ok: "customers_ok (po_customers db)" and c: "c \<in> set (po_customers db)" "cu_external_id c = Some x"
    and d: "empty_str_to_none (cc_external_id d) = Some x" "payload_workspace auth (cc_workspace_id d) db = Inr (cu_workspace_id c)"
  shows "\<exists>e. customer_create_action now i mi auth d db = Inl e"
proof (cases "creation_errors d (cu_workspace_id c) db")
  case (Inl e)
  with d(2) show ?thesis by (simp add: customer_create_action_def)
next
  case (Inr errs)
  have "customer_violation (new_customer i (cu_workspace_id c) d) (po_customers db) \<noteq> None"
    using c d(1) by (auto simp: customer_violation_def new_customer_def list_ex_iff)
  with Inr d(2) show ?thesis by (auto simp: customer_create_action_def)
qed

lemma anonymized_row:
  assumes c: "c \<in> set (po_customers db)"
    and del: "customer_delete env now True c db = Inr (u, db')"
    and fresh: "\<not> ends_with (cu_email c) (''@'' @ ANONYMIZED_EMAIL_DOMAIN)"
  shows "\<exists>c' \<in> set (po_customers db'). cu_id c' = cu_id c \<and> cu_workspace_id c' = cu_workspace_id c \<and>
    cu_external_id c' = cu_external_id c \<and> \<not> customer_live c'"
proof -
  obtain c' where w: "customer_repo_update c' db = Inr ((), db')"
    and c': "cu_id c' = cu_id c" "cu_workspace_id c' = cu_workspace_id c" "cu_external_id c' = cu_external_id c"
      "\<not> customer_live c'"
    using del fresh by (auto simp: customer_delete_def anonymize_customer_def bind_sum_Inr_iff customer_live_def)
  then have "c' \<in> set (po_customers db')"
    using c by (auto simp: customer_repo_update_def write_customer_def bind_sum_Inr_iff db_error_def image_iff
        split: if_splits)
  with c' show ?thesis by blast
qed

lemma other_row_apart:
  assumes "customers_ok rows" and "c \<in> set rows" and "d \<in> set rows" and "cu_workspace_id d = cu_workspace_id c"
    and "cu_external_id d = Some x" and "cu_external_id c = Some x"
  shows "d = c"
proof (rule customers_ok_id [OF assms(1,3,2)], rule ccontr)
  assume "cu_id d \<noteq> cu_id c"
  with assms(1-3) have "customers_apart d c" by (simp add: customers_ok_def)
  with assms(4-6) show False by (simp add: customers_apart_def)
qed

lemma soft_deleted_rows:
  assumes ok: "customers_ok (po_customers db)" and c: "c \<in> set (po_customers db)"
    and del: "customer_soft_delete env now c db = Inr (u, db')"
  shows "\<forall>r \<in> set (po_customers db'). cu_id r = cu_id c \<and> \<not> customer_live r \<and> \<not> truthy (cu_external_id r) \<or>
      r \<in> set (po_customers db) \<and> cu_id r \<noteq> cu_id c"
    and "map cu_id (po_customers db') = map cu_id (po_customers db)" and "po_members db' = po_members db"
    and "po_workspaces db' = po_workspaces db" and "po_features db' = po_features db"
proof -
  define c1 where "c1 = archive_external_id env (c\<lparr>cu_deleted_at := Some now\<rparr>)"
  obtain db1 where w: "write_customer c1 db = Inr ((), db1)"
    and db': "db' = dispatch_lifecycle Customer_Deleted (cu_id c) (update_dispatch (c\<lparr>cu_deleted_at := Some now\<rparr>) db1)"
    using del by (auto simp: customer_soft_delete_def Let_def bind_sum_Inr_iff c1_def)
  have db1: "db1 = db\<lparr>po_customers := map (\<lambda>r. if cu_id r = cu_id c then c1 else r) (po_customers db)\<rparr>"
    using w by (auto simp: write_customer_def db_error_def c1_def split: if_splits)
  have "cu_id c1 = cu_id c" "\<not> customer_live c1" "\<not> truthy (cu_external_id c1)"
    by (auto simp: c1_def customer_live_def) (simp add: archive_external_id_def split: if_splits)
  then show "\<forall>r \<in> set (po_customers db'). cu_id r = cu_id c \<and> \<not> customer_live r \<and> \<not> truthy (cu_external_id r) \<or>
      r \<in> set (po_customers db) \<and> cu_id r \<noteq> cu_id c"
    and "map cu_id (po_customers db') = map cu_id (po_customers db)" and "po_members db' = po_members db"
    and "po_workspaces db' = po_workspaces db" and "po_features db' = po_features db"
    by (auto simp: db' db1 o_def if_distrib cong: if_cong)
       (simp_all add: dispatch_lifecycle_def update_dispatch_def add_job_def Let_def)
qed

lemma creation_succeeds:
  assumes w: "payload_workspace auth (cc_workspace_id d) db = Inr w"
    and free: "\<forall>r \<in> set (po_customers db). cu_workspace_id r = w \<longrightarrow>
        (customer_live r \<longrightarrow> lower (cu_email r) \<noteq> lower (cc_email d)) \<and>
        (empty_str_to_none (cc_external_id d) \<noteq> None \<longrightarrow> cu_external_id r \<noteq> empty_str_to_none (cc_external_id d))"
    and i: "i \<notin> cu_id ` set (po_customers db)" and mi: "mi \<notin> mb_id ` set (po_members db)"
    and orphan: "i \<notin> mb_customer_id ` set (po_members db)"
  shows "\<exists>db'. customer_create_action now i mi auth d db = Inr (new_customer i w d, db')"
proof -
  have none: "filter (\<lambda>c. customer_live c \<and> lower (cu_email c) = lower (cc_email d) \<and> cu_workspace_id c = w) (po_customers db) = []"
    "\<And>x. empty_str_to_none (cc_external_id d) = Some x \<Longrightarrow>
      filter (\<lambda>c. customer_live c \<and> cu_external_id c = Some x \<and> cu_workspace_id c = w) (po_customers db) = []"
    using free by (auto simp: filter_empty_conv)
  then have errs: "creation_errors d w db = Inr []"
    by (auto simp: creation_errors_def get_by_email_and_workspace_def get_by_external_id_and_workspace_def split: option.splits)
  have v: "customer_violation (new_customer i w d) (po_customers db) = None"
    using free i by (auto simp: customer_violation_def new_customer_def list_ex_iff)
  define db1 where "db1 = db\<lparr>po_customers := po_customers db @ [new_customer i w d]\<rparr>"
  have owner: "\<exists>db2. create_owner_member now mi (new_customer i w d) w e n x db1 = Inr ((), db2)" for e n x
  proof -
    have "list_by_customer i db1 = []" using orphan by (auto simp: list_by_customer_def filter_empty_conv db1_def)
    moreover have "\<not> member_violation m (po_members db1)" if "mb_id m = mi" "mb_customer_id m = i" for m
    proof -
      have "\<forall>r \<in> set (po_members db). mb_id r \<noteq> mb_id m \<and> mb_customer_id r \<noteq> mb_customer_id m"
        using that mi orphan by (metis imageI)
      then show ?thesis by (auto simp: member_violation_def list_ex_iff db1_def)
    qed
    ultimately show ?thesis
      by (simp add: create_owner_member_def Let_def get_by_customer_and_email_def create_with_conflict_guard_def
          insert_team_member_def new_customer_def)
  qed
  obtain db2 where "create_owner_member now mi (new_customer i w d) w
      (case cc_owner d of None \<Rightarrow> None | Some ow \<Rightarrow> oc_email ow)
      (case cc_owner d of None \<Rightarrow> None | Some ow \<Rightarrow> empty_str_to_none (oc_name ow))
      (case cc_owner d of None \<Rightarrow> None | Some ow \<Rightarrow> empty_str_to_none (oc_external_id ow)) db1 = Inr ((), db2)"
    using owner by blast
  then show ?thesis by (simp add: customer_create_action_def w errs v Let_def db1_def)
qed

lemma payload_workspace_same:
  "po_workspaces db' = po_workspaces db \<Longrightarrow> payload_workspace (Workspace w) wid db' = payload_workspace (Workspace w) wid db"
  by (cases wid) simp_all

definition demo_create :: customer_create where
  "demo_create = \<lparr>cc_workspace_id = None, cc_external_id = Some ''x1'', cc_email = ''A@b.c'', cc_name = None,
     cc_billing_address = JNull, cc_type = None, cc_metadata = [], cc_owner = None\<rparr>"

text \<open>
  Property C38: Deleting a customer frees its external id and its address: the workspace can create
  a customer with both again. Anonymising it keeps the external id for good: no later customer of the
  workspace ever gets it, and each creation with it is refused.
\<close>

theorem external_id_after_deletion:
  assumes ok: "portal_ok db" and c: "c \<in> set (po_customers db)" "customer_live c" and x: "cu_external_id c = Some x"
    and d: "empty_str_to_none (cc_external_id d) = Some x" "cc_workspace_id d = None"
    and del: "customer_delete env now anonymize c db = Inr (u, db')"
    and fresh: "\<not> ends_with (cu_email c) (''@'' @ ANONYMIZED_EMAIL_DOMAIN)"
    and ids: "i \<notin> cu_id ` set (po_customers db)" "mi \<notin> mb_id ` set (po_members db)"
      "i \<notin> mb_customer_id ` set (po_members db)"
  shows "(\<not> anonymize \<longrightarrow> lower (cc_email d) = lower (cu_email c) \<longrightarrow>
      (\<exists>db2. customer_create_action t i mi (Workspace (cu_workspace_id c)) d db' =
         Inr (new_customer i (cu_workspace_id c) d, db2))) \<and>
    (anonymize \<longrightarrow>
      (\<forall>r \<in> set (po_customers (portal_run env ops db')). cu_workspace_id r = cu_workspace_id c \<longrightarrow>
         cu_external_id r = Some x \<longrightarrow> cu_id r = cu_id c \<and> \<not> customer_live r) \<and>
      (\<exists>e. customer_create_action t j mj (Workspace (cu_workspace_id c)) d (portal_run env ops db') = Inl e))"
proof (intro conjI impI ballI)
  have cok: "customers_ok (po_customers db)" using ok by (simp add: portal_ok_def)
  assume "\<not> anonymize" and email: "lower (cc_email d) = lower (cu_email c)"
  then have del': "customer_soft_delete env now c db = Inr (u, db')" using del by (simp add: customer_delete_def)
  note rows = soft_deleted_rows [OF cok c(1) del']
  have w: "payload_workspace (Workspace (cu_workspace_id c)) (cc_workspace_id d) db' = Inr (cu_workspace_id c)"
    by (simp add: d(2))
  have "(customer_live r \<longrightarrow> lower (cu_email r) \<noteq> lower (cc_email d)) \<and> cu_external_id r \<noteq> Some x"
    if r: "r \<in> set (po_customers db')" "cu_workspace_id r = cu_workspace_id c" for r
  proof (cases "cu_id r = cu_id c")
    case True
    with rows(1) r(1) have "\<not> customer_live r" "\<not> truthy (cu_external_id r)" by auto
    moreover have "x \<noteq> []" using d(1) by (auto simp: empty_str_to_none_def split: option.splits if_splits)
    ultimately show ?thesis by auto
  next
    case False
    with rows(1) r(1) have "r \<in> set (po_customers db)" by auto
    with cok c(1) False have "customers_apart c r" by (simp add: customers_ok_def)
    with r(2) x email c(2) show ?thesis by (auto simp: customers_apart_def)
  qed
  then have free: "\<forall>r \<in> set (po_customers db'). cu_workspace_id r = cu_workspace_id c \<longrightarrow>
      (customer_live r \<longrightarrow> lower (cu_email r) \<noteq> lower (cc_email d)) \<and>
      (empty_str_to_none (cc_external_id d) \<noteq> None \<longrightarrow> cu_external_id r \<noteq> empty_str_to_none (cc_external_id d))"
    by (simp add: d(1))
  have "cu_id ` set (po_customers db') = cu_id ` set (po_customers db)" using rows(2) by (metis set_map)
  with creation_succeeds [OF w free] ids rows(3) show "\<exists>db2. customer_create_action t i mi
      (Workspace (cu_workspace_id c)) d db' = Inr (new_customer i (cu_workspace_id c) d, db2)" by simp
next
  assume anonymize
  then have del': "customer_delete env now True c db = Inr (u, db')" using del by simp
  have ok': "portal_ok db'"
    using customer_delete_change [OF del c] ok by (auto simp: portal_ok_def customers_only_def intro: customers_change_ok)
  obtain c' where c': "c' \<in> set (po_customers db')" "cu_id c' = cu_id c" "cu_workspace_id c' = cu_workspace_id c"
      "cu_external_id c' = Some x" "\<not> customer_live c'"
    using anonymized_row [OF c(1) del' fresh] x by auto
  define db2 where "db2 = portal_run env ops db'"
  have stays: "c' \<in> set (po_customers db2)" unfolding db2_def by (rule dead_customer_run [OF ok' c'(1,5)])
  have ok2: "customers_ok (po_customers db2)" using portal_run_ok [OF ok'] by (simp add: portal_ok_def db2_def)
  show "\<exists>e. customer_create_action t j mj (Workspace (cu_workspace_id c)) d (portal_run env ops db') = Inl e"
    using reserved_external_id [OF ok2 stays c'(4) d(1)] by (simp add: db2_def c'(3) d(2))
  fix r assume "r \<in> set (po_customers (portal_run env ops db'))" "cu_workspace_id r = cu_workspace_id c" "cu_external_id r = Some x"
  then have "r = c'" using other_row_apart [OF ok2 stays] c'(3,4) by (simp add: db2_def)
  with c' show "cu_id r = cu_id c" "\<not> customer_live r" by simp_all
qed

theorem external_id_after_deletion_witness:
  "\<exists>db' c' db2. customer_delete demo_env 30 False demo_customer demo_portal = Inr ((), db') \<and>
     customer_create_action 31 ''c2'' ''m3'' (Workspace ''w1'') (demo_create) db' = Inr (c', db2)"
proof -
  have rows: "demo_customer \<in> set (po_customers demo_portal)" "customer_live demo_customer"
      "cu_external_id demo_customer = Some ''x1''"
    by (simp_all add: demo_portal_def demo_customer_def customer_live_def)
  have d: "empty_str_to_none (cc_external_id demo_create) = Some ''x1''" "cc_workspace_id demo_create = None" by code_simp+
  have fresh: "\<not> ends_with (cu_email demo_customer) (''@'' @ ANONYMIZED_EMAIL_DOMAIN)" by code_simp
  obtain db' where del: "customer_delete demo_env 30 False demo_customer demo_portal = Inr ((), db')"
  proof -
    have "\<exists>db'. customer_delete demo_env 30 False demo_customer demo_portal = Inr ((), db')"
      by (simp add: customer_delete_def customer_soft_delete_def write_customer_def other_customers_def demo_portal_def
          customer_violation_def archive_external_id_def demo_customer_def Let_def)
    then show ?thesis using that by blast
  qed
  have email: "lower (cc_email demo_create) = lower (cu_email demo_customer)" by code_simp
  have ids: "''c2'' \<notin> cu_id ` set (po_customers demo_portal)" "''m3'' \<notin> mb_id ` set (po_members demo_portal)"
      "''c2'' \<notin> mb_customer_id ` set (po_members demo_portal)"
    by (simp_all add: demo_portal_def demo_customer_def demo_member_def)
  have "\<not> False" by simp
  from external_id_after_deletion [OF demo_portal_ok rows d del fresh ids, THEN conjunct1, THEN mp, OF this, THEN mp, OF email]
  obtain db2 where "customer_create_action 31 ''c2'' ''m3'' (Workspace (cu_workspace_id demo_customer)) demo_create db' =
      Inr (new_customer ''c2'' (cu_workspace_id demo_customer) demo_create, db2)" by blast
  moreover have "cu_workspace_id demo_customer = ''w1''" by (simp add: demo_customer_def)
  ultimately have "customer_create_action 31 ''c2'' ''m3'' (Workspace ''w1'') demo_create db' =
      Inr (new_customer ''c2'' ''w1'' demo_create, db2)" by (simp only:)
  with del show ?thesis by blast
qed

subsection \<open>Portal sessions\<close>

lemma session_stays:
  assumes ok: "sessions_ok rows" and change: "sessions_change env now op rows rows'" and x: "x \<in> set rows"
    and live: "now \<le> ps_expires_at x" and kept: "\<And>tok. op = Revoke tok \<Longrightarrow> portal_hash env tok \<noteq> ps_token x"
  shows "x \<in> set rows'"
  using change unfolding sessions_change_def
proof (elim disjE exE conjE)
  fix P assume rows': "rows' = filter P rows" and all: "\<forall>x \<in> set rows. P x \<or> ps_expires_at x < now \<or>
      (\<exists>tok y. op = Revoke tok \<and> y \<in> set rows \<and> ps_id y = ps_id x \<and> ps_token y = portal_hash env tok)"
  have "P x"
  proof (rule ccontr)
    assume "\<not> P x"
    with all x live obtain tok y where "op = Revoke tok" "y \<in> set rows" "ps_id y = ps_id x" "ps_token y = portal_hash env tok"
      by force
    moreover have "y = x" using ok x calculation(2,3) unfolding sessions_ok_def by (metis distinct_map inj_onD)
    ultimately show False using kept by simp
  qed
  with x rows' show ?thesis by simp
qed (use x in auto)

lemma customer_session_run:
  assumes "portal_ok db" and "x \<in> set (po_customer_sessions db)" and "t \<le> ps_expires_at x"
    and "\<forall>(u, op) \<in> set ops. u \<le> t \<and> (\<forall>tok. op = Revoke tok \<longrightarrow> portal_hash env tok \<noteq> ps_token x)"
  shows "x \<in> set (po_customer_sessions (portal_run env ops db))"
  using assms
proof (induction ops arbitrary: db)
  case (Cons step ops)
  obtain now op where step: "step = (now, op)" by (rule prod.exhaust)
  have "sessions_ok (po_customer_sessions db)" using Cons.prems(1) by (simp add: portal_ok_def)
  moreover have "sessions_change env now op (po_customer_sessions db) (po_customer_sessions (portal_step env now op db))"
    using portal_step_effect by (simp add: portal_effect_def)
  moreover have "now \<le> ps_expires_at x" "op = Revoke tok \<Longrightarrow> portal_hash env tok \<noteq> ps_token x" for tok
    using Cons.prems(3,4) by (auto simp: step)
  ultimately have "x \<in> set (po_customer_sessions (portal_step env now op db))"
    using session_stays Cons.prems(2) by blast
  with Cons.IH [OF portal_step_ok [OF Cons.prems(1)]] Cons.prems(3,4) show ?case by (simp add: step)
qed simp

lemma member_session_run:
  assumes "portal_ok db" and "x \<in> set (po_member_sessions db)" and "t \<le> ps_expires_at x"
    and "\<forall>(u, op) \<in> set ops. u \<le> t"
  shows "x \<in> set (po_member_sessions (portal_run env ops db))"
  using assms
proof (induction ops arbitrary: db)
  case (Cons step ops)
  obtain now op where step: "step = (now, op)" by (rule prod.exhaust)
  have "sessions_ok (po_member_sessions db)" using Cons.prems(1) by (simp add: portal_ok_def)
  moreover have "sessions_change env now Expire_Member_Sessions (po_member_sessions db)
      (po_member_sessions (portal_step env now op db))"
    using portal_step_effect by (simp add: portal_effect_def)
  moreover have "now \<le> ps_expires_at x" using Cons.prems(3,4) by (auto simp: step)
  ultimately have "x \<in> set (po_member_sessions (portal_step env now op db))"
    using session_stays [OF _ _ Cons.prems(2)] by blast
  with Cons.IH [OF portal_step_ok [OF Cons.prems(1)]] Cons.prems(3,4) show ?case by (simp add: step)
qed simp

lemma new_token_prefix:
  assumes "new_portal_session env now i prefix entropy mid ret = (token, x)"
  shows "starts_with token prefix" and "ps_token x = portal_hash env token" and "ps_owner x = mid"
    and "ps_expires_at x = now + CUSTOMER_SESSION_TTL" and "ps_deleted_at x = None"
  using assms by (auto simp: new_portal_session_def generate_token_hash_pair_def generate_token_def starts_with_def
      portal_hash_def Let_def)

lemma prefixes_apart:
  "starts_with token CUSTOMER_SESSION_TOKEN_PREFIX \<Longrightarrow> \<not> starts_with token MEMBER_SESSION_TOKEN_PREFIX"
  by (auto simp: starts_with_def CUSTOMER_SESSION_TOKEN_PREFIX_def MEMBER_SESSION_TOKEN_PREFIX_def)

lemma resolve_customer:
  assumes "portal_ok db" and "x \<in> set (po_customer_sessions db)" and "session_valid env t token x"
    and "starts_with token CUSTOMER_SESSION_TOKEN_PREFIX"
  shows "resolve_portal_token env t token db =
    Some (if \<exists>c \<in> set (po_customers db). cu_id c = ps_owner x \<and> customer_live c
          then Inr (Customer (ps_owner x)) else Inl invalid_token)"
proof -
  have "distinct (map ps_token (po_customer_sessions db))" using assms(1) by (simp add: portal_ok_def sessions_ok_def)
  then have "filter (\<lambda>y. session_valid env t token y \<and>
        list_ex (\<lambda>c. cu_id c = ps_owner y \<and> customer_live c) (po_customers db)) (po_customer_sessions db) =
      (if list_ex (\<lambda>c. cu_id c = ps_owner x \<and> customer_live c) (po_customers db) then [x] else [])"
    using assms(2,3) by (subst filter_unique [of ps_token _ x]) (auto simp: session_valid_def)
  with prefixes_apart [OF assms(4)] assms(4) show ?thesis
    by (auto simp: resolve_portal_token_def customer_session_by_token_def list_ex_iff)
qed

lemma resolve_member:
  assumes "portal_ok db" and "x \<in> set (po_member_sessions db)" and "session_valid env t token x"
    and "starts_with token MEMBER_SESSION_TOKEN_PREFIX"
  shows "resolve_portal_token env t token db =
    Some (if \<exists>m \<in> set (po_members db). mb_id m = ps_owner x \<and> member_live m
          then Inr (Member (ps_owner x)) else Inl invalid_token)"
proof -
  have "distinct (map ps_token (po_member_sessions db))" using assms(1) by (simp add: portal_ok_def sessions_ok_def)
  then have "filter (\<lambda>y. session_valid env t token y \<and>
        list_ex (\<lambda>m. mb_id m = ps_owner y \<and> member_live m) (po_members db)) (po_member_sessions db) =
      (if list_ex (\<lambda>m. mb_id m = ps_owner x \<and> member_live m) (po_members db) then [x] else [])"
    using assms(2,3) by (subst filter_unique [of ps_token _ x]) (auto simp: session_valid_def)
  with assms(4) show ?thesis
    by (auto simp: resolve_portal_token_def member_session_by_token_def list_ex_iff)
qed

text \<open>Whoever a token resolves to has an unexpired session with its hash.\<close>

lemma resolved_session:
  assumes "resolve_portal_token env t token db = Some (Inr who)"
  shows "(\<exists>x \<in> set (po_member_sessions db). who = Member (ps_owner x) \<and> session_valid env t token x) \<or>
    (\<exists>x \<in> set (po_customer_sessions db). who = Customer (ps_owner x) \<and> session_valid env t token x)"
  using assms
  by (fastforce simp: resolve_portal_token_def bind_sum_Inr_iff member_session_by_token_def customer_session_by_token_def
      split: if_splits option.splits dest!: select_portal_Some)

lemma created_session_ok:
  assumes ok: "portal_ok db"
  shows "create_customer_session env t0 i entropy cid ret db = Inr (token, db1) \<Longrightarrow> portal_ok db1"
    and "create_member_session env t0 i entropy mid ret db = Inr (token, db1) \<Longrightarrow> portal_ok db1"
proof -
  assume c: "create_customer_session env t0 i entropy cid ret db = Inr (token, db1)"
  show "portal_ok db1"
    using ok create_customer_session_change(2-4) [OF c]
      sessions_change_ok [OF _ create_customer_session_change(1) [OF c, of t0 Dedupe]]
    by (simp add: portal_ok_def)
next
  assume c: "create_member_session env t0 i entropy mid ret db = Inr (token, db1)"
  show "portal_ok db1"
    using ok create_member_session_change(2-4) [OF c]
      sessions_change_ok [OF _ create_member_session_change(1) [OF c, of t0 Dedupe]]
    by (simp add: portal_ok_def)
qed

text \<open>
  Property C39: Within its hour, whatever requests and jobs come, the token of a new customer session
  resolves to its customer as long as the customer is not deleted, unless the token is revoked. The
  token of a member session resolves to its member as long as the member is not deleted: neither the
  deletion of the customer nor a revocation ends it. And a token resolves to somebody only by an
  unexpired session with its hash.
\<close>

theorem portal_session_life:
  assumes ok: "portal_ok db" and past: "\<forall>(u, op) \<in> set ops. u \<le> t" and hour: "t < t0 + CUSTOMER_SESSION_TTL"
  shows "(create_customer_session env t0 i entropy cid ret db = Inr (token, db1) \<longrightarrow>
      (\<forall>(u, op) \<in> set ops. \<forall>tok. op = Revoke tok \<longrightarrow> portal_hash env tok \<noteq> portal_hash env token) \<longrightarrow>
      resolve_portal_token env t token (portal_run env ops db1) =
        Some (if \<exists>c \<in> set (po_customers (portal_run env ops db1)). cu_id c = cid \<and> customer_live c
              then Inr (Customer cid) else Inl invalid_token)) \<and>
    (create_member_session env t0 i entropy mid ret db = Inr (token, db1) \<longrightarrow>
      resolve_portal_token env t token (portal_run env ops db1) =
        Some (if \<exists>m \<in> set (po_members (portal_run env ops db1)). mb_id m = mid \<and> member_live m
              then Inr (Member mid) else Inl invalid_token)) \<and>
    (resolve_portal_token env t' token' db = Some (Inr who) \<longrightarrow>
      (\<exists>x \<in> set (po_member_sessions db) \<union> set (po_customer_sessions db).
         ps_token x = portal_hash env token' \<and> t' < ps_expires_at x \<and>
         who \<in> {Member (ps_owner x), Customer (ps_owner x)}))"
proof (intro conjI impI)
  assume c: "create_customer_session env t0 i entropy cid ret db = Inr (token, db1)"
    and kept: "\<forall>(u, op) \<in> set ops. \<forall>tok. op = Revoke tok \<longrightarrow> portal_hash env tok \<noteq> portal_hash env token"
  obtain tk x where new: "new_portal_session env t0 i CUSTOMER_SESSION_TOKEN_PREFIX entropy cid ret = (tk, x)"
    by (rule prod.exhaust)
  with c have tk: "tk = token" and x: "x \<in> set (po_customer_sessions db1)"
    by (auto simp: create_customer_session_def db_error_def split: if_splits)
  note f = new_token_prefix [OF new, unfolded tk]
  have ok1: "portal_ok db1" by (rule created_session_ok(1) [OF ok c])
  have "x \<in> set (po_customer_sessions (portal_run env ops db1))"
    using past kept hour f by (intro customer_session_run [OF ok1 x, of t]) auto
  from resolve_customer [OF portal_run_ok [OF ok1] this _ f(1), of env t] hour f
  show "resolve_portal_token env t token (portal_run env ops db1) =
        Some (if \<exists>c \<in> set (po_customers (portal_run env ops db1)). cu_id c = cid \<and> customer_live c
              then Inr (Customer cid) else Inl invalid_token)"
    by (simp add: session_valid_def)
next
  assume c: "create_member_session env t0 i entropy mid ret db = Inr (token, db1)"
  obtain tk x where new: "new_portal_session env t0 i MEMBER_SESSION_TOKEN_PREFIX entropy mid ret = (tk, x)"
    by (rule prod.exhaust)
  with c have tk: "tk = token" and x: "x \<in> set (po_member_sessions db1)"
    by (auto simp: create_member_session_def db_error_def split: if_splits)
  note f = new_token_prefix [OF new, unfolded tk]
  have ok1: "portal_ok db1" by (rule created_session_ok(2) [OF ok c])
  have "x \<in> set (po_member_sessions (portal_run env ops db1))"
    using past hour f by (intro member_session_run [OF ok1 x, of t]) auto
  from resolve_member [OF portal_run_ok [OF ok1] this _ f(1), of env t] hour f
  show "resolve_portal_token env t token (portal_run env ops db1) =
        Some (if \<exists>m \<in> set (po_members (portal_run env ops db1)). mb_id m = mid \<and> member_live m
              then Inr (Member mid) else Inl invalid_token)"
    by (simp add: session_valid_def)
next
  assume "resolve_portal_token env t' token' db = Some (Inr who)"
  from resolved_session [OF this]
  show "\<exists>x \<in> set (po_member_sessions db) \<union> set (po_customer_sessions db).
         ps_token x = portal_hash env token' \<and> t' < ps_expires_at x \<and>
         who \<in> {Member (ps_owner x), Customer (ps_owner x)}" unfolding session_valid_def by blast
qed

theorem portal_session_life_witness:
  "\<exists>token db1. create_member_session demo_env 30 ''s1'' [7] ''m1'' None demo_portal = Inr (token, db1) \<and>
     resolve_portal_token demo_env 40 token
       (portal_run demo_env [(35, Delete_Customer (User ''u1'') (By_Id ''c1'') False)] db1) = Some (Inr (Member ''m1''))"
proof -
  obtain token x where new: "new_portal_session demo_env 30 ''s1'' MEMBER_SESSION_TOKEN_PREFIX [7] ''m1'' None = (token, x)"
    by (rule prod.exhaust)
  define db1 where "db1 = demo_portal\<lparr>po_member_sessions := [x]\<rparr>"
  define db2 where "db2 = portal_run demo_env [(35, Delete_Customer (User ''u1'') (By_Id ''c1'') False)] db1"
  have made: "create_member_session demo_env 30 ''s1'' [7] ''m1'' None demo_portal = Inr (token, db1)"
    by (simp add: create_member_session_def new session_taken_def db1_def demo_portal_def)
  have "\<not> rewrites_members (Delete_Customer (User ''u1'') (By_Id ''c1'') False)" by simp
  then have "set (po_members db1) \<subseteq> set (po_members db2)"
    using portal_step_effect [of demo_env 35 "Delete_Customer (User ''u1'') (By_Id ''c1'') False" db1]
    by (auto simp: db2_def portal_effect_def members_change_def)
  moreover have "demo_member ''m1'' ''p@b.c'' Owner 20 \<in> set (po_members db1)" by (simp add: db1_def demo_portal_def)
  moreover have "mb_id (demo_member ''m1'' ''p@b.c'' Owner 20) = ''m1''" "member_live (demo_member ''m1'' ''p@b.c'' Owner 20)"
    by (simp_all add: demo_member_def member_live_def)
  ultimately have live: "\<exists>m \<in> set (po_members db2). mb_id m = ''m1'' \<and> member_live m" by blast
  have ttl: "(40 :: int) < 30 + CUSTOMER_SESSION_TTL" by (simp add: CUSTOMER_SESSION_TTL_def)
  have past: "\<forall>(u, op) \<in> set [(35, Delete_Customer (User ''u1'') (By_Id ''c1'') False)]. u \<le> (40 :: int)" by simp
  have "resolve_portal_token demo_env 40 token db2 = Some (if \<exists>m \<in> set (po_members db2). mb_id m = ''m1'' \<and> member_live m
      then Inr (Member ''m1'') else Inl invalid_token)"
    unfolding db2_def
    by (rule portal_session_life [OF demo_portal_ok past ttl, THEN conjunct2, THEN conjunct1, THEN mp, OF made])
  then have "resolve_portal_token demo_env 40 token db2 = Some (Inr (Member ''m1''))" by (simp only: live if_True)
  with made show ?thesis unfolding db2_def by blast
qed

subsection \<open>Short ids\<close>

lemma short_id_sum: "generate_customer_short_id now_millis nextval = (now_millis - CUSTOMER_EPOCH) * 1024 + nextval mod 1024"
proof -
  have seq: "take_bit 10 nextval = nextval mod 1024" by (simp add: take_bit_eq_mod)
  have "push_bit 10 (now_millis - CUSTOMER_EPOCH) + take_bit 10 nextval =
      or (push_bit 10 (now_millis - CUSTOMER_EPOCH)) (take_bit 10 nextval)"
    by (rule disjunctive_add) (auto simp: bit_push_bit_iff bit_take_bit_iff)
  then show ?thesis by (simp add: generate_customer_short_id_def Let_def seq push_bit_eq_mult)
qed

text \<open>The number written by base-26 digits, the most significant first.\<close>

definition base26_value :: "string \<Rightarrow> int" where
  "base26_value s = foldl (\<lambda>acc c. acc * 26 + (of_char c - 65)) 0 s"

lemma base26_value_snoc: "base26_value (s @ [c]) = base26_value s * 26 + (of_char c - 65)"
  by (simp add: base26_value_def)

lemma base26_char_value:
  assumes "0 \<le> d" and "d < 26"
  shows "(of_char (base26_char d) :: int) = 65 + d"
proof -
  have "(of_char (base26_char d) :: nat) = 65 + nat d"
    unfolding base26_char_def of_char_of using assms by simp
  moreover have "(of_char (base26_char d) :: int) = int (of_char (base26_char d))" by (rule of_nat_of_char [symmetric])
  ultimately show ?thesis using assms(1) by simp
qed

lemma mixed_radix:
  assumes "0 \<le> r" "r < 1024" "0 \<le> r'" "r' < (1024 :: int)"
  shows "a * 1024 + r = b * 1024 + r' \<longleftrightarrow> a = b \<and> r = r'"
proof
  assume eq: "a * 1024 + r = b * 1024 + r'"
  have "a = (a * 1024 + r) div 1024" "b = (b * 1024 + r') div 1024" using assms by simp_all
  with eq have "a = b" by simp
  with eq show "a = b \<and> r = r'" by simp
qed simp

lemma base26_chars_value: "0 \<le> n \<Longrightarrow> base26_value (rev (base26_chars n)) = n"
proof (induction n rule: base26_chars.induct)
  case (1 n)
  show ?case
  proof (cases "0 < n")
    case True
    then have "base26_chars n = base26_char (n mod 26) # base26_chars (n div 26)" by (simp add: base26_chars.simps [of n])
    with 1 True show ?thesis by (simp add: base26_value_snoc base26_char_value)
  next
    case False
    with 1 have "n = 0" by simp
    then show ?thesis by (simp add: base26_chars.simps [of 0] base26_value_def)
  qed
qed

lemma base26_padding: "base26_value (replicate k (CHR ''A'') @ s) = base26_value s"
  by (induction k) (simp_all add: base26_value_def)

lemma short_id_value: "0 \<le> n \<Longrightarrow> base26_value (short_id_to_base26 n) = n"
  by (simp add: short_id_to_base26_def Let_def base26_padding base26_chars_value)

lemma base26_value_bound:
  assumes "\<forall>c \<in> set s. (of_char c :: int) < 91" and "\<forall>c \<in> set s. 65 \<le> (of_char c :: int)"
  shows "base26_value s < 26 ^ length s"
  using assms
proof (induction s rule: rev_induct)
  case (snoc c s)
  then have "base26_value s + 1 \<le> 26 ^ length s" "(of_char c :: int) < 91" by auto
  then show ?case by (simp add: base26_value_snoc)
qed (simp add: base26_value_def)

lemma base26_chars_range: "\<forall>c \<in> set (base26_chars n). 65 \<le> (of_char c :: int) \<and> (of_char c :: int) < 91"
proof (induction n rule: base26_chars.induct)
  case (1 n)
  then show ?case
    by (cases "0 < n") (simp_all add: base26_chars.simps [of n] base26_char_value)
qed

lemma short_id_range: "\<forall>c \<in> set (short_id_to_base26 n). 65 \<le> (of_char c :: int) \<and> (of_char c :: int) < 91"
  using base26_chars_range [of n] by (auto simp: short_id_to_base26_def Let_def)

text \<open>
  Property C40: The alphabetic form of a short id determines it: two customers whose ids were drawn in
  different milliseconds, or in one millisecond with sequence numbers that differ modulo 1024, have
  different forms. The form has at least eight characters, and more than eight for every id drawn
  203932681 milliseconds (less than three days) after the start of 2023 or later.
\<close>

theorem short_id_roundtrip:
  assumes "CUSTOMER_EPOCH \<le> t" and "CUSTOMER_EPOCH \<le> t'"
  shows "base26_value (short_id_to_base26 (generate_customer_short_id t k)) = generate_customer_short_id t k \<and>
    (short_id_to_base26 (generate_customer_short_id t k) = short_id_to_base26 (generate_customer_short_id t' k') \<longleftrightarrow>
       t = t' \<and> k mod 1024 = k' mod 1024) \<and>
    SHORT_ID_WIDTH \<le> length (short_id_to_base26 (generate_customer_short_id t k)) \<and>
    (CUSTOMER_EPOCH + 203932681 \<le> t \<longrightarrow>
       SHORT_ID_WIDTH < length (short_id_to_base26 (generate_customer_short_id t k)))"
proof (intro conjI impI)
  have pos: "0 \<le> generate_customer_short_id u l" if "CUSTOMER_EPOCH \<le> u" for u l
    using that by (simp add: short_id_sum)
  show roundtrip: "base26_value (short_id_to_base26 (generate_customer_short_id t k)) = generate_customer_short_id t k"
    by (rule short_id_value [OF pos [OF assms(1)]])
  have "short_id_to_base26 (generate_customer_short_id t k) = short_id_to_base26 (generate_customer_short_id t' k') \<longleftrightarrow>
      generate_customer_short_id t k = generate_customer_short_id t' k'"
    using roundtrip short_id_value [OF pos [OF assms(2)]] by metis
  also have "\<dots> \<longleftrightarrow> t = t' \<and> k mod 1024 = k' mod 1024"
    unfolding short_id_sum by (subst mixed_radix) auto
  finally show "short_id_to_base26 (generate_customer_short_id t k) = short_id_to_base26 (generate_customer_short_id t' k') \<longleftrightarrow>
      t = t' \<and> k mod 1024 = k' mod 1024" .
  show "SHORT_ID_WIDTH \<le> length (short_id_to_base26 (generate_customer_short_id t k))"
    by (simp add: short_id_to_base26_def Let_def)
  assume late: "CUSTOMER_EPOCH + 203932681 \<le> t"
  show "SHORT_ID_WIDTH < length (short_id_to_base26 (generate_customer_short_id t k))"
  proof (rule ccontr)
    assume "\<not> ?thesis"
    then have "length (short_id_to_base26 (generate_customer_short_id t k)) \<le> 8" by (simp add: SHORT_ID_WIDTH_def)
    then have "(26 :: int) ^ length (short_id_to_base26 (generate_customer_short_id t k)) \<le> 26 ^ 8"
      by (intro power_increasing) simp_all
    moreover have "generate_customer_short_id t k < 26 ^ length (short_id_to_base26 (generate_customer_short_id t k))"
      using base26_value_bound [of "short_id_to_base26 (generate_customer_short_id t k)"] short_id_range roundtrip by auto
    moreover have "203932681 * 1024 \<le> generate_customer_short_id t k"
      using late by (simp add: short_id_sum)
    ultimately show False by simp
  qed
qed

theorem short_id_roundtrip_witness:
  "short_id_to_base26 (generate_customer_short_id CUSTOMER_EPOCH 3) \<noteq>
     short_id_to_base26 (generate_customer_short_id (CUSTOMER_EPOCH + 203932681) 3) \<and>
   SHORT_ID_WIDTH < length (short_id_to_base26 (generate_customer_short_id (CUSTOMER_EPOCH + 203932681) 3))"
  using short_id_roundtrip [of CUSTOMER_EPOCH "CUSTOMER_EPOCH + 203932681" 3 3]
    short_id_roundtrip [of "CUSTOMER_EPOCH + 203932681" CUSTOMER_EPOCH 3 3] by simp

end
