(* ===== verification/Spec2Isabelle.thy ===== *)
theory Spec2Isabelle
  imports Channel_Runs Secret_Lifecycle Room_Backends Signaling_Properties Secret_Sales Sharing_Types Stripe_Connect
    Pg_Listing Webhook_Properties Login_Properties Job_Properties
    Project_Properties Customer_Lifecycle
begin

text \<open>
  This development models the core of Rapidly, a service for sharing files between browsers with
  payments: the Python server under \<^verbatim>\<open>src/server/rapidly\<close>, in particular its package
  \<^verbatim>\<open>sharing/file_sharing\<close>, the outgoing webhooks of \<^verbatim>\<open>messaging/webhook\<close> and the sign-in of
  \<^verbatim>\<open>identity/login_code\<close> and \<^verbatim>\<open>identity/auth\<close>, the job queue of \<^verbatim>\<open>worker\<close>, the package \<^verbatim>\<open>projects\<close>, and the customers of a
  workspace with their members and portal sessions (\<^verbatim>\<open>customers\<close>, \<^verbatim>\<open>identity/member\<close>,
  \<^verbatim>\<open>identity/member_session\<close>).

  \<^bold>\<open>The program.\<close> An uploader creates a \<^emph>\<open>channel\<close> (a short and a long slug, a secret, an
  optional price and download limit) or a one-time \<^emph>\<open>secret\<close>; both live in Redis with an expiry.
  Readers look a channel up, prove themselves with a reader token, buy it through Stripe, meet the
  uploader in a signaling room over a WebSocket, and report completed downloads. PostgreSQL keeps an
  audit trail of channels (sessions, downloads, payments, reports), which workers expire. What
  happens is reported to the HTTP endpoints of a workspace by webhook deliveries with retries.
  Users of the dashboard sign in with a mailed code and get a browser session; they plan their work
  in projects. Whoever buys from a workspace becomes one of its customers; a customer has members and
  opens its portal with a bearer token. Background jobs of a request go through a queue in Redis.

  \<^bold>\<open>Theories, from the ground up.\<close>
  \<^item> \<^verbatim>\<open>Prelude\<close>: Python values: JSON documents and field access with the exceptions of the source,
    errors as the sum type \<open>py_error + 'a\<close>, number parsing, string splitting.
  \<^item> \<^verbatim>\<open>Redis_Server\<close>: the Redis server as a record of operations over an abstract state, with its
    documented laws as the locale \<open>redis_server\<close>. The laws speak of the reply to a lookup after
    each command, keys, expiries and their ageing. \<open>ref_redis\<close>, a store of keyed cells with
    remaining seconds, interprets the locale and is the server of every witness.
  \<^item> \<^verbatim>\<open>Lua_Scripts\<close>: the scripts of \<^verbatim>\<open>redis_scripts.py\<close> as atomic steps.
  \<^item> \<^verbatim>\<open>Settings\<close>: the file-sharing settings of \<^verbatim>\<open>config.py\<close>, the schema validators of
    \<^verbatim>\<open>types.py\<close>; hashing, HMAC and Fernet are a record \<open>crypto\<close> with the locale \<open>fernet\<close>.
  \<^item> \<^verbatim>\<open>Rate_Limit\<close>, \<^verbatim>\<open>Slugs\<close>: \<^verbatim>\<open>core/rate_limit.py\<close>, \<^verbatim>\<open>guards.py\<close>, \<^verbatim>\<open>slugs.py\<close>,
    \<^verbatim>\<open>wordlist.py\<close>, and the key builders of \<^verbatim>\<open>queries.py\<close> with the facts that tell them apart.
  \<^item> \<^verbatim>\<open>Channel_Data\<close>, \<^verbatim>\<open>Channel_Repository\<close>, \<^verbatim>\<open>Secret_Repository\<close>: every method of the two
    repositories of \<^verbatim>\<open>queries.py\<close>. \<^verbatim>\<open>Channel_Lifecycle\<close> states what each channel operation
    leaves under each key, \<^verbatim>\<open>Channel_Runs\<close> lifts that to arbitrary sequences of operations and
    waiting, \<^verbatim>\<open>Secret_Lifecycle\<close> does both for secrets.
  \<^item> \<^verbatim>\<open>Room_Transport\<close>: the interface of \<^verbatim>\<open>signaling_transport.py\<close> as the locale
    \<open>room_transport\<close>: what registering, leaving, closing and sending promise of a room's
    membership. \<^verbatim>\<open>Signaling_Rooms\<close> (the in-memory manager of \<^verbatim>\<open>signaling.py\<close>) and
    \<^verbatim>\<open>Redis_Transport\<close> (\<^verbatim>\<open>signaling_redis_transport.py\<close>, membership in Redis, messages over
    pub/sub between workers) interpret it; \<^verbatim>\<open>Room_Backends\<close> derives that both refine one
    specification of rooms and so agree.
  \<^item> \<^verbatim>\<open>Ice_Config\<close>, \<^verbatim>\<open>Signaling_Handlers\<close>, \<^verbatim>\<open>Signaling_Sessions\<close>,
    \<^verbatim>\<open>Signaling_Properties\<close>: the handlers of a signaling message, authentication, the loop of a
    connection, and what holds of them over any transport.
  \<^item> \<^verbatim>\<open>Pg_Tables\<close>, \<^verbatim>\<open>Pg_Listing\<close>, \<^verbatim>\<open>Pg_Sessions\<close>: the rows and queries of
    \<^verbatim>\<open>pg_repository.py\<close>, listing with filters, sorting and pages, the dual writes of
    \<^verbatim>\<open>actions.py\<close> and the tasks of \<^verbatim>\<open>workers.py\<close>. The database is a record \<open>pg\<close> of row lists;
    a failing constraint or an unreachable database is a \<open>SQLAlchemyError\<close>.
  \<^item> \<^verbatim>\<open>Stripe_Connect\<close>: the currencies an account can charge and their cache.
  \<^item> \<^verbatim>\<open>Sharing_Actions\<close>, \<^verbatim>\<open>Sharing_Api\<close>: every function of \<^verbatim>\<open>actions.py\<close> and every HTTP
    endpoint of \<^verbatim>\<open>api.py\<close>, composed as the code composes them. Stripe and the log are the
    record \<open>service_env\<close>; values Python draws (clock, tokens, ids) are arguments.
  \<^item> \<^verbatim>\<open>Sharing_Guards\<close>, \<^verbatim>\<open>Channel_Sales\<close>, \<^verbatim>\<open>Secret_Sales\<close>: what holds of the composed
    service: who pays what, what a payment token opens, what the guards change.
  \<^item> \<^verbatim>\<open>Sharing_Properties\<close>, \<^verbatim>\<open>Sharing_Audit\<close>, \<^verbatim>\<open>Sharing_Types\<close>: reports, new channels,
    statistics, renewals, downloads and access across Redis, the rooms and the audit trail; values
    one component writes and another reads.
  \<^item> \<^verbatim>\<open>Tokens\<close>: the random tokens and storage hashes of \<^verbatim>\<open>core/crypto.py\<close>, with base64 written
    out. \<^verbatim>\<open>Webhook_Addresses\<close>: \<^verbatim>\<open>urlsplit\<close> of the standard library and the address classes the
    URL check and the delivery worker refuse.
  \<^item> \<^verbatim>\<open>Webhook_Tables\<close>, \<^verbatim>\<open>Webhook_Delivery\<close>: endpoints, events and deliveries with the queries,
    actions, tasks and routes of \<^verbatim>\<open>messaging/webhook\<close>. The state \<open>hooks\<close> holds the three tables and
    the queued jobs; the answer of the remote server, the resolver and the signer are arguments.
    \<^verbatim>\<open>Webhook_Facts\<close>, \<^verbatim>\<open>Webhook_Runs\<close>, \<^verbatim>\<open>Webhook_Properties\<close>: what each step leaves, the
    reachable tables, and what they guarantee.
  \<^item> \<^verbatim>\<open>Login\<close>, \<^verbatim>\<open>Login_Properties\<close>: login codes, browser sessions and their routes, over the
    tables \<open>auth_db\<close>; the invariant of its step relation and what follows for a code, a cookie and
    a blocked user.
  \<^item> \<^verbatim>\<open>Job_Queue\<close>, \<^verbatim>\<open>Job_Properties\<close>: \<^verbatim>\<open>worker/_enqueue.py\<close> and \<^verbatim>\<open>worker/_debounce.py\<close>: the jobs
    of a request, their flush to the broker in batches, debouncing through a hash in Redis, and the
    delays of bulk jobs. The broker is a record of what the code asks of it. The theories above
    that only enqueue keep their jobs as a list of the state.
  \<^item> \<^verbatim>\<open>Projects\<close>, \<^verbatim>\<open>Work_Items\<close>, \<^verbatim>\<open>Project_Properties\<close>: the package \<^verbatim>\<open>projects\<close>: projects with
    their members, states and labels, work items with assignees, labels, activities and comments,
    over the tables \<open>projects_db\<close>; who can change a project, and what an update leaves.

  \<^item> \<^verbatim>\<open>Customers\<close>, \<^verbatim>\<open>Members\<close>, \<^verbatim>\<open>Customer_Portal\<close>: the writes of \<^verbatim>\<open>customers/customer\<close>, the
    service of \<^verbatim>\<open>identity/member\<close>, the sessions of customers and members with the resolution of
    their tokens in \<^verbatim>\<open>identity/auth/middlewares.py\<close>, over the tables \<open>portal\<close>; routes and jobs are
    the steps \<open>portal_op\<close>. \<^verbatim>\<open>Portal_Facts\<close>: the shape of what a step changes.
    \<^verbatim>\<open>Portal_Properties\<close>: the invariant of the tables, owners, and the merging of members.
    \<^verbatim>\<open>Customer_Lifecycle\<close>: updates, deletion, the life of a session, short ids.

  \<^bold>\<open>What the lemmas show.\<close> Per operation: its answer on every branch and the cell it leaves under
  every key (\<open>_look\<close>, \<open>_refused\<close>, \<open>_effect\<close>). Over runs: typing of the store, both slugs of a
  channel agreeing, the download counter outliving its channel, items read at most once, the audit
  trail counting what happened. Across components: the two room transports refine one
  specification; credentials, caps and lifetime of connections; sales against Stripe. For
  webhooks: which requests leave the server, what an attempt records, when an endpoint is disabled,
  that archiving ends. For sign-in: codes work once, sessions are bounded, cookies open their
  session. For jobs: a flush loses none, debouncing runs the last of a burst, bulk delays stay in
  their spread. For projects: only those with a role change them, assignees become what was asked.
  For
  customers: an owner stays, merging keeps the strongest member, what deletion frees, how long a token
  works. Some properties pin down behaviour that is probably not meant: they say so.

  \<^bold>\<open>Bounds and fuel.\<close> Slug generation retries \<open>SLUG_MAX_ATTEMPTS\<close> times as in the code. The loop
  of a connection needs no fuel: every round takes a message from the socket or moves the clock
  towards a deadline no message moves, which is its termination measure. The archiving loop of the webhooks is a
  \<^verbatim>\<open>partial_function (option)\<close>, and that it returns is a theorem: no fuel is involved. The digits of a short
  id are a \<open>function\<close> with a measure. All other definitions are structural or not recursive.
  Python integers are \<open>int\<close>; the 32- and 64-bit columns of PostgreSQL are checked where rows are
  written.

  \<^bold>\<open>Not modelled.\<close> Input and output (HTTP framing, WebSocket frames, SQL as text), process ids
  (\<open>check_single_worker\<close> is a flag of the state), logging, metrics. Redis, PostgreSQL's
  transactions beyond commit or roll back, Stripe, Fernet and the hash functions are parameters.
  Of the rest of the server (workspaces, users, billing, catalogue, analytics, OAuth2,
  administration; the listings and exports of customers) only the parts these components call are modelled: most of it composes SQL
  statements, pages of HTML or calls of Stripe and of the authlib framework, whose meaning is not
  in the repository.
\<close>

end
